(* ===== verification/Nsq_Prelude.thy ===== *)
theory Nsq_Prelude
  imports Main "HOL-Library.Word" "HOL-Library.Multiset"
begin

text \<open>
  The vocabulary shared by every component of the development: Go's machine types, the
  big-endian codecs of \<open>encoding/binary\<close>, the slice and map idioms the sources use, and
  the named collections of facts that the component proofs pass to the simplifier.
\<close>

unbundle bit_operations_syntax

named_theorems wire_simps
named_theorems go_defs

type_synonym byte = "8 word"
type_synonym bytes = "byte list"
type_synonym u16 = "16 word"
type_synonym u32 = "32 word"
type_synonym u64 = "64 word"
type_synonym i64 = "64 word"

text \<open>
  \<open>errors.New\<close> and \<open>fmt.Errorf\<close> values are their texts. A Go function with results
  \<open>(T, error)\<close> has the type \<open>error + T\<close>; one with the single result \<open>error\<close> has
  the type \<open>error option\<close>, \<open>None\<close> standing for \<open>nil\<close>.
\<close>

type_synonym go_error = string

section \<open>Integers\<close>

text \<open>
  An \<open>int64\<close> is a 64-bit word read with \<open>sint\<close>; conversions between \<open>int64\<close>
  and \<open>uint64\<close> keep the word. Go's integer division truncates towards zero.
\<close>

definition go_div :: "int \<Rightarrow> int \<Rightarrow> int" where
  "go_div a b = sgn a * sgn b * (\<bar>a\<bar> div \<bar>b\<bar>)"

lemma go_div_nonneg [simp]: "0 \<le> a \<Longrightarrow> 0 < b \<Longrightarrow> go_div a b = a div b"
  by (cases "a = 0") (auto simp: go_div_def)

lemma bit_small_word: "unat (w :: 'a::len word) < 2 ^ n \<Longrightarrow> n \<le> k \<Longrightarrow> \<not> bit w k"
proof
  assume u: "unat w < 2 ^ n" and k: "n \<le> k" and "bit w k"
  then have "bit (unat w) k" by (simp add: bit_unsigned_iff)
  moreover have "unat w < 2 ^ k"
    using u k by (meson less_le_trans one_le_numeral power_increasing)
  ultimately show False by (simp add: bit_iff_odd)
qed

lemma sint_of_nat_small: "m < 2 ^ 63 \<Longrightarrow> sint (of_nat m :: 64 word) = int m"
  by (simp add: sint_uint unsigned_of_nat signed_take_bit_int_eq_self take_bit_nat_eq_self
      signed_of_nat)

section \<open>Big-endian codecs (encoding/binary)\<close>

definition be_encode :: "nat \<Rightarrow> 'a::len word \<Rightarrow> bytes" where
  "be_encode n w = map (\<lambda>i. ucast (drop_bit (8 * (n - 1 - i)) w)) [0..<n]"

definition be_decode :: "bytes \<Rightarrow> 'a::len word" where
  "be_decode bs = foldl (\<lambda>acc b. push_bit 8 acc OR ucast b) 0 bs"

lemma length_be_encode [simp]: "length (be_encode n w) = n"
  by (simp add: be_encode_def)

lemma be_decode_snoc:
  "be_decode (bs @ [b]) = (push_bit 8 (be_decode bs) OR ucast b :: 'a::len word)"
  by (simp add: be_decode_def)

lemma bit_be_decode:
  "bit (be_decode bs :: 'a::len word) k \<longleftrightarrow>
     k < LENGTH('a) \<and> k < 8 * length bs \<and> bit (bs ! (length bs - 1 - k div 8)) (k mod 8)"
proof (induction bs arbitrary: k rule: rev_induct)
  case Nil
  show ?case by (simp add: be_decode_def)
next
  case (snoc b bs)
  show ?case
  proof (cases "k < 8")
    case True
    then show ?thesis
      by (auto simp: be_decode_snoc bit_or_iff bit_push_bit_iff bit_ucast_iff nth_append
          dest: bit_imp_le_length)
  next
    case False
    then obtain m where k: "k = 8 + m" by (metis add.commute le_Suc_ex not_le)
    have "\<not> bit (ucast b :: 'a word) (8 + m)"
      by (auto simp: bit_ucast_iff dest: bit_imp_le_length)
    moreover have "(8 + m) div 8 = Suc (m div 8)" by simp
    ultimately show ?thesis
      using snoc.IH [of m] unfolding k
      by (auto simp: be_decode_snoc bit_or_iff bit_push_bit_iff nth_append)
  qed
qed

lemma be_decode_encode [simp]:
  assumes "LENGTH('a::len) \<le> 8 * n"
  shows "be_decode (be_encode n w) = (w :: 'a word)"
proof (rule bit_word_eqI)
  fix k assume k: "k < LENGTH('a)"
  then have "k div 8 < n" using assms by simp
  then have "n - 1 - (n - 1 - k div 8) = k div 8" and "n - 1 - k div 8 < n"
    by simp_all
  then show "bit (be_decode (be_encode n w) :: 'a word) k = bit w k"
    using k assms
    by (simp add: bit_be_decode be_encode_def bit_ucast_iff bit_drop_bit_eq)
qed

lemma be_encode_inject:
  assumes "LENGTH('a::len) \<le> 8 * n" and "be_encode n (v :: 'a word) = be_encode n w"
  shows "v = w"
  using assms be_decode_encode by metis

section \<open>Lists as Go slices\<close>

definition swap_list :: "'a list \<Rightarrow> nat \<Rightarrow> nat \<Rightarrow> 'a list" where
  "swap_list xs i j = xs[i := xs ! j, j := xs ! i]"

lemma length_swap_list [simp]: "length (swap_list xs i j) = length xs"
  by (simp add: swap_list_def)

lemma nth_swap_list:
  assumes "i < length xs" "j < length xs" "k < length xs"
  shows "swap_list xs i j ! k = (if k = i then xs ! j else if k = j then xs ! i else xs ! k)"
  using assms by (auto simp: swap_list_def nth_list_update)

lemma mset_swap_list [simp]:
  assumes "i < length xs" "j < length xs"
  shows "mset (swap_list xs i j) = mset xs"
  using mset_swap [OF assms(2,1)] by (simp add: swap_list_def)

lemma set_swap_list [simp]:
  assumes "i < length xs" "j < length xs"
  shows "set (swap_list xs i j) = set xs"
  using mset_swap_list [OF assms] by (rule mset_eq_setD)

lemma distinct_swap_list [simp]:
  assumes "i < length xs" "j < length xs"
  shows "distinct (swap_list xs i j) = distinct xs"
  using mset_swap_list [OF assms] by (metis mset_eq_imp_distinct_iff)

lemma butlast_swap_last:
  assumes "i < length xs"
  shows "mset (butlast (swap_list xs i (length xs - 1))) = mset xs - {#xs ! i#}"
proof -
  let ?s = "swap_list xs i (length xs - 1)"
  from assms have ne: "xs \<noteq> []" and l: "length xs - 1 < length xs" by auto
  then have ne': "?s \<noteq> []" by (metis length_swap_list length_0_conv)
  have "last ?s = xs ! i"
    using ne ne' assms l by (simp add: last_conv_nth nth_swap_list)
  moreover have "mset ?s = mset (butlast ?s) + {#last ?s#}"
    using ne' by (metis append_butlast_last_id mset_append mset_single_iff_right mset.simps(1)
        mset.simps(2) add_mset_add_single)
  ultimately show ?thesis using assms l by (metis add_diff_cancel_right' mset_swap_list)
qed

text \<open>A Go map is an association list with distinct keys; its order is one iteration order.\<close>

definition amap_put :: "'k \<Rightarrow> 'v \<Rightarrow> ('k \<times> 'v) list \<Rightarrow> ('k \<times> 'v) list" where
  "amap_put k v m = (if k \<in> fst ` set m then map (\<lambda>(k', v'). if k' = k then (k, v) else (k', v')) m
                     else m @ [(k, v)])"

definition amap_del :: "'k \<Rightarrow> ('k \<times> 'v) list \<Rightarrow> ('k \<times> 'v) list" where
  "amap_del k m = filter (\<lambda>(k', v'). k' \<noteq> k) m"

lemma amap_put_new: "k \<notin> fst ` set m \<Longrightarrow> amap_put k v m = m @ [(k, v)]"
  by (simp add: amap_put_def)

lemma set_amap_del: "set (amap_del k m) = {p \<in> set m. fst p \<noteq> k}"
  by (auto simp: amap_del_def)

lemma distinct_amap_del: "distinct (map fst m) \<Longrightarrow> distinct (map fst (amap_del k m))"
  unfolding amap_del_def by (metis distinct_map_filter)

lemma distinct_amap_del_snd: "distinct (map snd m) \<Longrightarrow> distinct (map snd (amap_del k m))"
  unfolding amap_del_def by (metis distinct_map_filter)

lemma amap_del_absent: "k \<notin> fst ` set m \<Longrightarrow> amap_del k m = m"
  unfolding amap_del_def by (rule filter_True) force

lemma mset_amap_del:
  "distinct (map fst m) \<Longrightarrow> map_of m k = Some v \<Longrightarrow>
     mset m = add_mset (k, v) (mset (amap_del k m))"
proof (induction m)
  case (Cons p m)
  obtain k' v' where p: "p = (k', v')" by fastforce
  show ?case
  proof (cases "k' = k")
    case True
    then have "k \<notin> fst ` set m" "v' = v" using Cons.prems p by auto
    then show ?thesis using True p amap_del_absent [of k m] by (simp add: amap_del_def)
  next
    case False
    then show ?thesis using Cons p by (simp add: amap_del_def)
  qed
qed simp

lemma map_of_amap_del: "map_of (amap_del k m) = (map_of m)(k := None)"
  by (induction m) (auto simp: amap_del_def fun_eq_iff)

lemma map_of_amap_put: "map_of (amap_put k v m) = (map_of m)(k \<mapsto> v)"
proof (cases "k \<in> fst ` set m")
  case True
  have "map_of (map (\<lambda>(k', v'). if k' = k then (k, v) else (k', v')) ps) x =
      (if x = k \<and> map_of ps k \<noteq> None then Some v else map_of ps x)" for x and ps :: "('a \<times> 'b) list"
  proof (induction ps)
    case (Cons p ps)
    then show ?case by (cases p) auto
  qed simp
  moreover have "map_of m k \<noteq> None" using True by (simp add: map_of_eq_None_iff)
  ultimately show ?thesis using True by (simp add: amap_put_def fun_eq_iff)
next
  case False
  then have "map_of m k = None" by (simp add: map_of_eq_None_iff)
  then show ?thesis using False by (auto simp: amap_put_def fun_eq_iff map_add_def split: option.split)
qed

lemma map_of_mem: "distinct (map fst m) \<Longrightarrow> (k, v) \<in> set m \<longleftrightarrow> map_of m k = Some v"
  by auto

end
