(* ===== verification/Nsq_Wire.thy ===== *)
theory Nsq_Wire
  imports Nsq_Prelude
begin

text \<open>
  The wire level that every daemon shares: topic and channel names
  (\<open>internal/protocol/names.go\<close>), decimal parameters (\<open>byte_base10.go\<close>), the error
  values of the protocol (\<open>errors.go\<close>), response framing (\<open>protocol.go\<close>) and the
  message codec (\<open>nsqd/message.go\<close>). Command parameters are strings (a \<open>char\<close> is a byte);
  message bodies and identifiers are byte lists.
\<close>

section \<open>Names\<close>

definition name_char :: "char \<Rightarrow> bool" where
  "name_char c \<longleftrightarrow> (let n = (of_char c :: nat) in
     n = 46 \<or> (97 \<le> n \<and> n \<le> 122) \<or> (65 \<le> n \<and> n \<le> 90) \<or> (48 \<le> n \<and> n \<le> 57) \<or> n = 95 \<or> n = 45)"

definition ephemeral_suffix :: string where
  "ephemeral_suffix = ''#ephemeral''"

definition validTopicChannelNameRegex :: "string \<Rightarrow> bool" where
  "validTopicChannelNameRegex s \<longleftrightarrow>
     takeWhile name_char s \<noteq> [] \<and>
     (dropWhile name_char s = [] \<or> dropWhile name_char s = ephemeral_suffix)"

definition isValidName :: "string \<Rightarrow> bool" where
  "isValidName name =
     (if 64 < length name \<or> length name < 1 then False else validTopicChannelNameRegex name)"

definition IsValidTopicName :: "string \<Rightarrow> bool" where
  "IsValidTopicName name = isValidName name"

definition IsValidChannelName :: "string \<Rightarrow> bool" where
  "IsValidChannelName name = isValidName name"

definition HasSuffix :: "string \<Rightarrow> string \<Rightarrow> bool" where
  "HasSuffix s suf \<longleftrightarrow> length suf \<le> length s \<and> drop (length s - length suf) s = suf"

section \<open>Decimal parameters\<close>

fun base10_loop :: "u64 \<Rightarrow> string \<Rightarrow> go_error + u64" where
  "base10_loop n [] = Inr n"
| "base10_loop n (d # ds) =
     (if 48 \<le> (of_char d :: nat) \<and> (of_char d :: nat) \<le> 57
      then base10_loop (n * 10 + of_nat (of_char d - 48)) ds
      else Inl ''failed to convert to Base10'')"

definition ByteToBase10 :: "string \<Rightarrow> go_error + u64" where
  "ByteToBase10 b = base10_loop 0 b"

section \<open>Protocol errors\<close>

datatype client_err =
    ClientErr (ParentErr: "go_error option") (Code: string) (Desc: string)
  | FatalClientErr (ParentErr: "go_error option") (Code: string) (Desc: string)

definition client_err_Error :: "client_err \<Rightarrow> string" where
  "client_err_Error e = Code e @ '' '' @ Desc e"

definition client_err_Parent :: "client_err \<Rightarrow> go_error option" where
  "client_err_Parent e = ParentErr e"

definition NewClientErr :: "go_error option \<Rightarrow> string \<Rightarrow> string \<Rightarrow> client_err" where
  "NewClientErr p c d = ClientErr p c d"

definition NewFatalClientErr :: "go_error option \<Rightarrow> string \<Rightarrow> string \<Rightarrow> client_err" where
  "NewFatalClientErr p c d = FatalClientErr p c d"

fun is_fatal :: "client_err \<Rightarrow> bool" where
  "is_fatal (ClientErr _ _ _) = False"
| "is_fatal (FatalClientErr _ _ _) = True"

section \<open>Writers and framing\<close>

text \<open>
  An \<open>io.Writer\<close> is the bytes it has accepted and the number of bytes it will still
  accept (\<open>None\<close>: no limit). A write past the limit accepts what fits and reports an error,
  as the interface demands of a short write.
\<close>

record writer =
  w_out :: bytes
  w_room :: "nat option"

definition w_write :: "bytes \<Rightarrow> writer \<Rightarrow> nat \<times> go_error option \<times> writer" where
  "w_write data w =
     (case w_room w of
        None \<Rightarrow> (length data, None, w\<lparr>w_out := w_out w @ data\<rparr>)
      | Some r \<Rightarrow>
          if length data \<le> r
          then (length data, None, w\<lparr>w_out := w_out w @ data, w_room := Some (r - length data)\<rparr>)
          else (r, Some ''short write'', w\<lparr>w_out := w_out w @ take r data, w_room := Some 0\<rparr>))"

definition SendResponse :: "writer \<Rightarrow> bytes \<Rightarrow> nat \<times> go_error option \<times> writer" where
  "SendResponse w data =
     (case w_write (be_encode 4 (of_nat (length data) :: u32)) w of
        (_, Some e, w1) \<Rightarrow> (0, Some e, w1)
      | (_, None, w1) \<Rightarrow>
          (case w_write data w1 of
             (_, Some e, w2) \<Rightarrow> (0, Some e, w2)
           | (n, None, w2) \<Rightarrow> (n + 4, None, w2)))"

definition SendFramedResponse :: "writer \<Rightarrow> u32 \<Rightarrow> bytes \<Rightarrow> nat \<times> go_error option \<times> writer" where
  "SendFramedResponse w frameType data =
     (let size = (of_nat (length data) + 4 :: u32) in
      case w_write (be_encode 4 size) w of
        (n, Some e, w1) \<Rightarrow> (n, Some e, w1)
      | (_, None, w1) \<Rightarrow>
          (case w_write (be_encode 4 frameType) w1 of
             (n, Some e, w2) \<Rightarrow> (n + 4, Some e, w2)
           | (_, None, w2) \<Rightarrow>
               (case w_write data w2 of (n, e, w3) \<Rightarrow> (n + 8, e, w3))))"

section \<open>Messages\<close>

type_synonym MessageID = bytes

definition MsgIDLength :: nat where
  "MsgIDLength = 16"

definition minValidMsgLength :: nat where
  "minValidMsgLength = MsgIDLength + 8 + 2"

text \<open>
  \<open>time.Time\<close> values are nanoseconds since the epoch and durations are nanoseconds, both
  unbounded; \<open>UnixNano\<close> results, which the code keeps in \<open>int64\<close> fields, are words.
\<close>

record Message =
  m_ID :: MessageID
  m_Body :: bytes
  m_Timestamp :: i64
  m_Attempts :: u16
  m_deliveryTS :: int
  m_clientID :: int
  m_pri :: i64
  m_index :: int
  m_deferred :: int

definition zero_Message :: Message where
  "zero_Message = \<lparr>m_ID = replicate MsgIDLength 0, m_Body = [], m_Timestamp = 0, m_Attempts = 0,
     m_deliveryTS = 0, m_clientID = 0, m_pri = 0, m_index = 0, m_deferred = 0\<rparr>"

definition UnixNano :: "int \<Rightarrow> i64" where
  "UnixNano t = word_of_int t"

definition NewMessage :: "int \<Rightarrow> MessageID \<Rightarrow> bytes \<Rightarrow> Message" where
  "NewMessage now i body = zero_Message\<lparr>m_ID := i, m_Body := body, m_Timestamp := UnixNano now\<rparr>"

definition Message_WriteTo :: "Message \<Rightarrow> writer \<Rightarrow> nat \<times> go_error option \<times> writer" where
  "Message_WriteTo m w =
     (let buf = be_encode 8 (m_Timestamp m) @ be_encode 2 (m_Attempts m) in
      case w_write buf w of
        (n1, Some e, w1) \<Rightarrow> (n1, Some e, w1)
      | (n1, None, w1) \<Rightarrow>
          (case w_write (m_ID m) w1 of
             (n2, Some e, w2) \<Rightarrow> (n1 + n2, Some e, w2)
           | (n2, None, w2) \<Rightarrow>
               (case w_write (m_Body m) w2 of (n3, e, w3) \<Rightarrow> (n1 + n2 + n3, e, w3))))"

definition decodeMessage :: "bytes \<Rightarrow> go_error + Message" where
  "decodeMessage b =
     (if length b < minValidMsgLength then Inl ''invalid message buffer size''
      else Inr (zero_Message\<lparr>
        m_Timestamp := be_decode (take 8 b),
        m_Attempts := be_decode (take 2 (drop 8 b)),
        m_ID := take MsgIDLength (drop 10 b),
        m_Body := drop (10 + MsgIDLength) b\<rparr>))"

text \<open>The bytes \<open>WriteTo\<close> leaves in a \<open>bytes.Buffer\<close>, which never refuses a write.\<close>

definition buffer :: writer where
  "buffer = \<lparr>w_out = [], w_room = None\<rparr>"

definition encodeMessage :: "Message \<Rightarrow> bytes" where
  "encodeMessage m = w_out (snd (snd (Message_WriteTo m buffer)))"

definition wf_Message :: "Message \<Rightarrow> bool" where
  "wf_Message m \<longleftrightarrow> length (m_ID m) = MsgIDLength"

text \<open>The fields of a message that travel on the wire and to disk.\<close>

definition wire_part :: "Message \<Rightarrow> Message" where
  "wire_part m = zero_Message\<lparr>m_ID := m_ID m, m_Body := m_Body m, m_Timestamp := m_Timestamp m,
     m_Attempts := m_Attempts m\<rparr>"

section \<open>Lemmas\<close>

lemma encodeMessage_eq [wire_simps]:
  "encodeMessage m = be_encode 8 (m_Timestamp m) @ be_encode 2 (m_Attempts m) @ m_ID m @ m_Body m"
  by (simp add: encodeMessage_def Message_WriteTo_def buffer_def w_write_def)

lemma Message_WriteTo_buffer:
  "w_room w = None \<Longrightarrow> Message_WriteTo m w =
     (length (encodeMessage m), None, w\<lparr>w_out := w_out w @ encodeMessage m\<rparr>)"
  by (simp add: Message_WriteTo_def w_write_def encodeMessage_eq)

lemma length_encodeMessage:
  "wf_Message m \<Longrightarrow> length (encodeMessage m) = minValidMsgLength + length (m_Body m)"
  by (simp add: encodeMessage_eq wf_Message_def minValidMsgLength_def)

lemma decode_encode:
  assumes "wf_Message m"
  shows "decodeMessage (encodeMessage m) = Inr (wire_part m)"
proof -
  have l: "length (m_ID m) = 16" using assms by (simp add: wf_Message_def MsgIDLength_def)
  have "\<not> length (encodeMessage m) < minValidMsgLength"
    using length_encodeMessage [OF assms] by simp
  moreover have "drop 26 (encodeMessage m) = m_Body m" "take 16 (drop 10 (encodeMessage m)) = m_ID m"
    "take 2 (drop 8 (encodeMessage m)) = be_encode 2 (m_Attempts m)"
    "take 8 (encodeMessage m) = be_encode 8 (m_Timestamp m)"
    using l by (simp_all add: encodeMessage_eq)
  ultimately show ?thesis
    by (simp add: decodeMessage_def wire_part_def MsgIDLength_def)
qed

lemma be_encode_decode:
  assumes "8 * length bs = LENGTH('a::len)"
  shows "be_encode (length bs) (be_decode bs :: 'a word) = bs"
proof (rule nth_equalityI)
  show "length (be_encode (length bs) (be_decode bs :: 'a word)) = length bs" by simp
next
  fix i assume "i < length (be_encode (length bs) (be_decode bs :: 'a word))"
  then have i: "i < length bs" by simp
  have "bit (be_encode (length bs) (be_decode bs :: 'a word) ! i) k = bit (bs ! i) k" if "k < 8" for k
  proof -
    let ?p = "8 * (length bs - 1 - i) + k"
    have "?p < 8 * length bs" using i that by linarith
    moreover have "?p div 8 = length bs - 1 - i" "?p mod 8 = k" using that by simp_all
    moreover have "length bs - 1 - (length bs - 1 - i) = i" using i by simp
    ultimately have "bit (be_decode bs :: 'a word) ?p = bit (bs ! i) k"
      using assms by (simp only: bit_be_decode) simp
    then show ?thesis using i that
      by (simp add: be_encode_def bit_ucast_iff bit_drop_bit_eq)
  qed
  then show "be_encode (length bs) (be_decode bs :: 'a word) ! i = bs ! i"
    by (intro bit_word_eqI) simp
qed

lemma encode_decode:
  assumes "decodeMessage b = Inr m"
  shows "encodeMessage m = b \<and> wf_Message m"
proof -
  have l: "26 \<le> length b" and m: "m = zero_Message\<lparr>
        m_Timestamp := be_decode (take 8 b), m_Attempts := be_decode (take 2 (drop 8 b)),
        m_ID := take MsgIDLength (drop 10 b), m_Body := drop (10 + MsgIDLength) b\<rparr>"
    using assms by (auto simp: decodeMessage_def minValidMsgLength_def MsgIDLength_def split: if_splits)
  have "be_encode 8 (be_decode (take 8 b) :: u64) = take 8 b"
    using be_encode_decode [of "take 8 b", where 'a = 64] l by simp
  moreover have "be_encode 2 (be_decode (take 2 (drop 8 b)) :: u16) = take 2 (drop 8 b)"
    using be_encode_decode [of "take 2 (drop 8 b)", where 'a = 16] l by simp
  moreover have "take 8 b @ take 2 (drop 8 b) @ take 16 (drop 10 b) @ drop 26 b = b"
    using take_add [of 8 2 b] take_add [of 10 16 b] append_take_drop_id [of 26 b] by simp
  ultimately show ?thesis using l
    by (simp add: m encodeMessage_eq wf_Message_def MsgIDLength_def)
qed

lemma name_char_hash [simp]: "\<not> name_char CHR ''#''"
  by (simp add: name_char_def)

lemma regex_iff:
  "validTopicChannelNameRegex s \<longleftrightarrow>
     (\<exists>base suf. s = base @ suf \<and> base \<noteq> [] \<and> list_all name_char base \<and>
        (suf = [] \<or> suf = ephemeral_suffix))"
proof
  assume "validTopicChannelNameRegex s"
  then show "\<exists>base suf. s = base @ suf \<and> base \<noteq> [] \<and> list_all name_char base \<and>
        (suf = [] \<or> suf = ephemeral_suffix)"
    unfolding validTopicChannelNameRegex_def list_all_iff
    by (metis set_takeWhileD takeWhile_dropWhile_id)
next
  assume "\<exists>base suf. s = base @ suf \<and> base \<noteq> [] \<and> list_all name_char base \<and>
        (suf = [] \<or> suf = ephemeral_suffix)"
  then obtain base suf where s: "s = base @ suf" "base \<noteq> []" "list_all name_char base"
    "suf = [] \<or> suf = ephemeral_suffix" by blast
  then have "takeWhile name_char s = base" "dropWhile name_char s = suf"
    by (auto simp: list_all_iff takeWhile_append dropWhile_append ephemeral_suffix_def)
  with s show "validTopicChannelNameRegex s" by (auto simp: validTopicChannelNameRegex_def)
qed

definition digit_char :: "char \<Rightarrow> bool" where
  "digit_char d \<longleftrightarrow> 48 \<le> (of_char d :: nat) \<and> (of_char d :: nat) \<le> 57"

definition decimal_value :: "string \<Rightarrow> nat" where
  "decimal_value ds = foldl (\<lambda>n d. n * 10 + (of_char d - 48)) 0 ds"

lemma base10_loop_digits:
  "list_all digit_char ds \<Longrightarrow>
     base10_loop (of_nat n) ds = Inr (of_nat (foldl (\<lambda>n d. n * 10 + (of_char d - 48)) n ds))"
proof (induction ds arbitrary: n)
  case (Cons d ds)
  then have "base10_loop (of_nat n) (d # ds) = base10_loop (of_nat (n * 10 + (of_char d - 48))) ds"
    by (simp add: digit_char_def algebra_simps)
  also have "\<dots> = Inr (of_nat (foldl (\<lambda>n d. n * 10 + (of_char d - 48)) (n * 10 + (of_char d - 48)) ds))"
    using Cons.prems by (intro Cons.IH) simp
  finally show ?case by (simp only: foldl_Cons)
qed simp

lemma base10_loop_bad: "\<not> list_all digit_char ds \<Longrightarrow> \<exists>e. base10_loop n ds = Inl e"
  by (induction ds arbitrary: n) (auto simp: digit_char_def)

section \<open>Properties\<close>

text \<open>
  C35. The message codec is exact in both directions: decoding what \<open>WriteTo\<close> produced gives the
  identifier, body, timestamp and attempts back, and any buffer that decodes is, byte for byte,
  the encoding of the message it decoded to.
\<close>

theorem message_codec:
  "(wf_Message m \<longrightarrow> decodeMessage (encodeMessage m) = Inr (wire_part m)) \<and>
   (decodeMessage b = Inr m' \<longrightarrow> encodeMessage m' = b \<and> wf_Message m')"
  using decode_encode encode_decode by blast

theorem message_codec_witness:
  "decodeMessage (encodeMessage (zero_Message\<lparr>m_Body := [7, 8], m_Attempts := 3\<rparr>)) =
     Inr (zero_Message\<lparr>m_Body := [7, 8], m_Attempts := 3\<rparr>)"
  using message_codec [of "zero_Message\<lparr>m_Body := [7, 8], m_Attempts := 3\<rparr>"]
  by (simp add: wf_Message_def wire_part_def zero_Message_def)

text \<open>
  \<open>ByteToBase10\<close> accepts exactly the strings of decimal digits (the empty string included),
  and its result is the decimal value modulo \<open>2 ^ 64\<close>: an over-long number wraps around silently.
\<close>

theorem ByteToBase10_spec:
  "ByteToBase10 ds = (if list_all digit_char ds then Inr (of_nat (decimal_value ds))
                      else Inl ''failed to convert to Base10'')"
proof (cases "list_all digit_char ds")
  case True
  then show ?thesis using base10_loop_digits [OF True, of 0] by (simp add: ByteToBase10_def decimal_value_def)
next
  case False
  have "base10_loop n ds = Inl ''failed to convert to Base10''" for n
    using False by (induction ds arbitrary: n) (auto simp: digit_char_def)
  with False show ?thesis by (simp add: ByteToBase10_def)
qed

text \<open>A name is valid exactly when it has at most 64 characters and is a non-empty word over the
  name characters, optionally followed by the suffix of ephemeral names.
\<close>

theorem isValidName_spec:
  "isValidName s \<longleftrightarrow> length s \<le> 64 \<and>
     (\<exists>base suf. s = base @ suf \<and> base \<noteq> [] \<and> list_all name_char base \<and>
        (suf = [] \<or> suf = ephemeral_suffix))"
proof -
  have "validTopicChannelNameRegex s \<Longrightarrow> 1 \<le> length s"
    by (cases s) (auto simp: validTopicChannelNameRegex_def)
  then show ?thesis by (auto simp: isValidName_def regex_iff [symmetric])
qed

text \<open>\<open>SendFramedResponse\<close> writes one frame: the size of what follows, the frame type and the
  payload; a reader of the size prefix recovers the length of the payload.
\<close>

theorem SendFramedResponse_frame:
  assumes "w_room w = None" "length data < 2 ^ 32 - 4"
  shows "SendFramedResponse w ft data =
      (length data + 8, None,
       w\<lparr>w_out := w_out w @ be_encode 4 (of_nat (length data + 4) :: u32) @ be_encode 4 ft @ data\<rparr>) \<and>
    unat (be_decode (be_encode 4 (of_nat (length data + 4) :: u32)) :: u32) = length data + 4"
proof -
  have "unat (of_nat (length data + 4) :: u32) = length data + 4"
    unfolding unat_of_nat using assms(2) by simp
  moreover have "be_decode (be_encode 4 (of_nat (length data + 4) :: u32)) = (of_nat (length data + 4) :: u32)"
    by (rule be_decode_encode) simp
  ultimately show ?thesis using assms(1) by (simp add: SendFramedResponse_def w_write_def Let_def)
qed

theorem SendFramedResponse_frame_witness:
  "SendFramedResponse buffer 0 [79, 75] = (10, None, \<lparr>w_out = [0, 0, 0, 6, 0, 0, 0, 0, 79, 75], w_room = None\<rparr>)"
  using SendFramedResponse_frame [of buffer "[79, 75]" 0] by (simp add: buffer_def be_encode_def upt_rec)

end
