(* ===== verification/Nsq_Guid.thy ===== *)
theory Nsq_Guid
  imports Nsq_Wire
begin

text \<open>
  \<open>nsqd/guid.go\<close>: the generator of message identifiers, and \<open>Topic.GenerateID\<close>
  (\<open>nsqd/topic.go\<close>), which retries it. Every read of the clock is an argument. The fields
  are \<open>int64\<close>, so they are 64-bit words compared with \<open>sint\<close>.
\<close>

definition nodeIDBits :: nat where "nodeIDBits = 10"
definition sequenceBits :: nat where "sequenceBits = 12"
definition nodeIDShift :: nat where "nodeIDShift = sequenceBits"
definition timestampShift :: nat where "timestampShift = sequenceBits + nodeIDBits"
definition sequenceMask :: i64 where "sequenceMask = (-1) XOR push_bit sequenceBits (-1)"
definition twepoch :: i64 where "twepoch = 1288834974288"

datatype guid_error = ErrTimeBackwards | ErrSequenceExpired | ErrIDBackwards

record guidFactory =
  g_nodeID :: i64
  g_sequence :: i64
  g_lastTimestamp :: i64
  g_lastID :: i64

definition NewGUIDFactory :: "i64 \<Rightarrow> guidFactory" where
  "NewGUIDFactory nodeID = \<lparr>g_nodeID = nodeID, g_sequence = 0, g_lastTimestamp = 0, g_lastID = 0\<rparr>"

definition guid_of :: "i64 \<Rightarrow> i64 \<Rightarrow> i64 \<Rightarrow> i64" where
  "guid_of ts nodeID sq =
     push_bit timestampShift (ts - twepoch) OR push_bit nodeIDShift nodeID OR sq"

definition NewGUID :: "int \<Rightarrow> guidFactory \<Rightarrow> (guid_error + i64) \<times> guidFactory" where
  "NewGUID now f =
     (let ts = signed_drop_bit 20 (UnixNano now) in
      if sint ts < sint (g_lastTimestamp f) then (Inl ErrTimeBackwards, f)
      else
        let sq = (if g_lastTimestamp f = ts then (g_sequence f + 1) AND sequenceMask else 0);
            f1 = f\<lparr>g_sequence := sq\<rparr>
        in if g_lastTimestamp f = ts \<and> sq = 0 then (Inl ErrSequenceExpired, f1)
           else let f2 = f1\<lparr>g_lastTimestamp := ts\<rparr>;
                    i = guid_of ts (g_nodeID f2) sq
                in if sint i \<le> sint (g_lastID f2) then (Inl ErrIDBackwards, f2)
                   else (Inr i, f2\<lparr>g_lastID := i\<rparr>))"

definition hexdigit :: "nat \<Rightarrow> byte" where
  "hexdigit n = (if n < 10 then of_nat (48 + n) else of_nat (87 + n))"

definition hex_Encode :: "bytes \<Rightarrow> bytes" where
  "hex_Encode bs = concat (map (\<lambda>b. [hexdigit (unat b div 16), hexdigit (unat b mod 16)]) bs)"

definition guid_Hex :: "i64 \<Rightarrow> MessageID" where
  "guid_Hex g = hex_Encode [ucast (drop_bit 56 g), ucast (drop_bit 48 g), ucast (drop_bit 40 g),
     ucast (drop_bit 32 g), ucast (drop_bit 24 g), ucast (drop_bit 16 g), ucast (drop_bit 8 g), ucast g]"

text \<open>
  \<open>GenerateID\<close> asks again after a millisecond until the factory answers. The clock is the
  list of the times the calls see; \<open>None\<close> means that the list ended before an answer.
\<close>

fun Topic_GenerateID :: "int list \<Rightarrow> guidFactory \<Rightarrow> (MessageID \<times> guidFactory) option" where
  "Topic_GenerateID [] f = None"
| "Topic_GenerateID (now # clock) f =
     (case NewGUID now f of
        (Inl _, f') \<Rightarrow> Topic_GenerateID clock f'
      | (Inr i, f') \<Rightarrow> Some (guid_Hex i, f'))"

text \<open>A run of the factory over a list of clock readings, with the identifiers it gave out.\<close>

fun guid_run :: "int list \<Rightarrow> guidFactory \<Rightarrow> i64 list \<times> guidFactory" where
  "guid_run [] f = ([], f)"
| "guid_run (now # clock) f =
     (case NewGUID now f of
        (Inl _, f') \<Rightarrow> guid_run clock f'
      | (Inr i, f') \<Rightarrow> (let (is, f'') = guid_run clock f' in (i # is, f'')))"

section \<open>Identifiers grow\<close>

lemma NewGUID_grows:
  "NewGUID now f = (Inr i, f') \<Longrightarrow> sint (g_lastID f) < sint i \<and> g_lastID f' = i"
  by (auto simp: NewGUID_def Let_def split: if_splits)

lemma NewGUID_error_keeps: "NewGUID now f = (Inl e, f') \<Longrightarrow> g_lastID f' = g_lastID f"
  by (auto simp: NewGUID_def Let_def split: if_splits)

lemma NewGUID_node: "g_nodeID (snd (NewGUID now f)) = g_nodeID f"
  by (simp add: NewGUID_def Let_def)

lemma guid_run_grows:
  "sorted_wrt (\<lambda>a b. sint a < sint b) (g_lastID f # fst (guid_run clock f))"
proof (induction clock arbitrary: f)
  case (Cons now clock)
  obtain r f' where n: "NewGUID now f = (r, f')" by fastforce
  show ?case
  proof (cases r)
    case (Inl e)
    then show ?thesis using n Cons.IH [of f'] NewGUID_error_keeps [of now f e f'] by simp
  next
    case (Inr i)
    then show ?thesis using n Cons.IH [of f'] NewGUID_grows [of now f i f']
      by (auto simp: split_beta Let_def intro: less_trans)
  qed
qed simp

section \<open>The parts of an identifier\<close>

lemma sequenceMask_eq: "sequenceMask = mask 12"
  by (simp add: sequenceMask_def sequenceBits_def mask_eq_exp_minus_1)

lemma NewGUID_form:
  assumes "NewGUID now f = (Inr i, f')"
  shows "i = guid_of (g_lastTimestamp f') (g_nodeID f) (g_sequence f') \<and> unat (g_sequence f') < 4096"
proof -
  have "unat (x AND sequenceMask) < 4096" for x :: i64
    using take_bit_nat_less_exp [of 12 "unat x"]
    by (simp add: sequenceMask_eq flip: take_bit_eq_mask) (simp add: unsigned_take_bit_eq)
  then show ?thesis using assms by (auto simp: NewGUID_def Let_def split: if_splits)
qed

lemma guid_node_bits:
  assumes "unat node < 1024" "unat sq < 4096"
  shows "take_bit 10 (drop_bit 12 (guid_of ts node sq)) = node"
proof (rule bit_word_eqI)
  fix k assume k: "k < LENGTH(64)"
  have n: "\<not> bit node k" if "10 \<le> k"
    using assms(1) that by (intro bit_small_word [of _ 10]) simp_all
  have s: "\<not> bit sq (12 + k)"
    using assms(2) by (intro bit_small_word [of _ 12]) simp_all
  show "bit (take_bit 10 (drop_bit 12 (guid_of ts node sq))) k = bit node k"
    using n s k
    by (auto simp: guid_of_def bit_take_bit_iff bit_drop_bit_eq bit_or_iff bit_push_bit_iff
        timestampShift_def nodeIDShift_def sequenceBits_def nodeIDBits_def)
qed

section \<open>Progress\<close>

lemma guid_of_sum:
  assumes "unat node < 1024" "unat sq < 4096"
  shows "guid_of ts node sq = (ts - twepoch) * 2 ^ 22 + node * 2 ^ 12 + sq"
proof -
  have "\<not> bit node k" if "10 \<le> k" for k
    using assms(1) that by (intro bit_small_word [of _ 10]) simp_all
  moreover have "\<not> bit sq k" if "12 \<le> k" for k
    using assms(2) that by (intro bit_small_word [of _ 12]) simp_all
  ultimately have "push_bit 12 node + sq = push_bit 12 node OR sq"
    "push_bit 22 (ts - twepoch) + (push_bit 12 node OR sq) =
       push_bit 22 (ts - twepoch) OR (push_bit 12 node OR sq)"
    by (intro disjunctive_add; auto simp: bit_or_iff bit_push_bit_iff not_le)+
  then have "guid_of ts node sq = push_bit 22 (ts - twepoch) + (push_bit 12 node + sq)"
    by (simp only: guid_of_def timestampShift_def nodeIDShift_def sequenceBits_def nodeIDBits_def)
      (simp add: or.assoc)
  then show ?thesis by (simp add: push_bit_eq_mult)
qed

text \<open>The times at which the 41 bits of the timestamp field suffice (until the year 2085).\<close>

definition guid_era :: "i64 \<Rightarrow> bool" where
  "guid_era ts \<longleftrightarrow> sint twepoch < sint ts \<and> sint ts < sint twepoch + 2 ^ 41"

lemma guid_of_value:
  assumes "unat node < 1024" "unat sq < 4096" "guid_era ts"
  shows "sint (guid_of ts node sq) =
    (sint ts - sint twepoch) * 2 ^ 22 + int (unat node) * 2 ^ 12 + int (unat sq)"
proof -
  define A where "A = nat (sint ts - sint twepoch)"
  have A: "int A = sint ts - sint twepoch" "A < 2 ^ 41"
    using assms(3) by (auto simp: A_def guid_era_def)
  have "(of_nat A :: i64) = of_int (sint ts - sint twepoch)"
    by (simp flip: A(1))
  also have "\<dots> = ts - twepoch" by simp
  finally have "guid_of ts node sq = of_nat (A * 2 ^ 22 + unat node * 2 ^ 12 + unat sq)"
    using guid_of_sum [OF assms(1,2), of ts] by simp
  moreover have "A * 2 ^ 22 + unat node * 2 ^ 12 + unat sq < 2 ^ 63"
  proof -
    have "A * 2 ^ 22 \<le> (2 ^ 41 - 1) * 2 ^ 22" using A(2) by (intro mult_right_mono) auto
    then show ?thesis using assms(1,2) by simp
  qed
  ultimately have "sint (guid_of ts node sq) = int (A * 2 ^ 22 + unat node * 2 ^ 12 + unat sq)"
    by (simp only: sint_of_nat_small)
  also have "\<dots> = int A * 2 ^ 22 + int (unat node) * 2 ^ 12 + int (unat sq)" by simp
  finally show ?thesis by (simp add: A(1))
qed

definition guid_inv :: "guidFactory \<Rightarrow> bool" where
  "guid_inv f \<longleftrightarrow> unat (g_nodeID f) < 1024 \<and>
     (g_lastID f = 0 \<or> sint (g_lastID f) < (sint (g_lastTimestamp f) - sint twepoch + 1) * 2 ^ 22)"

lemma guid_inv_new: "unat node < 1024 \<Longrightarrow> guid_inv (NewGUIDFactory node)"
  by (simp add: guid_inv_def NewGUIDFactory_def)

lemma guid_below_next:
  assumes "unat node < 1024" "unat sq < 4096" "guid_era ts"
  shows "(sint ts - sint twepoch) * 2 ^ 22 \<le> sint (guid_of ts node sq)"
    "sint (guid_of ts node sq) < (sint ts - sint twepoch + 1) * 2 ^ 22"
proof -
  have "int (unat node) \<le> 1023" "int (unat sq) \<le> 4095" using assms by linarith+
  moreover have "0 \<le> int (unat node) * 2 ^ 12" "0 \<le> int (unat sq)" by simp_all
  moreover have "int (unat node) * 2 ^ 12 + int (unat sq) < 2 ^ 22" using calculation(1,2) by simp
  ultimately show "(sint ts - sint twepoch) * 2 ^ 22 \<le> sint (guid_of ts node sq)"
    and "sint (guid_of ts node sq) < (sint ts - sint twepoch + 1) * 2 ^ 22"
    unfolding guid_of_value [OF assms] distrib_right mult_1 by linarith+
qed

lemma NewGUID_inv:
  assumes inv: "guid_inv f" and era: "guid_era (signed_drop_bit 20 (UnixNano now))"
  shows "guid_inv (snd (NewGUID now f))"
proof -
  let ?ts = "signed_drop_bit 20 (UnixNano now)"
  obtain r f' where n: "NewGUID now f = (r, f')" by fastforce
  show ?thesis
  proof (cases r)
    case (Inr i)
    then have "i = guid_of ?ts (g_nodeID f) (g_sequence f')" "unat (g_sequence f') < 4096"
      "g_lastTimestamp f' = ?ts" "g_lastID f' = i" "g_nodeID f' = g_nodeID f"
      using NewGUID_form [of now f i f'] n by (auto simp: NewGUID_def Let_def split: if_splits)
    then show ?thesis using inv n guid_below_next(2) [OF _ _ era] by (simp add: guid_inv_def)
  next
    case (Inl e)
    then have "g_lastID f' = g_lastID f" "g_nodeID f' = g_nodeID f"
      "sint (g_lastTimestamp f) \<le> sint (g_lastTimestamp f')"
      using n by (auto simp: NewGUID_def Let_def split: if_splits)
    then show ?thesis using inv n by (auto simp: guid_inv_def)
  qed
qed

lemma NewGUID_new_tick:
  assumes inv: "guid_inv f" and era: "guid_era (signed_drop_bit 20 (UnixNano now))"
    and tick: "sint (g_lastTimestamp f) < sint (signed_drop_bit 20 (UnixNano now) :: i64)"
  shows "\<exists>i f'. NewGUID now f = (Inr i, f')"
proof -
  let ?ts = "signed_drop_bit 20 (UnixNano now) :: i64"
  have node: "unat (g_nodeID f) < 1024" using inv by (simp add: guid_inv_def)
  have lo: "(sint ?ts - sint twepoch) * 2 ^ 22 \<le> sint (guid_of ?ts (g_nodeID f) 0)"
    using guid_below_next(1) [OF node _ era] by simp
  have "sint (g_lastID f) < (sint ?ts - sint twepoch) * 2 ^ 22"
  proof (cases "g_lastID f = 0")
    case True
    then show ?thesis using era by (simp add: guid_era_def)
  next
    case False
    then have "sint (g_lastID f) < (sint (g_lastTimestamp f) - sint twepoch + 1) * 2 ^ 22"
      using inv by (simp add: guid_inv_def)
    also have "\<dots> \<le> (sint ?ts - sint twepoch) * 2 ^ 22" using tick by (intro mult_right_mono) auto
    finally show ?thesis .
  qed
  then have "\<not> sint (guid_of ?ts (g_nodeID f) 0) \<le> sint (g_lastID f)" using lo by linarith
  then show ?thesis using tick by (auto simp: NewGUID_def Let_def)
qed

section \<open>Hexadecimal form\<close>

lemma length_hex_Encode [simp]: "length (hex_Encode bs) = 2 * length bs"
  by (induction bs) (simp_all add: hex_Encode_def)

lemma hexdigit_table: "\<forall>m \<in> set [0..<16]. \<forall>n \<in> set [0..<16]. hexdigit m = hexdigit n \<longrightarrow> m = n"
  by code_simp

lemma hexdigit_inj: "m < 16 \<Longrightarrow> n < 16 \<Longrightarrow> hexdigit m = hexdigit n \<Longrightarrow> m = n"
  using hexdigit_table by simp

lemma hex_Encode_inj: "length as = length bs \<Longrightarrow> hex_Encode as = hex_Encode bs \<Longrightarrow> as = bs"
proof (induction as bs rule: list_induct2)
  case (Cons a as b bs)
  have u: "unat a div 16 < 16" "unat b div 16 < 16" using unsigned_less [of a, where ?'a = nat] unsigned_less [of b, where ?'a = nat] by simp_all
  have "hexdigit (unat a div 16) = hexdigit (unat b div 16)"
    "hexdigit (unat a mod 16) = hexdigit (unat b mod 16)" "hex_Encode as = hex_Encode bs"
    using Cons.prems by (simp_all add: hex_Encode_def)
  then have "unat a div 16 = unat b div 16" "unat a mod 16 = unat b mod 16" "as = bs"
    using u hexdigit_inj Cons.IH by simp_all
  then show ?case by (metis div_mult_mod_eq word_unat_eq_iff)
qed simp

lemma guid_Hex_be: "guid_Hex g = hex_Encode (be_encode 8 g)"
  by (simp add: guid_Hex_def be_encode_def upt_rec)

lemma guid_Hex_inj: "guid_Hex a = guid_Hex b \<Longrightarrow> a = b"
  unfolding guid_Hex_be by (rule be_encode_inject [of 8]) (simp_all add: hex_Encode_inj)

lemma length_guid_Hex: "length (guid_Hex g) = MsgIDLength"
  by (simp add: guid_Hex_def MsgIDLength_def)

lemma Topic_GenerateID_wf: "Topic_GenerateID clock f = Some (i, f') \<Longrightarrow> length i = MsgIDLength"
  by (induction clock f rule: Topic_GenerateID.induct)
    (auto simp: length_guid_Hex split: prod.splits sum.splits)

section \<open>Runs of a factory\<close>

lemma increasing_distinct: "sorted_wrt (\<lambda>a b. sint a < sint b) xs \<Longrightarrow> distinct (xs :: i64 list)"
  by (induction xs) auto

lemma guid_run_node:
  "unat (g_nodeID f) < 1024 \<Longrightarrow> i \<in> set (fst (guid_run clock f)) \<Longrightarrow> take_bit 10 (drop_bit 12 i) = g_nodeID f"
proof (induction clock arbitrary: f)
  case (Cons now clock)
  obtain r f' where n: "NewGUID now f = (r, f')" by fastforce
  have node: "g_nodeID f' = g_nodeID f" using NewGUID_node [of now f] n by simp
  show ?case
  proof (cases r)
    case (Inl e)
    then show ?thesis using n node Cons.IH [of f'] Cons.prems by simp
  next
    case (Inr j)
    have "take_bit 10 (drop_bit 12 j) = g_nodeID f"
      using NewGUID_form [of now f j f'] guid_node_bits Cons.prems(1) n Inr by auto
    then show ?thesis using n node Inr Cons.IH [of f'] Cons.prems by (auto simp: split_beta Let_def)
  qed
qed simp

definition clock_ts :: "int \<Rightarrow> i64" where
  "clock_ts now = signed_drop_bit 20 (UnixNano now)"

lemma NewGUID_last:
  "snd (NewGUID now f) = f' \<Longrightarrow> sint (clock_ts now) < T \<Longrightarrow> sint (g_lastTimestamp f) < T \<Longrightarrow>
     sint (g_lastTimestamp f') < T"
  by (auto simp: NewGUID_def Let_def clock_ts_def split: if_splits)

lemma GenerateID_answers:
  assumes "guid_inv f" "\<forall>t \<in> set (clock @ [now]). guid_era (clock_ts t)"
    "sint (g_lastTimestamp f) < sint (clock_ts now)" "\<forall>t \<in> set clock. sint (clock_ts t) < sint (clock_ts now)"
  shows "\<exists>i f'. Topic_GenerateID (clock @ [now]) f = Some (i, f')"
  using assms
proof (induction clock arbitrary: f)
  case Nil
  then show ?case using NewGUID_new_tick [of f now] by (auto simp: clock_ts_def)
next
  case (Cons t clock)
  obtain r f' where n: "NewGUID t f = (r, f')" by fastforce
  have "guid_inv f'" using NewGUID_inv [OF Cons.prems(1), of t] n Cons.prems(2) by (simp add: clock_ts_def)
  moreover have "sint (g_lastTimestamp f') < sint (clock_ts now)"
    using NewGUID_last [of t f f'] n Cons.prems by simp
  ultimately have "\<exists>i g. Topic_GenerateID (clock @ [now]) f' = Some (i, g)"
    using Cons.IH [of f'] Cons.prems by simp
  then show ?case using n by (cases r) auto
qed

section \<open>Properties\<close>

text \<open>
  C36. Whatever the clock does, the identifiers a factory gives out are strictly increasing, so a
  topic never gives two messages the same identifier.
\<close>

theorem guid_never_repeats:
  "sorted_wrt (\<lambda>a b. sint a < sint b) (fst (guid_run clock f)) \<and>
   distinct (map guid_Hex (fst (guid_run clock f)))"
proof -
  have s: "sorted_wrt (\<lambda>a b. sint a < sint b) (fst (guid_run clock f))"
    using guid_run_grows [of f clock] by simp
  then show ?thesis using increasing_distinct [OF s] guid_Hex_inj by (auto simp: distinct_map inj_on_def)
qed

text \<open>
  Two daemons with different node identifiers (both below 1024, as \<open>New\<close> demands) never
  give out the same message identifier, whatever their clocks show.
\<close>

theorem guid_nodes_disjoint:
  assumes "unat (g_nodeID f) < 1024" "unat (g_nodeID f') < 1024" "g_nodeID f \<noteq> g_nodeID f'"
  shows "set (map guid_Hex (fst (guid_run clock f))) \<inter> set (map guid_Hex (fst (guid_run clock' f'))) = {}"
proof -
  have "i \<noteq> j" if "i \<in> set (fst (guid_run clock f))" "j \<in> set (fst (guid_run clock' f'))" for i j
    using guid_run_node [OF assms(1) that(1)] guid_run_node [OF assms(2) that(2)] assms(3) by metis
  then show ?thesis using guid_Hex_inj by auto
qed

theorem guid_nodes_disjoint_witness:
  "set (map guid_Hex (fst (guid_run [1500000000000000000] (NewGUIDFactory 1)))) \<inter>
   set (map guid_Hex (fst (guid_run [1500000000000000000] (NewGUIDFactory 2)))) = {}"
  by (rule guid_nodes_disjoint) (simp_all add: NewGUIDFactory_def)

text \<open>
  \<open>GenerateID\<close> returns: as soon as the clock shows a tick later than every tick seen before,
  within the years the 41-bit timestamp covers, the factory answers, however many calls failed
  before because the sequence was exhausted or the clock went backwards.
\<close>

theorem GenerateID_returns:
  assumes "unat node < 1024" "\<forall>t \<in> set (clock @ [now]). guid_era (clock_ts t)"
    "\<forall>t \<in> set clock. sint (clock_ts t) < sint (clock_ts now)"
  shows "\<exists>i f. Topic_GenerateID (clock @ [now]) (NewGUIDFactory node) = Some (i, f) \<and> length i = MsgIDLength"
proof -
  have "sint twepoch < sint (clock_ts now)" using assms(2) by (simp add: guid_era_def)
  then have "sint (g_lastTimestamp (NewGUIDFactory node)) < sint (clock_ts now)"
    by (simp add: NewGUIDFactory_def twepoch_def)
  from GenerateID_answers [OF guid_inv_new [OF assms(1)] assms(2) this assms(3)]
  show ?thesis using Topic_GenerateID_wf by blast
qed

theorem GenerateID_returns_witness:
  "\<exists>i f. Topic_GenerateID [1500000000000000000, 1500000000001048576] (NewGUIDFactory 1) = Some (i, f) \<and>
     length i = MsgIDLength"
proof -
  have "guid_era (clock_ts 1500000000000000000)" "guid_era (clock_ts 1500000000001048576)"
    "sint (clock_ts 1500000000000000000) < sint (clock_ts 1500000000001048576)"
    by code_simp+
  then show ?thesis using GenerateID_returns [of 1 "[1500000000000000000]" "1500000000001048576"] by simp
qed

end
