(* ===== verification/Nsq_Heap.thy ===== *)
theory Nsq_Heap
  imports Nsq_Prelude
begin

text \<open>
  Array heaps. Both priority queues of the program (the hand-written one of
  \<open>nsqd/in_flight_pqueue.go\<close> and the one over \<open>container/heap\<close> of
  \<open>internal/pqueue\<close>) sift with the same two loops; they differ only in the child the
  downward loop prefers when the two children have equal priority. The loops are stated
  here over an abstract list with a key function, and a locale fixes what the child
  preference must satisfy; each queue is later shown to run exactly these loops.
\<close>

section \<open>The loops\<close>

definition parent :: "nat \<Rightarrow> nat" where
  "parent j = (j - 1) div 2"

lemma parent_less: "0 < j \<Longrightarrow> parent j < j"
  by (simp add: parent_def)

lemma parent_0 [simp]: "parent 0 = 0"
  by (simp add: parent_def)

lemma parent_eq_self [simp]: "parent j = j \<longleftrightarrow> j = 0"
  by (metis less_irrefl not_gr_zero parent_0 parent_less)

lemma parent_less_bound [simp]: "j < n \<Longrightarrow> parent j < n"
  by (simp add: parent_def)

lemma parent_children: "0 < k \<Longrightarrow> parent k = i \<longleftrightarrow> k = 2 * i + 1 \<or> k = 2 * i + 2"
  by (auto simp: parent_def)

lemma parent_left [simp]: "parent (Suc (2 * i)) = i"
  and parent_right [simp]: "parent (Suc (Suc (2 * i))) = i"
  by (simp_all add: parent_def)

function sift_up :: "('a \<Rightarrow> int) \<Rightarrow> 'a list \<Rightarrow> nat \<Rightarrow> 'a list" where
  "sift_up key xs j =
     (if j = 0 \<or> key (xs ! parent j) \<le> key (xs ! j) then xs
      else sift_up key (swap_list xs (parent j) j) (parent j))"
  by pat_completeness auto
termination
  by (relation "measure (\<lambda>(key, xs, j). j)") (auto simp: parent_less)

definition pick_child :: "(int \<Rightarrow> int \<Rightarrow> bool) \<Rightarrow> ('a \<Rightarrow> int) \<Rightarrow> 'a list \<Rightarrow> nat \<Rightarrow> nat \<Rightarrow> nat" where
  "pick_child rp key xs n i =
     (if 2 * i + 2 < n \<and> rp (key (xs ! (2 * i + 1))) (key (xs ! (2 * i + 2)))
      then 2 * i + 2 else 2 * i + 1)"

lemma pick_child_cases: "pick_child rp key xs n i = 2 * i + 1 \<or> pick_child rp key xs n i = 2 * i + 2"
  by (simp add: pick_child_def)

lemma pick_child_gt: "i < pick_child rp key xs n i"
  using pick_child_cases [of rp key xs n i] by auto

lemma pick_child_less [simp]: "2 * i + 1 < n \<Longrightarrow> pick_child rp key xs n i < n"
  by (auto simp: pick_child_def)

lemma parent_pick_child [simp]: "parent (pick_child rp key xs n i) = i"
  using pick_child_cases [of rp key xs n i] by auto

function sift_down :: "(int \<Rightarrow> int \<Rightarrow> bool) \<Rightarrow> ('a \<Rightarrow> int) \<Rightarrow> nat \<Rightarrow> 'a list \<Rightarrow> nat \<Rightarrow> 'a list" where
  "sift_down rp key n xs i =
     (if n \<le> 2 * i + 1 \<or> key (xs ! i) \<le> key (xs ! pick_child rp key xs n i) then xs
      else sift_down rp key n (swap_list xs i (pick_child rp key xs n i)) (pick_child rp key xs n i))"
  by pat_completeness auto
termination
  by (relation "measure (\<lambda>(rp, key, n, xs, i). n - i)")
    (auto simp: pick_child_def split: if_splits)

declare sift_up.simps [simp del] sift_down.simps [simp del]

section \<open>What the loops keep\<close>

lemma length_sift_up [simp]: "length (sift_up key xs j) = length xs"
  by (induction key xs j rule: sift_up.induct) (subst sift_up.simps, auto)

lemma length_sift_down [simp]: "length (sift_down rp key n xs i) = length xs"
  by (induction rp key n xs i rule: sift_down.induct) (subst sift_down.simps, auto)

lemma mset_sift_up: "j < length xs \<Longrightarrow> mset (sift_up key xs j) = mset xs"
proof (induction key xs j rule: sift_up.induct)
  case (1 key xs j)
  then have "parent j < length xs" by (metis le_less_trans less_imp_le not_gr_zero parent_0 parent_less)
  with 1 show ?case by (subst sift_up.simps) auto
qed

lemma mset_sift_down: "n \<le> length xs \<Longrightarrow> mset (sift_down rp key n xs i) = mset xs"
proof (induction rp key n xs i rule: sift_down.induct)
  case (1 rp key n xs i)
  show ?case
  proof (cases "n \<le> 2 * i + 1 \<or> key (xs ! i) \<le> key (xs ! pick_child rp key xs n i)")
    case True
    then show ?thesis by (subst sift_down.simps) simp
  next
    case False
    then have "pick_child rp key xs n i < length xs"
      using "1.prems" pick_child_less [of i n rp key xs] by linarith
    moreover from this have "i < length xs" using pick_child_gt less_trans by blast
    ultimately show ?thesis
      using 1 False by (subst sift_down.simps) auto
  qed
qed

lemma sift_down_frame: "n \<le> k \<Longrightarrow> k < length xs \<Longrightarrow> sift_down rp key n xs i ! k = xs ! k"
proof (induction rp key n xs i rule: sift_down.induct)
  case (1 rp key n xs i)
  show ?case
  proof (cases "n \<le> 2 * i + 1 \<or> key (xs ! i) \<le> key (xs ! pick_child rp key xs n i)")
    case True
    then show ?thesis by (subst sift_down.simps) simp
  next
    case False
    let ?j = "pick_child rp key xs n i"
    from False have j: "?j < n" using pick_child_less [of i n rp key xs] by linarith
    moreover have "i < ?j" by (rule pick_child_gt)
    ultimately have "i < length xs" "?j < length xs" "k \<noteq> i" "k \<noteq> ?j"
      using "1.prems" by linarith+
    then have "swap_list xs i ?j ! k = xs ! k"
      using "1.prems" by (simp add: nth_swap_list)
    with False 1 show ?thesis by (subst sift_down.simps) auto
  qed
qed

lemma sift_up_frame: "j < k \<Longrightarrow> k < length xs \<Longrightarrow> sift_up key xs j ! k = xs ! k"
proof (induction key xs j rule: sift_up.induct)
  case (1 key xs j)
  have "parent j \<le> j" by (simp add: parent_def)
  with 1 have "swap_list xs (parent j) j ! k = xs ! k"
    by (subst nth_swap_list) auto
  with 1 \<open>parent j \<le> j\<close> show ?case by (subst sift_up.simps) auto
qed

section \<open>The heap property, whole and with one bad node\<close>

definition heap_upto :: "('a \<Rightarrow> int) \<Rightarrow> 'a list \<Rightarrow> nat \<Rightarrow> bool" where
  "heap_upto key xs n \<longleftrightarrow> (\<forall>k. 0 < k \<and> k < n \<longrightarrow> key (xs ! parent k) \<le> key (xs ! k))"

definition hole_at :: "('a \<Rightarrow> int) \<Rightarrow> 'a list \<Rightarrow> nat \<Rightarrow> nat \<Rightarrow> bool" where
  "hole_at key xs n i \<longleftrightarrow>
     (\<forall>k. 0 < k \<and> k < n \<and> k \<noteq> i \<and> parent k \<noteq> i \<longrightarrow> key (xs ! parent k) \<le> key (xs ! k)) \<and>
     (\<forall>k. 0 < k \<and> k < n \<and> 0 < i \<and> parent k = i \<longrightarrow> key (xs ! parent i) \<le> key (xs ! k))"

definition small_at :: "('a \<Rightarrow> int) \<Rightarrow> 'a list \<Rightarrow> nat \<Rightarrow> nat \<Rightarrow> bool" where
  "small_at key xs n i \<longleftrightarrow> hole_at key xs n i \<and>
     (\<forall>k. 0 < k \<and> k < n \<and> parent k = i \<longrightarrow> key (xs ! i) \<le> key (xs ! k))"

definition big_at :: "('a \<Rightarrow> int) \<Rightarrow> 'a list \<Rightarrow> nat \<Rightarrow> nat \<Rightarrow> bool" where
  "big_at key xs n i \<longleftrightarrow> hole_at key xs n i \<and> (0 < i \<longrightarrow> key (xs ! parent i) \<le> key (xs ! i))"

lemma heap_uptoD: "heap_upto key xs n \<Longrightarrow> 0 < k \<Longrightarrow> k < n \<Longrightarrow> key (xs ! parent k) \<le> key (xs ! k)"
  by (simp add: heap_upto_def)

lemma heap_upto_mono: "heap_upto key xs n \<Longrightarrow> m \<le> n \<Longrightarrow> heap_upto key xs m"
  by (auto simp: heap_upto_def)

lemma heap_upto_cong:
  assumes "\<And>k. k < n \<Longrightarrow> key (xs ! k) = key' (ys ! k)"
  shows "heap_upto key xs n = heap_upto key' ys n"
proof -
  have "\<And>k. k < n \<Longrightarrow> parent k < n"
    by (metis le_less_trans less_imp_le not_gr_zero parent_0 parent_less)
  then show ?thesis using assms by (auto simp: heap_upto_def)
qed

lemma heap_root_least: "heap_upto key xs n \<Longrightarrow> k < n \<Longrightarrow> key (xs ! 0) \<le> key (xs ! k)"
proof (induction k rule: less_induct)
  case (less k)
  show ?case
  proof (cases "k = 0")
    case False
    then have p: "parent k < k" by (simp add: parent_less)
    then have "key (xs ! 0) \<le> key (xs ! parent k)" using less by simp
    also have "\<dots> \<le> key (xs ! k)" using False less.prems by (simp add: heap_uptoD)
    finally show ?thesis .
  qed simp
qed

lemma heap_upto_small_at:
  assumes "heap_upto key xs n" and "i < n"
  shows "small_at key xs n i"
proof -
  have "key (xs ! parent i) \<le> key (xs ! k)" if "0 < k" "k < n" "0 < i" "parent k = i" for k
    using heap_uptoD [OF assms(1), of i] heap_uptoD [OF assms(1), of k] that assms(2) by simp
  with assms show ?thesis by (auto simp: small_at_def hole_at_def heap_upto_def)
qed

lemma small_at_imp_heap:
  assumes "small_at key xs n j" and "j = 0 \<or> key (xs ! parent j) \<le> key (xs ! j)"
  shows "heap_upto key xs n"
  using assms unfolding small_at_def hole_at_def heap_upto_def by (metis less_not_refl)

lemma small_at_append:
  assumes "heap_upto key xs (length xs)"
  shows "small_at key (xs @ [x]) (Suc (length xs)) (length xs)"
proof -
  have p: "parent k < length xs" if "0 < k" "k < Suc (length xs)" for k
    using parent_less [OF that(1)] that(2) by linarith
  show ?thesis
    using assms p unfolding small_at_def hole_at_def heap_upto_def
    by (auto simp: nth_append) (metis less_irrefl less_SucI)+
qed

section \<open>Sifting up repairs a small node\<close>

lemma small_at_step:
  assumes sm: "small_at key xs n j" and j: "0 < j" "j < n" and n: "n \<le> length xs"
    and less: "key (xs ! j) < key (xs ! parent j)"
  shows "small_at key (swap_list xs (parent j) j) n (parent j)"
proof -
  let ?p = "parent j" and ?ys = "swap_list xs (parent j) j"
  have pj: "?p < j" using j by (simp add: parent_less)
  have ys: "?ys ! k = (if k = ?p then xs ! j else if k = j then xs ! ?p else xs ! k)"
    if "k < n" for k
    using that j n by (intro nth_swap_list) (simp_all add: order_less_le_trans)
  have par: "parent k < n" if "0 < k" "k < n" for k
    using parent_less [OF that(1)] that(2) by simp
  have edge: "key (xs ! parent k) \<le> key (xs ! k)"
    if "0 < k" "k < n" "k \<noteq> j" "parent k \<noteq> j" for k
    using sm that by (auto simp: small_at_def hole_at_def)
  have below: "key (xs ! ?p) \<le> key (xs ! k)" if "0 < k" "k < n" "parent k = j" for k
    using sm that j by (auto simp: small_at_def hole_at_def)
  have sibling: "key (xs ! ?p) \<le> key (xs ! k)" if "0 < k" "k < n" "parent k = ?p" "k \<noteq> j" for k
    using edge [OF that(1,2,4)] that(3) pj by simp
  have h1: "key (?ys ! parent k) \<le> key (?ys ! k)"
    if k: "0 < k" "k < n" "k \<noteq> ?p" "parent k \<noteq> ?p" for k
    using k par [OF k(1,2)] below [OF k(1,2)] edge [OF k(1,2)] by (auto simp: ys)
  have h2: "key (?ys ! parent ?p) \<le> key (?ys ! k)"
    if k: "0 < k" "k < n" "0 < ?p" "parent k = ?p" for k
  proof -
    have up: "parent ?p < ?p" using k by (simp add: parent_less)
    then have e: "key (xs ! parent ?p) \<le> key (xs ! ?p)"
      using edge [of ?p] k pj j by simp
    have "?ys ! parent ?p = xs ! parent ?p" using up pj j by (subst ys) auto
    moreover have "key (xs ! ?p) \<le> key (?ys ! k)"
      using k sibling [of k] pj by (subst ys) auto
    ultimately show ?thesis using e by simp
  qed
  have h3: "key (?ys ! ?p) \<le> key (?ys ! k)" if k: "0 < k" "k < n" "parent k = ?p" for k
  proof -
    have "?ys ! ?p = xs ! j" using pj j by (subst ys) auto
    moreover have "key (xs ! ?p) \<le> key (?ys ! k)"
      using k sibling [of k] by (subst ys) auto
    ultimately show ?thesis using less by simp
  qed
  show ?thesis using h1 h2 h3 by (auto simp: small_at_def hole_at_def)
qed

lemma sift_up_heap:
  "small_at key xs n j \<Longrightarrow> j < n \<Longrightarrow> n \<le> length xs \<Longrightarrow> heap_upto key (sift_up key xs j) n"
proof (induction key xs j rule: sift_up.induct)
  case (1 key xs j)
  show ?case
  proof (cases "j = 0 \<or> key (xs ! parent j) \<le> key (xs ! j)")
    case True
    then show ?thesis using small_at_imp_heap [OF "1.prems"(1)] by (subst sift_up.simps) auto
  next
    case False
    then have "small_at key (swap_list xs (parent j) j) n (parent j)" and "parent j < n"
      using small_at_step [OF "1.prems"(1)] "1.prems" parent_less [of j] by auto
    then show ?thesis using 1 False by (subst sift_up.simps) simp
  qed
qed

section \<open>Sifting down repairs a big node\<close>

locale child_preference =
  fixes rp :: "int \<Rightarrow> int \<Rightarrow> bool"
  assumes prefers_right: "rp a b \<Longrightarrow> b \<le> a"
    and prefers_left: "\<not> rp a b \<Longrightarrow> a \<le> b"
begin

lemma pick_child_least:
  assumes "0 < k" "k < n" "parent k = i"
  shows "key (xs ! pick_child rp key xs n i) \<le> key (xs ! k)"
  using assms prefers_right prefers_left
  by (auto simp: parent_children pick_child_def)

lemma big_at_step:
  assumes bg: "hole_at key xs n i" and i: "2 * i + 1 < n" and n: "n \<le> length xs"
    and less: "key (xs ! pick_child rp key xs n i) < key (xs ! i)"
  shows "big_at key (swap_list xs i (pick_child rp key xs n i)) n (pick_child rp key xs n i)"
proof -
  let ?j = "pick_child rp key xs n i"
  let ?ys = "swap_list xs i ?j"
  have ij: "i < ?j" "?j < n" "parent ?j = i" using i pick_child_less [of i n rp key xs] by (simp_all add: pick_child_gt)
  then have i_n: "i < n" by linarith
  have ys: "?ys ! k = (if k = i then xs ! ?j else if k = ?j then xs ! i else xs ! k)" if "k < n" for k
    using that ij i_n n by (intro nth_swap_list) simp_all
  have par: "parent k < n" if "0 < k" "k < n" for k
    using parent_less [OF that(1)] that(2) by simp
  have edge: "key (xs ! parent k) \<le> key (xs ! k)"
    if "0 < k" "k < n" "k \<noteq> i" "parent k \<noteq> i" for k
    using bg that by (auto simp: hole_at_def)
  have above: "key (xs ! parent i) \<le> key (xs ! ?j)" if "0 < i"
    using bg that ij unfolding hole_at_def by (metis gr_zeroI not_less_zero)
  have least: "key (xs ! ?j) \<le> key (xs ! k)" if "0 < k" "k < n" "parent k = i" for k
    using that by (rule pick_child_least)
  have h1: "key (?ys ! parent k) \<le> key (?ys ! k)"
    if k: "0 < k" "k < n" "k \<noteq> ?j" "parent k \<noteq> ?j" for k
    using k par [OF k(1,2)] edge [OF k(1,2)] least [OF k(1,2)] above
    by (cases "k = i") (auto simp: ys)
  have h2: "key (?ys ! parent ?j) \<le> key (?ys ! k)" if k: "0 < k" "k < n" "parent k = ?j" for k
  proof -
    have "?j < k" using parent_less [OF k(1)] k(3) by simp
    then have "key (xs ! ?j) \<le> key (xs ! k)" using edge [OF k(1,2)] k ij by auto
    moreover have "?ys ! parent ?j = xs ! ?j" "?ys ! k = xs ! k"
      using \<open>?j < k\<close> ij i_n k by (simp_all add: ys)
    ultimately show ?thesis by simp
  qed
  have h3: "key (?ys ! parent ?j) \<le> key (?ys ! ?j)" using ij less by (simp add: ys)
  show ?thesis using h1 h2 h3 by (auto simp: big_at_def hole_at_def)
qed

lemma hole_stop:
  assumes "hole_at key xs n i"
    and "n \<le> 2 * i + 1 \<or> key (xs ! i) \<le> key (xs ! pick_child rp key xs n i)"
  shows "small_at key xs n i"
proof -
  have "key (xs ! i) \<le> key (xs ! k)" if "0 < k" "k < n" "parent k = i" for k
    using assms(2) pick_child_least [OF that, of key xs] that by (auto simp: parent_children)
  with assms(1) show ?thesis by (auto simp: small_at_def)
qed

lemma sift_down_heap:
  "big_at key xs n i \<Longrightarrow> n \<le> length xs \<Longrightarrow> heap_upto key (sift_down rp key n xs i) n"
proof (induction "n - i" arbitrary: xs i rule: less_induct)
  case less
  let ?j = "pick_child rp key xs n i"
  show ?case
  proof (cases "n \<le> 2 * i + 1 \<or> key (xs ! i) \<le> key (xs ! ?j)")
    case True
    then have "small_at key xs n i" using less.prems hole_stop by (auto simp: big_at_def)
    then have "heap_upto key xs n"
      by (rule small_at_imp_heap) (use less.prems in \<open>auto simp: big_at_def\<close>)
    with True show ?thesis by (subst sift_down.simps) auto
  next
    case False
    then have "big_at key (swap_list xs i ?j) n ?j"
      using less.prems by (intro big_at_step) (auto simp: big_at_def)
    moreover have "n - ?j < n - i"
      using False pick_child_gt [of i rp key xs n] by linarith
    ultimately show ?thesis using less False by (subst sift_down.simps) simp
  qed
qed

lemma sift_down_small:
  assumes "hole_at key xs n i" and "i < n" and n: "n \<le> length xs"
  shows "small_at key (sift_down rp key n xs i) n i"
proof (cases "n \<le> 2 * i + 1 \<or> key (xs ! i) \<le> key (xs ! pick_child rp key xs n i)")
  case True
  then show ?thesis using hole_stop [OF assms(1)] by (subst sift_down.simps) simp
next
  case False
  let ?j = "pick_child rp key xs n i"
  have "big_at key (swap_list xs i ?j) n ?j"
    using assms False by (intro big_at_step) auto
  then have "heap_upto key (sift_down rp key n xs i) n"
    using False n by (subst sift_down.simps) (simp add: sift_down_heap)
  then show ?thesis using assms(2) by (rule heap_upto_small_at)
qed

text \<open>
  Replacing the element at \<open>i\<close> by the last one and sifting it down and then up gives a heap
  on the shortened list: the body of both \<open>Remove\<close> operations.
\<close>

lemma hole_at_swap_last:
  assumes h: "heap_upto key xs (length xs)" and i: "i < length xs - 1"
  shows "hole_at key (swap_list xs i (length xs - 1)) (length xs - 1) i"
proof -
  let ?l = "length xs - 1"
  let ?ys = "swap_list xs i ?l"
  have ys: "?ys ! k = (if k = i then xs ! ?l else xs ! k)" if "k < ?l" for k
    using that i by (subst nth_swap_list) auto
  have edge: "key (xs ! parent k) \<le> key (xs ! k)" if "0 < k" "k < ?l" for k
    using heap_uptoD [OF h, of k] that by simp
  have h1: "key (?ys ! parent k) \<le> key (?ys ! k)"
    if "0 < k" "k < ?l" "k \<noteq> i" "parent k \<noteq> i" for k
    using that edge [of k] parent_less_bound [OF that(2)] by (simp only: ys) simp
  have h2: "key (?ys ! parent i) \<le> key (?ys ! k)" if "0 < k" "k < ?l" "0 < i" "parent k = i" for k
  proof -
    have "i < k" "parent i < i" using that parent_less [of k] parent_less [of i] by auto
    then show ?thesis using that i edge [of i] edge [of k] by (simp only: ys) simp
  qed
  show ?thesis using h1 h2 by (auto simp: hole_at_def)
qed

lemma remove_heap:
  assumes h: "heap_upto key xs (length xs)" and i: "i < length xs - 1"
  defines "ys \<equiv> sift_down rp key (length xs - 1) (swap_list xs i (length xs - 1)) i"
  shows "heap_upto key (sift_up key ys i) (length xs - 1)"
  unfolding ys_def using hole_at_swap_last [OF h i] i
  by (intro sift_up_heap sift_down_small) auto

lemma pop_heap:
  assumes h: "heap_upto key xs (length xs)" and ne: "xs \<noteq> []"
  shows "heap_upto key (sift_down rp key (length xs - 1) (swap_list xs 0 (length xs - 1)) 0)
           (length xs - 1)"
proof (cases "length xs = 1")
  case True
  then show ?thesis by (simp add: heap_upto_def)
next
  case False
  with ne have "0 < length xs - 1" by (cases xs) auto
  then have "hole_at key (swap_list xs 0 (length xs - 1)) (length xs - 1) 0"
    using h by (rule hole_at_swap_last [rotated])
  then show ?thesis by (intro sift_down_heap) (auto simp: big_at_def)
qed

end

interpretation right_on_ties: child_preference "\<lambda>a b. b \<le> a"
  by unfold_locales auto

interpretation left_on_ties: child_preference "\<lambda>a b. b < a"
  by unfold_locales auto

end
