(* ===== verification/Nsq_TimeoutQueue.thy ===== *)
theory Nsq_TimeoutQueue
  imports Nsq_Prelude
begin

text \<open>
  The contract the channel relies on for both of its priority queues (in-flight deadlines and
  deferred messages): elements with a priority, an operation that adds one, and an operation
  that takes the least one when it is due. The laws speak of the multiset of queued elements;
  \<open>None\<close> as the result of an operation would be a panic, and the laws exclude it. The
  channel's scan loop is the client: it is proved here, once, that a scan takes exactly the
  due elements, in the order of their priorities.
\<close>

fun drain :: "('s \<Rightarrow> (('r option \<times> i64) \<times> 's) option) \<Rightarrow> nat \<Rightarrow> 's \<Rightarrow> ('r list \<times> 's) option" where
  "drain shift 0 s = None"
| "drain shift (Suc n) s =
     (case shift s of
        None \<Rightarrow> None
      | Some ((None, _), s') \<Rightarrow> Some ([], s')
      | Some ((Some x, _), s') \<Rightarrow> map_option (\<lambda>(xs, s''). (x # xs, s'')) (drain shift n s'))"

fun push_all :: "('r \<Rightarrow> 's \<Rightarrow> 's option) \<Rightarrow> 'r list \<Rightarrow> 's \<Rightarrow> 's option" where
  "push_all push [] s = Some s"
| "push_all push (x # xs) s = (case push x s of None \<Rightarrow> None | Some s' \<Rightarrow> push_all push xs s')"

locale timeout_queue =
  fixes q_push :: "'r \<Rightarrow> 's \<Rightarrow> 's option"
    and q_shift :: "i64 \<Rightarrow> 's \<Rightarrow> (('r option \<times> i64) \<times> 's) option"
    and q_elems :: "'s \<Rightarrow> 'r multiset"
    and q_prio :: "'s \<Rightarrow> 'r \<Rightarrow> int"
    and q_inv :: "'s \<Rightarrow> bool"
  assumes push_law: "q_inv s \<Longrightarrow> x \<notin># q_elems s \<Longrightarrow>
      \<exists>s'. q_push x s = Some s' \<and> q_inv s' \<and> q_elems s' = add_mset x (q_elems s) \<and> q_prio s' = q_prio s"
    and shift_idle: "q_inv s \<Longrightarrow> \<forall>r \<in># q_elems s. sint t < q_prio s r \<Longrightarrow>
      \<exists>d. q_shift t s = Some ((None, d), s)"
    and shift_due: "q_inv s \<Longrightarrow> r \<in># q_elems s \<Longrightarrow> q_prio s r \<le> sint t \<Longrightarrow>
      \<exists>x s'. q_shift t s = Some ((Some x, 0), s') \<and> x \<in># q_elems s \<and>
        (\<forall>y \<in># q_elems s. q_prio s x \<le> q_prio s y) \<and>
        q_inv s' \<and> q_elems s' = q_elems s - {#x#} \<and> q_prio s' = q_prio s"
begin

lemma shift_cases:
  assumes "q_inv s"
  obtains (idle) d where "q_shift t s = Some ((None, d), s)" "\<forall>r \<in># q_elems s. sint t < q_prio s r"
  | (due) x s' where "q_shift t s = Some ((Some x, 0), s')" "x \<in># q_elems s" "q_prio s x \<le> sint t"
      "\<forall>y \<in># q_elems s. q_prio s x \<le> q_prio s y"
      "q_inv s'" "q_elems s' = q_elems s - {#x#}" "q_prio s' = q_prio s"
proof (cases "\<forall>r \<in># q_elems s. sint t < q_prio s r")
  case True
  then show ?thesis using shift_idle [OF assms] idle by blast
next
  case False
  then obtain r where r: "r \<in># q_elems s" "q_prio s r \<le> sint t" by force
  then obtain x s' where "q_shift t s = Some ((Some x, 0), s')" "x \<in># q_elems s"
      "\<forall>y \<in># q_elems s. q_prio s x \<le> q_prio s y"
      "q_inv s'" "q_elems s' = q_elems s - {#x#}" "q_prio s' = q_prio s"
    using shift_due [OF assms] by blast
  then show ?thesis using due r order_trans by blast
qed

lemma drain_due_in_order:
  "q_inv s \<Longrightarrow> size (q_elems s) < n \<Longrightarrow>
     \<exists>xs s'. drain (q_shift t) n s = Some (xs, s') \<and>
       mset xs = filter_mset (\<lambda>r. q_prio s r \<le> sint t) (q_elems s) \<and>
       sorted (map (q_prio s) xs) \<and>
       q_elems s' = filter_mset (\<lambda>r. sint t < q_prio s r) (q_elems s) \<and>
       q_inv s' \<and> q_prio s' = q_prio s"
proof (induction n arbitrary: s)
  case (Suc n)
  from \<open>q_inv s\<close> show ?case
  proof (cases rule: shift_cases [where t = t])
    case (idle d)
    then have "filter_mset (\<lambda>r. q_prio s r \<le> sint t) (q_elems s) = {#}"
      and "filter_mset (\<lambda>r. sint t < q_prio s r) (q_elems s) = q_elems s"
      by (fastforce simp: multiset_eq_iff simp flip: not_in_iff)+
    with idle Suc.prems show ?thesis by simp
  next
    case (due x s')
    have "size (q_elems s') < n"
      using due(2,6) Suc.prems(2) by (auto dest!: multi_member_split)
    then obtain xs s'' where d: "drain (q_shift t) n s' = Some (xs, s'')"
      and m: "mset xs = filter_mset (\<lambda>r. q_prio s r \<le> sint t) (q_elems s')"
      and so: "sorted (map (q_prio s) xs)"
      and e: "q_elems s'' = filter_mset (\<lambda>r. sint t < q_prio s r) (q_elems s')"
      and i: "q_inv s''" "q_prio s'' = q_prio s"
      using Suc.IH [OF due(5)] due(7) by auto
    from due(2) obtain E where E: "q_elems s = add_mset x E" by (auto dest: multi_member_split)
    then have E': "q_elems s' = E" using due(6) by simp
    have "\<forall>y \<in> set xs. q_prio s x \<le> q_prio s y"
      using m due(4) E E' by (metis (no_types, lifting) filter_mset_eq_conv insertI2 mset_subset_eqD
          set_mset_add_mset_insert set_mset_mset multiset_filter_subset)
    then have "sorted (map (q_prio s) (x # xs))" using so by simp
    moreover have "mset (x # xs) = filter_mset (\<lambda>r. q_prio s r \<le> sint t) (q_elems s)"
      using m E E' due(3) by simp
    moreover have "q_elems s'' = filter_mset (\<lambda>r. sint t < q_prio s r) (q_elems s)"
      using e E E' due(3) by simp
    ultimately show ?thesis using d due(1) i by (intro exI [of _ "x # xs"] exI [of _ s'']) simp
  qed
qed simp

lemma push_all_law:
  "q_inv s \<Longrightarrow> distinct xs \<Longrightarrow> set xs \<inter> set_mset (q_elems s) = {} \<Longrightarrow>
     \<exists>s'. push_all q_push xs s = Some s' \<and> q_inv s' \<and> q_elems s' = mset xs + q_elems s \<and> q_prio s' = q_prio s"
proof (induction xs arbitrary: s)
  case (Cons x xs)
  then obtain s1 where s1: "q_push x s = Some s1" "q_inv s1" "q_elems s1 = add_mset x (q_elems s)" "q_prio s1 = q_prio s"
    using push_law [of s x] by auto
  then have "set xs \<inter> set_mset (q_elems s1) = {}" using Cons.prems by auto
  with Cons.IH [OF s1(2)] Cons.prems(2) s1 show ?case by auto
qed simp

lemma push_then_drain:
  assumes "q_inv s" "q_elems s = {#}" "distinct xs" "length xs < n"
  shows "\<exists>s1 ys s2. push_all q_push xs s = Some s1 \<and> drain (q_shift t) n s1 = Some (ys, s2) \<and>
    mset ys = filter_mset (\<lambda>r. q_prio s r \<le> sint t) (mset xs) \<and> sorted (map (q_prio s) ys) \<and>
    q_elems s2 = filter_mset (\<lambda>r. sint t < q_prio s r) (mset xs)"
proof -
  obtain s1 where s1: "push_all q_push xs s = Some s1" "q_inv s1" "q_elems s1 = mset xs" "q_prio s1 = q_prio s"
    using push_all_law [OF assms(1,3)] assms(2) by auto
  have "size (q_elems s1) < n" using s1(3) assms(4) by simp
  from drain_due_in_order [OF s1(2) this, of t] s1 show ?thesis by auto
qed

end

end
