(* ===== verification/Nsq_InFlightPQ.thy ===== *)
theory Nsq_InFlightPQ
  imports Nsq_Heap Nsq_TimeoutQueue Nsq_Wire
begin

text \<open>
  \<open>nsqd/in_flight_pqueue.go\<close>: the min-heap of in-flight messages. The queue is a slice of
  message pointers and every move writes the \<open>index\<close> field of the messages it moves, which
  the channel later uses to remove a message from the middle. The model keeps the aliasing: a
  store maps references to messages, the queue holds references. A slice is its elements and
  its capacity; an access Go would stop with a panic is the value \<open>None\<close>.
\<close>

type_synonym ref = nat
type_synonym mstore = "ref \<Rightarrow> Message"

record inFlightPqueue =
  pq_elems :: "ref list"
  pq_cap :: nat

definition newInFlightPqueue :: "nat \<Rightarrow> inFlightPqueue" where
  "newInFlightPqueue capacity = \<lparr>pq_elems = [], pq_cap = capacity\<rparr>"

definition set_index :: "ref \<Rightarrow> int \<Rightarrow> mstore \<Rightarrow> mstore" where
  "set_index r i h = h(r := (h r)\<lparr>m_index := i\<rparr>)"

definition pri_of :: "mstore \<Rightarrow> ref \<Rightarrow> int" where
  "pri_of h r = sint (m_pri (h r))"

definition pq_Swap :: "nat \<Rightarrow> nat \<Rightarrow> mstore \<times> ref list \<Rightarrow> mstore \<times> ref list" where
  "pq_Swap i j = (\<lambda>(h, q).
     let q' = swap_list q i j
     in (set_index (q' ! j) (int j) (set_index (q' ! i) (int i) h), q'))"

function pq_up :: "nat \<Rightarrow> mstore \<times> ref list \<Rightarrow> mstore \<times> ref list" where
  "pq_up j (h, q) =
     (let i = (j - 1) div 2 in
      if i = j \<or> pri_of h (q ! i) \<le> pri_of h (q ! j) then (h, q)
      else pq_up i (pq_Swap i j (h, q)))"
  by pat_completeness auto
termination
  by (relation "measure (\<lambda>(j, s). j)") auto

function pq_down :: "nat \<Rightarrow> nat \<Rightarrow> mstore \<times> ref list \<Rightarrow> mstore \<times> ref list" where
  "pq_down i n (h, q) =
     (let j1 = 2 * i + 1 in
      if n \<le> j1 then (h, q)
      else let j2 = j1 + 1;
               j = (if j2 < n \<and> pri_of h (q ! j2) \<le> pri_of h (q ! j1) then j2 else j1)
           in if pri_of h (q ! i) \<le> pri_of h (q ! j) then (h, q)
              else pq_down j n (pq_Swap i j (h, q)))"
  by pat_completeness auto
termination
  by (relation "measure (\<lambda>(i, n, s). n - i)") (auto split: if_splits)

declare pq_up.simps [simp del] pq_down.simps [simp del]

definition pq_Push :: "ref \<Rightarrow> mstore \<times> inFlightPqueue \<Rightarrow> (mstore \<times> inFlightPqueue) option" where
  "pq_Push x = (\<lambda>(h, pq).
     let n = length (pq_elems pq); c = pq_cap pq;
         c' = (if c < n + 1 then c * 2 else c)
     in if c' < n + 1 then None
        else let (h', q') = pq_up n (set_index x (int n) h, pq_elems pq @ [x])
             in Some (h', \<lparr>pq_elems = q', pq_cap = c'\<rparr>))"

definition pq_Pop :: "mstore \<times> inFlightPqueue \<Rightarrow> (ref \<times> mstore \<times> inFlightPqueue) option" where
  "pq_Pop = (\<lambda>(h, pq).
     let n = length (pq_elems pq); c = pq_cap pq
     in if n = 0 then None
        else let (h1, q1) = pq_down 0 (n - 1) (pq_Swap 0 (n - 1) (h, pq_elems pq));
                 c' = (if n < c div 2 \<and> 25 < c then c div 2 else c);
                 x = q1 ! (n - 1)
             in Some (x, set_index x (-1) h1, \<lparr>pq_elems = take (n - 1) q1, pq_cap = c'\<rparr>))"

definition pq_Remove :: "int \<Rightarrow> mstore \<times> inFlightPqueue \<Rightarrow> (ref \<times> mstore \<times> inFlightPqueue) option" where
  "pq_Remove i = (\<lambda>(h, pq).
     let n = length (pq_elems pq)
     in if n = 0 \<or> i < 0 \<or> int n \<le> i then None
        else let k = nat i;
                 (h1, q1) =
                   (if int n - 1 \<noteq> i
                    then pq_up k (pq_down k (n - 1) (pq_Swap k (n - 1) (h, pq_elems pq)))
                    else (h, pq_elems pq));
                 x = q1 ! (n - 1)
             in Some (x, set_index x (-1) h1, pq\<lparr>pq_elems := take (n - 1) q1\<rparr>))"

text \<open>The result: a message, if one is due, and the time left otherwise.\<close>

definition pq_PeekAndShift ::
    "i64 \<Rightarrow> mstore \<times> inFlightPqueue \<Rightarrow> ((ref option \<times> i64) \<times> mstore \<times> inFlightPqueue) option" where
  "pq_PeekAndShift mx = (\<lambda>(h, pq).
     if length (pq_elems pq) = 0 then Some ((None, 0), h, pq)
     else let x = pq_elems pq ! 0
          in if sint mx < sint (m_pri (h x)) then Some ((None, m_pri (h x) - mx), h, pq)
             else case pq_Pop (h, pq) of
                    None \<Rightarrow> None
                  | Some (_, h', pq') \<Rightarrow> Some ((Some x, 0), h', pq'))"

section \<open>The loops are the abstract heap loops\<close>

text \<open>\<open>index_ok\<close>: every message of the queue knows its position.\<close>

definition index_ok :: "mstore \<Rightarrow> ref list \<Rightarrow> bool" where
  "index_ok h q \<longleftrightarrow> distinct q \<and> (\<forall>k < length q. m_index (h (q ! k)) = int k)"

text \<open>\<open>same_but_index\<close>: two stores agree on everything but index fields of the given messages.\<close>

definition same_but_index :: "ref set \<Rightarrow> mstore \<Rightarrow> mstore \<Rightarrow> bool" where
  "same_but_index R h h' \<longleftrightarrow>
     (\<forall>r. (h' r)\<lparr>m_index := 0\<rparr> = (h r)\<lparr>m_index := 0\<rparr>) \<and> (\<forall>r. r \<notin> R \<longrightarrow> h' r = h r)"

lemma same_but_index_refl [simp]: "same_but_index R h h"
  by (simp add: same_but_index_def)

lemma same_but_index_trans:
  "same_but_index R h h' \<Longrightarrow> same_but_index R h' h'' \<Longrightarrow> same_but_index R h h''"
  by (simp add: same_but_index_def)

lemma same_but_index_set [simp]: "r \<in> R \<Longrightarrow> same_but_index R h (set_index r i h')
    \<longleftrightarrow> same_but_index R h h'"
  by (auto simp: same_but_index_def set_index_def)

lemma same_but_index_fields:
  assumes "same_but_index R h h'"
  shows "m_ID (h' r) = m_ID (h r)" "m_Body (h' r) = m_Body (h r)"
    "m_Timestamp (h' r) = m_Timestamp (h r)" "m_Attempts (h' r) = m_Attempts (h r)"
    "m_clientID (h' r) = m_clientID (h r)" "m_pri (h' r) = m_pri (h r)"
    "m_deliveryTS (h' r) = m_deliveryTS (h r)" "m_deferred (h' r) = m_deferred (h r)"
  using assms unfolding same_but_index_def
  by (metis Message.ext_inject Message.surjective Message.update_convs(8))+

lemma same_but_index_pri: "same_but_index R h h' \<Longrightarrow> pri_of h' = pri_of h"
  by (rule ext) (simp add: pri_of_def same_but_index_fields)

lemma pq_Swap_props:
  assumes "i < length q" "j < length q" "pq_Swap i j (h, q) = (h', q')"
  shows "q' = swap_list q i j" "same_but_index (set q) h h'"
    "\<And>k. index_ok h q \<Longrightarrow> index_ok h' q'"
proof -
  show q': "q' = swap_list q i j" using assms(3) by (auto simp: pq_Swap_def Let_def)
  have h': "h' = set_index (q' ! j) (int j) (set_index (q' ! i) (int i) h)"
    using assms(3) by (auto simp: pq_Swap_def Let_def)
  have "q' ! i \<in> set q" "q' ! j \<in> set q" using assms(1,2) q' by (simp_all add: nth_swap_list)
  then show "same_but_index (set q) h h'" by (simp add: h')
  show "index_ok h' q'" if ok: "index_ok h q"
  proof -
    have d: "distinct q'" using ok assms(1,2) q' by (simp add: index_ok_def)
    have "m_index (h' (q' ! k)) = int k" if k: "k < length q'" for k
    proof (cases "k = i \<or> k = j")
      case True
      then show ?thesis using d assms(1,2) q' by (auto simp: h' set_index_def nth_eq_iff_index_eq)
    next
      case False
      then have "q' ! k \<noteq> q' ! i" "q' ! k \<noteq> q' ! j" "q' ! k = q ! k"
        using d k assms(1,2) q' by (auto simp: nth_eq_iff_index_eq nth_swap_list)
      then show ?thesis using ok k q' by (simp add: h' set_index_def index_ok_def)
    qed
    with d show ?thesis by (simp add: index_ok_def)
  qed
qed

definition loop_ok :: "mstore \<Rightarrow> ref list \<Rightarrow> mstore \<times> ref list \<Rightarrow> ref list \<Rightarrow> bool" where
  "loop_ok h q s q' \<longleftrightarrow> snd s = q' \<and> same_but_index (set q) h (fst s) \<and>
     (index_ok h q \<longrightarrow> index_ok (fst s) q')"

lemma pq_up_refines: "j < length q \<Longrightarrow> loop_ok h q (pq_up j (h, q)) (sift_up (pri_of h) q j)"
proof (induction j "(h, q)" arbitrary: h q rule: pq_up.induct)
  case (1 j h q)
  let ?i = "(j - 1) div 2"
  have pi: "?i = parent j" by (simp add: parent_def)
  show ?case
  proof (cases "?i = j \<or> pri_of h (q ! ?i) \<le> pri_of h (q ! j)")
    case True
    then show ?thesis
      using pi by (subst pq_up.simps, subst sift_up.simps) (auto simp: loop_ok_def Let_def)
  next
    case False
    obtain h1 q1 where sw: "pq_Swap ?i j (h, q) = (h1, q1)" by fastforce
    have il: "?i < length q" using "1.prems" pi by simp
    note sp = pq_Swap_props [OF il "1.prems" sw]
    have "loop_ok h1 q1 (pq_up ?i (h1, q1)) (sift_up (pri_of h1) q1 ?i)"
      using "1.hyps" [OF refl False sw] il sp(1) by simp
    moreover have "set q1 = set q" using sp(1) il "1.prems" by simp
    moreover have "pri_of h1 = pri_of h" using sp(2) by (rule same_but_index_pri)
    ultimately have "loop_ok h q (pq_up ?i (h1, q1)) (sift_up (pri_of h) q1 ?i)"
      using sp by (auto simp: loop_ok_def intro: same_but_index_trans)
    then show ?thesis
      using False sw sp(1) pi by (subst pq_up.simps, subst sift_up.simps) (auto simp: Let_def)
  qed
qed

lemma pq_down_refines:
  "n \<le> length q \<Longrightarrow>
     loop_ok h q (pq_down i n (h, q)) (sift_down (\<lambda>a b. b \<le> a) (pri_of h) n q i)"
proof (induction i n "(h, q)" arbitrary: h q rule: pq_down.induct)
  case (1 i n h q)
  let ?rp = "\<lambda>a b :: int. b \<le> a"
  let ?j = "pick_child ?rp (pri_of h) q n i"
  have j: "(if 2 * i + 1 + 1 < n \<and> pri_of h (q ! (2 * i + 1 + 1)) \<le> pri_of h (q ! (2 * i + 1))
            then 2 * i + 1 + 1 else 2 * i + 1) = ?j"
    by (simp add: pick_child_def)
  show ?case
  proof (cases "n \<le> 2 * i + 1 \<or> pri_of h (q ! i) \<le> pri_of h (q ! ?j)")
    case True
    then show ?thesis
      using j by (subst pq_down.simps, subst sift_down.simps) (auto simp: loop_ok_def Let_def)
  next
    case False
    obtain h1 q1 where sw: "pq_Swap i ?j (h, q) = (h1, q1)" by fastforce
    have jl: "?j < length q" using False "1.prems" pick_child_less [of i n ?rp "pri_of h" q] by linarith
    have il: "i < length q" using jl pick_child_gt [of i ?rp "pri_of h" q n] by linarith
    note sp = pq_Swap_props [OF il jl sw]
    have "loop_ok h1 q1 (pq_down ?j n (h1, q1)) (sift_down ?rp (pri_of h1) n q1 ?j)"
      using "1.hyps" [OF refl _ refl j [symmetric] _ sw] False "1.prems" sp(1) by simp
    moreover have "set q1 = set q" using sp(1) il jl by simp
    moreover have "pri_of h1 = pri_of h" using sp(2) by (rule same_but_index_pri)
    ultimately have "loop_ok h q (pq_down ?j n (h1, q1)) (sift_down ?rp (pri_of h) n q1 ?j)"
      using sp by (auto simp: loop_ok_def intro: same_but_index_trans)
    then show ?thesis
      using False sw sp(1) j by (subst pq_down.simps, subst sift_down.simps) (auto simp: Let_def)
  qed
qed

section \<open>The queue invariant and the operations\<close>

definition pq_inv :: "mstore \<Rightarrow> inFlightPqueue \<Rightarrow> bool" where
  "pq_inv h pq \<longleftrightarrow> index_ok h (pq_elems pq) \<and>
     heap_upto (pri_of h) (pq_elems pq) (length (pq_elems pq)) \<and>
     length (pq_elems pq) \<le> pq_cap pq \<and> 1 \<le> pq_cap pq"

lemma pq_inv_new: "1 \<le> c \<Longrightarrow> pq_inv h (newInFlightPqueue c)"
  by (simp add: pq_inv_def newInFlightPqueue_def index_ok_def heap_upto_def)

lemma pq_inv_distinct: "pq_inv h pq \<Longrightarrow> distinct (pq_elems pq)"
  by (simp add: pq_inv_def index_ok_def)

lemma pq_inv_index: "pq_inv h pq \<Longrightarrow> k < length (pq_elems pq) \<Longrightarrow> m_index (h (pq_elems pq ! k)) = int k"
  by (simp add: pq_inv_def index_ok_def)

lemma set_index_other [simp]: "r \<noteq> x \<Longrightarrow> set_index x i h r = h r"
  by (simp add: set_index_def)

lemma pri_of_set_index [simp]: "pri_of (set_index x i h) = pri_of h"
  by (rule ext) (simp add: pri_of_def set_index_def)

lemma index_ok_append:
  assumes "index_ok h q" "x \<notin> set q"
  shows "index_ok (set_index x (int (length q)) h) (q @ [x])"
proof -
  have "m_index (set_index x (int (length q)) h ((q @ [x]) ! k)) = int k" if "k < Suc (length q)" for k
  proof (cases "k = length q")
    case True
    then show ?thesis by (simp add: set_index_def)
  next
    case False
    with that have "k < length q" by simp
    moreover from this have "q ! k \<noteq> x" using assms(2) nth_mem by blast
    ultimately show ?thesis using assms(1) by (simp add: nth_append index_ok_def)
  qed
  with assms show ?thesis by (simp add: index_ok_def)
qed

lemma pq_Push_spec:
  assumes inv: "pq_inv h pq" and x: "x \<notin> set (pq_elems pq)"
  shows "\<exists>h' pq'. pq_Push x (h, pq) = Some (h', pq') \<and> pq_inv h' pq' \<and>
           mset (pq_elems pq') = add_mset x (mset (pq_elems pq)) \<and>
           same_but_index (insert x (set (pq_elems pq))) h h'"
proof -
  let ?q = "pq_elems pq"
  let ?n = "length ?q"
  let ?h0 = "set_index x (int ?n) h"
  define c' where "c' = (if pq_cap pq < ?n + 1 then pq_cap pq * 2 else pq_cap pq)"
  obtain h' q' where up: "pq_up ?n (?h0, ?q @ [x]) = (h', q')" by fastforce
  have c: "?n + 1 \<le> c'" "1 \<le> c'" using inv by (auto simp: c'_def pq_inv_def)
  have "loop_ok ?h0 (?q @ [x]) (h', q') (sift_up (pri_of ?h0) (?q @ [x]) ?n)"
    using pq_up_refines [of ?n "?q @ [x]" ?h0] up by simp
  then have q': "q' = sift_up (pri_of h) (?q @ [x]) ?n"
    and sb: "same_but_index (insert x (set ?q)) ?h0 h'"
    and ok: "index_ok h' q'"
    using index_ok_append [of h ?q x] inv x by (auto simp: loop_ok_def pq_inv_def)
  have sb': "same_but_index (insert x (set ?q)) h h'"
    using sb by (rule same_but_index_trans [rotated]) simp
  have "heap_upto (pri_of h) q' (Suc ?n)"
    unfolding q' using inv by (intro sift_up_heap small_at_append) (auto simp: pq_inv_def)
  then have "pq_inv h' \<lparr>pq_elems = q', pq_cap = c'\<rparr>"
    using ok c q' same_but_index_pri [OF sb'] by (simp add: pq_inv_def)
  moreover have "mset q' = add_mset x (mset ?q)" by (simp add: q' mset_sift_up)
  moreover have "pq_Push x (h, pq) = Some (h', \<lparr>pq_elems = q', pq_cap = c'\<rparr>)"
    using up c by (auto simp: pq_Push_def Let_def c'_def)
  ultimately show ?thesis using sb' by auto
qed

text \<open>Cutting the last element off, once the loops have put the removed message there.\<close>

lemma index_ok_cut:
  assumes "index_ok h q" "q \<noteq> []"
  shows "index_ok (set_index (q ! (length q - 1)) (-1) h) (take (length q - 1) q)"
proof -
  have "q ! k \<noteq> q ! (length q - 1)" if "k < length q - 1" for k
    using assms that by (auto simp: index_ok_def nth_eq_iff_index_eq)
  with assms show ?thesis by (auto simp: index_ok_def)
qed

lemma mset_cut:
  assumes "q \<noteq> []"
  shows "mset (take (length q - 1) q) = mset q - {#q ! (length q - 1)#}"
proof -
  have "q = take (length q - 1) q @ [q ! (length q - 1)]"
    using assms by (metis append_butlast_last_id butlast_conv_take last_conv_nth)
  then have "mset q = mset (take (length q - 1) q) + {#q ! (length q - 1)#}"
    by (metis mset_append mset.simps add_mset_add_single)
  then show ?thesis by simp
qed

lemma cut_inv:
  assumes ok: "index_ok h q" and ne: "q \<noteq> []" and hp: "heap_upto (pri_of h) q (length q - 1)"
    and c: "length q - 1 \<le> c" "1 \<le> c"
  shows "pq_inv (set_index (q ! (length q - 1)) (-1) h) \<lparr>pq_elems = take (length q - 1) q, pq_cap = c\<rparr>"
  using index_ok_cut [OF ok ne] c hp
  by (auto simp: pq_inv_def min_def cong: heap_upto_cong) (auto simp: heap_upto_def)

definition removed :: "mstore \<Rightarrow> inFlightPqueue \<Rightarrow> ref \<Rightarrow> mstore \<Rightarrow> inFlightPqueue \<Rightarrow> bool" where
  "removed h pq x h' pq' \<longleftrightarrow> pq_inv h' pq' \<and> m_index (h' x) = -1 \<and>
     mset (pq_elems pq') = mset (pq_elems pq) - {#x#} \<and>
     same_but_index (set (pq_elems pq)) h h'"

lemma pq_Pop_spec:
  assumes inv: "pq_inv h pq" and ne: "pq_elems pq \<noteq> []"
  shows "\<exists>h' pq'. pq_Pop (h, pq) = Some (pq_elems pq ! 0, h', pq') \<and>
           removed h pq (pq_elems pq ! 0) h' pq'"
proof -
  let ?q = "pq_elems pq"
  let ?n = "length ?q"
  obtain h0 q0 where sw: "pq_Swap 0 (?n - 1) (h, ?q) = (h0, q0)" by fastforce
  obtain h1 q1 where dn: "pq_down 0 (?n - 1) (h0, q0) = (h1, q1)" by fastforce
  have l: "0 < ?n" "?n - 1 < ?n" using ne by simp_all
  note sp = pq_Swap_props [OF l sw]
  have pr: "pri_of h0 = pri_of h" using sp(2) by (rule same_but_index_pri)
  have "loop_ok h0 q0 (h1, q1) (sift_down (\<lambda>a b. b \<le> a) (pri_of h0) (?n - 1) q0 0)"
    using pq_down_refines [of "?n - 1" q0 h0 0] dn sp(1) by simp
  then have q1: "q1 = sift_down (\<lambda>a b. b \<le> a) (pri_of h) (?n - 1) (swap_list ?q 0 (?n - 1)) 0"
    and sb: "same_but_index (set ?q) h0 h1" and ok: "index_ok h1 q1"
    using inv sp l pr by (auto simp: loop_ok_def pq_inv_def)
  have sb1: "same_but_index (set ?q) h h1" using sp(2) sb by (rule same_but_index_trans)
  have len: "length q1 = ?n" and ms: "mset q1 = mset ?q"
    using l by (simp_all add: q1 mset_sift_down)
  have x: "q1 ! (?n - 1) = ?q ! 0"
    using l by (simp add: q1 sift_down_frame nth_swap_list)
  have hp: "heap_upto (pri_of h1) q1 (length q1 - 1)"
    unfolding same_but_index_pri [OF sb1] len unfolding q1
    using inv ne by (intro right_on_ties.pop_heap) (simp_all add: pq_inv_def)
  define c' where "c' = (if ?n < pq_cap pq div 2 \<and> 25 < pq_cap pq then pq_cap pq div 2 else pq_cap pq)"
  have c: "?n - 1 \<le> c'" "1 \<le> c'" using inv by (auto simp: c'_def pq_inv_def)
  have "q1 \<noteq> []" using len ne by auto
  then have "pq_inv (set_index (?q ! 0) (-1) h1) \<lparr>pq_elems = take (?n - 1) q1, pq_cap = c'\<rparr>"
    using cut_inv [OF ok _ hp] len x c by simp
  moreover have "mset (take (?n - 1) q1) = mset ?q - {#?q ! 0#}"
    using mset_cut [OF \<open>q1 \<noteq> []\<close>] len x ms by simp
  moreover have "?q ! 0 \<in> set ?q" using ne by simp
  moreover have "pq_Pop (h, pq) = Some (?q ! 0, set_index (?q ! 0) (-1) h1,
      \<lparr>pq_elems = take (?n - 1) q1, pq_cap = c'\<rparr>)"
    using ne sw dn x by (simp add: pq_Pop_def Let_def c'_def)
  ultimately show ?thesis using sb1
    by (auto simp: removed_def set_index_def) (simp add: same_but_index_def)
qed

lemma pq_Remove_body:
  assumes inv: "pq_inv h pq" and i: "i < length (pq_elems pq) - 1"
    and body: "pq_up i (pq_down i (length (pq_elems pq) - 1)
      (pq_Swap i (length (pq_elems pq) - 1) (h, pq_elems pq))) = (h1, q1)"
  shows "same_but_index (set (pq_elems pq)) h h1 \<and> index_ok h1 q1 \<and> mset q1 = mset (pq_elems pq) \<and>
      q1 ! (length (pq_elems pq) - 1) = pq_elems pq ! i \<and>
      heap_upto (pri_of h) q1 (length (pq_elems pq) - 1)"
proof -
  let ?q = "pq_elems pq"
  let ?n = "length ?q"
  have i': "i < ?n" and l: "?n - 1 < ?n" using i by linarith+
  obtain h0 q0 where sw: "pq_Swap i (?n - 1) (h, ?q) = (h0, q0)" by fastforce
  obtain h2 q2 where dn: "pq_down i (?n - 1) (h0, q0) = (h2, q2)" by fastforce
  have up: "pq_up i (h2, q2) = (h1, q1)" using body sw dn by simp
  note sp = pq_Swap_props [OF i' l sw]
  have pr: "pri_of h0 = pri_of h" using sp(2) by (rule same_but_index_pri)
  have "loop_ok h0 q0 (h2, q2) (sift_down (\<lambda>a b. b \<le> a) (pri_of h0) (?n - 1) q0 i)"
    using pq_down_refines [of "?n - 1" q0 h0 i] dn sp(1) by simp
  then have q2: "q2 = sift_down (\<lambda>a b. b \<le> a) (pri_of h) (?n - 1) (swap_list ?q i (?n - 1)) i"
    and sb2: "same_but_index (set ?q) h h2" and ok2: "index_ok h2 q2"
    using inv sp i' l pr by (auto simp: loop_ok_def pq_inv_def intro: same_but_index_trans)
  have ms2: "mset q2 = mset ?q" and l2: "length q2 = ?n"
    using i' l by (simp_all add: q2 mset_sift_down)
  then have s2: "set q2 = set ?q" by (metis mset_eq_setD)
  have "loop_ok h2 q2 (h1, q1) (sift_up (pri_of h2) q2 i)"
    using pq_up_refines [of i q2 h2] up l2 i' by simp
  then have q1: "q1 = sift_up (pri_of h) q2 i"
    and sb1: "same_but_index (set ?q) h h1" and ok1: "index_ok h1 q1"
    using sb2 ok2 s2 same_but_index_pri [OF sb2]
    by (auto simp: loop_ok_def intro: same_but_index_trans)
  have "heap_upto (pri_of h) q1 (?n - 1)"
    unfolding q1 q2 using inv i by (intro right_on_ties.remove_heap) (simp_all add: pq_inv_def)
  moreover have "q1 ! (?n - 1) = ?q ! i"
    using i i' l by (simp add: q1 sift_up_frame q2 sift_down_frame nth_swap_list)
  ultimately show ?thesis using sb1 ok1 q1 ms2 l2 i' by (simp add: mset_sift_up)
qed

lemma pq_Remove_spec:
  assumes inv: "pq_inv h pq" and i: "i < length (pq_elems pq)"
  shows "\<exists>h' pq'. pq_Remove (int i) (h, pq) = Some (pq_elems pq ! i, h', pq') \<and>
           removed h pq (pq_elems pq ! i) h' pq'"
proof -
  let ?q = "pq_elems pq"
  let ?n = "length ?q"
  obtain h1 q1 where body: "(if int ?n - 1 \<noteq> int i
      then pq_up i (pq_down i (?n - 1) (pq_Swap i (?n - 1) (h, ?q))) else (h, ?q)) = (h1, q1)"
    by fastforce
  have main: "same_but_index (set ?q) h h1 \<and> index_ok h1 q1 \<and> mset q1 = mset ?q \<and>
      q1 ! (?n - 1) = ?q ! i \<and> heap_upto (pri_of h) q1 (?n - 1)"
  proof (cases "i = ?n - 1")
    case True
    then have "h1 = h" "q1 = ?q" using body i by (auto simp: of_nat_diff)
    with True inv show ?thesis by (auto simp: pq_inv_def intro: heap_upto_mono)
  next
    case False
    with i have "i < ?n - 1" by simp
    then show ?thesis using body by (intro pq_Remove_body [OF inv]) (auto split: if_splits)
  qed
  then have l1: "length q1 = ?n" by (metis size_mset)
  then have ne: "q1 \<noteq> []" "?q \<noteq> []" using i by auto
  have pr1: "pri_of h1 = pri_of h" using main same_but_index_pri by blast
  have c: "?n - 1 \<le> pq_cap pq" "1 \<le> pq_cap pq" using inv by (auto simp: pq_inv_def)
  have "pq_inv (set_index (?q ! i) (-1) h1) (pq\<lparr>pq_elems := take (?n - 1) q1\<rparr>)"
    using cut_inv [OF _ ne(1), of h1 "pq_cap pq"] main pr1 c l1 by (simp add: pq_inv_def)
  moreover have "mset (take (?n - 1) q1) = mset ?q - {#?q ! i#}"
    using mset_cut [OF ne(1)] main l1 by simp
  moreover have "?q ! i \<in> set ?q" using i by simp
  moreover have "pq_Remove (int i) (h, pq) = Some (?q ! i, set_index (?q ! i) (-1) h1,
      pq\<lparr>pq_elems := take (?n - 1) q1\<rparr>)"
    using i body main ne by (simp add: pq_Remove_def Let_def)
  ultimately show ?thesis using main
    by (auto simp: removed_def set_index_def) (simp add: same_but_index_def)
qed

lemma pq_PeekAndShift_none:
  assumes inv: "pq_inv h pq" and none: "\<forall>r \<in> set (pq_elems pq). sint t < pri_of h r"
  shows "\<exists>d. pq_PeekAndShift t (h, pq) = Some ((None, d), h, pq)"
proof (cases "pq_elems pq")
  case (Cons x q)
  then show ?thesis using none by (simp add: pq_PeekAndShift_def pri_of_def)
qed (simp add: pq_PeekAndShift_def)

lemma pq_PeekAndShift_some:
  assumes inv: "pq_inv h pq" and due: "r \<in> set (pq_elems pq)" "pri_of h r \<le> sint t"
  shows "\<exists>x h' pq'. pq_PeekAndShift t (h, pq) = Some ((Some x, 0), h', pq') \<and>
           x \<in> set (pq_elems pq) \<and> (\<forall>y \<in> set (pq_elems pq). pri_of h x \<le> pri_of h y) \<and>
           removed h pq x h' pq'"
proof -
  let ?x = "pq_elems pq ! 0"
  have ne: "pq_elems pq \<noteq> []" using due by auto
  have least: "\<forall>y \<in> set (pq_elems pq). pri_of h ?x \<le> pri_of h y"
    using inv heap_root_least [of "pri_of h" "pq_elems pq"] by (auto simp: pq_inv_def in_set_conv_nth)
  then have "pri_of h ?x \<le> sint t" using due order_trans by blast
  then have d: "\<not> sint t < sint (m_pri (h ?x))" by (simp add: pri_of_def)
  obtain h' pq' where "pq_Pop (h, pq) = Some (?x, h', pq')" "removed h pq ?x h' pq'"
    using pq_Pop_spec [OF inv ne] by blast
  with ne d least show ?thesis by (auto simp: pq_PeekAndShift_def Let_def)
qed

section \<open>The queue keeps the contract\<close>

lemma removed_pri: "removed h pq x h' pq' \<Longrightarrow> pri_of h' = pri_of h"
  by (auto simp: removed_def intro: same_but_index_pri)

interpretation ipq: timeout_queue pq_Push pq_PeekAndShift
  "\<lambda>(h, pq). mset (pq_elems pq)" "\<lambda>(h, pq). pri_of h" "\<lambda>(h, pq). pq_inv h pq"
proof (unfold_locales, goal_cases)
  case (1 s x)
  then show ?case
    using pq_Push_spec [of "fst s" "snd s" x] same_but_index_pri by (cases s) fastforce
next
  case (2 s t)
  then show ?case
    using pq_PeekAndShift_none [of "fst s" "snd s" t] by (cases s) auto
next
  case (3 s r t)
  obtain h pq where s: "s = (h, pq)" by fastforce
  with 3 obtain x h' pq' where "pq_PeekAndShift t (h, pq) = Some ((Some x, 0), h', pq')"
    "x \<in> set (pq_elems pq)" "\<forall>y \<in> set (pq_elems pq). pri_of h x \<le> pri_of h y"
    and rm: "removed h pq x h' pq'"
    using pq_PeekAndShift_some [of h pq r t] by auto
  with s removed_pri [OF rm] show ?case
    by (intro exI [of _ x] exI [of _ "(h', pq')"]) (simp add: removed_def)
qed

end
