(* ===== verification/Nsq_DeferredPQ.thy ===== *)
theory Nsq_DeferredPQ
  imports Nsq_Heap Nsq_TimeoutQueue
begin

text \<open>
  \<open>internal/pqueue/pqueue.go\<close>: the priority queue of deferred messages, a slice of item
  pointers driven by the standard library's \<open>container/heap\<close>, whose sifting loops are
  modelled with it. A store maps references to items; a panic is \<open>None\<close>.
\<close>

record 'a Item =
  it_Value :: 'a
  it_Priority :: i64
  it_Index :: int

type_synonym 'a istore = "nat \<Rightarrow> 'a Item"

record PriorityQueue =
  dq_items :: "nat list"
  dq_cap :: nat

definition pqueue_New :: "nat \<Rightarrow> PriorityQueue" where
  "pqueue_New capacity = \<lparr>dq_items = [], dq_cap = capacity\<rparr>"

definition pqueue_Len :: "PriorityQueue \<Rightarrow> nat" where
  "pqueue_Len pq = length (dq_items pq)"

definition pqueue_Less :: "'a istore \<Rightarrow> nat list \<Rightarrow> nat \<Rightarrow> nat \<Rightarrow> bool" where
  "pqueue_Less h q i j \<longleftrightarrow> sint (it_Priority (h (q ! i))) < sint (it_Priority (h (q ! j)))"

definition set_Index :: "nat \<Rightarrow> int \<Rightarrow> 'a istore \<Rightarrow> 'a istore" where
  "set_Index r i h = h(r := (h r)\<lparr>it_Index := i\<rparr>)"

definition pqueue_Swap :: "nat \<Rightarrow> nat \<Rightarrow> 'a istore \<times> nat list \<Rightarrow> 'a istore \<times> nat list" where
  "pqueue_Swap i j = (\<lambda>(h, q).
     let q' = swap_list q i j
     in (set_Index (q' ! j) (int j) (set_Index (q' ! i) (int i) h), q'))"

definition pqueue_Push :: "nat \<Rightarrow> 'a istore \<times> PriorityQueue \<Rightarrow> ('a istore \<times> PriorityQueue) option" where
  "pqueue_Push x = (\<lambda>(h, pq).
     let n = length (dq_items pq); c = dq_cap pq;
         c' = (if c < n + 1 then c * 2 else c)
     in if c' < n + 1 then None
        else Some (set_Index x (int n) h, \<lparr>dq_items = dq_items pq @ [x], dq_cap = c'\<rparr>))"

definition pqueue_Pop :: "'a istore \<times> PriorityQueue \<Rightarrow> (nat \<times> 'a istore \<times> PriorityQueue) option" where
  "pqueue_Pop = (\<lambda>(h, pq).
     let n = length (dq_items pq); c = dq_cap pq;
         c' = (if n < c div 2 \<and> 25 < c then c div 2 else c)
     in if n = 0 then None
        else let x = dq_items pq ! (n - 1)
             in Some (x, set_Index x (-1) h, \<lparr>dq_items = take (n - 1) (dq_items pq), dq_cap = c'\<rparr>))"

section \<open>container/heap\<close>

function heap_up :: "nat \<Rightarrow> 'a istore \<times> nat list \<Rightarrow> 'a istore \<times> nat list" where
  "heap_up j (h, q) =
     (let i = (j - 1) div 2 in
      if i = j \<or> \<not> pqueue_Less h q j i then (h, q)
      else heap_up i (pqueue_Swap i j (h, q)))"
  by pat_completeness auto
termination
  by (relation "measure (\<lambda>(j, s). j)") auto

function heap_down :: "nat \<Rightarrow> nat \<Rightarrow> 'a istore \<times> nat list \<Rightarrow> nat \<times> 'a istore \<times> nat list" where
  "heap_down i n (h, q) =
     (let j1 = 2 * i + 1 in
      if n \<le> j1 then (i, h, q)
      else let j2 = j1 + 1;
               j = (if j2 < n \<and> pqueue_Less h q j2 j1 then j2 else j1)
           in if \<not> pqueue_Less h q j i then (i, h, q)
              else heap_down j n (pqueue_Swap i j (h, q)))"
  by pat_completeness auto
termination
  by (relation "measure (\<lambda>(i, n, s). n - i)") (auto split: if_splits)

declare heap_up.simps [simp del] heap_down.simps [simp del]

definition heap_Push :: "nat \<Rightarrow> 'a istore \<times> PriorityQueue \<Rightarrow> ('a istore \<times> PriorityQueue) option" where
  "heap_Push x s =
     (case pqueue_Push x s of
        None \<Rightarrow> None
      | Some (h, pq) \<Rightarrow>
          let (h', q') = heap_up (pqueue_Len pq - 1) (h, dq_items pq) in Some (h', pq\<lparr>dq_items := q'\<rparr>))"

definition heap_Remove :: "nat \<Rightarrow> 'a istore \<times> PriorityQueue \<Rightarrow> (nat \<times> 'a istore \<times> PriorityQueue) option" where
  "heap_Remove i = (\<lambda>(h, pq).
     if pqueue_Len pq \<le> i then None
     else let n = pqueue_Len pq - 1;
              (h', q') = (if n \<noteq> i
                 then case heap_down i n (pqueue_Swap i n (h, dq_items pq)) of
                        (i', s') \<Rightarrow> if \<not> i < i' then heap_up i s' else s'
                 else (h, dq_items pq))
          in pqueue_Pop (h', pq\<lparr>dq_items := q'\<rparr>))"

definition pqueue_PeekAndShift ::
    "i64 \<Rightarrow> 'a istore \<times> PriorityQueue \<Rightarrow> ((nat option \<times> i64) \<times> 'a istore \<times> PriorityQueue) option" where
  "pqueue_PeekAndShift mx = (\<lambda>(h, pq).
     if pqueue_Len pq = 0 then Some ((None, 0), h, pq)
     else let item = dq_items pq ! 0
          in if sint mx < sint (it_Priority (h item))
             then Some ((None, it_Priority (h item) - mx), h, pq)
             else case heap_Remove 0 (h, pq) of
                    None \<Rightarrow> None
                  | Some (_, h', pq') \<Rightarrow> Some ((Some item, 0), h', pq'))"

section \<open>The loops are the abstract heap loops\<close>

definition prio_of :: "'a istore \<Rightarrow> nat \<Rightarrow> int" where
  "prio_of h r = sint (it_Priority (h r))"

definition same_items :: "'a istore \<Rightarrow> 'a istore \<Rightarrow> bool" where
  "same_items h h' \<longleftrightarrow> (\<forall>r. it_Value (h' r) = it_Value (h r) \<and> it_Priority (h' r) = it_Priority (h r))"

lemma same_items_refl [simp]: "same_items h h"
  by (simp add: same_items_def)

lemma same_items_trans: "same_items h h' \<Longrightarrow> same_items h' h'' \<Longrightarrow> same_items h h''"
  by (simp add: same_items_def)

lemma same_items_set [simp]: "same_items h (set_Index r i h') = same_items h h'"
  by (auto simp: same_items_def set_Index_def)

lemma same_items_prio: "same_items h h' \<Longrightarrow> prio_of h' = prio_of h"
  by (auto simp: same_items_def prio_of_def)

lemma pqueue_Swap_props:
  "snd (pqueue_Swap i j (h, q)) = swap_list q i j" "same_items h (fst (pqueue_Swap i j (h, q)))"
  by (simp_all add: pqueue_Swap_def Let_def)

lemma heap_up_refines:
  "snd (heap_up j (h, q)) = sift_up (prio_of h) q j \<and> same_items h (fst (heap_up j (h, q)))"
proof (induction j "(h, q)" arbitrary: h q rule: heap_up.induct)
  case (1 j h q)
  let ?i = "(j - 1) div 2"
  have pi: "?i = parent j" by (simp add: parent_def)
  have le: "pqueue_Less h q j ?i \<longleftrightarrow> \<not> prio_of h (q ! ?i) \<le> prio_of h (q ! j)"
    by (simp add: pqueue_Less_def prio_of_def not_le)
  show ?case
  proof (cases "?i = j \<or> \<not> pqueue_Less h q j ?i")
    case True
    then show ?thesis
      using pi le by (subst (1 2) heap_up.simps, subst sift_up.simps) (auto simp: Let_def)
  next
    case False
    obtain h1 q1 where sw: "pqueue_Swap ?i j (h, q) = (h1, q1)" by fastforce
    note sp = pqueue_Swap_props [where i = ?i and j = j and h = h and q = q, unfolded sw, simplified]
    have "snd (heap_up ?i (h1, q1)) = sift_up (prio_of h1) q1 ?i \<and> same_items h1 (fst (heap_up ?i (h1, q1)))"
      by (rule "1.hyps" [OF refl False sw])
    moreover have "prio_of h1 = prio_of h" using sp(2) by (rule same_items_prio)
    ultimately have "snd (heap_up ?i (h1, q1)) = sift_up (prio_of h) (swap_list q ?i j) ?i"
      "same_items h (fst (heap_up ?i (h1, q1)))"
      using sp by (auto intro: same_items_trans)
    then show ?thesis
      using False le sw pi by (subst (1 2) heap_up.simps, subst sift_up.simps) (auto simp: Let_def)
  qed
qed

lemma heap_down_refines:
  "snd (snd (heap_down i n (h, q))) = sift_down (\<lambda>a b. b < a) (prio_of h) n q i \<and>
   same_items h (fst (snd (heap_down i n (h, q))))"
proof (induction i n "(h, q)" arbitrary: h q rule: heap_down.induct)
  case (1 i n h q)
  let ?rp = "\<lambda>a b :: int. b < a"
  let ?j = "pick_child ?rp (prio_of h) q n i"
  have j: "(if 2 * i + 1 + 1 < n \<and> pqueue_Less h q (2 * i + 1 + 1) (2 * i + 1)
            then 2 * i + 1 + 1 else 2 * i + 1) = ?j"
    by (simp add: pick_child_def pqueue_Less_def prio_of_def)
  have le: "pqueue_Less h q ?j i \<longleftrightarrow> \<not> prio_of h (q ! i) \<le> prio_of h (q ! ?j)"
    by (simp add: pqueue_Less_def prio_of_def not_le)
  show ?case
  proof (cases "n \<le> 2 * i + 1 \<or> \<not> pqueue_Less h q ?j i")
    case True
    then show ?thesis
      using j le by (subst (1 2) heap_down.simps, subst sift_down.simps) (auto simp: Let_def)
  next
    case False
    obtain h1 q1 where sw: "pqueue_Swap i ?j (h, q) = (h1, q1)" by fastforce
    note sp = pqueue_Swap_props [where i = i and j = ?j and h = h and q = q, unfolded sw, simplified]
    have "snd (snd (heap_down ?j n (h1, q1))) = sift_down ?rp (prio_of h1) n q1 ?j \<and>
        same_items h1 (fst (snd (heap_down ?j n (h1, q1))))"
      using "1.hyps" [OF refl _ refl j [symmetric] _ sw] False by simp
    moreover have "prio_of h1 = prio_of h" using sp(2) by (rule same_items_prio)
    ultimately have "snd (snd (heap_down ?j n (h1, q1))) = sift_down ?rp (prio_of h) n (swap_list q i ?j) ?j"
      "same_items h (fst (snd (heap_down ?j n (h1, q1))))"
      using sp by (auto intro: same_items_trans)
    then show ?thesis
      using False le sw j by (subst (1 2) heap_down.simps, subst sift_down.simps) (auto simp: Let_def)
  qed
qed

section \<open>The queue invariant and the operations\<close>

definition dpq_inv :: "'a istore \<Rightarrow> PriorityQueue \<Rightarrow> bool" where
  "dpq_inv h pq \<longleftrightarrow> heap_upto (prio_of h) (dq_items pq) (length (dq_items pq)) \<and>
     length (dq_items pq) \<le> dq_cap pq \<and> 1 \<le> dq_cap pq"

lemma dpq_inv_new: "1 \<le> c \<Longrightarrow> dpq_inv h (pqueue_New c)"
  by (simp add: dpq_inv_def pqueue_New_def heap_upto_def)

lemma heap_Push_spec:
  assumes inv: "dpq_inv h pq"
  shows "\<exists>h' pq'. heap_Push x (h, pq) = Some (h', pq') \<and> dpq_inv h' pq' \<and>
           mset (dq_items pq') = add_mset x (mset (dq_items pq)) \<and> same_items h h'"
proof -
  let ?q = "dq_items pq"
  let ?n = "length ?q"
  let ?h0 = "set_Index x (int ?n) h"
  define c' where "c' = (if dq_cap pq < ?n + 1 then dq_cap pq * 2 else dq_cap pq)"
  have c: "?n + 1 \<le> c'" "1 \<le> c'" using inv by (auto simp: c'_def dpq_inv_def)
  obtain h' q' where up: "heap_up ?n (?h0, ?q @ [x]) = (h', q')" by fastforce
  have pr0: "prio_of ?h0 = prio_of h" by (rule same_items_prio) simp
  have q': "q' = sift_up (prio_of h) (?q @ [x]) ?n" and si: "same_items ?h0 h'"
    using heap_up_refines [of ?n ?h0 "?q @ [x]"] up pr0 by simp_all
  have si': "same_items h h'" by (rule same_items_trans [OF _ si]) simp
  have "heap_upto (prio_of h) q' (Suc ?n)"
    unfolding q' using inv by (intro sift_up_heap small_at_append) (auto simp: dpq_inv_def)
  then have "dpq_inv h' \<lparr>dq_items = q', dq_cap = c'\<rparr>"
    using c q' same_items_prio [OF si'] by (simp add: dpq_inv_def)
  moreover have "mset q' = add_mset x (mset ?q)" by (simp add: q' mset_sift_up)
  moreover have "heap_Push x (h, pq) = Some (h', \<lparr>dq_items = q', dq_cap = c'\<rparr>)"
    using up c by (auto simp: heap_Push_def pqueue_Push_def pqueue_Len_def Let_def c'_def)
  ultimately show ?thesis using si' by auto
qed

lemma heap_Remove_body:
  assumes inv: "dpq_inv h pq" and ne: "dq_items pq \<noteq> []"
    and body: "(if length (dq_items pq) - 1 \<noteq> 0
       then case heap_down 0 (length (dq_items pq) - 1) (pqueue_Swap 0 (length (dq_items pq) - 1) (h, dq_items pq)) of
              (i', s') \<Rightarrow> if \<not> 0 < i' then heap_up 0 s' else s'
       else (h, dq_items pq)) = (h1, q1)"
  shows "same_items h h1 \<and> mset q1 = mset (dq_items pq) \<and>
     q1 ! (length (dq_items pq) - 1) = dq_items pq ! 0 \<and> heap_upto (prio_of h) q1 (length (dq_items pq) - 1)"
proof (cases "length (dq_items pq) - 1 = 0")
  case True
  then show ?thesis using body by (simp add: heap_upto_def)
next
  case False
  let ?q = "dq_items pq"
  let ?n = "length ?q"
  obtain h0 q0 where sw: "pqueue_Swap 0 (?n - 1) (h, ?q) = (h0, q0)" by fastforce
  note sp = pqueue_Swap_props [where i = 0 and j = "?n - 1" and h = h and q = ?q, unfolded sw, simplified]
  obtain i' h2 q2 where dn: "heap_down 0 (?n - 1) (h0, q0) = (i', h2, q2)" by (metis prod_cases3)
  have pr: "prio_of h0 = prio_of h" using sp(2) by (rule same_items_prio)
  have q2: "q2 = sift_down (\<lambda>a b. b < a) (prio_of h) (?n - 1) (swap_list ?q 0 (?n - 1)) 0"
    and si: "same_items h0 h2"
    using heap_down_refines [of 0 "?n - 1" h0 q0] dn pr sp(1) by simp_all
  have "heap_up 0 (h2, q2) = (h2, q2)" by (subst heap_up.simps) simp
  then have "h1 = h2" "q1 = q2" using body False sw dn by (auto split: if_splits)
  moreover have "heap_upto (prio_of h) q2 (?n - 1)"
    unfolding q2 using inv ne by (intro left_on_ties.pop_heap) (simp_all add: dpq_inv_def)
  moreover have "mset q2 = mset ?q" "q2 ! (?n - 1) = ?q ! 0"
    using ne by (simp_all add: q2 mset_sift_down sift_down_frame nth_swap_list)
  ultimately show ?thesis using si sp(2) by (auto intro: same_items_trans)
qed

lemma heap_Remove_spec:
  assumes inv: "dpq_inv h pq" and ne: "dq_items pq \<noteq> []"
  shows "\<exists>h' pq'. heap_Remove 0 (h, pq) = Some (dq_items pq ! 0, h', pq') \<and> dpq_inv h' pq' \<and>
           mset (dq_items pq') = mset (dq_items pq) - {#dq_items pq ! 0#} \<and> same_items h h'"
proof -
  let ?q = "dq_items pq"
  let ?n = "length ?q"
  obtain h1 q1 where body: "(if ?n - 1 \<noteq> 0
       then case heap_down 0 (?n - 1) (pqueue_Swap 0 (?n - 1) (h, ?q)) of
              (i', s') \<Rightarrow> if \<not> 0 < i' then heap_up 0 s' else s'
       else (h, ?q)) = (h1, q1)" by fastforce
  note main = heap_Remove_body [OF inv ne body]
  then have l1: "length q1 = ?n" by (metis size_mset)
  define c' where "c' = (if ?n < dq_cap pq div 2 \<and> 25 < dq_cap pq then dq_cap pq div 2 else dq_cap pq)"
  let ?pq' = "\<lparr>dq_items = take (?n - 1) q1, dq_cap = c'\<rparr>"
  have "q1 = take (?n - 1) q1 @ [?q ! 0]"
    using main l1 ne by (metis append_butlast_last_id butlast_conv_take last_conv_nth length_0_conv)
  then have "mset q1 = mset (take (?n - 1) q1) + {#?q ! 0#}"
    by (metis mset_append mset.simps add_mset_add_single)
  then have ms: "mset (take (?n - 1) q1) = mset ?q - {#?q ! 0#}" using main by simp
  have "heap_upto (prio_of h) (take (?n - 1) q1) (?n - 1)"
    using main by (auto simp: heap_upto_def)
  moreover have "length (take (?n - 1) q1) = ?n - 1" using l1 by simp
  ultimately have "dpq_inv (set_Index (?q ! 0) (-1) h1) ?pq'"
    using inv main same_items_prio [of h h1] same_items_prio [of h1 "set_Index (?q ! 0) (-1) h1"]
    by (auto simp: dpq_inv_def c'_def)
  moreover have "heap_Remove 0 (h, pq) = Some (?q ! 0, set_Index (?q ! 0) (-1) h1, ?pq')"
    using ne body main l1 by (auto simp: heap_Remove_def pqueue_Pop_def pqueue_Len_def Let_def c'_def)
  ultimately show ?thesis using main ms by auto
qed

section \<open>The queue keeps the contract\<close>

interpretation dpq: timeout_queue heap_Push pqueue_PeekAndShift
  "\<lambda>(h, pq). mset (dq_items pq)" "\<lambda>(h, pq). prio_of h" "\<lambda>(h, pq). dpq_inv h pq"
proof (unfold_locales, goal_cases)
  case (1 s x)
  then show ?case
    using heap_Push_spec [of "fst s" "snd s" x] same_items_prio by (cases s) fastforce
next
  case (2 s t)
  then show ?case
    by (cases s) (auto simp: pqueue_PeekAndShift_def pqueue_Len_def Let_def prio_of_def)
next
  case (3 s r t)
  obtain h pq where s: "s = (h, pq)" by fastforce
  let ?x = "dq_items pq ! 0"
  have inv: "dpq_inv h pq" and r: "r \<in> set (dq_items pq)" "prio_of h r \<le> sint t" using 3 s by simp_all
  then have ne: "dq_items pq \<noteq> []" by auto
  have least: "\<forall>y \<in> set (dq_items pq). prio_of h ?x \<le> prio_of h y"
    using inv heap_root_least [of "prio_of h" "dq_items pq"] by (auto simp: dpq_inv_def in_set_conv_nth)
  then have "prio_of h ?x \<le> sint t" using r order_trans by blast
  then have d: "\<not> sint t < sint (it_Priority (h ?x))" by (simp add: prio_of_def)
  obtain h' pq' where "heap_Remove 0 (h, pq) = Some (?x, h', pq')" "dpq_inv h' pq'"
    "mset (dq_items pq') = mset (dq_items pq) - {#?x#}" "same_items h h'"
    using heap_Remove_spec [OF inv ne] by blast
  with ne d least s same_items_prio [of h h'] show ?case
    by (auto simp: pqueue_PeekAndShift_def pqueue_Len_def Let_def)
qed

end
