(* ===== verification/Nsq_QueueProps.thy ===== *)
theory Nsq_QueueProps
  imports Nsq_InFlightPQ Nsq_DeferredPQ
begin

text \<open>
  What the two priority queues of a channel guarantee, from their creation on: the in-flight
  queue of \<open>nsqd/in_flight_pqueue.go\<close> and the queue of \<open>internal/pqueue/pqueue.go\<close> under
  \<open>container/heap\<close>.
\<close>

text \<open>C4. The in-flight queue is a priority queue: after any distinct messages are pushed on a new queue,
  repeated \<open>PeekAndShift(t)\<close> returns exactly the messages whose deadline is at most \<open>t\<close>, the
  earliest first, and keeps exactly the others; none of the operations panics.\<close>

theorem in_flight_queue_drains_in_order:
  assumes "1 \<le> capacity" "distinct rs" "length rs < n"
  shows "\<exists>s ys h' pq'. push_all pq_Push rs (h, newInFlightPqueue capacity) = Some s \<and>
    drain (pq_PeekAndShift t) n s = Some (ys, h', pq') \<and>
    mset ys = filter_mset (\<lambda>r. sint (m_pri (h r)) \<le> sint t) (mset rs) \<and>
    sorted (map (\<lambda>r. sint (m_pri (h r))) ys) \<and>
    mset (pq_elems pq') = filter_mset (\<lambda>r. sint t < sint (m_pri (h r))) (mset rs)"
proof -
  have e: "pq_elems (newInFlightPqueue capacity) = []" by (simp add: newInFlightPqueue_def)
  from ipq.push_then_drain [of "(h, newInFlightPqueue capacity)" rs n t] pq_inv_new [OF assms(1)] assms(2,3) e
  obtain s ys s2 where "push_all pq_Push rs (h, newInFlightPqueue capacity) = Some s"
    "drain (pq_PeekAndShift t) n s = Some (ys, s2)" "mset ys = filter_mset (\<lambda>r. pri_of h r \<le> sint t) (mset rs)"
    "sorted (map (pri_of h) ys)" "mset (pq_elems (snd s2)) = filter_mset (\<lambda>r. sint t < pri_of h r) (mset rs)"
    by (auto simp: split_beta)
  then show ?thesis unfolding pri_of_def by (cases s2) (auto simp: pri_of_def [abs_def])
qed

theorem in_flight_queue_drains_in_order_witness:
  "\<exists>s ys h' pq'. push_all pq_Push [0, 1, 2, 3]
       ((\<lambda>r. zero_Message\<lparr>m_pri := word_of_int (int (r * 7 mod 4))\<rparr>), newInFlightPqueue 1) = Some s \<and>
     drain (pq_PeekAndShift 2) 5 s = Some (ys, h', pq') \<and> mset ys = {#0, 2, 3#} \<and> mset (pq_elems pq') = {#1#}"
  using in_flight_queue_drains_in_order [of 1 "[0, 1, 2, 3]" 5
      "\<lambda>r. zero_Message\<lparr>m_pri := word_of_int (int (r * 7 mod 4))\<rparr>" 2]
  by auto

text \<open>\<open>Remove\<close> of the in-flight queue takes out the element at the given position and no
  other, marks it as not queued (\<open>index\<close> is -1), and leaves a queue in which every element again
  knows its own position and no child is due before its parent.\<close>

theorem in_flight_remove_exact:
  assumes "pq_inv h pq" "i < length (pq_elems pq)"
  shows "\<exists>h' pq'. pq_Remove (int i) (h, pq) = Some (pq_elems pq ! i, h', pq') \<and> pq_inv h' pq' \<and>
    mset (pq_elems pq') = mset (pq_elems pq) - {#pq_elems pq ! i#} \<and> m_index (h' (pq_elems pq ! i)) = -1 \<and>
    (\<forall>k < length (pq_elems pq'). m_index (h' (pq_elems pq' ! k)) = int k)"
proof -
  obtain h' pq' where r: "pq_Remove (int i) (h, pq) = Some (pq_elems pq ! i, h', pq')"
    "removed h pq (pq_elems pq ! i) h' pq'"
    using pq_Remove_spec [OF assms] by blast
  then have "pq_inv h' pq'" by (simp add: removed_def)
  from pq_inv_index [OF this] this r show ?thesis by (auto simp: removed_def)
qed

definition sample_pq :: inFlightPqueue where
  "sample_pq = \<lparr>pq_elems = [4, 5, 6], pq_cap = 4\<rparr>"

definition sample_store :: mstore where
  "sample_store = (\<lambda>r. zero_Message\<lparr>m_pri := word_of_int (int r), m_index := int r - 4\<rparr>)"

theorem in_flight_remove_exact_witness:
  "\<exists>h' pq'. pq_Remove 0 (sample_store, sample_pq) = Some (4, h', pq') \<and> mset (pq_elems pq') = {#5, 6#} \<and>
     m_index (h' 4) = -1"
proof -
  have "pq_inv sample_store sample_pq"
    by (auto simp: pq_inv_def sample_pq_def sample_store_def index_ok_def heap_upto_def pri_of_def parent_def
        less_Suc_eq numeral_3_eq_3)
  from in_flight_remove_exact [OF this, of 0] show ?thesis by (auto simp: sample_pq_def)
qed

text \<open>The same for the deferred queue, run through \<open>container/heap\<close>: pushed items come out
  of repeated \<open>PeekAndShift(t)\<close> exactly when their time has come, the earliest first.\<close>

theorem deferred_queue_drains_in_order:
  assumes "1 \<le> capacity" "distinct its" "length its < n"
  shows "\<exists>s ys h' pq'. push_all heap_Push its (h, pqueue_New capacity) = Some s \<and>
    drain (pqueue_PeekAndShift t) n s = Some (ys, h', pq') \<and>
    mset ys = filter_mset (\<lambda>r. sint (it_Priority (h r)) \<le> sint t) (mset its) \<and>
    sorted (map (\<lambda>r. sint (it_Priority (h r))) ys) \<and>
    mset (dq_items pq') = filter_mset (\<lambda>r. sint t < sint (it_Priority (h r))) (mset its)"
proof -
  have e: "dq_items (pqueue_New capacity) = []" by (simp add: pqueue_New_def)
  from dpq.push_then_drain [of "(h, pqueue_New capacity)" its n t] dpq_inv_new [OF assms(1), of h] assms(2,3) e
  obtain s ys s2 where "push_all heap_Push its (h, pqueue_New capacity) = Some s"
    "drain (pqueue_PeekAndShift t) n s = Some (ys, s2)" "mset ys = filter_mset (\<lambda>r. prio_of h r \<le> sint t) (mset its)"
    "sorted (map (prio_of h) ys)" "mset (dq_items (snd s2)) = filter_mset (\<lambda>r. sint t < prio_of h r) (mset its)"
    by (auto simp: split_beta)
  then show ?thesis unfolding prio_of_def by (cases s2) (auto simp: prio_of_def [abs_def])
qed

theorem deferred_queue_drains_in_order_witness:
  "\<exists>s ys h' pq'. push_all heap_Push [0, 1, 2]
       ((\<lambda>r. \<lparr>it_Value = r, it_Priority = word_of_int (int (9 - r)), it_Index = 0\<rparr>), pqueue_New 1) = Some s \<and>
     drain (pqueue_PeekAndShift 8) 4 s = Some (ys, h', pq') \<and> mset ys = {#1, 2#} \<and> mset (dq_items pq') = {#0#}"
  using deferred_queue_drains_in_order [of 1 "[0, 1, 2]" 4
      "\<lambda>r. \<lparr>it_Value = r, it_Priority = word_of_int (int (9 - r)), it_Index = 0\<rparr>" 8]
  by auto

end
