(* ===== verification/Nsq_DiskQueue.thy ===== *)
theory Nsq_DiskQueue
  imports Nsq_Prelude "HOL-Library.Monad_Syntax"
begin

text \<open>
  \<open>disk/diskqueue.go\<close>: the file-backed FIFO queue behind every persistent topic.

  The part of the file system the queue uses is \<open>disk\<close>: its data files by number, the files
  set aside as bad, the metadata file (as the integers it holds) and a schedule of faults. Every
  operating-system call that can fail takes the next entry of the schedule: \<open>NoFault\<close>, or
  \<open>Fault k\<close>, a failure that, in the case of a write, happens after \<open>k\<close> bytes. An empty
  schedule is a disk that does not fail. An open file is its number and its offset; the buffered
  reader is transparent, so the offset is the position of the next byte the reader returns.

  Operations return \<open>None\<close> when the program panics. The logging function is a field that may
  be \<open>nil\<close>, and calling it then panics; \<open>d_logf\<close> says whether it is set.
\<close>

datatype fault = NoFault | Fault nat

record disk =
  dk_files :: "int \<Rightarrow> bytes option"
  dk_bad :: "int \<Rightarrow> bytes option"
  dk_meta :: "int list option"
  dk_faults :: "fault list"

record diskQueue =
  d_readPos :: int
  d_writePos :: int
  d_readFileNum :: int
  d_writeFileNum :: int
  d_depth :: int
  d_maxBytesPerFile :: int
  d_minMsgSize :: int
  d_maxMsgSize :: int
  d_syncEvery :: int
  d_exitFlag :: bool
  d_needSync :: bool
  d_nextReadPos :: int
  d_nextReadFileNum :: int
  d_readFile :: "(int \<times> int) option"
  d_writeFile :: "(int \<times> int) option"
  d_logf :: bool
  d_disk :: disk

definition next_fault :: "diskQueue \<Rightarrow> fault \<times> diskQueue" where
  "next_fault d =
     (case dk_faults (d_disk d) of
        [] \<Rightarrow> (NoFault, d)
      | f # fs \<Rightarrow> (f, d\<lparr>d_disk := (d_disk d)\<lparr>dk_faults := fs\<rparr>\<rparr>))"

definition dq_logf :: "diskQueue \<Rightarrow> unit option" where
  "dq_logf d = (if d_logf d then Some () else None)"

definition set_file :: "int \<Rightarrow> bytes option \<Rightarrow> diskQueue \<Rightarrow> diskQueue" where
  "set_file f c d = d\<lparr>d_disk := (d_disk d)\<lparr>dk_files := (dk_files (d_disk d))(f := c)\<rparr>\<rparr>"

definition file_of :: "diskQueue \<Rightarrow> int \<Rightarrow> bytes option" where
  "file_of d f = dk_files (d_disk d) f"

text \<open>Writing at an offset: bytes between the end of the file and the offset are zero.\<close>

definition write_at :: "bytes \<Rightarrow> nat \<Rightarrow> bytes \<Rightarrow> bytes" where
  "write_at c off data =
     take off c @ replicate (off - length c) 0 @ data @ drop (off + length data) c"

section \<open>Metadata\<close>

definition dq_persistMetaData :: "diskQueue \<Rightarrow> go_error option \<times> diskQueue" where
  "dq_persistMetaData d =
     (case next_fault d of
        (Fault _, d1) \<Rightarrow> (Some ''open'', d1)
      | (NoFault, d1) \<Rightarrow>
          (case next_fault d1 of
             (Fault _, d2) \<Rightarrow> (Some ''write'', d2)
           | (NoFault, d2) \<Rightarrow>
               (case next_fault d2 of
                  (Fault _, d3) \<Rightarrow> (Some ''rename'', d3)
                | (NoFault, d3) \<Rightarrow>
                    (None, d3\<lparr>d_disk := (d_disk d3)\<lparr>dk_meta := Some
                       [d_depth d3, d_readFileNum d3, d_readPos d3, d_writeFileNum d3, d_writePos d3]\<rparr>\<rparr>))))"

datatype open_error = NotExist | OtherError go_error

definition dq_retrieveMetaData :: "diskQueue \<Rightarrow> open_error option \<times> diskQueue" where
  "dq_retrieveMetaData d =
     (case next_fault d of
        (Fault _, d1) \<Rightarrow> (Some (OtherError ''open''), d1)
      | (NoFault, d1) \<Rightarrow>
          (case dk_meta (d_disk d1) of
             None \<Rightarrow> (Some NotExist, d1)
           | Some xs \<Rightarrow>
               let get = (\<lambda>i old. if i < length xs then xs ! i else old);
                   d2 = d1\<lparr>d_readFileNum := get 1 (d_readFileNum d1), d_readPos := get 2 (d_readPos d1),
                           d_writeFileNum := get 3 (d_writeFileNum d1), d_writePos := get 4 (d_writePos d1)\<rparr>
               in if length xs < 5 then (Some (OtherError ''unexpected EOF''), d2)
                  else (None, d2\<lparr>d_depth := xs ! 0, d_nextReadFileNum := d_readFileNum d2,
                                 d_nextReadPos := d_readPos d2\<rparr>)))"

definition dq_sync :: "diskQueue \<Rightarrow> go_error option \<times> diskQueue" where
  "dq_sync d =
     (let (synced, d1) =
        (case d_writeFile d of
           None \<Rightarrow> (None, d)
         | Some _ \<Rightarrow>
             (case next_fault d of
                (Fault _, d') \<Rightarrow> (Some ''sync'', d'\<lparr>d_writeFile := None\<rparr>)
              | (NoFault, d') \<Rightarrow> (None, d')))
      in case synced of
           Some e \<Rightarrow> (Some e, d1)
         | None \<Rightarrow>
             (case dq_persistMetaData d1 of
                (Some e, d2) \<Rightarrow> (Some e, d2)
              | (None, d2) \<Rightarrow> (None, d2\<lparr>d_needSync := False\<rparr>)))"

definition dq_New :: "int \<Rightarrow> int \<Rightarrow> int \<Rightarrow> int \<Rightarrow> bool \<Rightarrow> disk \<Rightarrow> diskQueue option" where
  "dq_New maxBytesPerFile minMsgSize maxMsgSize syncEvery logf D =
     (let d = \<lparr>d_readPos = 0, d_writePos = 0, d_readFileNum = 0, d_writeFileNum = 0, d_depth = 0,
               d_maxBytesPerFile = maxBytesPerFile, d_minMsgSize = minMsgSize, d_maxMsgSize = maxMsgSize,
               d_syncEvery = syncEvery, d_exitFlag = False, d_needSync = False, d_nextReadPos = 0,
               d_nextReadFileNum = 0, d_readFile = None, d_writeFile = None, d_logf = logf, d_disk = D\<rparr>
      in case dq_retrieveMetaData d of
           (Some (OtherError _), d') \<Rightarrow> do { _ <- dq_logf d'; Some d' }
         | (_, d') \<Rightarrow> Some d')"

section \<open>Skipping and deleting files\<close>

fun remove_files :: "nat \<Rightarrow> int \<Rightarrow> diskQueue \<Rightarrow> (go_error option \<times> diskQueue) option" where
  "remove_files 0 i d = Some (None, d)"
| "remove_files (Suc k) i d =
     (case next_fault d of
        (NoFault, d1) \<Rightarrow> remove_files k (i + 1) (set_file i None d1)
      | (Fault _, d1) \<Rightarrow> do {
          _ <- dq_logf d1;
          (e, d2) <- remove_files k (i + 1) d1;
          Some (case e of None \<Rightarrow> Some ''remove'' | Some e' \<Rightarrow> Some e', d2) })"

definition dq_skipToNextRWFile :: "diskQueue \<Rightarrow> (go_error option \<times> diskQueue) option" where
  "dq_skipToNextRWFile d = do {
     (err, d1) <- remove_files (nat (d_writeFileNum d - d_readFileNum d + 1)) (d_readFileNum d)
                    (d\<lparr>d_readFile := None, d_writeFile := None\<rparr>);
     let wf = d_writeFileNum d1 + 1;
     Some (err, d1\<lparr>d_writeFileNum := wf, d_writePos := 0, d_readFileNum := wf, d_readPos := 0,
                   d_nextReadFileNum := wf, d_nextReadPos := 0, d_depth := 0\<rparr>) }"

definition dq_deleteAllFiles :: "diskQueue \<Rightarrow> (go_error option \<times> diskQueue) option" where
  "dq_deleteAllFiles d = do {
     (err, d1) <- dq_skipToNextRWFile d;
     (case next_fault d1 of
        (Fault _, d2) \<Rightarrow> do { _ <- dq_logf d2; Some (Some ''remove'', d2) }
      | (NoFault, d2) \<Rightarrow> Some (err, d2\<lparr>d_disk := (d_disk d2)\<lparr>dk_meta := None\<rparr>\<rparr>)) }"

section \<open>Reading\<close>

text \<open>\<open>read_full n\<close> is \<open>io.ReadFull\<close> on the open reader: all \<open>n\<close> bytes or an error.\<close>

definition read_full :: "nat \<Rightarrow> diskQueue \<Rightarrow> bytes option \<times> diskQueue" where
  "read_full n d =
     (case next_fault d of
        (Fault _, d1) \<Rightarrow> (None, d1)
      | (NoFault, d1) \<Rightarrow>
          (case d_readFile d1 of
             None \<Rightarrow> (None, d1)
           | Some (f, off) \<Rightarrow>
               (case file_of d1 f of
                  None \<Rightarrow> (None, d1)
                | Some c \<Rightarrow>
                    if nat off + n \<le> length c
                    then (Some (take n (drop (nat off) c)), d1\<lparr>d_readFile := Some (f, off + int n)\<rparr>)
                    else (None, d1))))"

definition open_reader :: "diskQueue \<Rightarrow> (go_error option \<times> diskQueue) option" where
  "open_reader d =
     (case d_readFile d of
        Some _ \<Rightarrow> Some (None, d)
      | None \<Rightarrow>
          (case next_fault d of
             (Fault _, d1) \<Rightarrow> Some (Some ''open'', d1)
           | (NoFault, d1) \<Rightarrow>
               (case file_of d1 (d_readFileNum d1) of
                  None \<Rightarrow> Some (Some ''open'', d1)
                | Some c \<Rightarrow> do {
                    _ <- dq_logf d1;
                    (if 0 < d_readPos d1
                     then case next_fault d1 of
                            (Fault _, d2) \<Rightarrow> Some (Some ''seek'', d2\<lparr>d_readFile := None\<rparr>)
                          | (NoFault, d2) \<Rightarrow>
                              Some (None, d2\<lparr>d_readFile := Some (d_readFileNum d2, d_readPos d2)\<rparr>)
                     else Some (None, d1\<lparr>d_readFile := Some (d_readFileNum d1, 0)\<rparr>)) })))"

definition dq_readOne :: "diskQueue \<Rightarrow> ((go_error + bytes) \<times> diskQueue) option" where
  "dq_readOne d = do {
     (err, d1) <- open_reader d;
     (case err of
        Some e \<Rightarrow> Some (Inl e, d1)
      | None \<Rightarrow>
          (case read_full 4 d1 of
             (None, d2) \<Rightarrow> Some (Inl ''EOF'', d2\<lparr>d_readFile := None\<rparr>)
           | (Some hdr, d2) \<Rightarrow>
               let msgSize = sint (be_decode hdr :: u32) in
               if msgSize < d_minMsgSize d2 \<or> d_maxMsgSize d2 < msgSize
               then Some (Inl ''invalid message read size'', d2\<lparr>d_readFile := None\<rparr>)
               else if msgSize < 0 then None
               else (case read_full (nat msgSize) d2 of
                       (None, d3) \<Rightarrow> Some (Inl ''EOF'', d3\<lparr>d_readFile := None\<rparr>)
                     | (Some readBuf, d3) \<Rightarrow>
                         let totalBytes = sint (4 + be_decode hdr :: u32);
                             np = d_readPos d3 + totalBytes;
                             d4 = d3\<lparr>d_nextReadPos := np, d_nextReadFileNum := d_readFileNum d3\<rparr>
                         in Some (Inr readBuf,
                              if d_maxBytesPerFile d4 < np
                              then d4\<lparr>d_readFile := None, d_nextReadFileNum := d_readFileNum d4 + 1,
                                      d_nextReadPos := 0\<rparr>
                              else d4)))) }"

section \<open>Writing\<close>

definition open_writer :: "diskQueue \<Rightarrow> (go_error option \<times> diskQueue) option" where
  "open_writer d =
     (case d_writeFile d of
        Some _ \<Rightarrow> Some (None, d)
      | None \<Rightarrow>
          (case next_fault d of
             (Fault _, d1) \<Rightarrow> Some (Some ''open'', d1)
           | (NoFault, d1) \<Rightarrow>
               let f = d_writeFileNum d1;
                   d2 = (case file_of d1 f of None \<Rightarrow> set_file f (Some []) d1 | Some _ \<Rightarrow> d1)
               in do {
                 _ <- dq_logf d2;
                 (if 0 < d_writePos d2
                  then case next_fault d2 of
                         (Fault _, d3) \<Rightarrow> Some (Some ''seek'', d3\<lparr>d_writeFile := None\<rparr>)
                       | (NoFault, d3) \<Rightarrow> Some (None, d3\<lparr>d_writeFile := Some (f, d_writePos d3)\<rparr>)
                  else Some (None, d2\<lparr>d_writeFile := Some (f, 0)\<rparr>)) }))"

text \<open>\<open>write_file\<close> is \<open>os.File.Write\<close> on the open write file.\<close>

definition write_file :: "bytes \<Rightarrow> diskQueue \<Rightarrow> go_error option \<times> diskQueue" where
  "write_file buf d =
     (case d_writeFile d of
        None \<Rightarrow> (Some ''invalid argument'', d)
      | Some (f, off) \<Rightarrow>
          let c = (case file_of d f of None \<Rightarrow> [] | Some c \<Rightarrow> c) in
          (case next_fault d of
             (NoFault, d1) \<Rightarrow>
               (None, set_file f (Some (write_at c (nat off) buf))
                        (d1\<lparr>d_writeFile := Some (f, off + int (length buf))\<rparr>))
           | (Fault k, d1) \<Rightarrow>
               (Some ''write'', set_file f (Some (write_at c (nat off) (take k buf))) d1)))"

definition dq_writeOne :: "bytes \<Rightarrow> diskQueue \<Rightarrow> (go_error option \<times> diskQueue) option" where
  "dq_writeOne data d = do {
     (err, d1) <- open_writer d;
     (case err of
        Some e \<Rightarrow> Some (Some e, d1)
      | None \<Rightarrow>
          let dataLen = (of_nat (length data) :: u32) in
          if sint dataLen < d_minMsgSize d1 \<or> d_maxMsgSize d1 < sint dataLen
          then Some (Some ''invalid message write size'', d1)
          else (case write_file (be_encode 4 dataLen @ data) d1 of
                  (Some e, d2) \<Rightarrow> Some (Some e, d2\<lparr>d_writeFile := None\<rparr>)
                | (None, d2) \<Rightarrow>
                    let totalBytes = sint (4 + dataLen);
                        d3 = d2\<lparr>d_writePos := d_writePos d2 + totalBytes, d_depth := d_depth d2 + 1\<rparr>
                    in if d_maxBytesPerFile d3 < d_writePos d3
                       then (case dq_sync (d3\<lparr>d_writeFileNum := d_writeFileNum d3 + 1, d_writePos := 0\<rparr>) of
                               (Some e, d4) \<Rightarrow> do { _ <- dq_logf d4; Some (Some e, d4\<lparr>d_writeFile := None\<rparr>) }
                             | (None, d4) \<Rightarrow> Some (None, d4\<lparr>d_writeFile := None\<rparr>))
                       else Some (None, d3))) }"

section \<open>Moving the read position\<close>

definition dq_checkTailCorruption :: "int \<Rightarrow> diskQueue \<Rightarrow> diskQueue option" where
  "dq_checkTailCorruption depth d =
     (if d_readFileNum d < d_writeFileNum d \<or> d_readPos d < d_writePos d then Some d
      else do {
        d1 <- (if depth \<noteq> 0
               then do { _ <- dq_logf d; Some (d\<lparr>d_depth := 0, d_needSync := True\<rparr>) }
               else Some d);
        (if d_readFileNum d1 \<noteq> d_writeFileNum d1 \<or> d_readPos d1 \<noteq> d_writePos d1
         then do {
           _ <- (if d_readFileNum d1 > d_writeFileNum d1 \<or> d_readPos d1 > d_writePos d1
                 then dq_logf d1 else Some ());
           (_, d2) <- dq_skipToNextRWFile d1;
           Some (d2\<lparr>d_needSync := True\<rparr>) }
         else Some d1) })"

definition dq_moveForward :: "diskQueue \<Rightarrow> diskQueue option" where
  "dq_moveForward d = do {
     let oldReadFileNum = d_readFileNum d;
     let depth = d_depth d - 1;
     let d1 = d\<lparr>d_readFileNum := d_nextReadFileNum d, d_readPos := d_nextReadPos d, d_depth := depth\<rparr>;
     d2 <- (if oldReadFileNum \<noteq> d_nextReadFileNum d1
            then let d' = d1\<lparr>d_needSync := True\<rparr> in
                 (case next_fault d' of
                    (Fault _, d'') \<Rightarrow> do { _ <- dq_logf d''; Some d'' }
                  | (NoFault, d'') \<Rightarrow>
                      (case file_of d'' oldReadFileNum of
                         None \<Rightarrow> do { _ <- dq_logf d''; Some d'' }
                       | Some _ \<Rightarrow> Some (set_file oldReadFileNum None d'')))
            else Some d1);
     dq_checkTailCorruption depth d2 }"

definition dq_handleReadError :: "diskQueue \<Rightarrow> diskQueue option" where
  "dq_handleReadError d = do {
     let d1 = (if d_readFileNum d = d_writeFileNum d
               then d\<lparr>d_writeFile := None, d_writeFileNum := d_writeFileNum d + 1, d_writePos := 0\<rparr>
               else d);
     let badFn = d_readFileNum d1;
     _ <- dq_logf d1;
     d2 <- (case next_fault d1 of
              (Fault _, d') \<Rightarrow> do { _ <- dq_logf d'; Some d' }
            | (NoFault, d') \<Rightarrow>
                (case file_of d' badFn of
                   None \<Rightarrow> do { _ <- dq_logf d'; Some d' }
                 | Some c \<Rightarrow>
                     let d'' = set_file badFn None d' in
                     Some (d''\<lparr>d_disk := (d_disk d'')\<lparr>dk_bad := (dk_bad (d_disk d''))(badFn := Some c)\<rparr>\<rparr>)));
     Some (d2\<lparr>d_readFileNum := badFn + 1, d_readPos := 0, d_nextReadFileNum := badFn + 1,
              d_nextReadPos := 0, d_needSync := True\<rparr>) }"

section \<open>The io loop\<close>

text \<open>
  \<open>ioLoop\<close> runs in its own goroutine, and is a state machine here: at the top of the loop it
  synchronises and reads ahead, and either starts over (after a read error) or waits in the
  \<open>select\<close>; there it takes one event. \<open>io_r\<close> says whether the read channel is offered.
\<close>

datatype io_pc = AtTop | AtSelect | Exited

record ioState =
  io_pc :: io_pc
  io_count :: int
  io_dataRead :: bytes
  io_r :: bool
  io_dq :: diskQueue

definition io_start :: "diskQueue \<Rightarrow> ioState" where
  "io_start d = \<lparr>io_pc = AtTop, io_count = 0, io_dataRead = [], io_r = False, io_dq = d\<rparr>"

definition has_data :: "diskQueue \<Rightarrow> bool" where
  "has_data d \<longleftrightarrow> d_readFileNum d < d_writeFileNum d \<or> d_readPos d < d_writePos d"

definition ioLoop_sync :: "ioState \<Rightarrow> ioState option" where
  "ioLoop_sync s = do {
     let d = io_dq s;
     let d = (if io_count s = d_syncEvery d then d\<lparr>d_needSync := True\<rparr> else d);
     (if d_needSync d
      then case dq_sync d of
             (Some _, d1) \<Rightarrow> do { _ <- dq_logf d1; Some (s\<lparr>io_dq := d1, io_count := 0\<rparr>) }
           | (None, d1) \<Rightarrow> Some (s\<lparr>io_dq := d1, io_count := 0\<rparr>)
      else Some (s\<lparr>io_dq := d\<rparr>)) }"

definition ioLoop_read :: "ioState \<Rightarrow> ioState option" where
  "ioLoop_read s = do {
     let d = io_dq s;
     (if has_data d
      then (if d_nextReadPos d = d_readPos d
            then do {
              (r, d1) <- dq_readOne d;
              (case r of
                 Inl _ \<Rightarrow> do {
                   _ <- dq_logf d1;
                   d2 <- dq_handleReadError d1;
                   Some (s\<lparr>io_dq := d2, io_pc := AtTop, io_dataRead := []\<rparr>) }
               | Inr buf \<Rightarrow> Some (s\<lparr>io_dq := d1, io_dataRead := buf, io_r := True, io_pc := AtSelect\<rparr>)) }
            else Some (s\<lparr>io_r := True, io_pc := AtSelect\<rparr>))
      else Some (s\<lparr>io_r := False, io_pc := AtSelect\<rparr>)) }"

definition ioLoop_top :: "ioState \<Rightarrow> ioState option" where
  "ioLoop_top s = do { s1 <- ioLoop_sync s; ioLoop_read s1 }"

datatype io_event = EvRead | EvEmpty | EvWrite bytes | EvTick | EvExit

datatype io_reply = Data bytes | Response "go_error option" | Silent

definition io_enabled :: "ioState \<Rightarrow> io_event \<Rightarrow> bool" where
  "io_enabled s ev \<longleftrightarrow> io_pc s = AtSelect \<and> (ev = EvRead \<longrightarrow> io_r s)"

fun ioLoop_select :: "io_event \<Rightarrow> ioState \<Rightarrow> (io_reply \<times> ioState) option" where
  "ioLoop_select EvRead s = do {
     d <- dq_moveForward (io_dq s);
     Some (Data (io_dataRead s), s\<lparr>io_dq := d, io_count := io_count s + 1, io_pc := AtTop\<rparr>) }"
| "ioLoop_select EvEmpty s = do {
     (e, d) <- dq_deleteAllFiles (io_dq s);
     Some (Response e, s\<lparr>io_dq := d, io_count := 0, io_pc := AtTop\<rparr>) }"
| "ioLoop_select (EvWrite data) s = do {
     (e, d) <- dq_writeOne data (io_dq s);
     Some (Response e, s\<lparr>io_dq := d, io_count := io_count s + 1, io_pc := AtTop\<rparr>) }"
| "ioLoop_select EvTick s =
     Some (Silent, if io_count s = 0 then s\<lparr>io_pc := AtTop\<rparr>
                   else s\<lparr>io_dq := (io_dq s)\<lparr>d_needSync := True\<rparr>, io_pc := AtTop\<rparr>)"
| "ioLoop_select EvExit s = do {
     _ <- dq_logf (io_dq s);
     Some (Silent, s\<lparr>io_pc := Exited\<rparr>) }"

section \<open>The interface\<close>

text \<open>
  The callers' side of the channels: an operation finds the loop waiting in its \<open>select\<close>, is
  served, and the loop comes round again. \<open>run_top\<close> is the way round, at most the given
  number of times through the top of the loop.
\<close>

fun run_top :: "nat \<Rightarrow> ioState \<Rightarrow> ioState option" where
  "run_top 0 s = None"
| "run_top (Suc k) s = do {
     s1 <- ioLoop_top s;
     (if io_pc s1 = AtSelect then Some s1 else run_top k s1) }"

definition dq_Depth :: "ioState \<Rightarrow> int" where
  "dq_Depth s = d_depth (io_dq s)"

definition dq_Put :: "bytes \<Rightarrow> ioState \<Rightarrow> (go_error option \<times> ioState) option" where
  "dq_Put data s =
     (if d_exitFlag (io_dq s) then Some (Some ''exiting'', s)
      else case ioLoop_select (EvWrite data) s of
             Some (Response e, s') \<Rightarrow> Some (e, s')
           | _ \<Rightarrow> None)"

definition dq_Empty :: "ioState \<Rightarrow> (go_error option \<times> ioState) option" where
  "dq_Empty s =
     (if d_exitFlag (io_dq s) then Some (Some ''exiting'', s)
      else do {
        _ <- dq_logf (io_dq s);
        (case ioLoop_select EvEmpty s of
           Some (Response e, s') \<Rightarrow> Some (e, s')
         | _ \<Rightarrow> None) })"

definition dq_exit :: "bool \<Rightarrow> ioState \<Rightarrow> ioState option" where
  "dq_exit deleted s =
     (if d_exitFlag (io_dq s) then None
      else do {
        let s0 = s\<lparr>io_dq := (io_dq s)\<lparr>d_exitFlag := True\<rparr>\<rparr>;
        _ <- dq_logf (io_dq s0);
        (_, s1) <- ioLoop_select EvExit s0;
        Some (s1\<lparr>io_dq := (io_dq s1)\<lparr>d_readFile := None, d_writeFile := None\<rparr>\<rparr>) })"

definition dq_Close :: "ioState \<Rightarrow> (go_error option \<times> ioState) option" where
  "dq_Close s = do {
     s1 <- dq_exit False s;
     let (e, d) = dq_sync (io_dq s1);
     Some (e, s1\<lparr>io_dq := d\<rparr>) }"

definition dq_Delete :: "ioState \<Rightarrow> (go_error option \<times> ioState) option" where
  "dq_Delete s = do { s1 <- dq_exit True s; Some (None, s1) }"

end
