(* ===== verification/Nsq_DiskFifo.thy ===== *)
theory Nsq_DiskFifo
  imports Nsq_DiskQueue
begin

text \<open>
  The disk queue implements a FIFO queue of byte strings. \<open>stored\<close> says which messages lie
  between two positions of the data files; \<open>dq_rel\<close> relates a queue to the list of
  messages it holds, on a disk that does not fail; every step of the io loop keeps it.
\<close>

definition enc :: "bytes \<Rightarrow> bytes" where
  "enc m = be_encode 4 (of_nat (length m) :: u32) @ m"

definition advance :: "int \<Rightarrow> int \<times> int \<Rightarrow> bytes \<Rightarrow> int \<times> int" where
  "advance mx pos m =
     (if mx < snd pos + 4 + int (length m) then (fst pos + 1, 0)
      else (fst pos, snd pos + 4 + int (length m)))"

fun stored :: "(int \<Rightarrow> bytes option) \<Rightarrow> int \<Rightarrow> int \<times> int \<Rightarrow> bytes list \<Rightarrow> int \<times> int \<Rightarrow> bool" where
  "stored F mx pos [] e = (pos = e)"
| "stored F mx pos (m # ms) e =
     (0 \<le> snd pos \<and>
      (\<exists>c. F (fst pos) = Some c \<and> take (length (enc m)) (drop (nat (snd pos)) c) = enc m) \<and>
      stored F mx (advance mx pos m) ms e)"

lemma length_enc [simp]: "length (enc m) = 4 + length m"
  by (simp add: enc_def)

lemma stored_bounds:
  "stored F mx pos ms e \<Longrightarrow> fst pos \<le> fst e \<and> (fst pos = fst e \<longrightarrow> snd pos \<le> snd e) \<and>
     (ms \<noteq> [] \<longrightarrow> fst pos < fst e \<or> snd pos < snd e)"
proof (induction ms arbitrary: pos)
  case (Cons m ms)
  then have "fst (advance mx pos m) \<le> fst e"
    "fst (advance mx pos m) = fst e \<longrightarrow> snd (advance mx pos m) \<le> snd e" by auto
  then show ?case by (auto simp: advance_def split: if_splits)
qed simp

lemma stored_frame:
  "stored F mx pos ms e \<Longrightarrow> (\<And>f. fst pos \<le> f \<Longrightarrow> F' f = F f) \<Longrightarrow> stored F' mx pos ms e"
proof (induction ms arbitrary: pos)
  case (Cons m ms)
  then have "stored F' mx (advance mx pos m) ms e"
    by (intro Cons.IH) (auto simp: advance_def split: if_splits)
  with Cons.prems show ?case by simp
qed simp

lemma take_drop_prefix:
  assumes "p + n \<le> k" "take k c' = take k c"
  shows "take n (drop p c') = take n (drop p c)"
proof -
  have "take (p + n) c' = take (p + n) c"
    using assms by (metis min.absorb1 take_take)
  then show ?thesis by (simp add: take_drop add.commute)
qed

text \<open>A write at the end position leaves what is stored before it alone.\<close>

lemma stored_write:
  assumes "stored F mx pos ms e" and F': "\<And>f. f \<noteq> fst e \<Longrightarrow> F' f = F f"
    and c': "\<And>c. F (fst e) = Some c \<Longrightarrow> \<exists>c'. F' (fst e) = Some c' \<and> take (nat (snd e)) c' = take (nat (snd e)) c"
  shows "stored F' mx pos ms e"
  using assms(1)
proof (induction ms arbitrary: pos)
  case (Cons m ms)
  then have st: "stored F' mx (advance mx pos m) ms e" by simp
  obtain c where c: "F (fst pos) = Some c" "take (length (enc m)) (drop (nat (snd pos)) c) = enc m"
    and p: "0 \<le> snd pos" using Cons.prems by auto
  have "\<exists>c'. F' (fst pos) = Some c' \<and> take (length (enc m)) (drop (nat (snd pos)) c') = enc m"
  proof (cases "fst pos = fst e")
    case False
    then show ?thesis using c F' by simp
  next
    case True
    then obtain c' where d: "F' (fst pos) = Some c'" "take (nat (snd e)) c' = take (nat (snd e)) c"
      using c' c by auto
    have "stored F mx (advance mx pos m) ms e" using Cons.prems by simp
    then have "snd pos + 4 + int (length m) \<le> snd e"
      using stored_bounds [of F mx "advance mx pos m" ms e] True
      by (auto simp: advance_def split: if_splits)
    then have "nat (snd pos) + length (enc m) \<le> nat (snd e)" using p by simp
    then have "take (length (enc m)) (drop (nat (snd pos)) c') = take (length (enc m)) (drop (nat (snd pos)) c)"
      using d(2) by (rule take_drop_prefix)
    with c d show ?thesis by simp
  qed
  with st p show ?case by simp
qed simp

lemma stored_snoc:
  assumes "stored F mx pos ms e" and "0 \<le> snd e"
    and "F (fst e) = Some c" "take (length (enc m)) (drop (nat (snd e)) c) = enc m"
  shows "stored F mx pos (ms @ [m]) (advance mx e m)"
  using assms by (induction ms arbitrary: pos) auto

lemma take_write_at: "off \<le> length c \<Longrightarrow> take off (write_at c off data) = take off c"
  by (simp add: write_at_def)

lemma drop_write_at: "off \<le> length c \<Longrightarrow> take (length data) (drop off (write_at c off data)) = data"
  by (simp add: write_at_def)

lemma length_write_at: "off \<le> length c \<Longrightarrow> off + length data \<le> length (write_at c off data)"
  by (simp add: write_at_def)

section \<open>The relation\<close>

definition ok_size :: "diskQueue \<Rightarrow> bytes \<Rightarrow> bool" where
  "ok_size d m \<longleftrightarrow> d_minMsgSize d \<le> int (length m) \<and> int (length m) \<le> d_maxMsgSize d"

definition dq_config :: "diskQueue \<Rightarrow> bool" where
  "dq_config d \<longleftrightarrow> dk_faults (d_disk d) = [] \<and> d_logf d \<and> 0 \<le> d_minMsgSize d \<and>
     d_maxMsgSize d < 2 ^ 31 - 4"

definition write_ready :: "diskQueue \<Rightarrow> bool" where
  "write_ready d \<longleftrightarrow> 0 \<le> d_writePos d \<and>
     (0 < d_writePos d \<or> d_writeFile d \<noteq> None \<longrightarrow>
        (\<exists>c. file_of d (d_writeFileNum d) = Some c \<and> d_writePos d \<le> int (length c))) \<and>
     (\<forall>h. d_writeFile d = Some h \<longrightarrow> h = (d_writeFileNum d, d_writePos d))"

definition read_pos :: "diskQueue \<Rightarrow> int \<times> int" where
  "read_pos d = (d_readFileNum d, d_readPos d)"

definition next_pos :: "diskQueue \<Rightarrow> int \<times> int" where
  "next_pos d = (d_nextReadFileNum d, d_nextReadPos d)"

definition write_pos :: "diskQueue \<Rightarrow> int \<times> int" where
  "write_pos d = (d_writeFileNum d, d_writePos d)"

definition read_ready :: "diskQueue \<Rightarrow> bool" where
  "read_ready d \<longleftrightarrow> 0 \<le> d_readPos d \<and>
     (\<forall>h. d_readFile d = Some h \<longrightarrow> h = next_pos d \<and> d_nextReadFileNum d = d_readFileNum d)"

definition dq_rel :: "diskQueue \<Rightarrow> bytes list \<Rightarrow> bool" where
  "dq_rel d ms \<longleftrightarrow> dq_config d \<and> write_ready d \<and> read_ready d \<and>
     stored (file_of d) (d_maxBytesPerFile d) (read_pos d) ms (write_pos d) \<and>
     list_all (ok_size d) ms \<and> d_depth d = int (length ms)"

text \<open>What has been read ahead: nothing, or the first message.\<close>

definition ahead :: "diskQueue \<Rightarrow> bytes list \<Rightarrow> bytes \<Rightarrow> bool" where
  "ahead d ms buf \<longleftrightarrow>
     (ms \<noteq> [] \<and> next_pos d = advance (d_maxBytesPerFile d) (read_pos d) (hd ms) \<and> buf = hd ms)"

definition io_rel :: "ioState \<Rightarrow> bytes list \<Rightarrow> bool" where
  "io_rel s ms \<longleftrightarrow> dq_rel (io_dq s) ms \<and>
     (next_pos (io_dq s) = read_pos (io_dq s) \<or> ahead (io_dq s) ms (io_dataRead s)) \<and>
     (io_pc s = AtSelect \<longrightarrow>
        io_r s = (ms \<noteq> []) \<and> (ms \<noteq> [] \<longrightarrow> ahead (io_dq s) ms (io_dataRead s)))"

lemmas rel_defs = dq_rel_def dq_config_def write_ready_def read_ready_def read_pos_def
  next_pos_def write_pos_def

lemma next_fault_none [simp]: "dk_faults (d_disk d) = [] \<Longrightarrow> next_fault d = (NoFault, d)"
  by (simp add: next_fault_def)

lemma dq_logf_set [simp]: "d_logf d \<Longrightarrow> dq_logf d = Some ()"
  by (simp add: dq_logf_def)

lemma dq_rel_config: "dq_rel d ms \<Longrightarrow> dk_faults (d_disk d) = [] \<and> d_logf d"
  by (simp add: rel_defs)

lemma has_data_iff: "dq_rel d ms \<Longrightarrow> has_data d \<longleftrightarrow> ms \<noteq> []"
  using stored_bounds [of "file_of d" "d_maxBytesPerFile d" "read_pos d" ms "write_pos d"]
  by (cases ms) (auto simp: rel_defs has_data_def)

section \<open>Synchronising\<close>

definition with_meta :: "diskQueue \<Rightarrow> diskQueue" where
  "with_meta d = d\<lparr>d_disk := (d_disk d)\<lparr>dk_meta := Some
     [d_depth d, d_readFileNum d, d_readPos d, d_writeFileNum d, d_writePos d]\<rparr>, d_needSync := False\<rparr>"

lemma dq_sync_ok: "dk_faults (d_disk d) = [] \<Longrightarrow> dq_sync d = (None, with_meta d)"
  by (cases "d_writeFile d") (simp_all add: dq_sync_def dq_persistMetaData_def with_meta_def)

lemma file_of_simps [simp]:
  "file_of (d\<lparr>d_needSync := b\<rparr>) = file_of d"
  "file_of (with_meta d) = file_of d"
  "file_of (d\<lparr>d_writeFile := w\<rparr>) = file_of d"
  "file_of (d\<lparr>d_readFile := r\<rparr>) = file_of d"
  "file_of (d\<lparr>d_exitFlag := b\<rparr>) = file_of d"
  "file_of (set_file f c d) = (file_of d)(f := c)"
  by (auto simp: file_of_def with_meta_def set_file_def fun_eq_iff)

lemma ok_size_simps [simp]:
  "ok_size (d\<lparr>d_needSync := b\<rparr>) = ok_size d" "ok_size (with_meta d) = ok_size d"
  by (auto simp: ok_size_def with_meta_def fun_eq_iff)

lemma dq_rel_needSync [simp]: "dq_rel (d\<lparr>d_needSync := b\<rparr>) ms = dq_rel d ms"
  by (simp add: rel_defs)

lemma dq_rel_with_meta [simp]: "dq_rel (with_meta d) ms = dq_rel d ms"
  by (simp add: rel_defs) (simp add: with_meta_def)

lemma pos_simps [simp]:
  "read_pos (d\<lparr>d_needSync := b\<rparr>) = read_pos d" "next_pos (d\<lparr>d_needSync := b\<rparr>) = next_pos d"
  "read_pos (with_meta d) = read_pos d" "next_pos (with_meta d) = next_pos d"
  "ahead (d\<lparr>d_needSync := b\<rparr>) ms buf = ahead d ms buf" "ahead (with_meta d) ms buf = ahead d ms buf"
  by (simp_all add: read_pos_def next_pos_def with_meta_def ahead_def)

lemma ioLoop_sync_ok:
  assumes "io_rel s ms" "io_pc s = AtTop"
  shows "\<exists>s'. ioLoop_sync s = Some s' \<and> io_rel s' ms \<and> io_pc s' = AtTop"
proof -
  have f: "dk_faults (d_disk (io_dq s)) = []"
    using assms(1) dq_rel_config by (auto simp: io_rel_def)
  then show ?thesis using assms
    by (auto simp: ioLoop_sync_def dq_sync_ok io_rel_def Let_def)
qed

section \<open>Reading ahead\<close>

lemma sint_len:
  assumes "int n < 2 ^ 31 - 4"
  shows "sint (of_nat n :: u32) = int n" "sint (4 + of_nat n :: u32) = 4 + int n"
proof -
  have s: "sint (of_nat k :: u32) = int k" if "k < 2 ^ 31" for k
    using that by (simp add: signed_of_nat signed_take_bit_int_eq_self)
  show "sint (of_nat n :: u32) = int n" using assms by (intro s) simp
  have "sint (of_nat (4 + n) :: u32) = int (4 + n)" using assms by (intro s) simp
  then show "sint (4 + of_nat n :: u32) = 4 + int n" by simp
qed

lemma read_full_ok:
  assumes "dk_faults (d_disk d) = []" "d_readFile d = Some (f, off)" "file_of d f = Some c"
    "nat off + n \<le> length c"
  shows "read_full n d = (Some (take n (drop (nat off) c)), d\<lparr>d_readFile := Some (f, off + int n)\<rparr>)"
  using assms by (simp add: read_full_def)

lemma enc_parts:
  assumes "take (length (enc m)) (drop p c) = enc m"
  shows "p + 4 + length m \<le> length c" "take 4 (drop p c) = be_encode 4 (of_nat (length m) :: u32)"
    "take (length m) (drop (p + 4) c) = m"
proof -
  have "length (take (length (enc m)) (drop p c)) = 4 + length m" using assms by simp
  then show "p + 4 + length m \<le> length c" by simp
  have "take 4 (enc m) = be_encode 4 (of_nat (length m) :: u32)" by (simp add: enc_def)
  then show "take 4 (drop p c) = be_encode 4 (of_nat (length m) :: u32)"
    using assms by (metis le_add1 length_enc min.absorb1 take_take)
  have "drop 4 (take (length (enc m)) (drop p c)) = m" using assms by (simp add: enc_def)
  then show "take (length m) (drop (p + 4) c) = m" by (simp add: drop_take add.commute)
qed

lemma open_reader_ok:
  assumes "dk_faults (d_disk d) = []" "d_logf d" "0 \<le> d_readPos d"
    "d_readFile d = None \<or> d_readFile d = Some (read_pos d)" "file_of d (d_readFileNum d) = Some c"
  shows "open_reader d = Some (None, d\<lparr>d_readFile := Some (read_pos d)\<rparr>)"
  using assms by (auto simp: open_reader_def read_pos_def)

definition read_ahead :: "bytes \<Rightarrow> diskQueue \<Rightarrow> diskQueue" where
  "read_ahead m d =
     (let pos = advance (d_maxBytesPerFile d) (read_pos d) m in
      d\<lparr>d_readFile := (if d_maxBytesPerFile d < d_readPos d + 4 + int (length m) then None else Some pos),
        d_nextReadFileNum := fst pos, d_nextReadPos := snd pos\<rparr>)"

lemma dq_readOne_ok:
  assumes "dq_rel d (m # ms)" "d_nextReadPos d = d_readPos d"
  shows "dq_readOne d = Some (Inr m, read_ahead m d)"
proof -
  have cfg: "dk_faults (d_disk d) = []" "d_logf d" "0 \<le> d_readPos d" "ok_size d m"
    "d_maxMsgSize d < 2 ^ 31 - 4" "0 \<le> d_minMsgSize d"
    using assms(1) by (simp_all add: rel_defs)
  obtain c where c: "file_of d (d_readFileNum d) = Some c"
    "take (length (enc m)) (drop (nat (d_readPos d)) c) = enc m"
    using assms(1) by (auto simp: rel_defs)
  note parts = enc_parts [OF c(2)]
  have rf: "d_readFile d = None \<or> d_readFile d = Some (read_pos d)"
    using assms by (cases "d_readFile d") (auto simp: rel_defs)
  have sz: "int (length m) < 2 ^ 31 - 4" using cfg by (simp add: ok_size_def)
  have hdr: "be_decode (be_encode 4 (of_nat (length m) :: u32)) = (of_nat (length m) :: u32)"
    by (simp add: be_decode_encode)
  have n4: "nat (d_readPos d + 4) = nat (d_readPos d) + 4" using cfg by simp
  have r1: "read_full 4 (d\<lparr>d_readFile := Some (read_pos d)\<rparr>) =
      (Some (be_encode 4 (of_nat (length m) :: u32)),
       d\<lparr>d_readFile := Some (d_readFileNum d, d_readPos d + 4)\<rparr>)"
    using cfg c parts by (subst read_full_ok) (simp_all add: read_pos_def)
  have r2: "read_full (length m) (d\<lparr>d_readFile := Some (d_readFileNum d, d_readPos d + 4)\<rparr>) =
      (Some m, d\<lparr>d_readFile := Some (d_readFileNum d, d_readPos d + 4 + int (length m))\<rparr>)"
    using cfg c parts n4
    by (subst read_full_ok [where f = "d_readFileNum d" and off = "d_readPos d + 4" and c = c]) simp_all
  show ?thesis
    using cfg rf sz r2
    by (simp add: dq_readOne_def open_reader_ok [OF cfg(1-3) rf c(1)] r1 [unfolded read_pos_def] hdr sint_len ok_size_def
        read_ahead_def advance_def Let_def read_pos_def)
qed

lemma read_ahead_simps [simp]:
  "d_writePos (read_ahead m d) = d_writePos d" "d_writeFileNum (read_ahead m d) = d_writeFileNum d"
  "d_writeFile (read_ahead m d) = d_writeFile d" "d_readPos (read_ahead m d) = d_readPos d"
  "d_readFileNum (read_ahead m d) = d_readFileNum d" "file_of (read_ahead m d) = file_of d"
  "d_maxBytesPerFile (read_ahead m d) = d_maxBytesPerFile d" "d_disk (read_ahead m d) = d_disk d"
  "d_minMsgSize (read_ahead m d) = d_minMsgSize d" "d_maxMsgSize (read_ahead m d) = d_maxMsgSize d"
  "d_logf (read_ahead m d) = d_logf d" "d_depth (read_ahead m d) = d_depth d"
  "ok_size (read_ahead m d) = ok_size d" "read_pos (read_ahead m d) = read_pos d"
  "next_pos (read_ahead m d) = advance (d_maxBytesPerFile d) (read_pos d) m"
  by (auto simp: read_ahead_def Let_def file_of_def ok_size_def fun_eq_iff read_pos_def next_pos_def)

lemma dq_rel_read_ahead:
  assumes "dq_rel d (m # ms)"
  shows "dq_rel (read_ahead m d) (m # ms)" "ahead (read_ahead m d) (m # ms) m"
proof -
  show "ahead (read_ahead m d) (m # ms) m" by (simp add: ahead_def)
  have "read_ready (read_ahead m d)"
    using assms by (auto simp: dq_rel_def read_ready_def)
      (auto simp: read_ahead_def Let_def advance_def read_pos_def next_pos_def split: if_splits)
  then show "dq_rel (read_ahead m d) (m # ms)"
    using assms by (simp add: dq_rel_def dq_config_def write_ready_def write_pos_def)
qed

lemma ioLoop_read_ok:
  assumes "io_rel s ms" "io_pc s = AtTop"
  shows "\<exists>s'. ioLoop_read s = Some s' \<and> io_rel s' ms \<and> io_pc s' = AtSelect"
proof (cases ms)
  case Nil
  then show ?thesis using assms has_data_iff [of "io_dq s" ms]
    by (auto simp: ioLoop_read_def io_rel_def ahead_def)
next
  case (Cons m ms')
  then have r: "dq_rel (io_dq s) (m # ms')" "has_data (io_dq s)"
    using assms has_data_iff [of "io_dq s" ms] by (auto simp: io_rel_def)
  show ?thesis
  proof (cases "d_nextReadPos (io_dq s) = d_readPos (io_dq s)")
    case True
    then show ?thesis using r Cons dq_readOne_ok [OF r(1) True] dq_rel_read_ahead [OF r(1)]
      by (simp add: ioLoop_read_def io_rel_def)
  next
    case False
    then have "ahead (io_dq s) ms (io_dataRead s)"
      using assms(1) by (auto simp: io_rel_def next_pos_def read_pos_def)
    then show ?thesis using False r Cons by (simp add: ioLoop_read_def io_rel_def)
  qed
qed

text \<open>The top of the loop always reaches the \<open>select\<close>, holding the same messages.\<close>

lemma ioLoop_top_ok:
  assumes "io_rel s ms" "io_pc s = AtTop"
  shows "\<exists>s'. ioLoop_top s = Some s' \<and> io_rel s' ms \<and> io_pc s' = AtSelect"
proof -
  obtain s1 where "ioLoop_sync s = Some s1" "io_rel s1 ms" "io_pc s1 = AtTop"
    using ioLoop_sync_ok [OF assms] by auto
  with ioLoop_read_ok [of s1 ms] show ?thesis by (simp add: ioLoop_top_def)
qed

section \<open>Delivering\<close>

lemma checkTail_ok:
  assumes "dq_rel d ms" "depth = int (length ms)"
  shows "dq_checkTailCorruption depth d = Some d"
proof (cases ms)
  case Nil
  then show ?thesis using assms by (auto simp: dq_checkTailCorruption_def rel_defs)
next
  case Cons
  then show ?thesis using assms has_data_iff [of d ms]
    by (auto simp: dq_checkTailCorruption_def has_data_def)
qed

definition moved :: "diskQueue \<Rightarrow> diskQueue" where
  "moved d =
     (let d1 = d\<lparr>d_readFileNum := d_nextReadFileNum d, d_readPos := d_nextReadPos d,
                 d_depth := d_depth d - 1\<rparr>
      in if d_readFileNum d \<noteq> d_nextReadFileNum d
         then set_file (d_readFileNum d) None (d1\<lparr>d_needSync := True\<rparr>) else d1)"

lemma moved_simps [simp]:
  "d_writePos (moved d) = d_writePos d" "d_writeFileNum (moved d) = d_writeFileNum d"
  "d_writeFile (moved d) = d_writeFile d" "d_readPos (moved d) = d_nextReadPos d"
  "d_readFileNum (moved d) = d_nextReadFileNum d" "d_readFile (moved d) = d_readFile d"
  "d_maxBytesPerFile (moved d) = d_maxBytesPerFile d" "dk_faults (d_disk (moved d)) = dk_faults (d_disk d)"
  "d_minMsgSize (moved d) = d_minMsgSize d" "d_maxMsgSize (moved d) = d_maxMsgSize d"
  "d_logf (moved d) = d_logf d" "d_depth (moved d) = d_depth d - 1"
  "ok_size (moved d) = ok_size d" "read_pos (moved d) = next_pos d" "next_pos (moved d) = next_pos d"
  "write_pos (moved d) = write_pos d" "d_nextReadPos (moved d) = d_nextReadPos d"
  "d_nextReadFileNum (moved d) = d_nextReadFileNum d"
  "file_of (moved d) = (if d_readFileNum d \<noteq> d_nextReadFileNum d
     then (file_of d)(d_readFileNum d := None) else file_of d)"
  by (auto simp: moved_def Let_def file_of_def set_file_def ok_size_def fun_eq_iff read_pos_def
      next_pos_def write_pos_def)

lemma dq_rel_moved:
  assumes "dq_rel d (m # ms)" "ahead d (m # ms) buf"
  shows "dq_rel (moved d) ms"
proof -
  let ?F = "file_of (moved d)"
  have adv: "next_pos d = advance (d_maxBytesPerFile d) (read_pos d) m"
    using assms(2) by (simp add: ahead_def)
  have st: "stored (file_of d) (d_maxBytesPerFile d) (next_pos d) ms (write_pos d)"
    using assms(1) adv by (simp add: dq_rel_def)
  have le: "d_nextReadFileNum d \<le> d_writeFileNum d" "0 \<le> d_readPos d"
    using stored_bounds [OF st] assms(1) by (simp_all add: rel_defs)
  have nx: "d_nextReadFileNum d = d_readFileNum d \<and> d_nextReadPos d = d_readPos d + 4 + int (length m) \<or>
      d_nextReadFileNum d = d_readFileNum d + 1 \<and> d_nextReadPos d = 0"
    using adv by (auto simp: advance_def read_pos_def next_pos_def split: if_splits)
  have "stored ?F (d_maxBytesPerFile d) (next_pos d) ms (write_pos d)"
    by (rule stored_frame [OF st]) (use nx in \<open>auto simp: next_pos_def\<close>)
  moreover have "write_ready (moved d)"
    using assms(1) le nx by (auto simp: rel_defs)
  moreover have "read_ready (moved d)"
    using assms(1) nx by (auto simp: rel_defs)
  ultimately show ?thesis using assms(1) by (simp add: dq_rel_def dq_config_def)
qed

lemma dq_moveForward_ok:
  assumes "dq_rel d (m # ms)" "ahead d (m # ms) buf"
  shows "dq_moveForward d = Some (moved d)"
proof -
  have cfg: "dk_faults (d_disk d) = []" "d_logf d" "d_depth d - 1 = int (length ms)"
    using assms(1) by (simp_all add: rel_defs)
  obtain c where c: "file_of d (d_readFileNum d) = Some c"
    using assms(1) by (auto simp: rel_defs)
  then have c': "dk_files (d_disk d) (d_readFileNum d) = Some c" by (simp add: file_of_def)
  have "dq_moveForward d = dq_checkTailCorruption (d_depth d - 1) (moved d)"
    using cfg(1,2) c' by (simp add: dq_moveForward_def moved_def Let_def file_of_def)
  then show ?thesis using checkTail_ok [OF dq_rel_moved [OF assms] cfg(3)] by simp
qed

lemma io_read_ok:
  assumes "io_rel s (m # ms)" "io_pc s = AtSelect"
  shows "\<exists>s'. ioLoop_select EvRead s = Some (Data m, s') \<and> io_rel s' ms \<and> io_pc s' = AtTop"
proof -
  have r: "dq_rel (io_dq s) (m # ms)" "ahead (io_dq s) (m # ms) (io_dataRead s)"
    using assms by (auto simp: io_rel_def)
  then have "io_dataRead s = m" by (simp add: ahead_def)
  then show ?thesis using dq_moveForward_ok [OF r] dq_rel_moved [OF r] by (simp add: io_rel_def)
qed

section \<open>Writing\<close>

text \<open>The content of the file being written, as it is once the file is open.\<close>

definition write_content :: "diskQueue \<Rightarrow> bytes" where
  "write_content d = (case file_of d (d_writeFileNum d) of None \<Rightarrow> [] | Some c \<Rightarrow> c)"

definition opened :: "diskQueue \<Rightarrow> diskQueue" where
  "opened d = (set_file (d_writeFileNum d) (Some (write_content d)) d)\<lparr>d_writeFile := Some (write_pos d)\<rparr>"

lemma file_triv: "file_of d f = Some c \<Longrightarrow> set_file f (Some c) d = d"
  by (auto simp: file_of_def set_file_def fun_upd_idem)

lemma open_writer_ok:
  assumes "dq_rel d ms"
  shows "open_writer d = Some (None, opened d)"
proof -
  have cfg: "dk_faults (d_disk d) = []" "d_logf d" "0 \<le> d_writePos d"
    using assms by (simp_all add: rel_defs)
  show ?thesis
  proof (cases "d_writeFile d")
    case None
    show ?thesis
    proof (cases "file_of d (d_writeFileNum d)")
      case (Some c)
      then show ?thesis using cfg None
        by (auto simp: open_writer_def opened_def write_content_def write_pos_def file_triv Let_def)
    next
      case nofile: None
      have "dk_faults (d_disk (set_file f c d)) = []" "d_logf (set_file f c d)"
        "d_writePos (set_file f c d) = d_writePos d" for f c
        using cfg by (simp_all add: set_file_def)
      then show ?thesis using cfg None nofile
        by (auto simp: open_writer_def opened_def write_content_def write_pos_def Let_def)
    qed
  next
    case (Some h)
    then obtain c where "h = write_pos d" "file_of d (d_writeFileNum d) = Some c"
      using assms by (auto simp: rel_defs)
    then show ?thesis using Some
      by (auto simp: open_writer_def opened_def write_content_def file_triv)
  qed
qed

lemma opened_simps [simp]:
  "d_writePos (opened d) = d_writePos d" "d_writeFileNum (opened d) = d_writeFileNum d"
  "d_writeFile (opened d) = Some (write_pos d)" "d_readPos (opened d) = d_readPos d"
  "d_readFileNum (opened d) = d_readFileNum d" "d_readFile (opened d) = d_readFile d"
  "d_maxBytesPerFile (opened d) = d_maxBytesPerFile d" "dk_faults (d_disk (opened d)) = dk_faults (d_disk d)"
  "d_minMsgSize (opened d) = d_minMsgSize d" "d_maxMsgSize (opened d) = d_maxMsgSize d"
  "d_logf (opened d) = d_logf d" "d_depth (opened d) = d_depth d"
  "ok_size (opened d) = ok_size d" "read_pos (opened d) = read_pos d" "next_pos (opened d) = next_pos d"
  "write_pos (opened d) = write_pos d" "d_nextReadPos (opened d) = d_nextReadPos d"
  "d_nextReadFileNum (opened d) = d_nextReadFileNum d"
  by (simp_all add: opened_def set_file_def ok_size_def read_pos_def next_pos_def write_pos_def
      fun_eq_iff)

lemma file_of_opened [simp]:
  "file_of (opened d) = (file_of d)(d_writeFileNum d \<mapsto> write_content d)"
  by (simp add: opened_def)

lemma write_content_length:
  "dq_rel d ms \<Longrightarrow> nat (d_writePos d) \<le> length (write_content d)"
  by (cases "0 < d_writePos d") (auto simp: rel_defs write_content_def)

lemma dq_rel_opened:
  assumes "dq_rel d ms"
  shows "dq_rel (opened d) ms"
proof -
  have "stored (file_of (opened d)) (d_maxBytesPerFile d) (read_pos d) ms (write_pos d)"
    by (rule stored_write [of "file_of d"])
      (use assms in \<open>auto simp: dq_rel_def write_pos_def write_content_def\<close>)
  moreover have "write_ready (opened d)"
    using assms write_content_length [OF assms] by (auto simp: rel_defs)
  ultimately show ?thesis using assms by (simp add: dq_rel_def dq_config_def read_ready_def)
qed

definition written :: "bytes \<Rightarrow> diskQueue \<Rightarrow> diskQueue" where
  "written m d =
     (let d1 = opened d; pos = advance (d_maxBytesPerFile d) (write_pos d) m;
          d2 = (set_file (d_writeFileNum d)
                 (Some (write_at (write_content d) (nat (d_writePos d)) (enc m))) d1)
                \<lparr>d_writeFileNum := fst pos, d_writePos := snd pos, d_depth := d_depth d + 1\<rparr>
      in if fst pos = d_writeFileNum d then d2\<lparr>d_writeFile := Some pos\<rparr>
         else (with_meta d2)\<lparr>d_writeFile := None\<rparr>)"

lemma write_file_ok:
  assumes "dq_rel d ms"
  shows "write_file buf (opened d) =
    (None, (set_file (d_writeFileNum d) (Some (write_at (write_content d) (nat (d_writePos d)) buf)) (opened d))
        \<lparr>d_writeFile := Some (d_writeFileNum d, d_writePos d + int (length buf))\<rparr>)"
proof -
  have "dk_faults (d_disk (opened d)) = []" using dq_rel_config [OF assms] by simp
  then have n: "next_fault (opened d) = (NoFault, opened d)" by (rule next_fault_none)
  show ?thesis
    unfolding write_file_def n by (simp add: write_pos_def) (simp add: set_file_def)
qed

lemma dq_writeOne_ok:
  assumes "dq_rel d ms" "ok_size d m"
  shows "dq_writeOne m d = Some (None, written m d)"
proof -
  have cfg: "dk_faults (d_disk d) = []" "d_logf d" "d_maxMsgSize d < 2 ^ 31 - 4"
    using assms by (simp_all add: rel_defs)
  have sz: "int (length m) < 2 ^ 31 - 4" using cfg(3) assms(2) by (simp add: ok_size_def)
  let ?d = "set_file (d_writeFileNum d) (Some (write_at (write_content d) (nat (d_writePos d)) (enc m))) (opened d)"
  have w: "write_file (be_encode 4 (of_nat (length m) :: u32) @ m) (opened d) =
     (None, ?d\<lparr>d_writeFile := Some (d_writeFileNum d, d_writePos d + (4 + int (length m)))\<rparr>)"
    using write_file_ok [OF assms(1), of "enc m"] by (simp add: enc_def)
  have f: "dk_faults (d_disk ?d) = []" "d_writePos ?d = d_writePos d" "d_depth ?d = d_depth d"
      "d_writeFileNum ?d = d_writeFileNum d" "d_maxBytesPerFile ?d = d_maxBytesPerFile d"
    using cfg(1) by (simp_all add: set_file_def)
  show ?thesis
    using sz assms(2) f
    by (simp add: dq_writeOne_def open_writer_ok [OF assms(1)] w sint_len ok_size_def written_def
        Let_def advance_def write_pos_def dq_sync_ok add.assoc) (simp add: with_meta_def)
qed

lemma dq_writeOne_bad_size:
  assumes "dq_rel d ms" "\<not> ok_size d m" "length m < 2 ^ 31 - 4"
  shows "dq_writeOne m d = Some (Some ''invalid message write size'', opened d)"
  using assms sint_len(1) [of "length m"]
  by (auto simp: dq_writeOne_def open_writer_ok [OF assms(1)] ok_size_def Let_def)

lemma written_simps [simp]:
  "d_readPos (written m d) = d_readPos d" "d_readFileNum (written m d) = d_readFileNum d"
  "d_readFile (written m d) = d_readFile d" "d_maxBytesPerFile (written m d) = d_maxBytesPerFile d"
  "dk_faults (d_disk (written m d)) = dk_faults (d_disk d)" "d_minMsgSize (written m d) = d_minMsgSize d"
  "d_maxMsgSize (written m d) = d_maxMsgSize d" "d_logf (written m d) = d_logf d"
  "d_depth (written m d) = d_depth d + 1" "ok_size (written m d) = ok_size d"
  "read_pos (written m d) = read_pos d" "next_pos (written m d) = next_pos d"
  "d_nextReadPos (written m d) = d_nextReadPos d" "d_nextReadFileNum (written m d) = d_nextReadFileNum d"
  "write_pos (written m d) = advance (d_maxBytesPerFile d) (write_pos d) m"
  "d_writeFile (written m d) = (if fst (advance (d_maxBytesPerFile d) (write_pos d) m) = d_writeFileNum d
     then Some (advance (d_maxBytesPerFile d) (write_pos d) m) else None)"
  by (simp_all add: written_def with_meta_def Let_def set_file_def ok_size_def read_pos_def next_pos_def
      write_pos_def fun_eq_iff prod_eq_iff)

lemma file_of_written [simp]:
  "file_of (written m d) =
     (file_of d)(d_writeFileNum d \<mapsto> write_at (write_content d) (nat (d_writePos d)) (enc m))"
  by (simp add: written_def Let_def file_of_def with_meta_def set_file_def fun_eq_iff opened_def)

lemma dq_rel_written:
  assumes "dq_rel d ms" "ok_size d m"
  shows "dq_rel (written m d) (ms @ [m])"
proof -
  let ?c = "write_at (write_content d) (nat (d_writePos d)) (enc m)"
  let ?p = "advance (d_maxBytesPerFile d) (write_pos d) m"
  have w: "nat (d_writePos d) \<le> length (write_content d)" "0 \<le> d_writePos d"
    using write_content_length [OF assms(1)] assms(1) by (simp_all add: rel_defs)
  have "stored (file_of (written m d)) (d_maxBytesPerFile d) (read_pos d) ms (write_pos d)"
    by (rule stored_write [of "file_of d"])
      (use assms(1) w in \<open>auto simp: dq_rel_def write_pos_def write_content_def take_write_at\<close>)
  then have "stored (file_of (written m d)) (d_maxBytesPerFile d) (read_pos d) (ms @ [m]) ?p"
    by (rule stored_snoc [where c = ?c])
      (use w drop_write_at [OF w(1), of "enc m"] in \<open>simp_all add: write_pos_def\<close>)
  moreover have "write_ready (written m d)"
  proof -
    have pos: "d_writeFileNum (written m d) = fst ?p" "d_writePos (written m d) = snd ?p"
      using written_simps(15) [of m d] by (simp_all add: write_pos_def prod_eq_iff)
    have "nat (d_writePos d) + (4 + length m) \<le> length ?c"
      using length_write_at [OF w(1), of "enc m"] by simp
    then have "d_writePos d + 4 + int (length m) \<le> int (length ?c)" using w(2) by linarith
    then show ?thesis using w(2)
      by (auto simp: write_ready_def pos) (auto simp: advance_def write_pos_def split: if_splits)
  qed
  ultimately show ?thesis using assms by (simp add: dq_rel_def dq_config_def read_ready_def)
qed

lemma ahead_append: "ahead d ms buf \<Longrightarrow> ahead d (ms @ ms') buf"
  by (auto simp: ahead_def)

lemma ahead_written [simp]: "ahead (written m d) ms buf = ahead d ms buf"
  and ahead_opened [simp]: "ahead (opened d) ms buf = ahead d ms buf"
  by (simp_all add: ahead_def)

lemma io_write_ok:
  assumes "io_rel s ms" "ok_size (io_dq s) m"
  shows "\<exists>s'. ioLoop_select (EvWrite m) s = Some (Response None, s') \<and> io_rel s' (ms @ [m]) \<and>
    io_pc s' = AtTop"
proof -
  have r: "dq_rel (io_dq s) ms" using assms by (simp add: io_rel_def)
  show ?thesis using dq_writeOne_ok [OF r assms(2)] dq_rel_written [OF r assms(2)] assms(1)
    by (auto simp: io_rel_def dest: ahead_append [of _ _ _ "[m]"])
qed

lemma io_write_bad_size:
  assumes "io_rel s ms" "\<not> ok_size (io_dq s) m" "length m < 2 ^ 31 - 4"
  shows "\<exists>s'. ioLoop_select (EvWrite m) s = Some (Response (Some ''invalid message write size''), s') \<and>
    io_rel s' ms \<and> io_pc s' = AtTop"
proof -
  have r: "dq_rel (io_dq s) ms" using assms by (simp add: io_rel_def)
  show ?thesis using dq_writeOne_bad_size [OF r assms(2,3)] dq_rel_opened [OF r] assms(1)
    by (auto simp: io_rel_def)
qed

lemma io_tick_ok:
  "io_rel s ms \<Longrightarrow> \<exists>s'. ioLoop_select EvTick s = Some (Silent, s') \<and> io_rel s' ms \<and> io_pc s' = AtTop"
  by (auto simp: io_rel_def)

section \<open>Emptying\<close>

lemma remove_files_ok:
  "dk_faults (d_disk d) = [] \<Longrightarrow> remove_files k i d =
     Some (None, d\<lparr>d_disk := (d_disk d)\<lparr>dk_files :=
       (\<lambda>f. if i \<le> f \<and> f < i + int k then None else dk_files (d_disk d) f)\<rparr>\<rparr>)"
proof (induction k arbitrary: i d)
  case 0
  have "(\<lambda>f. if i \<le> f \<and> f < i then None else dk_files (d_disk d) f) = dk_files (d_disk d)"
    by (auto simp: fun_eq_iff)
  then show ?case by simp
next
  case (Suc k)
  have *: "(\<lambda>f. if i + 1 \<le> f \<and> f < i + 1 + int k then None
        else dk_files (d_disk (set_file i None d)) f) =
      (\<lambda>f. if i \<le> f \<and> f < i + int (Suc k) then None else dk_files (d_disk d) f)"
    by (auto simp: fun_eq_iff set_file_def)
  have "dk_faults (d_disk (set_file i None d)) = []" using Suc.prems by (simp add: set_file_def)
  from Suc.IH [OF this, of "i + 1"] Suc.prems show ?case
    by (simp add: set_file_def del: of_nat_Suc fun_upd_apply) (simp only: * )
qed

lemma dq_skip_ok:
  assumes "dq_config d"
  shows "\<exists>d'. dq_skipToNextRWFile d = Some (None, d') \<and> dq_rel d' [] \<and> next_pos d' = read_pos d' \<and>
    dk_faults (d_disk d') = []"
  using assms
  by (auto simp: dq_skipToNextRWFile_def remove_files_ok rel_defs Let_def)

lemma io_empty_ok:
  assumes "io_rel s ms"
  shows "\<exists>s'. ioLoop_select EvEmpty s = Some (Response None, s') \<and> io_rel s' [] \<and> io_pc s' = AtTop"
proof -
  have "dq_config (io_dq s)" using assms by (simp add: io_rel_def dq_rel_def)
  from dq_skip_ok [OF this] obtain d where
    d: "dq_skipToNextRWFile (io_dq s) = Some (None, d)" "dq_rel d []" "next_pos d = read_pos d"
      "dk_faults (d_disk d) = []" by auto
  have f: "file_of (d\<lparr>d_disk := (d_disk d)\<lparr>dk_meta := x\<rparr>\<rparr>) = file_of d" for x
    by (simp add: file_of_def fun_eq_iff)
  have "dq_rel (d\<lparr>d_disk := (d_disk d)\<lparr>dk_meta := None\<rparr>\<rparr>) []"
    using d(2) by (auto simp: rel_defs f)
  then show ?thesis using d
    by (simp add: dq_deleteAllFiles_def io_rel_def next_pos_def read_pos_def)
qed

section \<open>Refinement of a queue\<close>

text \<open>
  The specification: a list of messages, reads at the front, writes at the back, a write of a
  forbidden size refused. \<open>serve\<close> runs the loop on a sequence of requests; a request that is
  not enabled (a read with nothing to read) stays blocked, and is left out.
\<close>

fun fifo_step :: "(bytes \<Rightarrow> bool) \<Rightarrow> io_event \<Rightarrow> bytes list \<Rightarrow> io_reply list \<times> bytes list" where
  "fifo_step ok EvRead [] = ([], [])"
| "fifo_step ok EvRead (m # ms) = ([Data m], ms)"
| "fifo_step ok (EvWrite m) ms =
     (if ok m then ([Response None], ms @ [m])
      else ([Response (Some ''invalid message write size'')], ms))"
| "fifo_step ok EvEmpty ms = ([Response None], [])"
| "fifo_step ok EvTick ms = ([Silent], ms)"
| "fifo_step ok EvExit ms = ([], ms)"

fun fifo_run :: "(bytes \<Rightarrow> bool) \<Rightarrow> io_event list \<Rightarrow> bytes list \<Rightarrow> io_reply list \<times> bytes list" where
  "fifo_run ok [] ms = ([], ms)"
| "fifo_run ok (ev # evs) ms =
     (let (r, ms1) = fifo_step ok ev ms; (rs, ms2) = fifo_run ok evs ms1 in (r @ rs, ms2))"

fun serve :: "io_event list \<Rightarrow> ioState \<Rightarrow> (io_reply list \<times> ioState) option" where
  "serve [] s = Some ([], s)"
| "serve (ev # evs) s =
     (if io_enabled s ev
      then do {
        (r, s1) <- ioLoop_select ev s;
        s2 <- run_top 1 s1;
        (rs, s3) <- serve evs s2;
        Some (r # rs, s3) }
      else serve evs s)"

definition request_ok :: "io_event \<Rightarrow> bool" where
  "request_ok ev \<longleftrightarrow> (case ev of EvExit \<Rightarrow> False | EvWrite m \<Rightarrow> length m < 2 ^ 31 - 4 | _ \<Rightarrow> True)"

text \<open>No request changes the sizes the queue accepts, or its exit flag.\<close>

definition limits :: "diskQueue \<Rightarrow> int \<times> int \<times> bool" where
  "limits d = (d_minMsgSize d, d_maxMsgSize d, d_exitFlag d)"

lemma ok_size_limits: "limits d = limits d' \<Longrightarrow> ok_size d = ok_size d'"
  by (simp add: limits_def ok_size_def fun_eq_iff)

lemma limits_simps [simp]:
  "limits (written m d) = limits d" "limits (opened d) = limits d" "limits (moved d) = limits d"
  "limits (with_meta d) = limits d" "limits (read_ahead m d) = limits d"
  "limits (d\<lparr>d_needSync := b\<rparr>) = limits d"
  by (simp_all add: limits_def written_def opened_def moved_def read_ahead_def with_meta_def set_file_def
      Let_def)

lemma ioLoop_top_limits:
  assumes "io_rel s ms" "io_pc s = AtTop" "ioLoop_top s = Some s'"
  shows "limits (io_dq s') = limits (io_dq s)"
proof -
  have f: "dk_faults (d_disk (io_dq s)) = []"
    using assms(1) dq_rel_config by (auto simp: io_rel_def)
  obtain s1 where s1: "ioLoop_sync s = Some s1" "io_rel s1 ms" "io_pc s1 = AtTop"
    using ioLoop_sync_ok [OF assms(1,2)] by auto
  have l1: "limits (io_dq s1) = limits (io_dq s)"
    using s1(1) f by (auto simp: ioLoop_sync_def dq_sync_ok Let_def split: if_splits)
  have rd: "ioLoop_read s1 = Some s'" using assms(3) s1(1) by (simp add: ioLoop_top_def)
  have "limits (io_dq s') = limits (io_dq s1)"
  proof (cases ms)
    case Nil
    then show ?thesis using rd s1(2) has_data_iff [of "io_dq s1" ms]
      by (auto simp: ioLoop_read_def io_rel_def)
  next
    case (Cons m ms')
    then have r: "dq_rel (io_dq s1) (m # ms')" using s1(2) by (simp add: io_rel_def)
    show ?thesis using rd dq_readOne_ok [OF r]
      by (auto simp: ioLoop_read_def Let_def split: if_splits)
  qed
  with l1 show ?thesis by simp
qed

lemma remove_limits:
  "dk_faults (d_disk d) = [] \<Longrightarrow> dq_deleteAllFiles d = Some (e, d') \<Longrightarrow> limits d' = limits d"
  by (auto simp: dq_deleteAllFiles_def dq_skipToNextRWFile_def remove_files_ok limits_def Let_def)

lemma select_refines:
  assumes "io_rel s ms" "io_pc s = AtSelect" "io_enabled s ev" "request_ok ev"
  shows "\<exists>r s'. ioLoop_select ev s = Some (r, s') \<and> io_rel s' (snd (fifo_step (ok_size (io_dq s)) ev ms)) \<and>
    fst (fifo_step (ok_size (io_dq s)) ev ms) = [r] \<and> io_pc s' = AtTop \<and>
    limits (io_dq s') = limits (io_dq s)"
proof (cases ev)
  case EvRead
  then obtain m ms' where ms: "ms = m # ms'"
    using assms by (cases ms) (auto simp: io_enabled_def io_rel_def)
  then have r: "dq_rel (io_dq s) (m # ms')" "ahead (io_dq s) (m # ms') (io_dataRead s)"
    using assms by (auto simp: io_rel_def)
  show ?thesis using io_read_ok [of s m ms'] dq_moveForward_ok [OF r] assms EvRead ms by auto
next
  case EvEmpty
  have "dk_faults (d_disk (io_dq s)) = []" using assms(1) dq_rel_config by (auto simp: io_rel_def)
  then show ?thesis using io_empty_ok [OF assms(1)] EvEmpty remove_limits [of "io_dq s"]
    by (auto simp: bind_eq_Some_conv)
next
  case (EvWrite m)
  have r: "dq_rel (io_dq s) ms" using assms by (simp add: io_rel_def)
  show ?thesis
  proof (cases "ok_size (io_dq s) m")
    case True
    then show ?thesis using io_write_ok [OF assms(1) True] EvWrite dq_writeOne_ok [OF r True] by auto
  next
    case False
    have "length m < 2 ^ 31 - 4" using assms(4) EvWrite by (simp add: request_ok_def)
    then show ?thesis using io_write_bad_size [OF assms(1) False] EvWrite False
        dq_writeOne_bad_size [OF r False] by auto
  qed
next
  case EvTick
  then show ?thesis using io_tick_ok [OF assms(1)] by auto
next
  case EvExit
  then show ?thesis using assms(4) by (simp add: request_ok_def)
qed

lemma disabled_step:
  assumes "io_rel s ms" "io_pc s = AtSelect" "\<not> io_enabled s ev"
  shows "fifo_step ok ev ms = ([], ms)"
  using assms by (auto simp: io_enabled_def io_rel_def)

lemma serve_refines:
  assumes "io_rel s ms" "io_pc s = AtSelect" "list_all request_ok evs"
  shows "\<exists>s'. serve evs s = Some (fst (fifo_run (ok_size (io_dq s)) evs ms), s') \<and>
    io_rel s' (snd (fifo_run (ok_size (io_dq s)) evs ms)) \<and> io_pc s' = AtSelect"
  using assms
proof (induction evs arbitrary: s ms)
  case (Cons ev evs)
  let ?ok = "ok_size (io_dq s)"
  show ?case
  proof (cases "io_enabled s ev")
    case True
    obtain r s1 where "ioLoop_select ev s = Some (r, s1)" "io_rel s1 (snd (fifo_step ?ok ev ms))"
      "fst (fifo_step ?ok ev ms) = [r]" "io_pc s1 = AtTop" "limits (io_dq s1) = limits (io_dq s)"
      using select_refines [OF Cons.prems(1,2) True] Cons.prems(3) by auto
    then obtain ms1 where s1: "ioLoop_select ev s = Some (r, s1)" "io_rel s1 ms1"
      "fifo_step ?ok ev ms = ([r], ms1)" "io_pc s1 = AtTop" "limits (io_dq s1) = limits (io_dq s)"
      by (cases "fifo_step ?ok ev ms") auto
    obtain s2 where s2: "ioLoop_top s1 = Some s2" "io_rel s2 ms1" "io_pc s2 = AtSelect"
      using ioLoop_top_ok [OF s1(2,4)] by auto
    have ok: "ok_size (io_dq s2) = ?ok"
      by (rule ok_size_limits) (simp add: ioLoop_top_limits [OF s1(2,4) s2(1)] s1(5))
    have "list_all request_ok evs" using Cons.prems(3) by simp
    from Cons.IH [OF s2(2,3) this] ok obtain s3 where
      "serve evs s2 = Some (fst (fifo_run ?ok evs ms1), s3)"
      "io_rel s3 (snd (fifo_run ?ok evs ms1))" "io_pc s3 = AtSelect" by auto
    then show ?thesis using True s1(1,3) s2(1,3) by (simp add: Let_def split_beta)
  next
    case False
    then show ?thesis using Cons.IH [OF Cons.prems(1,2)] Cons.prems
        disabled_step [OF Cons.prems(1,2) False, of ?ok] by (auto simp: split_beta Let_def)
  qed
qed simp

section \<open>Restarting\<close>

text \<open>\<open>dq_New\<close> on the disk a closed queue left behind.\<close>

definition dq_reopen :: "diskQueue \<Rightarrow> diskQueue option" where
  "dq_reopen d = dq_New (d_maxBytesPerFile d) (d_minMsgSize d) (d_maxMsgSize d) (d_syncEvery d) (d_logf d)
     (d_disk d)"

lemma dq_rel_exitFlag:
  assumes "dq_rel d ms"
  shows "dq_rel (d\<lparr>d_exitFlag := b, d_readFile := None, d_writeFile := None\<rparr>) ms"
proof -
  have f: "file_of (d\<lparr>d_exitFlag := b, d_readFile := None, d_writeFile := None\<rparr>) = file_of d"
    "ok_size (d\<lparr>d_exitFlag := b, d_readFile := None, d_writeFile := None\<rparr>) = ok_size d"
    by (simp_all add: file_of_def ok_size_def fun_eq_iff)
  show ?thesis using assms by (auto simp: rel_defs f)
qed

lemma dq_New_with_meta:
  assumes "dq_rel d ms"
  shows "\<exists>d'. dq_reopen (with_meta d) = Some d' \<and> dq_rel d' ms \<and> next_pos d' = read_pos d'"
proof -
  let ?d = "\<lparr>d_readPos = d_readPos d, d_writePos = d_writePos d, d_readFileNum = d_readFileNum d,
     d_writeFileNum = d_writeFileNum d, d_depth = d_depth d, d_maxBytesPerFile = d_maxBytesPerFile d,
     d_minMsgSize = d_minMsgSize d, d_maxMsgSize = d_maxMsgSize d, d_syncEvery = d_syncEvery d,
     d_exitFlag = False, d_needSync = False, d_nextReadPos = d_readPos d,
     d_nextReadFileNum = d_readFileNum d, d_readFile = None, d_writeFile = None, d_logf = d_logf d,
     d_disk = d_disk (with_meta d)\<rparr>"
  have "dq_reopen (with_meta d) = Some ?d"
    using dq_rel_config [OF assms]
    by (simp add: dq_reopen_def dq_New_def dq_retrieveMetaData_def with_meta_def Let_def)
  moreover have "file_of ?d = file_of d" "ok_size ?d = ok_size d"
    by (simp_all add: file_of_def ok_size_def with_meta_def fun_eq_iff)
  then have "dq_rel ?d ms"
    using assms by (auto simp: rel_defs) (auto simp: with_meta_def)
  ultimately show ?thesis by (simp add: next_pos_def read_pos_def)
qed

lemma close_reopen:
  assumes "io_rel s ms" "io_pc s = AtSelect" "\<not> d_exitFlag (io_dq s)"
  shows "\<exists>s' d'. dq_Close s = Some (None, s') \<and> dq_reopen (io_dq s') = Some d' \<and> io_rel (io_start d') ms"
proof -
  let ?d = "(io_dq s)\<lparr>d_exitFlag := True, d_readFile := None, d_writeFile := None\<rparr>"
  have rel: "dq_rel (io_dq s) ms" using assms(1) by (simp add: io_rel_def)
  have cfg: "dk_faults (d_disk (io_dq s)) = []" "d_logf (io_dq s)" using dq_rel_config [OF rel] by auto
  have "dk_faults (d_disk ?d) = []" using cfg by simp
  from dq_sync_ok [OF this] have
    "dq_Close s = Some (None, s\<lparr>io_pc := Exited, io_dq := with_meta ?d\<rparr>)"
    using assms(3) cfg by (simp add: dq_Close_def dq_exit_def)
  moreover obtain d' where "dq_reopen (with_meta ?d) = Some d'" "dq_rel d' ms" "next_pos d' = read_pos d'"
    using dq_New_with_meta [OF dq_rel_exitFlag [OF rel]] by blast
  ultimately show ?thesis by (simp add: io_rel_def io_start_def)
qed

section \<open>What can go wrong\<close>

text \<open>With no logging function the first write panics: opening the file logs.\<close>

lemma nil_logf_panics:
  assumes "\<not> d_logf d" "d_writeFile d = None" "dk_faults (d_disk d) = []"
  shows "dq_writeOne m d = None"
  using assms
  by (auto simp: dq_writeOne_def open_writer_def dq_logf_def set_file_def Let_def split: option.splits)

text \<open>A metadata file whose read file lies past its write file: the loop never reaches its
  \<open>select\<close> again when there are bytes in the file being written.\<close>

definition past_end :: "diskQueue \<Rightarrow> bool" where
  "past_end d \<longleftrightarrow> dk_faults (d_disk d) = [] \<and> d_logf d \<and> d_writeFileNum d < d_readFileNum d \<and>
     d_readPos d = 0 \<and> d_nextReadPos d = 0 \<and> 0 < d_writePos d \<and> d_readFile d = None \<and>
     (\<forall>f. d_readFileNum d \<le> f \<longrightarrow> file_of d f = None)"

lemma past_end_sync:
  assumes "past_end d"
  shows "past_end (with_meta d)" "past_end (d\<lparr>d_needSync := b\<rparr>)"
  using assms by (simp_all add: past_end_def) (simp_all add: with_meta_def)

lemma past_end_read:
  assumes "past_end (io_dq s)"
  shows "\<exists>s'. ioLoop_read s = Some s' \<and> io_pc s' = AtTop \<and> past_end (io_dq s')"
proof -
  let ?d = "io_dq s"
  have f: "file_of ?d (d_readFileNum ?d) = None" using assms by (simp add: past_end_def)
  have "dq_readOne ?d = Some (Inl ''open'', ?d)"
    using assms f by (simp add: dq_readOne_def open_reader_def past_end_def)
  moreover obtain d' where "dq_handleReadError ?d = Some d'" "past_end d'"
    using assms f by (auto simp: dq_handleReadError_def past_end_def file_of_def Let_def)
  ultimately show ?thesis using assms by (simp add: ioLoop_read_def past_end_def has_data_def)
qed

lemma past_end_never_serves:
  assumes "past_end (io_dq s)" "io_pc s = AtTop"
  shows "run_top k s = None"
  using assms
proof (induction k arbitrary: s)
  case (Suc k)
  have f: "dk_faults (d_disk (io_dq s)) = []" using Suc.prems by (simp add: past_end_def)
  then obtain s1 where s1: "ioLoop_sync s = Some s1" "past_end (io_dq s1)"
    using past_end_sync Suc.prems(1)
    by (cases "io_count s = d_syncEvery (io_dq s)"; cases "d_needSync (io_dq s)")
      (auto simp: ioLoop_sync_def dq_sync_ok Let_def)
  with past_end_read obtain s2 where "ioLoop_top s = Some s2" "io_pc s2 = AtTop" "past_end (io_dq s2)"
    by (auto simp: ioLoop_top_def)
  then show ?case using Suc.IH by simp
qed simp

end
