(* ===== verification/Nsq_Backend.thy ===== *)
theory Nsq_Backend
  imports Nsq_Wire Nsq_DiskFifo
begin

text \<open>
  \<open>nsqd/backend_queue.go\<close> and \<open>nsqd/dummy_backend_queue.go\<close>: the interface between topics and channels
  and the queue that takes what does not fit in memory, and the implementation that drops
  everything, used by ephemeral topics and channels.

  The interface is a record of functions over a backend state. A topic uses the repository's
  own \<open>disk\<close> package; a channel uses the same interface of the external package
  \<open>go-diskqueue\<close>, which stays a parameter. What both rely on is the locale \<open>backend_fifo\<close>.
\<close>

record 'b BackendQueue =
  bq_Put :: "bytes \<Rightarrow> 'b \<Rightarrow> (go_error option \<times> 'b) option"
  bq_Read :: "'b \<Rightarrow> (bytes \<times> 'b) option"
  bq_Close :: "'b \<Rightarrow> (go_error option \<times> 'b) option"
  bq_Delete :: "'b \<Rightarrow> (go_error option \<times> 'b) option"
  bq_Depth :: "'b \<Rightarrow> int"
  bq_Empty :: "'b \<Rightarrow> (go_error option \<times> 'b) option"

text \<open>A value of the interface type: the dummy queue, or a queue with a state.\<close>

datatype 'b backend = DummyBackend | Backend 'b

fun backend_Put :: "'b BackendQueue \<Rightarrow> bytes \<Rightarrow> 'b backend \<Rightarrow> (go_error option \<times> 'b backend) option" where
  "backend_Put ops data DummyBackend = Some (None, DummyBackend)"
| "backend_Put ops data (Backend b) = map_option (\<lambda>(e, b'). (e, Backend b')) (bq_Put ops data b)"

fun backend_Read :: "'b BackendQueue \<Rightarrow> 'b backend \<Rightarrow> (bytes \<times> 'b backend) option" where
  "backend_Read ops DummyBackend = None"
| "backend_Read ops (Backend b) = map_option (\<lambda>(m, b'). (m, Backend b')) (bq_Read ops b)"

fun backend_Close :: "'b BackendQueue \<Rightarrow> 'b backend \<Rightarrow> (go_error option \<times> 'b backend) option" where
  "backend_Close ops DummyBackend = Some (None, DummyBackend)"
| "backend_Close ops (Backend b) = map_option (\<lambda>(e, b'). (e, Backend b')) (bq_Close ops b)"

fun backend_Delete :: "'b BackendQueue \<Rightarrow> 'b backend \<Rightarrow> (go_error option \<times> 'b backend) option" where
  "backend_Delete ops DummyBackend = Some (None, DummyBackend)"
| "backend_Delete ops (Backend b) = map_option (\<lambda>(e, b'). (e, Backend b')) (bq_Delete ops b)"

fun backend_Depth :: "'b BackendQueue \<Rightarrow> 'b backend \<Rightarrow> int" where
  "backend_Depth ops DummyBackend = 0"
| "backend_Depth ops (Backend b) = bq_Depth ops b"

fun backend_Empty :: "'b BackendQueue \<Rightarrow> 'b backend \<Rightarrow> (go_error option \<times> 'b backend) option" where
  "backend_Empty ops DummyBackend = Some (None, DummyBackend)"
| "backend_Empty ops (Backend b) = map_option (\<lambda>(e, b'). (e, Backend b')) (bq_Empty ops b)"

definition writeMessageToBackend ::
    "'b BackendQueue \<Rightarrow> Message \<Rightarrow> 'b backend \<Rightarrow> (go_error option \<times> 'b backend) option" where
  "writeMessageToBackend ops msg bq =
     (case Message_WriteTo msg buffer of
        (_, Some e, _) \<Rightarrow> Some (Some e, bq)
      | (_, None, buf) \<Rightarrow> backend_Put ops (w_out buf) bq)"

definition getBackendName :: "string \<Rightarrow> string \<Rightarrow> string" where
  "getBackendName topicName channelName = topicName @ '':'' @ channelName"

section \<open>The contract\<close>

locale backend_fifo =
  fixes ops :: "'b BackendQueue"
    and b_inv :: "'b \<Rightarrow> bool"
    and b_contents :: "'b \<Rightarrow> bytes list"
    and b_accepts :: "'b \<Rightarrow> bytes \<Rightarrow> bool"
  assumes put_law: "b_inv b \<Longrightarrow> b_accepts b data \<Longrightarrow>
      \<exists>b'. bq_Put ops data b = Some (None, b') \<and> b_inv b' \<and> b_contents b' = b_contents b @ [data] \<and>
        b_accepts b' = b_accepts b"
    and read_law: "b_inv b \<Longrightarrow> b_contents b = m # ms \<Longrightarrow>
      \<exists>b'. bq_Read ops b = Some (m, b') \<and> b_inv b' \<and> b_contents b' = ms \<and> b_accepts b' = b_accepts b"
    and read_empty: "b_inv b \<Longrightarrow> b_contents b = [] \<Longrightarrow> bq_Read ops b = None"
    and empty_law: "b_inv b \<Longrightarrow>
      \<exists>b'. bq_Empty ops b = Some (None, b') \<and> b_inv b' \<and> b_contents b' = [] \<and> b_accepts b' = b_accepts b"
    and depth_law: "b_inv b \<Longrightarrow> bq_Depth ops b = int (length (b_contents b))"
    and accepts_length: "length d = length d' \<Longrightarrow> b_accepts b d = b_accepts b d'"
begin

lemma write_law:
  assumes "b_inv b" "b_accepts b (encodeMessage m)"
  shows "\<exists>b'. writeMessageToBackend ops m (Backend b) = Some (None, Backend b') \<and> b_inv b' \<and>
    b_contents b' = b_contents b @ [encodeMessage m] \<and> b_accepts b' = b_accepts b"
  using put_law [OF assms]
  by (auto simp: writeMessageToBackend_def Message_WriteTo_buffer buffer_def)

text \<open>A list of messages written one after the other, and what a reader then takes out.\<close>

fun put_all :: "bytes list \<Rightarrow> 'b \<Rightarrow> 'b option" where
  "put_all [] b = Some b"
| "put_all (m # ms) b = (case bq_Put ops m b of Some (None, b') \<Rightarrow> put_all ms b' | _ \<Rightarrow> None)"

fun read_all :: "nat \<Rightarrow> 'b \<Rightarrow> bytes list \<times> 'b" where
  "read_all 0 b = ([], b)"
| "read_all (Suc n) b =
     (case bq_Read ops b of None \<Rightarrow> ([], b)
      | Some (m, b') \<Rightarrow> (let (ms, b'') = read_all n b' in (m # ms, b'')))"

lemma put_all_ok:
  assumes "b_inv b" "list_all (b_accepts b) ms"
  shows "\<exists>b'. put_all ms b = Some b' \<and> b_inv b' \<and> b_contents b' = b_contents b @ ms"
  using assms
proof (induction ms arbitrary: b)
  case (Cons m ms)
  then obtain b1 where b1: "bq_Put ops m b = Some (None, b1)" "b_inv b1"
    "b_contents b1 = b_contents b @ [m]" "b_accepts b1 = b_accepts b"
    using put_law [of b m] by auto
  then show ?case using Cons.IH [of b1] Cons.prems by auto
qed simp

lemma read_all_ok:
  assumes "b_inv b"
  shows "\<exists>b'. read_all n b = (take n (b_contents b), b') \<and> b_inv b' \<and> b_contents b' = drop n (b_contents b)"
  using assms
proof (induction n arbitrary: b)
  case (Suc n)
  show ?case
  proof (cases "b_contents b")
    case Nil
    then show ?thesis using Suc.prems read_empty by simp
  next
    case (Cons m ms)
    then obtain b1 where "bq_Read ops b = Some (m, b1)" "b_inv b1" "b_contents b1 = ms"
      using read_law [OF Suc.prems] by blast
    with Suc.IH [of b1] Cons show ?thesis by (auto simp: Let_def split_beta)
  qed
qed simp

end

section \<open>The disk queue keeps the contract\<close>

text \<open>
  The interface operations of \<open>disk.diskQueue\<close>: a request finds the loop in its \<open>select\<close>, and
  the loop comes round before the next one.
\<close>

definition again :: "(go_error option \<times> ioState) option \<Rightarrow> (go_error option \<times> ioState) option" where
  "again r = (case r of None \<Rightarrow> None
     | Some (e, s) \<Rightarrow> map_option (\<lambda>s'. (e, s')) (if io_pc s = AtTop then run_top 1 s else Some s))"

definition disk_Read :: "ioState \<Rightarrow> (bytes \<times> ioState) option" where
  "disk_Read s =
     (if io_enabled s EvRead
      then case ioLoop_select EvRead s of
             Some (Data m, s1) \<Rightarrow> map_option (\<lambda>s2. (m, s2)) (run_top 1 s1)
           | _ \<Rightarrow> None
      else None)"

definition disk_ops :: "ioState BackendQueue" where
  "disk_ops = \<lparr>bq_Put = (\<lambda>m s. again (dq_Put m s)), bq_Read = disk_Read, bq_Close = dq_Close,
     bq_Delete = dq_Delete, bq_Depth = dq_Depth, bq_Empty = (\<lambda>s. again (dq_Empty s))\<rparr>"

text \<open>The messages of a queue, read off its files.\<close>

fun parse_files :: "(int \<Rightarrow> bytes option) \<Rightarrow> int \<Rightarrow> nat \<Rightarrow> int \<times> int \<Rightarrow> bytes list" where
  "parse_files F mx 0 pos = []"
| "parse_files F mx (Suc n) pos =
     (case F (fst pos) of
        None \<Rightarrow> []
      | Some c \<Rightarrow>
          let p = nat (snd pos);
              m = take (unat (be_decode (take 4 (drop p c)) :: u32)) (drop (p + 4) c)
          in m # parse_files F mx n (advance mx pos m))"

definition disk_contents :: "ioState \<Rightarrow> bytes list" where
  "disk_contents s =
     (let d = io_dq s in
      parse_files (file_of d) (d_maxBytesPerFile d) (nat (d_depth d)) (read_pos d))"

definition disk_inv :: "ioState \<Rightarrow> bool" where
  "disk_inv s \<longleftrightarrow> io_rel s (disk_contents s) \<and> io_pc s = AtSelect \<and> \<not> d_exitFlag (io_dq s)"

definition disk_accepts :: "ioState \<Rightarrow> bytes \<Rightarrow> bool" where
  "disk_accepts s = ok_size (io_dq s)"

lemma parse_stored:
  "stored F mx pos ms e \<Longrightarrow> \<forall>m \<in> set ms. length m < 2 ^ 32 \<Longrightarrow> parse_files F mx (length ms) pos = ms"
proof (induction ms arbitrary: pos)
  case (Cons m ms)
  then obtain c where c: "F (fst pos) = Some c"
    "take (length (enc m)) (drop (nat (snd pos)) c) = enc m" by auto
  have "unat (of_nat (length m) :: u32) = length m"
    using Cons.prems(2) by (simp add: unat_of_nat)
  then show ?case using c(1) enc_parts [OF c(2)] Cons by (simp add: Let_def be_decode_encode)
qed simp

lemma disk_contents_eq:
  assumes "io_rel s ms"
  shows "disk_contents s = ms"
proof -
  have r: "dq_rel (io_dq s) ms" using assms by (simp add: io_rel_def)
  have "\<forall>m \<in> set ms. length m < 2 ^ 32"
  proof
    fix m assume "m \<in> set ms"
    then have "int (length m) \<le> d_maxMsgSize (io_dq s)" "d_maxMsgSize (io_dq s) < 2 ^ 31 - 4"
      using r by (auto simp: dq_rel_def dq_config_def list_all_iff ok_size_def)
    then show "length m < 2 ^ 32" by simp
  qed
  moreover have "stored (file_of (io_dq s)) (d_maxBytesPerFile (io_dq s)) (read_pos (io_dq s)) ms
      (write_pos (io_dq s))" "d_depth (io_dq s) = int (length ms)"
    using r by (simp_all add: dq_rel_def)
  ultimately show ?thesis using parse_stored by (simp add: disk_contents_def Let_def)
qed

lemma disk_inv_iff:
  "disk_inv s \<longleftrightarrow> (\<exists>ms. io_rel s ms) \<and> io_pc s = AtSelect \<and> \<not> d_exitFlag (io_dq s)"
  using disk_contents_eq by (auto simp: disk_inv_def)

text \<open>One request and the way round the loop.\<close>

lemma disk_request:
  assumes "disk_inv s" "io_enabled s ev" "request_ok ev"
  shows "\<exists>r s1 s2. ioLoop_select ev s = Some (r, s1) \<and> io_pc s1 = AtTop \<and> run_top 1 s1 = Some s2 \<and>
    disk_inv s2 \<and> disk_accepts s2 = disk_accepts s \<and>
    ([r], disk_contents s2) = fifo_step (disk_accepts s) ev (disk_contents s)"
proof -
  let ?ok = "ok_size (io_dq s)"
  let ?ms = "disk_contents s"
  have s: "io_rel s ?ms" "io_pc s = AtSelect" "\<not> d_exitFlag (io_dq s)"
    using assms(1) by (simp_all add: disk_inv_def)
  obtain r s1 where s1: "ioLoop_select ev s = Some (r, s1)" "io_rel s1 (snd (fifo_step ?ok ev ?ms))"
    "fst (fifo_step ?ok ev ?ms) = [r]" "io_pc s1 = AtTop" "limits (io_dq s1) = limits (io_dq s)"
    using select_refines [OF s(1,2) assms(2,3)] by blast
  obtain s2 where s2: "ioLoop_top s1 = Some s2" "io_rel s2 (snd (fifo_step ?ok ev ?ms))" "io_pc s2 = AtSelect"
    using ioLoop_top_ok [OF s1(2,4)] by blast
  have l: "limits (io_dq s2) = limits (io_dq s)"
    using ioLoop_top_limits [OF s1(2,4) s2(1)] s1(5) by simp
  then have "\<not> d_exitFlag (io_dq s2)" using s(3) by (simp add: limits_def)
  then have "disk_inv s2" using s2 disk_inv_iff by blast
  moreover have "disk_accepts s2 = disk_accepts s"
    unfolding disk_accepts_def by (rule ok_size_limits [OF l])
  ultimately show ?thesis using s1 s2 disk_contents_eq [OF s2(2)]
    by (simp add: disk_accepts_def prod_eq_iff)
qed

lemma disk_rel_logf: "disk_inv s \<Longrightarrow> d_logf (io_dq s)"
  by (auto simp: disk_inv_def io_rel_def dest: dq_rel_config)

lemma disk_accepts_small: "disk_inv s \<Longrightarrow> disk_accepts s m \<Longrightarrow> length m < 2 ^ 31 - 4"
  by (auto simp: disk_inv_def disk_accepts_def io_rel_def dq_rel_def dq_config_def ok_size_def)

interpretation disk: backend_fifo disk_ops disk_inv disk_contents disk_accepts
proof (unfold_locales, goal_cases)
  case (1 b data)
  then have e: "io_enabled b (EvWrite data)" "request_ok (EvWrite data)" "\<not> d_exitFlag (io_dq b)"
    using disk_accepts_small [of b data] by (auto simp: io_enabled_def disk_inv_def request_ok_def)
  obtain r s1 s2 where "ioLoop_select (EvWrite data) b = Some (r, s1)" "io_pc s1 = AtTop"
    "run_top 1 s1 = Some s2" "disk_inv s2" "disk_accepts s2 = disk_accepts b"
    "([r], disk_contents s2) = fifo_step (disk_accepts b) (EvWrite data) (disk_contents b)"
    using disk_request [OF 1(1) e(1,2)] by blast
  then show ?case using 1(2) e(3) by (simp add: disk_ops_def dq_Put_def again_def del: ioLoop_select.simps run_top.simps)
next
  case (2 b m ms)
  then have e: "io_enabled b EvRead" "request_ok EvRead"
    by (auto simp: io_enabled_def disk_inv_def request_ok_def io_rel_def)
  obtain r s1 s2 where "ioLoop_select EvRead b = Some (r, s1)" "io_pc s1 = AtTop"
    "run_top 1 s1 = Some s2" "disk_inv s2" "disk_accepts s2 = disk_accepts b"
    "([r], disk_contents s2) = fifo_step (disk_accepts b) EvRead (disk_contents b)"
    using disk_request [OF 2(1) e] by blast
  then show ?case using 2(2) e(1) by (simp add: disk_ops_def disk_Read_def del: ioLoop_select.simps run_top.simps)
next
  case (3 b)
  then have "\<not> io_enabled b EvRead" by (auto simp: io_enabled_def disk_inv_def io_rel_def)
  then show ?case by (simp add: disk_ops_def disk_Read_def)
next
  case (4 b)
  then have e: "io_enabled b EvEmpty" "request_ok EvEmpty" "\<not> d_exitFlag (io_dq b)"
    by (auto simp: io_enabled_def disk_inv_def request_ok_def)
  obtain r s1 s2 where "ioLoop_select EvEmpty b = Some (r, s1)" "io_pc s1 = AtTop"
    "run_top 1 s1 = Some s2" "disk_inv s2" "disk_accepts s2 = disk_accepts b"
    "([r], disk_contents s2) = fifo_step (disk_accepts b) EvEmpty (disk_contents b)"
    using disk_request [OF 4 e(1,2)] by blast
  then show ?case using e(3) disk_rel_logf [OF 4]
    by (simp add: disk_ops_def dq_Empty_def again_def del: ioLoop_select.simps run_top.simps)
next
  case (5 b)
  then show ?case by (simp add: disk_ops_def dq_Depth_def disk_inv_def io_rel_def dq_rel_def)
next
  case (6 d d' b)
  then show ?case by (simp add: disk_accepts_def ok_size_def)
qed

end
