(* ===== verification/Nsq_DiskProps.thy ===== *)
theory Nsq_DiskProps
  imports Nsq_Backend
begin

text \<open>
  What a user of \<open>disk/diskqueue.go\<close> sees, from the creation of a queue on: it behaves as a
  list, over restarts too; and the two ways in which its goroutine stops serving: a queue
  made without a logging function, and a metadata file that points past the end.
\<close>

definition fresh_disk :: disk where
  "fresh_disk = \<lparr>dk_files = (\<lambda>_. None), dk_bad = (\<lambda>_. None), dk_meta = None, dk_faults = []\<rparr>"

text \<open>A queue just opened in an empty directory, its loop waiting for requests.\<close>

definition fresh_queue :: "int \<Rightarrow> int \<Rightarrow> int \<Rightarrow> int \<Rightarrow> ioState option" where
  "fresh_queue maxBytesPerFile minMsgSize maxMsgSize syncEvery = do {
     d <- dq_New maxBytesPerFile minMsgSize maxMsgSize syncEvery True fresh_disk;
     run_top 1 (io_start d) }"

definition size_ok :: "int \<Rightarrow> int \<Rightarrow> bytes \<Rightarrow> bool" where
  "size_ok minMsgSize maxMsgSize m \<longleftrightarrow> minMsgSize \<le> int (length m) \<and> int (length m) \<le> maxMsgSize"

text \<open>\<open>Close\<close>, then \<open>New\<close> on the same directory, until the loop waits for requests.\<close>

definition dq_restart :: "ioState \<Rightarrow> ioState option" where
  "dq_restart s = do {
     (_, s1) <- dq_Close s;
     d <- dq_reopen (io_dq s1);
     run_top 1 (io_start d) }"

lemma fresh_queue_ok:
  assumes "0 \<le> mn" "mx < 2 ^ 31 - 4"
  shows "\<exists>s. fresh_queue mb mn mx se = Some s \<and> io_rel s [] \<and> io_pc s = AtSelect \<and>
    \<not> d_exitFlag (io_dq s) \<and> ok_size (io_dq s) = size_ok mn mx"
proof -
  let ?d = "the (dq_New mb mn mx se True fresh_disk)"
  have d: "dq_New mb mn mx se True fresh_disk = Some ?d"
    by (simp add: dq_New_def dq_retrieveMetaData_def fresh_disk_def next_fault_def Let_def)
  have rel: "io_rel (io_start ?d) []" "limits ?d = (mn, mx, False)"
    using assms
    by (simp_all add: dq_New_def dq_retrieveMetaData_def fresh_disk_def next_fault_def Let_def io_rel_def
        io_start_def rel_defs limits_def)
  have pc: "io_pc (io_start ?d) = AtTop" by (simp add: io_start_def)
  obtain s where s: "ioLoop_top (io_start ?d) = Some s" "io_rel s []" "io_pc s = AtSelect"
    using ioLoop_top_ok [OF rel(1) pc] by blast
  have "limits (io_dq s) = (mn, mx, False)"
    using ioLoop_top_limits [OF rel(1) pc s(1)] rel(2) by (simp add: io_start_def)
  then have "ok_size (io_dq s) = size_ok mn mx" "\<not> d_exitFlag (io_dq s)"
    by (simp_all add: limits_def ok_size_def size_ok_def fun_eq_iff)
  moreover have "fresh_queue mb mn mx se = Some s"
    unfolding fresh_queue_def by (subst d) (simp add: s)
  ultimately show ?thesis using s by blast
qed

lemma serve_limits:
  assumes "io_rel s ms" "io_pc s = AtSelect" "list_all request_ok evs" "serve evs s = Some (rs, s')"
  shows "limits (io_dq s') = limits (io_dq s)"
  using assms
proof (induction evs arbitrary: s ms rs)
  case (Cons ev evs)
  show ?case
  proof (cases "io_enabled s ev")
    case True
    have "request_ok ev" using Cons.prems(3) by simp
    from select_refines [OF Cons.prems(1,2) True this] obtain r s1 ms1 where
      s1: "ioLoop_select ev s = Some (r, s1)" "io_rel s1 ms1" "io_pc s1 = AtTop"
      "limits (io_dq s1) = limits (io_dq s)" by blast
    obtain s2 where s2: "ioLoop_top s1 = Some s2" "io_rel s2 ms1" "io_pc s2 = AtSelect"
      using ioLoop_top_ok [OF s1(2,3)] by blast
    have "limits (io_dq s2) = limits (io_dq s)" using ioLoop_top_limits [OF s1(2,3) s2(1)] s1(4) by simp
    moreover obtain rs' where "serve evs s2 = Some (rs', s')"
      using Cons.prems(4) True s1(1) s2(1,3) by (auto simp del: ioLoop_select.simps split: bind_splits)
    ultimately show ?thesis using Cons.IH [OF s2(2,3)] Cons.prems(3) by auto
  next
    case False
    then show ?thesis using Cons by auto
  qed
qed simp

lemma restart_rel:
  assumes "io_rel s ms" "io_pc s = AtSelect" "\<not> d_exitFlag (io_dq s)"
  shows "\<exists>s'. dq_restart s = Some s' \<and> io_rel s' ms \<and> io_pc s' = AtSelect \<and> ok_size (io_dq s') = ok_size (io_dq s)"
proof -
  obtain s1 d where s1: "dq_Close s = Some (None, s1)" "dq_reopen (io_dq s1) = Some d" "io_rel (io_start d) ms"
    using close_reopen [OF assms] by blast
  have pc: "io_pc (io_start d) = AtTop" by (simp add: io_start_def)
  obtain s' where s': "ioLoop_top (io_start d) = Some s'" "io_rel s' ms" "io_pc s' = AtSelect"
    using ioLoop_top_ok [OF s1(3) pc] by blast
  have "dq_rel (io_dq s) ms" using assms(1) by (simp add: io_rel_def)
  then have "d_minMsgSize (io_dq s1) = d_minMsgSize (io_dq s)" "d_maxMsgSize (io_dq s1) = d_maxMsgSize (io_dq s)"
    using s1(1) assms(3) dq_rel_config [of "io_dq s" ms]
    by (auto simp: dq_Close_def dq_exit_def dq_sync_ok Let_def) (simp_all add: with_meta_def)
  moreover have "d_minMsgSize d = d_minMsgSize (io_dq s1)" "d_maxMsgSize d = d_maxMsgSize (io_dq s1)"
    using s1(2) by (auto simp: dq_reopen_def dq_New_def dq_retrieveMetaData_def next_fault_def dq_logf_def Let_def
        split: list.splits option.splits fault.splits if_splits open_error.splits)
  ultimately have "ok_size (io_dq s') = ok_size (io_dq s)"
    using ioLoop_top_limits [OF s1(3) pc s'(1)] by (simp add: limits_def ok_size_def fun_eq_iff io_start_def)
  then show ?thesis using s1 s' by (simp add: dq_restart_def)
qed

lemma fifo_run_append:
  "fifo_run ok (evs @ evs') ms =
     (fst (fifo_run ok evs ms) @ fst (fifo_run ok evs' (snd (fifo_run ok evs ms))),
      snd (fifo_run ok evs' (snd (fifo_run ok evs ms))))"
  by (induction evs arbitrary: ms) (simp_all add: Let_def split_beta)

text \<open>C2. A disk queue opened in an empty directory answers every sequence of puts, reads,
  empties and timer ticks exactly as a list does that reads take from the front and puts append
  to, where a put of a forbidden size is refused: for any size limits, any maximal file size and
  any sync interval, so over every rollover to a new file and every persisted state.\<close>

theorem disk_queue_is_fifo:
  assumes "0 \<le> minMsgSize" "maxMsgSize < 2 ^ 31 - 4" "list_all request_ok evs"
  shows "\<exists>s s'. fresh_queue maxBytesPerFile minMsgSize maxMsgSize syncEvery = Some s \<and>
    serve evs s = Some (fst (fifo_run (size_ok minMsgSize maxMsgSize) evs []), s')"
proof -
  obtain s where s: "fresh_queue maxBytesPerFile minMsgSize maxMsgSize syncEvery = Some s" "io_rel s []"
    "io_pc s = AtSelect" "ok_size (io_dq s) = size_ok minMsgSize maxMsgSize"
    using fresh_queue_ok [OF assms(1,2)] by blast
  then show ?thesis using serve_refines [OF s(2,3) assms(3)] by auto
qed

theorem disk_queue_is_fifo_witness:
  "\<exists>s s'. fresh_queue 12 1 8 2 = Some s \<and>
     serve [EvRead, EvWrite [1,2,3,4,5], EvWrite [6], EvWrite [], EvTick, EvRead, EvRead] s =
       Some ([Response None, Response None, Response (Some ''invalid message write size''), Silent,
              Data [1,2,3,4,5], Data [6]], s')"
  using disk_queue_is_fifo [of 1 8 "[EvRead, EvWrite [1,2,3,4,5], EvWrite [6], EvWrite [], EvTick, EvRead, EvRead]" 12 2]
  by (simp add: request_ok_def size_ok_def)

text \<open>C3. Closing the queue and opening it again on what it left on the disk loses nothing and
  reorders nothing: the answers before and after the restart together are those of one list.\<close>

theorem disk_queue_survives_restart:
  assumes "0 \<le> minMsgSize" "maxMsgSize < 2 ^ 31 - 4" "list_all request_ok evs" "list_all request_ok evs'"
  shows "\<exists>s rs s1 s2 rs' s3. fresh_queue maxBytesPerFile minMsgSize maxMsgSize syncEvery = Some s \<and>
    serve evs s = Some (rs, s1) \<and> dq_restart s1 = Some s2 \<and> serve evs' s2 = Some (rs', s3) \<and>
    rs @ rs' = fst (fifo_run (size_ok minMsgSize maxMsgSize) (evs @ evs') [])"
proof -
  let ?ok = "size_ok minMsgSize maxMsgSize"
  obtain s where s: "fresh_queue maxBytesPerFile minMsgSize maxMsgSize syncEvery = Some s" "io_rel s []"
    "io_pc s = AtSelect" "\<not> d_exitFlag (io_dq s)" "ok_size (io_dq s) = ?ok"
    using fresh_queue_ok [OF assms(1,2)] by blast
  obtain s1 where s1: "serve evs s = Some (fst (fifo_run ?ok evs []), s1)"
    "io_rel s1 (snd (fifo_run ?ok evs []))" "io_pc s1 = AtSelect"
    using serve_refines [OF s(2,3) assms(3)] s(5) by auto
  have l: "limits (io_dq s1) = limits (io_dq s)" using serve_limits [OF s(2,3) assms(3) s1(1)] .
  then have "\<not> d_exitFlag (io_dq s1)" using s(4) by (simp add: limits_def)
  then obtain s2 where s2: "dq_restart s1 = Some s2" "io_rel s2 (snd (fifo_run ?ok evs []))"
    "io_pc s2 = AtSelect" "ok_size (io_dq s2) = ?ok"
    using restart_rel [OF s1(2,3)] ok_size_limits [OF l] s(5) by auto
  then show ?thesis using s(1) s1(1) serve_refines [OF s2(2,3) assms(4)] by (auto simp: fifo_run_append)
qed

theorem disk_queue_survives_restart_witness:
  "\<exists>s rs s1 s2 rs' s3. fresh_queue 12 1 8 2 = Some s \<and>
     serve [EvWrite [1,2,3], EvWrite [4], EvRead] s = Some (rs, s1) \<and> dq_restart s1 = Some s2 \<and>
     serve [EvRead, EvRead] s2 = Some (rs', s3) \<and>
     rs @ rs' = [Response None, Response None, Data [1,2,3], Data [4]]"
  using disk_queue_survives_restart [of 1 8 "[EvWrite [1,2,3], EvWrite [4], EvRead]" "[EvRead, EvRead]" 12 2]
  by (simp add: request_ok_def size_ok_def)

text \<open>If the metadata names a read file past the write file while the write file is not
  empty, the loop never reaches its \<open>select\<close> again, however often it goes round: no \<open>Put\<close>,
  \<open>ReadChan\<close>, \<open>Empty\<close> or \<open>Close\<close> of that queue is ever answered.\<close>

theorem metadata_past_end_livelock:
  assumes "dk_meta D = Some [depth, readFileNum, 0, writeFileNum, writePos]" "dk_faults D = []"
    "writeFileNum < readFileNum" "0 < writePos" "\<forall>f \<ge> readFileNum. dk_files D f = None"
  shows "\<exists>d. dq_New maxBytesPerFile minMsgSize maxMsgSize syncEvery True D = Some d \<and>
    (\<forall>n. run_top n (io_start d) = None)"
proof -
  let ?d = "the (dq_New maxBytesPerFile minMsgSize maxMsgSize syncEvery True D)"
  have d: "dq_New maxBytesPerFile minMsgSize maxMsgSize syncEvery True D = Some ?d" and "past_end ?d"
    using assms by (simp_all add: dq_New_def dq_retrieveMetaData_def next_fault_def past_end_def file_of_def Let_def)
  then have "\<forall>n. run_top n (io_start ?d) = None"
    using past_end_never_serves [of "io_start ?d"] by (simp add: io_start_def)
  then show ?thesis using d by blast
qed

theorem metadata_past_end_livelock_witness:
  "\<exists>d. dq_New 100 0 8 2 True
      \<lparr>dk_files = (\<lambda>_. None), dk_bad = (\<lambda>_. None), dk_meta = Some [0, 2, 0, 1, 7], dk_faults = []\<rparr> = Some d \<and>
    (\<forall>n. run_top n (io_start d) = None)"
  using metadata_past_end_livelock
    [of "\<lparr>dk_files = (\<lambda>_. None), dk_bad = (\<lambda>_. None), dk_meta = Some [0, 2, 0, 1, 7], dk_faults = []\<rparr>" 0 2 1 7 100 0 8 2]
  by simp

end
