(* ===== verification/Nsq_Options.thy ===== *)
theory Nsq_Options
  imports Nsq_Wire
begin

text \<open>
  \<open>nsqd/options.go\<close>: the options that the modelled code reads, and their defaults.
  Durations are nanoseconds. The logging, address and statsd options have no reader in the model
  and are left out; the host name and the node number derived from it are arguments.
\<close>

definition Millisecond :: int where "Millisecond = 1000000"
definition Second :: int where "Second = 1000 * Millisecond"

record Options =
  o_ID :: int
  o_NSQLookupdTCPAddresses :: "string list"
  o_AuthHTTPAddresses :: "string list"
  o_DataPath :: string
  o_MemQueueSize :: int
  o_MaxBytesPerFile :: int
  o_SyncEvery :: int
  o_QueueScanInterval :: int
  o_QueueScanSelectionCount :: int
  o_QueueScanWorkerPoolMax :: int
  o_MsgTimeout :: int
  o_MaxMsgTimeout :: int
  o_MaxMsgSize :: int
  o_MaxBodySize :: int
  o_MaxReqTimeout :: int
  o_ClientTimeout :: int
  o_MaxHeartbeatInterval :: int
  o_MaxRdyCount :: int
  o_MaxOutputBufferSize :: int
  o_MaxOutputBufferTimeout :: int
  o_MinOutputBufferTimeout :: int
  o_OutputBufferTimeout :: int
  o_MaxChannelConsumers :: int
  o_E2EProcessingLatencyPercentiles :: "string list"
  o_TLSClientAuthPolicy :: string
  o_TLSRequired :: int
  o_DeflateEnabled :: bool
  o_MaxDeflateLevel :: int
  o_SnappyEnabled :: bool

definition NewOptions :: "int \<Rightarrow> Options" where
  "NewOptions defaultID =
     \<lparr>o_ID = defaultID, o_NSQLookupdTCPAddresses = [], o_AuthHTTPAddresses = [], o_DataPath = [],
      o_MemQueueSize = 10000, o_MaxBytesPerFile = 100 * 1024 * 1024, o_SyncEvery = 2500,
      o_QueueScanInterval = 100 * Millisecond, o_QueueScanSelectionCount = 20,
      o_QueueScanWorkerPoolMax = 4,
      o_MsgTimeout = 60 * Second, o_MaxMsgTimeout = 15 * 60 * Second, o_MaxMsgSize = 1024 * 1024,
      o_MaxBodySize = 5 * 1024 * 1024, o_MaxReqTimeout = 3600 * Second, o_ClientTimeout = 60 * Second,
      o_MaxHeartbeatInterval = 60 * Second, o_MaxRdyCount = 2500, o_MaxOutputBufferSize = 64 * 1024,
      o_MaxOutputBufferTimeout = 30 * Second, o_MinOutputBufferTimeout = 25 * Millisecond,
      o_OutputBufferTimeout = 250 * Millisecond, o_MaxChannelConsumers = 0,
      o_E2EProcessingLatencyPercentiles = [], o_TLSClientAuthPolicy = [], o_TLSRequired = 0,
      o_DeflateEnabled = True, o_MaxDeflateLevel = 6, o_SnappyEnabled = True\<rparr>"

text \<open>
  \<open>time.Duration(n) * time.Millisecond\<close> for a count taken from the wire: the conversion to
  \<open>int64\<close> and the product both wrap around.
\<close>

definition duration_ms :: "u64 \<Rightarrow> int" where
  "duration_ms n = sint (n * 1000000)"

lemma duration_ms_small: "unat n < 2 ^ 43 \<Longrightarrow> duration_ms n = int (unat n) * Millisecond"
proof -
  assume n: "unat n < 2 ^ 43"
  have "n * 1000000 = of_nat (unat n * 1000000)" by simp
  moreover have "unat n * 1000000 < 2 ^ 63" using n by simp
  ultimately have "sint (n * 1000000) = int (unat n * 1000000)"
    by (simp only: sint_of_nat_small)
  then show ?thesis by (simp add: duration_ms_def Millisecond_def)
qed

end
