(* ===== verification/Nsq_Auth.thy ===== *)
theory Nsq_Auth
  imports Nsq_Options "HOL-Library.Monad_Syntax"
begin

text \<open>
  \<open>internal/auth/authorizations.go\<close>: what a client may publish to and subscribe to. The
  regular expression engine is the argument \<open>compile\<close>: for a pattern, its matching
  predicate, or \<open>None\<close> when the pattern does not compile; the theorems hold for every engine.
  The HTTP request to an authorization server is the argument \<open>get\<close>, which maps the address
  and the form values to the decoded answer. \<open>MustCompile\<close> of a bad pattern panics:
  \<open>None\<close>.
\<close>

type_synonym regexp = "string \<Rightarrow> (string \<Rightarrow> bool) option"

record Authorization =
  a_Topic :: string
  a_Channels :: "string list"
  a_Permissions :: "string list"

record AuthState =
  s_TTL :: int
  s_Authorizations :: "Authorization list"
  s_Identity :: string
  s_IdentityURL :: string
  s_Expires :: int

definition HasPermission :: "Authorization \<Rightarrow> string \<Rightarrow> bool" where
  "HasPermission a p \<longleftrightarrow> p \<in> set (a_Permissions a)"

fun match_channels :: "regexp \<Rightarrow> string list \<Rightarrow> string \<Rightarrow> bool option" where
  "match_channels compile [] channel = Some False"
| "match_channels compile (c # cs) channel = do {
     m <- compile c;
     (if m channel then Some True else match_channels compile cs channel) }"

definition Authorization_IsAllowed :: "regexp \<Rightarrow> Authorization \<Rightarrow> string \<Rightarrow> string \<Rightarrow> bool option" where
  "Authorization_IsAllowed compile a topic channel =
     (if \<not> HasPermission a (if channel \<noteq> [] then ''subscribe'' else ''publish'') then Some False
      else do {
        m <- compile (a_Topic a);
        (if \<not> m topic then Some False else match_channels compile (a_Channels a) channel) })"

fun any_allowed :: "regexp \<Rightarrow> Authorization list \<Rightarrow> string \<Rightarrow> string \<Rightarrow> bool option" where
  "any_allowed compile [] topic channel = Some False"
| "any_allowed compile (a # as) topic channel = do {
     ok <- Authorization_IsAllowed compile a topic channel;
     (if ok then Some True else any_allowed compile as topic channel) }"

definition AuthState_IsAllowed :: "regexp \<Rightarrow> AuthState \<Rightarrow> string \<Rightarrow> string \<Rightarrow> bool option" where
  "AuthState_IsAllowed compile s topic channel = any_allowed compile (s_Authorizations s) topic channel"

definition AuthState_IsExpired :: "int \<Rightarrow> AuthState \<Rightarrow> bool" where
  "AuthState_IsExpired now s \<longleftrightarrow> s_Expires s < now"

type_synonym authd = "string \<Rightarrow> (string \<times> string) list \<Rightarrow> go_error + AuthState"

fun check_permissions :: "string list \<Rightarrow> go_error option" where
  "check_permissions [] = None"
| "check_permissions (p # ps) =
     (if p = ''subscribe'' \<or> p = ''publish'' then check_permissions ps
      else Some (''unknown permission '' @ p))"

fun check_channels :: "regexp \<Rightarrow> string list \<Rightarrow> go_error option" where
  "check_channels compile [] = None"
| "check_channels compile (c # cs) =
     (if compile c = None then Some (''unable to compile channel '' @ c) else check_channels compile cs)"

fun check_authorizations :: "regexp \<Rightarrow> Authorization list \<Rightarrow> go_error option" where
  "check_authorizations compile [] = None"
| "check_authorizations compile (a # as) =
     (case check_permissions (a_Permissions a) of
        Some e \<Rightarrow> Some e
      | None \<Rightarrow>
          if compile (a_Topic a) = None then Some (''unable to compile topic '' @ a_Topic a)
          else case check_channels compile (a_Channels a) of
                 Some e \<Rightarrow> Some e
               | None \<Rightarrow> check_authorizations compile as)"

definition QueryAuthd ::
    "regexp \<Rightarrow> authd \<Rightarrow> int \<Rightarrow> string \<Rightarrow> string \<Rightarrow> bool \<Rightarrow> string \<Rightarrow> string \<Rightarrow> go_error + AuthState" where
  "QueryAuthd compile get now addr remoteIP tlsEnabled commonName secret =
     (case get addr [(''remote_ip'', remoteIP), (''tls'', if tlsEnabled then ''true'' else ''false''),
                     (''secret'', secret), (''common_name'', commonName)] of
        Inl e \<Rightarrow> Inl e
      | Inr st \<Rightarrow>
          (case check_authorizations compile (s_Authorizations st) of
             Some e \<Rightarrow> Inl e
           | None \<Rightarrow>
               if s_TTL st \<le> 0 then Inl ''invalid TTL (must be >0)''
               else Inr (st\<lparr>s_Expires := now + s_TTL st * Second\<rparr>)))"

fun QueryAnyAuthd ::
    "regexp \<Rightarrow> authd \<Rightarrow> int \<Rightarrow> string list \<Rightarrow> string \<Rightarrow> bool \<Rightarrow> string \<Rightarrow> string \<Rightarrow> go_error + AuthState" where
  "QueryAnyAuthd compile get now [] remoteIP tlsEnabled commonName secret =
     Inl ''Unable to access auth server''"
| "QueryAnyAuthd compile get now (a # as) remoteIP tlsEnabled commonName secret =
     (case QueryAuthd compile get now a remoteIP tlsEnabled commonName secret of
        Inl _ \<Rightarrow> QueryAnyAuthd compile get now as remoteIP tlsEnabled commonName secret
      | Inr st \<Rightarrow> Inr st)"

section \<open>Lemmas\<close>

text \<open>What the server's answer is checked for: known permissions and patterns that compile.\<close>

definition valid_auth :: "regexp \<Rightarrow> Authorization \<Rightarrow> bool" where
  "valid_auth compile a \<longleftrightarrow> set (a_Permissions a) \<subseteq> {''subscribe'', ''publish''} \<and>
     compile (a_Topic a) \<noteq> None \<and> (\<forall>c \<in> set (a_Channels a). compile c \<noteq> None)"

text \<open>What an authorization grants.\<close>

definition grants :: "regexp \<Rightarrow> Authorization \<Rightarrow> string \<Rightarrow> string \<Rightarrow> bool" where
  "grants compile a topic channel \<longleftrightarrow>
     (if channel = [] then ''publish'' else ''subscribe'') \<in> set (a_Permissions a) \<and>
     (\<exists>m. compile (a_Topic a) = Some m \<and> m topic) \<and>
     (\<exists>c \<in> set (a_Channels a). \<exists>m. compile c = Some m \<and> m channel)"

lemma check_permissions_iff: "check_permissions ps = None \<longleftrightarrow> set ps \<subseteq> {''subscribe'', ''publish''}"
  by (induction ps) auto

lemma check_channels_iff: "check_channels compile cs = None \<longleftrightarrow> (\<forall>c \<in> set cs. compile c \<noteq> None)"
  by (induction cs) auto

lemma valid_auth_checks:
  "valid_auth compile a \<longleftrightarrow> check_permissions (a_Permissions a) = None \<and>
     compile (a_Topic a) \<noteq> None \<and> check_channels compile (a_Channels a) = None"
  by (simp add: valid_auth_def check_permissions_iff check_channels_iff)

lemma check_authorizations_iff:
  "check_authorizations compile as = None \<longleftrightarrow> list_all (valid_auth compile) as"
  by (induction as) (simp_all add: valid_auth_checks split: option.split)

lemma match_channels_iff:
  "\<forall>c \<in> set cs. compile c \<noteq> None \<Longrightarrow>
     match_channels compile cs channel = Some (\<exists>c \<in> set cs. \<exists>m. compile c = Some m \<and> m channel)"
  by (induction cs) auto

lemma Authorization_IsAllowed_iff:
  "valid_auth compile a \<Longrightarrow>
     Authorization_IsAllowed compile a topic channel = Some (grants compile a topic channel)"
  by (auto simp: Authorization_IsAllowed_def valid_auth_def grants_def HasPermission_def match_channels_iff)

lemma any_allowed_iff:
  "list_all (valid_auth compile) as \<Longrightarrow>
     any_allowed compile as topic channel = Some (\<exists>a \<in> set as. grants compile a topic channel)"
  by (induction as) (auto simp: Authorization_IsAllowed_iff)

lemma QueryAuthd_valid:
  assumes "QueryAuthd compile get now a ip tls cn secret = Inr st"
  shows "list_all (valid_auth compile) (s_Authorizations st) \<and> \<not> AuthState_IsExpired now st"
proof -
  from assms obtain st0 where st0: "st = st0\<lparr>s_Expires := now + s_TTL st0 * Second\<rparr>"
    "check_authorizations compile (s_Authorizations st0) = None" "0 < s_TTL st0"
    by (auto simp: QueryAuthd_def split: sum.splits option.splits if_splits)
  then show ?thesis
    by (simp add: check_authorizations_iff AuthState_IsExpired_def Second_def Millisecond_def)
qed

lemma QueryAnyAuthd_valid:
  "QueryAnyAuthd compile get now as ip tls cn secret = Inr st \<Longrightarrow>
     list_all (valid_auth compile) (s_Authorizations st) \<and> \<not> AuthState_IsExpired now st"
  by (induction as) (auto split: sum.splits dest: QueryAuthd_valid)

end
