(* ===== verification/Nsq_Client.thy ===== *)
theory Nsq_Client
  imports Nsq_Auth
begin

text \<open>
  \<open>nsqd/client_v2.go\<close>: the connection of a producer or a consumer. The atomic counters are
  64-bit words. The channels with a buffer of one are options (\<open>ReadyStateChan\<close> a flag). The
  connection is a \<open>writer\<close>; in front of it stands a \<open>bufio.Writer\<close>, modelled with its buffer
  and its sticky error. The TLS, Snappy and Deflate layers are flags: they change the encoding
  of the byte stream, not its content.
\<close>

section \<open>Buffered writers (bufio)\<close>

record bufio =
  b_size :: nat
  b_buf :: bytes
  b_err :: "go_error option"

definition bufio_NewWriterSize :: "int \<Rightarrow> bufio" where
  "bufio_NewWriterSize sz = \<lparr>b_size = (if sz \<le> 0 then 4096 else nat sz), b_buf = [], b_err = None\<rparr>"

definition bufio_Flush :: "bufio \<times> writer \<Rightarrow> go_error option \<times> bufio \<times> writer" where
  "bufio_Flush = (\<lambda>(b, w).
     if b_err b \<noteq> None then (b_err b, b, w)
     else if b_buf b = [] then (None, b, w)
     else case w_write (b_buf b) w of
            (n, Some e, w') \<Rightarrow> (Some e, b\<lparr>b_buf := drop n (b_buf b), b_err := Some e\<rparr>, w')
          | (n, None, w') \<Rightarrow> (None, b\<lparr>b_buf := []\<rparr>, w'))"

text \<open>A write larger than the room in the buffer fills the buffer and flushes it, then goes
  to the connection directly as long as it does not fit; the rest is buffered.\<close>

definition bufio_direct :: "bytes \<Rightarrow> bufio \<times> writer \<Rightarrow> go_error option \<times> bufio \<times> writer" where
  "bufio_direct p = (\<lambda>(b, w).
     if b_err b \<noteq> None then (b_err b, b, w)
     else if b_size b < length p
     then case w_write p w of
            (n, Some e, w') \<Rightarrow> (Some e, b\<lparr>b_err := Some e\<rparr>, w')
          | (n, None, w') \<Rightarrow> (None, b, w')
     else (None, b\<lparr>b_buf := p\<rparr>, w))"

definition bufio_Write :: "bytes \<Rightarrow> bufio \<times> writer \<Rightarrow> go_error option \<times> bufio \<times> writer" where
  "bufio_Write p = (\<lambda>(b, w).
     if b_err b \<noteq> None then (b_err b, b, w)
     else if length (b_buf b) + length p \<le> b_size b then (None, b\<lparr>b_buf := b_buf b @ p\<rparr>, w)
     else if b_buf b = [] then bufio_direct p (b, w)
     else let k = b_size b - length (b_buf b) in
          (case bufio_Flush (b\<lparr>b_buf := b_buf b @ take k p\<rparr>, w) of
             (_, b', w') \<Rightarrow> bufio_direct (drop k p) (b', w')))"

section \<open>The client\<close>

datatype client_state = stateInit | stateDisconnected | stateConnected | stateSubscribed | stateClosing

record identifyDataV2 =
  i_ClientID :: string
  i_Hostname :: string
  i_HeartbeatInterval :: int
  i_OutputBufferSize :: int
  i_OutputBufferTimeout :: int
  i_FeatureNegotiation :: bool
  i_TLSv1 :: bool
  i_Deflate :: bool
  i_DeflateLevel :: int
  i_Snappy :: bool
  i_SampleRate :: int
  i_UserAgent :: string
  i_MsgTimeout :: int

record identifyEvent =
  ie_OutputBufferTimeout :: int
  ie_HeartbeatInterval :: int
  ie_SampleRate :: int
  ie_MsgTimeout :: int

record clientV2 =
  cl_ReadyCount :: i64
  cl_InFlightCount :: i64
  cl_MessageCount :: u64
  cl_FinishCount :: u64
  cl_RequeueCount :: u64
  cl_pubCounts :: "(string \<times> u64) list"
  cl_ID :: int
  cl_UserAgent :: string
  cl_remoteIP :: "go_error + string"
  cl_conn :: writer
  cl_closed :: bool
  cl_commonName :: string
  cl_Reader :: bytes
  cl_Writer :: bufio
  cl_OutputBufferSize :: int
  cl_OutputBufferTimeout :: int
  cl_HeartbeatInterval :: int
  cl_MsgTimeout :: int
  cl_State :: client_state
  cl_ConnectTime :: int
  cl_Channel :: "(string \<times> string) option"
  cl_ReadyStateChan :: bool
  cl_ExitChan_closed :: bool
  cl_ClientID :: string
  cl_Hostname :: string
  cl_SampleRate :: int
  cl_IdentifyEventChan :: "identifyEvent option"
  cl_SubEventChan :: "(string \<times> string) option"
  cl_TLS :: bool
  cl_Snappy :: bool
  cl_Deflate :: bool
  cl_AuthSecret :: string
  cl_AuthState :: "AuthState option"

definition defaultBufferSize :: int where
  "defaultBufferSize = 16 * 1024"

definition newClientV2 :: "Options \<Rightarrow> int \<Rightarrow> int \<Rightarrow> go_error + string \<Rightarrow> bytes \<Rightarrow> clientV2" where
  "newClientV2 opts now i ip input =
     (let identifier = (case ip of Inl _ \<Rightarrow> [] | Inr h \<Rightarrow> h) in
      \<lparr>cl_ReadyCount = 0, cl_InFlightCount = 0, cl_MessageCount = 0, cl_FinishCount = 0,
       cl_RequeueCount = 0, cl_pubCounts = [], cl_ID = i, cl_UserAgent = [], cl_remoteIP = ip,
       cl_conn = buffer, cl_closed = False, cl_commonName = [], cl_Reader = input,
       cl_Writer = bufio_NewWriterSize defaultBufferSize,
       cl_OutputBufferSize = defaultBufferSize, cl_OutputBufferTimeout = o_OutputBufferTimeout opts,
       cl_HeartbeatInterval = go_div (o_ClientTimeout opts) 2, cl_MsgTimeout = o_MsgTimeout opts,
       cl_State = stateInit, cl_ConnectTime = now, cl_Channel = None, cl_ReadyStateChan = False,
       cl_ExitChan_closed = False, cl_ClientID = identifier, cl_Hostname = identifier, cl_SampleRate = 0,
       cl_IdentifyEventChan = None, cl_SubEventChan = None, cl_TLS = False, cl_Snappy = False,
       cl_Deflate = False, cl_AuthSecret = [], cl_AuthState = None\<rparr>)"

section \<open>Settings a client negotiates\<close>

definition SetHeartbeatInterval :: "Options \<Rightarrow> int \<Rightarrow> clientV2 \<Rightarrow> go_error option \<times> clientV2" where
  "SetHeartbeatInterval opts desired c =
     (if desired = -1 then (None, c\<lparr>cl_HeartbeatInterval := 0\<rparr>)
      else if desired = 0 then (None, c)
      else if 1000 \<le> desired \<and> desired \<le> go_div (o_MaxHeartbeatInterval opts) Millisecond
      then (None, c\<lparr>cl_HeartbeatInterval := desired * Millisecond\<rparr>)
      else (Some ''heartbeat interval is invalid'', c))"

definition set_buffer_timeout :: "Options \<Rightarrow> int \<Rightarrow> clientV2 \<Rightarrow> go_error option \<times> clientV2" where
  "set_buffer_timeout opts desired c =
     (if desired = -1 then (None, c\<lparr>cl_OutputBufferTimeout := 0\<rparr>)
      else if desired = 0 then (None, c)
      else if go_div (o_MinOutputBufferTimeout opts) Millisecond \<le> desired \<and>
              desired \<le> go_div (o_MaxOutputBufferTimeout opts) Millisecond
      then (None, c\<lparr>cl_OutputBufferTimeout := desired * Millisecond\<rparr>)
      else (Some ''output buffer timeout is invalid'', c))"

definition set_buffer_size :: "Options \<Rightarrow> int \<Rightarrow> clientV2 \<Rightarrow> go_error option \<times> clientV2" where
  "set_buffer_size opts desired c =
     (if desired = -1 then (None, c\<lparr>cl_OutputBufferSize := 1, cl_OutputBufferTimeout := 0\<rparr>)
      else if desired = 0 then (None, c)
      else if 64 \<le> desired \<and> desired \<le> o_MaxOutputBufferSize opts
      then (None, c\<lparr>cl_OutputBufferSize := desired\<rparr>)
      else (Some ''output buffer size is invalid'', c))"

definition client_Flush_writer :: "clientV2 \<Rightarrow> go_error option \<times> clientV2" where
  "client_Flush_writer c =
     (case bufio_Flush (cl_Writer c, cl_conn c) of
        (e, b, w) \<Rightarrow> (e, c\<lparr>cl_Writer := b, cl_conn := w\<rparr>))"

definition SetOutputBuffer :: "Options \<Rightarrow> int \<Rightarrow> int \<Rightarrow> clientV2 \<Rightarrow> go_error option \<times> clientV2" where
  "SetOutputBuffer opts desiredSize desiredTimeout c =
     (case set_buffer_timeout opts desiredTimeout c of
        (Some e, c1) \<Rightarrow> (Some e, c1)
      | (None, c1) \<Rightarrow>
          (case set_buffer_size opts desiredSize c1 of
             (Some e, c2) \<Rightarrow> (Some e, c2)
           | (None, c2) \<Rightarrow>
               if desiredSize \<noteq> 0
               then case client_Flush_writer c2 of
                      (Some e, c3) \<Rightarrow> (Some e, c3)
                    | (None, c3) \<Rightarrow> (None, c3\<lparr>cl_Writer := bufio_NewWriterSize (cl_OutputBufferSize c3)\<rparr>)
               else (None, c2)))"

definition SetSampleRate :: "int \<Rightarrow> clientV2 \<Rightarrow> go_error option \<times> clientV2" where
  "SetSampleRate r c =
     (if r < 0 \<or> 99 < r then (Some ''sample rate is invalid'', c)
      else (None, c\<lparr>cl_SampleRate := r\<rparr>))"

definition SetMsgTimeout :: "Options \<Rightarrow> int \<Rightarrow> clientV2 \<Rightarrow> go_error option \<times> clientV2" where
  "SetMsgTimeout opts t c =
     (if t = 0 then (None, c)
      else if 1000 \<le> t \<and> t \<le> go_div (o_MaxMsgTimeout opts) Millisecond
      then (None, c\<lparr>cl_MsgTimeout := t * Millisecond\<rparr>)
      else (Some ''msg timeout is invalid'', c))"

definition client_Identify :: "Options \<Rightarrow> identifyDataV2 \<Rightarrow> clientV2 \<Rightarrow> go_error option \<times> clientV2" where
  "client_Identify opts data c =
     (let c0 = c\<lparr>cl_ClientID := i_ClientID data, cl_Hostname := i_Hostname data,
                 cl_UserAgent := i_UserAgent data\<rparr> in
      case SetHeartbeatInterval opts (i_HeartbeatInterval data) c0 of
        (Some e, c1) \<Rightarrow> (Some e, c1)
      | (None, c1) \<Rightarrow>
      (case SetOutputBuffer opts (i_OutputBufferSize data) (i_OutputBufferTimeout data) c1 of
        (Some e, c2) \<Rightarrow> (Some e, c2)
      | (None, c2) \<Rightarrow>
      (case SetSampleRate (i_SampleRate data) c2 of
        (Some e, c3) \<Rightarrow> (Some e, c3)
      | (None, c3) \<Rightarrow>
      (case SetMsgTimeout opts (i_MsgTimeout data) c3 of
        (Some e, c4) \<Rightarrow> (Some e, c4)
      | (None, c4) \<Rightarrow>
          let ie = \<lparr>ie_OutputBufferTimeout = cl_OutputBufferTimeout c4,
                    ie_HeartbeatInterval = cl_HeartbeatInterval c4,
                    ie_SampleRate = cl_SampleRate c4, ie_MsgTimeout = cl_MsgTimeout c4\<rparr>
          in (None, if cl_IdentifyEventChan c4 = None then c4\<lparr>cl_IdentifyEventChan := Some ie\<rparr>
                    else c4)))))"

section \<open>Counters and readiness\<close>

definition IsProducer :: "clientV2 \<Rightarrow> bool" where
  "IsProducer c \<longleftrightarrow> 0 < length (cl_pubCounts c)"

definition IsReadyForMessages :: "bool \<Rightarrow> clientV2 \<Rightarrow> bool" where
  "IsReadyForMessages paused c \<longleftrightarrow>
     (if paused then False
      else if sint (cl_ReadyCount c) \<le> sint (cl_InFlightCount c) \<or> sint (cl_ReadyCount c) \<le> 0 then False
      else True)"

definition tryUpdateReadyState :: "clientV2 \<Rightarrow> clientV2" where
  "tryUpdateReadyState c = c\<lparr>cl_ReadyStateChan := True\<rparr>"

definition SetReadyCount :: "i64 \<Rightarrow> clientV2 \<Rightarrow> clientV2" where
  "SetReadyCount n c = tryUpdateReadyState (c\<lparr>cl_ReadyCount := n\<rparr>)"

definition FinishedMessage :: "clientV2 \<Rightarrow> clientV2" where
  "FinishedMessage c =
     tryUpdateReadyState (c\<lparr>cl_FinishCount := cl_FinishCount c + 1,
                            cl_InFlightCount := cl_InFlightCount c - 1\<rparr>)"

definition client_Empty :: "clientV2 \<Rightarrow> clientV2" where
  "client_Empty c = tryUpdateReadyState (c\<lparr>cl_InFlightCount := 0\<rparr>)"

definition SendingMessage :: "clientV2 \<Rightarrow> clientV2" where
  "SendingMessage c = c\<lparr>cl_InFlightCount := cl_InFlightCount c + 1,
                        cl_MessageCount := cl_MessageCount c + 1\<rparr>"

definition PublishedMessage :: "string \<Rightarrow> u64 \<Rightarrow> clientV2 \<Rightarrow> clientV2" where
  "PublishedMessage topic n c =
     c\<lparr>cl_pubCounts := amap_put topic
         ((case map_of (cl_pubCounts c) topic of None \<Rightarrow> 0 | Some k \<Rightarrow> k) + n) (cl_pubCounts c)\<rparr>"

definition TimedOutMessage :: "clientV2 \<Rightarrow> clientV2" where
  "TimedOutMessage c = tryUpdateReadyState (c\<lparr>cl_InFlightCount := cl_InFlightCount c - 1\<rparr>)"

definition RequeuedMessage :: "clientV2 \<Rightarrow> clientV2" where
  "RequeuedMessage c =
     tryUpdateReadyState (c\<lparr>cl_RequeueCount := cl_RequeueCount c + 1,
                            cl_InFlightCount := cl_InFlightCount c - 1\<rparr>)"

definition StartClose :: "clientV2 \<Rightarrow> clientV2" where
  "StartClose c = (SetReadyCount 0 c)\<lparr>cl_State := stateClosing\<rparr>"

definition client_Pause :: "clientV2 \<Rightarrow> clientV2" where
  "client_Pause c = tryUpdateReadyState c"

definition client_UnPause :: "clientV2 \<Rightarrow> clientV2" where
  "client_UnPause c = tryUpdateReadyState c"

definition client_Close :: "clientV2 \<Rightarrow> clientV2" where
  "client_Close c = c\<lparr>cl_closed := True\<rparr>"

section \<open>Connection upgrades and flushing\<close>

definition UpgradeTLS :: "go_error option \<Rightarrow> clientV2 \<Rightarrow> go_error option \<times> clientV2" where
  "UpgradeTLS handshake c =
     (case handshake of
        Some e \<Rightarrow> (Some e, c)
      | None \<Rightarrow> (None, c\<lparr>cl_Writer := bufio_NewWriterSize (cl_OutputBufferSize c), cl_TLS := True\<rparr>))"

definition UpgradeDeflate :: "int \<Rightarrow> clientV2 \<Rightarrow> go_error option \<times> clientV2" where
  "UpgradeDeflate level c =
     (None, c\<lparr>cl_Writer := bufio_NewWriterSize (cl_OutputBufferSize c), cl_Deflate := True\<rparr>)"

definition UpgradeSnappy :: "clientV2 \<Rightarrow> go_error option \<times> clientV2" where
  "UpgradeSnappy c =
     (None, c\<lparr>cl_Writer := bufio_NewWriterSize (cl_OutputBufferSize c), cl_Snappy := True\<rparr>)"

definition client_Flush :: "clientV2 \<Rightarrow> go_error option \<times> clientV2" where
  "client_Flush c = client_Flush_writer c"

section \<open>Authorization\<close>

definition client_QueryAuthd ::
    "regexp \<Rightarrow> authd \<Rightarrow> Options \<Rightarrow> int \<Rightarrow> clientV2 \<Rightarrow> go_error option \<times> clientV2" where
  "client_QueryAuthd compile get opts now c =
     (case cl_remoteIP c of
        Inl e \<Rightarrow> (Some e, c)
      | Inr ip \<Rightarrow>
          (case QueryAnyAuthd compile get now (o_AuthHTTPAddresses opts) ip (cl_TLS c)
                  (if cl_TLS c then cl_commonName c else []) (cl_AuthSecret c) of
             Inl e \<Rightarrow> (Some e, c)
           | Inr st \<Rightarrow> (None, c\<lparr>cl_AuthState := Some st\<rparr>)))"

definition client_Auth ::
    "regexp \<Rightarrow> authd \<Rightarrow> Options \<Rightarrow> int \<Rightarrow> string \<Rightarrow> clientV2 \<Rightarrow> go_error option \<times> clientV2" where
  "client_Auth compile get opts now secret c =
     client_QueryAuthd compile get opts now (c\<lparr>cl_AuthSecret := secret\<rparr>)"

definition IsAuthorized ::
    "regexp \<Rightarrow> authd \<Rightarrow> Options \<Rightarrow> int \<Rightarrow> string \<Rightarrow> string \<Rightarrow> clientV2 \<Rightarrow>
       ((go_error + bool) \<times> clientV2) option" where
  "IsAuthorized compile get opts now topic channel c =
     (case cl_AuthState c of
        None \<Rightarrow> Some (Inr False, c)
      | Some st \<Rightarrow>
          (case (if AuthState_IsExpired now st then client_QueryAuthd compile get opts now c else (None, c)) of
             (Some e, c1) \<Rightarrow> Some (Inl e, c1)
           | (None, c1) \<Rightarrow>
               (case cl_AuthState c1 of
                  None \<Rightarrow> None
                | Some st1 \<Rightarrow> do {
                    ok <- AuthState_IsAllowed compile st1 topic channel;
                    Some (Inr ok, c1) })))"

definition HasAuthorizations :: "clientV2 \<Rightarrow> bool" where
  "HasAuthorizations c \<longleftrightarrow> (case cl_AuthState c of Some st \<Rightarrow> length (s_Authorizations st) \<noteq> 0 | None \<Rightarrow> False)"

section \<open>The byte stream\<close>

text \<open>What a client has been sent: the bytes on the connection, then the bytes still buffered.\<close>

definition stream :: "bufio \<times> writer \<Rightarrow> bytes" where
  "stream = (\<lambda>(b, w). w_out w @ b_buf b)"

definition healthy :: "bufio \<times> writer \<Rightarrow> bool" where
  "healthy = (\<lambda>(b, w). b_err b = None \<and> w_room w = None)"

lemma bufio_Flush_stream:
  "healthy s \<Longrightarrow> \<exists>s'. bufio_Flush s = (None, s') \<and> healthy s' \<and> stream s' = stream s \<and> b_buf (fst s') = []"
  by (cases s) (auto simp: bufio_Flush_def healthy_def stream_def w_write_def)

lemma bufio_direct_stream:
  "healthy s \<Longrightarrow> b_buf (fst s) = [] \<Longrightarrow>
     \<exists>s'. bufio_direct p s = (None, s') \<and> healthy s' \<and> stream s' = stream s @ p"
  by (cases s) (auto simp: bufio_direct_def healthy_def stream_def w_write_def)

lemma bufio_Write_stream:
  assumes "healthy s"
  shows "\<exists>s'. bufio_Write p s = (None, s') \<and> healthy s' \<and> stream s' = stream s @ p"
proof -
  obtain b w where s: "s = (b, w)" by fastforce
  let ?k = "b_size b - length (b_buf b)"
  let ?s1 = "(b\<lparr>b_buf := b_buf b @ take ?k p\<rparr>, w)"
  have h: "healthy ?s1" and err: "b_err b = None" using assms by (simp_all add: s healthy_def)
  obtain s2 where s2: "bufio_Flush ?s1 = (None, s2)" "healthy s2" "stream s2 = stream ?s1" "b_buf (fst s2) = []"
    using bufio_Flush_stream [OF h] by auto
  obtain s3 where s3: "bufio_direct (drop ?k p) s2 = (None, s3)" "healthy s3"
    "stream s3 = stream s2 @ drop ?k p"
    using bufio_direct_stream [OF s2(2,4)] by blast
  have "stream s3 = stream s @ p"
    using s2(3) s3(3) by (simp add: s stream_def)
  then show ?thesis
    using assms s err s2 s3 bufio_direct_stream [of s p]
    by (cases s2) (auto simp: bufio_Write_def Let_def, auto simp: stream_def healthy_def)
qed

section \<open>What IDENTIFY accepts\<close>

text \<open>The settings of a client are always within the configured limits.\<close>

definition settings_ok :: "Options \<Rightarrow> clientV2 \<Rightarrow> bool" where
  "settings_ok opts c \<longleftrightarrow>
     0 \<le> cl_HeartbeatInterval c \<and>
       (cl_HeartbeatInterval c \<le> o_MaxHeartbeatInterval opts \<or>
        cl_HeartbeatInterval c = go_div (o_ClientTimeout opts) 2) \<and>
     0 \<le> cl_SampleRate c \<and> cl_SampleRate c \<le> 99 \<and>
     (cl_MsgTimeout c = o_MsgTimeout opts \<or>
      1000 * Millisecond \<le> cl_MsgTimeout c \<and> cl_MsgTimeout c \<le> o_MaxMsgTimeout opts) \<and>
     (cl_OutputBufferSize c = defaultBufferSize \<or> cl_OutputBufferSize c = 1 \<or>
      64 \<le> cl_OutputBufferSize c \<and> cl_OutputBufferSize c \<le> o_MaxOutputBufferSize opts)"

lemma go_div_ms: "1000 \<le> d \<Longrightarrow> d \<le> go_div m Millisecond \<Longrightarrow> d * Millisecond \<le> m"
proof -
  assume d: "1000 \<le> d" "d \<le> go_div m Millisecond"
  then have "0 < m" by (auto simp: go_div_def Millisecond_def sgn_if split: if_splits)
  then have "d \<le> m div Millisecond" using d by (simp add: Millisecond_def)
  then have "d * Millisecond \<le> (m div Millisecond) * Millisecond" by (simp add: Millisecond_def)
  also have "\<dots> \<le> m" by (simp add: Millisecond_def)
  finally show ?thesis .
qed

lemma settings_new:
  "0 \<le> o_ClientTimeout opts \<Longrightarrow> settings_ok opts (newClientV2 opts now i ip input)"
  by (simp add: settings_ok_def newClientV2_def Let_def)

lemma SetHeartbeatInterval_ok:
  "settings_ok opts c \<Longrightarrow> 0 \<le> o_MaxHeartbeatInterval opts \<Longrightarrow>
     settings_ok opts (snd (SetHeartbeatInterval opts d c))"
  using go_div_ms [of d "o_MaxHeartbeatInterval opts"]
  by (auto simp: SetHeartbeatInterval_def settings_ok_def Millisecond_def)

lemma client_Flush_writer_settings [simp]:
  "settings_ok opts (snd (client_Flush_writer c)) = settings_ok opts c"
  by (simp add: client_Flush_writer_def settings_ok_def split: prod.split)

lemma SetOutputBuffer_ok:
  "settings_ok opts c \<Longrightarrow> settings_ok opts (snd (SetOutputBuffer opts sz t c))"
proof -
  assume ok: "settings_ok opts c"
  have 1: "settings_ok opts (snd (set_buffer_timeout opts t c))"
    using ok by (simp add: set_buffer_timeout_def settings_ok_def)
  have 2: "settings_ok opts c1 \<Longrightarrow> settings_ok opts (snd (set_buffer_size opts sz c1))" for c1
    by (auto simp: set_buffer_size_def settings_ok_def)
  have 3: "settings_ok opts (c1\<lparr>cl_Writer := b\<rparr>) = settings_ok opts c1" for c1 b
    by (simp add: settings_ok_def)
  obtain e1 c1 where c1: "set_buffer_timeout opts t c = (e1, c1)" by fastforce
  obtain e2 c2 where c2: "set_buffer_size opts sz c1 = (e2, c2)" by fastforce
  obtain e3 c3 where c3: "client_Flush_writer c2 = (e3, c3)" by fastforce
  have "settings_ok opts c1" "settings_ok opts c2" "settings_ok opts c3"
    using 1 2 [of c1] c1 c2 c3 client_Flush_writer_settings [of opts c2] by auto
  then show ?thesis using c1 c2 c3 3
    by (auto simp: SetOutputBuffer_def split: option.split)
qed

lemma client_Identify_ok:
  assumes "settings_ok opts c" "0 \<le> o_MaxHeartbeatInterval opts"
  shows "settings_ok opts (snd (client_Identify opts data c))"
proof -
  let ?c0 = "c\<lparr>cl_ClientID := i_ClientID data, cl_Hostname := i_Hostname data, cl_UserAgent := i_UserAgent data\<rparr>"
  have 0: "settings_ok opts ?c0" using assms(1) by (simp add: settings_ok_def)
  obtain e1 c1 where c1: "SetHeartbeatInterval opts (i_HeartbeatInterval data) ?c0 = (e1, c1)" by fastforce
  obtain e2 c2 where c2: "SetOutputBuffer opts (i_OutputBufferSize data) (i_OutputBufferTimeout data) c1 = (e2, c2)"
    by fastforce
  obtain e3 c3 where c3: "SetSampleRate (i_SampleRate data) c2 = (e3, c3)" by fastforce
  obtain e4 c4 where c4: "SetMsgTimeout opts (i_MsgTimeout data) c3 = (e4, c4)" by fastforce
  have o1: "settings_ok opts c1" using SetHeartbeatInterval_ok [OF 0 assms(2)] c1 by (metis snd_conv)
  have o2: "settings_ok opts c2" using SetOutputBuffer_ok [OF o1] c2 by (metis snd_conv)
  have o3: "settings_ok opts c3"
    using o2 c3 by (auto simp: SetSampleRate_def settings_ok_def split: if_splits)
  have o4: "settings_ok opts c4"
    using o3 c4 go_div_ms [of "i_MsgTimeout data" "o_MaxMsgTimeout opts"]
    by (auto simp: SetMsgTimeout_def settings_ok_def Millisecond_def split: if_splits)
  have o5: "settings_ok opts (c4\<lparr>cl_IdentifyEventChan := x\<rparr>)" for x
    using o4 by (simp add: settings_ok_def)
  show ?thesis using o1 o2 o3 o4 o5 c1 c2 c3 c4
    by (auto simp: client_Identify_def Let_def split: option.split)
qed

section \<open>Authorization\<close>

text \<open>The cached answer of the authorization server has been validated.\<close>

definition auth_ok :: "regexp \<Rightarrow> clientV2 \<Rightarrow> bool" where
  "auth_ok compile c \<longleftrightarrow>
     (\<forall>st. cl_AuthState c = Some st \<longrightarrow> list_all (valid_auth compile) (s_Authorizations st))"

lemma client_QueryAuthd_ok:
  "auth_ok compile c \<Longrightarrow> auth_ok compile (snd (client_QueryAuthd compile get opts now c))"
  by (auto simp: client_QueryAuthd_def auth_ok_def dest: QueryAnyAuthd_valid split: sum.split)

lemma client_QueryAuthd_fresh:
  "client_QueryAuthd compile get opts now c = (None, c') \<Longrightarrow>
     \<exists>st. cl_AuthState c' = Some st \<and> list_all (valid_auth compile) (s_Authorizations st) \<and>
       \<not> AuthState_IsExpired now st"
  by (auto simp: client_QueryAuthd_def dest: QueryAnyAuthd_valid split: sum.splits)

lemma IsAuthorized_spec:
  assumes "auth_ok compile c"
  shows "\<exists>r c'. IsAuthorized compile get opts now topic channel c = Some (r, c') \<and> auth_ok compile c' \<and>
    (r = Inr True \<longrightarrow> (\<exists>st. cl_AuthState c' = Some st \<and> \<not> AuthState_IsExpired now st \<and>
       (\<exists>a \<in> set (s_Authorizations st). grants compile a topic channel)))"
proof (cases "cl_AuthState c")
  case None
  then show ?thesis using assms by (simp add: IsAuthorized_def)
next
  case (Some st)
  show ?thesis
  proof (cases "AuthState_IsExpired now st")
    case False
    then show ?thesis using assms Some any_allowed_iff [of compile "s_Authorizations st"]
      by (simp add: IsAuthorized_def AuthState_IsAllowed_def auth_ok_def)
  next
    case True
    obtain e c1 where q: "client_QueryAuthd compile get opts now c = (e, c1)" by fastforce
    have ok1: "auth_ok compile c1" using client_QueryAuthd_ok [OF assms, of get opts now] q by simp
    show ?thesis
    proof (cases e)
      case (Some err)
      then show ?thesis using q ok1 True \<open>cl_AuthState c = Some st\<close> by (simp add: IsAuthorized_def)
    next
      case None
      then obtain st1 where "cl_AuthState c1 = Some st1" "\<not> AuthState_IsExpired now st1"
        "list_all (valid_auth compile) (s_Authorizations st1)"
        using client_QueryAuthd_fresh q by blast
      then show ?thesis using None q ok1 True Some any_allowed_iff [of compile "s_Authorizations st1"]
        by (simp add: IsAuthorized_def AuthState_IsAllowed_def)
    qed
  qed
qed

end
