(* ===== verification/Nsq_Channel.thy ===== *)
theory Nsq_Channel
  imports Nsq_InFlightPQ Nsq_DeferredPQ Nsq_Backend Nsq_Client
begin

text \<open>
  \<open>nsqd/channel.go\<close>: a channel hands every message to one of its consumers and tracks it
  until it is finished. The message objects a channel holds live in its own store
  (\<open>c_msgs\<close>), because the memory queue, the in-flight map and the in-flight heap share
  them and the heap writes their \<open>index\<close> fields; items of the deferred heap live in
  \<open>c_items\<close>. A Go map is an association list whose order is the iteration order. Consumers are
  named by their identifiers; operations that call them take and return the client store.
  Calls up into the daemon (\<open>Notify\<close>, \<open>SetHealth\<close>, the delete callback) are recorded in
  order in \<open>c_calls\<close>. \<open>None\<close> is a panic. Every operation runs under the locks the code takes
  and is one atomic step here.
\<close>

datatype nsqd_call = CallNotify | CallSetHealth "go_error option" | CallDelete

type_synonym cstore = "int \<Rightarrow> clientV2"

record 'b Channel =
  c_requeueCount :: u64
  c_messageCount :: u64
  c_timeoutCount :: u64
  c_topicName :: string
  c_name :: string
  c_backend :: "'b backend"
  c_memoryMsgChan :: "ref list"
  c_memCap :: nat
  c_exitFlag :: bool
  c_clients :: "int list"
  c_paused :: bool
  c_ephemeral :: bool
  c_deleted :: bool
  c_latency :: "i64 list option"
  c_deferredMessages :: "(MessageID \<times> nat) list"
  c_deferredPQ :: PriorityQueue
  c_inFlightMessages :: "(MessageID \<times> ref) list"
  c_inFlightPQ :: inFlightPqueue
  c_msgs :: mstore
  c_items :: "ref istore"
  c_nextMsg :: ref
  c_nextItem :: nat
  c_calls :: "nsqd_call list"

section \<open>Construction\<close>

definition pqSize :: "Options \<Rightarrow> nat" where
  "pqSize opts = max 1 (nat (o_MemQueueSize opts) div 10)"

definition Channel_initPQ :: "Options \<Rightarrow> 'b Channel \<Rightarrow> 'b Channel" where
  "Channel_initPQ opts c =
     c\<lparr>c_inFlightMessages := [], c_inFlightPQ := newInFlightPqueue (pqSize opts),
       c_deferredMessages := [], c_deferredPQ := pqueue_New (pqSize opts)\<rparr>"

text \<open>The disk queue of a channel is opened by the external package: its state is an argument.\<close>

definition NewChannel :: "Options \<Rightarrow> string \<Rightarrow> string \<Rightarrow> 'b \<Rightarrow> 'b Channel" where
  "NewChannel opts topicName channelName b =
     (let eph = HasSuffix channelName ''#ephemeral'';
          c = \<lparr>c_requeueCount = 0, c_messageCount = 0, c_timeoutCount = 0, c_topicName = topicName,
               c_name = channelName, c_backend = (if eph then DummyBackend else Backend b),
               c_memoryMsgChan = [], c_memCap = nat (o_MemQueueSize opts), c_exitFlag = False,
               c_clients = [], c_paused = False, c_ephemeral = eph, c_deleted = False,
               c_latency = (if 0 < length (o_E2EProcessingLatencyPercentiles opts) then Some [] else None),
               c_deferredMessages = [], c_deferredPQ = pqueue_New 0, c_inFlightMessages = [],
               c_inFlightPQ = newInFlightPqueue 0, c_msgs = (\<lambda>_. zero_Message),
               c_items = (\<lambda>_. \<lparr>it_Value = 0, it_Priority = 0, it_Index = 0\<rparr>), c_nextMsg = 0,
               c_nextItem = 0, c_calls = []\<rparr>
      in (Channel_initPQ opts c)\<lparr>c_calls := [CallNotify]\<rparr>)"

definition Channel_Exiting :: "'b Channel \<Rightarrow> bool" where
  "Channel_Exiting c = c_exitFlag c"

definition Channel_IsPaused :: "'b Channel \<Rightarrow> bool" where
  "Channel_IsPaused c = c_paused c"

definition Channel_Depth :: "'b BackendQueue \<Rightarrow> 'b Channel \<Rightarrow> int" where
  "Channel_Depth ops c = int (length (c_memoryMsgChan c)) + backend_Depth ops (c_backend c)"

text \<open>A message enters the store of the channel.\<close>

definition alloc_msg :: "Message \<Rightarrow> 'b Channel \<Rightarrow> ref \<times> 'b Channel" where
  "alloc_msg m c = (c_nextMsg c, c\<lparr>c_msgs := (c_msgs c)(c_nextMsg c := m), c_nextMsg := c_nextMsg c + 1\<rparr>)"

definition upd_msg :: "ref \<Rightarrow> (Message \<Rightarrow> Message) \<Rightarrow> 'b Channel \<Rightarrow> 'b Channel" where
  "upd_msg r f c = c\<lparr>c_msgs := (c_msgs c)(r := f (c_msgs c r))\<rparr>"

section \<open>Queueing\<close>

definition Channel_put :: "'b BackendQueue \<Rightarrow> ref \<Rightarrow> 'b Channel \<Rightarrow> (go_error option \<times> 'b Channel) option" where
  "Channel_put ops m c =
     (if length (c_memoryMsgChan c) < c_memCap c
      then Some (None, c\<lparr>c_memoryMsgChan := c_memoryMsgChan c @ [m]\<rparr>)
      else do {
        (err, b) <- writeMessageToBackend ops (c_msgs c m) (c_backend c);
        Some (err, c\<lparr>c_backend := b, c_calls := c_calls c @ [CallSetHealth err]\<rparr>) })"

definition Channel_PutMessage ::
    "'b BackendQueue \<Rightarrow> Message \<Rightarrow> 'b Channel \<Rightarrow> (go_error option \<times> 'b Channel) option" where
  "Channel_PutMessage ops msg c =
     (if Channel_Exiting c then Some (Some ''exiting'', c)
      else do {
        let (m, c0) = alloc_msg msg c;
        (err, c1) <- Channel_put ops m c0;
        (case err of
           Some e \<Rightarrow> Some (Some e, c1)
         | None \<Rightarrow> Some (None, c1\<lparr>c_messageCount := c_messageCount c1 + 1\<rparr>)) })"

section \<open>In-flight and deferred bookkeeping\<close>

definition pushInFlightMessage :: "ref \<Rightarrow> 'b Channel \<Rightarrow> go_error option \<times> 'b Channel" where
  "pushInFlightMessage msg c =
     (let i = m_ID (c_msgs c msg) in
      case map_of (c_inFlightMessages c) i of
        Some _ \<Rightarrow> (Some ''ID already in flight'', c)
      | None \<Rightarrow> (None, c\<lparr>c_inFlightMessages := amap_put i msg (c_inFlightMessages c)\<rparr>))"

definition popInFlightMessage :: "int \<Rightarrow> MessageID \<Rightarrow> 'b Channel \<Rightarrow> (go_error + ref) \<times> 'b Channel" where
  "popInFlightMessage clientID i c =
     (case map_of (c_inFlightMessages c) i of
        None \<Rightarrow> (Inl ''ID not in flight'', c)
      | Some msg \<Rightarrow>
          if m_clientID (c_msgs c msg) \<noteq> clientID then (Inl ''client does not own message'', c)
          else (Inr msg, c\<lparr>c_inFlightMessages := amap_del i (c_inFlightMessages c)\<rparr>))"

definition addToInFlightPQ :: "ref \<Rightarrow> 'b Channel \<Rightarrow> 'b Channel option" where
  "addToInFlightPQ msg c = do {
     (h, pq) <- pq_Push msg (c_msgs c, c_inFlightPQ c);
     Some (c\<lparr>c_msgs := h, c_inFlightPQ := pq\<rparr>) }"

definition removeFromInFlightPQ :: "ref \<Rightarrow> 'b Channel \<Rightarrow> 'b Channel option" where
  "removeFromInFlightPQ msg c =
     (if m_index (c_msgs c msg) = -1 then Some c
      else do {
        (_, h, pq) <- pq_Remove (m_index (c_msgs c msg)) (c_msgs c, c_inFlightPQ c);
        Some (c\<lparr>c_msgs := h, c_inFlightPQ := pq\<rparr>) })"

definition pushDeferredMessage :: "nat \<Rightarrow> 'b Channel \<Rightarrow> go_error option \<times> 'b Channel" where
  "pushDeferredMessage item c =
     (let i = m_ID (c_msgs c (it_Value (c_items c item))) in
      case map_of (c_deferredMessages c) i of
        Some _ \<Rightarrow> (Some ''ID already deferred'', c)
      | None \<Rightarrow> (None, c\<lparr>c_deferredMessages := amap_put i item (c_deferredMessages c)\<rparr>))"

definition popDeferredMessage :: "MessageID \<Rightarrow> 'b Channel \<Rightarrow> (go_error + nat) \<times> 'b Channel" where
  "popDeferredMessage i c =
     (case map_of (c_deferredMessages c) i of
        None \<Rightarrow> (Inl ''ID not deferred'', c)
      | Some item \<Rightarrow> (Inr item, c\<lparr>c_deferredMessages := amap_del i (c_deferredMessages c)\<rparr>))"

definition addToDeferredPQ :: "nat \<Rightarrow> 'b Channel \<Rightarrow> 'b Channel option" where
  "addToDeferredPQ item c = do {
     (h, pq) <- heap_Push item (c_items c, c_deferredPQ c);
     Some (c\<lparr>c_items := h, c_deferredPQ := pq\<rparr>) }"

definition StartInFlightTimeout ::
    "int \<Rightarrow> ref \<Rightarrow> int \<Rightarrow> int \<Rightarrow> 'b Channel \<Rightarrow> (go_error option \<times> 'b Channel) option" where
  "StartInFlightTimeout now msg clientID timeout c = do {
     let c0 = upd_msg msg (\<lambda>m. m\<lparr>m_clientID := clientID, m_deliveryTS := now,
                                  m_pri := UnixNano (now + timeout)\<rparr>) c;
     (case pushInFlightMessage msg c0 of
        (Some e, c1) \<Rightarrow> Some (Some e, c1)
      | (None, c1) \<Rightarrow> do { c2 <- addToInFlightPQ msg c1; Some (None, c2) }) }"

definition StartDeferredTimeout ::
    "int \<Rightarrow> ref \<Rightarrow> int \<Rightarrow> 'b Channel \<Rightarrow> (go_error option \<times> 'b Channel) option" where
  "StartDeferredTimeout now msg timeout c = do {
     let absTs = UnixNano (now + timeout);
     let item = c_nextItem c;
     let c0 = c\<lparr>c_items := (c_items c)(item := \<lparr>it_Value = msg, it_Priority = absTs, it_Index = 0\<rparr>),
                c_nextItem := item + 1\<rparr>;
     (case pushDeferredMessage item c0 of
        (Some e, c1) \<Rightarrow> Some (Some e, c1)
      | (None, c1) \<Rightarrow> do { c2 <- addToDeferredPQ item c1; Some (None, c2) }) }"

definition Channel_PutMessageDeferred :: "int \<Rightarrow> Message \<Rightarrow> int \<Rightarrow> 'b Channel \<Rightarrow> 'b Channel option" where
  "Channel_PutMessageDeferred now msg timeout c = do {
     let (m, c0) = alloc_msg msg c;
     (_, c1) <- StartDeferredTimeout now m timeout (c0\<lparr>c_messageCount := c_messageCount c0 + 1\<rparr>);
     Some c1 }"

section \<open>What a consumer asks for\<close>

definition TouchMessage ::
    "Options \<Rightarrow> int \<Rightarrow> int \<Rightarrow> MessageID \<Rightarrow> int \<Rightarrow> 'b Channel \<Rightarrow> (go_error option \<times> 'b Channel) option" where
  "TouchMessage opts now clientID i clientMsgTimeout c =
     (case popInFlightMessage clientID i c of
        (Inl e, c1) \<Rightarrow> Some (Some e, c1)
      | (Inr msg, c1) \<Rightarrow> do {
          c2 <- removeFromInFlightPQ msg c1;
          let deliveryTS = m_deliveryTS (c_msgs c2 msg);
          let newTimeout =
            (if o_MaxMsgTimeout opts \<le> now + clientMsgTimeout - deliveryTS
             then deliveryTS + o_MaxMsgTimeout opts else now + clientMsgTimeout);
          let c3 = upd_msg msg (\<lambda>m. m\<lparr>m_pri := UnixNano newTimeout\<rparr>) c2;
          (case pushInFlightMessage msg c3 of
             (Some e, c4) \<Rightarrow> Some (Some e, c4)
           | (None, c4) \<Rightarrow> do { c5 <- addToInFlightPQ msg c4; Some (None, c5) }) })"

definition FinishMessage :: "int \<Rightarrow> MessageID \<Rightarrow> 'b Channel \<Rightarrow> (go_error option \<times> 'b Channel) option" where
  "FinishMessage clientID i c =
     (case popInFlightMessage clientID i c of
        (Inl e, c1) \<Rightarrow> Some (Some e, c1)
      | (Inr msg, c1) \<Rightarrow> do {
          c2 <- removeFromInFlightPQ msg c1;
          Some (None, c2\<lparr>c_latency := map_option (\<lambda>l. l @ [m_Timestamp (c_msgs c2 msg)]) (c_latency c2)\<rparr>) })"

definition RequeueMessage ::
    "'b BackendQueue \<Rightarrow> int \<Rightarrow> int \<Rightarrow> MessageID \<Rightarrow> int \<Rightarrow> 'b Channel \<Rightarrow> (go_error option \<times> 'b Channel) option" where
  "RequeueMessage ops now clientID i timeout c =
     (case popInFlightMessage clientID i c of
        (Inl e, c1) \<Rightarrow> Some (Some e, c1)
      | (Inr msg, c1) \<Rightarrow> do {
          c2 <- removeFromInFlightPQ msg c1;
          let c3 = c2\<lparr>c_requeueCount := c_requeueCount c2 + 1\<rparr>;
          (if timeout = 0
           then if Channel_Exiting c3 then Some (Some ''exiting'', c3) else Channel_put ops msg c3
           else StartDeferredTimeout now msg timeout c3) })"

section \<open>Consumers\<close>

definition Channel_AddClient :: "Options \<Rightarrow> int \<Rightarrow> 'b Channel \<Rightarrow> go_error option \<times> 'b Channel" where
  "Channel_AddClient opts clientID c =
     (if clientID \<in> set (c_clients c) then (None, c)
      else if o_MaxChannelConsumers opts \<noteq> 0 \<and> o_MaxChannelConsumers opts \<le> int (length (c_clients c))
      then (Some ''E_TOO_MANY_CHANNEL_CONSUMERS'', c)
      else (None, c\<lparr>c_clients := c_clients c @ [clientID]\<rparr>))"

definition Channel_RemoveClient :: "int \<Rightarrow> 'b Channel \<Rightarrow> 'b Channel" where
  "Channel_RemoveClient clientID c =
     (if clientID \<notin> set (c_clients c) then c
      else let c1 = c\<lparr>c_clients := filter (\<lambda>x. x \<noteq> clientID) (c_clients c)\<rparr>
           in if length (c_clients c1) = 0 \<and> c_ephemeral c1 \<and> \<not> c_deleted c1
              then c1\<lparr>c_deleted := True, c_calls := c_calls c1 @ [CallDelete]\<rparr>
              else c1)"

definition for_clients :: "(clientV2 \<Rightarrow> clientV2) \<Rightarrow> 'b Channel \<Rightarrow> cstore \<Rightarrow> cstore" where
  "for_clients f c cs = fold (\<lambda>i cs. cs(i := f (cs i))) (c_clients c) cs"

definition Channel_doPause :: "bool \<Rightarrow> 'b Channel \<Rightarrow> cstore \<Rightarrow> go_error option \<times> 'b Channel \<times> cstore" where
  "Channel_doPause pause c cs =
     (None, c\<lparr>c_paused := pause\<rparr>, for_clients (if pause then client_Pause else client_UnPause) c cs)"

definition Channel_Pause :: "'b Channel \<Rightarrow> cstore \<Rightarrow> go_error option \<times> 'b Channel \<times> cstore" where
  "Channel_Pause c cs = Channel_doPause True c cs"

definition Channel_UnPause :: "'b Channel \<Rightarrow> cstore \<Rightarrow> go_error option \<times> 'b Channel \<times> cstore" where
  "Channel_UnPause c cs = Channel_doPause False c cs"

section \<open>Emptying, flushing and closing\<close>

definition Channel_Empty ::
    "'b BackendQueue \<Rightarrow> Options \<Rightarrow> 'b Channel \<Rightarrow> cstore \<Rightarrow> (go_error option \<times> 'b Channel \<times> cstore) option" where
  "Channel_Empty ops opts c cs = do {
     let c1 = Channel_initPQ opts c;
     let cs1 = for_clients client_Empty c1 cs;
     let c2 = c1\<lparr>c_memoryMsgChan := []\<rparr>;
     (err, b) <- backend_Empty ops (c_backend c2);
     Some (err, c2\<lparr>c_backend := b\<rparr>, cs1) }"

fun write_backend_all :: "'b BackendQueue \<Rightarrow> Message list \<Rightarrow> 'b backend \<Rightarrow> 'b backend option" where
  "write_backend_all ops [] b = Some b"
| "write_backend_all ops (m # ms) b = do {
     (_, b') <- writeMessageToBackend ops m b;
     write_backend_all ops ms b' }"

definition Channel_flush :: "'b BackendQueue \<Rightarrow> 'b Channel \<Rightarrow> 'b Channel option" where
  "Channel_flush ops c = do {
     let h = c_msgs c;
     b1 <- write_backend_all ops (map h (c_memoryMsgChan c)) (c_backend c);
     b2 <- write_backend_all ops (map (\<lambda>(i, r). h r) (c_inFlightMessages c)) b1;
     b3 <- write_backend_all ops (map (\<lambda>(i, it). h (it_Value (c_items c it))) (c_deferredMessages c)) b2;
     Some (c\<lparr>c_memoryMsgChan := [], c_backend := b3\<rparr>) }"

definition Channel_exit ::
    "'b BackendQueue \<Rightarrow> Options \<Rightarrow> bool \<Rightarrow> 'b Channel \<Rightarrow> cstore \<Rightarrow> (go_error option \<times> 'b Channel \<times> cstore) option" where
  "Channel_exit ops opts deleted c cs =
     (if c_exitFlag c then Some (Some ''exiting'', c, cs)
      else do {
        let c1 = c\<lparr>c_exitFlag := True, c_calls := (if deleted then c_calls c @ [CallNotify] else c_calls c)\<rparr>;
        let cs1 = for_clients client_Close c1 cs;
        (if deleted
         then do {
           (_, c2, cs2) <- Channel_Empty ops opts c1 cs1;
           (err, b) <- backend_Delete ops (c_backend c2);
           Some (err, c2\<lparr>c_backend := b\<rparr>, cs2) }
         else do {
           c2 <- Channel_flush ops c1;
           (err, b) <- backend_Close ops (c_backend c2);
           Some (err, c2\<lparr>c_backend := b\<rparr>, cs1) }) })"

definition Channel_Delete ::
    "'b BackendQueue \<Rightarrow> Options \<Rightarrow> 'b Channel \<Rightarrow> cstore \<Rightarrow> (go_error option \<times> 'b Channel \<times> cstore) option" where
  "Channel_Delete ops opts c cs = Channel_exit ops opts True c cs"

definition Channel_Close ::
    "'b BackendQueue \<Rightarrow> Options \<Rightarrow> 'b Channel \<Rightarrow> cstore \<Rightarrow> (go_error option \<times> 'b Channel \<times> cstore) option" where
  "Channel_Close ops opts c cs = Channel_exit ops opts False c cs"

section \<open>The scans of the two priority queues\<close>

text \<open>The loops end because every round takes an element off its heap; the fuel is the number
  of elements and one more.\<close>

fun deferred_loop ::
    "'b BackendQueue \<Rightarrow> i64 \<Rightarrow> nat \<Rightarrow> bool \<Rightarrow> 'b Channel \<Rightarrow> (bool \<times> 'b Channel) option" where
  "deferred_loop ops t 0 dirty c = None"
| "deferred_loop ops t (Suc n) dirty c = do {
     ((item, _), h, pq) <- pqueue_PeekAndShift t (c_items c, c_deferredPQ c);
     let c1 = c\<lparr>c_items := h, c_deferredPQ := pq\<rparr>;
     (case item of
        None \<Rightarrow> Some (dirty, c1)
      | Some it \<Rightarrow>
          let msg = it_Value (c_items c1 it) in
          (case popDeferredMessage (m_ID (c_msgs c1 msg)) c1 of
             (Inl _, c2) \<Rightarrow> Some (True, c2)
           | (Inr _, c2) \<Rightarrow> do {
               (_, c3) <- Channel_put ops msg c2;
               deferred_loop ops t n True c3 })) }"

definition processDeferredQueue :: "'b BackendQueue \<Rightarrow> i64 \<Rightarrow> 'b Channel \<Rightarrow> (bool \<times> 'b Channel) option" where
  "processDeferredQueue ops t c =
     (if Channel_Exiting c then Some (False, c)
      else deferred_loop ops t (Suc (length (dq_items (c_deferredPQ c)))) False c)"

fun inflight_loop ::
    "'b BackendQueue \<Rightarrow> i64 \<Rightarrow> nat \<Rightarrow> bool \<Rightarrow> 'b Channel \<Rightarrow> cstore \<Rightarrow> (bool \<times> 'b Channel \<times> cstore) option" where
  "inflight_loop ops t 0 dirty c cs = None"
| "inflight_loop ops t (Suc n) dirty c cs = do {
     ((msg, _), h, pq) <- pq_PeekAndShift t (c_msgs c, c_inFlightPQ c);
     let c1 = c\<lparr>c_msgs := h, c_inFlightPQ := pq\<rparr>;
     (case msg of
        None \<Rightarrow> Some (dirty, c1, cs)
      | Some r \<Rightarrow>
          (case popInFlightMessage (m_clientID (c_msgs c1 r)) (m_ID (c_msgs c1 r)) c1 of
             (Inl _, c2) \<Rightarrow> Some (True, c2, cs)
           | (Inr _, c2) \<Rightarrow> do {
               let c3 = c2\<lparr>c_timeoutCount := c_timeoutCount c2 + 1\<rparr>;
               let k = m_clientID (c_msgs c3 r);
               let cs1 = (if k \<in> set (c_clients c3) then cs(k := TimedOutMessage (cs k)) else cs);
               (_, c4) <- Channel_put ops r c3;
               inflight_loop ops t n True c4 cs1 })) }"

definition processInFlightQueue ::
    "'b BackendQueue \<Rightarrow> i64 \<Rightarrow> 'b Channel \<Rightarrow> cstore \<Rightarrow> (bool \<times> 'b Channel \<times> cstore) option" where
  "processInFlightQueue ops t c cs =
     (if Channel_Exiting c then Some (False, c, cs)
      else inflight_loop ops t (Suc (length (pq_elems (c_inFlightPQ c)))) False c cs)"

section \<open>Delivery\<close>

text \<open>
  The two receiving cases of the client's \<open>messagePump\<close> (\<open>nsqd/protocol_v2.go\<close>), as far as they
  concern the channel: a message is taken from the memory queue or from the backend, its attempts
  are counted, and it is put in flight for the client.
\<close>

definition recv_memory :: "'b Channel \<Rightarrow> (ref \<times> 'b Channel) option" where
  "recv_memory c = (case c_memoryMsgChan c of [] \<Rightarrow> None | r # rs \<Rightarrow> Some (r, c\<lparr>c_memoryMsgChan := rs\<rparr>))"

definition recv_backend :: "'b BackendQueue \<Rightarrow> 'b Channel \<Rightarrow> (bytes \<times> 'b Channel) option" where
  "recv_backend ops c = map_option (\<lambda>(d, b). (d, c\<lparr>c_backend := b\<rparr>)) (backend_Read ops (c_backend c))"

definition deliver :: "int \<Rightarrow> ref \<Rightarrow> int \<Rightarrow> int \<Rightarrow> 'b Channel \<Rightarrow> (go_error option \<times> 'b Channel) option" where
  "deliver now r clientID msgTimeout c =
     StartInFlightTimeout now r clientID msgTimeout
       (upd_msg r (\<lambda>m. m\<lparr>m_Attempts := m_Attempts m + 1\<rparr>) c)"

end
