(* ===== verification/Nsq_ChannelInv.thy ===== *)
theory Nsq_ChannelInv
  imports Nsq_Channel
begin

text \<open>
  The invariant of a channel: the in-flight map and the in-flight heap hold the same messages,
  every map key is the identifier of its message, every message knows its place in the heap,
  the deferred map and heap agree, and no message is in two places. Every operation keeps it,
  none of them panics, and each one moves messages between the places as it says.
\<close>

section \<open>The in-flight map and heap\<close>

definition flight_inv :: "mstore \<Rightarrow> (MessageID \<times> ref) list \<Rightarrow> inFlightPqueue \<Rightarrow> bool" where
  "flight_inv h fl pq \<longleftrightarrow> distinct (map fst fl) \<and> distinct (map snd fl) \<and>
     (\<forall>(i, r) \<in> set fl. m_ID (h r) = i) \<and> mset (pq_elems pq) = mset (map snd fl) \<and> pq_inv h pq"

lemma same_but_index_UNIV: "same_but_index R h h' \<Longrightarrow> same_but_index UNIV h h'"
  by (simp add: same_but_index_def)

lemma flight_set: "flight_inv h fl pq \<Longrightarrow> set (pq_elems pq) = snd ` set fl"
  unfolding flight_inv_def by (metis mset_eq_setD set_map)

lemma flight_map_of:
  "flight_inv h fl pq \<Longrightarrow> r \<in> snd ` set fl \<Longrightarrow> map_of fl (m_ID (h r)) = Some r"
  by (auto simp: flight_inv_def)

lemma flight_after_removal:
  assumes "flight_inv h fl pq" "map_of fl i = Some r" "removed h pq r h' pq'"
  shows "flight_inv h' (amap_del i fl) pq'"
proof -
  have d: "distinct (map fst fl)" using assms(1) by (simp add: flight_inv_def)
  have "mset (map snd fl) = add_mset r (mset (map snd (amap_del i fl)))"
    using mset_amap_del [OF d assms(2)] by (metis image_mset_add_mset mset_map snd_conv)
  then have "mset (pq_elems pq') = mset (map snd (amap_del i fl))"
    using assms(1,3) by (simp add: flight_inv_def removed_def)
  moreover have "m_ID (h' x) = m_ID (h x)" for x
    using assms(3) same_but_index_fields(1) by (auto simp: removed_def)
  ultimately show ?thesis using assms
    by (auto simp: flight_inv_def removed_def set_amap_del distinct_amap_del distinct_amap_del_snd)
qed

lemma flight_remove:
  assumes "flight_inv h fl pq" "map_of fl i = Some r"
  shows "\<exists>h' pq'. m_index (h r) \<noteq> -1 \<and> pq_Remove (m_index (h r)) (h, pq) = Some (r, h', pq') \<and>
    flight_inv h' (amap_del i fl) pq' \<and> same_but_index UNIV h h'"
proof -
  have inv: "pq_inv h pq" using assms(1) by (simp add: flight_inv_def)
  have "r \<in> set (pq_elems pq)"
    using flight_set [OF assms(1)] assms(2) by (force dest: map_of_SomeD)
  then obtain k where k: "k < length (pq_elems pq)" "pq_elems pq ! k = r"
    by (auto simp: in_set_conv_nth)
  then have ix: "m_index (h r) = int k" using pq_inv_index [OF inv] by auto
  obtain h' pq' where "pq_Remove (int k) (h, pq) = Some (r, h', pq')" "removed h pq r h' pq'"
    using pq_Remove_spec [OF inv k(1)] k(2) by auto
  then show ?thesis using ix flight_after_removal [OF assms]
    by (auto simp: removed_def intro: same_but_index_UNIV)
qed

lemma flight_insert:
  assumes "flight_inv h fl pq" "r \<notin> snd ` set fl" "m_ID (h r) \<notin> fst ` set fl"
  shows "\<exists>h' pq'. pq_Push r (h, pq) = Some (h', pq') \<and> flight_inv h' (fl @ [(m_ID (h r), r)]) pq' \<and>
    same_but_index UNIV h h'"
proof -
  have inv: "pq_inv h pq" "r \<notin> set (pq_elems pq)"
    using assms(1,2) flight_set [OF assms(1)] by (simp_all add: flight_inv_def)
  obtain h' pq' where p: "pq_Push r (h, pq) = Some (h', pq')" "pq_inv h' pq'"
    "mset (pq_elems pq') = add_mset r (mset (pq_elems pq))" "same_but_index UNIV h h'"
    using pq_Push_spec [OF inv] same_but_index_UNIV by blast
  have "m_ID (h' x) = m_ID (h x)" for x using same_but_index_fields(1) [OF p(4)] .
  then show ?thesis using assms p by (auto simp: flight_inv_def)
qed

lemma flight_shift_due:
  assumes "flight_inv h fl pq" "pq_PeekAndShift t (h, pq) = Some ((Some x, d), h', pq')"
  shows "map_of fl (m_ID (h x)) = Some x \<and> flight_inv h' (amap_del (m_ID (h x)) fl) pq' \<and>
    pri_of h x \<le> sint t \<and> same_but_index UNIV h h'"
proof -
  have inv: "pq_inv h pq" using assms(1) by (simp add: flight_inv_def)
  have "\<not> (\<forall>r \<in> set (pq_elems pq). sint t < pri_of h r)"
    using pq_PeekAndShift_none [OF inv, of t] assms(2) by auto
  then obtain r where r: "r \<in> set (pq_elems pq)" "pri_of h r \<le> sint t" by force
  obtain y h2 pq2 where y: "pq_PeekAndShift t (h, pq) = Some ((Some y, 0), h2, pq2)"
    "y \<in> set (pq_elems pq)" "\<forall>z \<in> set (pq_elems pq). pri_of h y \<le> pri_of h z" "removed h pq y h2 pq2"
    using pq_PeekAndShift_some [OF inv r] by blast
  then have x: "x \<in> snd ` set fl" "removed h pq x h' pq'" "pri_of h x \<le> sint t"
    using assms(2) flight_set [OF assms(1)] r order_trans by auto
  have m: "map_of fl (m_ID (h x)) = Some x" using flight_map_of [OF assms(1) x(1)] .
  then show ?thesis using flight_after_removal [OF assms(1) m x(2)] x(2,3)
    by (auto simp: removed_def intro: same_but_index_UNIV)
qed

lemma flight_shift_total:
  assumes "flight_inv h fl pq"
  shows "\<exists>x d h' pq'. pq_PeekAndShift t (h, pq) = Some ((x, d), h', pq') \<and>
    (x = None \<longrightarrow> h' = h \<and> pq' = pq \<and> (\<forall>r \<in> snd ` set fl. sint t < pri_of h r))"
proof -
  have inv: "pq_inv h pq" using assms by (simp add: flight_inv_def)
  show ?thesis
  proof (cases "\<forall>r \<in> set (pq_elems pq). sint t < pri_of h r")
    case True
    then show ?thesis using pq_PeekAndShift_none [OF inv True] flight_set [OF assms] by auto
  next
    case False
    then obtain r where "r \<in> set (pq_elems pq)" "pri_of h r \<le> sint t" by force
    then show ?thesis using pq_PeekAndShift_some [OF inv] by blast
  qed
qed

text \<open>Changes of a message that is not in flight are invisible.\<close>

lemma pq_inv_cong:
  assumes "pq_inv h pq" "\<And>r. r \<in> set (pq_elems pq) \<Longrightarrow> h' r = h r"
  shows "pq_inv h' pq"
proof -
  have "index_ok h' (pq_elems pq)" using assms by (simp add: pq_inv_def index_ok_def)
  moreover have "heap_upto (pri_of h') (pq_elems pq) (length (pq_elems pq)) =
      heap_upto (pri_of h) (pq_elems pq) (length (pq_elems pq))"
    using assms(2) by (intro heap_upto_cong) (simp add: pri_of_def)
  ultimately show ?thesis using assms(1) by (simp add: pq_inv_def)
qed

lemma flight_upd:
  assumes "flight_inv h fl pq" "r \<notin> snd ` set fl"
  shows "flight_inv (h(r := m)) fl pq"
proof -
  have "pq_inv h pq" using assms(1) by (simp add: flight_inv_def)
  moreover have "(h(r := m)) x = h x" if "x \<in> set (pq_elems pq)" for x
    using that assms flight_set [OF assms(1)] by (metis fun_upd_other)
  ultimately have "pq_inv (h(r := m)) pq" by (rule pq_inv_cong)
  moreover have "m_ID ((h(r := m)) x) = i" if "(i, x) \<in> set fl" for i x
  proof -
    have "x \<noteq> r" using that assms(2) by force
    then show ?thesis using that assms(1) by (auto simp: flight_inv_def)
  qed
  ultimately show ?thesis using assms(1) unfolding flight_inv_def by fast
qed

section \<open>The deferred map and heap\<close>

definition defer_inv :: "mstore \<Rightarrow> ref istore \<Rightarrow> (MessageID \<times> nat) list \<Rightarrow> PriorityQueue \<Rightarrow> bool" where
  "defer_inv h its df pq \<longleftrightarrow> distinct (map fst df) \<and> distinct (map snd df) \<and>
     (\<forall>(i, it) \<in> set df. m_ID (h (it_Value (its it))) = i) \<and>
     mset (dq_items pq) = mset (map snd df) \<and> dpq_inv its pq"

lemma defer_set: "defer_inv h its df pq \<Longrightarrow> set (dq_items pq) = snd ` set df"
  unfolding defer_inv_def by (metis mset_eq_setD set_map)

lemma defer_map_of:
  "defer_inv h its df pq \<Longrightarrow> x \<in> snd ` set df \<Longrightarrow> map_of df (m_ID (h (it_Value (its x)))) = Some x"
  by (auto simp: defer_inv_def)

lemma defer_store: "defer_inv h its df pq \<Longrightarrow> \<forall>r \<in> (\<lambda>x. it_Value (its (snd x))) ` set df. m_ID (h' r) = m_ID (h r) \<Longrightarrow>
    defer_inv h' its df pq"
  by (fastforce simp: defer_inv_def)

lemma defer_insert:
  assumes "defer_inv h its df pq" "x \<notin> snd ` set df" "m_ID (h (it_Value (its x))) \<notin> fst ` set df"
  shows "\<exists>its' pq'. heap_Push x (its, pq) = Some (its', pq') \<and>
    defer_inv h its' (df @ [(m_ID (h (it_Value (its x))), x)]) pq' \<and> same_items its its'"
proof -
  have "dpq_inv its pq" using assms(1) by (simp add: defer_inv_def)
  from heap_Push_spec [OF this] obtain its' pq' where p: "heap_Push x (its, pq) = Some (its', pq')"
    "dpq_inv its' pq'" "mset (dq_items pq') = add_mset x (mset (dq_items pq))" "same_items its its'" by blast
  have "it_Value (its' y) = it_Value (its y)" for y using p(4) by (simp add: same_items_def)
  then show ?thesis using assms p by (auto simp: defer_inv_def)
qed

text \<open>A fresh item does not disturb the heap.\<close>

lemma dpq_inv_cong:
  assumes "dpq_inv its pq" "\<And>x. x \<in> set (dq_items pq) \<Longrightarrow> its' x = its x"
  shows "dpq_inv its' pq"
proof -
  have "heap_upto (prio_of its') (dq_items pq) (length (dq_items pq)) =
      heap_upto (prio_of its) (dq_items pq) (length (dq_items pq))"
    using assms(2) by (intro heap_upto_cong) (simp add: prio_of_def)
  with assms(1) show ?thesis by (simp add: dpq_inv_def)
qed

lemma defer_upd:
  assumes "defer_inv h its df pq" "x \<notin> snd ` set df"
  shows "defer_inv h (its(x := it)) df pq"
proof -
  have "dpq_inv its pq" using assms(1) by (simp add: defer_inv_def)
  moreover have "(its(x := it)) y = its y" if "y \<in> set (dq_items pq)" for y
    using that assms defer_set [OF assms(1)] by (metis fun_upd_other)
  ultimately have "dpq_inv (its(x := it)) pq" by (rule dpq_inv_cong)
  moreover have "m_ID (h (it_Value ((its(x := it)) y))) = i" if "(i, y) \<in> set df" for i y
  proof -
    have "y \<noteq> x" using that assms(2) by force
    then show ?thesis using that assms(1) by (auto simp: defer_inv_def)
  qed
  ultimately show ?thesis using assms(1) unfolding defer_inv_def by fast
qed

lemma defer_shift:
  assumes "defer_inv h its df pq"
  shows "(\<exists>d. pqueue_PeekAndShift t (its, pq) = Some ((None, d), its, pq) \<and>
       (\<forall>x \<in> snd ` set df. sint t < prio_of its x)) \<or>
    (\<exists>x its' pq'. pqueue_PeekAndShift t (its, pq) = Some ((Some x, 0), its', pq') \<and>
       map_of df (m_ID (h (it_Value (its x)))) = Some x \<and> prio_of its x \<le> sint t \<and>
       defer_inv h its' (amap_del (m_ID (h (it_Value (its x)))) df) pq' \<and> same_items its its')"
proof -
  have inv: "dpq_inv its pq" "case (its, pq) of (its, pq) \<Rightarrow> dpq_inv its pq"
    using assms by (simp_all add: defer_inv_def)
  show ?thesis
  proof (cases "\<forall>x \<in> set (dq_items pq). sint t < prio_of its x")
    case True
    then show ?thesis using dpq.shift_idle [OF inv(2), of t] defer_set [OF assms] by auto
  next
    case False
    let ?x = "dq_items pq ! 0"
    have ne: "dq_items pq \<noteq> []" using False by auto
    have "\<forall>y \<in> set (dq_items pq). prio_of its ?x \<le> prio_of its y"
      using inv(1) heap_root_least [of "prio_of its" "dq_items pq"] by (auto simp: dpq_inv_def in_set_conv_nth)
    then have due: "prio_of its ?x \<le> sint t" using False by (meson not_less order_trans)
    obtain its' pq' where r: "heap_Remove 0 (its, pq) = Some (?x, its', pq')" "dpq_inv its' pq'"
      "mset (dq_items pq') = mset (dq_items pq) - {#?x#}" "same_items its its'"
      using heap_Remove_spec [OF inv(1) ne] by blast
    then have sh: "pqueue_PeekAndShift t (its, pq) = Some ((Some ?x, 0), its', pq')"
      using ne due by (simp add: pqueue_PeekAndShift_def pqueue_Len_def Let_def prio_of_def)
    let ?i = "m_ID (h (it_Value (its ?x)))"
    have m: "map_of df ?i = Some ?x"
      using defer_map_of [OF assms] defer_set [OF assms] ne by (metis length_greater_0_conv nth_mem)
    have d: "distinct (map fst df)" using assms by (simp add: defer_inv_def)
    have "mset (map snd df) = add_mset ?x (mset (map snd (amap_del ?i df)))"
      using mset_amap_del [OF d m] by (metis image_mset_add_mset mset_map snd_conv)
    then have ms: "mset (dq_items pq') = mset (map snd (amap_del ?i df))"
      using assms r(3) by (simp add: defer_inv_def)
    have "it_Value (its' y) = it_Value (its y)" for y using r(4) by (simp add: same_items_def)
    then have "defer_inv h its' (amap_del ?i df) pq'"
      using assms r(2) ms
      by (auto simp: defer_inv_def set_amap_del distinct_amap_del distinct_amap_del_snd)
    then show ?thesis using sh m due r(4) by blast
  qed
qed

section \<open>The channel\<close>

text \<open>The references to the messages a channel holds in memory: waiting, in flight, deferred.\<close>

definition deferred_refs :: "'b Channel \<Rightarrow> ref list" where
  "deferred_refs c = map (\<lambda>(i, it). it_Value (c_items c it)) (c_deferredMessages c)"

definition held :: "'b Channel \<Rightarrow> ref list" where
  "held c = c_memoryMsgChan c @ map snd (c_inFlightMessages c) @ deferred_refs c"

definition chan_inv :: "'b Channel \<Rightarrow> bool" where
  "chan_inv c \<longleftrightarrow>
     distinct (held c) \<and> (\<forall>r \<in> set (held c). r < c_nextMsg c \<and> wf_Message (c_msgs c r)) \<and>
     flight_inv (c_msgs c) (c_inFlightMessages c) (c_inFlightPQ c) \<and>
     defer_inv (c_msgs c) (c_items c) (c_deferredMessages c) (c_deferredPQ c) \<and>
     (\<forall>x \<in> snd ` set (c_deferredMessages c). x < c_nextItem c) \<and>
     length (c_memoryMsgChan c) \<le> c_memCap c"

lemma chan_inv_new: "chan_inv (NewChannel opts t ch b)"
  using pq_inv_new [of "pqSize opts"] dpq_inv_new [of "pqSize opts"]
  by (simp add: chan_inv_def NewChannel_def Channel_initPQ_def held_def deferred_refs_def Let_def
      flight_inv_def defer_inv_def newInFlightPqueue_def pqueue_New_def pqSize_def)

text \<open>
  Taking a message out of flight: \<open>popInFlightMessage\<close> and \<open>removeFromInFlightPQ\<close> together. Only
  the in-flight fields and the \<open>index\<close> fields of messages change.
\<close>

definition unflight :: "MessageID \<Rightarrow> mstore \<Rightarrow> inFlightPqueue \<Rightarrow> 'b Channel \<Rightarrow> 'b Channel" where
  "unflight i h pq c = c\<lparr>c_inFlightMessages := amap_del i (c_inFlightMessages c), c_msgs := h, c_inFlightPQ := pq\<rparr>"

lemma popInFlight_cases:
  "popInFlightMessage k i c =
     (case map_of (c_inFlightMessages c) i of
        None \<Rightarrow> (Inl ''ID not in flight'', c)
      | Some r \<Rightarrow> if m_clientID (c_msgs c r) = k
                 then (Inr r, c\<lparr>c_inFlightMessages := amap_del i (c_inFlightMessages c)\<rparr>)
                 else (Inl ''client does not own message'', c))"
  by (simp add: popInFlightMessage_def split: option.split)

lemma wf_same_but_index: "same_but_index R h h' \<Longrightarrow> wf_Message (h' r) = wf_Message (h r)"
  by (simp add: wf_Message_def same_but_index_fields)

lemma defer_same_but_index:
  "same_but_index R h h' \<Longrightarrow> defer_inv h its df pq \<Longrightarrow> defer_inv h' its df pq"
  by (erule defer_store) (simp add: same_but_index_fields)

lemma held_unflight:
  assumes "chan_inv c" "map_of (c_inFlightMessages c) i = Some r"
  shows "mset (held c) = add_mset r (mset (held (unflight i h pq c)))"
proof -
  have "distinct (map fst (c_inFlightMessages c))" using assms(1) by (simp add: chan_inv_def flight_inv_def)
  from mset_amap_del [OF this assms(2)]
  have "mset (map snd (c_inFlightMessages c)) = add_mset r (mset (map snd (amap_del i (c_inFlightMessages c))))"
    by (metis image_mset_add_mset mset_map snd_conv)
  then show ?thesis by (simp add: held_def deferred_refs_def unflight_def)
qed

lemma take_out_of_flight:
  assumes inv: "chan_inv c" and i: "map_of (c_inFlightMessages c) i = Some r"
  shows "\<exists>h pq. removeFromInFlightPQ r (c\<lparr>c_inFlightMessages := amap_del i (c_inFlightMessages c)\<rparr>) =
      Some (unflight i h pq c) \<and> chan_inv (unflight i h pq c) \<and> same_but_index UNIV (c_msgs c) h \<and>
      r \<notin> set (held (unflight i h pq c)) \<and> r < c_nextMsg c \<and> wf_Message (h r) \<and> m_ID (h r) = i"
proof -
  have fl: "flight_inv (c_msgs c) (c_inFlightMessages c) (c_inFlightPQ c)" using inv by (simp add: chan_inv_def)
  obtain h pq where p: "m_index (c_msgs c r) \<noteq> -1"
    "pq_Remove (m_index (c_msgs c r)) (c_msgs c, c_inFlightPQ c) = Some (r, h, pq)"
    "flight_inv h (amap_del i (c_inFlightMessages c)) pq" "same_but_index UNIV (c_msgs c) h"
    using flight_remove [OF fl i] by blast
  let ?c = "unflight i h pq c"
  have ms: "mset (held c) = add_mset r (mset (held ?c))" by (rule held_unflight [OF inv i])
  have r: "r \<in> set (held c)" using ms by (metis set_mset_mset union_single_eq_member)
  have d: "distinct (held ?c)" "r \<notin> set (held ?c)"
    using inv ms by (auto simp: chan_inv_def) (metis distinct.simps(2) mset.simps(2) mset_eq_imp_distinct_iff)+
  have sub: "set (held ?c) \<subseteq> set (held c)" using ms by (metis insert_subset mset_eq_setD set_mset_add_mset_insert set_mset_mset subset_insertI)
  have "chan_inv ?c"
    using inv d(1) sub p(3) defer_same_but_index [OF p(4)] wf_same_but_index [OF p(4)]
    by (auto simp: chan_inv_def unflight_def)
  moreover have "m_ID (h r) = i"
    using fl i same_but_index_fields(1) [OF p(4), of r] by (auto simp: flight_inv_def dest: map_of_SomeD)
  moreover have "removeFromInFlightPQ r (c\<lparr>c_inFlightMessages := amap_del i (c_inFlightMessages c)\<rparr>) = Some ?c"
    using p(1,2) by (simp add: removeFromInFlightPQ_def unflight_def)
  moreover have "r < c_nextMsg c" "wf_Message (h r)"
    using inv r wf_same_but_index [OF p(4)] by (auto simp: chan_inv_def)
  ultimately show ?thesis using p(4) d(2) by blast
qed

text \<open>Putting a message in flight: \<open>pushInFlightMessage\<close> and \<open>addToInFlightPQ\<close> together.\<close>

definition inflight :: "ref \<Rightarrow> mstore \<Rightarrow> inFlightPqueue \<Rightarrow> 'b Channel \<Rightarrow> 'b Channel" where
  "inflight r h pq c = c\<lparr>c_inFlightMessages := c_inFlightMessages c @ [(m_ID (c_msgs c r), r)],
     c_msgs := h, c_inFlightPQ := pq\<rparr>"

lemma mset_held_inflight [simp]: "mset (held (inflight r h pq c)) = add_mset r (mset (held c))"
  by (simp add: held_def inflight_def deferred_refs_def)

text \<open>A message the channel holds nowhere, in its store.\<close>

definition loose :: "ref \<Rightarrow> 'b Channel \<Rightarrow> bool" where
  "loose r c \<longleftrightarrow> r \<notin> set (held c) \<and> r < c_nextMsg c \<and> wf_Message (c_msgs c r)"

lemma put_in_flight:
  assumes inv: "chan_inv c" and r: "loose r c"
    and i: "m_ID (c_msgs c r) \<notin> fst ` set (c_inFlightMessages c)"
  shows "\<exists>c1 h pq. pushInFlightMessage r c = (None, c1) \<and> addToInFlightPQ r c1 = Some (inflight r h pq c) \<and>
    chan_inv (inflight r h pq c) \<and> same_but_index UNIV (c_msgs c) h"
proof -
  let ?i = "m_ID (c_msgs c r)"
  have fl: "flight_inv (c_msgs c) (c_inFlightMessages c) (c_inFlightPQ c)" using inv by (simp add: chan_inv_def)
  have "r \<notin> snd ` set (c_inFlightMessages c)" using r by (simp add: loose_def held_def)
  then obtain h pq where p: "pq_Push r (c_msgs c, c_inFlightPQ c) = Some (h, pq)"
    "flight_inv h (c_inFlightMessages c @ [(?i, r)]) pq" "same_but_index UNIV (c_msgs c) h"
    using flight_insert [OF fl _ i] by blast
  have m: "map_of (c_inFlightMessages c) ?i = None" using i by (simp add: map_of_eq_None_iff)
  have "distinct (r # held c)" using inv r by (simp add: chan_inv_def loose_def)
  then have d: "distinct (held (inflight r h pq c))"
    using mset_eq_imp_distinct_iff [of "held (inflight r h pq c)" "r # held c"] by simp
  have s: "set (held (inflight r h pq c)) = insert r (set (held c))"
    using mset_held_inflight [of r h pq c] by (metis set_mset_add_mset_insert set_mset_mset)
  have "chan_inv (inflight r h pq c)"
    using inv r d s p(2) defer_same_but_index [OF p(3)] wf_same_but_index [OF p(3)]
    by (auto simp: chan_inv_def loose_def inflight_def)
  then show ?thesis using p m i
    by (intro exI) (auto simp: pushInFlightMessage_def addToInFlightPQ_def inflight_def amap_put_new Let_def)
qed

lemma chan_inv_upd_msg:
  assumes "chan_inv c" "loose r c" "\<And>m. m_ID (f m) = m_ID m"
  shows "chan_inv (upd_msg r f c)" "loose r (upd_msg r f c)" "held (upd_msg r f c) = held c"
proof -
  have h: "held (upd_msg r f c) = held c" by (simp add: held_def upd_msg_def deferred_refs_def)
  have r: "r \<notin> snd ` set (c_inFlightMessages c)" "r \<notin> set (deferred_refs c)"
    using assms(2) by (simp_all add: loose_def held_def)
  have fl: "flight_inv (c_msgs (upd_msg r f c)) (c_inFlightMessages c) (c_inFlightPQ c)"
    using assms(1) flight_upd [OF _ r(1)] by (simp add: chan_inv_def upd_msg_def)
  have df: "defer_inv (c_msgs (upd_msg r f c)) (c_items c) (c_deferredMessages c) (c_deferredPQ c)"
    by (rule defer_store [of "c_msgs c"]) (use assms in \<open>simp_all add: chan_inv_def upd_msg_def\<close>)
  have w: "wf_Message (c_msgs (upd_msg r f c) x) = wf_Message (c_msgs c x)" for x
    using assms(3) by (simp add: upd_msg_def wf_Message_def)
  show "chan_inv (upd_msg r f c)"
    using assms(1) fl df h w by (auto simp: chan_inv_def) (auto simp: upd_msg_def)
  show "loose r (upd_msg r f c)" using assms(2) h w by (simp add: loose_def) (simp add: upd_msg_def)
  show "held (upd_msg r f c) = held c" by (rule h)
qed

lemma chan_inv_counters:
  "chan_inv (c\<lparr>c_messageCount := n\<rparr>) = chan_inv c" "chan_inv (c\<lparr>c_requeueCount := n\<rparr>) = chan_inv c"
  "chan_inv (c\<lparr>c_timeoutCount := n\<rparr>) = chan_inv c" "chan_inv (c\<lparr>c_latency := l\<rparr>) = chan_inv c"
  "chan_inv (c\<lparr>c_calls := ca\<rparr>) = chan_inv c" "chan_inv (c\<lparr>c_backend := b\<rparr>) = chan_inv c"
  "loose r (c\<lparr>c_requeueCount := n\<rparr>) = loose r c" "loose r (c\<lparr>c_timeoutCount := n\<rparr>) = loose r c"
  "loose r (c\<lparr>c_messageCount := n\<rparr>) = loose r c"
  "held (c\<lparr>c_messageCount := n\<rparr>) = held c" "held (c\<lparr>c_requeueCount := n\<rparr>) = held c"
  "held (c\<lparr>c_timeoutCount := n\<rparr>) = held c" "held (c\<lparr>c_latency := l\<rparr>) = held c"
  "held (c\<lparr>c_calls := ca\<rparr>) = held c" "held (c\<lparr>c_backend := b\<rparr>) = held c"
  by (simp_all add: chan_inv_def loose_def held_def deferred_refs_def)

declare chan_inv_counters [simp]

text \<open>Deferring a message.\<close>

definition deferred :: "ref \<Rightarrow> int \<Rightarrow> ref istore \<Rightarrow> PriorityQueue \<Rightarrow> 'b Channel \<Rightarrow> 'b Channel" where
  "deferred r t its pq c = c\<lparr>c_deferredMessages := c_deferredMessages c @ [(m_ID (c_msgs c r), c_nextItem c)],
     c_items := its, c_nextItem := c_nextItem c + 1, c_deferredPQ := pq\<rparr>"

lemma defer_message:
  assumes inv: "chan_inv c" and r: "loose r c"
    and i: "m_ID (c_msgs c r) \<notin> fst ` set (c_deferredMessages c)"
  shows "\<exists>its pq. StartDeferredTimeout now r timeout c = Some (None, deferred r (now + timeout) its pq c) \<and>
    chan_inv (deferred r (now + timeout) its pq c) \<and>
    mset (held (deferred r (now + timeout) its pq c)) = add_mset r (mset (held c)) \<and>
    it_Value (its (c_nextItem c)) = r \<and> it_Priority (its (c_nextItem c)) = UnixNano (now + timeout)"
proof -
  let ?i = "m_ID (c_msgs c r)"
  let ?x = "c_nextItem c"
  let ?its = "(c_items c)(?x := \<lparr>it_Value = r, it_Priority = UnixNano (now + timeout), it_Index = 0\<rparr>)"
  have x: "?x \<notin> snd ` set (c_deferredMessages c)" using inv by (auto simp: chan_inv_def)
  have df: "defer_inv (c_msgs c) ?its (c_deferredMessages c) (c_deferredPQ c)"
    using inv defer_upd [OF _ x] by (simp add: chan_inv_def)
  obtain its pq where p: "heap_Push ?x (?its, c_deferredPQ c) = Some (its, pq)"
    "defer_inv (c_msgs c) its (c_deferredMessages c @ [(?i, ?x)]) pq" "same_items ?its its"
    using defer_insert [OF df x] i by auto
  let ?c = "deferred r (now + timeout) its pq c"
  have v: "it_Value (its y) = (if y = ?x then r else it_Value (c_items c y))"
    "it_Priority (its ?x) = UnixNano (now + timeout)" for y
    using p(3) by (simp_all add: same_items_def)
  have "map (\<lambda>(i, it). it_Value (its it)) (c_deferredMessages c) = deferred_refs c"
    using x v by (force simp: deferred_refs_def)
  then have dr: "deferred_refs ?c = deferred_refs c @ [r]"
    using v by (simp add: deferred_refs_def deferred_def)
  then have hd: "held ?c = held c @ [r]" by (simp add: held_def deferred_def)
  have "chan_inv ?c"
    using inv r hd p(2) by (auto simp: chan_inv_def loose_def) (auto simp: deferred_def)
  moreover have "map_of (c_deferredMessages c) ?i = None" using i by (simp add: map_of_eq_None_iff)
  then have "StartDeferredTimeout now r timeout c = Some (None, ?c)"
    using p(1) i
    by (simp add: StartDeferredTimeout_def pushDeferredMessage_def addToDeferredPQ_def deferred_def
        amap_put_new Let_def)
  ultimately show ?thesis using hd v by (intro exI [of _ its] exI [of _ pq]) simp
qed

end
