(* ===== verification/Nsq_ChannelTotal.thy ===== *)
theory Nsq_ChannelTotal
  imports Nsq_ChannelInv
begin

text \<open>
  No message is lost. \<open>chan_total\<close> is the multiset of all messages a channel is
  responsible for: waiting in memory, in flight, deferred, and on disk. Each operation changes it
  by exactly what it says: publishing adds one message, finishing removes one, and everything
  else (delivery, requeueing, touching, the scans for timeouts) moves messages without changing
  it. This is proved once for every backend that is a FIFO queue (locale \<open>backend_fifo\<close>).
\<close>

type_synonym identity = "MessageID \<times> bytes \<times> i64"

definition ident :: "Message \<Rightarrow> identity" where
  "ident m = (m_ID m, m_Body m, m_Timestamp m)"

definition disk_ident :: "bytes \<Rightarrow> identity" where
  "disk_ident d = (case decodeMessage d of Inr m \<Rightarrow> ident m | Inl _ \<Rightarrow> ident zero_Message)"

definition disk_part :: "('b \<Rightarrow> bytes list) \<Rightarrow> 'b backend \<Rightarrow> bytes list" where
  "disk_part cont bk = (case bk of DummyBackend \<Rightarrow> [] | Backend b \<Rightarrow> cont b)"

definition chan_total :: "('b \<Rightarrow> bytes list) \<Rightarrow> 'b Channel \<Rightarrow> identity multiset" where
  "chan_total cont c = mset (map (\<lambda>r. ident (c_msgs c r)) (held c)) +
     mset (map disk_ident (disk_part cont (c_backend c)))"

definition chan_accepts :: "('b \<Rightarrow> bytes \<Rightarrow> bool) \<Rightarrow> 'b Channel \<Rightarrow> Message \<Rightarrow> bool" where
  "chan_accepts acc c m = (case c_backend c of DummyBackend \<Rightarrow> False | Backend b \<Rightarrow> acc b (encodeMessage m))"

definition chan_ok :: "('b \<Rightarrow> bool) \<Rightarrow> ('b \<Rightarrow> bytes list) \<Rightarrow> ('b \<Rightarrow> bytes \<Rightarrow> bool) \<Rightarrow> 'b Channel \<Rightarrow> bool" where
  "chan_ok bi cont acc c \<longleftrightarrow> chan_inv c \<and>
     (case c_backend c of
        DummyBackend \<Rightarrow> False
      | Backend b \<Rightarrow> bi b \<and> (\<forall>d \<in> set (cont b). acc b d \<and> minValidMsgLength \<le> length d)) \<and>
     (\<forall>r \<in> set (held c). chan_accepts acc c (c_msgs c r))"

lemma ident_same: "same_but_index R h h' \<Longrightarrow> ident (h' r) = ident (h r)"
  by (simp add: ident_def same_but_index_fields)

lemma encode_same: "same_but_index R h h' \<Longrightarrow> encodeMessage (h' r) = encodeMessage (h r)"
  by (simp add: encodeMessage_eq same_but_index_fields)

lemma disk_ident_encode [simp]: "wf_Message m \<Longrightarrow> disk_ident (encodeMessage m) = ident m"
  by (simp add: disk_ident_def decode_encode ident_def wire_part_def)

lemma total_held:
  assumes "mset (held c') = add_mset r (mset (held c))" "c_backend c' = c_backend c"
    "\<And>x. ident (c_msgs c' x) = ident (c_msgs c x)"
  shows "chan_total cont c' = add_mset (ident (c_msgs c r)) (chan_total cont c)"
proof -
  have "(\<lambda>x. ident (c_msgs c' x)) = (\<lambda>x. ident (c_msgs c x))" using assms(3) by (rule ext)
  then show ?thesis unfolding chan_total_def mset_map assms(1,2) by simp
qed

lemma total_unflight:
  assumes "chan_inv c" "map_of (c_inFlightMessages c) i = Some r" "same_but_index UNIV (c_msgs c) h"
  shows "chan_total cont c = add_mset (ident (c_msgs c r)) (chan_total cont (unflight i h pq c))"
proof -
  have m: "c_msgs (unflight i h pq c) = h" "c_backend c = c_backend (unflight i h pq c)"
    by (simp_all add: unflight_def)
  have "ident (c_msgs c x) = ident (c_msgs (unflight i h pq c) x)" for x
    unfolding m(1) by (rule ident_same [OF assms(3), symmetric])
  from total_held [OF held_unflight [OF assms(1,2)] m(2) this] show ?thesis
    unfolding m(1) ident_same [OF assms(3)] .
qed

lemma total_inflight:
  assumes "same_but_index UNIV (c_msgs c) h"
  shows "chan_total cont (inflight r h pq c) = add_mset (ident (c_msgs c r)) (chan_total cont c)"
proof -
  have m: "c_msgs (inflight r h pq c) = h" "c_backend (inflight r h pq c) = c_backend c"
    by (simp_all add: inflight_def)
  have "ident (c_msgs (inflight r h pq c) x) = ident (c_msgs c x)" for x
    unfolding m(1) by (rule ident_same [OF assms])
  from total_held [OF mset_held_inflight m(2) this] show ?thesis .
qed

lemma total_simps [simp]:
  "chan_total cont (c\<lparr>c_messageCount := n\<rparr>) = chan_total cont c"
  "chan_total cont (c\<lparr>c_requeueCount := n\<rparr>) = chan_total cont c"
  "chan_total cont (c\<lparr>c_timeoutCount := n\<rparr>) = chan_total cont c"
  "chan_total cont (c\<lparr>c_latency := l\<rparr>) = chan_total cont c"
  "chan_total cont (c\<lparr>c_calls := ca\<rparr>) = chan_total cont c"
  "chan_accepts acc (c\<lparr>c_messageCount := n\<rparr>) = chan_accepts acc c"
  "chan_accepts acc (c\<lparr>c_requeueCount := n\<rparr>) = chan_accepts acc c"
  "chan_accepts acc (c\<lparr>c_timeoutCount := n\<rparr>) = chan_accepts acc c"
  "chan_accepts acc (c\<lparr>c_latency := l\<rparr>) = chan_accepts acc c"
  "chan_accepts acc (c\<lparr>c_calls := ca\<rparr>) = chan_accepts acc c"
  "chan_accepts acc (unflight i h pq c) = chan_accepts acc c"
  "chan_accepts acc (inflight r h pq c) = chan_accepts acc c"
  "chan_accepts acc (deferred r t its dpq c) = chan_accepts acc c"
  "chan_accepts acc (upd_msg r f c) = chan_accepts acc c"
  by (simp_all add: chan_total_def chan_accepts_def fun_eq_iff unflight_def inflight_def deferred_def upd_msg_def)

lemma ok_simps [simp]:
  "chan_ok bi cont acc (c\<lparr>c_messageCount := n\<rparr>) = chan_ok bi cont acc c"
  "chan_ok bi cont acc (c\<lparr>c_requeueCount := n\<rparr>) = chan_ok bi cont acc c"
  "chan_ok bi cont acc (c\<lparr>c_timeoutCount := n\<rparr>) = chan_ok bi cont acc c"
  "chan_ok bi cont acc (c\<lparr>c_latency := l\<rparr>) = chan_ok bi cont acc c"
  "chan_ok bi cont acc (c\<lparr>c_calls := ca\<rparr>) = chan_ok bi cont acc c"
  by (simp_all add: chan_ok_def)

lemma chan_ok_inv: "chan_ok bi cont acc c \<Longrightarrow> chan_inv c"
  by (simp add: chan_ok_def)

text \<open>Keys of the in-flight and deferred maps are identifiers of messages of the channel.\<close>

lemma held_key_total:
  "r \<in> set (held c) \<Longrightarrow> m_ID (c_msgs c r) \<in># image_mset fst (chan_total cont c)"
proof -
  assume "r \<in> set (held c)"
  then have "ident (c_msgs c r) \<in># chan_total cont c" by (simp add: chan_total_def)
  then have "fst (ident (c_msgs c r)) \<in># image_mset fst (chan_total cont c)" by simp
  then show ?thesis by (simp only: ident_def fst_conv)
qed

lemma inflight_key_total:
  assumes "chan_inv c" "i \<in> fst ` set (c_inFlightMessages c)"
  shows "i \<in># image_mset fst (chan_total cont c)"
proof -
  obtain r where r: "(i, r) \<in> set (c_inFlightMessages c)" using assms(2) by auto
  then have "m_ID (c_msgs c r) = i" using assms(1) by (auto simp: chan_inv_def flight_inv_def)
  moreover have "r \<in> set (held c)" using r by (force simp: held_def)
  ultimately show ?thesis using held_key_total by metis
qed

lemma deferred_key_total:
  assumes "chan_inv c" "i \<in> fst ` set (c_deferredMessages c)"
  shows "i \<in># image_mset fst (chan_total cont c)"
proof -
  obtain x where x: "(i, x) \<in> set (c_deferredMessages c)" using assms(2) by auto
  then have "m_ID (c_msgs c (it_Value (c_items c x))) = i"
    using assms(1) by (auto simp: chan_inv_def defer_inv_def)
  moreover have "it_Value (c_items c x) \<in> set (held c)"
    using x by (force simp: held_def deferred_refs_def)
  ultimately show ?thesis using held_key_total by metis
qed

definition unique_ids :: "identity multiset \<Rightarrow> bool" where
  "unique_ids T \<longleftrightarrow> (\<forall>i. count (image_mset fst T) i \<le> 1)"

lemma unique_ids_add:
  "unique_ids (add_mset x T) \<longleftrightarrow> unique_ids T \<and> fst x \<notin># image_mset fst T"
proof
  assume u: "unique_ids (add_mset x T)"
  have "count (image_mset fst T) i \<le> count (image_mset fst (add_mset x T)) i" for i by simp
  then have "unique_ids T" using u unfolding unique_ids_def by (meson order_trans)
  moreover have "count (image_mset fst T) (fst x) = 0"
    using u unfolding unique_ids_def by (auto dest: spec [of _ "fst x"])
  ultimately show "unique_ids T \<and> fst x \<notin># image_mset fst T" by (simp only: not_in_iff simp_thms)
next
  assume "unique_ids T \<and> fst x \<notin># image_mset fst T"
  then have "unique_ids T" "count (image_mset fst T) (fst x) = 0" by (simp_all only: not_in_iff)
  then show "unique_ids (add_mset x T)" by (simp add: unique_ids_def)
qed

lemma decode_valid: "minValidMsgLength \<le> length d \<Longrightarrow> \<exists>m. decodeMessage d = Inr m"
  by (simp add: decodeMessage_def)

text \<open>A message as delivery leaves it, its place in the heap apart.\<close>

definition delivered :: "int \<Rightarrow> int \<Rightarrow> int \<Rightarrow> Message \<Rightarrow> Message" where
  "delivered now k timeout m = m\<lparr>m_Attempts := m_Attempts m + 1, m_clientID := k, m_deliveryTS := now,
     m_pri := UnixNano (now + timeout)\<rparr>"

text \<open>A message taken out of the deferred map and heap.\<close>

definition undefer :: "MessageID \<Rightarrow> ref istore \<Rightarrow> PriorityQueue \<Rightarrow> 'b Channel \<Rightarrow> 'b Channel" where
  "undefer i its pq c = c\<lparr>c_items := its, c_deferredPQ := pq,
     c_deferredMessages := amap_del i (c_deferredMessages c)\<rparr>"

context backend_fifo
begin

abbreviation "ok \<equiv> chan_ok b_inv b_contents b_accepts"
abbreviation "msgs_of \<equiv> chan_total b_contents"
abbreviation "accepts \<equiv> chan_accepts b_accepts"

lemma accepts_ident: "ident m = ident m' \<Longrightarrow> accepts c m = accepts c m'"
  using accepts_length by (auto simp: chan_accepts_def ident_def encodeMessage_eq split: backend.split)

lemma put_ok:
  assumes ok: "ok c" and r: "loose r c" and a: "accepts c (c_msgs c r)"
  shows "\<exists>mem bk ca. Channel_put ops r c =
      Some (None, c\<lparr>c_memoryMsgChan := mem, c_backend := bk, c_calls := ca\<rparr>) \<and>
    ok (c\<lparr>c_memoryMsgChan := mem, c_backend := bk, c_calls := ca\<rparr>) \<and>
    msgs_of (c\<lparr>c_memoryMsgChan := mem, c_backend := bk, c_calls := ca\<rparr>) =
      add_mset (ident (c_msgs c r)) (msgs_of c)"
proof -
  obtain b where b: "c_backend c = Backend b" "b_inv b"
    "\<forall>d \<in> set (b_contents b). b_accepts b d \<and> minValidMsgLength \<le> length d"
    "\<forall>x \<in> set (held c). b_accepts b (encodeMessage (c_msgs c x))" "b_accepts b (encodeMessage (c_msgs c r))"
    using ok a by (cases "c_backend c") (auto simp: chan_ok_def chan_accepts_def)
  have inv: "chan_inv c" using ok by (rule chan_ok_inv)
  have w: "wf_Message (c_msgs c r)" using r by (simp add: loose_def)
  show ?thesis
  proof (cases "length (c_memoryMsgChan c) < c_memCap c")
    case True
    let ?c = "c\<lparr>c_memoryMsgChan := c_memoryMsgChan c @ [r]\<rparr>"
    have s: "set (held ?c) = insert r (set (held c))" by (auto simp: held_def deferred_refs_def)
    have d: "distinct (held ?c)" using inv r by (auto simp: chan_inv_def loose_def held_def deferred_refs_def)
    have "chan_inv ?c" using inv r s d True by (auto simp: chan_inv_def loose_def)
    then have "ok ?c" using b s by (simp add: chan_ok_def chan_accepts_def)
    moreover have "msgs_of ?c = add_mset (ident (c_msgs c r)) (msgs_of c)"
      by (simp add: chan_total_def held_def deferred_refs_def)
    moreover have "Channel_put ops r c = Some (None, ?c)" using True by (simp add: Channel_put_def)
    moreover have "?c = c\<lparr>c_memoryMsgChan := c_memoryMsgChan c @ [r], c_backend := c_backend c, c_calls := c_calls c\<rparr>"
      by simp
    ultimately show ?thesis by metis
  next
    case False
    obtain b' where b': "writeMessageToBackend ops (c_msgs c r) (Backend b) = Some (None, Backend b')" "b_inv b'"
      "b_contents b' = b_contents b @ [encodeMessage (c_msgs c r)]" "b_accepts b' = b_accepts b"
      using write_law [OF b(2,5)] by blast
    let ?c = "c\<lparr>c_backend := Backend b', c_calls := c_calls c @ [CallSetHealth None]\<rparr>"
    have "ok ?c"
      using inv b b' length_encodeMessage [OF w] by (simp add: chan_ok_def chan_accepts_def ball_Un)
    moreover have "msgs_of ?c = add_mset (ident (c_msgs c r)) (msgs_of c)"
      using b b' w by (simp add: chan_total_def disk_part_def)
    moreover have "Channel_put ops r c = Some (None, ?c)" using False b(1) b'(1) by (simp add: Channel_put_def)
    moreover have "?c = c\<lparr>c_memoryMsgChan := c_memoryMsgChan c, c_backend := Backend b',
        c_calls := c_calls c @ [CallSetHealth None]\<rparr>" by simp
    ultimately show ?thesis by metis
  qed
qed

lemma unflight_ok:
  assumes ok: "ok c" and i: "map_of (c_inFlightMessages c) i = Some r"
  shows "\<exists>h pq. removeFromInFlightPQ r (c\<lparr>c_inFlightMessages := amap_del i (c_inFlightMessages c)\<rparr>) =
      Some (unflight i h pq c) \<and> ok (unflight i h pq c) \<and> loose r (unflight i h pq c) \<and>
      same_but_index UNIV (c_msgs c) h \<and> m_ID (h r) = i \<and> accepts c (h r) \<and>
      msgs_of c = add_mset (ident (c_msgs c r)) (msgs_of (unflight i h pq c))"
proof -
  have inv: "chan_inv c" using ok by (rule chan_ok_inv)
  obtain h pq where p: "removeFromInFlightPQ r (c\<lparr>c_inFlightMessages := amap_del i (c_inFlightMessages c)\<rparr>) =
      Some (unflight i h pq c)" "chan_inv (unflight i h pq c)" "same_but_index UNIV (c_msgs c) h"
      "r \<notin> set (held (unflight i h pq c))" "r < c_nextMsg c" "wf_Message (h r)" "m_ID (h r) = i"
    using take_out_of_flight [OF inv i] by blast
  have ms: "mset (held c) = add_mset r (mset (held (unflight i h pq c)))" by (rule held_unflight [OF inv i])
  then have s: "set (held c) = insert r (set (held (unflight i h pq c)))"
    by (metis set_mset_add_mset_insert set_mset_mset)
  have e: "accepts c (h x) = accepts c (c_msgs c x)" for x by (rule accepts_ident [OF ident_same [OF p(3)]])
  have "c_msgs (unflight i h pq c) = h" "c_backend (unflight i h pq c) = c_backend c"
    "c_nextMsg (unflight i h pq c) = c_nextMsg c" by (simp_all add: unflight_def)
  then have "ok (unflight i h pq c)" "loose r (unflight i h pq c)"
    using ok p s e by (auto simp: chan_ok_def loose_def)
  moreover have "accepts c (h r)" using ok s e by (auto simp: chan_ok_def)
  ultimately show ?thesis using p total_unflight [OF inv i p(3)] by blast
qed

lemma inflight_ok:
  assumes ok: "ok c" and r: "loose r c" and a: "accepts c (c_msgs c r)"
    and i: "m_ID (c_msgs c r) \<notin> fst ` set (c_inFlightMessages c)"
  shows "\<exists>c1 h pq. pushInFlightMessage r c = (None, c1) \<and> addToInFlightPQ r c1 = Some (inflight r h pq c) \<and>
    ok (inflight r h pq c) \<and> same_but_index UNIV (c_msgs c) h \<and>
    msgs_of (inflight r h pq c) = add_mset (ident (c_msgs c r)) (msgs_of c)"
proof -
  obtain c1 h pq where p: "pushInFlightMessage r c = (None, c1)" "addToInFlightPQ r c1 = Some (inflight r h pq c)"
    "chan_inv (inflight r h pq c)" "same_but_index UNIV (c_msgs c) h"
    using put_in_flight [OF chan_ok_inv [OF ok] r i] by blast
  have s: "set (held (inflight r h pq c)) = insert r (set (held c))"
    using mset_held_inflight [of r h pq c] by (metis set_mset_add_mset_insert set_mset_mset)
  have e: "accepts c (h x) = accepts c (c_msgs c x)" for x by (rule accepts_ident [OF ident_same [OF p(4)]])
  have "c_msgs (inflight r h pq c) = h" "c_backend (inflight r h pq c) = c_backend c"
    by (simp_all add: inflight_def)
  then have "ok (inflight r h pq c)" using ok a p(3) s e by (auto simp: chan_ok_def)
  then show ?thesis using p total_inflight [OF p(4)] by blast
qed

lemma upd_msg_ok:
  assumes "ok c" "loose r c" "\<And>m. m_ID (f m) = m_ID m"
  shows "ok (upd_msg r f c) \<and> loose r (upd_msg r f c) \<and> msgs_of (upd_msg r f c) = msgs_of c"
proof -
  note u = chan_inv_upd_msg [OF chan_ok_inv [OF assms(1)] assms(2,3)]
  have m: "c_msgs (upd_msg r f c) x = c_msgs c x" if "x \<in> set (held c)" for x
    using that assms(2) by (auto simp: upd_msg_def loose_def)
  have b: "c_backend (upd_msg r f c) = c_backend c" by (simp add: upd_msg_def)
  have "map (\<lambda>r'. ident (c_msgs (upd_msg r f c) r')) (held c) = map (\<lambda>r. ident (c_msgs c r)) (held c)"
    using m by simp
  then have "msgs_of (upd_msg r f c) = msgs_of c" unfolding chan_total_def u(3) b by (simp only:)
  moreover have "ok (upd_msg r f c)" using assms(1) u m b by (auto simp: chan_ok_def)
  ultimately show ?thesis using u(2) by blast
qed

lemma defer_ok:
  assumes ok: "ok c" and r: "loose r c" and a: "accepts c (c_msgs c r)"
    and i: "m_ID (c_msgs c r) \<notin> fst ` set (c_deferredMessages c)"
  shows "\<exists>its pq. StartDeferredTimeout now r timeout c = Some (None, deferred r (now + timeout) its pq c) \<and>
    ok (deferred r (now + timeout) its pq c) \<and>
    msgs_of (deferred r (now + timeout) its pq c) = add_mset (ident (c_msgs c r)) (msgs_of c)"
proof -
  obtain its pq where p: "StartDeferredTimeout now r timeout c = Some (None, deferred r (now + timeout) its pq c)"
    "chan_inv (deferred r (now + timeout) its pq c)"
    "mset (held (deferred r (now + timeout) its pq c)) = add_mset r (mset (held c))"
    using defer_message [OF chan_ok_inv [OF ok] r i] by blast
  let ?c = "deferred r (now + timeout) its pq c"
  have f: "c_msgs ?c = c_msgs c" "c_backend ?c = c_backend c" by (simp_all add: deferred_def)
  have s: "set (held ?c) = insert r (set (held c))"
    using p(3) by (metis set_mset_add_mset_insert set_mset_mset)
  have "ok ?c" using ok a p(2) s f by (auto simp: chan_ok_def)
  moreover have "msgs_of ?c = add_mset (ident (c_msgs c r)) (msgs_of c)"
    using p(3) f by (simp add: chan_total_def)
  ultimately show ?thesis using p(1) by blast
qed

text \<open>The identifier of a message taken out of flight is free for the other maps.\<close>

lemma unflight_fresh:
  assumes "unique_ids (msgs_of c)" "msgs_of c = add_mset (ident m) (msgs_of c')" "chan_inv c'"
  shows "m_ID m \<notin> fst ` set (c_inFlightMessages c')" "m_ID m \<notin> fst ` set (c_deferredMessages c')"
proof -
  have "unique_ids (add_mset (ident m) (msgs_of c'))" using assms(1) unfolding assms(2) .
  then have "fst (ident m) \<notin># image_mset fst (msgs_of c')" unfolding unique_ids_add by (rule conjunct2)
  then have "m_ID m \<notin># image_mset fst (msgs_of c')" unfolding ident_def fst_conv .
  then show "m_ID m \<notin> fst ` set (c_inFlightMessages c')" "m_ID m \<notin> fst ` set (c_deferredMessages c')"
    using inflight_key_total [OF assms(3)] deferred_key_total [OF assms(3)] by blast+
qed

section \<open>The operations\<close>

lemma alloc_ok:
  assumes "ok c" "wf_Message m" "alloc_msg m c = (r, c')"
  shows "ok c' \<and> loose r c' \<and> c_msgs c' r = m \<and> msgs_of c' = msgs_of c \<and> accepts c' = accepts c \<and>
    c_inFlightMessages c' = c_inFlightMessages c \<and> c_deferredMessages c' = c_deferredMessages c"
proof -
  let ?h = "(c_msgs c)(c_nextMsg c := m)"
  have c': "c' = c\<lparr>c_msgs := ?h, c_nextMsg := c_nextMsg c + 1\<rparr>" "r = c_nextMsg c"
    using assms(3) by (auto simp: alloc_msg_def)
  have inv: "chan_inv c" using assms(1) by (rule chan_ok_inv)
  have h: "held c' = held c" by (simp add: c' held_def deferred_refs_def)
  have r: "r \<notin> set (held c)" using inv c'(2) by (auto simp: chan_inv_def)
  then have r': "r \<notin> snd ` set (c_inFlightMessages c)" "r \<notin> set (deferred_refs c)"
    by (simp_all add: held_def)
  have m: "c_msgs c' x = c_msgs c x" if "x \<in> set (held c)" for x using that r c' by auto
  have fl: "flight_inv ?h (c_inFlightMessages c) (c_inFlightPQ c)"
    using inv flight_upd [OF _ r'(1)] c'(2) by (simp add: chan_inv_def)
  have df: "defer_inv ?h (c_items c) (c_deferredMessages c) (c_deferredPQ c)"
    by (rule defer_store [of "c_msgs c"])
      (use inv r'(2) c'(2) in \<open>force simp: chan_inv_def deferred_refs_def split_beta\<close>)+
  have "chan_inv c'"
    using inv fl df h m by (auto simp: chan_inv_def) (auto simp: c' less_Suc_eq)
  then have ok': "ok c'" using assms(1) h m by (auto simp: chan_ok_def chan_accepts_def) (auto simp: c')
  have "map (\<lambda>r. ident (c_msgs c' r)) (held c) = map (\<lambda>r. ident (c_msgs c r)) (held c)"
    using m by simp
  moreover have "c_backend c' = c_backend c" by (simp add: c')
  ultimately have "msgs_of c' = msgs_of c" unfolding chan_total_def h by (simp only:)
  then show ?thesis using ok' r h assms(2) c' by (simp add: loose_def chan_accepts_def fun_eq_iff)
qed

theorem PutMessage_ok:
  assumes "ok c" "wf_Message m" "accepts c m" "\<not> c_exitFlag c"
  shows "\<exists>c'. Channel_PutMessage ops m c = Some (None, c') \<and> ok c' \<and>
    msgs_of c' = add_mset (ident m) (msgs_of c) \<and> c_messageCount c' = c_messageCount c + 1"
proof -
  obtain r c0 where a: "alloc_msg m c = (r, c0)" by fastforce
  have f: "c_messageCount c0 = c_messageCount c" using a by (auto simp: alloc_msg_def)
  note ao = alloc_ok [OF assms(1,2) a]
  obtain mem bk ca where "Channel_put ops r c0 =
      Some (None, c0\<lparr>c_memoryMsgChan := mem, c_backend := bk, c_calls := ca\<rparr>)"
    "ok (c0\<lparr>c_memoryMsgChan := mem, c_backend := bk, c_calls := ca\<rparr>)"
    "msgs_of (c0\<lparr>c_memoryMsgChan := mem, c_backend := bk, c_calls := ca\<rparr>) =
      add_mset (ident (c_msgs c0 r)) (msgs_of c0)"
    using put_ok [of c0 r] ao assms(3) by auto
  then show ?thesis using ao a f assms(4)
    by (simp add: Channel_PutMessage_def Channel_Exiting_def)
qed

theorem FinishMessage_ok:
  assumes "ok c"
  shows "case map_of (c_inFlightMessages c) i of
      None \<Rightarrow> FinishMessage k i c = Some (Some ''ID not in flight'', c)
    | Some r \<Rightarrow>
        if m_clientID (c_msgs c r) \<noteq> k then FinishMessage k i c = Some (Some ''client does not own message'', c)
        else \<exists>c'. FinishMessage k i c = Some (None, c') \<and> ok c' \<and>
               msgs_of c = add_mset (ident (c_msgs c r)) (msgs_of c') \<and> m_ID (c_msgs c r) = i"
proof (cases "map_of (c_inFlightMessages c) i")
  case None
  then show ?thesis by (simp add: FinishMessage_def popInFlightMessage_def)
next
  case (Some r)
  obtain h pq where p: "removeFromInFlightPQ r (c\<lparr>c_inFlightMessages := amap_del i (c_inFlightMessages c)\<rparr>) =
      Some (unflight i h pq c)" "ok (unflight i h pq c)" "m_ID (h r) = i" "same_but_index UNIV (c_msgs c) h"
      "msgs_of c = add_mset (ident (c_msgs c r)) (msgs_of (unflight i h pq c))"
    using unflight_ok [OF assms Some] by blast
  have "m_ID (c_msgs c r) = i" using p(3) same_but_index_fields(1) [OF p(4)] by simp
  then show ?thesis using Some p(1,2,5) by (simp add: FinishMessage_def popInFlightMessage_def)
qed

theorem TouchMessage_ok:
  assumes "ok c" "unique_ids (msgs_of c)" "map_of (c_inFlightMessages c) i = Some r"
    "m_clientID (c_msgs c r) = k"
  shows "\<exists>c'. TouchMessage opts now k i timeout c = Some (None, c') \<and> ok c' \<and> msgs_of c' = msgs_of c \<and>
    map_of (c_inFlightMessages c') i = Some r \<and> m_clientID (c_msgs c' r) = k \<and>
    m_pri (c_msgs c' r) = UnixNano (min (now + timeout) (m_deliveryTS (c_msgs c r) + o_MaxMsgTimeout opts))"
proof -
  let ?m = "c_msgs c r"
  obtain h pq where p: "removeFromInFlightPQ r (c\<lparr>c_inFlightMessages := amap_del i (c_inFlightMessages c)\<rparr>) =
      Some (unflight i h pq c)" "ok (unflight i h pq c)" "loose r (unflight i h pq c)"
      "same_but_index UNIV (c_msgs c) h" "m_ID (h r) = i" "accepts c (h r)"
      "msgs_of c = add_mset (ident ?m) (msgs_of (unflight i h pq c))"
    using unflight_ok [OF assms(1,3)] by blast
  let ?t = "if o_MaxMsgTimeout opts \<le> now + timeout - m_deliveryTS (h r)
            then m_deliveryTS (h r) + o_MaxMsgTimeout opts else now + timeout"
  let ?f = "\<lambda>m. m\<lparr>m_pri := UnixNano ?t\<rparr>"
  let ?u = "upd_msg r ?f (unflight i h pq c)"
  have u: "ok ?u" "loose r ?u" "msgs_of ?u = msgs_of (unflight i h pq c)"
    using upd_msg_ok [OF p(2,3), of ?f] by simp_all
  have um: "c_msgs ?u r = ?f (h r)" "c_msgs (unflight i h pq c) = h" by (simp_all add: upd_msg_def unflight_def)
  have id: "ident (c_msgs ?u r) = ident ?m" using um ident_same [OF p(4)] by (simp add: ident_def)
  have fresh: "m_ID (c_msgs ?u r) \<notin> fst ` set (c_inFlightMessages ?u)"
    using unflight_fresh(1) [OF assms(2), of ?m ?u] p(7) u chan_ok_inv [OF u(1)] id
    by (simp add: ident_def)
  have "accepts ?u (c_msgs ?u r)"
    using p(6) accepts_ident [of "c_msgs ?u r" "h r"] um by (simp add: ident_def)
  from inflight_ok [OF u(1,2) this fresh] obtain c1 h' pq' where q: "pushInFlightMessage r ?u = (None, c1)"
    "addToInFlightPQ r c1 = Some (inflight r h' pq' ?u)" "ok (inflight r h' pq' ?u)"
    "same_but_index UNIV (c_msgs ?u) h'" "msgs_of (inflight r h' pq' ?u) = add_mset (ident (c_msgs ?u r)) (msgs_of ?u)"
    by blast
  have t: "?t = min (now + timeout) (m_deliveryTS ?m + o_MaxMsgTimeout opts)"
    using same_but_index_fields(7) [OF p(4), of r] by auto
  have "TouchMessage opts now k i timeout c = Some (None, inflight r h' pq' ?u)"
    using assms(3,4) p(1) q(1,2) um
    by (simp add: TouchMessage_def popInFlightMessage_def Let_def split del: if_split cong: if_cong)
  moreover have "msgs_of (inflight r h' pq' ?u) = msgs_of c" using q(5) u(3) p(7) id by simp
  moreover have "map_of (c_inFlightMessages (inflight r h' pq' ?u)) i = Some r"
  proof -
    have e: "m_ID (c_msgs ?u r) = i" unfolding um(1) using p(5) by simp
    have "map_of (c_inFlightMessages ?u) i = None" using fresh unfolding e by (simp only: map_of_eq_None_iff not_False_eq_True)
    moreover have "c_inFlightMessages (inflight r h' pq' ?u) = c_inFlightMessages ?u @ [(i, r)]"
      unfolding inflight_def e by simp
    ultimately show ?thesis by (simp only: map_of_append map_add_def map_of.simps) simp
  qed
  moreover have "c_msgs (inflight r h' pq' ?u) = h'" by (simp add: inflight_def)
  then have "m_clientID (c_msgs (inflight r h' pq' ?u) r) = k" "m_pri (c_msgs (inflight r h' pq' ?u) r) = UnixNano ?t"
    using same_but_index_fields [OF q(4), of r] um same_but_index_fields(5) [OF p(4), of r] assms(4) by simp_all
  ultimately show ?thesis using q(3) unfolding t by blast
qed

theorem RequeueMessage_ok:
  assumes "ok c" "unique_ids (msgs_of c)" "map_of (c_inFlightMessages c) i = Some r"
    "m_clientID (c_msgs c r) = k" "\<not> c_exitFlag c"
  shows "\<exists>c'. RequeueMessage ops now k i timeout c = Some (None, c') \<and> ok c' \<and> msgs_of c' = msgs_of c \<and>
    map_of (c_inFlightMessages c') i = None \<and> c_requeueCount c' = c_requeueCount c + 1 \<and>
    (timeout \<noteq> 0 \<longrightarrow> map_of (c_deferredMessages c') i \<noteq> None)"
proof -
  obtain h pq where p: "removeFromInFlightPQ r (c\<lparr>c_inFlightMessages := amap_del i (c_inFlightMessages c)\<rparr>) =
      Some (unflight i h pq c)" "ok (unflight i h pq c)" "loose r (unflight i h pq c)"
      "same_but_index UNIV (c_msgs c) h" "m_ID (h r) = i" "accepts c (h r)"
      "msgs_of c = add_mset (ident (c_msgs c r)) (msgs_of (unflight i h pq c))"
    using unflight_ok [OF assms(1,3)] by blast
  let ?u = "(unflight i h pq c)\<lparr>c_requeueCount := c_requeueCount (unflight i h pq c) + 1\<rparr>"
  have f: "c_msgs ?u = h" "c_exitFlag ?u = c_exitFlag c" "c_requeueCount ?u = c_requeueCount c + 1"
    "map_of (c_inFlightMessages ?u) i = None"
    by (simp_all add: unflight_def map_of_amap_del)
  have u: "ok ?u" "loose r ?u" "msgs_of ?u = msgs_of (unflight i h pq c)" "accepts ?u (c_msgs ?u r)"
    using p f(1) by simp_all
  have id: "ident (c_msgs ?u r) = ident (c_msgs c r)" using f(1) ident_same [OF p(4)] by simp
  have start: "RequeueMessage ops now k i timeout c =
      (if timeout = 0 then Channel_put ops r ?u else StartDeferredTimeout now r timeout ?u)"
    using assms(3,4,5) p(1) f(2) by (simp add: RequeueMessage_def popInFlightMessage_def Channel_Exiting_def Let_def)
  show ?thesis
  proof (cases "timeout = 0")
    case True
    obtain mem bk ca where "Channel_put ops r ?u =
        Some (None, ?u\<lparr>c_memoryMsgChan := mem, c_backend := bk, c_calls := ca\<rparr>)"
      "ok (?u\<lparr>c_memoryMsgChan := mem, c_backend := bk, c_calls := ca\<rparr>)"
      "msgs_of (?u\<lparr>c_memoryMsgChan := mem, c_backend := bk, c_calls := ca\<rparr>) =
        add_mset (ident (c_msgs ?u r)) (msgs_of ?u)"
      using put_ok [OF u(1,2,4)] by blast
    then show ?thesis using True start p(7) id u(3) f by auto
  next
    case False
    have fresh: "m_ID (c_msgs ?u r) \<notin> fst ` set (c_deferredMessages ?u)"
      using unflight_fresh(2) [OF assms(2), of "c_msgs c r" ?u] p(7) u(3) chan_ok_inv [OF u(1)] id
      by (simp add: ident_def)
    obtain its dpq where d: "StartDeferredTimeout now r timeout ?u = Some (None, deferred r (now + timeout) its dpq ?u)"
      "ok (deferred r (now + timeout) its dpq ?u)"
      "msgs_of (deferred r (now + timeout) its dpq ?u) = add_mset (ident (c_msgs ?u r)) (msgs_of ?u)"
      using defer_ok [OF u(1,2,4) fresh] by blast
    have "map_of (c_deferredMessages (deferred r (now + timeout) its dpq ?u)) i \<noteq> None"
      using f(1) p(5) by (simp add: deferred_def map_of_eq_None_iff)
    moreover have "map_of (c_inFlightMessages (deferred r (now + timeout) its dpq ?u)) i = None"
      "c_requeueCount (deferred r (now + timeout) its dpq ?u) = c_requeueCount c + 1"
      using f(3,4) by (simp_all add: deferred_def)
    ultimately show ?thesis using False start d p(7) id u(3) by simp
  qed
qed

lemma deliver_ok:
  assumes "ok c" "loose r c" "accepts c (c_msgs c r)"
    "m_ID (c_msgs c r) \<notin># image_mset fst (msgs_of c)"
  shows "\<exists>c'. deliver now r k timeout c = Some (None, c') \<and> ok c' \<and>
    msgs_of c' = add_mset (ident (c_msgs c r)) (msgs_of c) \<and>
    c_inFlightMessages c' = c_inFlightMessages c @ [(m_ID (c_msgs c r), r)] \<and>
    (c_msgs c' r)\<lparr>m_index := 0\<rparr> = (delivered now k timeout (c_msgs c r))\<lparr>m_index := 0\<rparr>"
proof -
  let ?u = "upd_msg r (delivered now k timeout) c"
  have u: "ok ?u" "loose r ?u" "msgs_of ?u = msgs_of c"
    using upd_msg_ok [OF assms(1,2), of "delivered now k timeout"] by (simp_all add: delivered_def)
  have um: "c_msgs ?u r = delivered now k timeout (c_msgs c r)" "c_inFlightMessages ?u = c_inFlightMessages c"
    by (simp_all add: upd_msg_def)
  have id: "ident (c_msgs ?u r) = ident (c_msgs c r)" "m_ID (c_msgs ?u r) = m_ID (c_msgs c r)"
    unfolding um by (simp_all add: ident_def delivered_def)
  have fresh: "m_ID (c_msgs ?u r) \<notin> fst ` set (c_inFlightMessages ?u)"
    using assms(4) inflight_key_total [OF chan_ok_inv [OF u(1)]] u(3) unfolding id(2) by metis
  have "accepts ?u (c_msgs ?u r)"
    using assms(3) accepts_ident [OF id(1)] by simp
  from inflight_ok [OF u(1,2) this fresh] obtain c1 h pq where q: "pushInFlightMessage r ?u = (None, c1)"
    "addToInFlightPQ r c1 = Some (inflight r h pq ?u)" "ok (inflight r h pq ?u)"
    "same_but_index UNIV (c_msgs ?u) h" "msgs_of (inflight r h pq ?u) = add_mset (ident (c_msgs ?u r)) (msgs_of ?u)"
    by blast
  have uu: "upd_msg r (\<lambda>m. m\<lparr>m_clientID := k, m_deliveryTS := now, m_pri := UnixNano (now + timeout)\<rparr>)
      (upd_msg r (\<lambda>m. m\<lparr>m_Attempts := m_Attempts m + 1\<rparr>) c) = ?u"
    by (simp add: upd_msg_def delivered_def)
  have "deliver now r k timeout c = Some (None, inflight r h pq ?u)"
    unfolding deliver_def StartInFlightTimeout_def uu Let_def q(1) by (simp add: q(2))
  moreover have "c_inFlightMessages (inflight r h pq ?u) = c_inFlightMessages c @ [(m_ID (c_msgs c r), r)]"
    unfolding inflight_def id(2) by (simp add: um(2))
  moreover have "c_msgs (inflight r h pq ?u) r = h r" by (simp add: inflight_def)
  then have "(c_msgs (inflight r h pq ?u) r)\<lparr>m_index := 0\<rparr> = (delivered now k timeout (c_msgs c r))\<lparr>m_index := 0\<rparr>"
    using q(4) um(1) unfolding same_but_index_def by metis
  ultimately show ?thesis using q(3,5) unfolding id(1) u(3) by blast
qed

lemma recv_memory_ok:
  assumes "ok c" "recv_memory c = Some (r, c')"
  shows "ok c' \<and> loose r c' \<and> accepts c' (c_msgs c' r) \<and> c_msgs c' = c_msgs c \<and>
    c_inFlightMessages c' = c_inFlightMessages c \<and> msgs_of c = add_mset (ident (c_msgs c r)) (msgs_of c')"
proof -
  have c': "c_memoryMsgChan c = r # c_memoryMsgChan c'" "c' = c\<lparr>c_memoryMsgChan := c_memoryMsgChan c'\<rparr>"
    using assms(2) by (auto simp: recv_memory_def split: list.splits)
  have f: "c_msgs c' = c_msgs c" "c_backend c' = c_backend c" "c_inFlightMessages c' = c_inFlightMessages c"
    "c_nextMsg c' = c_nextMsg c" "c_deferredMessages c' = c_deferredMessages c" "c_items c' = c_items c"
    "c_inFlightPQ c' = c_inFlightPQ c" "c_deferredPQ c' = c_deferredPQ c" "c_nextItem c' = c_nextItem c"
    "c_memCap c' = c_memCap c"
    by (subst c'(2), simp)+
  have h: "held c = r # held c'" using c'(1) f by (simp add: held_def deferred_refs_def)
  have inv: "chan_inv c" using assms(1) by (rule chan_ok_inv)
  then have "chan_inv c'" "loose r c'" using h f c'(1) by (auto simp: chan_inv_def loose_def)
  moreover have a: "accepts c' = accepts c" by (simp add: chan_accepts_def fun_eq_iff f)
  moreover have "accepts c (c_msgs c r)" using assms(1) h by (simp add: chan_ok_def)
  ultimately have "ok c'" using assms(1) h f by (simp add: chan_ok_def)
  moreover have "msgs_of c = add_mset (ident (c_msgs c r)) (msgs_of c')"
    by (simp add: chan_total_def h f)
  ultimately show ?thesis using \<open>loose r c'\<close> a f \<open>accepts c (c_msgs c r)\<close> by simp
qed

theorem deliver_memory_ok:
  assumes "ok c" "unique_ids (msgs_of c)" "recv_memory c = Some (r, c1)"
  shows "\<exists>c'. deliver now r k timeout c1 = Some (None, c') \<and> ok c' \<and> msgs_of c' = msgs_of c \<and>
    c_inFlightMessages c' = c_inFlightMessages c @ [(m_ID (c_msgs c r), r)] \<and>
    (c_msgs c' r)\<lparr>m_index := 0\<rparr> = (delivered now k timeout (c_msgs c r))\<lparr>m_index := 0\<rparr>"
proof -
  note rm = recv_memory_ok [OF assms(1,3)]
  have "fst (ident (c_msgs c r)) \<notin># image_mset fst (msgs_of c1)"
    using assms(2) rm unique_ids_add by metis
  then have fresh: "m_ID (c_msgs c1 r) \<notin># image_mset fst (msgs_of c1)" using rm unfolding ident_def fst_conv by metis
  have "ok c1" "loose r c1" "accepts c1 (c_msgs c1 r)" using rm by blast+
  from deliver_ok [OF this fresh, of now k timeout] rm show ?thesis by auto
qed

theorem recv_backend_ok:
  assumes "ok c" "unique_ids (msgs_of c)" "recv_backend ops c = Some (d, c1)"
  shows "\<exists>m r c2 c'. decodeMessage d = Inr m \<and> alloc_msg m c1 = (r, c2) \<and>
    deliver now r k timeout c2 = Some (None, c') \<and> ok c' \<and> msgs_of c' = msgs_of c \<and>
    c_inFlightMessages c' = c_inFlightMessages c @ [(m_ID m, r)] \<and>
    (c_msgs c' r)\<lparr>m_index := 0\<rparr> = (delivered now k timeout m)\<lparr>m_index := 0\<rparr>"
proof -
  obtain b where b: "c_backend c = Backend b" "b_inv b" "chan_inv c"
    "\<forall>d \<in> set (b_contents b). b_accepts b d \<and> minValidMsgLength \<le> length d"
    using assms(1) by (cases "c_backend c") (auto simp: chan_ok_def)
  obtain ds where ds: "b_contents b = d # ds" and "\<exists>b'. bq_Read ops b = Some (d, b') \<and> c1 = c\<lparr>c_backend := Backend b'\<rparr>"
  proof (cases "b_contents b")
    case Nil
    then show ?thesis using assms(3) b(1) read_empty [OF b(2)] by (simp add: recv_backend_def)
  next
    case (Cons d' ds)
    then show ?thesis using assms(3) b(1) read_law [OF b(2) Cons] that by (auto simp: recv_backend_def)
  qed
  then obtain b' where b': "bq_Read ops b = Some (d, b')" "c1 = c\<lparr>c_backend := Backend b'\<rparr>" by blast
  have l: "b_inv b'" "b_contents b' = ds" "b_accepts b' = b_accepts b"
    using read_law [OF b(2) ds] b'(1) by auto
  have c1: "ok c1" using assms(1) b l ds by (auto simp: b'(2) chan_ok_def chan_accepts_def)
  obtain m where m: "decodeMessage d = Inr m" using b(4) ds decode_valid by auto
  have e: "encodeMessage m = d" "wf_Message m" using encode_decode [OF m] by simp_all
  obtain r c2 where a: "alloc_msg m c1 = (r, c2)" by fastforce
  note ao = alloc_ok [OF c1 e(2) a]
  have t: "msgs_of c = add_mset (ident m) (msgs_of c1)"
    using m by (simp add: chan_total_def b'(2) b(1) l(2) ds disk_part_def disk_ident_def)
  then have "fst (ident m) \<notin># image_mset fst (msgs_of c1)" using assms(2) unique_ids_add by metis
  then have fresh: "m_ID (c_msgs c2 r) \<notin># image_mset fst (msgs_of c2)"
    using ao unfolding ident_def fst_conv by metis
  have "accepts c1 m" using b(4) ds e(1) l(3) by (simp add: chan_accepts_def b'(2))
  then have acc: "accepts c2 (c_msgs c2 r)" using ao by simp
  have fl: "c_inFlightMessages c1 = c_inFlightMessages c" by (simp add: b'(2))
  show ?thesis using deliver_ok [OF _ _ acc fresh, of now k timeout] ao a m t fl by auto
qed

section \<open>The scans\<close>

text \<open>One round of the in-flight scan: the message leaves the heap and the map, and is queued again.\<close>

lemma shift_out_of_flight:
  assumes ok: "ok c" and sh: "pq_PeekAndShift t (c_msgs c, c_inFlightPQ c) = Some ((Some r, d), h, pq)"
  shows "popInFlightMessage (m_clientID (h r)) (m_ID (h r)) (c\<lparr>c_msgs := h, c_inFlightPQ := pq\<rparr>) =
      (Inr r, unflight (m_ID (h r)) h pq c) \<and>
    ok (unflight (m_ID (h r)) h pq c) \<and> loose r (unflight (m_ID (h r)) h pq c) \<and>
    same_but_index UNIV (c_msgs c) h \<and> pri_of (c_msgs c) r \<le> sint t \<and> accepts c (h r) \<and>
    map_of (c_inFlightMessages c) (m_ID (h r)) = Some r \<and>
    msgs_of c = add_mset (ident (h r)) (msgs_of (unflight (m_ID (h r)) h pq c))"
proof -
  have inv: "chan_inv c" using ok by (rule chan_ok_inv)
  have fl: "flight_inv (c_msgs c) (c_inFlightMessages c) (c_inFlightPQ c)" using inv by (simp add: chan_inv_def)
  let ?i = "m_ID (c_msgs c r)"
  have p: "map_of (c_inFlightMessages c) ?i = Some r" "flight_inv h (amap_del ?i (c_inFlightMessages c)) pq"
    "pri_of (c_msgs c) r \<le> sint t" "same_but_index UNIV (c_msgs c) h"
    using flight_shift_due [OF fl sh] by auto
  let ?c = "unflight ?i h pq c"
  have ms: "mset (held c) = add_mset r (mset (held ?c))" by (rule held_unflight [OF inv p(1)])
  have s: "set (held c) = insert r (set (held ?c))" using ms by (metis set_mset_add_mset_insert set_mset_mset)
  have d: "distinct (held ?c)" "r \<notin> set (held ?c)"
    using inv mset_eq_imp_distinct_iff [of "held c" "r # held ?c"] ms by (auto simp: chan_inv_def)
  have e: "accepts c (h x) = accepts c (c_msgs c x)" for x by (rule accepts_ident [OF ident_same [OF p(4)]])
  have f: "c_msgs ?c = h" "c_backend ?c = c_backend c" "c_nextMsg ?c = c_nextMsg c" by (simp_all add: unflight_def)
  have inv': "chan_inv ?c"
    using inv d(1) s p(2) defer_same_but_index [OF p(4)] wf_same_but_index [OF p(4)]
    by (auto simp: chan_inv_def unflight_def)
  have "ok ?c" using ok inv' s e f by (auto simp: chan_ok_def)
  moreover have "loose r ?c" using inv d(2) s f wf_same_but_index [OF p(4)] by (auto simp: chan_inv_def loose_def)
  moreover have "accepts c (h r)" using ok s e by (auto simp: chan_ok_def)
  moreover have i: "m_ID (h r) = ?i" using same_but_index_fields(1) [OF p(4)] .
  moreover have "popInFlightMessage (m_clientID (h r)) ?i (c\<lparr>c_msgs := h, c_inFlightPQ := pq\<rparr>) = (Inr r, ?c)"
    using p(1) by (simp add: popInFlightMessage_def unflight_def)
  ultimately show ?thesis using p total_unflight [OF inv p(1,4)] ident_same [OF p(4)] by simp
qed

lemma filter_amap_del:
  assumes "distinct (map fst m)" "map_of m i = Some v" "\<not> P (i, v)"
  shows "filter P (amap_del i m) = filter P m"
proof -
  have "P p \<Longrightarrow> fst p \<noteq> i" if "p \<in> set m" for p
    using that assms by (metis map_of_is_SomeI option.inject prod.collapse)
  then show ?thesis unfolding amap_del_def filter_filter by (intro filter_cong) (auto, blast)
qed

theorem inflight_loop_ok:
  assumes "ok c" "length (pq_elems (c_inFlightPQ c)) < n"
  shows "\<exists>dirty' c' cs'. inflight_loop ops t n dirty c cs = Some (dirty', c', cs') \<and> ok c' \<and>
    msgs_of c' = msgs_of c \<and>
    c_inFlightMessages c' = filter (\<lambda>(i, r). sint t < pri_of (c_msgs c) r) (c_inFlightMessages c) \<and>
    c_deferredMessages c' = c_deferredMessages c \<and> same_but_index UNIV (c_msgs c) (c_msgs c') \<and> c_items c' = c_items c \<and>
    c_exitFlag c' = c_exitFlag c \<and> (dirty' \<longleftrightarrow> dirty \<or> (\<exists>r \<in> snd ` set (c_inFlightMessages c). pri_of (c_msgs c) r \<le> sint t))"
  using assms
proof (induction n arbitrary: c cs dirty)
  case (Suc n)
  have fl: "flight_inv (c_msgs c) (c_inFlightMessages c) (c_inFlightPQ c)"
    using chan_ok_inv [OF Suc.prems(1)] by (simp add: chan_inv_def)
  obtain x d h pq where sh: "pq_PeekAndShift t (c_msgs c, c_inFlightPQ c) = Some ((x, d), h, pq)"
    and idle: "x = None \<longrightarrow> h = c_msgs c \<and> pq = c_inFlightPQ c \<and>
      (\<forall>r \<in> snd ` set (c_inFlightMessages c). sint t < pri_of (c_msgs c) r)"
    using flight_shift_total [OF fl] by blast
  show ?case
  proof (cases x)
    case None
    then have "filter (\<lambda>(i, r). sint t < pri_of (c_msgs c) r) (c_inFlightMessages c) = c_inFlightMessages c"
      using idle by (intro filter_True) auto
    moreover have "\<not> (\<exists>r \<in> snd ` set (c_inFlightMessages c). pri_of (c_msgs c) r \<le> sint t)"
      using None idle by (meson linorder_not_less)
    ultimately show ?thesis using None idle sh Suc.prems(1) by simp
  next
    case (Some r)
    let ?i = "m_ID (h r)"
    let ?u = "unflight ?i h pq c"
    have o: "popInFlightMessage (m_clientID (h r)) ?i (c\<lparr>c_msgs := h, c_inFlightPQ := pq\<rparr>) = (Inr r, ?u)"
      "ok ?u" "loose r ?u" "same_but_index UNIV (c_msgs c) h" "pri_of (c_msgs c) r \<le> sint t" "accepts c (h r)"
      "map_of (c_inFlightMessages c) ?i = Some r" "msgs_of c = add_mset (ident (h r)) (msgs_of ?u)"
      using shift_out_of_flight [OF Suc.prems(1)] sh Some by blast+
    let ?v = "?u\<lparr>c_timeoutCount := c_timeoutCount ?u + 1\<rparr>"
    have v: "ok ?v" "loose r ?v" "accepts ?v (c_msgs ?v r)" "c_msgs ?v = h" "msgs_of ?v = msgs_of ?u"
      using o by (simp_all add: unflight_def) (simp_all flip: unflight_def)
    obtain mem bk ca where q: "Channel_put ops r ?v =
        Some (None, ?v\<lparr>c_memoryMsgChan := mem, c_backend := bk, c_calls := ca\<rparr>)"
      "ok (?v\<lparr>c_memoryMsgChan := mem, c_backend := bk, c_calls := ca\<rparr>)"
      "msgs_of (?v\<lparr>c_memoryMsgChan := mem, c_backend := bk, c_calls := ca\<rparr>) =
        add_mset (ident (c_msgs ?v r)) (msgs_of ?v)"
      using put_ok [OF v(1-3)] by blast
    let ?w = "?v\<lparr>c_memoryMsgChan := mem, c_backend := bk, c_calls := ca\<rparr>"
    have w: "c_inFlightMessages ?w = amap_del ?i (c_inFlightMessages c)" "c_inFlightPQ ?w = pq" "c_msgs ?w = h"
      "c_deferredMessages ?w = c_deferredMessages c" "c_items ?w = c_items c" "c_exitFlag ?w = c_exitFlag c"
      by (simp_all add: unflight_def)
    have "length (pq_elems pq) < n"
    proof -
      have "flight_inv h (amap_del ?i (c_inFlightMessages c)) pq"
        using chan_ok_inv [OF o(2)] by (simp add: chan_inv_def unflight_def)
      then have "mset (pq_elems pq) = mset (map snd (amap_del ?i (c_inFlightMessages c)))"
        by (simp add: flight_inv_def)
      then have "length (pq_elems pq) = length (amap_del ?i (c_inFlightMessages c))"
        by (metis length_map size_mset)
      moreover have "distinct (map fst (c_inFlightMessages c))" using fl by (simp add: flight_inv_def)
      then have "length (c_inFlightMessages c) = Suc (length (amap_del ?i (c_inFlightMessages c)))"
        using mset_amap_del [OF _ o(7)] by (metis size_add_mset size_mset)
      moreover have "length (pq_elems (c_inFlightPQ c)) = length (c_inFlightMessages c)"
        using fl unfolding flight_inv_def by (metis length_map size_mset)
      ultimately show ?thesis using Suc.prems(2) by simp
    qed
    then obtain d' c' cs' where ih: "inflight_loop ops t n True ?w
        (if m_clientID (h r) \<in> set (c_clients ?v) then cs(m_clientID (h r) := TimedOutMessage (cs (m_clientID (h r)))) else cs)
          = Some (d', c', cs')" "ok c'" "msgs_of c' = msgs_of ?w"
      "c_inFlightMessages c' = filter (\<lambda>(i, r). sint t < pri_of h r) (amap_del ?i (c_inFlightMessages c))"
      "c_deferredMessages c' = c_deferredMessages c" "same_but_index UNIV h (c_msgs c')" "c_items c' = c_items c"
      "c_exitFlag c' = c_exitFlag c" d'
      using Suc.IH [OF q(2), of True] unfolding w by blast
    have "r \<in> snd ` set (c_inFlightMessages c)" using map_of_SomeD [OF o(7)] by force
    then have due: "\<exists>r \<in> snd ` set (c_inFlightMessages c). pri_of (c_msgs c) r \<le> sint t" using o(5) by blast
    have "distinct (map fst (c_inFlightMessages c))" using fl by (simp add: flight_inv_def)
    then have "c_inFlightMessages c' = filter (\<lambda>(i, r). sint t < pri_of (c_msgs c) r) (c_inFlightMessages c)"
      using ih(4) filter_amap_del [OF _ o(7), of "\<lambda>(i, r). sint t < pri_of (c_msgs c) r"] o(5)
        same_but_index_pri [OF o(4)] by simp
    moreover have "msgs_of c' = msgs_of c" using ih(3) q(3) v(4,5) o(8) by simp
    moreover have "inflight_loop ops t (Suc n) dirty c cs = Some (d', c', cs')"
      using Some sh o(1) q(1) ih(1) v(4) by (simp add: Let_def split del: if_split cong: if_cong)
    ultimately show ?thesis using ih(2,5,7-9) due same_but_index_trans [OF o(4) ih(6)] by blast
  qed
qed simp

lemma held_undefer:
  assumes "chan_inv c" "map_of (c_deferredMessages c) i = Some x" "same_items (c_items c) its"
  shows "mset (held c) = add_mset (it_Value (c_items c x)) (mset (held (undefer i its pq c)))"
proof -
  have v: "it_Value (its y) = it_Value (c_items c y)" for y using assms(3) by (simp add: same_items_def)
  have "distinct (map fst (c_deferredMessages c))" using assms(1) by (simp add: chan_inv_def defer_inv_def)
  from mset_amap_del [OF this assms(2)]
  have "mset (deferred_refs c) = add_mset (it_Value (c_items c x)) (mset (deferred_refs (undefer i its pq c)))"
    by (simp add: deferred_refs_def undefer_def v)
  then show ?thesis by (simp add: held_def) (simp add: undefer_def)
qed

lemma shift_out_of_deferral:
  assumes ok: "ok c" and df: "map_of (c_deferredMessages c) i = Some x" and si: "same_items (c_items c) its"
    and inv': "defer_inv (c_msgs c) its (amap_del i (c_deferredMessages c)) pq"
  shows "ok (undefer i its pq c) \<and> loose (it_Value (c_items c x)) (undefer i its pq c) \<and>
    accepts c (c_msgs c (it_Value (c_items c x))) \<and>
    msgs_of c = add_mset (ident (c_msgs c (it_Value (c_items c x)))) (msgs_of (undefer i its pq c))"
proof -
  let ?c = "undefer i its pq c"
  let ?r = "it_Value (c_items c x)"
  have inv: "chan_inv c" using ok by (rule chan_ok_inv)
  have ms: "mset (held c) = add_mset ?r (mset (held ?c))" by (rule held_undefer [OF inv df si])
  have s: "set (held c) = insert ?r (set (held ?c))" using ms by (metis set_mset_add_mset_insert set_mset_mset)
  have d: "distinct (held ?c)" "?r \<notin> set (held ?c)"
    using inv mset_eq_imp_distinct_iff [of "held c" "?r # held ?c"] ms by (auto simp: chan_inv_def)
  have f: "c_msgs ?c = c_msgs c" "c_backend ?c = c_backend c" "c_nextMsg ?c = c_nextMsg c" "accepts ?c = accepts c"
    by (simp_all add: undefer_def chan_accepts_def fun_eq_iff)
  have "chan_inv ?c"
    using inv d(1) s inv' by (auto simp: chan_inv_def undefer_def set_amap_del)
  then have "ok ?c" using ok s f by (auto simp: chan_ok_def)
  moreover have "loose ?r ?c" using inv d(2) s f by (auto simp: chan_inv_def loose_def)
  moreover have "msgs_of c = add_mset (ident (c_msgs ?c ?r)) (msgs_of ?c)"
    by (rule total_held [OF ms]) (simp_all add: f)
  ultimately show ?thesis using ok s f by (auto simp: chan_ok_def)
qed

theorem deferred_loop_ok:
  assumes "ok c" "length (dq_items (c_deferredPQ c)) < n"
  shows "\<exists>dirty' c'. deferred_loop ops t n dirty c = Some (dirty', c') \<and> ok c' \<and>
    msgs_of c' = msgs_of c \<and>
    c_deferredMessages c' = filter (\<lambda>(i, x). sint t < prio_of (c_items c) x) (c_deferredMessages c) \<and>
    c_inFlightMessages c' = c_inFlightMessages c \<and> same_items (c_items c) (c_items c') \<and> c_msgs c' = c_msgs c \<and>
    c_exitFlag c' = c_exitFlag c \<and> (dirty' \<longleftrightarrow> dirty \<or> (\<exists>x \<in> snd ` set (c_deferredMessages c). prio_of (c_items c) x \<le> sint t))"
  using assms
proof (induction n arbitrary: c dirty)
  case (Suc n)
  have df: "defer_inv (c_msgs c) (c_items c) (c_deferredMessages c) (c_deferredPQ c)"
    using chan_ok_inv [OF Suc.prems(1)] by (simp add: chan_inv_def)
  from defer_shift [OF df, of t] show ?case
  proof (elim disjE exE conjE, goal_cases)
    case (1 d)
    then have "filter (\<lambda>(i, x). sint t < prio_of (c_items c) x) (c_deferredMessages c) = c_deferredMessages c"
      by (intro filter_True) auto
    moreover have "\<not> (\<exists>x \<in> snd ` set (c_deferredMessages c). prio_of (c_items c) x \<le> sint t)"
      using 1 by (force simp: not_le)
    ultimately show ?case using 1 Suc.prems(1) by simp
  next
    case (2 x its pq)
    let ?r = "it_Value (c_items c x)"
    let ?i = "m_ID (c_msgs c ?r)"
    let ?u = "undefer ?i its pq c"
    have v: "it_Value (its x) = ?r" using 2(5) by (simp add: same_items_def)
    have o: "ok ?u" "loose ?r ?u" "accepts c (c_msgs c ?r)" "msgs_of c = add_mset (ident (c_msgs c ?r)) (msgs_of ?u)"
      using shift_out_of_deferral [OF Suc.prems(1) 2(2,5,4)] by blast+
    have f: "c_msgs ?u = c_msgs c" "accepts ?u = accepts c" by (simp_all add: undefer_def chan_accepts_def fun_eq_iff)
    have "accepts ?u (c_msgs ?u ?r)" using o(3) f by simp
    from put_ok [OF o(1,2) this] obtain mem bk ca where q: "Channel_put ops ?r ?u =
        Some (None, ?u\<lparr>c_memoryMsgChan := mem, c_backend := bk, c_calls := ca\<rparr>)"
      "ok (?u\<lparr>c_memoryMsgChan := mem, c_backend := bk, c_calls := ca\<rparr>)"
      "msgs_of (?u\<lparr>c_memoryMsgChan := mem, c_backend := bk, c_calls := ca\<rparr>) =
        add_mset (ident (c_msgs ?u ?r)) (msgs_of ?u)" by blast
    let ?w = "?u\<lparr>c_memoryMsgChan := mem, c_backend := bk, c_calls := ca\<rparr>"
    have w: "c_deferredMessages ?w = amap_del ?i (c_deferredMessages c)" "c_deferredPQ ?w = pq" "c_items ?w = its"
      "c_inFlightMessages ?w = c_inFlightMessages c" "c_msgs ?w = c_msgs c" "c_exitFlag ?w = c_exitFlag c"
      by (simp_all add: undefer_def)
    have dist: "distinct (map fst (c_deferredMessages c))" using df by (simp add: defer_inv_def)
    have "length (dq_items pq) < n"
    proof -
      have "length (dq_items pq) = length (amap_del ?i (c_deferredMessages c))"
        using 2(4) unfolding defer_inv_def by (metis length_map size_mset)
      moreover have "length (c_deferredMessages c) = Suc (length (amap_del ?i (c_deferredMessages c)))"
        using mset_amap_del [OF dist 2(2)] by (metis size_add_mset size_mset)
      moreover have "length (dq_items (c_deferredPQ c)) = length (c_deferredMessages c)"
        using df unfolding defer_inv_def by (metis length_map size_mset)
      ultimately show ?thesis using Suc.prems(2) by simp
    qed
    then obtain d' c' where ih: "deferred_loop ops t n True ?w = Some (d', c')" "ok c'" "msgs_of c' = msgs_of ?w"
      "c_deferredMessages c' = filter (\<lambda>(i, x). sint t < prio_of its x) (amap_del ?i (c_deferredMessages c))"
      "c_inFlightMessages c' = c_inFlightMessages c" "same_items its (c_items c')" "c_msgs c' = c_msgs c"
      "c_exitFlag c' = c_exitFlag c" d'
      using Suc.IH [OF q(2), of True] unfolding w by blast
    have "x \<in> snd ` set (c_deferredMessages c)" using map_of_SomeD [OF 2(2)] by force
    then have due: "\<exists>x \<in> snd ` set (c_deferredMessages c). prio_of (c_items c) x \<le> sint t" using 2(3) by blast
    have "c_deferredMessages c' = filter (\<lambda>(i, x). sint t < prio_of (c_items c) x) (c_deferredMessages c)"
      using ih(4) filter_amap_del [OF dist 2(2), of "\<lambda>(i, x). sint t < prio_of (c_items c) x"] 2(3)
        same_items_prio [OF 2(5)] by simp
    moreover have "msgs_of c' = msgs_of c" using ih(3) q(3) o(4) f by simp
    moreover have "popDeferredMessage ?i (c\<lparr>c_items := its, c_deferredPQ := pq\<rparr>) = (Inr x, ?u)"
      using 2(2) by (simp add: popDeferredMessage_def undefer_def)
    then have "deferred_loop ops t (Suc n) dirty c = Some (d', c')"
      using 2(1) v q(1) ih(1) by (simp add: Let_def)
    ultimately show ?case using ih(2,5,7-9) due same_items_trans [OF 2(5) ih(6)] by blast
  qed
qed simp

section \<open>Closing\<close>

lemma write_backend_all_ok:
  assumes "b_inv b" "\<forall>m \<in> set ms. b_accepts b (encodeMessage m)"
  shows "\<exists>b'. write_backend_all ops ms (Backend b) = Some (Backend b') \<and> b_inv b' \<and>
    b_contents b' = b_contents b @ map encodeMessage ms \<and> b_accepts b' = b_accepts b"
  using assms
proof (induction ms arbitrary: b)
  case (Cons m ms)
  then obtain b1 where b1: "writeMessageToBackend ops m (Backend b) = Some (None, Backend b1)" "b_inv b1"
    "b_contents b1 = b_contents b @ [encodeMessage m]" "b_accepts b1 = b_accepts b"
    using write_law [of b m] by auto
  then show ?case using Cons.IH [of b1] Cons.prems(2) by auto
qed simp

theorem flush_ok:
  assumes "ok c"
  shows "\<exists>c' b'. Channel_flush ops c = Some c' \<and> c_backend c' = Backend b' \<and> b_inv b' \<and>
    mset (map disk_ident (b_contents b')) = msgs_of c \<and> c_memoryMsgChan c' = []"
proof -
  let ?h = "c_msgs c"
  let ?fl = "map (\<lambda>(i, r). ?h r) (c_inFlightMessages c)"
  let ?df = "map (\<lambda>(i, it). ?h (it_Value (c_items c it))) (c_deferredMessages c)"
  obtain b where b: "c_backend c = Backend b" "b_inv b" "\<forall>r \<in> set (held c). b_accepts b (encodeMessage (?h r))"
    using assms by (cases "c_backend c") (auto simp: chan_ok_def chan_accepts_def)
  have all: "map ?h (held c) = map ?h (c_memoryMsgChan c) @ ?fl @ ?df"
    by (simp add: held_def deferred_refs_def split_beta)
  have "\<forall>m \<in> set (map ?h (held c)). b_accepts b (encodeMessage m)" using b(3) by simp
  then have acc: "\<forall>m \<in> set (map ?h (c_memoryMsgChan c)). b_accepts b (encodeMessage m)"
    "\<forall>m \<in> set ?fl. b_accepts b (encodeMessage m)" "\<forall>m \<in> set ?df. b_accepts b (encodeMessage m)"
    unfolding all set_append ball_Un by blast+
  obtain b1 where b1: "write_backend_all ops (map ?h (c_memoryMsgChan c)) (Backend b) = Some (Backend b1)" "b_inv b1"
    "b_contents b1 = b_contents b @ map encodeMessage (map ?h (c_memoryMsgChan c))" "b_accepts b1 = b_accepts b"
    using write_backend_all_ok [OF b(2) acc(1)] by blast
  obtain b2 where b2: "write_backend_all ops ?fl (Backend b1) = Some (Backend b2)" "b_inv b2"
    "b_contents b2 = b_contents b1 @ map encodeMessage ?fl" "b_accepts b2 = b_accepts b1"
    using write_backend_all_ok [OF b1(2) acc(2) [folded b1(4)]] by blast
  obtain b3 where b3: "write_backend_all ops ?df (Backend b2) = Some (Backend b3)" "b_inv b3"
    "b_contents b3 = b_contents b2 @ map encodeMessage ?df"
    using write_backend_all_ok [OF b2(2) acc(3) [folded b1(4), folded b2(4)]] by blast
  have c3: "b_contents b3 = b_contents b @ map encodeMessage (map ?h (held c))"
    unfolding all b3(3) b2(3) b1(3) by simp
  have "\<forall>r \<in> set (held c). disk_ident (encodeMessage (?h r)) = ident (?h r)"
    using chan_ok_inv [OF assms] by (simp add: chan_inv_def)
  then have e: "map disk_ident (map encodeMessage (map ?h (held c))) = map (\<lambda>r. ident (?h r)) (held c)" by simp
  have "mset (map disk_ident (b_contents b3)) = msgs_of c"
    unfolding c3 chan_total_def disk_part_def b(1) map_append mset_append e backend.case by (rule add.commute)
  then show ?thesis using b(1) b1(1) b2(1) b3(1,2) by (simp add: Channel_flush_def Let_def)
qed

end

end
