(* ===== verification/Nsq_ChannelRun.thy ===== *)
theory Nsq_ChannelRun
  imports Nsq_ChannelTotal
begin

text \<open>
  A running channel as a state machine. \<open>chan_reach\<close> collects the states that a channel
  reaches through any interleaving of publishing, delivery, the consumers' commands and the
  scans, with the messages published so far and the messages finished so far. The invariant: at
  any time every published message is finished or still in the channel, exactly once.
\<close>

inductive chan_reach ::
    "'b BackendQueue \<Rightarrow> Options \<Rightarrow> ('b \<Rightarrow> bytes \<Rightarrow> bool) \<Rightarrow> 'b Channel \<Rightarrow>
       identity multiset \<Rightarrow> identity multiset \<Rightarrow> 'b Channel \<Rightarrow> cstore \<Rightarrow> bool"
  for ops :: "'b BackendQueue" and opts :: Options and acc :: "'b \<Rightarrow> bytes \<Rightarrow> bool" and c0 :: "'b Channel"
where
  start: "chan_reach ops opts acc c0 {#} {#} c0 cs"
| publish: "chan_reach ops opts acc c0 P F c cs \<Longrightarrow> wf_Message m \<Longrightarrow> chan_accepts acc c m \<Longrightarrow>
    m_ID m \<notin># image_mset fst P \<Longrightarrow> Channel_PutMessage ops m c = Some (None, c') \<Longrightarrow>
    chan_reach ops opts acc c0 (add_mset (ident m) P) F c' cs"
| publish_deferred: "chan_reach ops opts acc c0 P F c cs \<Longrightarrow> wf_Message m \<Longrightarrow> chan_accepts acc c m \<Longrightarrow>
    m_ID m \<notin># image_mset fst P \<Longrightarrow> Channel_PutMessageDeferred now m timeout c = Some c' \<Longrightarrow>
    chan_reach ops opts acc c0 (add_mset (ident m) P) F c' cs"
| send_memory: "chan_reach ops opts acc c0 P F c cs \<Longrightarrow> recv_memory c = Some (r, c1) \<Longrightarrow>
    deliver now r k timeout c1 = Some (e, c') \<Longrightarrow>
    chan_reach ops opts acc c0 P F c' (cs(k := SendingMessage (cs k)))"
| send_backend: "chan_reach ops opts acc c0 P F c cs \<Longrightarrow> recv_backend ops c = Some (d, c1) \<Longrightarrow>
    decodeMessage d = Inr m \<Longrightarrow> alloc_msg m c1 = (r, c2) \<Longrightarrow> deliver now r k timeout c2 = Some (e, c') \<Longrightarrow>
    chan_reach ops opts acc c0 P F c' (cs(k := SendingMessage (cs k)))"
| finish: "chan_reach ops opts acc c0 P F c cs \<Longrightarrow> FinishMessage k i c = Some (None, c') \<Longrightarrow>
    map_of (c_inFlightMessages c) i = Some r \<Longrightarrow>
    chan_reach ops opts acc c0 P (add_mset (ident (c_msgs c r)) F) c' (cs(k := FinishedMessage (cs k)))"
| finish_failed: "chan_reach ops opts acc c0 P F c cs \<Longrightarrow> FinishMessage k i c = Some (Some e, c') \<Longrightarrow>
    chan_reach ops opts acc c0 P F c' cs"
| touch: "chan_reach ops opts acc c0 P F c cs \<Longrightarrow> TouchMessage opts now k i timeout c = Some (e, c') \<Longrightarrow>
    chan_reach ops opts acc c0 P F c' cs"
| requeue: "chan_reach ops opts acc c0 P F c cs \<Longrightarrow> RequeueMessage ops now k i timeout c = Some (e, c') \<Longrightarrow>
    chan_reach ops opts acc c0 P F c' (if e = None then cs(k := RequeuedMessage (cs k)) else cs)"
| scan_in_flight: "chan_reach ops opts acc c0 P F c cs \<Longrightarrow>
    processInFlightQueue ops t c cs = Some (dirty, c', cs') \<Longrightarrow> chan_reach ops opts acc c0 P F c' cs'"
| scan_deferred: "chan_reach ops opts acc c0 P F c cs \<Longrightarrow>
    processDeferredQueue ops t c = Some (dirty, c') \<Longrightarrow> chan_reach ops opts acc c0 P F c' cs"

text \<open>Nothing but \<open>exit\<close> raises the exit flag.\<close>

lemma exit_put: "Channel_put ops r c = Some (e, c') \<Longrightarrow> c_exitFlag c' = c_exitFlag c"
  by (auto simp: Channel_put_def split: if_splits bind_splits)

lemma exit_flight:
  "pushInFlightMessage r c = (e, c') \<Longrightarrow> c_exitFlag c' = c_exitFlag c"
  "popInFlightMessage k i c = (x, c') \<Longrightarrow> c_exitFlag c' = c_exitFlag c"
  "addToInFlightPQ r c = Some c' \<Longrightarrow> c_exitFlag c' = c_exitFlag c"
  "removeFromInFlightPQ r c = Some c' \<Longrightarrow> c_exitFlag c' = c_exitFlag c"
  "popDeferredMessage i c = (y, c') \<Longrightarrow> c_exitFlag c' = c_exitFlag c"
  by (auto simp: pushInFlightMessage_def popInFlightMessage_def addToInFlightPQ_def removeFromInFlightPQ_def
      popDeferredMessage_def Let_def split: option.splits if_splits bind_splits)

lemma exit_defer: "StartDeferredTimeout now r t c = Some (e, c') \<Longrightarrow> c_exitFlag c' = c_exitFlag c"
  by (auto simp: StartDeferredTimeout_def pushDeferredMessage_def addToDeferredPQ_def Let_def
      split: option.splits bind_splits)

lemma exit_upd [simp]: "c_exitFlag (upd_msg r f c) = c_exitFlag c"
  by (simp add: upd_msg_def)

lemma exit_deliver: "deliver now r k t c = Some (e, c') \<Longrightarrow> c_exitFlag c' = c_exitFlag c"
  by (auto simp: deliver_def StartInFlightTimeout_def Let_def dest!: exit_flight
      split: prod.splits option.splits bind_splits)

lemma exit_finish: "FinishMessage k i c = Some (e, c') \<Longrightarrow> c_exitFlag c' = c_exitFlag c"
  by (auto simp: FinishMessage_def dest!: exit_flight split: prod.splits sum.splits bind_splits)

lemma exit_touch: "TouchMessage opts now k i t c = Some (e, c') \<Longrightarrow> c_exitFlag c' = c_exitFlag c"
  by (auto simp: TouchMessage_def Let_def dest!: exit_flight
      split: prod.splits sum.splits option.splits bind_splits)

lemma exit_requeue: "RequeueMessage ops now k i t c = Some (e, c') \<Longrightarrow> c_exitFlag c' = c_exitFlag c"
  by (auto simp: RequeueMessage_def Let_def Channel_Exiting_def dest!: exit_flight exit_put exit_defer
      split: prod.splits sum.splits if_splits bind_splits)

lemma exit_inflight_loop:
  "inflight_loop ops t n d c cs = Some (d', c', cs') \<Longrightarrow> c_exitFlag c' = c_exitFlag c"
proof (induction n arbitrary: d c cs)
  case (Suc n)
  then show ?case
    by (auto simp: Let_def dest!: exit_flight exit_put split: prod.splits sum.splits option.splits bind_splits)
qed simp

lemma exit_deferred_loop: "deferred_loop ops t n d c = Some (d', c') \<Longrightarrow> c_exitFlag c' = c_exitFlag c"
proof (induction n arbitrary: d c)
  case (Suc n)
  then show ?case
    by (auto simp: Let_def dest!: exit_flight exit_put split: prod.splits sum.splits option.splits bind_splits)
qed simp

context backend_fifo
begin

theorem PutMessageDeferred_ok:
  assumes "ok c" "wf_Message m" "accepts c m" "m_ID m \<notin># image_mset fst (msgs_of c)"
  shows "\<exists>c'. Channel_PutMessageDeferred now m timeout c = Some c' \<and> ok c' \<and>
    msgs_of c' = add_mset (ident m) (msgs_of c) \<and> c_exitFlag c' = c_exitFlag c"
proof -
  obtain r c0 where a: "alloc_msg m c = (r, c0)" by fastforce
  let ?c = "c0\<lparr>c_messageCount := c_messageCount c0 + 1\<rparr>"
  note ao = alloc_ok [OF assms(1,2) a]
  have e: "c_exitFlag ?c = c_exitFlag c" using a by (auto simp: alloc_msg_def)
  have "m_ID (c_msgs ?c r) \<notin> fst ` set (c_deferredMessages ?c)"
    using deferred_key_total [OF chan_ok_inv [OF assms(1)], of "m_ID m" b_contents] assms(4) ao by auto
  moreover have "ok ?c" "loose r ?c" "accepts ?c (c_msgs ?c r)" using ao assms(3) by simp_all
  ultimately obtain its pq where "StartDeferredTimeout now r timeout ?c = Some (None, deferred r (now + timeout) its pq ?c)"
    "ok (deferred r (now + timeout) its pq ?c)"
    "msgs_of (deferred r (now + timeout) its pq ?c) = add_mset (ident (c_msgs ?c r)) (msgs_of ?c)"
    using defer_ok by blast
  moreover have "c_exitFlag (deferred r (now + timeout) its pq ?c) = c_exitFlag ?c" by (simp add: deferred_def)
  ultimately show ?thesis using a ao e by (simp add: Channel_PutMessageDeferred_def)
qed

definition chan_good :: "identity multiset \<Rightarrow> identity multiset \<Rightarrow> 'b Channel \<Rightarrow> bool" where
  "chan_good P F c \<longleftrightarrow> ok c \<and> \<not> c_exitFlag c \<and> unique_ids P \<and> P = F + msgs_of c"

lemma unique_sub: "unique_ids (A + B) \<Longrightarrow> unique_ids B"
proof -
  assume u: "unique_ids (A + B)"
  have "count (image_mset fst B) i \<le> count (image_mset fst (A + B)) i" for i by simp
  then show ?thesis using u unfolding unique_ids_def by (meson order_trans)
qed

lemma good_unique: "chan_good P F c \<Longrightarrow> unique_ids (msgs_of c)"
  unfolding chan_good_def using unique_sub by blast

lemma good_publish:
  assumes "chan_good P F c" "m_ID m \<notin># image_mset fst P" "ok c'" "c_exitFlag c' = c_exitFlag c"
    "msgs_of c' = add_mset (ident m) (msgs_of c)"
  shows "chan_good (add_mset (ident m) P) F c'"
proof -
  have "fst (ident m) \<notin># image_mset fst P" using assms(2) unfolding ident_def fst_conv .
  then have "unique_ids (add_mset (ident m) P)" using assms(1) unfolding unique_ids_add chan_good_def by blast
  then show ?thesis using assms by (auto simp: chan_good_def)
qed

lemma good_finish:
  assumes "chan_good P F c" "FinishMessage k i c = Some (None, c')" "map_of (c_inFlightMessages c) i = Some r"
  shows "chan_good P (add_mset (ident (c_msgs c r)) F) c'"
proof -
  have ok: "ok c" using assms(1) by (simp add: chan_good_def)
  from FinishMessage_ok [OF ok, of k i] assms(2,3)
  have "ok c'" "msgs_of c = add_mset (ident (c_msgs c r)) (msgs_of c')" by (auto split: if_splits)
  then show ?thesis using assms(1) exit_finish [OF assms(2)] by (auto simp: chan_good_def)
qed

lemma good_failed_commands:
  "FinishMessage k i c = Some (Some e, c') \<Longrightarrow> ok c \<Longrightarrow> c' = c"
  using FinishMessage_ok [of c k i] by (auto split: option.splits if_splits)

lemma not_owned:
  assumes "\<not> (\<exists>r. map_of (c_inFlightMessages c) i = Some r \<and> m_clientID (c_msgs c r) = k)"
  shows "TouchMessage opts now k i t c = Some (x, c') \<Longrightarrow> c' = c \<and> x \<noteq> None"
    "RequeueMessage ops now k i t c = Some (x, c') \<Longrightarrow> c' = c \<and> x \<noteq> None"
  using assms
  by (auto simp: TouchMessage_def RequeueMessage_def popInFlightMessage_def split: option.splits if_splits)

lemma good_touch:
  assumes "chan_good P F c" "TouchMessage opts now k i timeout c = Some (e, c')"
  shows "chan_good P F c'"
proof (cases "\<exists>r. map_of (c_inFlightMessages c) i = Some r \<and> m_clientID (c_msgs c r) = k")
  case True
  then obtain r where "map_of (c_inFlightMessages c) i = Some r" "m_clientID (c_msgs c r) = k" by blast
  from TouchMessage_ok [OF _ good_unique [OF assms(1)] this, of opts now timeout]
  have "ok c' \<and> msgs_of c' = msgs_of c" using assms by (auto simp: chan_good_def)
  then show ?thesis using assms(1) exit_touch [OF assms(2)] by (auto simp: chan_good_def)
next
  case False
  then show ?thesis using not_owned(1) [OF False assms(2)] assms(1) by simp
qed

lemma good_requeue:
  assumes "chan_good P F c" "RequeueMessage ops now k i timeout c = Some (e, c')"
  shows "chan_good P F c'"
proof (cases "\<exists>r. map_of (c_inFlightMessages c) i = Some r \<and> m_clientID (c_msgs c r) = k")
  case True
  then obtain r where "map_of (c_inFlightMessages c) i = Some r" "m_clientID (c_msgs c r) = k" by blast
  from RequeueMessage_ok [OF _ good_unique [OF assms(1)] this, of now timeout]
  have "ok c' \<and> msgs_of c' = msgs_of c" using assms by (auto simp: chan_good_def)
  then show ?thesis using assms(1) exit_requeue [OF assms(2)] by (auto simp: chan_good_def)
next
  case False
  then show ?thesis using not_owned(2) [OF False assms(2)] assms(1) by simp
qed

lemma good_scans:
  "chan_good P F c \<Longrightarrow> processInFlightQueue ops t c cs = Some (d, c', cs') \<Longrightarrow> chan_good P F c'"
  "chan_good P F c \<Longrightarrow> processDeferredQueue ops t c = Some (d, c') \<Longrightarrow> chan_good P F c'"
proof -
  assume g: "chan_good P F c"
  then have ok: "ok c" "\<not> Channel_Exiting c" by (simp_all add: chan_good_def Channel_Exiting_def)
  {
    assume "processInFlightQueue ops t c cs = Some (d, c', cs')"
    then have l: "inflight_loop ops t (Suc (length (pq_elems (c_inFlightPQ c)))) False c cs = Some (d, c', cs')"
      using ok(2) by (simp add: processInFlightQueue_def del: inflight_loop.simps)
    then have "ok c' \<and> msgs_of c' = msgs_of c"
      using inflight_loop_ok [OF ok(1) lessI, of t False cs] by auto
    then show "chan_good P F c'" using g exit_inflight_loop [OF l] by (auto simp: chan_good_def)
  next
    assume "processDeferredQueue ops t c = Some (d, c')"
    then have l: "deferred_loop ops t (Suc (length (dq_items (c_deferredPQ c)))) False c = Some (d, c')"
      using ok(2) by (simp add: processDeferredQueue_def del: deferred_loop.simps)
    then have "ok c' \<and> msgs_of c' = msgs_of c"
      using deferred_loop_ok [OF ok(1) lessI, of t False] by auto
    then show "chan_good P F c'" using g exit_deferred_loop [OF l] by (auto simp: chan_good_def)
  }
qed

lemma good_send:
  assumes "chan_good P F c"
  shows "recv_memory c = Some (r, c1) \<Longrightarrow> deliver now r k timeout c1 = Some (e, c') \<Longrightarrow> chan_good P F c'"
    "recv_backend ops c = Some (d, c1) \<Longrightarrow> decodeMessage d = Inr m \<Longrightarrow> alloc_msg m c1 = (r, c2) \<Longrightarrow>
       deliver now r k timeout c2 = Some (e, c') \<Longrightarrow> chan_good P F c'"
proof -
  have ok: "ok c" using assms by (simp add: chan_good_def)
  {
    assume a: "recv_memory c = Some (r, c1)" "deliver now r k timeout c1 = Some (e, c')"
    have "c_exitFlag c1 = c_exitFlag c" using a(1) by (auto simp: recv_memory_def split: list.splits)
    then show "chan_good P F c'"
      using deliver_memory_ok [OF ok good_unique [OF assms] a(1), of now k timeout] a(2) assms exit_deliver [OF a(2)]
      by (auto simp: chan_good_def)
  next
    assume a: "recv_backend ops c = Some (d, c1)" "decodeMessage d = Inr m" "alloc_msg m c1 = (r, c2)"
      "deliver now r k timeout c2 = Some (e, c')"
    have "c_exitFlag c1 = c_exitFlag c" using a(1) by (auto simp: recv_backend_def)
    moreover have "c_exitFlag c2 = c_exitFlag c1" using a(3) by (auto simp: alloc_msg_def)
    ultimately show "chan_good P F c'"
      using recv_backend_ok [OF ok good_unique [OF assms] a(1), of now k timeout] a(2-4) assms exit_deliver [OF a(4)]
      by (auto simp: chan_good_def)
  }
qed

theorem reach_good:
  assumes "chan_reach ops opts b_accepts c0 P F c cs" "ok c0" "\<not> c_exitFlag c0" "msgs_of c0 = {#}"
  shows "chan_good P F c"
  using assms(1)
proof (induction rule: chan_reach.induct)
  case (start cs)
  then show ?case using assms by (simp add: chan_good_def unique_ids_def)
next
  case (publish P F c cs m c')
  then have "ok c" "\<not> c_exitFlag c" by (simp_all add: chan_good_def)
  from PutMessage_ok [OF this(1) publish(2,3) this(2)] publish(5)
  have p: "ok c'" "msgs_of c' = add_mset (ident m) (msgs_of c)" by auto
  have "c_exitFlag c' = c_exitFlag c"
    using publish(5) by (auto simp: Channel_PutMessage_def alloc_msg_def Let_def dest!: exit_put
        split: if_splits option.splits bind_splits)
  then show ?case using good_publish [OF publish.IH publish(4) p(1) _ p(2)] by simp
next
  case (publish_deferred P F c cs m now timeout c')
  have ok: "ok c" using publish_deferred.IH by (simp add: chan_good_def)
  have "m_ID m \<notin># image_mset fst (msgs_of c)"
    using publish_deferred(4) publish_deferred.IH by (auto simp: chan_good_def)
  from PutMessageDeferred_ok [OF ok publish_deferred(2,3) this, of now timeout] publish_deferred(5)
  show ?case using good_publish [OF publish_deferred.IH publish_deferred(4)] by auto
next
  case (send_memory P F c cs r c1 now k timeout e c')
  then show ?case using good_send(1) by blast
next
  case (send_backend P F c cs d c1 m r c2 now k timeout e c')
  then show ?case using good_send(2) by blast
next
  case (finish P F c cs k i c' r)
  then show ?case using good_finish by blast
next
  case (finish_failed P F c cs k i e c')
  then have "c' = c" using good_failed_commands by (auto simp: chan_good_def)
  then show ?case using finish_failed.IH by simp
next
  case (touch P F c cs now k i timeout e c')
  then show ?case using good_touch by blast
next
  case (requeue P F c cs now k i timeout e c')
  then show ?case using good_requeue by blast
next
  case (scan_in_flight P F c cs t dirty c' cs')
  then show ?case using good_scans(1) by blast
next
  case (scan_deferred P F c cs t dirty c')
  then show ?case using good_scans(2) by blast
qed

end

end
