(* ===== verification/Nsq_ChannelProps.thy ===== *)
theory Nsq_ChannelProps
  imports Nsq_ChannelRun Nsq_DiskProps
begin

text \<open>
  The guarantees of a channel, for any backend that keeps the contract of a first-in first-out
  queue. The disk queue of this repository keeps it (the interpretation \<open>disk\<close>), and the
  witnesses run on it.
\<close>

text \<open>A state of a channel that was created on an empty backend and has been in use since.\<close>

definition running ::
    "'b BackendQueue \<Rightarrow> ('b \<Rightarrow> bool) \<Rightarrow> ('b \<Rightarrow> bytes list) \<Rightarrow> ('b \<Rightarrow> bytes \<Rightarrow> bool) \<Rightarrow> Options \<Rightarrow>
       identity multiset \<Rightarrow> identity multiset \<Rightarrow> 'b Channel \<Rightarrow> cstore \<Rightarrow> bool" where
  "running ops b_inv b_contents b_accepts opts P F c cs \<longleftrightarrow>
     (\<exists>tn ch b. b_inv b \<and> b_contents b = [] \<and> \<not> HasSuffix ch ''#ephemeral'' \<and>
        chan_reach ops opts b_accepts (NewChannel opts tn ch b) P F c cs)"

lemma NewChannel_ok:
  assumes "b_inv b" "b_contents b = []" "\<not> HasSuffix ch ''#ephemeral''"
  shows "chan_ok b_inv b_contents b_accepts (NewChannel opts tn ch b)"
    "chan_total b_contents (NewChannel opts tn ch b) = {#}" "\<not> c_exitFlag (NewChannel opts tn ch b)"
  using assms chan_inv_new [of opts tn ch b]
  by (simp_all add: chan_ok_def chan_total_def NewChannel_def Channel_initPQ_def held_def deferred_refs_def
      disk_part_def Let_def)

context backend_fifo
begin

abbreviation "runs \<equiv> running ops b_inv b_contents b_accepts"

lemma running_good:
  assumes "runs opts P F c cs"
  shows "chan_good P F c"
proof -
  obtain tn ch b where b: "b_inv b" "b_contents b = []" "\<not> HasSuffix ch ''#ephemeral''"
    and r: "chan_reach ops opts b_accepts (NewChannel opts tn ch b) P F c cs"
    using assms unfolding running_def by blast
  show ?thesis by (rule reach_good [OF r]) (simp_all add: NewChannel_ok b)
qed

lemma running_ok:
  assumes "runs opts P F c cs"
  shows "ok c" "unique_ids (msgs_of c)" "\<not> c_exitFlag c"
  using running_good [OF assms] good_unique [OF running_good [OF assms]] by (simp_all add: chan_good_def)

lemma running_progress:
  assumes "runs opts P F c cs"
  shows "FinishMessage k i c \<noteq> None" "TouchMessage opts now k i timeout c \<noteq> None"
    "RequeueMessage ops now k i timeout c \<noteq> None" "processInFlightQueue ops t c cs' \<noteq> None"
    "processDeferredQueue ops t c \<noteq> None"
proof -
  note ok = running_ok [OF assms]
  show "FinishMessage k i c \<noteq> None" using FinishMessage_ok [OF ok(1), of k i] by (auto split: option.splits if_splits)
  show "TouchMessage opts now k i timeout c \<noteq> None"
  proof (cases "\<exists>r. map_of (c_inFlightMessages c) i = Some r \<and> m_clientID (c_msgs c r) = k")
    case True
    then obtain r where "map_of (c_inFlightMessages c) i = Some r" "m_clientID (c_msgs c r) = k" by blast
    from TouchMessage_ok [OF ok(1,2) this, of opts now timeout] show ?thesis by auto
  qed (auto simp: TouchMessage_def popInFlightMessage_def split: option.splits)
  show "RequeueMessage ops now k i timeout c \<noteq> None"
  proof (cases "\<exists>r. map_of (c_inFlightMessages c) i = Some r \<and> m_clientID (c_msgs c r) = k")
    case True
    then obtain r where "map_of (c_inFlightMessages c) i = Some r" "m_clientID (c_msgs c r) = k" by blast
    from RequeueMessage_ok [OF ok(1,2) this ok(3), of now timeout] show ?thesis by auto
  qed (auto simp: RequeueMessage_def popInFlightMessage_def split: option.splits)
  show "processInFlightQueue ops t c cs' \<noteq> None"
    using inflight_loop_ok [OF ok(1) lessI, of t False cs']
    by (auto simp: processInFlightQueue_def simp del: inflight_loop.simps)
  show "processDeferredQueue ops t c \<noteq> None"
    using deferred_loop_ok [OF ok(1) lessI, of t False]
    by (auto simp: processDeferredQueue_def simp del: deferred_loop.simps)
qed

end

lemma map_of_filter_distinct:
  assumes "distinct (map fst xs)" "map_of xs i = Some r"
  shows "map_of (filter P xs) i = (if P (i, r) then Some r else None)"
proof (cases "P (i, r)")
  case True
  then show ?thesis using assms map_of_SomeD [OF assms(2)] by (simp add: distinct_map_filter)
next
  case False
  then have "i \<notin> fst ` set (filter P xs)" using assms map_of_SomeD [OF assms(2)] by (auto dest: eq_key_imp_eq_value)
  then show ?thesis using False by (simp add: map_of_eq_None_iff)
qed

section \<open>Sample states\<close>

definition sample_msg :: Message where
  "sample_msg = NewMessage 5 (replicate 16 97) [104, 105]"

definition sample_queue :: ioState where
  "sample_queue = the (fresh_queue 100 26 1000 10)"

definition sample_client :: cstore where
  "sample_client k = newClientV2 (NewOptions 1) 0 k (Inr ''host'') []"

abbreviation disk_running where
  "disk_running \<equiv> running disk_ops disk_inv disk_contents disk_accepts"

lemma sample_queue_ok:
  "disk_inv sample_queue" "disk_contents sample_queue = []" "disk_accepts sample_queue = size_ok 26 1000"
proof -
  obtain s where s: "fresh_queue 100 26 1000 10 = Some s" "io_rel s []" "io_pc s = AtSelect"
    "\<not> d_exitFlag (io_dq s)" "ok_size (io_dq s) = size_ok 26 1000"
    using fresh_queue_ok [of 26 1000 100 10] by auto
  then have q: "sample_queue = s" by (simp add: sample_queue_def)
  show "disk_inv sample_queue" unfolding q disk_inv_iff using s(2-4) by blast
  show "disk_contents sample_queue = []" unfolding q using disk_contents_eq [OF s(2)] .
  show "disk_accepts sample_queue = size_ok 26 1000" unfolding q disk_accepts_def using s(5) .
qed

lemma sample_wf: "wf_Message sample_msg"
  by (simp add: sample_msg_def wf_Message_def NewMessage_def MsgIDLength_def)

lemma sample_accepts:
  "chan_accepts disk_accepts (NewChannel opts tn ''ch'' sample_queue) sample_msg"
  using length_encodeMessage [OF sample_wf]
  by (simp add: chan_accepts_def NewChannel_def Channel_initPQ_def HasSuffix_def Let_def sample_queue_ok(3)
      size_ok_def sample_msg_def NewMessage_def minValidMsgLength_def MsgIDLength_def)

lemma sample_running:
  "disk_running opts {#} {#} (NewChannel opts ''t'' ''ch'' sample_queue) sample_client"
  unfolding running_def
  by (rule exI [of _ "''t''"], rule exI [of _ "''ch''"], rule exI [of _ sample_queue])
    (simp add: sample_queue_ok HasSuffix_def chan_reach.start)

lemma running_step:
  assumes "running ops bi cont acc opts P F c cs"
    "\<And>c0. chan_reach ops opts acc c0 P F c cs \<Longrightarrow> chan_reach ops opts acc c0 P' F' c' cs'"
  shows "running ops bi cont acc opts P' F' c' cs'"
  using assms unfolding running_def by blast

text \<open>A channel with one message in flight to consumer 7, and one with a deferred message.\<close>

lemma sample_in_flight:
  "\<exists>c cs. disk_running (NewOptions 1) {#ident sample_msg#} {#} c cs \<and>
     map_of (c_inFlightMessages c) (replicate 16 97) = Some 0 \<and> ident (c_msgs c 0) = ident sample_msg \<and>
     m_clientID (c_msgs c 0) = 7 \<and> m_deliveryTS (c_msgs c 0) = 10 \<and>
     m_pri (c_msgs c 0) = UnixNano 70 \<and> c_deferredMessages c = []"
proof -
  let ?o = "NewOptions 1" and ?c0 = "NewChannel (NewOptions 1) ''t'' ''ch'' sample_queue"
  let ?c1 = "?c0\<lparr>c_msgs := (c_msgs ?c0)(0 := sample_msg), c_nextMsg := 1, c_memoryMsgChan := [0], c_messageCount := 1\<rparr>"
  let ?c2 = "?c1\<lparr>c_memoryMsgChan := []\<rparr>"
  have p: "Channel_PutMessage disk_ops sample_msg ?c0 = Some (None, ?c1)"
    by (simp add: Channel_PutMessage_def Channel_Exiting_def NewChannel_def Channel_initPQ_def alloc_msg_def
        Channel_put_def NewOptions_def Let_def)
  have r1: "disk_running ?o {#ident sample_msg#} {#} ?c1 sample_client"
    by (rule running_step [OF sample_running]) (rule chan_reach.publish [OF _ sample_wf sample_accepts _ p], simp_all)
  have rc: "recv_memory ?c1 = Some (0, ?c2)" by (simp add: recv_memory_def)
  note ok = disk.running_ok [OF r1]
  obtain c3 where c3: "deliver 10 0 7 60 ?c2 = Some (None, c3)"
    "c_inFlightMessages c3 = c_inFlightMessages ?c1 @ [(m_ID (c_msgs ?c1 0), 0)]"
    "(c_msgs c3 0)\<lparr>m_index := 0\<rparr> = (delivered 10 7 60 (c_msgs ?c1 0))\<lparr>m_index := 0\<rparr>"
    using disk.deliver_memory_ok [OF ok(1,2) rc, of 10 7 60] by blast
  have "c_inFlightMessages ?c1 = []" "c_deferredMessages ?c2 = []"
    by (simp_all add: NewChannel_def Channel_initPQ_def Let_def)
  moreover have "c_deferredMessages c3 = c_deferredMessages ?c2"
    using c3(1) by (auto simp: deliver_def StartInFlightTimeout_def upd_msg_def pushInFlightMessage_def addToInFlightPQ_def
        Let_def split: option.splits bind_splits)
  moreover have "disk_running ?o {#ident sample_msg#} {#} c3 (sample_client(7 := SendingMessage (sample_client 7)))"
    by (rule running_step [OF r1]) (rule chan_reach.send_memory [OF _ rc c3(1)])
  moreover have "ident (c_msgs c3 0) = ident sample_msg" "m_clientID (c_msgs c3 0) = 7"
    "m_deliveryTS (c_msgs c3 0) = 10" "m_pri (c_msgs c3 0) = UnixNano 70"
    using arg_cong [OF c3(3), of ident] arg_cong [OF c3(3), of m_clientID] arg_cong [OF c3(3), of m_deliveryTS]
      arg_cong [OF c3(3), of m_pri]
    by (simp_all add: delivered_def ident_def)
  ultimately show ?thesis using c3(2) by (auto simp: sample_msg_def NewMessage_def)
qed

lemma disk_keeps_contract: "backend_fifo disk_ops disk_inv disk_contents disk_accepts"
  by (rule disk.backend_fifo_axioms)

section \<open>Properties\<close>

text \<open>C1. No message is lost and none is duplicated: through any interleaving of publishing,
  deferred publishing, delivery from memory and from disk, FIN, REQ, TOUCH and the timeout scans, the
  messages published to a channel (by identifier, body and timestamp) are exactly those finished
  so far together with those in its memory queue, in flight, deferred and on disk.\<close>

theorem channel_conserves_messages:
  assumes "backend_fifo ops b_inv b_contents b_accepts"
    "running ops b_inv b_contents b_accepts opts published finished c cs"
  shows "published = finished + chan_total b_contents c \<and> unique_ids published \<and> chan_inv c"
  using backend_fifo.running_good [OF assms(1,2)]
  unfolding backend_fifo.chan_good_def [OF assms(1)] chan_ok_def by blast

theorem channel_conserves_messages_witness:
  "\<exists>c. {#ident sample_msg#} = {#} + chan_total disk_contents c \<and> map_of (c_inFlightMessages c) (replicate 16 97) = Some 0"
proof -
  obtain c cs where c: "disk_running (NewOptions 1) {#ident sample_msg#} {#} c cs"
    "map_of (c_inFlightMessages c) (replicate 16 97) = Some 0"
    using sample_in_flight by blast
  show ?thesis using channel_conserves_messages [OF disk_keeps_contract c(1)] c(2) by blast
qed

text \<open>C25. In every state a channel reaches, no consumer command and no scan panics or
  runs forever: FIN, TOUCH, REQ and both scans return.\<close>

theorem channel_operations_return:
  assumes "backend_fifo ops b_inv b_contents b_accepts"
    "running ops b_inv b_contents b_accepts opts published finished c cs"
  shows "FinishMessage k i c \<noteq> None \<and> TouchMessage opts now k i timeout c \<noteq> None \<and>
    RequeueMessage ops now k i timeout c \<noteq> None \<and> processInFlightQueue ops t c cs' \<noteq> None \<and>
    processDeferredQueue ops t c \<noteq> None"
  using backend_fifo.running_progress [OF assms] by simp

theorem channel_operations_return_witness:
  "\<exists>c. map_of (c_inFlightMessages c) (replicate 16 97) = Some 0 \<and>
     processInFlightQueue disk_ops (UnixNano 99) c sample_client \<noteq> None"
proof -
  obtain c cs where c: "disk_running (NewOptions 1) {#ident sample_msg#} {#} c cs"
    "map_of (c_inFlightMessages c) (replicate 16 97) = Some 0"
    using sample_in_flight by blast
  show ?thesis using channel_operations_return [OF disk_keeps_contract c(1)] c(2) by blast
qed

text \<open>C23. FIN removes a message for good exactly when it is in flight to the client that sends
  the command; for a message that is not in flight, or in flight to another client, it returns
  the error of the protocol and changes nothing.\<close>

theorem finish_exactly_own_message:
  assumes "backend_fifo ops b_inv b_contents b_accepts"
    "running ops b_inv b_contents b_accepts opts published finished c cs"
  shows "case map_of (c_inFlightMessages c) i of
      None \<Rightarrow> FinishMessage k i c = Some (Some ''ID not in flight'', c)
    | Some r \<Rightarrow>
        if m_clientID (c_msgs c r) \<noteq> k then FinishMessage k i c = Some (Some ''client does not own message'', c)
        else \<exists>c'. FinishMessage k i c = Some (None, c') \<and> m_ID (c_msgs c r) = i \<and>
               chan_total b_contents c = add_mset (ident (c_msgs c r)) (chan_total b_contents c')"
  using backend_fifo.FinishMessage_ok [OF assms(1) backend_fifo.running_ok(1) [OF assms], of k i]
  by (auto split: option.splits)

theorem finish_exactly_own_message_witness:
  "\<exists>c. FinishMessage 8 (replicate 16 97) c = Some (Some ''client does not own message'', c) \<and>
     FinishMessage 7 (replicate 16 98) c = Some (Some ''ID not in flight'', c) \<and>
     (\<exists>c'. FinishMessage 7 (replicate 16 97) c = Some (None, c') \<and>
        chan_total disk_contents c = add_mset (ident sample_msg) (chan_total disk_contents c'))"
proof -
  obtain c cs where c: "disk_running (NewOptions 1) {#ident sample_msg#} {#} c cs"
    "map_of (c_inFlightMessages c) (replicate 16 97) = Some 0" "ident (c_msgs c 0) = ident sample_msg"
    "m_clientID (c_msgs c 0) = 7"
    using sample_in_flight by blast
  note f = finish_exactly_own_message [OF disk_keeps_contract c(1)]
  have "map_of (c_inFlightMessages c) (replicate 16 98) = None"
  proof (rule ccontr)
    assume "\<not> ?thesis"
    then have "(replicate 16 98 :: MessageID) \<in> fst ` set (c_inFlightMessages c)" by (simp add: map_of_eq_None_iff)
    from inflight_key_total [OF chan_ok_inv [OF disk.running_ok(1) [OF c(1)]] this, of disk_contents]
      disk.running_good [OF c(1)]
    show False unfolding disk.chan_good_def by (auto simp: ident_def sample_msg_def NewMessage_def dest!: sym [of "{#_#}"])
  qed
  then show ?thesis using f [where i = "replicate 16 98" and k = 7] f [where i = "replicate 16 97" and k = 7] f [where i = "replicate 16 97" and k = 8] c
    by (intro exI [of _ c]) auto
qed

text \<open>TOUCH of an own message keeps it in flight and moves its deadline to the requested
  time, but never past the delivery time plus the maximal message timeout.\<close>

theorem touch_extends_deadline:
  assumes "backend_fifo ops b_inv b_contents b_accepts"
    "running ops b_inv b_contents b_accepts opts published finished c cs"
    "map_of (c_inFlightMessages c) i = Some r" "m_clientID (c_msgs c r) = k"
  shows "\<exists>c'. TouchMessage opts now k i timeout c = Some (None, c') \<and>
    map_of (c_inFlightMessages c') i = Some r \<and> m_clientID (c_msgs c' r) = k \<and>
    m_pri (c_msgs c' r) = UnixNano (min (now + timeout) (m_deliveryTS (c_msgs c r) + o_MaxMsgTimeout opts))"
  using backend_fifo.TouchMessage_ok
    [OF assms(1) backend_fifo.running_ok(1,2) [OF assms(1,2)] assms(3,4), of opts now timeout] by blast

theorem touch_extends_deadline_witness:
  "\<exists>(c :: ioState Channel) c'. TouchMessage (NewOptions 1) 50 7 (replicate 16 97) 60 c = Some (None, c') \<and>
     m_pri (c_msgs c 0) = UnixNano 70 \<and> m_pri (c_msgs c' 0) = UnixNano 110"
proof -
  obtain c cs where c: "disk_running (NewOptions 1) {#ident sample_msg#} {#} c cs"
    "map_of (c_inFlightMessages c) (replicate 16 97) = Some 0" "m_clientID (c_msgs c 0) = 7"
    "m_deliveryTS (c_msgs c 0) = 10" "m_pri (c_msgs c 0) = UnixNano 70"
    using sample_in_flight by blast
  have "min (50 + 60) (10 + o_MaxMsgTimeout (NewOptions 1)) = 110" by (simp add: NewOptions_def Second_def Millisecond_def)
  then show ?thesis
    using touch_extends_deadline [OF disk_keeps_contract c(1-3), of 50 60] c(4,5) by auto
qed

text \<open>REQ of an own message takes it out of flight and back to the channel: at once with
  timeout zero, into the deferred messages otherwise. No message is lost on the way.\<close>

theorem requeue_returns_message:
  assumes "backend_fifo ops b_inv b_contents b_accepts"
    "running ops b_inv b_contents b_accepts opts published finished c cs"
    "map_of (c_inFlightMessages c) i = Some r" "m_clientID (c_msgs c r) = k"
  shows "\<exists>c'. RequeueMessage ops now k i timeout c = Some (None, c') \<and>
    chan_total b_contents c' = chan_total b_contents c \<and> map_of (c_inFlightMessages c') i = None \<and>
    (timeout \<noteq> 0 \<longrightarrow> map_of (c_deferredMessages c') i \<noteq> None)"
  using backend_fifo.RequeueMessage_ok
    [OF assms(1) backend_fifo.running_ok(1,2) [OF assms(1,2)] assms(3,4)
      backend_fifo.running_ok(3) [OF assms(1,2)], of now timeout] by blast

theorem requeue_returns_message_witness:
  "\<exists>c c'. RequeueMessage disk_ops 20 7 (replicate 16 97) 5 c = Some (None, c') \<and>
     map_of (c_inFlightMessages c) (replicate 16 97) = Some 0 \<and>
     map_of (c_inFlightMessages c') (replicate 16 97) = None \<and>
     map_of (c_deferredMessages c') (replicate 16 97) \<noteq> None"
proof -
  obtain c cs where c: "disk_running (NewOptions 1) {#ident sample_msg#} {#} c cs"
    "map_of (c_inFlightMessages c) (replicate 16 97) = Some 0" "m_clientID (c_msgs c 0) = 7"
    using sample_in_flight by blast
  show ?thesis using requeue_returns_message [OF disk_keeps_contract c, of 20 5] c(2) by auto
qed

text \<open>A scan of the in-flight messages at time \<open>t\<close> requeues exactly those whose
  deadline is not after \<open>t\<close>, and leaves all others in flight, in their order.\<close>

theorem in_flight_scan_exact:
  assumes "backend_fifo ops b_inv b_contents b_accepts"
    "running ops b_inv b_contents b_accepts opts published finished c cs"
  shows "\<exists>dirty c' cs1. processInFlightQueue ops t c cs0 = Some (dirty, c', cs1) \<and>
    c_inFlightMessages c' = filter (\<lambda>(i, r). sint t < sint (m_pri (c_msgs c r))) (c_inFlightMessages c) \<and>
    c_deferredMessages c' = c_deferredMessages c \<and> chan_total b_contents c' = chan_total b_contents c"
proof -
  note ok = backend_fifo.running_ok [OF assms]
  show ?thesis using backend_fifo.inflight_loop_ok [OF assms(1) ok(1) lessI, of t False cs0] ok(3)
    by (auto simp: processInFlightQueue_def Channel_Exiting_def pri_of_def simp del: inflight_loop.simps)
qed

theorem in_flight_scan_exact_witness:
  "\<exists>c dirty c' cs1 d2 c2 cs2. map_of (c_inFlightMessages c) (replicate 16 97) = Some 0 \<and>
     processInFlightQueue disk_ops (UnixNano 69) c sample_client = Some (dirty, c', cs1) \<and>
     map_of (c_inFlightMessages c') (replicate 16 97) = Some 0 \<and>
     processInFlightQueue disk_ops (UnixNano 70) c sample_client = Some (d2, c2, cs2) \<and>
     map_of (c_inFlightMessages c2) (replicate 16 97) = None"
proof -
  obtain c cs where c: "disk_running (NewOptions 1) {#ident sample_msg#} {#} c cs"
    "map_of (c_inFlightMessages c) (replicate 16 97) = Some 0" "m_pri (c_msgs c 0) = UnixNano 70"
    using sample_in_flight by blast
  note w = in_flight_scan_exact [OF disk_keeps_contract c(1), of _ sample_client]
  have d: "distinct (map fst (c_inFlightMessages c))"
    using disk.running_ok(1) [OF c(1)] by (simp add: chan_ok_def chan_inv_def flight_inv_def)
  have "map_of (filter (\<lambda>(i, r). sint (UnixNano 69) < sint (m_pri (c_msgs c r))) (c_inFlightMessages c))
      (replicate 16 97) = Some 0"
    using c(2,3) d by (simp add: map_of_filter_distinct UnixNano_def)
  moreover have "map_of (filter (\<lambda>(i, r). sint (UnixNano 70) < sint (m_pri (c_msgs c r))) (c_inFlightMessages c))
      (replicate 16 97) = None"
    using c(2,3) d by (simp add: map_of_filter_distinct)
  ultimately show ?thesis using w [of "UnixNano 69"] w [of "UnixNano 70"] c(2) by metis
qed

lemma heap_Push_priority:
  assumes "heap_Push y (h, pqueue_New (pqSize opts)) = Some (a, b)"
  shows "it_Priority (a x) = it_Priority (h x)"
  using assms heap_Push_spec [OF dpq_inv_new [of "pqSize opts" h], of y] by (auto simp: pqSize_def same_items_def)

text \<open>A channel with one message deferred until time 15.\<close>

lemma sample_deferred:
  "\<exists>c cs. disk_running (NewOptions 1) {#ident sample_msg#} {#} c cs \<and>
     c_deferredMessages c = [(replicate 16 97, 0)] \<and> it_Priority (c_items c 0) = 15"
proof -
  let ?c0 = "NewChannel (NewOptions 1) ''t'' ''ch'' sample_queue"
  note r0 = sample_running [of "NewOptions 1"]
  have a: "m_ID sample_msg \<notin># image_mset fst (chan_total disk_contents ?c0)"
    using disk.running_good [OF r0] by (simp add: disk.chan_good_def)
  obtain c where c: "Channel_PutMessageDeferred 10 sample_msg 5 ?c0 = Some c"
    using disk.PutMessageDeferred_ok [OF disk.running_ok(1) [OF r0] sample_wf sample_accepts a, of 10 5] by blast
  have "disk_running (NewOptions 1) {#ident sample_msg#} {#} c sample_client"
    by (rule running_step [OF r0]) (rule chan_reach.publish_deferred [OF _ sample_wf sample_accepts _ c], simp_all)
  moreover have "c_deferredMessages c = [(replicate 16 97, 0)] \<and> it_Priority (c_items c 0) = 15"
    using c by (auto simp: Channel_PutMessageDeferred_def alloc_msg_def StartDeferredTimeout_def
        pushDeferredMessage_def addToDeferredPQ_def NewChannel_def Channel_initPQ_def Let_def amap_put_def
        sample_msg_def NewMessage_def UnixNano_def heap_Push_priority split: bind_splits)
  ultimately show ?thesis by blast
qed

text \<open>A scan of the deferred messages at time \<open>t\<close> puts exactly those whose time has
  come back in the queue, and leaves all others deferred.\<close>

theorem deferred_scan_exact:
  assumes "backend_fifo ops b_inv b_contents b_accepts"
    "running ops b_inv b_contents b_accepts opts published finished c cs"
  shows "\<exists>dirty c'. processDeferredQueue ops t c = Some (dirty, c') \<and>
    c_deferredMessages c' = filter (\<lambda>(i, x). sint t < sint (it_Priority (c_items c x))) (c_deferredMessages c) \<and>
    c_inFlightMessages c' = c_inFlightMessages c \<and> chan_total b_contents c' = chan_total b_contents c"
proof -
  note ok = backend_fifo.running_ok [OF assms]
  show ?thesis using backend_fifo.deferred_loop_ok [OF assms(1) ok(1) lessI, of t False] ok(3)
    by (auto simp: processDeferredQueue_def Channel_Exiting_def prio_of_def simp del: deferred_loop.simps)
qed

theorem deferred_scan_exact_witness:
  "\<exists>c d1 c1 d2 c2. c_deferredMessages c = [(replicate 16 97, 0)] \<and>
     processDeferredQueue disk_ops 14 c = Some (d1, c1) \<and> c_deferredMessages c1 = [(replicate 16 97, 0)] \<and>
     processDeferredQueue disk_ops 15 c = Some (d2, c2) \<and> c_deferredMessages c2 = []"
proof -
  obtain c cs where c: "disk_running (NewOptions 1) {#ident sample_msg#} {#} c cs"
    "c_deferredMessages c = [(replicate 16 97, 0)]" "it_Priority (c_items c 0) = 15"
    using sample_deferred by blast
  note w = deferred_scan_exact [OF disk_keeps_contract c(1)]
  obtain d1 c1 where "processDeferredQueue disk_ops 14 c = Some (d1, c1)" "c_deferredMessages c1 = [(replicate 16 97, 0)]"
    using w [of 14] c(2,3) by auto
  moreover obtain d2 c2 where "processDeferredQueue disk_ops 15 c = Some (d2, c2)" "c_deferredMessages c2 = []"
    using w [of 15] c(2,3) by auto
  ultimately show ?thesis using c(2) by blast
qed

text \<open>C24. When a channel is closed, \<open>flush\<close> writes everything it still holds to its backend:
  memory queue, in-flight and deferred messages are all on disk afterwards.\<close>

theorem flush_saves_every_message:
  assumes "backend_fifo ops b_inv b_contents b_accepts"
    "running ops b_inv b_contents b_accepts opts published finished c cs"
  shows "\<exists>c' b. Channel_flush ops c = Some c' \<and> c_backend c' = Backend b \<and> c_memoryMsgChan c' = [] \<and>
    published = finished + mset (map disk_ident (b_contents b))"
proof -
  have "published = finished + chan_total b_contents c"
    using backend_fifo.running_good [OF assms] unfolding backend_fifo.chan_good_def [OF assms(1)] by blast
  then show ?thesis using backend_fifo.flush_ok [OF assms(1) backend_fifo.running_ok(1) [OF assms]] by auto
qed

theorem flush_saves_every_message_witness:
  "\<exists>c c' b. c_deferredMessages c = [(replicate 16 97, 0)] \<and> Channel_flush disk_ops c = Some c' \<and>
     c_backend c' = Backend b \<and> map disk_ident (disk_contents b) = [ident sample_msg]"
proof -
  obtain c cs where c: "disk_running (NewOptions 1) {#ident sample_msg#} {#} c cs"
    "c_deferredMessages c = [(replicate 16 97, 0)]"
    using sample_deferred by blast
  obtain c' b where f: "Channel_flush disk_ops c = Some c'" "c_backend c' = Backend b"
    "{#ident sample_msg#} = mset (map disk_ident (disk_contents b))"
    using flush_saves_every_message [OF disk_keeps_contract c(1)] by auto
  have "map disk_ident (disk_contents b) = [ident sample_msg]"
    using f(3) by (metis mset_single_iff_right mset.simps(1) mset.simps(2))
  then show ?thesis using c(2) f(1,2) by (intro exI [of _ c] exI [of _ c'] exI [of _ b]) (simp only: simp_thms)
qed

end
