(* ===== verification/Nsq_Topic.thy ===== *)
theory Nsq_Topic
  imports Nsq_Channel Nsq_Guid
begin

text \<open>
  \<open>nsqd/topic.go\<close>: a topic takes published messages, in memory or on disk, and its
  \<open>messagePump\<close> copies each of them to every channel. The topic's backend is the queue of
  \<open>disk/diskqueue.go\<close>. The rendezvous channels (\<open>channelUpdateChan\<close>, \<open>pauseChan\<close>) are
  modelled as the step of the pump they trigger; \<open>exitChan\<close> is the exit flag. The pump is in
  one of three states: waiting for \<open>Start\<close>, running with its own list of channels, or gone.

  The second goroutine of a topic, \<open>putMemoryToFile\<close>, receives once from the same memory
  queue as the pump and writes to \<open>memoryBackend\<close>, a second disk queue over the same
  directory that is created without a logging function. \<open>memoryToFileChan\<close> is never made, so
  the second \<open>select\<close> of \<open>put\<close> always takes its default.
\<close>

datatype 'a outcome = Returns 'a | Panics | Blocks

fun outcome_of :: "'a option \<Rightarrow> 'a outcome" where
  "outcome_of None = Panics"
| "outcome_of (Some x) = Returns x"

datatype pump = PumpWaiting | PumpRunning "string list" bool | PumpExited

datatype filer = FilerWaiting | FilerDone

record 'b Topic =
  t_messageCount :: u64
  t_messageBytes :: u64
  t_name :: string
  t_channelMap :: "(string \<times> 'b Channel) list"
  t_backend :: "ioState backend"
  t_memoryMsgChan :: "Message list"
  t_memCap :: nat
  t_memoryBackend :: ioState
  t_startChan :: bool
  t_pump :: pump
  t_filer :: filer
  t_exitFlag :: bool
  t_idFactory :: guidFactory
  t_ephemeral :: bool
  t_deleted :: bool
  t_paused :: bool
  t_calls :: "nsqd_call list"

section \<open>Construction\<close>

text \<open>\<open>diskqueue.New\<close> with the options a topic passes; the loop runs until its first
  \<open>select\<close>, at most \<open>n\<close> times round after read errors.\<close>

definition topic_queue :: "Options \<Rightarrow> bool \<Rightarrow> disk \<Rightarrow> ioState option" where
  "topic_queue opts logf D =
     map_option io_start
       (dq_New (o_MaxBytesPerFile opts) (int minValidMsgLength) (o_MaxMsgSize opts + int minValidMsgLength)
          (o_SyncEvery opts) logf D)"

definition NewTopic :: "Options \<Rightarrow> nat \<Rightarrow> string \<Rightarrow> disk \<Rightarrow> 'b Topic option" where
  "NewTopic opts n topicName D = do {
     let eph = HasSuffix topicName ''#ephemeral'';
     bk <- (if eph then Some DummyBackend
            else do { q <- topic_queue opts True D; map_option Backend (run_top n q) });
     mb <- topic_queue opts False D;
     Some \<lparr>t_messageCount = 0, t_messageBytes = 0, t_name = topicName, t_channelMap = [],
           t_backend = bk, t_memoryMsgChan = [], t_memCap = nat (o_MemQueueSize opts),
           t_memoryBackend = mb, t_startChan = False, t_pump = PumpWaiting, t_filer = FilerWaiting,
           t_exitFlag = False, t_idFactory = NewGUIDFactory (word_of_int (o_ID opts)),
           t_ephemeral = eph, t_deleted = False, t_paused = False, t_calls = [CallNotify]\<rparr> }"

definition Topic_putMemoryToFile :: "'b Topic \<Rightarrow> 'b Topic option" where
  "Topic_putMemoryToFile t =
     (case t_memoryMsgChan t of
        [] \<Rightarrow> Some t
      | m # ms \<Rightarrow> do {
          mb <- run_top 1 (t_memoryBackend t);
          (_, b) <- writeMessageToBackend disk_ops m (Backend mb);
          Some (t\<lparr>t_memoryMsgChan := ms, t_filer := FilerDone,
                  t_memoryBackend := (case b of Backend s \<Rightarrow> s | DummyBackend \<Rightarrow> mb)\<rparr>) })"

definition Topic_Exiting :: "'b Topic \<Rightarrow> bool" where
  "Topic_Exiting t = t_exitFlag t"

definition Topic_IsPaused :: "'b Topic \<Rightarrow> bool" where
  "Topic_IsPaused t = t_paused t"

definition Topic_Depth :: "'b Topic \<Rightarrow> int" where
  "Topic_Depth t = int (length (t_memoryMsgChan t)) + backend_Depth disk_ops (t_backend t)"

section \<open>Publishing\<close>

definition Topic_put :: "Message \<Rightarrow> 'b Topic \<Rightarrow> (go_error option \<times> 'b Topic) option" where
  "Topic_put m t =
     (if length (t_memoryMsgChan t) < t_memCap t
      then Some (None, t\<lparr>t_memoryMsgChan := t_memoryMsgChan t @ [m]\<rparr>)
      else do {
        (err, b) <- writeMessageToBackend disk_ops m (t_backend t);
        Some (err, t\<lparr>t_backend := b, t_calls := t_calls t @ [CallSetHealth err]\<rparr>) })"

definition Topic_PutMessage :: "Message \<Rightarrow> 'b Topic \<Rightarrow> (go_error option \<times> 'b Topic) option" where
  "Topic_PutMessage m t =
     (if t_exitFlag t then Some (Some ''exiting'', t)
      else do {
        (err, t1) <- Topic_put m t;
        (case err of
           Some e \<Rightarrow> Some (Some e, t1)
         | None \<Rightarrow> Some (None, t1\<lparr>t_messageCount := t_messageCount t1 + 1,
                                   t_messageBytes := t_messageBytes t1 + of_nat (length (m_Body m))\<rparr>)) })"

fun put_messages :: "nat \<Rightarrow> nat \<Rightarrow> Message list \<Rightarrow> 'b Topic \<Rightarrow> (go_error option \<times> 'b Topic) option" where
  "put_messages i nbytes [] t =
     Some (None, t\<lparr>t_messageBytes := t_messageBytes t + of_nat nbytes, t_messageCount := t_messageCount t + of_nat i\<rparr>)"
| "put_messages i nbytes (m # ms) t = do {
     (err, t1) <- Topic_put m t;
     (case err of
        Some e \<Rightarrow> Some (Some e, t1\<lparr>t_messageCount := t_messageCount t1 + of_nat i,
                                   t_messageBytes := t_messageBytes t1 + of_nat nbytes\<rparr>)
      | None \<Rightarrow> put_messages (i + 1) (nbytes + length (m_Body m)) ms t1) }"

definition Topic_PutMessages :: "Message list \<Rightarrow> 'b Topic \<Rightarrow> (go_error option \<times> 'b Topic) option" where
  "Topic_PutMessages msgs t =
     (if t_exitFlag t then Some (Some ''exiting'', t) else put_messages 0 0 msgs t)"

section \<open>The message pump\<close>

text \<open>The list of channels is read afresh, and the queues are selected on if there are any
  channels and the topic is not paused.\<close>

definition pump_refresh :: "'b Topic \<Rightarrow> 'b Topic" where
  "pump_refresh t =
     (case t_pump t of
        PumpRunning _ _ \<Rightarrow>
          let chans = map fst (t_channelMap t) in
          t\<lparr>t_pump := PumpRunning chans (\<not> (length chans = 0 \<or> Topic_IsPaused t))\<rparr>
      | _ \<Rightarrow> t)"

definition pump_pause :: "'b Topic \<Rightarrow> 'b Topic" where
  "pump_pause t =
     (case t_pump t of
        PumpRunning chans _ \<Rightarrow> t\<lparr>t_pump := PumpRunning chans (\<not> (length chans = 0 \<or> Topic_IsPaused t))\<rparr>
      | _ \<Rightarrow> t)"

definition Topic_Start :: "'b Topic \<Rightarrow> 'b Topic" where
  "Topic_Start t = t\<lparr>t_startChan := True\<rparr>"

definition pump_start :: "'b Topic \<Rightarrow> 'b Topic" where
  "pump_start t =
     (if t_pump t = PumpWaiting \<and> t_startChan t
      then let chans = map fst (t_channelMap t) in
           t\<lparr>t_startChan := False,
             t_pump := PumpRunning chans (0 < length chans \<and> \<not> Topic_IsPaused t)\<rparr>
      else t)"

definition pump_copy :: "int \<Rightarrow> nat \<Rightarrow> Message \<Rightarrow> Message" where
  "pump_copy now i msg =
     (if i > 0 then (NewMessage now (m_ID msg) (m_Body msg))\<lparr>m_Timestamp := m_Timestamp msg,
                      m_deferred := m_deferred msg\<rparr>
      else msg)"

definition pump_put :: "'b BackendQueue \<Rightarrow> int \<Rightarrow> Message \<Rightarrow> 'b Channel \<Rightarrow> 'b Channel option" where
  "pump_put ops now chanMsg c =
     (if m_deferred chanMsg \<noteq> 0 then Channel_PutMessageDeferred now chanMsg (m_deferred chanMsg) c
      else map_option snd (Channel_PutMessage ops chanMsg c))"

fun fanout ::
    "'b BackendQueue \<Rightarrow> int \<Rightarrow> Message \<Rightarrow> nat \<Rightarrow> string list \<Rightarrow> (string \<times> 'b Channel) list \<Rightarrow>
       (string \<times> 'b Channel) list option" where
  "fanout ops now msg i [] cm = Some cm"
| "fanout ops now msg i (n # ns) cm =
     (case map_of cm n of
        None \<Rightarrow> fanout ops now msg (i + 1) ns cm
      | Some c \<Rightarrow> do {
          c' <- pump_put ops now (pump_copy now i msg) c;
          fanout ops now msg (i + 1) ns (amap_put n c' cm) })"

definition pump_deliver :: "'b BackendQueue \<Rightarrow> int \<Rightarrow> Message \<Rightarrow> 'b Topic \<Rightarrow> 'b Topic option" where
  "pump_deliver ops now msg t =
     (case t_pump t of
        PumpRunning chans _ \<Rightarrow> map_option (\<lambda>cm. t\<lparr>t_channelMap := cm\<rparr>) (fanout ops now msg 0 chans (t_channelMap t))
      | _ \<Rightarrow> Some t)"

text \<open>The receiving cases of the pump: from memory, and from the backend.\<close>

definition pump_memory :: "'b BackendQueue \<Rightarrow> int \<Rightarrow> 'b Topic \<Rightarrow> 'b Topic option" where
  "pump_memory ops now t =
     (case (t_pump t, t_memoryMsgChan t) of
        (PumpRunning _ True, m # ms) \<Rightarrow> pump_deliver ops now m (t\<lparr>t_memoryMsgChan := ms\<rparr>)
      | _ \<Rightarrow> Some t)"

definition pump_backend :: "'b BackendQueue \<Rightarrow> int \<Rightarrow> 'b Topic \<Rightarrow> 'b Topic option" where
  "pump_backend ops now t =
     (case (t_pump t, backend_Read disk_ops (t_backend t)) of
        (PumpRunning _ True, Some (buf, b)) \<Rightarrow>
          (case decodeMessage buf of
             Inl _ \<Rightarrow> Some (t\<lparr>t_backend := b\<rparr>)
           | Inr m \<Rightarrow> pump_deliver ops now m (t\<lparr>t_backend := b\<rparr>))
      | _ \<Rightarrow> Some t)"

section \<open>Channels of a topic\<close>

definition getOrCreateChannel ::
    "Options \<Rightarrow> 'b \<Rightarrow> string \<Rightarrow> 'b Topic \<Rightarrow> ('b Channel \<times> bool) \<times> 'b Topic" where
  "getOrCreateChannel opts b channelName t =
     (case map_of (t_channelMap t) channelName of
        Some c \<Rightarrow> ((c, False), t)
      | None \<Rightarrow>
          let c = NewChannel opts (t_name t) channelName b
          in ((c, True), t\<lparr>t_channelMap := amap_put channelName c (t_channelMap t)\<rparr>))"

definition Topic_GetChannel :: "Options \<Rightarrow> 'b \<Rightarrow> string \<Rightarrow> 'b Topic \<Rightarrow> 'b Channel \<times> 'b Topic" where
  "Topic_GetChannel opts b channelName t =
     (case getOrCreateChannel opts b channelName t of
        ((c, isNew), t1) \<Rightarrow> (c, if isNew then pump_refresh t1 else t1))"

definition Topic_GetExistingChannel :: "string \<Rightarrow> 'b Topic \<Rightarrow> go_error + 'b Channel" where
  "Topic_GetExistingChannel channelName t =
     (case map_of (t_channelMap t) channelName of None \<Rightarrow> Inl ''channel does not exist'' | Some c \<Rightarrow> Inr c)"

definition Topic_DeleteExistingChannel ::
    "'b BackendQueue \<Rightarrow> Options \<Rightarrow> string \<Rightarrow> 'b Topic \<Rightarrow> cstore \<Rightarrow> (go_error option \<times> 'b Topic \<times> cstore) option" where
  "Topic_DeleteExistingChannel ops opts channelName t cs =
     (case map_of (t_channelMap t) channelName of
        None \<Rightarrow> Some (Some ''channel does not exist'', t, cs)
      | Some c \<Rightarrow> do {
          let t1 = t\<lparr>t_channelMap := amap_del channelName (t_channelMap t)\<rparr>;
          (_, _, cs1) <- Channel_Delete ops opts c cs;
          let t2 = pump_refresh t1;
          Some (None,
            if length (t_channelMap t1) = 0 \<and> t_ephemeral t2 \<and> \<not> t_deleted t2
            then t2\<lparr>t_deleted := True, t_calls := t_calls t2 @ [CallDelete]\<rparr> else t2, cs1) })"

section \<open>Pausing, emptying, closing\<close>

definition Topic_doPause :: "bool \<Rightarrow> 'b Topic \<Rightarrow> go_error option \<times> 'b Topic" where
  "Topic_doPause pause t = (None, pump_pause (t\<lparr>t_paused := pause\<rparr>))"

definition Topic_Pause :: "'b Topic \<Rightarrow> go_error option \<times> 'b Topic" where
  "Topic_Pause t = Topic_doPause True t"

definition Topic_UnPause :: "'b Topic \<Rightarrow> go_error option \<times> 'b Topic" where
  "Topic_UnPause t = Topic_doPause False t"

definition Topic_Empty :: "'b Topic \<Rightarrow> (go_error option \<times> 'b Topic) option" where
  "Topic_Empty t = do {
     let t1 = t\<lparr>t_memoryMsgChan := []\<rparr>;
     (err, b) <- backend_Empty disk_ops (t_backend t1);
     Some (err, t1\<lparr>t_backend := b\<rparr>) }"

definition Topic_flush :: "'b Topic \<Rightarrow> 'b Topic option" where
  "Topic_flush t = do {
     b <- write_backend_all disk_ops (t_memoryMsgChan t) (t_backend t);
     Some (t\<lparr>t_memoryMsgChan := [], t_backend := b\<rparr>) }"

fun delete_channels ::
    "'b BackendQueue \<Rightarrow> Options \<Rightarrow> (string \<times> 'b Channel) list \<Rightarrow> cstore \<Rightarrow> cstore option" where
  "delete_channels ops opts [] cs = Some cs"
| "delete_channels ops opts ((n, c) # cm) cs = do {
     (_, _, cs1) <- Channel_Delete ops opts c cs;
     delete_channels ops opts cm cs1 }"

fun close_channels ::
    "'b BackendQueue \<Rightarrow> Options \<Rightarrow> (string \<times> 'b Channel) list \<Rightarrow> cstore \<Rightarrow>
       ((string \<times> 'b Channel) list \<times> cstore) option" where
  "close_channels ops opts [] cs = Some ([], cs)"
| "close_channels ops opts ((n, c) # cm) cs = do {
     (_, c1, cs1) <- Channel_Close ops opts c cs;
     (cm1, cs2) <- close_channels ops opts cm cs1;
     Some ((n, c1) # cm1, cs2) }"

text \<open>\<open>waitGroup.Wait\<close> in \<open>exit\<close>: the pump leaves because \<open>exitChan\<close> is closed, but
  \<open>putMemoryToFile\<close> only returns after it has received a message.\<close>

definition Topic_wait :: "'b Topic \<Rightarrow> 'b Topic outcome" where
  "Topic_wait t =
     (case t_filer t of
        FilerDone \<Rightarrow> Returns t
      | FilerWaiting \<Rightarrow>
          if t_memoryMsgChan t = [] then Blocks else outcome_of (Topic_putMemoryToFile t))"

definition exit_rest ::
    "'b BackendQueue \<Rightarrow> Options \<Rightarrow> bool \<Rightarrow> 'b Topic \<Rightarrow> cstore \<Rightarrow> (go_error option \<times> 'b Topic \<times> cstore) option" where
  "exit_rest ops opts deleted t cs =
     (if deleted
      then do {
        cs1 <- delete_channels ops opts (t_channelMap t) cs;
        (_, t1) <- Topic_Empty (t\<lparr>t_channelMap := []\<rparr>);
        (err, b) <- backend_Delete disk_ops (t_backend t1);
        Some (err, t1\<lparr>t_backend := b\<rparr>, cs1) }
      else do {
        (cm, cs1) <- close_channels ops opts (t_channelMap t) cs;
        t1 <- Topic_flush (t\<lparr>t_channelMap := cm\<rparr>);
        (err, b) <- backend_Close disk_ops (t_backend t1);
        Some (err, t1\<lparr>t_backend := b\<rparr>, cs1) })"

definition Topic_exit ::
    "'b BackendQueue \<Rightarrow> Options \<Rightarrow> bool \<Rightarrow> 'b Topic \<Rightarrow> cstore \<Rightarrow> (go_error option \<times> 'b Topic \<times> cstore) outcome" where
  "Topic_exit ops opts deleted t cs =
     (if t_exitFlag t then Returns (Some ''exiting'', t, cs)
      else case Topic_wait (t\<lparr>t_exitFlag := True, t_pump := PumpExited,
                  t_calls := (if deleted then t_calls t @ [CallNotify] else t_calls t)\<rparr>) of
             Blocks \<Rightarrow> Blocks
           | Panics \<Rightarrow> Panics
           | Returns t1 \<Rightarrow> outcome_of (exit_rest ops opts deleted t1 cs))"

definition Topic_Delete ::
    "'b BackendQueue \<Rightarrow> Options \<Rightarrow> 'b Topic \<Rightarrow> cstore \<Rightarrow> (go_error option \<times> 'b Topic \<times> cstore) outcome" where
  "Topic_Delete ops opts t cs = Topic_exit ops opts True t cs"

definition Topic_Close ::
    "'b BackendQueue \<Rightarrow> Options \<Rightarrow> 'b Topic \<Rightarrow> cstore \<Rightarrow> (go_error option \<times> 'b Topic \<times> cstore) outcome" where
  "Topic_Close ops opts t cs = Topic_exit ops opts False t cs"

text \<open>The streams that \<open>AggregateChannelE2eProcessingLatency\<close> merges.\<close>

definition latency_streams :: "'b Topic \<Rightarrow> i64 list list" where
  "latency_streams t = List.map_filter (\<lambda>(n, c). c_latency c) (t_channelMap t)"

end
