(* ===== verification/Nsq_Nsqd.thy ===== *)
theory Nsq_Nsqd
  imports Nsq_Topic
begin

text \<open>
  \<open>nsqd/nsqd.go\<close>: the daemon. It owns the topics, persists which topics and channels exist,
  and scans the channels for timeouts. What lies outside the process is the record \<open>env\<close>:
  the operations and the opening of the channels' external disk queues, the directory of each
  topic's own queue, and the answer of nsqlookupd to a request for channels. The metadata
  file is its decoded content: the JSON codec is not modelled. Also here:
  \<open>internal/util/rand.go\<close> and the commands \<open>nsqd/lookup.go\<close> sends to nsqlookupd.
\<close>

record 'b env =
  e_ops :: "'b BackendQueue"
  e_open :: "string \<Rightarrow> 'b"
  e_disk :: "string \<Rightarrow> disk"
  e_fuel :: nat
  e_lookup :: "string \<Rightarrow> go_error option \<times> string list"

record metaChannel =
  mc_Name :: string
  mc_Paused :: bool

record metaTopic =
  mt_Name :: string
  mt_Paused :: bool
  mt_Channels :: "metaChannel list"

datatype meta_file = MetaMissing | MetaUnreadable | MetaUnparsable | Meta "metaTopic list"

record 'b NSQD =
  n_clientIDSequence :: int
  n_opts :: Options
  n_isLoading :: bool
  n_errValue :: "go_error option"
  n_topicMap :: "(string \<times> 'b Topic) list"
  n_clients :: "int list"
  n_lookupdHTTPAddrs :: "string list"
  n_tlsConfig :: bool
  n_poolSize :: int
  n_file :: meta_file

definition TLSNotRequired :: int where "TLSNotRequired = 0"
definition TLSRequiredExceptHTTP :: int where "TLSRequiredExceptHTTP = 1"
definition TLSRequired :: int where "TLSRequired = 2"

section \<open>Construction and health\<close>

text \<open>\<open>New\<close> up to the listeners: the directory lock, the TLS configuration and the check of the
  percentiles are given by their results; the rewriting of the statsd prefix is left out.\<close>

definition nsqd_New ::
    "go_error option \<Rightarrow> go_error + bool \<Rightarrow> (string \<Rightarrow> bool) \<Rightarrow> meta_file \<Rightarrow> Options \<Rightarrow> go_error + 'b NSQD" where
  "nsqd_New lock tls percentile_ok file opts =
     (let opts1 = (if o_TLSClientAuthPolicy opts \<noteq> [] \<and> o_TLSRequired opts = TLSNotRequired
                   then opts\<lparr>o_TLSRequired := TLSRequired\<rparr> else opts) in
      if lock \<noteq> None then Inl ''--data-path in use (possibly by another instance of nsqd)''
      else if o_MaxDeflateLevel opts < 1 \<or> 9 < o_MaxDeflateLevel opts then Inl ''--max-deflate-level must be [1,9]''
      else if o_ID opts < 0 \<or> 1024 \<le> o_ID opts then Inl ''--node-id must be [0,1024)''
      else case tls of
             Inl e \<Rightarrow> Inl (''failed to build TLS config - '' @ e)
           | Inr tlsConfig \<Rightarrow>
               if \<not> tlsConfig \<and> o_TLSRequired opts1 \<noteq> TLSNotRequired
               then Inl ''cannot require TLS client connections without TLS key and cert''
               else if \<not> list_all percentile_ok (o_E2EProcessingLatencyPercentiles opts)
               then Inl ''invalid E2E processing latency percentile''
               else Inr \<lparr>n_clientIDSequence = 0, n_opts = opts1, n_isLoading = False, n_errValue = None,
                          n_topicMap = [], n_clients = [], n_lookupdHTTPAddrs = [], n_tlsConfig = tlsConfig,
                          n_poolSize = 0, n_file = file\<rparr>)"

definition nsqd_SetHealth :: "go_error option \<Rightarrow> 'b NSQD \<Rightarrow> 'b NSQD" where
  "nsqd_SetHealth e n = n\<lparr>n_errValue := e\<rparr>"

definition nsqd_GetError :: "'b NSQD \<Rightarrow> go_error option" where
  "nsqd_GetError n = n_errValue n"

definition nsqd_IsHealthy :: "'b NSQD \<Rightarrow> bool" where
  "nsqd_IsHealthy n \<longleftrightarrow> nsqd_GetError n = None"

definition nsqd_GetHealth :: "'b NSQD \<Rightarrow> string" where
  "nsqd_GetHealth n = (case nsqd_GetError n of Some e \<Rightarrow> ''NOK - '' @ e | None \<Rightarrow> ''OK'')"

definition nsqd_IsAuthEnabled :: "'b NSQD \<Rightarrow> bool" where
  "nsqd_IsAuthEnabled n \<longleftrightarrow> length (o_AuthHTTPAddresses (n_opts n)) \<noteq> 0"

definition nsqd_AddClient :: "int \<Rightarrow> 'b NSQD \<Rightarrow> 'b NSQD" where
  "nsqd_AddClient i n = (if i \<in> set (n_clients n) then n else n\<lparr>n_clients := n_clients n @ [i]\<rparr>)"

definition nsqd_RemoveClient :: "int \<Rightarrow> 'b NSQD \<Rightarrow> 'b NSQD" where
  "nsqd_RemoveClient i n = n\<lparr>n_clients := filter (\<lambda>x. x \<noteq> i) (n_clients n)\<rparr>"

section \<open>Topics\<close>

definition with_topic :: "string \<Rightarrow> 'b Topic \<Rightarrow> 'b NSQD \<Rightarrow> 'b NSQD" where
  "with_topic name t n = n\<lparr>n_topicMap := amap_put name t (n_topicMap n)\<rparr>"

definition get_channel :: "'b env \<Rightarrow> Options \<Rightarrow> string \<Rightarrow> 'b Topic \<Rightarrow> 'b Topic" where
  "get_channel env opts ch t =
     snd (Topic_GetChannel opts (e_open env (getBackendName (t_name t) ch)) ch t)"

definition precreate :: "'b env \<Rightarrow> Options \<Rightarrow> string list \<Rightarrow> 'b Topic \<Rightarrow> 'b Topic" where
  "precreate env opts chs t =
     fold (\<lambda>ch t. if HasSuffix ch ''#ephemeral'' then t else get_channel env opts ch t) chs t"

definition nsqd_GetTopic :: "'b env \<Rightarrow> string \<Rightarrow> 'b NSQD \<Rightarrow> 'b NSQD option" where
  "nsqd_GetTopic env topicName n =
     (case map_of (n_topicMap n) topicName of
        Some t \<Rightarrow> Some n
      | None \<Rightarrow> do {
          t <- NewTopic (n_opts n) (e_fuel env) topicName (e_disk env topicName);
          (if n_isLoading n then Some (with_topic topicName t n)
           else let t1 = (if 0 < length (n_lookupdHTTPAddrs n)
                          then precreate env (n_opts n) (snd (e_lookup env topicName)) t else t)
                in Some (with_topic topicName (Topic_Start t1) n)) })"

definition nsqd_GetExistingTopic :: "string \<Rightarrow> 'b NSQD \<Rightarrow> go_error + 'b Topic" where
  "nsqd_GetExistingTopic topicName n =
     (case map_of (n_topicMap n) topicName of None \<Rightarrow> Inl ''topic does not exist'' | Some t \<Rightarrow> Inr t)"

definition nsqd_DeleteExistingTopic ::
    "'b env \<Rightarrow> string \<Rightarrow> 'b NSQD \<Rightarrow> cstore \<Rightarrow> (go_error option \<times> 'b NSQD \<times> cstore) outcome" where
  "nsqd_DeleteExistingTopic env topicName n cs =
     (case map_of (n_topicMap n) topicName of
        None \<Rightarrow> Returns (Some ''topic does not exist'', n, cs)
      | Some t \<Rightarrow>
          (case Topic_Delete (e_ops env) (n_opts n) t cs of
             Blocks \<Rightarrow> Blocks
           | Panics \<Rightarrow> Panics
           | Returns (_, _, cs1) \<Rightarrow> Returns (None, n\<lparr>n_topicMap := amap_del topicName (n_topicMap n)\<rparr>, cs1)))"

definition nsqd_channels :: "'b NSQD \<Rightarrow> (string \<times> string) list" where
  "nsqd_channels n = concat (map (\<lambda>(tn, t). map (\<lambda>(cn, c). (tn, cn)) (t_channelMap t)) (n_topicMap n))"

section \<open>Metadata\<close>

definition load_channel :: "'b env \<Rightarrow> Options \<Rightarrow> metaChannel \<Rightarrow> 'b Topic \<Rightarrow> 'b Topic" where
  "load_channel env opts mc t =
     (if \<not> IsValidChannelName (mc_Name mc) then t
      else let t1 = get_channel env opts (mc_Name mc) t in
           if mc_Paused mc
           then case map_of (t_channelMap t1) (mc_Name mc) of
                  None \<Rightarrow> t1
                | Some c \<Rightarrow> t1\<lparr>t_channelMap := amap_put (mc_Name mc) (c\<lparr>c_paused := True\<rparr>) (t_channelMap t1)\<rparr>
           else t1)"

fun load_topics :: "'b env \<Rightarrow> metaTopic list \<Rightarrow> 'b NSQD \<Rightarrow> 'b NSQD option" where
  "load_topics env [] n = Some n"
| "load_topics env (mt # mts) n =
     (if \<not> IsValidTopicName (mt_Name mt) then load_topics env mts n
      else do {
        n1 <- nsqd_GetTopic env (mt_Name mt) n;
        t <- map_of (n_topicMap n1) (mt_Name mt);
        let t1 = (if mt_Paused mt then snd (Topic_Pause t) else t);
        let t2 = fold (load_channel env (n_opts n1)) (mt_Channels mt) t1;
        load_topics env mts (with_topic (mt_Name mt) (Topic_Start t2) n1) })"

definition nsqd_LoadMetadata :: "'b env \<Rightarrow> 'b NSQD \<Rightarrow> (go_error option \<times> 'b NSQD) option" where
  "nsqd_LoadMetadata env n =
     (case n_file n of
        MetaUnreadable \<Rightarrow> Some (Some ''failed to read metadata'', n\<lparr>n_isLoading := False\<rparr>)
      | MetaMissing \<Rightarrow> Some (None, n\<lparr>n_isLoading := False\<rparr>)
      | MetaUnparsable \<Rightarrow> Some (Some ''failed to parse metadata'', n\<lparr>n_isLoading := False\<rparr>)
      | Meta mts \<Rightarrow> do {
          n1 <- load_topics env mts (n\<lparr>n_isLoading := True\<rparr>);
          Some (None, n1\<lparr>n_isLoading := False\<rparr>) })"

definition persist_channels :: "(string \<times> 'b Channel) list \<Rightarrow> metaChannel list" where
  "persist_channels cm =
     map (\<lambda>(k, c). \<lparr>mc_Name = c_name c, mc_Paused = Channel_IsPaused c\<rparr>)
       (filter (\<lambda>(k, c). \<not> c_ephemeral c) cm)"

definition persist_topics :: "(string \<times> 'b Topic) list \<Rightarrow> metaTopic list" where
  "persist_topics tm =
     map (\<lambda>(k, t). \<lparr>mt_Name = t_name t, mt_Paused = Topic_IsPaused t,
                     mt_Channels = persist_channels (t_channelMap t)\<rparr>)
       (filter (\<lambda>(k, t). \<not> t_ephemeral t) tm)"

text \<open>The write to a temporary file and the rename either both succeed or leave the old file.\<close>

definition nsqd_PersistMetadata :: "go_error option \<Rightarrow> 'b NSQD \<Rightarrow> go_error option \<times> 'b NSQD" where
  "nsqd_PersistMetadata io n =
     (case io of
        Some e \<Rightarrow> (Some e, n)
      | None \<Rightarrow> (None, n\<lparr>n_file := Meta (persist_topics (n_topicMap n))\<rparr>))"

text \<open>The goroutine \<open>Notify\<close> starts, once lookupLoop has taken the notification.\<close>

definition nsqd_Notify :: "go_error option \<Rightarrow> 'b NSQD \<Rightarrow> 'b NSQD" where
  "nsqd_Notify io n = (if n_isLoading n then n else snd (nsqd_PersistMetadata io n))"

fun close_topics :: "'b env \<Rightarrow> Options \<Rightarrow> (string \<times> 'b Topic) list \<Rightarrow> cstore \<Rightarrow>
    ((string \<times> 'b Topic) list \<times> cstore) outcome" where
  "close_topics env opts [] cs = Returns ([], cs)"
| "close_topics env opts ((k, t) # tm) cs =
     (case Topic_Close (e_ops env) opts t cs of
        Blocks \<Rightarrow> Blocks
      | Panics \<Rightarrow> Panics
      | Returns (_, t1, cs1) \<Rightarrow>
          (case close_topics env opts tm cs1 of
             Blocks \<Rightarrow> Blocks
           | Panics \<Rightarrow> Panics
           | Returns (tm1, cs2) \<Rightarrow> Returns ((k, t1) # tm1, cs2)))"

definition nsqd_Exit :: "'b env \<Rightarrow> go_error option \<Rightarrow> 'b NSQD \<Rightarrow> cstore \<Rightarrow> ('b NSQD \<times> cstore) outcome" where
  "nsqd_Exit env io n cs =
     (let n1 = snd (nsqd_PersistMetadata io n) in
      case close_topics env (n_opts n1) (n_topicMap n1) cs of
        Blocks \<Rightarrow> Blocks
      | Panics \<Rightarrow> Panics
      | Returns (tm, cs1) \<Rightarrow> Returns (n1\<lparr>n_topicMap := tm\<rparr>, cs1))"

section \<open>The scan of the queues\<close>

definition idealPoolSize :: "Options \<Rightarrow> int \<Rightarrow> int" where
  "idealPoolSize opts num =
     (let i = num div 4 in
      if i < 1 then 1 else if o_QueueScanWorkerPoolMax opts < i then o_QueueScanWorkerPoolMax opts else i)"

text \<open>The workers started and stopped while the pool is resized: \<open>True\<close> for a start.\<close>

function resize_loop :: "int \<Rightarrow> int \<Rightarrow> bool list \<times> int" where
  "resize_loop ideal pool =
     (if ideal = pool then ([], pool)
      else if ideal < pool then (let (acts, p) = resize_loop ideal (pool - 1) in (False # acts, p))
      else (let (acts, p) = resize_loop ideal (pool + 1) in (True # acts, p)))"
  by pat_completeness auto
termination
  by (relation "measure (\<lambda>(i, p). nat \<bar>i - p\<bar>)") auto

declare resize_loop.simps [simp del]

definition nsqd_resizePool :: "int \<Rightarrow> 'b NSQD \<Rightarrow> bool list \<times> 'b NSQD" where
  "nsqd_resizePool num n =
     (let (acts, p) = resize_loop (idealPoolSize (n_opts n) num) (n_poolSize n)
      in (acts, n\<lparr>n_poolSize := p\<rparr>))"

definition queueScanWorker ::
    "'b BackendQueue \<Rightarrow> int \<Rightarrow> 'b Channel \<Rightarrow> cstore \<Rightarrow> (bool \<times> 'b Channel \<times> cstore) option" where
  "queueScanWorker ops now c cs = do {
     let t = UnixNano now;
     (d1, c1, cs1) <- processInFlightQueue ops t c cs;
     (d2, c2) <- processDeferredQueue ops t c1;
     Some (d1 \<or> d2, c2, cs1) }"

text \<open>\<open>util.UniqRands\<close>: a partial Fisher-Yates shuffle; the random numbers are an argument.\<close>

fun uniq_loop :: "nat list \<Rightarrow> nat \<Rightarrow> nat \<Rightarrow> nat \<Rightarrow> nat list \<Rightarrow> nat list" where
  "uniq_loop rs i quantity maxval xs =
     (if i < quantity
      then case rs of
             [] \<Rightarrow> xs
           | r # rs' \<Rightarrow> let j = r mod maxval + i in uniq_loop rs' (i + 1) quantity (maxval - 1) (swap_list xs i j)
      else xs)"

declare uniq_loop.simps [simp del]

definition UniqRands :: "nat list \<Rightarrow> nat \<Rightarrow> nat \<Rightarrow> nat list" where
  "UniqRands rs quantity maxval =
     (let q = (if maxval < quantity then maxval else quantity)
      in take q (uniq_loop rs 0 q maxval [0..<maxval]))"

section \<open>Commands to nsqlookupd\<close>

datatype lookup_cmd = LRegister string string | LUnRegister string string | LPing

definition channel_notification :: "'b Channel \<Rightarrow> lookup_cmd" where
  "channel_notification c =
     (if Channel_Exiting c then LUnRegister (c_topicName c) (c_name c) else LRegister (c_topicName c) (c_name c))"

definition topic_notification :: "'b Topic \<Rightarrow> lookup_cmd" where
  "topic_notification t = (if Topic_Exiting t then LUnRegister (t_name t) [] else LRegister (t_name t) [])"

text \<open>The registrations sent over a new connection to an nsqlookupd.\<close>

definition connect_commands :: "'b NSQD \<Rightarrow> lookup_cmd list" where
  "connect_commands n =
     concat (map (\<lambda>(k, t).
       if length (t_channelMap t) = 0 then [LRegister (t_name t) []]
       else map (\<lambda>(k', c). LRegister (c_topicName c) (c_name c)) (t_channelMap t)) (n_topicMap n))"

end
