(* ===== verification/Nsq_ProtocolV2.thy ===== *)
theory Nsq_ProtocolV2
  imports Nsq_Nsqd
begin

text \<open>
  \<open>nsqd/protocol_v2.go\<close>: the commands of the wire protocol. The state is the daemon and the store of
  client objects; a handler takes the identifier of its client. A client's input is the list of bytes
  it will ever send, so a read past the end is the error of a closed connection. \<open>client.Channel\<close>
  is the pair of names the client subscribed to; a channel that has been deleted meanwhile has no
  messages in flight. A handler returns an error or an optional response, with the new state; \<open>None\<close>
  is a panic (or, in SUB, a retry loop that has used up its fuel). The descriptions of errors leave
  out the values that are formatted into them; the codes are exact.

  Outside the process, and so arguments (\<open>pctx\<close>): JSON decoding and encoding, the TLS handshake, the
  authorization server and its regular expressions, the clock, and what \<open>env\<close> holds.
\<close>

section \<open>Texts and input\<close>

definition text_of :: "bytes \<Rightarrow> string" where
  "text_of b = map (\<lambda>w. char_of (unat w)) b"

definition bytes_of :: "string \<Rightarrow> bytes" where
  "bytes_of s = map (\<lambda>c. of_nat (of_char c)) s"

record identify_resp =
  ir_MaxRdyCount :: int
  ir_MaxMsgTimeout :: int
  ir_MsgTimeout :: int
  ir_TLSv1 :: bool
  ir_Deflate :: bool
  ir_DeflateLevel :: int
  ir_MaxDeflateLevel :: int
  ir_Snappy :: bool
  ir_SampleRate :: int
  ir_AuthRequired :: bool
  ir_OutputBufferSize :: int
  ir_OutputBufferTimeout :: int

record 'b pctx =
  x_env :: "'b env"
  x_compile :: regexp
  x_authd :: authd
  x_unmarshal :: "bytes \<Rightarrow> go_error + identifyDataV2"
  x_identify :: "identify_resp \<Rightarrow> bytes"
  x_auth :: "string \<Rightarrow> string \<Rightarrow> nat \<Rightarrow> bytes"
  x_handshake :: "go_error option"
  x_now :: int
  x_clock :: "nat \<Rightarrow> int list"
  x_fuel :: nat

record 'b proto =
  p_nsqd :: "'b NSQD"
  p_clients :: cstore

type_synonym 'b reply = "((client_err + bytes option) \<times> 'b proto) option"

definition frameTypeResponse :: u32 where "frameTypeResponse = 0"
definition frameTypeError :: u32 where "frameTypeError = 1"
definition frameTypeMessage :: u32 where "frameTypeMessage = 2"

definition okBytes :: bytes where "okBytes = bytes_of ''OK''"
definition heartbeatBytes :: bytes where "heartbeatBytes = bytes_of ''_heartbeat_''"

definition fatal :: "string \<Rightarrow> string \<Rightarrow> client_err + 'a" where
  "fatal code desc = Inl (NewFatalClientErr None code desc)"

definition fatal_of :: "go_error \<Rightarrow> string \<Rightarrow> string \<Rightarrow> client_err + 'a" where
  "fatal_of e code desc = Inl (NewFatalClientErr (Some e) code desc)"

definition upd_client :: "int \<Rightarrow> (clientV2 \<Rightarrow> clientV2) \<Rightarrow> 'b proto \<Rightarrow> 'b proto" where
  "upd_client k f s = s\<lparr>p_clients := (p_clients s)(k := f (p_clients s k))\<rparr>"

text \<open>\<open>io.ReadFull\<close> on the client's reader.\<close>

definition read_input :: "nat \<Rightarrow> clientV2 \<Rightarrow> (go_error + bytes) \<times> clientV2" where
  "read_input n c =
     (if n \<le> length (cl_Reader c) then (Inr (take n (cl_Reader c)), c\<lparr>cl_Reader := drop n (cl_Reader c)\<rparr>)
      else (Inl ''unexpected EOF'', c\<lparr>cl_Reader := []\<rparr>))"

definition readLen :: "clientV2 \<Rightarrow> (go_error + int) \<times> clientV2" where
  "readLen c =
     (case read_input 4 c of
        (Inl e, c1) \<Rightarrow> (Inl e, c1)
      | (Inr b, c1) \<Rightarrow> (Inr (sint (be_decode b :: u32)), c1))"

text \<open>The bodies of commands: a length, its checks against an upper limit, and the bytes. PUB checks
  for a length of zero first, IDENTIFY and AUTH for the limit first.\<close>

definition read_body ::
    "string \<Rightarrow> string \<Rightarrow> string \<Rightarrow> int \<Rightarrow> bool \<Rightarrow> clientV2 \<Rightarrow> (client_err + bytes) \<times> clientV2" where
  "read_body code cmd what limit big_first c =
     (case readLen c of
        (Inl e, c1) \<Rightarrow> (fatal_of e code (cmd @ '' failed to read '' @ what @ '' size''), c1)
      | (Inr n, c1) \<Rightarrow>
          if big_first \<and> limit < n then (fatal code (cmd @ '' body too big''), c1)
          else if n \<le> 0 then (fatal code (cmd @ '' invalid '' @ what @ '' size''), c1)
          else if limit < n then (fatal code (cmd @ '' message too big''), c1)
          else (case read_input (nat n) c1 of
                  (Inl e, c2) \<Rightarrow> (fatal_of e code (cmd @ '' failed to read '' @ what), c2)
                | (Inr b, c2) \<Rightarrow> (Inr b, c2)))"

definition getMessageID :: "bytes \<Rightarrow> go_error + MessageID" where
  "getMessageID p = (if length p \<noteq> MsgIDLength then Inl ''Invalid Message ID'' else Inr p)"

section \<open>Sending\<close>

text \<open>\<open>protocol.SendFramedResponse\<close> on the client's buffered writer.\<close>

definition send_framed :: "u32 \<Rightarrow> bytes \<Rightarrow> bufio \<times> writer \<Rightarrow> go_error option \<times> bufio \<times> writer" where
  "send_framed frameType data s =
     (case bufio_Write (be_encode 4 (of_nat (length data) + 4 :: u32)) s of
        (Some e, s1) \<Rightarrow> (Some e, s1)
      | (None, s1) \<Rightarrow>
          (case bufio_Write (be_encode 4 frameType) s1 of
             (Some e, s2) \<Rightarrow> (Some e, s2)
           | (None, s2) \<Rightarrow> bufio_Write data s2))"

definition proto_Send :: "u32 \<Rightarrow> bytes \<Rightarrow> clientV2 \<Rightarrow> go_error option \<times> clientV2" where
  "proto_Send frameType data c =
     (case send_framed frameType data (cl_Writer c, cl_conn c) of
        (Some e, b, w) \<Rightarrow> (Some e, c\<lparr>cl_Writer := b, cl_conn := w\<rparr>)
      | (None, b, w) \<Rightarrow>
          let c1 = c\<lparr>cl_Writer := b, cl_conn := w\<rparr> in
          if frameType \<noteq> frameTypeMessage then client_Flush c1 else (None, c1))"

definition proto_SendMessage :: "Message \<Rightarrow> clientV2 \<Rightarrow> go_error option \<times> clientV2" where
  "proto_SendMessage m c =
     (case Message_WriteTo m buffer of
        (_, Some e, _) \<Rightarrow> (Some e, c)
      | (_, None, buf) \<Rightarrow> proto_Send frameTypeMessage (w_out buf) c)"

section \<open>IDENTIFY and AUTH\<close>

definition deflate_level :: "Options \<Rightarrow> identifyDataV2 \<Rightarrow> int" where
  "deflate_level opts data =
     (let deflate = (o_DeflateEnabled opts \<and> i_Deflate data);
          level = (if deflate \<and> 0 < i_DeflateLevel data then i_DeflateLevel data else 6)
      in if o_MaxDeflateLevel opts < level then o_MaxDeflateLevel opts else level)"

text \<open>A step of the negotiation: the upgrade and the OK that follows it.\<close>

definition upgrade ::
    "bool \<Rightarrow> (clientV2 \<Rightarrow> go_error option \<times> clientV2) \<Rightarrow> clientV2 \<Rightarrow> client_err option \<times> clientV2" where
  "upgrade wanted up c =
     (if \<not> wanted then (None, c)
      else case up c of
             (Some e, c1) \<Rightarrow> (Some (NewFatalClientErr (Some e) ''E_IDENTIFY_FAILED'' (''IDENTIFY failed '' @ e)), c1)
           | (None, c1) \<Rightarrow>
               (case proto_Send frameTypeResponse okBytes c1 of
                  (Some e, c2) \<Rightarrow>
                    (Some (NewFatalClientErr (Some e) ''E_IDENTIFY_FAILED'' (''IDENTIFY failed '' @ e)), c2)
                | (None, c2) \<Rightarrow> (None, c2)))"

definition negotiate ::
    "'b pctx \<Rightarrow> 'b NSQD \<Rightarrow> identifyDataV2 \<Rightarrow> clientV2 \<Rightarrow> (client_err + bytes option) \<times> clientV2" where
  "negotiate x n data c =
     (let opts = n_opts n;
          tlsv1 = (n_tlsConfig n \<and> i_TLSv1 data);
          deflate = (o_DeflateEnabled opts \<and> i_Deflate data);
          level = deflate_level opts data;
          snappy = (o_SnappyEnabled opts \<and> i_Snappy data) in
      if deflate \<and> snappy
      then (fatal ''E_IDENTIFY_FAILED'' ''cannot enable both deflate and snappy compression'', c)
      else
        let resp = x_identify x
              \<lparr>ir_MaxRdyCount = o_MaxRdyCount opts, ir_MaxMsgTimeout = go_div (o_MaxMsgTimeout opts) Millisecond,
               ir_MsgTimeout = go_div (cl_MsgTimeout c) Millisecond, ir_TLSv1 = tlsv1, ir_Deflate = deflate,
               ir_DeflateLevel = level, ir_MaxDeflateLevel = o_MaxDeflateLevel opts, ir_Snappy = snappy,
               ir_SampleRate = cl_SampleRate c, ir_AuthRequired = nsqd_IsAuthEnabled n,
               ir_OutputBufferSize = cl_OutputBufferSize c,
               ir_OutputBufferTimeout = go_div (cl_OutputBufferTimeout c) Millisecond\<rparr> in
        (case proto_Send frameTypeResponse resp c of
           (Some e, c1) \<Rightarrow> (fatal_of e ''E_IDENTIFY_FAILED'' (''IDENTIFY failed '' @ e), c1)
         | (None, c1) \<Rightarrow>
             (case upgrade tlsv1 (UpgradeTLS (x_handshake x)) c1 of
                (Some e, c2) \<Rightarrow> (Inl e, c2)
              | (None, c2) \<Rightarrow>
                  (case upgrade snappy UpgradeSnappy c2 of
                     (Some e, c3) \<Rightarrow> (Inl e, c3)
                   | (None, c3) \<Rightarrow>
                       (case upgrade deflate (UpgradeDeflate level) c3 of
                          (Some e, c4) \<Rightarrow> (Inl e, c4)
                        | (None, c4) \<Rightarrow> (Inr None, c4))))))"

definition proto_IDENTIFY :: "'b pctx \<Rightarrow> 'b NSQD \<Rightarrow> clientV2 \<Rightarrow> (client_err + bytes option) \<times> clientV2" where
  "proto_IDENTIFY x n c =
     (if cl_State c \<noteq> stateInit then (fatal ''E_INVALID'' ''cannot IDENTIFY in current state'', c)
      else case read_body ''E_BAD_BODY'' ''IDENTIFY'' ''body'' (o_MaxBodySize (n_opts n)) True c of
             (Inl e, c1) \<Rightarrow> (Inl e, c1)
           | (Inr body, c1) \<Rightarrow>
               (case x_unmarshal x body of
                  Inl e \<Rightarrow> (fatal_of e ''E_BAD_BODY'' ''IDENTIFY failed to decode JSON body'', c1)
                | Inr data \<Rightarrow>
                    (case client_Identify (n_opts n) data c1 of
                       (Some e, c2) \<Rightarrow> (fatal_of e ''E_BAD_BODY'' (''IDENTIFY '' @ e), c2)
                     | (None, c2) \<Rightarrow>
                         if \<not> i_FeatureNegotiation data then (Inr (Some okBytes), c2)
                         else negotiate x n data c2)))"

definition proto_AUTH ::
    "'b pctx \<Rightarrow> 'b NSQD \<Rightarrow> bytes list \<Rightarrow> clientV2 \<Rightarrow> (client_err + bytes option) \<times> clientV2" where
  "proto_AUTH x n params c =
     (if cl_State c \<noteq> stateInit then (fatal ''E_INVALID'' ''cannot AUTH in current state'', c)
      else if length params \<noteq> 1 then (fatal ''E_INVALID'' ''AUTH invalid number of parameters'', c)
      else case read_body ''E_BAD_BODY'' ''AUTH'' ''body'' (o_MaxBodySize (n_opts n)) True c of
             (Inl e, c1) \<Rightarrow> (Inl e, c1)
           | (Inr body, c1) \<Rightarrow>
               if HasAuthorizations c1 then (fatal ''E_INVALID'' ''AUTH already set'', c1)
               else if \<not> nsqd_IsAuthEnabled n then (fatal ''E_AUTH_DISABLED'' ''AUTH disabled'', c1)
               else (case client_Auth (x_compile x) (x_authd x) (n_opts n) (x_now x) (text_of body) c1 of
                       (Some e, c2) \<Rightarrow> (fatal_of e ''E_AUTH_FAILED'' ''AUTH failed'', c2)
                     | (None, c2) \<Rightarrow>
                         if \<not> HasAuthorizations c2
                         then (fatal ''E_UNAUTHORIZED'' ''AUTH no authorizations found'', c2)
                         else (case cl_AuthState c2 of
                                 None \<Rightarrow> (Inr None, c2)
                               | Some st \<Rightarrow>
                                   (case proto_Send frameTypeResponse
                                           (x_auth x (s_Identity st) (s_IdentityURL st) (length (s_Authorizations st))) c2 of
                                      (Some e, c3) \<Rightarrow> (fatal_of e ''E_AUTH_ERROR'' (''AUTH error '' @ e), c3)
                                    | (None, c3) \<Rightarrow> (Inr None, c3)))))"

definition proto_CheckAuth ::
    "'b pctx \<Rightarrow> 'b NSQD \<Rightarrow> string \<Rightarrow> string \<Rightarrow> string \<Rightarrow> clientV2 \<Rightarrow> (client_err option \<times> clientV2) option" where
  "proto_CheckAuth x n cmd topicName channelName c =
     (if \<not> nsqd_IsAuthEnabled n then Some (None, c)
      else if \<not> HasAuthorizations c
      then Some (Some (NewFatalClientErr None ''E_AUTH_FIRST'' (''AUTH required before '' @ cmd)), c)
      else do {
        (r, c1) <- IsAuthorized (x_compile x) (x_authd x) (n_opts n) (x_now x) topicName channelName c;
        Some (case r of
                Inl _ \<Rightarrow> Some (NewFatalClientErr None ''E_AUTH_FAILED'' ''AUTH failed'')
              | Inr ok \<Rightarrow>
                  if ok then None
                  else Some (NewFatalClientErr None ''E_UNAUTHORIZED'' (''AUTH failed for '' @ cmd)), c1) })"

section \<open>Subscribing\<close>

definition find_channel :: "string \<times> string \<Rightarrow> 'b NSQD \<Rightarrow> ('b Topic \<times> 'b Channel) option" where
  "find_channel tc n = do {
     t <- map_of (n_topicMap n) (fst tc);
     c <- map_of (t_channelMap t) (snd tc);
     Some (t, c) }"

definition set_channel :: "string \<times> string \<Rightarrow> 'b Channel \<Rightarrow> 'b NSQD \<Rightarrow> 'b NSQD" where
  "set_channel tc c n =
     (case map_of (n_topicMap n) (fst tc) of
        None \<Rightarrow> n
      | Some t \<Rightarrow> with_topic (fst tc) (t\<lparr>t_channelMap := amap_put (snd tc) c (t_channelMap t)\<rparr>) n)"

text \<open>The retry loop of SUB: a topic or channel that is ephemeral and has started exiting is
  left and looked up again.\<close>

fun sub_loop :: "'b pctx \<Rightarrow> nat \<Rightarrow> int \<Rightarrow> string \<Rightarrow> string \<Rightarrow> 'b NSQD \<Rightarrow> (client_err option \<times> 'b NSQD) option" where
  "sub_loop x 0 k tn cn n = None"
| "sub_loop x (Suc fuel) k tn cn n = do {
     n1 <- nsqd_GetTopic (x_env x) tn n;
     t <- map_of (n_topicMap n1) tn;
     let n2 = with_topic tn (get_channel (x_env x) (n_opts n1) cn t) n1;
     (t1, ch) <- find_channel (tn, cn) n2;
     (case Channel_AddClient (n_opts n2) k ch of
        (Some _, _) \<Rightarrow>
          Some (Some (NewFatalClientErr None ''E_TOO_MANY_CHANNEL_CONSUMERS'' ''channel consumers exceeds limit''), n2)
      | (None, ch1) \<Rightarrow>
          let n3 = set_channel (tn, cn) ch1 n2 in
          if c_ephemeral ch1 \<and> Channel_Exiting ch1 \<or> t_ephemeral t1 \<and> Topic_Exiting t1
          then sub_loop x fuel k tn cn (set_channel (tn, cn) (Channel_RemoveClient k ch1) n3)
          else Some (None, n3)) }"

definition proto_SUB :: "'b pctx \<Rightarrow> int \<Rightarrow> bytes list \<Rightarrow> 'b proto \<Rightarrow> 'b reply" where
  "proto_SUB x k params s =
     (let c = p_clients s k; n = p_nsqd s;
          topicName = text_of (params ! 1); channelName = text_of (params ! 2) in
      if cl_State c \<noteq> stateInit then Some (fatal ''E_INVALID'' ''cannot SUB in current state'', s)
      else if cl_HeartbeatInterval c \<le> 0 then Some (fatal ''E_INVALID'' ''cannot SUB with heartbeats disabled'', s)
      else if length params < 3 then Some (fatal ''E_INVALID'' ''SUB insufficient number of parameters'', s)
      else if \<not> IsValidTopicName topicName then Some (fatal ''E_BAD_TOPIC'' ''SUB topic name is not valid'', s)
      else if \<not> IsValidChannelName channelName
      then Some (fatal ''E_BAD_CHANNEL'' ''SUB channel name is not valid'', s)
      else do {
        (e, c1) <- proto_CheckAuth x n ''SUB'' topicName channelName c;
        let s1 = upd_client k (\<lambda>_. c1) s;
        (case e of
           Some err \<Rightarrow> Some (Inl err, s1)
         | None \<Rightarrow> do {
             (e2, n1) <- sub_loop x (x_fuel x) k topicName channelName n;
             let s2 = s1\<lparr>p_nsqd := n1\<rparr>;
             (case e2 of
                Some err \<Rightarrow> Some (Inl err, s2)
              | None \<Rightarrow>
                  Some (Inr (Some okBytes),
                    upd_client k (\<lambda>c. c\<lparr>cl_State := stateSubscribed, cl_Channel := Some (topicName, channelName),
                                         cl_SubEventChan := Some (topicName, channelName)\<rparr>) s2)) }) })"

section \<open>Consuming\<close>

definition proto_RDY :: "int \<Rightarrow> bytes list \<Rightarrow> 'b proto \<Rightarrow> 'b reply" where
  "proto_RDY k params s =
     (let c = p_clients s k in
      if cl_State c = stateClosing then Some (Inr None, s)
      else if cl_State c \<noteq> stateSubscribed then Some (fatal ''E_INVALID'' ''cannot RDY in current state'', s)
      else case (if 1 < length params then ByteToBase10 (text_of (params ! 1)) else Inr 1) of
             Inl e \<Rightarrow> Some (fatal_of e ''E_INVALID'' ''RDY could not parse count'', s)
           | Inr num \<Rightarrow>
               if sint num < 0 \<or> o_MaxRdyCount (n_opts (p_nsqd s)) < sint num
               then Some (fatal ''E_INVALID'' ''RDY count out of range'', s)
               else Some (Inr None, upd_client k (SetReadyCount num) s))"

text \<open>A command on the channel of the client: the identifier is checked first, then the operation of
  the channel runs; a deleted channel has nothing in flight.\<close>

definition on_channel ::
    "string \<Rightarrow> string \<Rightarrow> int \<Rightarrow> bytes list \<Rightarrow> nat \<Rightarrow> (MessageID \<Rightarrow> 'b Channel \<Rightarrow> (go_error option \<times> 'b Channel) option) \<Rightarrow>
       (clientV2 \<Rightarrow> clientV2) \<Rightarrow> 'b proto \<Rightarrow> 'b reply" where
  "on_channel cmd code k params arity op fin s =
     (let c = p_clients s k in
      if cl_State c \<noteq> stateSubscribed \<and> cl_State c \<noteq> stateClosing
      then Some (fatal ''E_INVALID'' (''cannot '' @ cmd @ '' in current state''), s)
      else if length params < arity then Some (fatal ''E_INVALID'' (cmd @ '' insufficient number of params''), s)
      else case getMessageID (params ! 1) of
             Inl e \<Rightarrow> Some (fatal ''E_INVALID'' e, s)
           | Inr i \<Rightarrow>
               (case cl_Channel c of
                  None \<Rightarrow> None
                | Some tc \<Rightarrow>
                    (case find_channel tc (p_nsqd s) of
                       None \<Rightarrow> Some (Inl (NewClientErr (Some ''ID not in flight'') code
                                 (cmd @ '' failed ID not in flight'')), s)
                     | Some (t, ch) \<Rightarrow> do {
                         (err, ch1) <- op i ch;
                         let s1 = s\<lparr>p_nsqd := set_channel tc ch1 (p_nsqd s)\<rparr>;
                         Some (case err of
                                 Some e \<Rightarrow> (Inl (NewClientErr (Some e) code (cmd @ '' failed '' @ e)), s1)
                               | None \<Rightarrow> (Inr None, upd_client k fin s1)) })))"

definition proto_FIN :: "int \<Rightarrow> bytes list \<Rightarrow> 'b proto \<Rightarrow> 'b reply" where
  "proto_FIN k params s =
     on_channel ''FIN'' ''E_FIN_FAILED'' k params 2 (\<lambda>i. FinishMessage k i) FinishedMessage s"

definition proto_TOUCH :: "'b pctx \<Rightarrow> int \<Rightarrow> bytes list \<Rightarrow> 'b proto \<Rightarrow> 'b reply" where
  "proto_TOUCH x k params s =
     on_channel ''TOUCH'' ''E_TOUCH_FAILED'' k params 2
       (\<lambda>i. TouchMessage (n_opts (p_nsqd s)) (x_now x) k i (cl_MsgTimeout (p_clients s k))) (\<lambda>c. c) s"

definition clamp_timeout :: "Options \<Rightarrow> u64 \<Rightarrow> int" where
  "clamp_timeout opts ms =
     (let d = duration_ms ms in
      if d < 0 then 0 else if o_MaxReqTimeout opts < d then o_MaxReqTimeout opts else d)"

definition proto_REQ :: "'b pctx \<Rightarrow> int \<Rightarrow> bytes list \<Rightarrow> 'b proto \<Rightarrow> 'b reply" where
  "proto_REQ x k params s =
     (let c = p_clients s k in
      if cl_State c \<noteq> stateSubscribed \<and> cl_State c \<noteq> stateClosing
      then Some (fatal ''E_INVALID'' ''cannot REQ in current state'', s)
      else if length params < 3 then Some (fatal ''E_INVALID'' ''REQ insufficient number of params'', s)
      else case getMessageID (params ! 1) of
             Inl e \<Rightarrow> Some (fatal ''E_INVALID'' e, s)
           | Inr _ \<Rightarrow>
               (case ByteToBase10 (text_of (params ! 2)) of
                  Inl e \<Rightarrow> Some (fatal_of e ''E_INVALID'' ''REQ could not parse timeout'', s)
                | Inr ms \<Rightarrow>
                    on_channel ''REQ'' ''E_REQ_FAILED'' k params 3
                      (\<lambda>i. RequeueMessage (e_ops (x_env x)) (x_now x) k i (clamp_timeout (n_opts (p_nsqd s)) ms))
                      RequeuedMessage s))"

definition proto_CLS :: "int \<Rightarrow> 'b proto \<Rightarrow> 'b reply" where
  "proto_CLS k s =
     (if cl_State (p_clients s k) \<noteq> stateSubscribed then Some (fatal ''E_INVALID'' ''cannot CLS in current state'', s)
      else Some (Inr (Some (bytes_of ''CLOSE_WAIT'')), upd_client k StartClose s))"

definition proto_NOP :: "'b proto \<Rightarrow> 'b reply" where
  "proto_NOP s = Some (Inr None, s)"

section \<open>Publishing\<close>

text \<open>The tail PUB and DPUB share: authorization, the topic, the new message and its counters.\<close>

definition publish_one ::
    "'b pctx \<Rightarrow> string \<Rightarrow> int \<Rightarrow> string \<Rightarrow> bytes \<Rightarrow> int \<Rightarrow> 'b proto \<Rightarrow> 'b reply" where
  "publish_one x cmd k topicName body delay s = do {
     (e, c1) <- proto_CheckAuth x (p_nsqd s) cmd topicName [] (p_clients s k);
     let s1 = upd_client k (\<lambda>_. c1) s;
     (case e of
        Some err \<Rightarrow> Some (Inl err, s1)
      | None \<Rightarrow> do {
          n1 <- nsqd_GetTopic (x_env x) topicName (p_nsqd s1);
          t <- map_of (n_topicMap n1) topicName;
          (i, f) <- Topic_GenerateID (x_clock x 0) (t_idFactory t);
          let msg = (NewMessage (x_now x) i body)\<lparr>m_deferred := delay\<rparr>;
          (err, t1) <- Topic_PutMessage msg (t\<lparr>t_idFactory := f\<rparr>);
          let s2 = s1\<lparr>p_nsqd := with_topic topicName t1 n1\<rparr>;
          Some (case err of
                  Some e \<Rightarrow> (fatal_of e (''E_'' @ cmd @ ''_FAILED'') (cmd @ '' failed '' @ e), s2)
                | None \<Rightarrow> (Inr (Some okBytes), upd_client k (PublishedMessage topicName 1) s2)) }) }"

definition proto_PUB :: "'b pctx \<Rightarrow> int \<Rightarrow> bytes list \<Rightarrow> 'b proto \<Rightarrow> 'b reply" where
  "proto_PUB x k params s =
     (let topicName = text_of (params ! 1) in
      if length params < 2 then Some (fatal ''E_INVALID'' ''PUB insufficient number of parameters'', s)
      else if \<not> IsValidTopicName topicName then Some (fatal ''E_BAD_TOPIC'' ''PUB topic name is not valid'', s)
      else case read_body ''E_BAD_MESSAGE'' ''PUB'' ''message body'' (o_MaxMsgSize (n_opts (p_nsqd s))) False (p_clients s k) of
             (Inl e, c1) \<Rightarrow> Some (Inl e, upd_client k (\<lambda>_. c1) s)
           | (Inr body, c1) \<Rightarrow> publish_one x ''PUB'' k topicName body 0 (upd_client k (\<lambda>_. c1) s))"

definition proto_DPUB :: "'b pctx \<Rightarrow> int \<Rightarrow> bytes list \<Rightarrow> 'b proto \<Rightarrow> 'b reply" where
  "proto_DPUB x k params s =
     (let topicName = text_of (params ! 1) in
      if length params < 3 then Some (fatal ''E_INVALID'' ''DPUB insufficient number of parameters'', s)
      else if \<not> IsValidTopicName topicName then Some (fatal ''E_BAD_TOPIC'' ''DPUB topic name is not valid'', s)
      else case ByteToBase10 (text_of (params ! 2)) of
             Inl e \<Rightarrow> Some (fatal_of e ''E_INVALID'' ''DPUB could not parse timeout'', s)
           | Inr ms \<Rightarrow>
               if duration_ms ms < 0 \<or> o_MaxReqTimeout (n_opts (p_nsqd s)) < duration_ms ms
               then Some (fatal ''E_INVALID'' ''DPUB timeout out of range'', s)
               else (case read_body ''E_BAD_MESSAGE'' ''DPUB'' ''message body'' (o_MaxMsgSize (n_opts (p_nsqd s))) False
                            (p_clients s k) of
                       (Inl e, c1) \<Rightarrow> Some (Inl e, upd_client k (\<lambda>_. c1) s)
                     | (Inr body, c1) \<Rightarrow>
                         publish_one x ''DPUB'' k topicName body (duration_ms ms) (upd_client k (\<lambda>_. c1) s)))"

text \<open>The loop of \<open>readMPUB\<close>; message \<open>i\<close> takes its identifier at the clock readings \<open>x_clock i\<close>.\<close>

fun read_messages ::
    "'b pctx \<Rightarrow> int \<Rightarrow> nat \<Rightarrow> nat \<Rightarrow> clientV2 \<times> guidFactory \<Rightarrow> ((client_err + Message list) \<times> clientV2 \<times> guidFactory) option" where
  "read_messages x maxSize i 0 cf = Some (Inr [], cf)"
| "read_messages x maxSize i (Suc k) cf =
     (case readLen (fst cf) of
        (Inl e, c1) \<Rightarrow> Some (fatal_of e ''E_BAD_MESSAGE'' ''MPUB failed to read message body size'', c1, snd cf)
      | (Inr sz, c1) \<Rightarrow>
          if sz \<le> 0 then Some (fatal ''E_BAD_MESSAGE'' ''MPUB invalid message body size'', c1, snd cf)
          else if maxSize < sz then Some (fatal ''E_BAD_MESSAGE'' ''MPUB message too big'', c1, snd cf)
          else (case read_input (nat sz) c1 of
                  (Inl e, c2) \<Rightarrow> Some (fatal_of e ''E_BAD_MESSAGE'' ''MPUB failed to read message body'', c2, snd cf)
                | (Inr body, c2) \<Rightarrow> do {
                    (mid, f) <- Topic_GenerateID (x_clock x i) (snd cf);
                    (r, cf1) <- read_messages x maxSize (i + 1) k (c2, f);
                    Some (case r of
                            Inl e \<Rightarrow> (Inl e, cf1)
                          | Inr ms \<Rightarrow> (Inr (NewMessage (x_now x) mid body # ms), cf1)) }))"

definition readMPUB ::
    "'b pctx \<Rightarrow> Options \<Rightarrow> clientV2 \<times> guidFactory \<Rightarrow> ((client_err + Message list) \<times> clientV2 \<times> guidFactory) option" where
  "readMPUB x opts cf =
     (case readLen (fst cf) of
        (Inl e, c1) \<Rightarrow> Some (fatal_of e ''E_BAD_BODY'' ''MPUB failed to read message count'', c1, snd cf)
      | (Inr num, c1) \<Rightarrow>
          if num \<le> 0 \<or> go_div (o_MaxBodySize opts - 4) 5 < num
          then Some (fatal ''E_BAD_BODY'' ''MPUB invalid message count'', c1, snd cf)
          else read_messages x (o_MaxMsgSize opts) 0 (nat num) (c1, snd cf))"

definition proto_MPUB :: "'b pctx \<Rightarrow> int \<Rightarrow> bytes list \<Rightarrow> 'b proto \<Rightarrow> 'b reply" where
  "proto_MPUB x k params s =
     (let topicName = text_of (params ! 1); opts = n_opts (p_nsqd s) in
      if length params < 2 then Some (fatal ''E_INVALID'' ''MPUB insufficient number of parameters'', s)
      else if \<not> IsValidTopicName topicName
      then Some (fatal ''E_BAD_TOPIC'' ''E_BAD_TOPIC MPUB topic name is not valid'', s)
      else do {
        (e, c1) <- proto_CheckAuth x (p_nsqd s) ''MPUB'' topicName [] (p_clients s k);
        let s1 = upd_client k (\<lambda>_. c1) s;
        (case e of
           Some err \<Rightarrow> Some (Inl err, s1)
         | None \<Rightarrow> do {
             n1 <- nsqd_GetTopic (x_env x) topicName (p_nsqd s1);
             t <- map_of (n_topicMap n1) topicName;
             let s2 = s1\<lparr>p_nsqd := n1\<rparr>;
             (case readLen c1 of
                (Inl er, c2) \<Rightarrow>
                  Some (fatal_of er ''E_BAD_BODY'' ''MPUB failed to read body size'', upd_client k (\<lambda>_. c2) s2)
              | (Inr len, c2) \<Rightarrow>
                  if len \<le> 0 then Some (fatal ''E_BAD_BODY'' ''MPUB invalid body size'', upd_client k (\<lambda>_. c2) s2)
                  else if o_MaxBodySize opts < len
                  then Some (fatal ''E_BAD_BODY'' ''MPUB body too big'', upd_client k (\<lambda>_. c2) s2)
                  else do {
                    (r, c3, f) <- readMPUB x opts (c2, t_idFactory t);
                    let s3 = (upd_client k (\<lambda>_. c3) s2)\<lparr>p_nsqd := with_topic topicName (t\<lparr>t_idFactory := f\<rparr>) n1\<rparr>;
                    (case r of
                       Inl er \<Rightarrow> Some (Inl er, s3)
                     | Inr msgs \<Rightarrow> do {
                         (err, t1) <- Topic_PutMessages msgs (t\<lparr>t_idFactory := f\<rparr>);
                         let s4 = s3\<lparr>p_nsqd := with_topic topicName t1 n1\<rparr>;
                         Some (case err of
                                 Some er \<Rightarrow> (fatal_of er ''E_MPUB_FAILED'' (''MPUB failed '' @ er), s4)
                               | None \<Rightarrow> (Inr (Some okBytes),
                                   upd_client k (PublishedMessage topicName (of_nat (length msgs))) s4)) }) }) }) })"

section \<open>Dispatch\<close>

definition enforceTLSPolicy :: "'b NSQD \<Rightarrow> string \<Rightarrow> clientV2 \<Rightarrow> client_err option" where
  "enforceTLSPolicy n command c =
     (if o_TLSRequired (n_opts n) \<noteq> TLSNotRequired \<and> \<not> cl_TLS c
      then Some (NewFatalClientErr None ''E_INVALID'' (''cannot '' @ command @ '' in current state (TLS required)''))
      else None)"

definition with_client :: "int \<Rightarrow> 'b proto \<Rightarrow> (client_err + bytes option) \<times> clientV2 \<Rightarrow> 'b reply" where
  "with_client k s r = Some (fst r, upd_client k (\<lambda>_. snd r) s)"

definition proto_Exec :: "'b pctx \<Rightarrow> int \<Rightarrow> bytes list \<Rightarrow> 'b proto \<Rightarrow> 'b reply" where
  "proto_Exec x k params s =
     (let cmd = text_of (params ! 0); c = p_clients s k; n = p_nsqd s in
      if cmd = ''IDENTIFY'' then with_client k s (proto_IDENTIFY x n c)
      else case enforceTLSPolicy n cmd c of
             Some e \<Rightarrow> Some (Inl e, s)
           | None \<Rightarrow>
               if cmd = ''FIN'' then proto_FIN k params s
               else if cmd = ''RDY'' then proto_RDY k params s
               else if cmd = ''REQ'' then proto_REQ x k params s
               else if cmd = ''PUB'' then proto_PUB x k params s
               else if cmd = ''MPUB'' then proto_MPUB x k params s
               else if cmd = ''DPUB'' then proto_DPUB x k params s
               else if cmd = ''NOP'' then proto_NOP s
               else if cmd = ''TOUCH'' then proto_TOUCH x k params s
               else if cmd = ''SUB'' then proto_SUB x k params s
               else if cmd = ''CLS'' then proto_CLS k s
               else if cmd = ''AUTH'' then with_client k s (proto_AUTH x n params c)
               else Some (fatal ''E_INVALID'' ''invalid command'', s))"

end
