(* ===== verification/Nsq_HttpApi.thy ===== *)
theory Nsq_HttpApi
  imports Nsq_ProtocolV2
begin

text \<open>
  \<open>internal/http_api\<close>: the parameters of a request (\<open>req_params.go\<close>,
  \<open>topic_channel_args.go\<close>) and the responses (\<open>api_response.go\<close>). The standard library's parsing of
  the query is part of the request: it is an error, or a map from names to non-empty lists of values
  (a value and the rest). A handler returns an error or a value, which the decorators \<open>PlainText\<close> and
  \<open>V1\<close> turn into a response; \<open>None\<close> is a panic, which the router's panic handler answers.
\<close>

section \<open>Requests\<close>

type_synonym Values = "(string \<times> string \<times> string list) list"

record http_req =
  q_Method :: string
  q_Path :: string
  q_Query :: "go_error + Values"
  q_Body :: "go_error + bytes"
  q_ContentLength :: int

record ReqParams =
  rp_Values :: Values
  rp_Body :: bytes

definition NewReqParams :: "http_req \<Rightarrow> go_error + ReqParams" where
  "NewReqParams req =
     (case q_Query req of
        Inl e \<Rightarrow> Inl e
      | Inr vs \<Rightarrow> (case q_Body req of Inl e \<Rightarrow> Inl e | Inr b \<Rightarrow> Inr \<lparr>rp_Values = vs, rp_Body = b\<rparr>))"

definition ReqParams_Get :: "string \<Rightarrow> ReqParams \<Rightarrow> go_error + string" where
  "ReqParams_Get key r =
     (case map_of (rp_Values r) key of
        None \<Rightarrow> Inl ''key not in query params''
      | Some (v, _) \<Rightarrow> Inr v)"

definition ReqParams_GetAll :: "string \<Rightarrow> ReqParams \<Rightarrow> go_error + string list" where
  "ReqParams_GetAll key r =
     (case map_of (rp_Values r) key of
        None \<Rightarrow> Inl ''key not in query params''
      | Some (v, vs) \<Rightarrow> Inr (v # vs))"

definition GetTopicChannelArgs :: "ReqParams \<Rightarrow> go_error + string \<times> string" where
  "GetTopicChannelArgs rp =
     (case ReqParams_Get ''topic'' rp of
        Inl _ \<Rightarrow> Inl ''MISSING_ARG_TOPIC''
      | Inr topicName \<Rightarrow>
          if \<not> IsValidTopicName topicName then Inl ''INVALID_ARG_TOPIC''
          else (case ReqParams_Get ''channel'' rp of
                  Inl _ \<Rightarrow> Inl ''MISSING_ARG_CHANNEL''
                | Inr channelName \<Rightarrow>
                    if \<not> IsValidChannelName channelName then Inl ''INVALID_ARG_CHANNEL''
                    else Inr (topicName, channelName)))"

section \<open>Responses\<close>

datatype http_err = Err (ErrCode: int) (ErrText: string)

text \<open>The dynamic type of the value a handler returns.\<close>

datatype 'd api_data = DNil | DString string | DBytes bytes | DValue 'd

record http_resp =
  h_Code :: int
  h_JSON :: bool
  h_Body :: bytes

definition PlainText :: "http_err + 'd api_data \<Rightarrow> http_resp option" where
  "PlainText r =
     (let (code, data) = (case r of Inl e \<Rightarrow> (ErrCode e, DString (ErrText e)) | Inr d \<Rightarrow> (200, d)) in
      case data of
        DString d \<Rightarrow> Some \<lparr>h_Code = code, h_JSON = False, h_Body = bytes_of d\<rparr>
      | DBytes d \<Rightarrow> Some \<lparr>h_Code = code, h_JSON = False, h_Body = d\<rparr>
      | _ \<Rightarrow> None)"

text \<open>\<open>marshal\<close> is \<open>json.Marshal\<close> of an error or a handler's value, \<open>message\<close> that of the structure
  around an error's text.\<close>

definition respond_error :: "(string \<Rightarrow> bytes) \<Rightarrow> int \<Rightarrow> string \<Rightarrow> http_resp" where
  "respond_error message code text = \<lparr>h_Code = code, h_JSON = True, h_Body = message text\<rparr>"

definition respond_json ::
    "(http_err + 'd \<Rightarrow> go_error + bytes) \<Rightarrow> (string \<Rightarrow> bytes) \<Rightarrow> http_err + 'd \<Rightarrow> http_resp" where
  "respond_json marshal message v =
     (case marshal v of
        Inl e \<Rightarrow> respond_error message 500 e
      | Inr b \<Rightarrow> \<lparr>h_Code = 200, h_JSON = True, h_Body = b\<rparr>)"

definition RespondV1 ::
    "(http_err + 'd \<Rightarrow> go_error + bytes) \<Rightarrow> (string \<Rightarrow> bytes) \<Rightarrow> http_err + 'd api_data \<Rightarrow> http_resp" where
  "RespondV1 marshal message r =
     (case r of
        Inl e \<Rightarrow>
          if ErrCode e = 200 then respond_json marshal message (Inl e)
          else respond_error message (ErrCode e) (ErrText e)
      | Inr (DString s) \<Rightarrow> \<lparr>h_Code = 200, h_JSON = False, h_Body = bytes_of s\<rparr>
      | Inr (DBytes b) \<Rightarrow> \<lparr>h_Code = 200, h_JSON = False, h_Body = b\<rparr>
      | Inr DNil \<Rightarrow> \<lparr>h_Code = 200, h_JSON = False, h_Body = []\<rparr>
      | Inr (DValue d) \<Rightarrow> respond_json marshal message (Inr d))"

text \<open>A handler in the router: \<open>None\<close>, a panic, becomes an internal error. \<open>NotFound\<close> and
  \<open>MethodNotAllowed\<close> are the router's answers to requests that match no route.\<close>

definition LogPanicHandler :: "(string \<Rightarrow> bytes) \<Rightarrow> http_resp option \<Rightarrow> http_resp" where
  "LogPanicHandler message r =
     (case r of None \<Rightarrow> respond_error message 500 ''INTERNAL_ERROR'' | Some resp \<Rightarrow> resp)"

definition LogNotFoundHandler :: "http_err + 'd api_data" where
  "LogNotFoundHandler = Inl (Err 404 ''NOT_FOUND'')"

definition LogMethodNotAllowedHandler :: "http_err + 'd api_data" where
  "LogMethodNotAllowedHandler = Inl (Err 405 ''METHOD_NOT_ALLOWED'')"

end
