(* ===== verification/Nsq_NsqdHttp.thy ===== *)
theory Nsq_NsqdHttp
  imports Nsq_HttpApi
begin

text \<open>
  \<open>nsqd/http.go\<close>: publishing and administration over HTTP. A handler takes the request and the state of
  the daemon and its clients. It may block (deleting a topic does, see \<open>Topic_exit\<close>) or panic; otherwise
  it returns an error or a value, with the new state. The statistics, the configuration by reflection
  over the options and the profiler are not modelled.
\<close>

type_synonym ('b, 'd) http_reply = "((http_err + 'd api_data) \<times> 'b proto) outcome"

definition boolParams :: "(string \<times> bool) list" where
  "boolParams = [(''true'', True), (''1'', True), (''false'', False), (''0'', False)]"

section \<open>Parameters\<close>

text \<open>\<open>strconv.ParseInt\<close> with base 10 and 64 bits.\<close>

definition digits_value :: "string \<Rightarrow> int option" where
  "digits_value s =
     (if s = [] \<or> (\<exists>c \<in> set s. \<not> (48 \<le> (of_char c :: nat) \<and> (of_char c :: nat) \<le> 57)) then None
      else Some (foldl (\<lambda>n c. n * 10 + int (of_char c - 48)) 0 s))"

definition ParseInt :: "string \<Rightarrow> go_error + int" where
  "ParseInt s =
     (let (neg, ds) = (case s of [] \<Rightarrow> (False, [])
                       | c # cs \<Rightarrow> if c = CHR ''-'' then (True, cs) else if c = CHR ''+'' then (False, cs) else (False, s)) in
      case digits_value ds of
        None \<Rightarrow> Inl ''invalid syntax''
      | Some n \<Rightarrow>
          let v = (if neg then - n else n) in
          if v < - (2 ^ 63) \<or> 2 ^ 63 \<le> v then Inl ''value out of range'' else Inr v)"

text \<open>The first value of a parameter.\<close>

definition query_value :: "string \<Rightarrow> Values \<Rightarrow> string option" where
  "query_value key vs = map_option fst (map_of vs key)"

definition getExistingTopicFromQuery :: "http_req \<Rightarrow> 'b NSQD \<Rightarrow> http_err + string \<times> 'b Topic \<times> string" where
  "getExistingTopicFromQuery req n =
     (case NewReqParams req of
        Inl _ \<Rightarrow> Inl (Err 400 ''INVALID_REQUEST'')
      | Inr rp \<Rightarrow>
          (case GetTopicChannelArgs rp of
             Inl e \<Rightarrow> Inl (Err 400 e)
           | Inr (topicName, channelName) \<Rightarrow>
               (case nsqd_GetExistingTopic topicName n of
                  Inl _ \<Rightarrow> Inl (Err 404 ''TOPIC_NOT_FOUND'')
                | Inr t \<Rightarrow> Inr (topicName, t, channelName))))"

definition getTopicFromQuery ::
    "'b env \<Rightarrow> http_req \<Rightarrow> 'b NSQD \<Rightarrow> ((http_err + Values \<times> string) \<times> 'b NSQD) option" where
  "getTopicFromQuery env req n =
     (case q_Query req of
        Inl _ \<Rightarrow> Some (Inl (Err 400 ''INVALID_REQUEST''), n)
      | Inr vs \<Rightarrow>
          (case query_value ''topic'' vs of
             None \<Rightarrow> Some (Inl (Err 400 ''MISSING_ARG_TOPIC''), n)
           | Some topicName \<Rightarrow>
               if \<not> IsValidTopicName topicName then Some (Inl (Err 400 ''INVALID_TOPIC''), n)
               else do { n1 <- nsqd_GetTopic env topicName n; Some (Inr (vs, topicName), n1) }))"

section \<open>Publishing\<close>

text \<open>\<open>ioutil.ReadAll(io.LimitReader(...))\<close>.\<close>

definition read_limited :: "int \<Rightarrow> http_req \<Rightarrow> go_error + bytes" where
  "read_limited readMax req = (case q_Body req of Inl e \<Rightarrow> Inl e | Inr b \<Rightarrow> Inr (take (nat readMax) b))"

definition http_defer :: "Options \<Rightarrow> Values \<Rightarrow> http_err + int" where
  "http_defer opts vs =
     (case query_value ''defer'' vs of
        None \<Rightarrow> Inr 0
      | Some ds \<Rightarrow>
          (case ParseInt ds of
             Inl _ \<Rightarrow> Inl (Err 400 ''INVALID_DEFER'')
           | Inr di \<Rightarrow>
               let delay = duration_ms (of_int di) in
               if delay < 0 \<or> o_MaxReqTimeout opts < delay then Inl (Err 400 ''INVALID_DEFER'') else Inr delay))"

definition http_doPUB :: "'b pctx \<Rightarrow> http_req \<Rightarrow> 'b proto \<Rightarrow> ('b, 'd) http_reply" where
  "http_doPUB x req s =
     (let opts = n_opts (p_nsqd s); readMax = o_MaxMsgSize opts + 1 in
      if o_MaxMsgSize opts < q_ContentLength req then Returns (Inl (Err 413 ''MSG_TOO_BIG''), s)
      else case read_limited readMax req of
             Inl _ \<Rightarrow> Returns (Inl (Err 500 ''INTERNAL_ERROR''), s)
           | Inr body \<Rightarrow>
               if int (length body) = readMax then Returns (Inl (Err 413 ''MSG_TOO_BIG''), s)
               else if length body = 0 then Returns (Inl (Err 400 ''MSG_EMPTY''), s)
               else outcome_of (do {
                 (r, n1) <- getTopicFromQuery (x_env x) req (p_nsqd s);
                 let s1 = s\<lparr>p_nsqd := n1\<rparr>;
                 (case r of
                    Inl e \<Rightarrow> Some (Inl e, s1)
                  | Inr (vs, topicName) \<Rightarrow>
                      (case http_defer opts vs of
                         Inl e \<Rightarrow> Some (Inl e, s1)
                       | Inr delay \<Rightarrow> do {
                           t <- map_of (n_topicMap n1) topicName;
                           (i, f) <- Topic_GenerateID (x_clock x 0) (t_idFactory t);
                           (err, t1) <- Topic_PutMessage ((NewMessage (x_now x) i body)\<lparr>m_deferred := delay\<rparr>)
                                          (t\<lparr>t_idFactory := f\<rparr>);
                           let s2 = s1\<lparr>p_nsqd := with_topic topicName t1 n1\<rparr>;
                           Some (case err of
                                   Some _ \<Rightarrow> (Inl (Err 503 ''EXITING''), s2)
                                 | None \<Rightarrow> (Inr (DString ''OK''), s2)) })) }))"

text \<open>The loop over the lines of a text MPUB: \<open>i\<close> messages and \<open>got\<close> bytes so far. A block ends with
  its newline; the last one has none and ends the loop.\<close>

function mpub_text ::
    "'b pctx \<Rightarrow> int \<Rightarrow> int \<Rightarrow> nat \<Rightarrow> int \<Rightarrow> bytes \<Rightarrow> guidFactory \<Rightarrow> ((http_err + Message list) \<times> guidFactory) option" where
  "mpub_text x readMax maxMsg i got inp f =
     (let line = takeWhile (\<lambda>b. b \<noteq> 10) inp; exit = (length line = length inp);
          got1 = got + int (length line) + (if exit then 0 else 1);
          rest = drop (length line + 1) inp in
      if got1 = readMax then Some (Inl (Err 413 ''BODY_TOO_BIG''), f)
      else if length line = 0 then (if exit then Some (Inr [], f) else mpub_text x readMax maxMsg i got1 rest f)
      else if maxMsg < int (length line) then Some (Inl (Err 413 ''MSG_TOO_BIG''), f)
      else do {
        (mid, f1) <- Topic_GenerateID (x_clock x i) f;
        let m = NewMessage (x_now x) mid line;
        (if exit then Some (Inr [m], f1)
         else do {
           (r, f2) <- mpub_text x readMax maxMsg (i + 1) got1 rest f1;
           Some (case r of Inl e \<Rightarrow> (Inl e, f2) | Inr ms \<Rightarrow> (Inr (m # ms), f2)) }) })"
  by pat_completeness auto
termination
proof (relation "measure (\<lambda>(x, rm, mm, i, t, inp, f). length inp)", goal_cases)
  case (2 x readMax maxMsg i got inp f line exit got1 rest)
  then have "inp \<noteq> []" by auto
  then show ?case using 2 by simp
next
  case (3 x readMax maxMsg i got inp f line exit got1 rest)
  then have "inp \<noteq> []" by auto
  then show ?case using 3 by simp
qed simp

declare mpub_text.simps [simp del]

definition binary_mode :: "Values \<Rightarrow> bool" where
  "binary_mode vs =
     (case query_value ''binary'' vs of
        None \<Rightarrow> False
      | Some v \<Rightarrow> (case map_of boolParams v of None \<Rightarrow> True | Some b \<Rightarrow> b))"

text \<open>The messages of an MPUB: in binary form as over TCP, with the body as the reader (a body
  that cannot be read ends at once).\<close>

definition mpub_messages ::
    "'b pctx \<Rightarrow> Options \<Rightarrow> Values \<Rightarrow> http_req \<Rightarrow> guidFactory \<Rightarrow> ((http_err + Message list) \<times> guidFactory) option" where
  "mpub_messages x opts vs req f =
     (if binary_mode vs
      then
        let body = (case q_Body req of Inl _ \<Rightarrow> [] | Inr b \<Rightarrow> b);
            reader = (newClientV2 opts 0 0 (Inl []) [])\<lparr>cl_Reader := body\<rparr> in do {
        (r, _, f1) <- readMPUB x opts (reader, f);
        Some (case r of
                Inl e \<Rightarrow> (Inl (Err 413 (drop 2 (Code e))), f1)
              | Inr ms \<Rightarrow> (Inr ms, f1)) }
      else
        let readMax = o_MaxBodySize opts + 1 in
        (case read_limited readMax req of
           Inl _ \<Rightarrow> Some (Inl (Err 500 ''INTERNAL_ERROR''), f)
         | Inr inp \<Rightarrow> mpub_text x readMax (o_MaxMsgSize opts) 0 0 inp f))"

definition http_doMPUB :: "'b pctx \<Rightarrow> http_req \<Rightarrow> 'b proto \<Rightarrow> ('b, 'd) http_reply" where
  "http_doMPUB x req s =
     (let opts = n_opts (p_nsqd s) in
      if o_MaxBodySize opts < q_ContentLength req then Returns (Inl (Err 413 ''BODY_TOO_BIG''), s)
      else outcome_of (do {
        (r, n1) <- getTopicFromQuery (x_env x) req (p_nsqd s);
        let s1 = s\<lparr>p_nsqd := n1\<rparr>;
        (case r of
           Inl e \<Rightarrow> Some (Inl e, s1)
         | Inr (vs, topicName) \<Rightarrow> do {
             t <- map_of (n_topicMap n1) topicName;
             (r2, f) <- mpub_messages x opts vs req (t_idFactory t);
             let t1 = t\<lparr>t_idFactory := f\<rparr>;
             (case r2 of
                Inl e \<Rightarrow> Some (Inl e, s1\<lparr>p_nsqd := with_topic topicName t1 n1\<rparr>)
              | Inr msgs \<Rightarrow> do {
                  (err, t2) <- Topic_PutMessages msgs t1;
                  let s2 = s1\<lparr>p_nsqd := with_topic topicName t2 n1\<rparr>;
                  Some (case err of
                          Some _ \<Rightarrow> (Inl (Err 503 ''EXITING''), s2)
                        | None \<Rightarrow> (Inr (DString ''OK''), s2)) }) }) }))"

section \<open>Administration\<close>

definition http_pingHandler :: "'b proto \<Rightarrow> ('b, 'd) http_reply" where
  "http_pingHandler s =
     (let health = nsqd_GetHealth (p_nsqd s) in
      if \<not> nsqd_IsHealthy (p_nsqd s) then Returns (Inl (Err 500 health), s)
      else Returns (Inr (DString health), s))"

text \<open>The fields of the answer other than the host name are given by \<open>info\<close>.\<close>

definition http_doInfo :: "go_error + string \<Rightarrow> (string \<Rightarrow> 'd) \<Rightarrow> 'b proto \<Rightarrow> ('b, 'd) http_reply" where
  "http_doInfo hostname info s =
     (case hostname of
        Inl e \<Rightarrow> Returns (Inl (Err 500 e), s)
      | Inr h \<Rightarrow> Returns (Inr (DValue (info h)), s))"

definition setBlockRateHandler :: "go_error + int \<Rightarrow> http_err + 'd api_data" where
  "setBlockRateHandler rate =
     (case rate of
        Inl e \<Rightarrow> Inl (Err 400 (''invalid block rate : '' @ e))
      | Inr r \<Rightarrow> Inr DNil)"

definition http_doCreateTopic :: "'b pctx \<Rightarrow> http_req \<Rightarrow> 'b proto \<Rightarrow> ('b, 'd) http_reply" where
  "http_doCreateTopic x req s =
     outcome_of (do {
       (r, n1) <- getTopicFromQuery (x_env x) req (p_nsqd s);
       Some (case r of Inl e \<Rightarrow> Inl e | Inr _ \<Rightarrow> Inr DNil, s\<lparr>p_nsqd := n1\<rparr>) })"

text \<open>The beginning of the handlers that take a topic only.\<close>

definition topic_arg :: "http_req \<Rightarrow> http_err + string" where
  "topic_arg req =
     (case NewReqParams req of
        Inl _ \<Rightarrow> Inl (Err 400 ''INVALID_REQUEST'')
      | Inr rp \<Rightarrow>
          (case ReqParams_Get ''topic'' rp of
             Inl _ \<Rightarrow> Inl (Err 400 ''MISSING_ARG_TOPIC'')
           | Inr topicName \<Rightarrow> Inr topicName))"

definition http_doEmptyTopic :: "http_req \<Rightarrow> 'b proto \<Rightarrow> ('b, 'd) http_reply" where
  "http_doEmptyTopic req s =
     (case topic_arg req of
        Inl e \<Rightarrow> Returns (Inl e, s)
      | Inr topicName \<Rightarrow>
          if \<not> IsValidTopicName topicName then Returns (Inl (Err 400 ''INVALID_TOPIC''), s)
          else (case nsqd_GetExistingTopic topicName (p_nsqd s) of
                  Inl _ \<Rightarrow> Returns (Inl (Err 404 ''TOPIC_NOT_FOUND''), s)
                | Inr t \<Rightarrow> outcome_of (do {
                    (err, t1) <- Topic_Empty t;
                    let s1 = s\<lparr>p_nsqd := with_topic topicName t1 (p_nsqd s)\<rparr>;
                    Some (case err of
                            Some _ \<Rightarrow> (Inl (Err 500 ''INTERNAL_ERROR''), s1)
                          | None \<Rightarrow> (Inr DNil, s1)) })))"

definition http_doDeleteTopic :: "'b pctx \<Rightarrow> http_req \<Rightarrow> 'b proto \<Rightarrow> ('b, 'd) http_reply" where
  "http_doDeleteTopic x req s =
     (case topic_arg req of
        Inl e \<Rightarrow> Returns (Inl e, s)
      | Inr topicName \<Rightarrow>
          (case nsqd_DeleteExistingTopic (x_env x) topicName (p_nsqd s) (p_clients s) of
             Blocks \<Rightarrow> Blocks
           | Panics \<Rightarrow> Panics
           | Returns (err, n1, cs1) \<Rightarrow>
               let s1 = s\<lparr>p_nsqd := n1, p_clients := cs1\<rparr> in
               (case err of
                  Some _ \<Rightarrow> Returns (Inl (Err 404 ''TOPIC_NOT_FOUND''), s1)
                | None \<Rightarrow> Returns (Inr DNil, s1))))"

text \<open>\<open>strings.Contains\<close>.\<close>

definition Contains :: "string \<Rightarrow> string \<Rightarrow> bool" where
  "Contains s sub \<longleftrightarrow> (\<exists>i \<in> set [0..<length s + 1]. take (length sub) (drop i s) = sub)"

text \<open>\<open>io\<close> is the result of writing the metadata file, which the handlers ignore.\<close>

definition http_doPauseTopic :: "go_error option \<Rightarrow> http_req \<Rightarrow> 'b proto \<Rightarrow> ('b, 'd) http_reply" where
  "http_doPauseTopic io req s =
     (case topic_arg req of
        Inl e \<Rightarrow> Returns (Inl e, s)
      | Inr topicName \<Rightarrow>
          (case nsqd_GetExistingTopic topicName (p_nsqd s) of
             Inl _ \<Rightarrow> Returns (Inl (Err 404 ''TOPIC_NOT_FOUND''), s)
           | Inr t \<Rightarrow>
               (case (if Contains (q_Path req) ''unpause'' then Topic_UnPause t else Topic_Pause t) of
                  (Some _, t1) \<Rightarrow>
                    Returns (Inl (Err 500 ''INTERNAL_ERROR''), s\<lparr>p_nsqd := with_topic topicName t1 (p_nsqd s)\<rparr>)
                | (None, t1) \<Rightarrow>
                    Returns (Inr DNil,
                      s\<lparr>p_nsqd := snd (nsqd_PersistMetadata io (with_topic topicName t1 (p_nsqd s)))\<rparr>))))"

definition http_doCreateChannel :: "'b pctx \<Rightarrow> http_req \<Rightarrow> 'b proto \<Rightarrow> ('b, 'd) http_reply" where
  "http_doCreateChannel x req s =
     (case getExistingTopicFromQuery req (p_nsqd s) of
        Inl e \<Rightarrow> Returns (Inl e, s)
      | Inr (topicName, t, channelName) \<Rightarrow>
          Returns (Inr DNil,
            s\<lparr>p_nsqd := with_topic topicName (get_channel (x_env x) (n_opts (p_nsqd s)) channelName t) (p_nsqd s)\<rparr>))"

text \<open>The beginning of the handlers on an existing channel.\<close>

definition existing_channel :: "http_req \<Rightarrow> 'b NSQD \<Rightarrow> http_err + string \<times> 'b Topic \<times> string \<times> 'b Channel" where
  "existing_channel req n =
     (case getExistingTopicFromQuery req n of
        Inl e \<Rightarrow> Inl e
      | Inr (topicName, t, channelName) \<Rightarrow>
          (case Topic_GetExistingChannel channelName t of
             Inl _ \<Rightarrow> Inl (Err 404 ''CHANNEL_NOT_FOUND'')
           | Inr c \<Rightarrow> Inr (topicName, t, channelName, c)))"

definition with_channel :: "string \<Rightarrow> 'b Topic \<Rightarrow> string \<Rightarrow> 'b Channel \<Rightarrow> cstore \<Rightarrow> 'b proto \<Rightarrow> 'b proto" where
  "with_channel tn t cn c cs s =
     s\<lparr>p_nsqd := with_topic tn (t\<lparr>t_channelMap := amap_put cn c (t_channelMap t)\<rparr>) (p_nsqd s), p_clients := cs\<rparr>"

definition http_doEmptyChannel :: "'b pctx \<Rightarrow> http_req \<Rightarrow> 'b proto \<Rightarrow> ('b, 'd) http_reply" where
  "http_doEmptyChannel x req s =
     (case existing_channel req (p_nsqd s) of
        Inl e \<Rightarrow> Returns (Inl e, s)
      | Inr (tn, t, cn, c) \<Rightarrow> outcome_of (do {
          (err, c1, cs1) <- Channel_Empty (e_ops (x_env x)) (n_opts (p_nsqd s)) c (p_clients s);
          let s1 = with_channel tn t cn c1 cs1 s;
          Some (case err of
                  Some _ \<Rightarrow> (Inl (Err 500 ''INTERNAL_ERROR''), s1)
                | None \<Rightarrow> (Inr DNil, s1)) }))"

definition http_doDeleteChannel :: "'b pctx \<Rightarrow> http_req \<Rightarrow> 'b proto \<Rightarrow> ('b, 'd) http_reply" where
  "http_doDeleteChannel x req s =
     (case getExistingTopicFromQuery req (p_nsqd s) of
        Inl e \<Rightarrow> Returns (Inl e, s)
      | Inr (tn, t, cn) \<Rightarrow> outcome_of (do {
          (err, t1, cs1) <- Topic_DeleteExistingChannel (e_ops (x_env x)) (n_opts (p_nsqd s)) cn t (p_clients s);
          let s1 = s\<lparr>p_nsqd := with_topic tn t1 (p_nsqd s), p_clients := cs1\<rparr>;
          Some (case err of
                  Some _ \<Rightarrow> (Inl (Err 404 ''CHANNEL_NOT_FOUND''), s1)
                | None \<Rightarrow> (Inr DNil, s1)) }))"

definition http_doPauseChannel :: "go_error option \<Rightarrow> http_req \<Rightarrow> 'b proto \<Rightarrow> ('b, 'd) http_reply" where
  "http_doPauseChannel io req s =
     (case existing_channel req (p_nsqd s) of
        Inl e \<Rightarrow> Returns (Inl e, s)
      | Inr (tn, t, cn, c) \<Rightarrow>
          (case (if Contains (q_Path req) ''unpause'' then Channel_UnPause c (p_clients s) else Channel_Pause c (p_clients s)) of
             (Some _, c1, cs1) \<Rightarrow> Returns (Inl (Err 500 ''INTERNAL_ERROR''), with_channel tn t cn c1 cs1 s)
           | (None, c1, cs1) \<Rightarrow>
               let s1 = with_channel tn t cn c1 cs1 s in
               Returns (Inr DNil, s1\<lparr>p_nsqd := snd (nsqd_PersistMetadata io (p_nsqd s1))\<rparr>)))"

section \<open>Serving\<close>

text \<open>A plain server that requires TLS refuses every request; \<open>None\<close> stands for this refusal, with
  status 403. The routes below are the ones modelled.\<close>

definition http_route :: "'b pctx \<Rightarrow> go_error option \<Rightarrow> http_req \<Rightarrow> 'b proto \<Rightarrow> ('b, 'd) http_reply" where
  "http_route x io req s =
     (let p = q_Path req;
          posts = [''/pub'', ''/mpub'', ''/topic/create'', ''/topic/delete'', ''/topic/empty'', ''/topic/pause'',
                   ''/topic/unpause'', ''/channel/create'', ''/channel/delete'', ''/channel/empty'', ''/channel/pause'',
                   ''/channel/unpause''] in
      if p \<in> set posts \<and> q_Method req \<noteq> ''POST'' \<or> p = ''/ping'' \<and> q_Method req \<noteq> ''GET''
      then Returns (LogMethodNotAllowedHandler, s)
      else if p = ''/ping'' then http_pingHandler s
      else if p = ''/pub'' then http_doPUB x req s
      else if p = ''/mpub'' then http_doMPUB x req s
      else if p = ''/topic/create'' then http_doCreateTopic x req s
      else if p = ''/topic/delete'' then http_doDeleteTopic x req s
      else if p = ''/topic/empty'' then http_doEmptyTopic req s
      else if p = ''/topic/pause'' \<or> p = ''/topic/unpause'' then http_doPauseTopic io req s
      else if p = ''/channel/create'' then http_doCreateChannel x req s
      else if p = ''/channel/delete'' then http_doDeleteChannel x req s
      else if p = ''/channel/empty'' then http_doEmptyChannel x req s
      else if p = ''/channel/pause'' \<or> p = ''/channel/unpause'' then http_doPauseChannel io req s
      else Returns (LogNotFoundHandler, s))"

definition http_ServeHTTP ::
    "bool \<Rightarrow> bool \<Rightarrow> 'b pctx \<Rightarrow> go_error option \<Rightarrow> http_req \<Rightarrow> 'b proto \<Rightarrow> ('b, 'd) http_reply option" where
  "http_ServeHTTP tlsEnabled tlsRequired x io req s =
     (if \<not> tlsEnabled \<and> tlsRequired then None else Some (http_route x io req s))"

end
