(* ===== verification/Nsq_RegistrationDB.thy ===== *)
theory Nsq_RegistrationDB
  imports Nsq_InFlightPQ
begin

text \<open>
  \<open>nsqlookupd/registration_db.go\<close>: which nsqd provides which topic and channel. The entries of the
  database are pointers to \<open>Producer\<close> objects, and these point to the \<open>PeerInfo\<close> of their
  connection, which PING updates: both are stores of objects, addressed by references. A Go map is an
  association list whose order is the order of one iteration; what is proved holds for every order.

  The database is seen from outside as the relation \<open>regs\<close> between registrations and producer
  identifiers. The locale \<open>registry\<close> states what its operations promise about this relation, and
  derives the effect of the loops the protocol and the HTTP interface run over them.
\<close>

section \<open>Data\<close>

record Registration =
  Category :: string
  Key :: string
  SubKey :: string

abbreviation Reg :: "string \<Rightarrow> string \<Rightarrow> string \<Rightarrow> Registration" where
  "Reg c k s \<equiv> \<lparr>Category = c, Key = k, SubKey = s\<rparr>"

record PeerInfo =
  pe_lastUpdate :: int
  pe_id :: string
  pe_RemoteAddress :: string
  pe_Hostname :: string
  pe_BroadcastAddress :: string
  pe_TCPPort :: int
  pe_HTTPPort :: int
  pe_Version :: string

record Producer =
  pr_peerInfo :: ref
  pr_tombstoned :: bool
  pr_tombstonedAt :: int

type_synonym ProducerMap = "(string \<times> ref) list"

record RegistrationDB =
  db_registrationMap :: "(Registration \<times> ProducerMap) list"
  db_producers :: "ref \<Rightarrow> Producer"
  db_nextProducer :: ref
  db_peers :: "ref \<Rightarrow> PeerInfo"
  db_nextPeer :: ref

definition peer_of :: "RegistrationDB \<Rightarrow> ref \<Rightarrow> PeerInfo" where
  "peer_of db p = db_peers db (pr_peerInfo (db_producers db p))"

text \<open>A \<open>&Producer{peerInfo: ...}\<close> is not tombstoned; its time is Go's zero time, before any clock value.\<close>

definition new_producer :: "ref \<Rightarrow> Producer" where
  "new_producer peer = \<lparr>pr_peerInfo = peer, pr_tombstoned = False, pr_tombstonedAt = - 62135596800000000000\<rparr>"

section \<open>Operations\<close>

definition Tombstone :: "int \<Rightarrow> Producer \<Rightarrow> Producer" where
  "Tombstone now p = p\<lparr>pr_tombstoned := True, pr_tombstonedAt := now\<rparr>"

definition IsTombstoned :: "int \<Rightarrow> int \<Rightarrow> Producer \<Rightarrow> bool" where
  "IsTombstoned now lifetime p \<longleftrightarrow> pr_tombstoned p \<and> now - pr_tombstonedAt p < lifetime"

definition NewRegistrationDB :: RegistrationDB where
  "NewRegistrationDB = \<lparr>db_registrationMap = [],
     db_producers = (\<lambda>_. \<lparr>pr_peerInfo = 0, pr_tombstoned = False, pr_tombstonedAt = 0\<rparr>), db_nextProducer = 0,
     db_peers = (\<lambda>_. \<lparr>pe_lastUpdate = 0, pe_id = [], pe_RemoteAddress = [], pe_Hostname = [],
                      pe_BroadcastAddress = [], pe_TCPPort = 0, pe_HTTPPort = 0, pe_Version = []\<rparr>), db_nextPeer = 0\<rparr>"

definition AddRegistration :: "Registration \<Rightarrow> RegistrationDB \<Rightarrow> RegistrationDB" where
  "AddRegistration k db =
     (case map_of (db_registrationMap db) k of
        Some _ \<Rightarrow> db
      | None \<Rightarrow> db\<lparr>db_registrationMap := amap_put k [] (db_registrationMap db)\<rparr>)"

definition AddProducer :: "Registration \<Rightarrow> Producer \<Rightarrow> RegistrationDB \<Rightarrow> bool \<times> RegistrationDB" where
  "AddProducer k p db =
     (let db1 = AddRegistration k db;
          producers = (case map_of (db_registrationMap db1) k of None \<Rightarrow> [] | Some ps \<Rightarrow> ps);
          i = pe_id (db_peers db (pr_peerInfo p)) in
      case map_of producers i of
        Some _ \<Rightarrow> (False, db1)
      | None \<Rightarrow>
          let r = db_nextProducer db1 in
          (True, db1\<lparr>db_producers := (db_producers db1)(r := p), db_nextProducer := r + 1,
                     db_registrationMap := amap_put k (amap_put i r producers) (db_registrationMap db1)\<rparr>))"

definition RemoveProducer :: "Registration \<Rightarrow> string \<Rightarrow> RegistrationDB \<Rightarrow> (bool \<times> nat) \<times> RegistrationDB" where
  "RemoveProducer k i db =
     (case map_of (db_registrationMap db) k of
        None \<Rightarrow> ((False, 0), db)
      | Some producers \<Rightarrow>
          let removed = (map_of producers i \<noteq> None); left = amap_del i producers in
          ((removed, length left), db\<lparr>db_registrationMap := amap_put k left (db_registrationMap db)\<rparr>))"

definition RemoveRegistration :: "Registration \<Rightarrow> RegistrationDB \<Rightarrow> RegistrationDB" where
  "RemoveRegistration k db = db\<lparr>db_registrationMap := amap_del k (db_registrationMap db)\<rparr>"

definition needFilter :: "string \<Rightarrow> string \<Rightarrow> bool" where
  "needFilter key subkey \<longleftrightarrow> key = ''*'' \<or> subkey = ''*''"

definition IsMatch :: "string \<Rightarrow> string \<Rightarrow> string \<Rightarrow> Registration \<Rightarrow> bool" where
  "IsMatch category key subkey k =
     (if category \<noteq> Category k then False
      else if key \<noteq> ''*'' \<and> Key k \<noteq> key then False
      else if subkey \<noteq> ''*'' \<and> SubKey k \<noteq> subkey then False
      else True)"

definition FindRegistrations :: "string \<Rightarrow> string \<Rightarrow> string \<Rightarrow> RegistrationDB \<Rightarrow> Registration list" where
  "FindRegistrations category key subkey db =
     (if \<not> needFilter key subkey
      then let k = Reg category key subkey in
           (case map_of (db_registrationMap db) k of Some _ \<Rightarrow> [k] | None \<Rightarrow> [])
      else filter (IsMatch category key subkey) (map fst (db_registrationMap db)))"

definition ProducerMap2Slice :: "ProducerMap \<Rightarrow> ref list" where
  "ProducerMap2Slice pm = map snd pm"

text \<open>The loops of \<open>FindProducers\<close>: \<open>seen\<close> are the identifiers met so far.\<close>

fun find_loop :: "RegistrationDB \<Rightarrow> ref list \<Rightarrow> string list \<Rightarrow> ref list" where
  "find_loop db [] seen = []"
| "find_loop db (p # ps) seen =
     (if pe_id (peer_of db p) \<in> set seen then find_loop db ps seen
      else p # find_loop db ps (pe_id (peer_of db p) # seen))"

definition FindProducers :: "string \<Rightarrow> string \<Rightarrow> string \<Rightarrow> RegistrationDB \<Rightarrow> ref list" where
  "FindProducers category key subkey db =
     (if \<not> needFilter key subkey
      then (case map_of (db_registrationMap db) (Reg category key subkey) of
              None \<Rightarrow> [] | Some pm \<Rightarrow> ProducerMap2Slice pm)
      else find_loop db
             (concat (map (ProducerMap2Slice \<circ> snd)
                (filter (IsMatch category key subkey \<circ> fst) (db_registrationMap db)))) [])"

definition LookupRegistrations :: "string \<Rightarrow> RegistrationDB \<Rightarrow> Registration list" where
  "LookupRegistrations i db = map fst (filter (\<lambda>(k, pm). map_of pm i \<noteq> None) (db_registrationMap db))"

definition Registrations_Filter :: "string \<Rightarrow> string \<Rightarrow> string \<Rightarrow> Registration list \<Rightarrow> Registration list" where
  "Registrations_Filter category key subkey rr = filter (IsMatch category key subkey) rr"

definition Registrations_Keys :: "Registration list \<Rightarrow> string list" where
  "Registrations_Keys rr = map Key rr"

definition Registrations_SubKeys :: "Registration list \<Rightarrow> string list" where
  "Registrations_SubKeys rr = map SubKey rr"

text \<open>The clock is read once by the filter and again for every tombstone: \<open>at\<close> is the latter.\<close>

definition FilterByActive ::
    "int \<Rightarrow> (ref \<Rightarrow> int) \<Rightarrow> int \<Rightarrow> int \<Rightarrow> RegistrationDB \<Rightarrow> ref list \<Rightarrow> ref list" where
  "FilterByActive now at inactivityTimeout tombstoneLifetime db pp =
     filter (\<lambda>p. \<not> (inactivityTimeout < now - pe_lastUpdate (peer_of db p) \<or>
                     IsTombstoned (at p) tombstoneLifetime (db_producers db p))) pp"

definition Producers_PeerInfo :: "RegistrationDB \<Rightarrow> ref list \<Rightarrow> PeerInfo list" where
  "Producers_PeerInfo db pp = map (peer_of db) pp"

section \<open>The relation a database stands for\<close>

definition known :: "RegistrationDB \<Rightarrow> Registration set" where
  "known db = fst ` set (db_registrationMap db)"

definition entry :: "RegistrationDB \<Rightarrow> Registration \<Rightarrow> string \<Rightarrow> ref option" where
  "entry db k i = (case map_of (db_registrationMap db) k of None \<Rightarrow> None | Some pm \<Rightarrow> map_of pm i)"

definition regs :: "RegistrationDB \<Rightarrow> (Registration \<times> string) set" where
  "regs db = {(k, i). entry db k i \<noteq> None}"

text \<open>Maps have distinct keys; an entry is filed under the identifier of its peer; no producer object is
  shared between two entries, and all references are to objects that exist.\<close>

definition maps_ok :: "RegistrationDB \<Rightarrow> bool" where
  "maps_ok db \<longleftrightarrow> distinct (map fst (db_registrationMap db)) \<and>
     (\<forall>k pm. map_of (db_registrationMap db) k = Some pm \<longrightarrow> distinct (map fst pm))"

definition entries_ok :: "RegistrationDB \<Rightarrow> bool" where
  "entries_ok db \<longleftrightarrow>
     (\<forall>k i r. entry db k i = Some r \<longrightarrow>
        r < db_nextProducer db \<and> pr_peerInfo (db_producers db r) < db_nextPeer db \<and> pe_id (peer_of db r) = i) \<and>
     (\<forall>k k' i i' r. entry db k i = Some r \<longrightarrow> entry db k' i' = Some r \<longrightarrow> k = k' \<and> i = i')"

definition db_ok :: "RegistrationDB \<Rightarrow> bool" where
  "db_ok db \<longleftrightarrow> maps_ok db \<and> entries_ok db"

lemma fst_amap_put:
  "map fst (amap_put k v m) = (if k \<in> fst ` set m then map fst m else map fst m @ [k])"
proof -
  have "map fst (map (\<lambda>(k', v'). if k' = k then (k, v) else (k', v')) ps) = map fst ps" for ps :: "('a \<times> 'b) list"
    by (induction ps) auto
  then show ?thesis by (simp add: amap_put_def del: map_map)
qed

lemma distinct_amap_put: "distinct (map fst m) \<Longrightarrow> distinct (map fst (amap_put k v m))"
  unfolding fst_amap_put by auto

lemma maps_ok_put:
  assumes "maps_ok db" "distinct (map fst pm)" "db_registrationMap db' = amap_put k pm (db_registrationMap db)"
  shows "maps_ok db'"
  using assms distinct_amap_put [of "db_registrationMap db" k pm] by (simp add: maps_ok_def map_of_amap_put del: map_of_eq_Some_iff)

lemma maps_ok_get: "maps_ok db \<Longrightarrow> map_of (db_registrationMap db) k = Some pm \<Longrightarrow> distinct (map fst pm)"
  unfolding maps_ok_def by blast

lemma known_iff: "k \<in> known db \<longleftrightarrow> map_of (db_registrationMap db) k \<noteq> None"
  by (auto simp: known_def map_of_eq_None_iff)

lemma regs_known: "(k, i) \<in> regs db \<Longrightarrow> k \<in> known db"
  by (auto simp: regs_def entry_def known_iff split: option.splits)

lemma db_ok_new: "db_ok NewRegistrationDB"
  by (simp add: db_ok_def maps_ok_def entries_ok_def entry_def NewRegistrationDB_def)

section \<open>Effect of the operations\<close>

lemma AddRegistration_effect:
  "entry (AddRegistration k db) = entry db" "known (AddRegistration k db) = insert k (known db)"
  "db_producers (AddRegistration k db) = db_producers db" "db_nextProducer (AddRegistration k db) = db_nextProducer db"
  "db_peers (AddRegistration k db) = db_peers db" "db_nextPeer (AddRegistration k db) = db_nextPeer db"
  "maps_ok db \<Longrightarrow> maps_ok (AddRegistration k db)"
  by (auto simp: AddRegistration_def entry_def known_iff map_of_amap_put fun_eq_iff
      elim!: maps_ok_put split: option.splits if_splits)

lemma AddProducer_effect:
  fixes p :: Producer and db :: RegistrationDB
  defines "i \<equiv> pe_id (db_peers db (pr_peerInfo p))"
  shows "fst (AddProducer k p db) \<longleftrightarrow> entry db k i = None"
    "entry (snd (AddProducer k p db)) k' i' =
       (if k' = k \<and> i' = i \<and> entry db k i = None then Some (db_nextProducer db) else entry db k' i')"
    "known (snd (AddProducer k p db)) = insert k (known db)"
    "db_peers (snd (AddProducer k p db)) = db_peers db" "db_nextPeer (snd (AddProducer k p db)) = db_nextPeer db"
    "db_producers (snd (AddProducer k p db)) =
       (if entry db k i = None then (db_producers db)(db_nextProducer db := p) else db_producers db)"
    "db_nextProducer (snd (AddProducer k p db)) =
       (if entry db k i = None then db_nextProducer db + 1 else db_nextProducer db)"
    "maps_ok db \<Longrightarrow> maps_ok (snd (AddProducer k p db))"
proof -
  let ?db = "AddRegistration k db"
  obtain pm where pm: "map_of (db_registrationMap ?db) k = Some pm"
    using AddRegistration_effect(2) [of k db] by (auto simp: known_iff set_eq_iff)
  then have e: "entry db k j = map_of pm j" for j
    using fun_cong [OF fun_cong [OF AddRegistration_effect(1) [of k db]], of k j] by (simp add: entry_def)
  note a = AddProducer_def [of k p db, unfolded Let_def, simplified pm option.case, folded i_def]
  note eff = AddRegistration_effect [where k = k and db = db]
  show "fst (AddProducer k p db) \<longleftrightarrow> entry db k i = None" by (auto simp: a e split: option.split)
  show "entry (snd (AddProducer k p db)) k' i' =
       (if k' = k \<and> i' = i \<and> entry db k i = None then Some (db_nextProducer db) else entry db k' i')"
  proof (cases "map_of pm i")
    case None
    then show ?thesis using e eff(1,4) pm
      by (simp add: a) (auto simp: entry_def map_of_amap_put fun_eq_iff split: if_splits)
  qed (use eff(1) e in \<open>simp add: a\<close>)
  show "known (snd (AddProducer k p db)) = insert k (known db)"
    using eff(2) by (auto simp: a known_iff map_of_amap_put set_eq_iff split: option.split)
  show "db_peers (snd (AddProducer k p db)) = db_peers db" "db_nextPeer (snd (AddProducer k p db)) = db_nextPeer db"
    "db_producers (snd (AddProducer k p db)) =
       (if entry db k i = None then (db_producers db)(db_nextProducer db := p) else db_producers db)"
    "db_nextProducer (snd (AddProducer k p db)) =
       (if entry db k i = None then db_nextProducer db + 1 else db_nextProducer db)"
    using e by (simp_all add: a eff split: option.split)
  show "maps_ok (snd (AddProducer k p db))" if "maps_ok db"
    using eff(7) [OF that] maps_ok_get [OF eff(7) [OF that] pm]
    by (auto simp: a intro: maps_ok_put [OF _ distinct_amap_put] split: option.split)
qed

lemma RemoveProducer_effect:
  "fst (fst (RemoveProducer k i db)) \<longleftrightarrow> (k, i) \<in> regs db"
  "entry (snd (RemoveProducer k i db)) k' i' = (if k' = k \<and> i' = i then None else entry db k' i')"
  "known (snd (RemoveProducer k i db)) = known db"
  "db_producers (snd (RemoveProducer k i db)) = db_producers db"
  "db_nextProducer (snd (RemoveProducer k i db)) = db_nextProducer db"
  "db_peers (snd (RemoveProducer k i db)) = db_peers db" "db_nextPeer (snd (RemoveProducer k i db)) = db_nextPeer db"
  "maps_ok db \<Longrightarrow> maps_ok (snd (RemoveProducer k i db))"
  by (auto simp: RemoveProducer_def entry_def known_iff set_eq_iff map_of_amap_put map_of_amap_del regs_def
      Let_def intro: maps_ok_put [OF _ distinct_amap_del [OF maps_ok_get]] split: option.splits if_splits)

lemma RemoveProducer_left:
  "snd (fst (RemoveProducer k i db)) = 0 \<longleftrightarrow> (\<forall>j. (k, j) \<notin> regs (snd (RemoveProducer k i db)))"
proof (cases "map_of (db_registrationMap db) k")
  case (Some pm)
  have "length (amap_del i pm) = 0 \<longleftrightarrow> (\<forall>j. map_of (amap_del i pm) j = None)"
    by (metis length_0_conv map_of_eq_empty_iff fun_eq_iff)
  then show ?thesis using Some by (auto simp: RemoveProducer_def regs_def entry_def map_of_amap_put Let_def)
qed (simp add: RemoveProducer_def regs_def entry_def)

lemma RemoveRegistration_effect:
  "entry (RemoveRegistration k db) k' i' = (if k' = k then None else entry db k' i')"
  "known (RemoveRegistration k db) = known db - {k}"
  "db_producers (RemoveRegistration k db) = db_producers db" "db_nextProducer (RemoveRegistration k db) = db_nextProducer db"
  "db_peers (RemoveRegistration k db) = db_peers db" "db_nextPeer (RemoveRegistration k db) = db_nextPeer db"
  "maps_ok db \<Longrightarrow> maps_ok (RemoveRegistration k db)"
  by (auto simp: RemoveRegistration_def entry_def known_iff set_eq_iff map_of_amap_del maps_ok_def distinct_amap_del
      simp del: map_of_eq_Some_iff split: option.splits if_splits)

section \<open>The invariant\<close>

lemma entries_ok_mono:
  assumes "entries_ok db" "\<And>k i r. entry db' k i = Some r \<Longrightarrow> entry db k i = Some r"
    "db_producers db' = db_producers db" "db_peers db' = db_peers db" "db_nextProducer db' = db_nextProducer db"
    "db_nextPeer db' = db_nextPeer db"
  shows "entries_ok db'"
  using assms(1) unfolding entries_ok_def peer_of_def assms(3-6) by (meson assms(2))

lemma db_ok_AddRegistration: "db_ok db \<Longrightarrow> db_ok (AddRegistration k db)"
  using entries_ok_mono [of db "AddRegistration k db"] by (auto simp: db_ok_def AddRegistration_effect)

lemma db_ok_RemoveProducer: "db_ok db \<Longrightarrow> db_ok (snd (RemoveProducer k i db))"
  unfolding db_ok_def
  by (auto simp: RemoveProducer_effect elim!: entries_ok_mono split: if_splits)

lemma db_ok_RemoveRegistration: "db_ok db \<Longrightarrow> db_ok (RemoveRegistration k db)"
  unfolding db_ok_def
  by (auto simp: RemoveRegistration_effect elim!: entries_ok_mono split: if_splits)

lemma db_ok_AddProducer:
  assumes "db_ok db" "pr_peerInfo p < db_nextPeer db"
  shows "db_ok (snd (AddProducer k p db))"
proof -
  let ?i = "pe_id (db_peers db (pr_peerInfo p))" and ?db = "snd (AddProducer k p db)"
  have ok: "entries_ok db" using assms(1) by (simp add: db_ok_def)
  then have fresh: "entry db k' i' \<noteq> Some (db_nextProducer db)" for k' i' by (auto simp: entries_ok_def)
  have "entries_ok ?db"
  proof (cases "entry db k ?i")
    case None
    have old: "r \<noteq> db_nextProducer db \<and> r < Suc (db_nextProducer db) \<and> pr_peerInfo (db_producers db r) < db_nextPeer db \<and>
        pe_id (db_peers db (pr_peerInfo (db_producers db r))) = i'" if "entry db k' i' = Some r" for k' i' r
      using that ok fresh by (auto simp: entries_ok_def peer_of_def less_Suc_eq)
    have inj: "k1 = k2 \<and> i1 = i2" if "entry db k1 i1 = Some r" "entry db k2 i2 = Some r" for k1 k2 i1 i2 r
      using that ok unfolding entries_ok_def by blast
    show ?thesis unfolding entries_ok_def peer_of_def AddProducer_effect
      using None assms(2) old inj fresh by (auto split: if_splits)
  next
    case (Some r)
    then show ?thesis using entries_ok_mono [OF ok, of ?db] by (simp add: AddProducer_effect)
  qed
  then show ?thesis using assms(1) by (simp add: db_ok_def AddProducer_effect(8))
qed

section \<open>Contract\<close>

text \<open>What the clients of the database rely on: each operation adds or removes exactly the pairs it
  names, and the lookups report the relation.\<close>

locale registry =
  fixes inv :: "'d \<Rightarrow> bool" and keys :: "'d \<Rightarrow> 'k set" and rel :: "'d \<Rightarrow> ('k \<times> 'i) set"
    and remove :: "'k \<Rightarrow> 'i \<Rightarrow> 'd \<Rightarrow> (bool \<times> nat) \<times> 'd"
    and discard :: "'k \<Rightarrow> 'd \<Rightarrow> 'd"
    and of_id :: "'i \<Rightarrow> 'd \<Rightarrow> 'k list"
  assumes remove_inv: "inv d \<Longrightarrow> inv (snd (remove k i d))"
    and remove_keys: "keys (snd (remove k i d)) = keys d"
    and remove_rel: "rel (snd (remove k i d)) = rel d - {(k, i)}"
    and discard_inv: "inv d \<Longrightarrow> inv (discard k d)"
    and discard_keys: "keys (discard k d) = keys d - {k}"
    and discard_rel: "rel (discard k d) = {(k', i) \<in> rel d. k' \<noteq> k}"
    and of_id_rel: "inv d \<Longrightarrow> set (of_id i d) = {k. (k, i) \<in> rel d}"
begin

definition remove_all :: "'i \<Rightarrow> 'k list \<Rightarrow> 'd \<Rightarrow> 'd" where
  "remove_all i ks d = fold (\<lambda>k d. snd (remove k i d)) ks d"

definition discard_all :: "'k list \<Rightarrow> 'd \<Rightarrow> 'd" where
  "discard_all ks d = fold discard ks d"

lemma remove_all_effect:
  "rel (remove_all i ks d) = rel d - set ks \<times> {i}" "keys (remove_all i ks d) = keys d"
  "inv d \<Longrightarrow> inv (remove_all i ks d)"
  unfolding remove_all_def by (induction ks arbitrary: d) (auto simp: remove_rel remove_keys remove_inv)

lemma discard_all_effect:
  "rel (discard_all ks d) = {(k, i) \<in> rel d. k \<notin> set ks}" "keys (discard_all ks d) = keys d - set ks"
  "inv d \<Longrightarrow> inv (discard_all ks d)"
  unfolding discard_all_def by (induction ks arbitrary: d) (auto simp: discard_rel discard_keys discard_inv)

text \<open>Removing a producer from everything it is registered for removes all its pairs and no other.\<close>

lemma remove_id:
  assumes "inv d"
  shows "rel (remove_all i (of_id i d) d) = {(k, j) \<in> rel d. j \<noteq> i}"
  using of_id_rel [OF assms, of i] by (auto simp: remove_all_effect)

end

lemma LookupRegistrations_set:
  assumes "db_ok db"
  shows "set (LookupRegistrations i db) = {k. (k, i) \<in> regs db}"
proof -
  have d: "distinct (map fst (db_registrationMap db))" using assms by (simp add: db_ok_def maps_ok_def)
  show ?thesis using map_of_mem [OF d]
    by (auto simp: LookupRegistrations_def regs_def entry_def image_iff split: option.splits)
qed

interpretation db: registry db_ok known regs RemoveProducer RemoveRegistration LookupRegistrations
  by unfold_locales
    (auto simp: db_ok_RemoveProducer db_ok_RemoveRegistration RemoveProducer_effect RemoveRegistration_effect
      LookupRegistrations_set regs_def)

section \<open>Lookups\<close>

definition matching :: "string \<Rightarrow> string \<Rightarrow> string \<Rightarrow> RegistrationDB \<Rightarrow> (Registration \<times> ProducerMap) list" where
  "matching category key subkey db = filter (IsMatch category key subkey \<circ> fst) (db_registrationMap db)"

lemma IsMatch_exact: "\<not> needFilter key subkey \<Longrightarrow> IsMatch category key subkey k \<longleftrightarrow> k = Reg category key subkey"
  by (cases k) (auto simp: IsMatch_def needFilter_def)

lemma filter_key:
  "distinct (map fst m) \<Longrightarrow> filter (\<lambda>p. fst p = k) m = (case map_of m k of None \<Rightarrow> [] | Some v \<Rightarrow> [(k, v)])"
proof (induction m)
  case (Cons p m)
  obtain k' v' where p: "p = (k', v')" by fastforce
  have "filter (\<lambda>q. fst q = k) m = []" if "k' = k" using Cons.prems p that by (force simp: filter_empty_conv)
  then show ?case using Cons p by auto
qed simp

lemma matching_exact:
  assumes "db_ok db" "\<not> needFilter key subkey"
  shows "matching category key subkey db =
    (case map_of (db_registrationMap db) (Reg category key subkey) of
       None \<Rightarrow> [] | Some pm \<Rightarrow> [(Reg category key subkey, pm)])"
proof -
  have m: "(IsMatch category key subkey \<circ> fst) = (\<lambda>p. fst p = Reg category key subkey)"
    using IsMatch_exact [OF assms(2)] by (simp add: fun_eq_iff)
  have d: "distinct (map fst (db_registrationMap db))" using assms(1) by (simp add: db_ok_def maps_ok_def)
  show ?thesis unfolding matching_def m filter_key [OF d] by (rule refl)
qed

lemma FindRegistrations_scan:
  assumes "db_ok db"
  shows "FindRegistrations category key subkey db = map fst (matching category key subkey db)"
proof (cases "needFilter key subkey")
  case False
  then show ?thesis using matching_exact [OF assms False]
    by (simp add: FindRegistrations_def split: option.split)
qed (simp add: FindRegistrations_def matching_def filter_map)

lemma find_loop_distinct:
  "distinct (map (pe_id \<circ> peer_of db) ps) \<Longrightarrow> (pe_id \<circ> peer_of db) ` set ps \<inter> set seen = {} \<Longrightarrow>
     find_loop db ps seen = ps"
  by (induction ps arbitrary: seen) auto

lemma map_entries:
  assumes "db_ok db" "map_of (db_registrationMap db) k = Some pm"
  shows "map (pe_id \<circ> peer_of db \<circ> snd) pm = map fst pm" "distinct (map fst pm)" "distinct (map snd pm)"
proof -
  show d: "distinct (map fst pm)" using assms maps_ok_get by (auto simp: db_ok_def)
  have e: "entry db k i = map_of pm i" for i using assms(2) by (simp add: entry_def)
  have "pe_id (peer_of db r) = i" if "(i, r) \<in> set pm" for i r
    using that assms(1) e [of i] map_of_mem [OF d, of i r] unfolding db_ok_def entries_ok_def by metis
  then show "map (pe_id \<circ> peer_of db \<circ> snd) pm = map fst pm" by auto
  have "i = i'" if "(i, r) \<in> set pm" "(i', r) \<in> set pm" for i i' r
    using that assms(1) e map_of_mem [OF d] unfolding db_ok_def entries_ok_def by metis
  then show "distinct (map snd pm)" using d by (auto simp: distinct_map inj_on_def)
qed

lemma FindProducers_scan:
  assumes "db_ok db"
  shows "FindProducers category key subkey db =
    find_loop db (concat (map (map snd \<circ> snd) (matching category key subkey db))) []"
proof (cases "needFilter key subkey")
  case False
  let ?k = "Reg category key subkey"
  show ?thesis
  proof (cases "map_of (db_registrationMap db) ?k")
    case (Some pm)
    have "distinct (map (pe_id \<circ> peer_of db) (map snd pm))"
      unfolding map_map map_entries(1) [OF assms Some] by (rule map_entries(2) [OF assms Some])
    then show ?thesis using Some False matching_exact [OF assms False] find_loop_distinct [of db "map snd pm" "[]"]
      by (simp add: FindProducers_def ProducerMap2Slice_def)
  qed (use False matching_exact [OF assms False] in \<open>simp add: FindProducers_def\<close>)
qed (simp add: FindProducers_def matching_def ProducerMap2Slice_def comp_def)

lemma FindRegistrations_set:
  assumes "db_ok db"
  shows "set (FindRegistrations category key subkey db) = {k \<in> known db. IsMatch category key subkey k}"
  unfolding FindRegistrations_scan [OF assms] by (auto simp: matching_def known_def)

lemma FindProducers_exact:
  assumes "db_ok db" "\<not> needFilter key subkey"
  shows "set (FindProducers category key subkey db) = {r. \<exists>i. entry db (Reg category key subkey) i = Some r}"
    "distinct (FindProducers category key subkey db)"
proof -
  show "set (FindProducers category key subkey db) = {r. \<exists>i. entry db (Reg category key subkey) i = Some r}"
  proof (cases "map_of (db_registrationMap db) (Reg category key subkey)")
    case (Some pm)
    then show ?thesis using assms(2) map_of_mem [OF map_entries(2) [OF assms(1) Some]]
      by (force simp: FindProducers_def ProducerMap2Slice_def entry_def image_iff)
  qed (use assms(2) in \<open>simp add: FindProducers_def entry_def\<close>)
  show "distinct (FindProducers category key subkey db)"
    using assms(2) map_entries(3) [OF assms(1)]
    by (simp add: FindProducers_def ProducerMap2Slice_def split: option.split)
qed

end
