(* ===== verification/Nsq_ProtocolLoop.thy ===== *)
theory Nsq_ProtocolLoop
  imports Nsq_ProtocolV2
begin

text \<open>
  The two goroutines of a connection in \<open>nsqd/protocol_v2.go\<close>: \<open>IOLoop\<close>, which reads commands and
  answers them, and \<open>messagePump\<close>, which sends messages, heartbeats and buffered output. Both are
  state machines: \<open>io_step\<close> is one round of the first; \<open>cp_top\<close> and \<open>cp_select\<close> are the
  preparation and the \<open>select\<close> of the second. Command \<open>i\<close> of a connection runs in the context \<open>xs i\<close>.
\<close>

section \<open>Reading commands\<close>

definition newline :: byte where "newline = 10"
definition carriage_return :: byte where "carriage_return = 13"
definition space :: byte where "space = 32"

text \<open>\<open>ReadSlice\<close>: a line longer than the buffer is an error; the end of the input is \<open>io.EOF\<close>.\<close>

definition ReadSlice :: "clientV2 \<Rightarrow> (go_error option + bytes) \<times> clientV2" where
  "ReadSlice c =
     (let inp = cl_Reader c; line = takeWhile (\<lambda>b. b \<noteq> newline) inp in
      if int (length line) \<ge> defaultBufferSize then (Inl (Some ''failed to read command''), c\<lparr>cl_Reader := drop (nat defaultBufferSize) inp\<rparr>)
      else if length line = length inp then (Inl None, c\<lparr>cl_Reader := []\<rparr>)
      else (Inr line, c\<lparr>cl_Reader := drop (length line + 1) inp\<rparr>))"

definition trim_cr :: "bytes \<Rightarrow> bytes" where
  "trim_cr line = (if 0 < length line \<and> last line = carriage_return then butlast line else line)"

text \<open>\<open>bytes.Split\<close> with a one-byte separator.\<close>

fun split_bytes :: "byte \<Rightarrow> bytes \<Rightarrow> bytes list" where
  "split_bytes sep [] = [[]]"
| "split_bytes sep (b # bs) =
     (if b = sep then [] # split_bytes sep bs
      else case split_bytes sep bs of [] \<Rightarrow> [[b]] | w # ws \<Rightarrow> (b # w) # ws)"

datatype 'b io_result = Continue "'b proto" | Stop "go_error option" "'b proto"

definition answer :: "int \<Rightarrow> client_err + bytes option \<Rightarrow> 'b proto \<Rightarrow> 'b io_result" where
  "answer k r s =
     (let c = p_clients s k in
      case r of
        Inl err \<Rightarrow>
          (case proto_Send frameTypeError (bytes_of (client_err_Error err)) c of
             (Some e, c1) \<Rightarrow> Stop (Some (client_err_Error err)) (upd_client k (\<lambda>_. c1) s)
           | (None, c1) \<Rightarrow>
               if is_fatal err then Stop (Some (client_err_Error err)) (upd_client k (\<lambda>_. c1) s)
               else Continue (upd_client k (\<lambda>_. c1) s))
      | Inr None \<Rightarrow> Continue s
      | Inr (Some resp) \<Rightarrow>
          (case proto_Send frameTypeResponse resp c of
             (Some e, c1) \<Rightarrow> Stop (Some (''failed to send response - '' @ e)) (upd_client k (\<lambda>_. c1) s)
           | (None, c1) \<Rightarrow> Continue (upd_client k (\<lambda>_. c1) s)))"

definition io_step :: "'b pctx \<Rightarrow> int \<Rightarrow> 'b proto \<Rightarrow> 'b io_result option" where
  "io_step x k s =
     (case ReadSlice (p_clients s k) of
        (Inl e, c1) \<Rightarrow> Some (Stop e (upd_client k (\<lambda>_. c1) s))
      | (Inr line, c1) \<Rightarrow> do {
          (r, s1) <- proto_Exec x k (split_bytes space (trim_cr line)) (upd_client k (\<lambda>_. c1) s);
          Some (answer k r s1) })"

fun io_loop :: "(nat \<Rightarrow> 'b pctx) \<Rightarrow> nat \<Rightarrow> nat \<Rightarrow> int \<Rightarrow> 'b proto \<Rightarrow> (go_error option \<times> 'b proto) option" where
  "io_loop xs i 0 k s = None"
| "io_loop xs i (Suc fuel) k s = do {
     r <- io_step (xs i) k s;
     (case r of Stop e s1 \<Rightarrow> Some (e, s1) | Continue s1 \<Rightarrow> io_loop xs (i + 1) fuel k s1) }"

text \<open>What \<open>IOLoop\<close> does after the loop.\<close>

definition io_close :: "int \<Rightarrow> 'b proto \<Rightarrow> 'b proto" where
  "io_close k s =
     (let s1 = upd_client k (\<lambda>c. c\<lparr>cl_closed := True, cl_ExitChan_closed := True\<rparr>) s;
          n1 = (case cl_Channel (p_clients s1 k) of
                  None \<Rightarrow> p_nsqd s1
                | Some tc \<Rightarrow>
                    (case find_channel tc (p_nsqd s1) of
                       None \<Rightarrow> p_nsqd s1
                     | Some (t, ch) \<Rightarrow> set_channel tc (Channel_RemoveClient k ch) (p_nsqd s1)))
      in s1\<lparr>p_nsqd := nsqd_RemoveClient k n1\<rparr>)"

definition io_open :: "int \<Rightarrow> go_error + string \<Rightarrow> bytes \<Rightarrow> 'b proto \<Rightarrow> int \<times> 'b proto" where
  "io_open now ip input s =
     (let n = p_nsqd s; k = n_clientIDSequence n + 1 in
      (k, s\<lparr>p_nsqd := nsqd_AddClient k (n\<lparr>n_clientIDSequence := k\<rparr>),
            p_clients := (p_clients s)(k := newClientV2 (n_opts n) now k ip input)\<rparr>))"

definition IOLoop ::
    "(nat \<Rightarrow> 'b pctx) \<Rightarrow> nat \<Rightarrow> int \<Rightarrow> go_error + string \<Rightarrow> bytes \<Rightarrow> 'b proto \<Rightarrow> (go_error option \<times> 'b proto) option" where
  "IOLoop xs fuel now ip input s =
     (let (k, s1) = io_open now ip input s in do {
        (e, s2) <- io_loop xs 0 fuel k s1;
        Some (e, io_close k s2) })"

section \<open>The message pump of a client\<close>

record cpump =
  u_sub :: "(string \<times> string) option"
  u_subEvent :: bool
  u_identifyEvent :: bool
  u_heartbeat :: bool
  u_ticker :: bool
  u_sampleRate :: int
  u_msgTimeout :: int
  u_flushed :: bool
  u_msgChans :: bool
  u_flusher :: bool
  u_exited :: bool

text \<open>The tickers panic on an interval that is not positive.\<close>

definition cp_start :: "clientV2 \<Rightarrow> cpump option" where
  "cp_start c =
     (if cl_OutputBufferTimeout c \<le> 0 \<or> cl_HeartbeatInterval c \<le> 0 then None
      else Some \<lparr>u_sub = None, u_subEvent = True, u_identifyEvent = True, u_heartbeat = True, u_ticker = True,
                 u_sampleRate = 0, u_msgTimeout = cl_MsgTimeout c, u_flushed = True, u_msgChans = False,
                 u_flusher = False, u_exited = False\<rparr>)"

definition sub_paused :: "cpump \<Rightarrow> 'b NSQD \<Rightarrow> bool" where
  "sub_paused u n =
     (case u_sub u of
        None \<Rightarrow> False
      | Some tc \<Rightarrow> (case find_channel tc n of None \<Rightarrow> False | Some (t, ch) \<Rightarrow> Channel_IsPaused ch))"

definition cp_flush :: "int \<Rightarrow> cpump \<Rightarrow> 'b proto \<Rightarrow> cpump \<times> 'b proto" where
  "cp_flush k u s =
     (case client_Flush (p_clients s k) of
        (Some e, c1) \<Rightarrow> (u\<lparr>u_exited := True\<rparr>, upd_client k (\<lambda>_. c1) s)
      | (None, c1) \<Rightarrow> (u\<lparr>u_flushed := True\<rparr>, upd_client k (\<lambda>_. c1) s))"

definition cp_top :: "int \<Rightarrow> cpump \<Rightarrow> 'b proto \<Rightarrow> cpump \<times> 'b proto" where
  "cp_top k u s =
     (if u_sub u = None \<or> \<not> IsReadyForMessages (sub_paused u (p_nsqd s)) (p_clients s k)
      then cp_flush k (u\<lparr>u_msgChans := False, u_flusher := False\<rparr>) s
      else if u_flushed u then (u\<lparr>u_msgChans := True, u_flusher := False\<rparr>, s)
      else (u\<lparr>u_msgChans := True, u_flusher := u_ticker u\<rparr>, s))"

text \<open>A message for the client: in flight, counted, written to the client.\<close>

definition cp_deliver ::
    "int \<Rightarrow> int \<Rightarrow> ref \<Rightarrow> string \<times> string \<Rightarrow> 'b Channel \<Rightarrow> cpump \<Rightarrow> 'b proto \<Rightarrow> (cpump \<times> 'b proto) option" where
  "cp_deliver now k r tc ch u s = do {
     (_, ch1) <- deliver now r k (u_msgTimeout u) ch;
     let s1 = upd_client k SendingMessage (s\<lparr>p_nsqd := set_channel tc ch1 (p_nsqd s)\<rparr>);
     Some (case proto_SendMessage (c_msgs ch1 r) (p_clients s1 k) of
             (Some e, c1) \<Rightarrow> (u\<lparr>u_exited := True\<rparr>, upd_client k (\<lambda>_. c1) s1)
           | (None, c1) \<Rightarrow> (u\<lparr>u_flushed := False\<rparr>, upd_client k (\<lambda>_. c1) s1)) }"

text \<open>\<open>rand\<close> is the result of \<open>rand.Int31n(100)\<close>; a message that is not in the sample is dropped.\<close>

definition sampled_out :: "cpump \<Rightarrow> int \<Rightarrow> bool" where
  "sampled_out u rand \<longleftrightarrow> 0 < u_sampleRate u \<and> u_sampleRate u < rand"

definition cp_memory :: "int \<Rightarrow> int \<Rightarrow> int \<Rightarrow> cpump \<Rightarrow> 'b proto \<Rightarrow> (cpump \<times> 'b proto) option" where
  "cp_memory now rand k u s =
     (case u_sub u of
        None \<Rightarrow> Some (u, s)
      | Some tc \<Rightarrow>
          (case find_channel tc (p_nsqd s) of
             None \<Rightarrow> Some (u, s)
           | Some (t, ch) \<Rightarrow>
               (case recv_memory ch of
                  None \<Rightarrow> Some (u, s)
                | Some (r, ch1) \<Rightarrow>
                    let s1 = s\<lparr>p_nsqd := set_channel tc ch1 (p_nsqd s)\<rparr> in
                    if sampled_out u rand then Some (u, s1) else cp_deliver now k r tc ch1 u s1)))"

definition cp_backend :: "'b BackendQueue \<Rightarrow> int \<Rightarrow> int \<Rightarrow> int \<Rightarrow> cpump \<Rightarrow> 'b proto \<Rightarrow> (cpump \<times> 'b proto) option" where
  "cp_backend ops now rand k u s =
     (case u_sub u of
        None \<Rightarrow> Some (u, s)
      | Some tc \<Rightarrow>
          (case find_channel tc (p_nsqd s) of
             None \<Rightarrow> Some (u, s)
           | Some (t, ch) \<Rightarrow>
               (case recv_backend ops ch of
                  None \<Rightarrow> Some (u, s)
                | Some (d, ch1) \<Rightarrow>
                    let s1 = s\<lparr>p_nsqd := set_channel tc ch1 (p_nsqd s)\<rparr> in
                    if sampled_out u rand then Some (u, s1)
                    else (case decodeMessage d of
                            Inl _ \<Rightarrow> Some (u, s1)
                          | Inr m \<Rightarrow> (case alloc_msg m ch1 of (r, ch2) \<Rightarrow> cp_deliver now k r tc ch2 u s1)))))"

datatype cp_event = CpFlusher | CpReadyState | CpSub | CpIdentify | CpHeartbeat | CpBackend int | CpMemory int | CpExit

definition cp_identify :: "identifyEvent \<Rightarrow> cpump \<Rightarrow> cpump" where
  "cp_identify ie u =
     u\<lparr>u_identifyEvent := False, u_ticker := (0 < ie_OutputBufferTimeout ie),
       u_heartbeat := (0 < ie_HeartbeatInterval ie),
       u_sampleRate := (if 0 < ie_SampleRate ie then ie_SampleRate ie else u_sampleRate u),
       u_msgTimeout := ie_MsgTimeout ie\<rparr>"

fun cp_select :: "'b BackendQueue \<Rightarrow> int \<Rightarrow> int \<Rightarrow> cp_event \<Rightarrow> cpump \<Rightarrow> 'b proto \<Rightarrow> (cpump \<times> 'b proto) option" where
  "cp_select ops now k CpFlusher u s = Some (if u_flusher u then cp_flush k u s else (u, s))"
| "cp_select ops now k CpReadyState u s =
     Some (u, upd_client k (\<lambda>c. c\<lparr>cl_ReadyStateChan := False\<rparr>) s)"
| "cp_select ops now k CpSub u s =
     Some (case (u_subEvent u, cl_SubEventChan (p_clients s k)) of
             (True, Some tc) \<Rightarrow> (u\<lparr>u_sub := Some tc, u_subEvent := False\<rparr>, upd_client k (\<lambda>c. c\<lparr>cl_SubEventChan := None\<rparr>) s)
           | _ \<Rightarrow> (u, s))"
| "cp_select ops now k CpIdentify u s =
     Some (case (u_identifyEvent u, cl_IdentifyEventChan (p_clients s k)) of
             (True, Some ie) \<Rightarrow> (cp_identify ie u, upd_client k (\<lambda>c. c\<lparr>cl_IdentifyEventChan := None\<rparr>) s)
           | _ \<Rightarrow> (u, s))"
| "cp_select ops now k CpHeartbeat u s =
     Some (if u_heartbeat u
           then case proto_Send frameTypeResponse heartbeatBytes (p_clients s k) of
                  (Some e, c1) \<Rightarrow> (u\<lparr>u_exited := True\<rparr>, upd_client k (\<lambda>_. c1) s)
                | (None, c1) \<Rightarrow> (u, upd_client k (\<lambda>_. c1) s)
           else (u, s))"
| "cp_select ops now k (CpBackend rand) u s =
     (if u_msgChans u then cp_backend ops now rand k u s else Some (u, s))"
| "cp_select ops now k (CpMemory rand) u s =
     (if u_msgChans u then cp_memory now rand k u s else Some (u, s))"
| "cp_select ops now k CpExit u s =
     Some (if cl_ExitChan_closed (p_clients s k) then (u\<lparr>u_exited := True\<rparr>, s) else (u, s))"

end
