(* ===== verification/Nsq_LookupProtocol.thy ===== *)
theory Nsq_LookupProtocol
  imports Nsq_RegistrationDB Nsq_ProtocolLoop
begin

text \<open>
  \<open>nsqlookupd/lookup_protocol_v1.go\<close>, \<open>client_v1.go\<close>, \<open>tcp.go\<close> and \<open>options.go\<close>: the connections
  over which nsqd instances announce their topics and channels. A handler works on its client and the
  database; \<open>None\<close> is the end of the process by a panic or \<open>log.Fatalf\<close>. JSON, the host name and the
  clock are outside of the process, and so arguments (\<open>lctx\<close>).
\<close>

section \<open>Data\<close>

record LookupdOptions =
  lo_BroadcastAddress :: string
  lo_InactiveProducerTimeout :: int
  lo_TombstoneLifetime :: int

definition NewLookupdOptions :: "string \<Rightarrow> LookupdOptions" where
  "NewLookupdOptions hostname =
     \<lparr>lo_BroadcastAddress = hostname, lo_InactiveProducerTimeout = 300 * Second, lo_TombstoneLifetime = 45 * Second\<rparr>"

record ClientV1 =
  cv_addr :: string
  cv_peerInfo :: "ref option"
  cv_reader :: bytes
  cv_conn :: writer
  cv_closed :: bool

definition NewClientV1 :: "string \<Rightarrow> bytes \<Rightarrow> writer \<Rightarrow> ClientV1" where
  "NewClientV1 addr input w =
     \<lparr>cv_addr = addr, cv_peerInfo = None, cv_reader = input, cv_conn = w, cv_closed = False\<rparr>"

text \<open>The exported fields of \<open>PeerInfo\<close>, which are what \<open>json.Unmarshal\<close> can set; a field that is
  missing in the text keeps its zero value.\<close>

record peer_json =
  pj_RemoteAddress :: string
  pj_Hostname :: string
  pj_BroadcastAddress :: string
  pj_TCPPort :: int
  pj_HTTPPort :: int
  pj_Version :: string

record lctx =
  y_unmarshal :: "bytes \<Rightarrow> go_error + peer_json"
  y_hostname :: "go_error + string"
  y_marshal :: "string \<Rightarrow> go_error + bytes"
  y_now :: int

type_synonym lstate = "ClientV1 \<times> RegistrationDB"
type_synonym lreply = "((client_err + bytes option) \<times> lstate) option"

section \<open>Commands\<close>

definition lookup_PING :: "lctx \<Rightarrow> lstate \<Rightarrow> lreply" where
  "lookup_PING x = (\<lambda>(c, db).
     Some (Inr (Some okBytes), c,
       case cv_peerInfo c of
         None \<Rightarrow> db
       | Some p \<Rightarrow> db\<lparr>db_peers := (db_peers db)(p := (db_peers db p)\<lparr>pe_lastUpdate := y_now x\<rparr>)\<rparr>))"

text \<open>\<open>binary.Read\<close> of an \<open>int32\<close> and \<open>io.ReadFull\<close>.\<close>

definition lk_read :: "nat \<Rightarrow> ClientV1 \<Rightarrow> (go_error + bytes) \<times> ClientV1" where
  "lk_read n c =
     (if n \<le> length (cv_reader c) then (Inr (take n (cv_reader c)), c\<lparr>cv_reader := drop n (cv_reader c)\<rparr>)
      else (Inl ''unexpected EOF'', c\<lparr>cv_reader := []\<rparr>))"

definition missing_fields :: "peer_json \<Rightarrow> bool" where
  "missing_fields j \<longleftrightarrow>
     pj_BroadcastAddress j = [] \<or> pj_TCPPort j = 0 \<or> pj_HTTPPort j = 0 \<or> pj_Version j = []"

definition new_peer :: "int \<Rightarrow> string \<Rightarrow> peer_json \<Rightarrow> PeerInfo" where
  "new_peer now addr j =
     \<lparr>pe_lastUpdate = now, pe_id = addr, pe_RemoteAddress = addr, pe_Hostname = pj_Hostname j,
      pe_BroadcastAddress = pj_BroadcastAddress j, pe_TCPPort = pj_TCPPort j, pe_HTTPPort = pj_HTTPPort j,
      pe_Version = pj_Version j\<rparr>"

definition identify_response :: "lctx \<Rightarrow> bytes option" where
  "identify_response x =
     (case y_hostname x of
        Inl _ \<Rightarrow> None
      | Inr h \<Rightarrow> Some (case y_marshal x h of Inl _ \<Rightarrow> okBytes | Inr b \<Rightarrow> b))"

definition lookup_IDENTIFY :: "lctx \<Rightarrow> lstate \<Rightarrow> lreply" where
  "lookup_IDENTIFY x = (\<lambda>(c, db).
     if cv_peerInfo c \<noteq> None then Some (fatal ''E_INVALID'' ''cannot IDENTIFY again'', c, db)
     else case lk_read 4 c of
       (Inl e, c1) \<Rightarrow> Some (fatal_of e ''E_BAD_BODY'' ''IDENTIFY failed to read body size'', c1, db)
     | (Inr b, c1) \<Rightarrow>
         let bodyLen = sint (be_decode b :: u32) in
         if bodyLen < 0 then None
         else (case lk_read (nat bodyLen) c1 of
                 (Inl e, c2) \<Rightarrow> Some (fatal_of e ''E_BAD_BODY'' ''IDENTIFY failed to read body'', c2, db)
               | (Inr body, c2) \<Rightarrow>
                   (case y_unmarshal x body of
                      Inl e \<Rightarrow> Some (fatal_of e ''E_BAD_BODY'' ''IDENTIFY failed to decode JSON body'', c2, db)
                    | Inr j \<Rightarrow>
                        if missing_fields j then Some (fatal ''E_BAD_BODY'' ''IDENTIFY missing fields'', c2, db)
                        else do {
                          let p = db_nextPeer db;
                          let db1 = db\<lparr>db_peers := (db_peers db)(p := new_peer (y_now x) (cv_addr c) j), db_nextPeer := p + 1\<rparr>;
                          let db2 = snd (AddProducer (Reg ''client'' [] []) (new_producer p) db1);
                          resp <- identify_response x;
                          Some (Inr (Some resp), c2\<lparr>cv_peerInfo := Some p\<rparr>, db2) })))"

definition getTopicChan :: "string \<Rightarrow> string list \<Rightarrow> client_err + string \<times> string" where
  "getTopicChan command params =
     (if length params = 0 then fatal ''E_INVALID'' (command @ '' insufficient number of params'')
      else
        let topicName = params ! 0; channelName = (if 2 \<le> length params then params ! 1 else []) in
        if \<not> IsValidTopicName topicName
        then fatal ''E_BAD_TOPIC'' (command @ '' topic name '' @ [CHR 0x27] @ topicName @ [CHR 0x27] @ '' is not valid'')
        else if channelName \<noteq> [] \<and> \<not> IsValidChannelName channelName
        then fatal ''E_BAD_CHANNEL'' (command @ '' channel name '' @ [CHR 0x27] @ channelName @ [CHR 0x27] @ '' is not valid'')
        else Inr (topicName, channelName))"

definition register :: "ref \<Rightarrow> string \<Rightarrow> string \<Rightarrow> RegistrationDB \<Rightarrow> RegistrationDB" where
  "register p topic channel db =
     (let db1 = (if channel \<noteq> [] then snd (AddProducer (Reg ''channel'' topic channel) (new_producer p) db) else db)
      in snd (AddProducer (Reg ''topic'' topic []) (new_producer p) db1))"

definition lookup_REGISTER :: "string list \<Rightarrow> lstate \<Rightarrow> lreply" where
  "lookup_REGISTER params = (\<lambda>(c, db).
     case cv_peerInfo c of
       None \<Rightarrow> Some (fatal ''E_INVALID'' ''client must IDENTIFY'', c, db)
     | Some p \<Rightarrow>
         (case getTopicChan ''REGISTER'' params of
            Inl e \<Rightarrow> Some (Inl e, c, db)
          | Inr (topic, channel) \<Rightarrow> Some (Inr (Some okBytes), c, register p topic channel db)))"

text \<open>Removing a producer, and for ephemeral names also a registration that has none left.\<close>

definition remove_producer :: "Registration \<Rightarrow> string \<Rightarrow> string \<Rightarrow> RegistrationDB \<Rightarrow> RegistrationDB" where
  "remove_producer key i name db =
     (case RemoveProducer key i db of
        ((_, left), db1) \<Rightarrow>
          if left = 0 \<and> HasSuffix name ''#ephemeral'' then RemoveRegistration key db1 else db1)"

definition unregister :: "string \<Rightarrow> string \<Rightarrow> string \<Rightarrow> RegistrationDB \<Rightarrow> RegistrationDB" where
  "unregister i topic channel db =
     (if channel \<noteq> [] then remove_producer (Reg ''channel'' topic channel) i channel db
      else
        let db1 = fold (\<lambda>r d. snd (RemoveProducer r i d)) (FindRegistrations ''channel'' topic ''*'' db) db
        in remove_producer (Reg ''topic'' topic []) i topic db1)"

definition lookup_UNREGISTER :: "string list \<Rightarrow> lstate \<Rightarrow> lreply" where
  "lookup_UNREGISTER params = (\<lambda>(c, db).
     case cv_peerInfo c of
       None \<Rightarrow> Some (fatal ''E_INVALID'' ''client must IDENTIFY'', c, db)
     | Some p \<Rightarrow>
         (case getTopicChan ''UNREGISTER'' params of
            Inl e \<Rightarrow> Some (Inl e, c, db)
          | Inr (topic, channel) \<Rightarrow>
              Some (Inr (Some okBytes), c, unregister (pe_id (db_peers db p)) topic channel db)))"

definition lookup_Exec :: "lctx \<Rightarrow> string list \<Rightarrow> lstate \<Rightarrow> lreply" where
  "lookup_Exec x params s =
     (let cmd = params ! 0 in
      if cmd = ''PING'' then lookup_PING x s
      else if cmd = ''IDENTIFY'' then lookup_IDENTIFY x s
      else if cmd = ''REGISTER'' then lookup_REGISTER (tl params) s
      else if cmd = ''UNREGISTER'' then lookup_UNREGISTER (tl params) s
      else Some (fatal ''E_INVALID'' (''invalid command '' @ cmd), s))"

section \<open>Connections\<close>

text \<open>\<open>strings.TrimSpace\<close>: the white space of Unicode, in its UTF-8 encoding.\<close>

definition space_runes :: "bytes list" where
  "space_runes = [[9], [10], [11], [12], [13], [32], [0xC2, 0x85], [0xC2, 0xA0], [0xE1, 0x9A, 0x80]] @
     map (\<lambda>i. [0xE2, 0x80, of_nat (0x80 + i)]) [0..<11] @
     [[0xE2, 0x80, 0xA8], [0xE2, 0x80, 0xA9], [0xE2, 0x80, 0xAF], [0xE2, 0x81, 0x9F], [0xE3, 0x80, 0x80]]"

function trim_left :: "bytes list \<Rightarrow> bytes \<Rightarrow> bytes" where
  "trim_left runes b =
     (case find (\<lambda>r. r \<noteq> [] \<and> take (length r) b = r) runes of
        None \<Rightarrow> b
      | Some r \<Rightarrow> trim_left runes (drop (length r) b))"
  by pat_completeness auto
termination
proof (relation "measure (length \<circ> snd)")
  fix runes :: "bytes list" and b r
  assume "find (\<lambda>r. r \<noteq> [] \<and> take (length r) b = r) runes = Some r"
  then have "r \<noteq> []" "take (length r) b = r" by (auto simp: find_Some_iff)
  then have "r \<noteq> [] \<and> b \<noteq> []" by auto
  then show "((runes, drop (length r) b), runes, b) \<in> measure (length \<circ> snd)" by simp
qed simp

declare trim_left.simps [simp del]

definition TrimSpace :: "bytes \<Rightarrow> bytes" where
  "TrimSpace b = rev (trim_left (map rev space_runes) (rev (trim_left space_runes b)))"

datatype lk_result = LkContinue lstate | LkStop "go_error option" lstate

text \<open>\<open>reader.ReadString\<close>: a line with its delimiter, or \<open>io.EOF\<close>.\<close>

definition ReadString :: "ClientV1 \<Rightarrow> (go_error + bytes) \<times> ClientV1" where
  "ReadString c =
     (let line = takeWhile (\<lambda>b. b \<noteq> newline) (cv_reader c) in
      if length line = length (cv_reader c) then (Inl ''EOF'', c\<lparr>cv_reader := []\<rparr>)
      else (Inr (line @ [newline]), c\<lparr>cv_reader := drop (length line + 1) (cv_reader c)\<rparr>))"

definition lk_respond :: "bytes \<Rightarrow> ClientV1 \<Rightarrow> go_error option \<times> ClientV1" where
  "lk_respond data c = (case SendResponse (cv_conn c) data of (_, e, w) \<Rightarrow> (e, c\<lparr>cv_conn := w\<rparr>))"

definition lk_answer :: "client_err + bytes option \<Rightarrow> lstate \<Rightarrow> lk_result" where
  "lk_answer r = (\<lambda>(c, db).
     case r of
       Inl err \<Rightarrow>
         (case lk_respond (bytes_of (client_err_Error err)) c of
            (Some e, c1) \<Rightarrow> LkStop (Some (client_err_Error err)) (c1, db)
          | (None, c1) \<Rightarrow>
              if is_fatal err then LkStop (Some (client_err_Error err)) (c1, db) else LkContinue (c1, db))
     | Inr None \<Rightarrow> LkContinue (c, db)
     | Inr (Some resp) \<Rightarrow>
         (case lk_respond resp c of
            (Some e, c1) \<Rightarrow> LkStop (Some e) (c1, db)
          | (None, c1) \<Rightarrow> LkContinue (c1, db)))"

definition lk_step :: "lctx \<Rightarrow> lstate \<Rightarrow> lk_result option" where
  "lk_step x = (\<lambda>(c, db).
     case ReadString c of
       (Inl e, c1) \<Rightarrow> Some (LkStop (Some e) (c1, db))
     | (Inr line, c1) \<Rightarrow> do {
         (r, s) <- lookup_Exec x (map text_of (split_bytes space (TrimSpace line))) (c1, db);
         Some (lk_answer r s) })"

fun lk_loop :: "(nat \<Rightarrow> lctx) \<Rightarrow> nat \<Rightarrow> nat \<Rightarrow> lstate \<Rightarrow> (go_error option \<times> lstate) option" where
  "lk_loop xs i 0 s = None"
| "lk_loop xs i (Suc fuel) s = do {
     r <- lk_step (xs i) s;
     (case r of LkStop e s1 \<Rightarrow> Some (e, s1) | LkContinue s1 \<Rightarrow> lk_loop xs (i + 1) fuel s1) }"

definition lk_close :: "lstate \<Rightarrow> lstate" where
  "lk_close = (\<lambda>(c, db).
     (c\<lparr>cv_closed := True\<rparr>,
      case cv_peerInfo c of
        None \<Rightarrow> db
      | Some p \<Rightarrow>
          let i = pe_id (db_peers db p) in
          fold (\<lambda>r d. snd (RemoveProducer r i d)) (LookupRegistrations i db) db))"

definition lookup_IOLoop ::
    "(nat \<Rightarrow> lctx) \<Rightarrow> nat \<Rightarrow> ClientV1 \<Rightarrow> RegistrationDB \<Rightarrow> (go_error option \<times> lstate) option" where
  "lookup_IOLoop xs fuel c db = do {
     (e, s) <- lk_loop xs 0 fuel (c, db);
     Some (e, lk_close s) }"

text \<open>\<open>tcpServer.Handle\<close>: the magic bytes, then the loop.\<close>

definition lookup_Handle ::
    "(nat \<Rightarrow> lctx) \<Rightarrow> nat \<Rightarrow> string \<Rightarrow> bytes \<Rightarrow> writer \<Rightarrow> RegistrationDB \<Rightarrow> lstate option" where
  "lookup_Handle xs fuel addr input w db =
     (let c = NewClientV1 addr input w in
      case lk_read 4 c of
        (Inl _, c1) \<Rightarrow> Some (c1\<lparr>cv_closed := True\<rparr>, db)
      | (Inr magic, c1) \<Rightarrow>
          if text_of magic = ''  V1'' then map_option snd (lookup_IOLoop xs fuel c1 db)
          else Some ((snd (lk_respond (bytes_of ''E_BAD_PROTOCOL'') c1))\<lparr>cv_closed := True\<rparr>, db))"

end
