(* ===== verification/Nsq_LookupHttp.thy ===== *)
theory Nsq_LookupHttp
  imports Nsq_LookupProtocol Nsq_HttpApi
begin

text \<open>
  \<open>nsqlookupd/http.go\<close>: the HTTP interface of nsqlookupd. Each handler takes the request and the
  database and returns an error or a value, with the new database. In \<open>doLookup\<close> the method called
  first is \<open>FindRegistrations\<close>, whose name is misspelt in the source.
\<close>

record lookup_node =
  nd_RemoteAddress :: string
  nd_Hostname :: string
  nd_BroadcastAddress :: string
  nd_TCPPort :: int
  nd_HTTPPort :: int
  nd_Version :: string
  nd_Tombstones :: "bool list"
  nd_Topics :: "string list"

record debug_entry =
  de_peer :: PeerInfo
  de_tombstoned :: bool
  de_tombstonedAt :: int

datatype lookup_data =
    LInfo string
  | LTopics "string list"
  | LChannels "string list"
  | LLookup "string list" "PeerInfo list"
  | LNodes "lookup_node list"
  | LDebug "(string \<times> debug_entry list) list"

type_synonym hreply = "(http_err + lookup_data api_data) \<times> RegistrationDB"

section \<open>Queries\<close>

definition lookup_pingHandler :: "RegistrationDB \<Rightarrow> hreply" where
  "lookup_pingHandler db = (Inr (DString ''OK''), db)"

definition lookup_doInfo :: "string \<Rightarrow> RegistrationDB \<Rightarrow> hreply" where
  "lookup_doInfo version db = (Inr (DValue (LInfo version)), db)"

definition lookup_doTopics :: "RegistrationDB \<Rightarrow> hreply" where
  "lookup_doTopics db = (Inr (DValue (LTopics (Registrations_Keys (FindRegistrations ''topic'' ''*'' [] db)))), db)"

text \<open>The beginning of most handlers: the parameters, and the topic among them.\<close>

definition with_topic_arg :: "http_req \<Rightarrow> (string \<Rightarrow> ReqParams \<Rightarrow> RegistrationDB \<Rightarrow> hreply) \<Rightarrow> RegistrationDB \<Rightarrow> hreply" where
  "with_topic_arg req f db =
     (case NewReqParams req of
        Inl _ \<Rightarrow> (Inl (Err 400 ''INVALID_REQUEST''), db)
      | Inr rp \<Rightarrow>
          (case ReqParams_Get ''topic'' rp of
             Inl _ \<Rightarrow> (Inl (Err 400 ''MISSING_ARG_TOPIC''), db)
           | Inr topicName \<Rightarrow> f topicName rp db))"

definition lookup_doChannels :: "http_req \<Rightarrow> RegistrationDB \<Rightarrow> hreply" where
  "lookup_doChannels req =
     with_topic_arg req (\<lambda>topicName rp db.
       (Inr (DValue (LChannels (Registrations_SubKeys (FindRegistrations ''channel'' topicName ''*'' db)))), db))"

definition lookup_doLookup :: "LookupdOptions \<Rightarrow> int \<Rightarrow> (ref \<Rightarrow> int) \<Rightarrow> http_req \<Rightarrow> RegistrationDB \<Rightarrow> hreply" where
  "lookup_doLookup opts now at req =
     with_topic_arg req (\<lambda>topicName rp db.
       if length (FindRegistrations ''topic'' topicName [] db) = 0 then (Inl (Err 404 ''TOPIC_NOT_FOUND''), db)
       else
         let channels = Registrations_SubKeys (FindRegistrations ''channel'' topicName ''*'' db);
             producers = FilterByActive now at (lo_InactiveProducerTimeout opts) (lo_TombstoneLifetime opts) db
                           (FindProducers ''topic'' topicName [] db)
         in (Inr (DValue (LLookup channels (Producers_PeerInfo db producers))), db))"

text \<open>\<open>doNodes\<close> keeps the producers of the topics it has looked up; \<open>at\<close> is the clock of the tombstones.\<close>

fun first_tombstone :: "(ref \<Rightarrow> int) \<Rightarrow> int \<Rightarrow> RegistrationDB \<Rightarrow> ref \<Rightarrow> ref list \<Rightarrow> bool" where
  "first_tombstone at lifetime db peer [] = False"
| "first_tombstone at lifetime db peer (tp # tps) =
     (if pr_peerInfo (db_producers db tp) = peer then IsTombstoned (at tp) lifetime (db_producers db tp)
      else first_tombstone at lifetime db peer tps)"

fun node_tombstones ::
    "(ref \<Rightarrow> int) \<Rightarrow> int \<Rightarrow> RegistrationDB \<Rightarrow> ref \<Rightarrow> string list \<Rightarrow> (string \<times> ref list) list \<Rightarrow>
       bool list \<times> (string \<times> ref list) list" where
  "node_tombstones at lifetime db peer [] cache = ([], cache)"
| "node_tombstones at lifetime db peer (t # ts) cache =
     (let cache1 = (case map_of cache t of
                      Some _ \<Rightarrow> cache
                    | None \<Rightarrow> amap_put t (FindProducers ''topic'' t [] db) cache);
          tps = (case map_of cache1 t of None \<Rightarrow> [] | Some ps \<Rightarrow> ps);
          (bs, cache2) = node_tombstones at lifetime db peer ts cache1
      in (first_tombstone at lifetime db peer tps # bs, cache2))"

definition peer_topics :: "RegistrationDB \<Rightarrow> ref \<Rightarrow> string list" where
  "peer_topics db p =
     Registrations_Keys (Registrations_Filter ''topic'' ''*'' [] (LookupRegistrations (pe_id (peer_of db p)) db))"

definition make_node :: "PeerInfo \<Rightarrow> bool list \<Rightarrow> string list \<Rightarrow> lookup_node" where
  "make_node pe tombstones topics =
     \<lparr>nd_RemoteAddress = pe_RemoteAddress pe, nd_Hostname = pe_Hostname pe,
      nd_BroadcastAddress = pe_BroadcastAddress pe, nd_TCPPort = pe_TCPPort pe, nd_HTTPPort = pe_HTTPPort pe,
      nd_Version = pe_Version pe, nd_Tombstones = tombstones, nd_Topics = topics\<rparr>"

fun nodes_loop ::
    "(ref \<Rightarrow> int) \<Rightarrow> int \<Rightarrow> RegistrationDB \<Rightarrow> ref list \<Rightarrow> (string \<times> ref list) list \<Rightarrow> lookup_node list" where
  "nodes_loop at lifetime db [] cache = []"
| "nodes_loop at lifetime db (p # ps) cache =
     (let topics = peer_topics db p;
          (tombstones, cache1) = node_tombstones at lifetime db (pr_peerInfo (db_producers db p)) topics cache
      in make_node (peer_of db p) tombstones topics # nodes_loop at lifetime db ps cache1)"

definition lookup_doNodes :: "LookupdOptions \<Rightarrow> int \<Rightarrow> (ref \<Rightarrow> int) \<Rightarrow> RegistrationDB \<Rightarrow> hreply" where
  "lookup_doNodes opts now at db =
     (let producers = FilterByActive now at (lo_InactiveProducerTimeout opts) 0 db (FindProducers ''client'' [] [] db)
      in (Inr (DValue (LNodes (nodes_loop at (lo_TombstoneLifetime opts) db producers []))), db))"

definition debug_of :: "RegistrationDB \<Rightarrow> ref \<Rightarrow> debug_entry" where
  "debug_of db p = \<lparr>de_peer = peer_of db p, de_tombstoned = pr_tombstoned (db_producers db p),
     de_tombstonedAt = pr_tombstonedAt (db_producers db p)\<rparr>"

definition debug_key :: "Registration \<Rightarrow> string" where
  "debug_key r = Category r @ '':'' @ Key r @ '':'' @ SubKey r"

definition debug_add ::
    "RegistrationDB \<Rightarrow> Registration \<times> ref \<Rightarrow> (string \<times> debug_entry list) list \<Rightarrow> (string \<times> debug_entry list) list" where
  "debug_add db = (\<lambda>(r, p) data.
     let key = debug_key r; old = (case map_of data key of None \<Rightarrow> [] | Some es \<Rightarrow> es)
     in amap_put key (old @ [debug_of db p]) data)"

definition lookup_doDebug :: "RegistrationDB \<Rightarrow> hreply" where
  "lookup_doDebug db =
     (Inr (DValue (LDebug
        (fold (debug_add db) (concat (map (\<lambda>(r, pm). map (\<lambda>e. (r, snd e)) pm) (db_registrationMap db))) []))), db)"

section \<open>Changes\<close>

definition lookup_doCreateTopic :: "http_req \<Rightarrow> RegistrationDB \<Rightarrow> hreply" where
  "lookup_doCreateTopic req =
     with_topic_arg req (\<lambda>topicName rp db.
       if \<not> IsValidTopicName topicName then (Inl (Err 400 ''INVALID_ARG_TOPIC''), db)
       else (Inr DNil, AddRegistration (Reg ''topic'' topicName []) db))"

definition lookup_doDeleteTopic :: "http_req \<Rightarrow> RegistrationDB \<Rightarrow> hreply" where
  "lookup_doDeleteTopic req =
     with_topic_arg req (\<lambda>topicName rp db.
       let db1 = fold RemoveRegistration (FindRegistrations ''channel'' topicName ''*'' db) db;
           db2 = fold RemoveRegistration (FindRegistrations ''topic'' topicName [] db1) db1
       in (Inr DNil, db2))"

text \<open>\<open>fmt.Sprintf("%s:%d", ...)\<close>; \<open>decimal\<close> is \<open>%d\<close>.\<close>

fun digits :: "nat \<Rightarrow> string" where
  "digits n = (if n < 10 then [char_of (48 + n)] else digits (n div 10) @ [char_of (48 + n mod 10)])"

declare digits.simps [simp del]

definition decimal :: "int \<Rightarrow> string" where
  "decimal n = (if n < 0 then CHR ''-'' # digits (nat (- n)) else digits (nat n))"

definition node_name :: "PeerInfo \<Rightarrow> string" where
  "node_name pe = pe_BroadcastAddress pe @ '':'' @ decimal (pe_HTTPPort pe)"

definition tombstone_producer :: "(ref \<Rightarrow> int) \<Rightarrow> string \<Rightarrow> ref \<Rightarrow> RegistrationDB \<Rightarrow> RegistrationDB" where
  "tombstone_producer at node p db =
     (if node_name (peer_of db p) = node
      then db\<lparr>db_producers := (db_producers db)(p := Tombstone (at p) (db_producers db p))\<rparr>
      else db)"

definition lookup_doTombstoneTopicProducer :: "(ref \<Rightarrow> int) \<Rightarrow> http_req \<Rightarrow> RegistrationDB \<Rightarrow> hreply" where
  "lookup_doTombstoneTopicProducer at req =
     with_topic_arg req (\<lambda>topicName rp db.
       case ReqParams_Get ''node'' rp of
         Inl _ \<Rightarrow> (Inl (Err 400 ''MISSING_ARG_NODE''), db)
       | Inr node \<Rightarrow> (Inr DNil, fold (tombstone_producer at node) (FindProducers ''topic'' topicName [] db) db))"

definition lookup_doCreateChannel :: "http_req \<Rightarrow> RegistrationDB \<Rightarrow> hreply" where
  "lookup_doCreateChannel req db =
     (case NewReqParams req of
        Inl _ \<Rightarrow> (Inl (Err 400 ''INVALID_REQUEST''), db)
      | Inr rp \<Rightarrow>
          (case GetTopicChannelArgs rp of
             Inl e \<Rightarrow> (Inl (Err 400 e), db)
           | Inr (topicName, channelName) \<Rightarrow>
               (Inr DNil, AddRegistration (Reg ''topic'' topicName [])
                            (AddRegistration (Reg ''channel'' topicName channelName) db))))"

definition lookup_doDeleteChannel :: "http_req \<Rightarrow> RegistrationDB \<Rightarrow> hreply" where
  "lookup_doDeleteChannel req db =
     (case NewReqParams req of
        Inl _ \<Rightarrow> (Inl (Err 400 ''INVALID_REQUEST''), db)
      | Inr rp \<Rightarrow>
          (case GetTopicChannelArgs rp of
             Inl e \<Rightarrow> (Inl (Err 400 e), db)
           | Inr (topicName, channelName) \<Rightarrow>
               let rs = FindRegistrations ''channel'' topicName channelName db in
               if length rs = 0 then (Inl (Err 404 ''CHANNEL_NOT_FOUND''), db)
               else (Inr DNil, fold RemoveRegistration rs db)))"

section \<open>Routes\<close>

text \<open>The router's table, without the profiler.\<close>

definition lookup_route ::
    "LookupdOptions \<Rightarrow> string \<Rightarrow> int \<Rightarrow> (ref \<Rightarrow> int) \<Rightarrow> http_req \<Rightarrow> RegistrationDB \<Rightarrow> hreply" where
  "lookup_route opts version now at req db =
     (let p = q_Path req; m = q_Method req;
          gets = [''/ping'', ''/info'', ''/debug'', ''/lookup'', ''/topics'', ''/channels'', ''/nodes''];
          posts = [''/topic/create'', ''/topic/delete'', ''/channel/create'', ''/channel/delete'', ''/topic/tombstone''] in
      if p \<in> set gets \<and> m \<noteq> ''GET'' \<or> p \<in> set posts \<and> m \<noteq> ''POST'' then (LogMethodNotAllowedHandler, db)
      else if p = ''/ping'' then lookup_pingHandler db
      else if p = ''/info'' then lookup_doInfo version db
      else if p = ''/debug'' then lookup_doDebug db
      else if p = ''/lookup'' then lookup_doLookup opts now at req db
      else if p = ''/topics'' then lookup_doTopics db
      else if p = ''/channels'' then lookup_doChannels req db
      else if p = ''/nodes'' then lookup_doNodes opts now at db
      else if p = ''/topic/create'' then lookup_doCreateTopic req db
      else if p = ''/topic/delete'' then lookup_doDeleteTopic req db
      else if p = ''/channel/create'' then lookup_doCreateChannel req db
      else if p = ''/channel/delete'' then lookup_doDeleteChannel req db
      else if p = ''/topic/tombstone'' then lookup_doTombstoneTopicProducer at req db
      else (LogNotFoundHandler, db))"

end
