(* ===== verification/Nsq_Net.thy ===== *)
theory Nsq_Net
  imports Nsq_NsqdHttp Nsq_LookupHttp "HOL-Library.Char_ord" "HOL-Library.List_Lexorder"
begin

text \<open>
  What the clients of the HTTP interfaces share: addresses (\<open>net.JoinHostPort\<close>, \<open>net.SplitHostPort\<close>), the
  escaping of query parameters (\<open>url.QueryEscape\<close>), the helpers on string lists of
  \<open>internal/stringy/slice.go\<close>, and the HTTP client of \<open>internal/http_api/api_request.go\<close>. Strings are ordered as
  Go orders them, byte by byte.
\<close>

section \<open>Addresses\<close>

text \<open>\<open>net.JoinHostPort\<close> puts a host with a colon into brackets.\<close>

definition JoinHostPort :: "string \<Rightarrow> string \<Rightarrow> string" where
  "JoinHostPort host port =
     (if CHR '':'' \<in> set host then ''['' @ host @ '']:'' @ port else host @ '':'' @ port)"

fun last_index :: "char \<Rightarrow> string \<Rightarrow> nat option" where
  "last_index c [] = None"
| "last_index c (d # s) =
     (case last_index c s of Some i \<Rightarrow> Some (Suc i) | None \<Rightarrow> if d = c then Some 0 else None)"

fun first_index :: "char \<Rightarrow> string \<Rightarrow> nat option" where
  "first_index c [] = None"
| "first_index c (d # s) = (if d = c then Some 0 else map_option Suc (first_index c s))"

text \<open>\<open>net.SplitHostPort\<close>: the host, in brackets or without a colon, and the port after the last colon.\<close>

definition split_rest :: "string \<Rightarrow> nat \<Rightarrow> nat \<Rightarrow> nat \<Rightarrow> string \<Rightarrow> go_error + string \<times> string" where
  "split_rest hostport i j k host =
     (if CHR ''['' \<in> set (drop j hostport) then Inl ''unexpected '[' in address''
      else if CHR '']'' \<in> set (drop k hostport) then Inl ''unexpected ']' in address''
      else Inr (host, drop (i + 1) hostport))"

definition SplitHostPort :: "string \<Rightarrow> go_error + string \<times> string" where
  "SplitHostPort hostport =
     (case last_index (CHR '':'') hostport of
        None \<Rightarrow> Inl ''missing port in address''
      | Some i \<Rightarrow>
          if hd hostport = CHR ''['' then
            (case first_index (CHR '']'') hostport of
               None \<Rightarrow> Inl ''missing ']' in address''
             | Some e \<Rightarrow>
                 if e + 1 = length hostport then Inl ''missing port in address''
                 else if e + 1 = i then split_rest hostport i 1 (e + 1) (take (e - 1) (drop 1 hostport))
                 else if hostport ! (e + 1) = CHR '':'' then Inl ''too many colons in address''
                 else Inl ''missing port in address'')
          else if CHR '':'' \<in> set (take i hostport) then Inl ''too many colons in address''
          else split_rest hostport i 0 0 (take i hostport))"

text \<open>\<open>strconv.Atoi\<close> for callers that ignore the error: 0 on a syntax error, the nearest bound on a range error.\<close>

definition Atoi_ignoring_error :: "string \<Rightarrow> int" where
  "Atoi_ignoring_error s =
     (case ParseInt s of
        Inr v \<Rightarrow> v
      | Inl e \<Rightarrow>
          if e = ''invalid syntax'' then 0
          else if hd s = CHR ''-'' then - (2 ^ 63) else 2 ^ 63 - 1)"

definition query_unreserved :: "char \<Rightarrow> bool" where
  "query_unreserved c \<longleftrightarrow>
     (CHR ''a'' \<le> c \<and> c \<le> CHR ''z'') \<or> (CHR ''A'' \<le> c \<and> c \<le> CHR ''Z'') \<or> (CHR ''0'' \<le> c \<and> c \<le> CHR ''9'') \<or>
     c \<in> set ''-_.~''"

definition upperhex :: "nat \<Rightarrow> char" where
  "upperhex n = ''0123456789ABCDEF'' ! n"

definition QueryEscape :: "string \<Rightarrow> string" where
  "QueryEscape s =
     concat (map (\<lambda>c. if query_unreserved c then [c] else if c = CHR '' '' then ''+''
       else [CHR ''%'', upperhex (of_char c div 16), upperhex (of_char c mod 16)]) s)"

section \<open>String lists\<close>

definition stringy_Add :: "string list \<Rightarrow> string \<Rightarrow> string list" where
  "stringy_Add s a = (if a \<in> set s then s else s @ [a])"

definition stringy_Union :: "string list \<Rightarrow> string list \<Rightarrow> string list" where
  "stringy_Union s a = foldl (\<lambda>s entry. if entry \<in> set s then s else s @ [entry]) s a"

definition stringy_Uniq :: "string list \<Rightarrow> string list" where
  "stringy_Uniq s = foldl (\<lambda>r entry. if entry \<in> set r then r else r @ [entry]) [] s"

text \<open>\<open>strings.Join\<close>.\<close>

fun strings_Join :: "string list \<Rightarrow> string \<Rightarrow> string" where
  "strings_Join [] sep = []"
| "strings_Join [x] sep = x"
| "strings_Join (x # y # xs) sep = x @ sep @ strings_Join (y # xs) sep"

section \<open>The HTTP client\<close>

text \<open>
  An endpoint is the scheme, the host and the rest of its URL. The other processes are the state \<open>'w\<close>: a
  GET reads it, a POST may change it. An answer is an error of the transport or a status and a body.
\<close>

record endpoint =
  ep_scheme :: string
  ep_host :: string
  ep_rest :: string

type_synonym http_answer = "go_error + int \<times> bytes"

record 'w http_client =
  hc_get :: "endpoint \<Rightarrow> 'w \<Rightarrow> http_answer"
  hc_post :: "endpoint \<Rightarrow> 'w \<Rightarrow> http_answer \<times> 'w"
  hc_https_port :: "bytes \<Rightarrow> go_error + int"

abbreviation http :: "string \<Rightarrow> string \<Rightarrow> endpoint" where
  "http host rest \<equiv> \<lparr>ep_scheme = ''http'', ep_host = host, ep_rest = rest\<rparr>"

definition httpsEndpoint :: "'w http_client \<Rightarrow> endpoint \<Rightarrow> bytes \<Rightarrow> go_error + endpoint" where
  "httpsEndpoint hc e body =
     (case hc_https_port hc body of
        Inl er \<Rightarrow> Inl er
      | Inr port \<Rightarrow>
          (case SplitHostPort (ep_host e) of
             Inl er \<Rightarrow> Inl er
           | Inr (host, _) \<Rightarrow> Inr (e\<lparr>ep_scheme := ''https'', ep_host := JoinHostPort host (decimal port)\<rparr>)))"

lemma httpsEndpoint_scheme: "httpsEndpoint hc e body = Inr e' \<Longrightarrow> ep_scheme e' = ''https''"
  by (auto simp: httpsEndpoint_def split: sum.splits)

text \<open>What an answer means: an error, a body, or a refusal for which the request is repeated over TLS.\<close>

datatype verdict = Refused go_error | Accepted bytes | Retry endpoint

definition judge :: "'w http_client \<Rightarrow> endpoint \<Rightarrow> http_answer \<Rightarrow> verdict" where
  "judge hc e a =
     (case a of
        Inl er \<Rightarrow> Refused er
      | Inr (status, body) \<Rightarrow>
          if status = 200 then Accepted body
          else if status = 403 \<and> ep_scheme e \<noteq> ''https''
          then (case httpsEndpoint hc e body of Inl er \<Rightarrow> Refused er | Inr e' \<Rightarrow> Retry e')
          else Refused ''got response'')"

lemma judge_retry: "judge hc e a = Retry e' \<Longrightarrow> ep_scheme e \<noteq> ''https'' \<and> ep_scheme e' = ''https''"
  by (auto simp: judge_def dest: httpsEndpoint_scheme split: sum.splits if_splits)

function get_loop :: "'w http_client \<Rightarrow> endpoint \<Rightarrow> 'w \<Rightarrow> go_error + bytes" where
  "get_loop hc e w =
     (case judge hc e (hc_get hc e w) of
        Refused er \<Rightarrow> Inl er
      | Accepted body \<Rightarrow> Inr body
      | Retry e' \<Rightarrow> get_loop hc e' w)"
  by pat_completeness auto

termination
  by (relation "measure (\<lambda>(hc, e, w). if ep_scheme e = ''https'' then 0 else 1)") (auto dest: judge_retry)

definition GETV1 :: "'w http_client \<Rightarrow> (bytes \<Rightarrow> go_error + 'a) \<Rightarrow> endpoint \<Rightarrow> 'w \<Rightarrow> go_error + 'a" where
  "GETV1 hc unmarshal e w = (case get_loop hc e w of Inl er \<Rightarrow> Inl er | Inr body \<Rightarrow> unmarshal body)"

function POSTV1 :: "'w http_client \<Rightarrow> endpoint \<Rightarrow> 'w \<Rightarrow> go_error option \<times> 'w" where
  "POSTV1 hc e w =
     (case judge hc e (fst (hc_post hc e w)) of
        Refused er \<Rightarrow> (Some er, snd (hc_post hc e w))
      | Accepted body \<Rightarrow> (None, snd (hc_post hc e w))
      | Retry e' \<Rightarrow> POSTV1 hc e' (snd (hc_post hc e w)))"
  by pat_completeness auto

termination
  by (relation "measure (\<lambda>(hc, e, w). if ep_scheme e = ''https'' then 0 else 1)") (auto dest: judge_retry)

declare get_loop.simps [simp del] POSTV1.simps [simp del]

section \<open>Lemmas\<close>

lemma stringy_Union_set [simp]: "set (stringy_Union s a) = set s \<union> set a"
  unfolding stringy_Union_def by (induction a arbitrary: s) auto

lemma stringy_Union_distinct: "distinct s \<Longrightarrow> distinct (stringy_Union s a)"
  unfolding stringy_Union_def by (induction a arbitrary: s) auto

lemma stringy_Uniq_set [simp]: "set (stringy_Uniq s) = set s"
  using stringy_Union_set [of "[]" s] by (simp add: stringy_Uniq_def stringy_Union_def)

lemma stringy_Uniq_distinct: "distinct (stringy_Uniq s)"
  using stringy_Union_distinct [of "[]" s] by (simp add: stringy_Uniq_def stringy_Union_def)

end
