(* ===== verification/Nsq_LookupPeer.thy ===== *)
theory Nsq_LookupPeer
  imports Nsq_Net
begin

text \<open>
  \<open>nsqd/lookup_peer.go\<close> and \<open>nsqd/lookup.go\<close>: the connections of an nsqd to its nsqlookupd instances. The
  network is an argument: a peer carries the results of its future dials, each an error or a connection
  with the bytes the other side will send on it and a writer. A connection that has sent
  all its bytes reports an error on the next read, which is also what an expired deadline does. \<open>None\<close> is a
  panic. The client library's encoding of commands and its magic bytes, and the JSON codec, are
  arguments too (\<open>anctx\<close>).
\<close>

section \<open>A peer\<close>

record lookup_info =
  li_TCPPort :: int
  li_HTTPPort :: int
  li_Version :: string
  li_BroadcastAddress :: string

record lookupPeer =
  lp_addr :: string
  lp_conn :: "(bytes \<times> writer) option"
  lp_state :: client_state
  lp_maxBodySize :: int
  lp_Info :: lookup_info
  lp_dials :: "(go_error + bytes \<times> writer) list"

record anctx =
  an_magic :: bytes
  an_wire :: "lookup_cmd \<Rightarrow> bytes"
  an_identify :: "go_error + bytes"
  an_unmarshal :: "bytes \<Rightarrow> lookup_info \<Rightarrow> go_error option \<times> lookup_info"

definition newLookupPeer :: "string \<Rightarrow> int \<Rightarrow> (go_error + bytes \<times> writer) list \<Rightarrow> lookupPeer" where
  "newLookupPeer addr maxBodySize dials =
     \<lparr>lp_addr = addr, lp_conn = None, lp_state = stateDisconnected, lp_maxBodySize = maxBodySize,
      lp_Info = \<lparr>li_TCPPort = 0, li_HTTPPort = 0, li_Version = [], li_BroadcastAddress = []\<rparr>, lp_dials = dials\<rparr>"

definition lp_Connect :: "lookupPeer \<Rightarrow> go_error option \<times> lookupPeer" where
  "lp_Connect lp =
     (case lp_dials lp of
        [] \<Rightarrow> (Some ''connection refused'', lp)
      | Inl e # ds \<Rightarrow> (Some e, lp\<lparr>lp_dials := ds\<rparr>)
      | Inr c # ds \<Rightarrow> (None, lp\<lparr>lp_conn := Some c, lp_dials := ds\<rparr>))"

definition lp_Close :: "lookupPeer \<Rightarrow> lookupPeer" where
  "lp_Close lp = lp\<lparr>lp_state := stateDisconnected\<rparr>"

text \<open>A write or read without a connection is a nil dereference.\<close>

definition lp_Write :: "bytes \<Rightarrow> lookupPeer \<Rightarrow> (go_error option \<times> lookupPeer) option" where
  "lp_Write data lp =
     (case lp_conn lp of
        None \<Rightarrow> None
      | Some (inp, w) \<Rightarrow> (case w_write data w of (_, e, w1) \<Rightarrow> Some (e, lp\<lparr>lp_conn := Some (inp, w1)\<rparr>)))"

text \<open>\<open>io.ReadFull\<close> on the connection's input.\<close>

definition conn_read :: "nat \<Rightarrow> bytes \<Rightarrow> (go_error + bytes) \<times> bytes" where
  "conn_read n inp = (if n \<le> length inp then (Inr (take n inp), drop n inp) else (Inl ''unexpected EOF'', []))"

definition readResponseBounded :: "int \<Rightarrow> bytes \<Rightarrow> ((go_error + bytes) \<times> bytes) option" where
  "readResponseBounded limit inp =
     (case conn_read 4 inp of
        (Inl e, inp1) \<Rightarrow> Some (Inl e, inp1)
      | (Inr b, inp1) \<Rightarrow>
          let msgSize = sint (be_decode b :: u32) in
          if limit < msgSize then Some (Inl ''response body size is greater than limit'', inp1)
          else if msgSize < 0 then None
          else Some (conn_read (nat msgSize) inp1))"

definition lp_Read :: "lookupPeer \<Rightarrow> ((go_error + bytes) \<times> lookupPeer) option" where
  "lp_Read lp =
     (case lp_conn lp of
        None \<Rightarrow> None
      | Some (inp, w) \<Rightarrow> do {
          (r, inp1) <- readResponseBounded (lp_maxBodySize lp) inp;
          Some (r, lp\<lparr>lp_conn := Some (inp1, w)\<rparr>) })"

text \<open>The end of \<open>Command\<close>: a command on a connected peer, and its response.\<close>

definition lp_roundtrip :: "bytes \<Rightarrow> lookupPeer \<Rightarrow> ((go_error + bytes) \<times> lookupPeer) option" where
  "lp_roundtrip cmd lp = do {
     (e, lp1) <- lp_Write cmd lp;
     (case e of
        Some er \<Rightarrow> Some (Inl er, lp_Close lp1)
      | None \<Rightarrow> do {
          (r, lp2) <- lp_Read lp1;
          Some (case r of Inl er \<Rightarrow> (Inl er, lp_Close lp2) | Inr b \<Rightarrow> (Inr b, lp2)) }) }"

section \<open>Connecting\<close>

fun send_commands :: "bytes list \<Rightarrow> lookupPeer \<Rightarrow> lookupPeer option" where
  "send_commands [] lp = Some lp"
| "send_commands (cmd # cmds) lp = do {
     (r, lp1) <- lp_roundtrip cmd lp;
     (case r of Inl _ \<Rightarrow> Some lp1 | Inr _ \<Rightarrow> send_commands cmds lp1) }"

definition connectCallback :: "anctx \<Rightarrow> 'b NSQD \<Rightarrow> lookupPeer \<Rightarrow> lookupPeer option" where
  "connectCallback y n lp =
     (case an_identify y of
        Inl _ \<Rightarrow> Some (lp_Close lp)
      | Inr cmd \<Rightarrow> do {
          (r, lp1) <- lp_roundtrip cmd lp;
          (case r of
             Inl _ \<Rightarrow> Some lp1
           | Inr resp \<Rightarrow>
               if resp = bytes_of ''E_INVALID'' then Some (lp_Close lp1)
               else (case an_unmarshal y resp (lp_Info lp1) of
                       (Some _, info) \<Rightarrow> Some (lp_Close (lp1\<lparr>lp_Info := info\<rparr>))
                     | (None, info) \<Rightarrow>
                         send_commands (map (an_wire y) (connect_commands n)) (lp1\<lparr>lp_Info := info\<rparr>))) })"

text \<open>A connected peer: without a command there is nothing to do.\<close>

definition lp_finish :: "bytes option \<Rightarrow> lookupPeer \<Rightarrow> ((go_error + bytes option) \<times> lookupPeer) option" where
  "lp_finish cmd lp =
     (case cmd of
        None \<Rightarrow> Some (Inr None, lp)
      | Some c \<Rightarrow> do {
          (r, lp1) <- lp_roundtrip c lp;
          Some (case r of Inl e \<Rightarrow> Inl e | Inr b \<Rightarrow> Inr (Some b), lp1) })"

text \<open>\<open>Command\<close>; no command starts the connection only. Inside the callback the peer is connected, so
  that the commands of the callback do not connect again.\<close>

definition lp_Command :: "anctx \<Rightarrow> 'b NSQD \<Rightarrow> bytes option \<Rightarrow> lookupPeer \<Rightarrow> ((go_error + bytes option) \<times> lookupPeer) option" where
  "lp_Command y n cmd lp =
     (if lp_state lp = stateConnected then lp_finish cmd lp
      else case lp_Connect lp of
             (Some e, lp1) \<Rightarrow> Some (Inl e, lp1)
           | (None, lp1) \<Rightarrow> do {
               let initial = lp_state lp;
               (e, lp2) <- lp_Write (an_magic y) (lp1\<lparr>lp_state := stateConnected\<rparr>);
               (case e of
                  Some er \<Rightarrow> Some (Inl er, lp_Close lp2)
                | None \<Rightarrow> do {
                    lp3 <- (if initial = stateDisconnected then connectCallback y n lp2 else Some lp2);
                    (if lp_state lp3 \<noteq> stateConnected
                     then Some (Inl ''lookupPeer connectCallback() failed'', lp3) else lp_finish cmd lp3) }) })"

section \<open>The loop\<close>

text \<open>\<open>dials\<close> gives the future dials to an address.\<close>

definition list_in :: "string \<Rightarrow> string list \<Rightarrow> bool" where
  "list_in s lst \<longleftrightarrow> s \<in> set lst"

fun add_peers ::
    "anctx \<Rightarrow> 'b NSQD \<Rightarrow> int \<Rightarrow> (string \<Rightarrow> (go_error + bytes \<times> writer) list) \<Rightarrow> string list \<Rightarrow> lookupPeer list \<times> string list \<Rightarrow>
       (lookupPeer list \<times> string list) option" where
  "add_peers y n mx dials [] s = Some s"
| "add_peers y n mx dials (host # hosts) s =
     (if list_in host (snd s) then add_peers y n mx dials hosts s
      else do {
        (_, lp) <- lp_Command y n None (newLookupPeer host mx (dials host));
        add_peers y n mx dials hosts (fst s @ [lp], snd s @ [host]) })"

fun command_all :: "anctx \<Rightarrow> 'b NSQD \<Rightarrow> bytes \<Rightarrow> lookupPeer list \<Rightarrow> lookupPeer list option" where
  "command_all y n cmd [] = Some []"
| "command_all y n cmd (lp # lps) = do {
     (_, lp1) <- lp_Command y n (Some cmd) lp;
     lps1 <- command_all y n cmd lps;
     Some (lp1 # lps1) }"

record lookup_loop =
  ll_peers :: "lookupPeer list"
  ll_addrs :: "string list"
  ll_connect :: bool

datatype lookup_event = LlTicker | LlNotify lookup_cmd | LlOptions

definition ll_top ::
    "anctx \<Rightarrow> 'b NSQD \<Rightarrow> string list \<Rightarrow> (string \<Rightarrow> (go_error + bytes \<times> writer) list) \<Rightarrow> lookup_loop \<Rightarrow> lookup_loop option" where
  "ll_top y n hosts dials s =
     (if ll_connect s then do {
        (lps, addrs) <- add_peers y n (o_MaxBodySize (n_opts n)) dials hosts (ll_peers s, ll_addrs s);
        Some \<lparr>ll_peers = lps, ll_addrs = addrs, ll_connect = False\<rparr> }
      else Some s)"

fun ll_select :: "anctx \<Rightarrow> 'b NSQD \<Rightarrow> string list \<Rightarrow> lookup_event \<Rightarrow> lookup_loop \<Rightarrow> lookup_loop option" where
  "ll_select y n hosts LlTicker s =
     map_option (\<lambda>lps. s\<lparr>ll_peers := lps\<rparr>) (command_all y n (an_wire y LPing) (ll_peers s))"
| "ll_select y n hosts (LlNotify cmd) s =
     map_option (\<lambda>lps. s\<lparr>ll_peers := lps\<rparr>) (command_all y n (an_wire y cmd) (ll_peers s))"
| "ll_select y n hosts LlOptions s =
     (let kept = filter (\<lambda>lp. list_in (lp_addr lp) hosts) (ll_peers s)
      in Some \<lparr>ll_peers = kept, ll_addrs = map lp_addr kept, ll_connect = True\<rparr>)"

definition lookupdHTTPAddrs :: "lookupPeer list \<Rightarrow> string list" where
  "lookupdHTTPAddrs lps =
     map (\<lambda>lp. JoinHostPort (li_BroadcastAddress (lp_Info lp)) (decimal (li_HTTPPort (lp_Info lp))))
       (filter (\<lambda>lp. \<not> length (li_BroadcastAddress (lp_Info lp)) \<le> 0) lps)"

end
