(* ===== verification/Nsq_LookupInv.thy ===== *)
theory Nsq_LookupInv
  imports Nsq_LookupHttp
begin

text \<open>
  The states nsqlookupd reaches while nsqd instances connect, send commands and disconnect and HTTP
  requests are served, in any order. Open connections are addressed by their remote address, which
  no two of them share; a command and a request are atomic steps.
\<close>

section \<open>The effect of a command\<close>

definition with_peer :: "ref \<Rightarrow> PeerInfo \<Rightarrow> RegistrationDB \<Rightarrow> RegistrationDB" where
  "with_peer p pe db = db\<lparr>db_peers := (db_peers db)(p := pe)\<rparr>"

inductive lk_effect :: "string \<Rightarrow> ref option \<times> RegistrationDB \<Rightarrow> ref option \<times> RegistrationDB \<Rightarrow> bool" for addr where
  same: "lk_effect addr s s"
| ping: "lk_effect addr (Some p, db) (Some p, with_peer p ((db_peers db p)\<lparr>pe_lastUpdate := now\<rparr>) db)"
| identify: "lk_effect addr (None, db)
    (Some (db_nextPeer db),
     snd (AddProducer (Reg ''client'' [] []) (new_producer (db_nextPeer db))
            ((with_peer (db_nextPeer db) (new_peer now addr j) db)\<lparr>db_nextPeer := db_nextPeer db + 1\<rparr>)))"
| register: "IsValidTopicName t \<Longrightarrow> ch = [] \<or> IsValidChannelName ch \<Longrightarrow>
    lk_effect addr (Some p, db) (Some p, register p t ch db)"
| unregister: "IsValidTopicName t \<Longrightarrow> ch = [] \<or> IsValidChannelName ch \<Longrightarrow>
    lk_effect addr (Some p, db) (Some p, unregister (pe_id (db_peers db p)) t ch db)"

lemma getTopicChan_valid:
  "getTopicChan cmd params = Inr (t, ch) \<Longrightarrow> IsValidTopicName t \<and> (ch = [] \<or> IsValidChannelName ch)"
  by (auto simp: getTopicChan_def fatal_def Let_def split: if_splits)

lemma lk_read_effect:
  "lk_read n c = (r, c') \<Longrightarrow> cv_addr c' = cv_addr c \<and> cv_peerInfo c' = cv_peerInfo c \<and> cv_conn c' = cv_conn c"
  by (auto simp: lk_read_def split: if_splits)

lemma IDENTIFY_effect:
  assumes "lookup_IDENTIFY x (c, db) = Some (r, c', db')"
  shows "cv_addr c' = cv_addr c \<and> lk_effect (cv_addr c) (cv_peerInfo c, db) (cv_peerInfo c', db')"
proof (cases "cv_peerInfo c' = cv_peerInfo c \<and> db' = db")
  case True
  then show ?thesis using assms
    by (auto simp: lookup_IDENTIFY_def Let_def intro: lk_effect.same dest!: lk_read_effect
        split: if_splits prod.splits sum.splits bind_splits)
next
  case False
  obtain b c1 where b: "lk_read 4 c = (Inr b, c1)" and p: "cv_peerInfo c = None"
    using assms False by (auto simp: lookup_IDENTIFY_def Let_def split: if_splits prod.splits sum.splits dest!: lk_read_effect)
  let ?n = "nat (sint (be_decode b :: u32))"
  obtain body c2 where c2: "lk_read ?n c1 = (Inr body, c2)"
    using assms False p b
    by (auto simp: lookup_IDENTIFY_def Let_def split: if_splits prod.splits sum.splits dest!: lk_read_effect)
  have c: "cv_addr c2 = cv_addr c" "cv_peerInfo c2 = None"
    using lk_read_effect [OF b] lk_read_effect [OF c2] p by simp_all
  have len: "\<not> sint (be_decode b :: u32) < 0" using assms by (auto simp: lookup_IDENTIFY_def p b)
  obtain j where j: "y_unmarshal x body = Inr j" "\<not> missing_fields j"
  proof (cases "y_unmarshal x body")
    case (Inl e)
    then have False using assms False c p by (auto simp: lookup_IDENTIFY_def b c2 len)
    then show ?thesis by simp
  next
    case (Inr j)
    then have "\<not> missing_fields j" using assms False c p by (auto simp: lookup_IDENTIFY_def b c2 len)
    with Inr show ?thesis using that by blast
  qed
  from assms have "cv_addr c' = cv_addr c \<and> cv_peerInfo c' = Some (db_nextPeer db) \<and>
      db' = snd (AddProducer (Reg ''client'' [] []) (new_producer (db_nextPeer db))
            ((with_peer (db_nextPeer db) (new_peer (y_now x) (cv_addr c) j) db)\<lparr>db_nextPeer := db_nextPeer db + 1\<rparr>))"
    using c by (auto simp: lookup_IDENTIFY_def p b c2 len j with_peer_def Let_def split: bind_splits)
  then show ?thesis using p lk_effect.identify by auto
qed

lemma Exec_effect:
  assumes "lookup_Exec x params (c, db) = Some (r, c', db')"
  shows "cv_addr c' = cv_addr c \<and> lk_effect (cv_addr c) (cv_peerInfo c, db) (cv_peerInfo c', db')"
  using assms IDENTIFY_effect [of x c db r c' db']
  by (auto simp: lookup_Exec_def lookup_PING_def lookup_REGISTER_def lookup_UNREGISTER_def Let_def with_peer_def [symmetric]
      intro: lk_effect.intros dest!: getTopicChan_valid split: if_splits option.splits sum.splits)

lemma respond_effect: "cv_addr (snd (lk_respond d c)) = cv_addr c" "cv_peerInfo (snd (lk_respond d c)) = cv_peerInfo c"
  by (simp_all add: lk_respond_def split: prod.split)

fun lk_result_state :: "lk_result \<Rightarrow> lstate" where
  "lk_result_state (LkContinue s) = s"
| "lk_result_state (LkStop e s) = s"

lemma answer_effect:
  "lk_result_state (lk_answer r (c, db)) = (c', db') \<Longrightarrow>
     cv_addr c' = cv_addr c \<and> cv_peerInfo c' = cv_peerInfo c \<and> db' = db"
  using respond_effect [of _ c]
  by (auto simp: lk_answer_def split: sum.splits option.splits prod.splits if_splits) (metis snd_conv)+

lemma step_effect:
  assumes "lk_step x (c, db) = Some r" "lk_result_state r = (c', db')"
  shows "cv_addr c' = cv_addr c \<and> lk_effect (cv_addr c) (cv_peerInfo c, db) (cv_peerInfo c', db')"
proof (cases "ReadString c")
  case (Pair line c1)
  have c1: "cv_addr c1 = cv_addr c" "cv_peerInfo c1 = cv_peerInfo c"
    using Pair by (auto simp: ReadString_def Let_def split: if_splits)
  show ?thesis
  proof (cases line)
    case (Inl e)
    then show ?thesis using assms Pair c1 by (auto simp: lk_step_def intro: lk_effect.same)
  next
    case (Inr l)
    then obtain q c2 db2 where e: "lookup_Exec x (map text_of (split_bytes space (TrimSpace l))) (c1, db) = Some (q, c2, db2)"
      "r = lk_answer q (c2, db2)"
      using assms(1) Pair by (auto simp: lk_step_def split: bind_splits)
    show ?thesis using Exec_effect [OF e(1)] answer_effect assms(2) c1 unfolding e(2) by (metis fst_conv snd_conv)
  qed
qed

section \<open>The invariant\<close>

text \<open>\<open>L\<close> gives the open connections: the address of each and, once it has identified itself, its
  \<open>PeerInfo\<close>. Every entry of the database belongs to an open connection and points to the
  \<open>PeerInfo\<close> this connection updates; who provides a channel also provides its topic; only valid names
  are registered.\<close>

definition good_reg :: "Registration \<Rightarrow> bool" where
  "good_reg r \<longleftrightarrow> r = Reg ''client'' [] [] \<or> (\<exists>t. r = Reg ''topic'' t [] \<and> IsValidTopicName t) \<or>
     (\<exists>t c. r = Reg ''channel'' t c \<and> IsValidTopicName t \<and> IsValidChannelName c)"

definition owned :: "RegistrationDB \<Rightarrow> (string \<rightharpoonup> ref option) \<Rightarrow> bool" where
  "owned db L \<longleftrightarrow>
     (\<forall>a p. L a = Some (Some p) \<longrightarrow> p < db_nextPeer db \<and> pe_id (db_peers db p) = a) \<and>
     (\<forall>k i r. entry db k i = Some r \<longrightarrow> L i = Some (Some (pr_peerInfo (db_producers db r))))"

definition channels_have_topics :: "RegistrationDB \<Rightarrow> bool" where
  "channels_have_topics db \<longleftrightarrow>
     (\<forall>t c i. (Reg ''channel'' t c, i) \<in> regs db \<longrightarrow> (Reg ''topic'' t [], i) \<in> regs db)"

definition lk_inv :: "RegistrationDB \<Rightarrow> (string \<rightharpoonup> ref option) \<Rightarrow> bool" where
  "lk_inv db L \<longleftrightarrow> db_ok db \<and> owned db L \<and> channels_have_topics db \<and> Ball (known db) good_reg"

lemma lk_inv_new: "lk_inv NewRegistrationDB Map.empty"
  using db_ok_new by (simp add: lk_inv_def owned_def channels_have_topics_def regs_def entry_def known_def NewRegistrationDB_def)

lemma good_reg_star: "good_reg (Reg c k s) \<Longrightarrow> k \<noteq> ''*''"
  by (auto simp: good_reg_def IsValidTopicName_def isValidName_def validTopicChannelNameRegex_def name_char_def)

text \<open>A change that only takes entries away, and keeps the objects.\<close>

lemma owned_mono:
  assumes "owned db L" "\<And>k i r. entry db' k i = Some r \<Longrightarrow> entry db k i = Some r"
    "db_producers db' = db_producers db" "db_peers db' = db_peers db" "db_nextPeer db' = db_nextPeer db"
  shows "owned db' L"
  using assms(1) unfolding owned_def assms(3-5) using assms(2) by blast

lemma AddProducer_regs:
  "regs (snd (AddProducer k p db)) = insert (k, pe_id (db_peers db (pr_peerInfo p))) (regs db)"
  by (auto simp: regs_def AddProducer_effect)

text \<open>Adding an entry for an open connection.\<close>

definition base_inv :: "RegistrationDB \<Rightarrow> (string \<rightharpoonup> ref option) \<Rightarrow> bool" where
  "base_inv db L \<longleftrightarrow> db_ok db \<and> owned db L"

lemma AddProducer_base:
  assumes "base_inv db L" "L a = Some (Some p)"
  shows "base_inv (snd (AddProducer k (new_producer p) db)) L"
    "regs (snd (AddProducer k (new_producer p) db)) = insert (k, a) (regs db)"
proof -
  let ?np = "new_producer p" and ?db = "snd (AddProducer k (new_producer p) db)"
  have np: "pr_peerInfo ?np = p" by (simp add: new_producer_def)
  have p: "p < db_nextPeer db" "pe_id (db_peers db p) = a" using assms by (auto simp: base_inv_def owned_def)
  have fresh: "r \<noteq> db_nextProducer db" if "entry db k' i = Some r" for k' i r
    using that assms(1) by (auto simp: base_inv_def db_ok_def entries_ok_def)
  have old: "L i = Some (Some (pr_peerInfo (db_producers db r)))" if "entry db k' i = Some r" for k' i r
    using that assms(1) by (auto simp: base_inv_def owned_def)
  have "L i = Some (Some (pr_peerInfo (db_producers ?db r)))" if e: "entry ?db k' i = Some r" for k' i r
  proof (cases "k' = k \<and> i = a \<and> entry db k a = None")
    case True
    then show ?thesis using e assms(2) by (simp add: AddProducer_effect np p(2))
  next
    case False
    then have o: "entry db k' i = Some r" using e by (simp add: AddProducer_effect(2) np p(2) split: if_splits)
    then show ?thesis using old [OF o] fresh [OF o] by (simp add: AddProducer_effect(6))
  qed
  then have "owned ?db L" using assms(1) unfolding base_inv_def owned_def AddProducer_effect(4,5) by blast
  then show "base_inv ?db L" using assms(1) p np by (simp add: base_inv_def db_ok_AddProducer)
  show "regs ?db = insert (k, a) (regs db)" by (simp add: AddProducer_regs np p(2))
qed

lemma register_inv:
  assumes "lk_inv db L" "L a = Some (Some p)" "IsValidTopicName t" "ch = [] \<or> IsValidChannelName ch"
  shows "lk_inv (register p t ch db) L"
    "regs (register p t ch db) =
       regs db \<union> {(Reg ''topic'' t [], a)} \<union> (if ch = [] then {} else {(Reg ''channel'' t ch, a)})"
    "db_peers (register p t ch db) = db_peers db"
proof -
  let ?db = "if ch \<noteq> [] then snd (AddProducer (Reg ''channel'' t ch) (new_producer p) db) else db"
  have r: "register p t ch db = snd (AddProducer (Reg ''topic'' t []) (new_producer p) ?db)"
    by (simp add: register_def Let_def)
  have i: "base_inv db L" "channels_have_topics db" "Ball (known db) good_reg"
    using assms(1) by (auto simp: lk_inv_def base_inv_def)
  have m: "base_inv ?db L" "regs ?db = regs db \<union> (if ch = [] then {} else {(Reg ''channel'' t ch, a)})"
    using AddProducer_base [OF i(1) assms(2)] i(1) by auto
  note n = AddProducer_base [OF m(1) assms(2), of "Reg ''topic'' t []", folded r]
  show regs: "regs (register p t ch db) =
       regs db \<union> {(Reg ''topic'' t [], a)} \<union> (if ch = [] then {} else {(Reg ''channel'' t ch, a)})"
    unfolding n(2) m(2) by auto
  then have "channels_have_topics (register p t ch db)" using i(2) by (auto simp: channels_have_topics_def)
  moreover have "Ball (known (register p t ch db)) good_reg"
    using i(3) assms(3,4) by (auto simp: r AddProducer_effect good_reg_def)
  ultimately show "lk_inv (register p t ch db) L" using n(1) by (simp add: lk_inv_def base_inv_def)
  show "db_peers (register p t ch db) = db_peers db" by (simp add: r AddProducer_effect)
qed

text \<open>Taking entries and registrations away.\<close>

definition shrunk :: "RegistrationDB \<Rightarrow> RegistrationDB \<Rightarrow> bool" where
  "shrunk db db' \<longleftrightarrow> known db' \<subseteq> known db \<and> (\<forall>k i r. entry db' k i = Some r \<longrightarrow> entry db k i = Some r) \<and>
     db_producers db' = db_producers db \<and> db_peers db' = db_peers db \<and> db_nextPeer db' = db_nextPeer db \<and>
     (db_ok db \<longrightarrow> db_ok db')"

lemma shrunk_refl: "shrunk db db" by (simp add: shrunk_def)

lemma shrunk_trans: "shrunk a b \<Longrightarrow> shrunk b c \<Longrightarrow> shrunk a c"
  by (auto simp: shrunk_def)

lemma shrunk_RemoveProducer: "shrunk db (snd (RemoveProducer k i db))"
  by (auto simp: shrunk_def RemoveProducer_effect db_ok_RemoveProducer split: if_splits)

lemma shrunk_RemoveRegistration: "shrunk db (RemoveRegistration k db)"
  by (auto simp: shrunk_def RemoveRegistration_effect db_ok_RemoveRegistration split: if_splits)

lemma shrunk_fold: "(\<And>k d. shrunk d (f k d)) \<Longrightarrow> shrunk db (fold f ks db)"
  by (induction ks arbitrary: db) (auto intro: shrunk_refl shrunk_trans)

lemmas shrunk_folds = shrunk_fold [of "\<lambda>k d. snd (RemoveProducer k i d)" for i, OF shrunk_RemoveProducer]
  shrunk_fold [of RemoveRegistration, OF shrunk_RemoveRegistration]

lemma shrunk_inv:
  assumes "lk_inv db L" "shrunk db db'" "channels_have_topics db'"
  shows "lk_inv db' L"
  using assms owned_mono [of db L db'] by (auto simp: lk_inv_def shrunk_def)

lemma remove_producer_effect:
  "shrunk db (remove_producer k i name db)" "regs (remove_producer k i name db) = regs db - {(k, i)}"
proof -
  obtain rm n where r: "RemoveProducer k i db = ((rm, n), snd (RemoveProducer k i db))" by (metis prod.collapse)
  let ?db = "snd (RemoveProducer k i db)"
  have d: "remove_producer k i name db =
      (if n = 0 \<and> HasSuffix name ''#ephemeral'' then RemoveRegistration k ?db else ?db)"
    unfolding remove_producer_def by (subst r) simp
  show "shrunk db (remove_producer k i name db)"
    unfolding d by (auto intro: shrunk_RemoveProducer shrunk_trans [OF shrunk_RemoveProducer shrunk_RemoveRegistration])
  have "n = 0 \<Longrightarrow> (k, j) \<notin> regs ?db" for j
    using RemoveProducer_left [of k i db] r by (metis fst_conv snd_conv)
  then show "regs (remove_producer k i name db) = regs db - {(k, i)}"
    unfolding d using db.discard_rel [of k ?db] db.remove_rel [of k i db] by auto
qed

text \<open>Unregistering a topic also unregisters its channels, for the same producer.\<close>

lemma unregister_effect:
  assumes "db_ok db"
  shows "shrunk db (unregister i t ch db)"
    "ch \<noteq> [] \<Longrightarrow> regs (unregister i t ch db) = regs db - {(Reg ''channel'' t ch, i)}"
    "ch = [] \<Longrightarrow> t \<noteq> ''*'' \<Longrightarrow>
       regs (unregister i t ch db) = regs db - ({(Reg ''channel'' t c, i) |c. True} \<union> {(Reg ''topic'' t [], i)})"
proof -
  let ?rs = "FindRegistrations ''channel'' t ''*'' db"
  let ?db = "fold (\<lambda>r d. snd (RemoveProducer r i d)) ?rs db"
  show "shrunk db (unregister i t ch db)"
    using remove_producer_effect(1) shrunk_trans [OF shrunk_folds(1) remove_producer_effect(1)]
    by (simp add: unregister_def Let_def)
  show "regs (unregister i t ch db) = regs db - {(Reg ''channel'' t ch, i)}" if "ch \<noteq> []"
    using that by (simp add: unregister_def remove_producer_effect)
  assume t: "ch = []" "t \<noteq> ''*''"
  have "IsMatch ''channel'' t ''*'' k \<longleftrightarrow> (\<exists>c. k = Reg ''channel'' t c)" for k
    using t(2) by (cases k) (auto simp: IsMatch_def)
  then have "set ?rs = {Reg ''channel'' t c |c. Reg ''channel'' t c \<in> known db}"
    unfolding FindRegistrations_set [OF assms] by auto
  moreover have "regs ?db = regs db - set ?rs \<times> {i}"
    using db.remove_all_effect(1) [of i ?rs db] by (simp add: db.remove_all_def)
  ultimately have "regs ?db = regs db - {(Reg ''channel'' t c, i) |c. True}"
    using regs_known by fastforce
  then show "regs (unregister i t ch db) = regs db - ({(Reg ''channel'' t c, i) |c. True} \<union> {(Reg ''topic'' t [], i)})"
    using t(1) by (auto simp: unregister_def remove_producer_effect)
qed

lemma unregister_inv:
  assumes "lk_inv db L" "IsValidTopicName t"
  shows "lk_inv (unregister i t ch db) L"
proof (rule shrunk_inv [OF assms(1)])
  have db: "db_ok db" "channels_have_topics db" using assms(1) by (auto simp: lk_inv_def)
  show "shrunk db (unregister i t ch db)" by (rule unregister_effect(1) [OF db(1)])
  have "t \<noteq> ''*''" using good_reg_star [of "''topic''" t "[]"] assms(2) by (simp add: good_reg_def)
  then show "channels_have_topics (unregister i t ch db)"
    using db(2) unregister_effect(2,3) [OF db(1), where ch = ch and i = i and t = t] by (cases "ch = []") (auto simp: channels_have_topics_def)
qed

text \<open>Closing a connection takes everything it has registered out of the database.\<close>

definition drop_id :: "string \<Rightarrow> RegistrationDB \<Rightarrow> RegistrationDB" where
  "drop_id i db = fold (\<lambda>r d. snd (RemoveProducer r i d)) (LookupRegistrations i db) db"

lemma drop_id_regs: "db_ok db \<Longrightarrow> regs (drop_id i db) = {(k, j) \<in> regs db. j \<noteq> i}"
  using db.remove_id [of db i] by (simp add: drop_id_def db.remove_all_def)

lemma drop_id_inv:
  assumes "lk_inv db L"
  shows "lk_inv (drop_id i db) (L(i := None))"
proof -
  have db: "db_ok db" "channels_have_topics db" using assms by (auto simp: lk_inv_def)
  note r = drop_id_regs [OF db(1), of i]
  have "lk_inv (drop_id i db) L"
  proof (rule shrunk_inv [OF assms])
    show "shrunk db (drop_id i db)" unfolding drop_id_def by (rule shrunk_folds)
    show "channels_have_topics (drop_id i db)" using db(2) unfolding channels_have_topics_def r by auto
  qed
  moreover have "entry (drop_id i db) k i = None" for k
    using r by (auto simp: regs_def)
  ultimately show ?thesis unfolding lk_inv_def owned_def by (auto split: if_splits)
qed

lemma close_state:
  assumes "lk_inv db L" "L (cv_addr c) = Some (cv_peerInfo c)"
  shows "lk_inv (snd (lk_close (c, db))) (L(cv_addr c := None))"
proof (cases "cv_peerInfo c")
  case None
  have "entry db k (cv_addr c) = None" for k
    using assms None by (cases "entry db k (cv_addr c)") (auto simp: lk_inv_def owned_def)
  then show ?thesis using assms(1) None by (auto simp: lk_close_def lk_inv_def owned_def)
next
  case (Some p)
  then have "pe_id (db_peers db p) = cv_addr c" using assms by (auto simp: lk_inv_def owned_def)
  then show ?thesis using drop_id_inv [OF assms(1)] Some by (simp add: lk_close_def drop_id_def Let_def)
qed

section \<open>Every command keeps the invariant\<close>

lemma known_cong: "db_registrationMap db' = db_registrationMap db \<Longrightarrow> entry db' = entry db \<and> known db' = known db"
  by (simp add: entry_def known_def fun_eq_iff)

text \<open>A change of the \<open>PeerInfo\<close> objects only, which keeps the identifiers of those that exist.\<close>

lemma peers_inv:
  assumes "lk_inv db L" "db_registrationMap db' = db_registrationMap db" "db_producers db' = db_producers db"
    "db_nextProducer db' = db_nextProducer db" "db_nextPeer db \<le> db_nextPeer db'"
    "\<And>p. p < db_nextPeer db \<Longrightarrow> pe_id (db_peers db' p) = pe_id (db_peers db p)"
  shows "lk_inv db' L"
proof -
  note e = known_cong [OF assms(2), THEN conjunct1] known_cong [OF assms(2), THEN conjunct2]
  have i: "db_ok db" "owned db L" "channels_have_topics db" "Ball (known db) good_reg"
    using assms(1) by (auto simp: lk_inv_def)
  have "entries_ok db'" using i(1) assms(5,6) unfolding db_ok_def entries_ok_def peer_of_def e assms(3,4)
    by (metis order_less_le_trans)
  moreover have "maps_ok db'" using i(1) by (simp add: db_ok_def maps_ok_def assms(2))
  moreover have "owned db' L" using i(2) assms(5,6) unfolding owned_def e assms(3) by (metis order_less_le_trans)
  moreover have "channels_have_topics db'" using i(3) by (simp add: channels_have_topics_def regs_def e)
  ultimately show ?thesis using i(4) by (simp add: lk_inv_def db_ok_def e)
qed

lemma owned_identified:
  assumes "owned db L" "L a = Some None" "p < db_nextPeer db" "pe_id (db_peers db p) = a"
  shows "owned db (L(a := Some (Some p)))"
proof -
  have "i \<noteq> a" if "entry db k i = Some r" for k i r using that assms(1,2) by (auto simp: owned_def)
  then show ?thesis using assms by (simp add: owned_def)
qed

lemma identify_inv:
  assumes "lk_inv db L" "L addr = Some None"
  shows "lk_inv (snd (AddProducer (Reg ''client'' [] []) (new_producer (db_nextPeer db))
            ((with_peer (db_nextPeer db) (new_peer now addr j) db)\<lparr>db_nextPeer := db_nextPeer db + 1\<rparr>)))
           (L(addr := Some (Some (db_nextPeer db))))"
proof -
  let ?p = "db_nextPeer db"
  let ?db = "(with_peer ?p (new_peer now addr j) db)\<lparr>db_nextPeer := ?p + 1\<rparr>" and ?L = "L(addr \<mapsto> Some ?p)"
  let ?db2 = "snd (AddProducer (Reg ''client'' [] []) (new_producer ?p) ?db)"
  have i: "lk_inv ?db L" by (rule peers_inv [OF assms(1)]) (simp_all add: with_peer_def)
  have "owned ?db ?L" by (rule owned_identified) (use i assms(2) in \<open>auto simp: lk_inv_def with_peer_def new_peer_def\<close>)
  then have b: "base_inv ?db ?L" using i by (simp add: base_inv_def lk_inv_def)
  note n = AddProducer_base [OF b, of addr ?p "Reg ''client'' [] []"]
  have "channels_have_topics ?db2" using i n(2) by (auto simp: lk_inv_def channels_have_topics_def)
  moreover have "Ball (known ?db2) good_reg" using i by (auto simp: AddProducer_effect lk_inv_def good_reg_def)
  ultimately show ?thesis using n(1) by (simp add: lk_inv_def base_inv_def)
qed

lemma effect_inv:
  assumes "lk_effect addr (p, db) (p', db')" "lk_inv db L" "L addr = Some p"
  shows "lk_inv db' (L(addr := Some p'))"
  using assms(1)
proof cases
  case same
  then show ?thesis using assms(2,3) by (simp add: fun_upd_idem)
next
  case (ping q now)
  then show ?thesis using assms(2,3) peers_inv [OF assms(2), of db'] by (simp add: with_peer_def fun_upd_idem)
next
  case (identify now j)
  then show ?thesis using identify_inv [OF assms(2)] assms(3) by simp
next
  case (register t ch q)
  then show ?thesis using register_inv(1) [OF assms(2)] assms(3) by (simp add: fun_upd_idem)
next
  case (unregister t ch q)
  then show ?thesis using unregister_inv [OF assms(2)] assms(3) by (simp add: fun_upd_idem)
qed

section \<open>Every request keeps the invariant\<close>

lemma AddRegistration_inv:
  assumes "lk_inv db L" "good_reg k"
  shows "lk_inv (AddRegistration k db) L"
  using assms db_ok_AddRegistration [of db k]
  by (auto simp: lk_inv_def owned_def channels_have_topics_def regs_def AddRegistration_effect)

lemma discard_inv:
  assumes "lk_inv db L"
    "\<And>t c. Reg ''topic'' t [] \<in> set ks \<Longrightarrow> Reg ''channel'' t c \<in> known db \<Longrightarrow> Reg ''channel'' t c \<in> set ks"
  shows "lk_inv (fold RemoveRegistration ks db) L"
proof (rule shrunk_inv [OF assms(1) shrunk_folds(2)])
  have "regs (fold RemoveRegistration ks db) = {(k, i) \<in> regs db. k \<notin> set ks}"
    using db.discard_all_effect(1) [of ks db] by (simp add: db.discard_all_def)
  then show "channels_have_topics (fold RemoveRegistration ks db)"
    using assms regs_known unfolding lk_inv_def channels_have_topics_def by fastforce
qed

lemma IsMatch_wild: "IsMatch c t ''*'' k \<longleftrightarrow> Category k = c \<and> (t = ''*'' \<or> Key k = t)"
  by (auto simp: IsMatch_def)

text \<open>The topic \<open>*\<close> matches every topic, and so does the request to delete it.\<close>

lemma deleted_set:
  fixes t :: string
  assumes "db_ok db"
  defines "db1 \<equiv> fold RemoveRegistration (FindRegistrations ''channel'' t ''*'' db) db"
  shows "fold RemoveRegistration (FindRegistrations ''topic'' t [] db1) db1 =
      fold RemoveRegistration (FindRegistrations ''channel'' t ''*'' db @ FindRegistrations ''topic'' t [] db1) db"
    "set (FindRegistrations ''channel'' t ''*'' db @ FindRegistrations ''topic'' t [] db1) =
      {k \<in> known db. (t = ''*'' \<or> Key k = t) \<and> (Category k = ''channel'' \<or> Category k = ''topic'' \<and> SubKey k = [])}"
proof -
  show "fold RemoveRegistration (FindRegistrations ''topic'' t [] db1) db1 =
      fold RemoveRegistration (FindRegistrations ''channel'' t ''*'' db @ FindRegistrations ''topic'' t [] db1) db"
    by (simp add: db1_def)
  have ok: "db_ok db1" using shrunk_folds(2) [of db] assms(1) by (simp add: db1_def shrunk_def)
  have k: "known db1 = known db - set (FindRegistrations ''channel'' t ''*'' db)"
    using db.discard_all_effect(2) by (simp add: db1_def db.discard_all_def)
  show "set (FindRegistrations ''channel'' t ''*'' db @ FindRegistrations ''topic'' t [] db1) =
      {k \<in> known db. (t = ''*'' \<or> Key k = t) \<and> (Category k = ''channel'' \<or> Category k = ''topic'' \<and> SubKey k = [])}"
    unfolding set_append FindRegistrations_set [OF ok] k FindRegistrations_set [OF assms(1)] IsMatch_wild
    by (auto simp: IsMatch_def)
qed

lemma delete_topic_inv:
  fixes t :: string
  assumes "lk_inv db L"
  defines "db1 \<equiv> fold RemoveRegistration (FindRegistrations ''channel'' t ''*'' db) db"
  shows "lk_inv (fold RemoveRegistration (FindRegistrations ''topic'' t [] db1) db1) L"
proof -
  have ok: "db_ok db" using assms(1) by (simp add: lk_inv_def)
  show ?thesis unfolding db1_def deleted_set(1) [OF ok]
    by (rule discard_inv [OF assms(1)], unfold deleted_set(2) [OF ok]) auto
qed

lemma tombstone_inv: "lk_inv db L \<Longrightarrow> lk_inv (tombstone_producer at node p db) L"
  by (auto simp: tombstone_producer_def Tombstone_def lk_inv_def db_ok_def maps_ok_def entries_ok_def owned_def
      peer_of_def channels_have_topics_def regs_def entry_def known_def)

lemma tombstones_inv: "lk_inv db L \<Longrightarrow> lk_inv (fold (tombstone_producer at node) ps db) L"
  by (induction ps arbitrary: db) (simp_all add: tombstone_inv)

lemma delete_channel_inv:
  assumes "lk_inv db L"
  shows "lk_inv (fold RemoveRegistration (FindRegistrations ''channel'' t c db) db) L"
proof (rule discard_inv [OF assms])
  have "db_ok db" using assms by (simp add: lk_inv_def)
  from FindRegistrations_set [OF this]
  show "Reg ''topic'' t' [] \<in> set (FindRegistrations ''channel'' t c db) \<Longrightarrow>
      Reg ''channel'' t' c' \<in> set (FindRegistrations ''channel'' t c db)" for t' c' by (simp add: IsMatch_def)
qed

lemma with_topic_arg_inv:
  assumes "lk_inv db L" "\<And>t rp. lk_inv (snd (f t rp db)) L"
  shows "lk_inv (snd (with_topic_arg req f db)) L"
  using assms by (simp add: with_topic_arg_def split: sum.split)

lemma GetTopicChannelArgs_valid:
  "GetTopicChannelArgs rp = Inr (t, c) \<Longrightarrow> IsValidTopicName t \<and> IsValidChannelName c"
  by (auto simp: GetTopicChannelArgs_def split: sum.splits if_splits)

lemma channel_requests_inv:
  assumes "lk_inv db L"
  shows "lk_inv (snd (lookup_doCreateChannel req db)) L" "lk_inv (snd (lookup_doDeleteChannel req db)) L"
  using assms delete_channel_inv [OF assms]
  by (auto simp: lookup_doCreateChannel_def lookup_doDeleteChannel_def Let_def good_reg_def
      intro!: AddRegistration_inv dest!: GetTopicChannelArgs_valid split: sum.split)

lemma topic_requests_inv:
  assumes "lk_inv db L"
  shows "lk_inv (snd (lookup_doCreateTopic req db)) L" "lk_inv (snd (lookup_doDeleteTopic req db)) L"
    "lk_inv (snd (lookup_doTombstoneTopicProducer at req db)) L"
  unfolding lookup_doCreateTopic_def lookup_doDeleteTopic_def lookup_doTombstoneTopicProducer_def
  by (rule with_topic_arg_inv [OF assms],
      use assms in \<open>auto simp: Let_def good_reg_def intro!: AddRegistration_inv delete_topic_inv tombstones_inv split: sum.split\<close>)+

lemma queries_keep:
  "snd (lookup_pingHandler db) = db" "snd (lookup_doInfo v db) = db" "snd (lookup_doTopics db) = db"
  "snd (lookup_doChannels req db) = db" "snd (lookup_doLookup opts now at req db) = db"
  "snd (lookup_doNodes opts now at db) = db" "snd (lookup_doDebug db) = db"
  by (simp_all add: lookup_pingHandler_def lookup_doInfo_def lookup_doTopics_def lookup_doChannels_def lookup_doLookup_def
      lookup_doNodes_def lookup_doDebug_def with_topic_arg_def Let_def split: sum.split)

lemma route_inv:
  assumes "lk_inv db L"
  shows "lk_inv (snd (lookup_route opts version now at req db)) L"
  using assms topic_requests_inv [OF assms] channel_requests_inv [OF assms]
  by (simp add: lookup_route_def Let_def queries_keep)

section \<open>Reachable states\<close>

inductive lookupd_reach :: "LookupdOptions \<Rightarrow> RegistrationDB \<Rightarrow> (string \<rightharpoonup> ClientV1) \<Rightarrow> bool" for opts where
  start: "lookupd_reach opts NewRegistrationDB Map.empty"
| connect: "lookupd_reach opts db cs \<Longrightarrow> cs a = None \<Longrightarrow> lookupd_reach opts db (cs(a \<mapsto> NewClientV1 a input w))"
| command: "lookupd_reach opts db cs \<Longrightarrow> cs a = Some c \<Longrightarrow> lk_step x (c, db) = Some (LkContinue (c', db')) \<Longrightarrow>
    lookupd_reach opts db' (cs(a \<mapsto> c'))"
| disconnect: "lookupd_reach opts db cs \<Longrightarrow> cs a = Some c \<Longrightarrow> lk_step x (c, db) = Some (LkStop e (c', db')) \<Longrightarrow>
    lookupd_reach opts (snd (lk_close (c', db'))) (cs(a := None))"
| request: "lookupd_reach opts db cs \<Longrightarrow> lookup_route opts version now at req db = (r, db') \<Longrightarrow>
    lookupd_reach opts db' cs"

definition live :: "(string \<rightharpoonup> ClientV1) \<Rightarrow> string \<rightharpoonup> ref option" where
  "live cs = (\<lambda>a. map_option cv_peerInfo (cs a))"

lemma live_upd: "live (cs(a \<mapsto> c)) = (live cs)(a \<mapsto> cv_peerInfo c)" "live (cs(a := None)) = (live cs)(a := None)"
  by (auto simp: live_def fun_eq_iff)

lemma live_connect:
  assumes "lk_inv db L" "L a = None"
  shows "lk_inv db (L(a \<mapsto> None))"
proof -
  have "i \<noteq> a" if "entry db k i = Some r" for k i r using that assms by (auto simp: lk_inv_def owned_def)
  then show ?thesis using assms(1) by (simp add: lk_inv_def owned_def)
qed

definition addr_ok :: "(string \<rightharpoonup> ClientV1) \<Rightarrow> bool" where
  "addr_ok cs \<longleftrightarrow> (\<forall>a c. cs a = Some c \<longrightarrow> cv_addr c = a)"

lemma addr_ok_upd: "addr_ok cs \<Longrightarrow> cv_addr c = a \<Longrightarrow> addr_ok (cs(a \<mapsto> c))" "addr_ok cs \<Longrightarrow> addr_ok (cs(a := None))"
  by (simp_all add: addr_ok_def)

lemma reach_inv: "lookupd_reach opts db cs \<Longrightarrow> lk_inv db (live cs) \<and> addr_ok cs"
proof (induction rule: lookupd_reach.induct)
  case start
  then show ?case using lk_inv_new by (simp add: live_def addr_ok_def)
next
  case (connect db cs a input w)
  then have "live cs a = None" by (simp add: live_def)
  then have "lk_inv db ((live cs)(a \<mapsto> None))" using live_connect [of db "live cs" a] connect.IH by blast
  then show ?case using connect.IH addr_ok_upd(1) [of cs "NewClientV1 a input w" a] live_upd(1) [of cs a "NewClientV1 a input w"]
    by (simp add: NewClientV1_def del: fun_upd_apply)
next
  case (command db cs a c x c' db')
  note e = step_effect [OF command.hyps(3), of c' db']
  have c: "cv_addr c = a" "live cs a = Some (cv_peerInfo c)" using command by (auto simp: live_def addr_ok_def)
  then have "lk_inv db' ((live cs)(a \<mapsto> cv_peerInfo c'))"
    using e effect_inv [of a "cv_peerInfo c" db "cv_peerInfo c'" db' "live cs"] command.IH by auto
  then show ?case using c e command.IH addr_ok_upd(1) [of cs c' a] live_upd(1) [of cs a c'] by (simp del: fun_upd_apply)
next
  case (disconnect db cs a c x e c' db')
  note f = step_effect [OF disconnect.hyps(3), of c' db']
  have c: "cv_addr c = a" "live cs a = Some (cv_peerInfo c)" using disconnect by (auto simp: live_def addr_ok_def)
  then have "lk_inv db' ((live cs)(a \<mapsto> cv_peerInfo c'))"
    using f effect_inv [of a "cv_peerInfo c" db "cv_peerInfo c'" db' "live cs"] disconnect.IH by auto
  from close_state [OF this, of c'] c f have "lk_inv (snd (lk_close (c', db'))) ((live cs)(a := None))" by simp
  then show ?case using disconnect.IH addr_ok_upd(2) [of cs a] live_upd(2) [of cs a] by (simp del: fun_upd_apply)
next
  case (request db cs version now at req r db')
  then show ?case using route_inv [of db "live cs" opts version now at req] by simp
qed

end
