(* ===== verification/Nsq_ProtocolInv.thy ===== *)
theory Nsq_ProtocolInv
  imports Nsq_ProtocolLoop
begin

text \<open>
  What a command does to the client that sends it. The part of a client that the protocol is a state
  machine over is its \<open>view\<close>: state, channel and ready count. Only SUB, RDY and CLS change it; the
  inductive relation \<open>conn_step\<close> says how. No command puts bytes back into the input, and none
  touches another client.
\<close>

type_synonym client_view = "client_state \<times> (string \<times> string) option \<times> i64"

definition view :: "clientV2 \<Rightarrow> client_view" where
  "view c = (cl_State c, cl_Channel c, cl_ReadyCount c)"

definition tame :: "clientV2 \<Rightarrow> clientV2 \<Rightarrow> bool" where
  "tame c c' \<longleftrightarrow> view c' = view c \<and> length (cl_Reader c') \<le> length (cl_Reader c)"

named_theorems tame_intros

lemma tame_refl [simp, tame_intros]: "tame c c"
  by (simp add: tame_def)

lemma tame_trans: "tame c c' \<Longrightarrow> tame c' c'' \<Longrightarrow> tame c c''"
  by (auto simp: tame_def)

lemma tame_upd [simp]:
  "tame c (c'\<lparr>cl_Writer := b\<rparr>) = tame c c'" "tame c (c'\<lparr>cl_conn := w\<rparr>) = tame c c'"
  "tame c (c'\<lparr>cl_AuthState := a\<rparr>) = tame c c'" "tame c (c'\<lparr>cl_AuthSecret := t\<rparr>) = tame c c'"
  "tame c (c'\<lparr>cl_TLS := x\<rparr>) = tame c c'" "tame c (c'\<lparr>cl_Snappy := x\<rparr>) = tame c c'"
  "tame c (c'\<lparr>cl_Deflate := x\<rparr>) = tame c c'" "tame c (c'\<lparr>cl_IdentifyEventChan := ie\<rparr>) = tame c c'"
  "tame c (c'\<lparr>cl_HeartbeatInterval := n\<rparr>) = tame c c'" "tame c (c'\<lparr>cl_OutputBufferTimeout := n\<rparr>) = tame c c'"
  "tame c (c'\<lparr>cl_OutputBufferSize := n\<rparr>) = tame c c'" "tame c (c'\<lparr>cl_SampleRate := n\<rparr>) = tame c c'"
  "tame c (c'\<lparr>cl_MsgTimeout := n\<rparr>) = tame c c'" "tame c (c'\<lparr>cl_ClientID := t\<rparr>) = tame c c'"
  "tame c (c'\<lparr>cl_Hostname := t\<rparr>) = tame c c'" "tame c (c'\<lparr>cl_UserAgent := t\<rparr>) = tame c c'"
  "tame c (c'\<lparr>cl_pubCounts := p\<rparr>) = tame c c'" "tame c (c'\<lparr>cl_FinishCount := u\<rparr>) = tame c c'"
  "tame c (c'\<lparr>cl_InFlightCount := i\<rparr>) = tame c c'" "tame c (c'\<lparr>cl_RequeueCount := u\<rparr>) = tame c c'"
  "tame c (c'\<lparr>cl_ReadyStateChan := x\<rparr>) = tame c c'"
  by (simp_all add: tame_def view_def)

section \<open>Reading and sending\<close>

lemma tame_read_input [tame_intros]: "tame c (snd (read_input n c))"
  by (simp add: read_input_def tame_def view_def)

lemma tame_readLen [tame_intros]: "tame c (snd (readLen c))"
  using tame_read_input [of c 4] by (auto simp: readLen_def split: prod.split sum.split)

lemma tame_read_body [tame_intros]: "tame c (snd (read_body code cmd what limit b c))"
proof -
  obtain r c1 where r: "readLen c = (r, c1)" by fastforce
  have t: "tame c c1" using tame_readLen [of c] r by simp
  have "tame c (snd (read_input n c1))" for n using tame_trans [OF t tame_read_input] .
  then show ?thesis using t r
    by (auto simp: read_body_def split: sum.split prod.split) (metis snd_conv)+
qed

lemma tame_flush [tame_intros]: "tame c (snd (client_Flush c))"
  by (auto simp: client_Flush_def client_Flush_writer_def split: prod.split)

lemma tame_Send [tame_intros]: "tame c (snd (proto_Send ft data c))"
proof -
  have "tame c (snd (client_Flush (c\<lparr>cl_Writer := b, cl_conn := w\<rparr>)))" for b w
    using tame_flush [of "c\<lparr>cl_Writer := b, cl_conn := w\<rparr>"] by (simp add: tame_def view_def)
  then show ?thesis by (auto simp: proto_Send_def Let_def split: prod.split option.split)
qed

section \<open>IDENTIFY and AUTH\<close>

lemma tame_SetOutputBuffer: "tame c (snd (SetOutputBuffer opts sz t c))"
proof -
  have 1: "tame c1 (snd (set_buffer_timeout opts t c1))" "tame c1 (snd (set_buffer_size opts sz c1))" for c1
    by (simp_all add: set_buffer_timeout_def set_buffer_size_def)
  have 2: "tame c1 (snd (client_Flush_writer c1))" for c1
    using tame_flush [of c1] by (simp add: client_Flush_def)
  obtain e1 c1 where c1: "set_buffer_timeout opts t c = (e1, c1)" by fastforce
  obtain e2 c2 where c2: "set_buffer_size opts sz c1 = (e2, c2)" by fastforce
  obtain e3 c3 where c3: "client_Flush_writer c2 = (e3, c3)" by fastforce
  have t1: "tame c c1" using 1(1) [of c] c1 by simp
  have t2: "tame c c2" using tame_trans [OF t1, of c2] 1(2) [of c1] c2 by simp
  have t3: "tame c c3" using tame_trans [OF t2, of c3] 2 [of c2] c3 by simp
  show ?thesis using t1 t2 t3 c1 c2 c3 by (auto simp: SetOutputBuffer_def split: option.split)
qed

lemma tame_Identify [tame_intros]: "tame c (snd (client_Identify opts data c))"
proof -
  let ?c0 = "c\<lparr>cl_ClientID := i_ClientID data, cl_Hostname := i_Hostname data, cl_UserAgent := i_UserAgent data\<rparr>"
  obtain e1 c1 where c1: "SetHeartbeatInterval opts (i_HeartbeatInterval data) ?c0 = (e1, c1)" by fastforce
  obtain e2 c2 where c2: "SetOutputBuffer opts (i_OutputBufferSize data) (i_OutputBufferTimeout data) c1 = (e2, c2)"
    by fastforce
  obtain e3 c3 where c3: "SetSampleRate (i_SampleRate data) c2 = (e3, c3)" by fastforce
  obtain e4 c4 where c4: "SetMsgTimeout opts (i_MsgTimeout data) c3 = (e4, c4)" by fastforce
  have t1: "tame c c1" using c1 by (auto simp: SetHeartbeatInterval_def split: if_splits)
  have t2: "tame c c2" using tame_trans [OF t1, of c2] tame_SetOutputBuffer [of c1] c2 by (metis snd_conv)
  have t3: "tame c c3" using c3 t2 by (auto simp: SetSampleRate_def split: if_splits)
  have t4: "tame c c4" using c4 t3 by (auto simp: SetMsgTimeout_def split: if_splits)
  show ?thesis using t1 t2 t3 t4 c1 c2 c3 c4
    by (auto simp: client_Identify_def Let_def split: option.split)
qed

lemma tame_upgrade:
  assumes "\<And>c. tame c (snd (up c))"
  shows "tame c (snd (upgrade wanted up c))"
proof -
  obtain e c1 where u: "up c = (e, c1)" by fastforce
  have t: "tame c c1" using assms [of c] u by simp
  have "tame c (snd (proto_Send frameTypeResponse okBytes c1))" by (rule tame_trans [OF t tame_Send])
  then show ?thesis using t u by (auto simp: upgrade_def split: option.split prod.split)
qed

lemma tame_upgrades:
  "tame c (snd (UpgradeTLS h c))" "tame c (snd (UpgradeSnappy c))" "tame c (snd (UpgradeDeflate l c))"
  by (auto simp: UpgradeTLS_def UpgradeSnappy_def UpgradeDeflate_def split: option.split)

lemma tame_negotiate: "tame c (snd (negotiate x n data c))"
proof -
  let ?opts = "n_opts n"
  let ?tls = "n_tlsConfig n \<and> i_TLSv1 data" and ?defl = "o_DeflateEnabled ?opts \<and> i_Deflate data"
    and ?snap = "o_SnappyEnabled ?opts \<and> i_Snappy data"
  define resp where "resp = x_identify x
      \<lparr>ir_MaxRdyCount = o_MaxRdyCount ?opts, ir_MaxMsgTimeout = go_div (o_MaxMsgTimeout ?opts) Millisecond,
       ir_MsgTimeout = go_div (cl_MsgTimeout c) Millisecond, ir_TLSv1 = ?tls, ir_Deflate = ?defl,
       ir_DeflateLevel = deflate_level ?opts data, ir_MaxDeflateLevel = o_MaxDeflateLevel ?opts, ir_Snappy = ?snap,
       ir_SampleRate = cl_SampleRate c, ir_AuthRequired = nsqd_IsAuthEnabled n,
       ir_OutputBufferSize = cl_OutputBufferSize c,
       ir_OutputBufferTimeout = go_div (cl_OutputBufferTimeout c) Millisecond\<rparr>"
  obtain e1 c1 where c1: "proto_Send frameTypeResponse resp c = (e1, c1)" by fastforce
  obtain e2 c2 where c2: "upgrade ?tls (UpgradeTLS (x_handshake x)) c1 = (e2, c2)" by fastforce
  obtain e3 c3 where c3: "upgrade ?snap UpgradeSnappy c2 = (e3, c3)" by fastforce
  obtain e4 c4 where c4: "upgrade ?defl (UpgradeDeflate (deflate_level ?opts data)) c3 = (e4, c4)" by fastforce
  have t1: "tame c c1" using tame_Send [of c frameTypeResponse resp] c1 by simp
  have t2: "tame c c2" using tame_trans [OF t1, of c2] tame_upgrade [where up = "UpgradeTLS (x_handshake x)" and wanted = "?tls" and c = c1, OF tame_upgrades(1)] c2
    by simp
  have t3: "tame c c3" using tame_trans [OF t2, of c3] tame_upgrade [where up = "UpgradeSnappy" and wanted = "?snap" and c = c2, OF tame_upgrades(2)] c3
    by simp
  have t4: "tame c c4" using tame_trans [OF t3, of c4] tame_upgrade [where up = "UpgradeDeflate (deflate_level ?opts data)" and wanted = "?defl" and c = c3, OF tame_upgrades(3)] c4
    by simp
  show ?thesis
    unfolding negotiate_def Let_def resp_def [symmetric]
    using t1 t2 t3 t4 by (simp add: c1 c2 c3 c4 split: option.split)
qed

lemma tame_IDENTIFY: "tame c (snd (proto_IDENTIFY x n c))"
proof -
  obtain r c1 where r: "read_body ''E_BAD_BODY'' ''IDENTIFY'' ''body'' (o_MaxBodySize (n_opts n)) True c = (r, c1)"
    by fastforce
  have t1: "tame c c1" using tame_read_body [of c "''E_BAD_BODY''" "''IDENTIFY''" "''body''" "o_MaxBodySize (n_opts n)" True] r
    by simp
  have t2: "tame c (snd (client_Identify (n_opts n) data c1))" for data by (rule tame_trans [OF t1 tame_Identify])
  have t3: "tame c (snd (negotiate x n data (snd (client_Identify (n_opts n) data c1))))" for data
    by (rule tame_trans [OF t2 tame_negotiate])
  show ?thesis using t1 t2 t3 r
    by (auto simp: proto_IDENTIFY_def split: sum.split prod.split option.split) (metis snd_conv)+
qed

lemma tame_QueryAuthd: "tame c (snd (client_QueryAuthd compile get opts now c))"
  by (auto simp: client_QueryAuthd_def split: sum.split)

lemma tame_Auth: "tame c (snd (client_Auth compile get opts now secret c))"
  using tame_QueryAuthd [of "c\<lparr>cl_AuthSecret := secret\<rparr>"] by (simp add: client_Auth_def tame_def view_def)

lemma tame_AUTH: "tame c (snd (proto_AUTH x n params c))"
proof -
  obtain r c1 where r: "read_body ''E_BAD_BODY'' ''AUTH'' ''body'' (o_MaxBodySize (n_opts n)) True c = (r, c1)"
    by fastforce
  have t1: "tame c c1" using tame_read_body [of c "''E_BAD_BODY''" "''AUTH''" "''body''" "o_MaxBodySize (n_opts n)" True] r
    by simp
  have t2: "tame c (snd (client_Auth cm g (n_opts n) now t c1))" for cm g now t by (rule tame_trans [OF t1 tame_Auth])
  have t3: "tame c (snd (proto_Send frameTypeResponse d (snd (client_Auth cm g (n_opts n) now t c1))))" for d cm g now t
    by (rule tame_trans [OF t2 tame_Send])
  show ?thesis using t1 t2 t3 r
    by (auto simp: proto_AUTH_def split: sum.split prod.split option.split) (metis snd_conv)+
qed

lemma tame_IsAuthorized:
  assumes "IsAuthorized compile get opts now tn cn c = Some (r, c')"
  shows "tame c c'"
proof -
  have q: "client_QueryAuthd compile get opts now c = (e, c1) \<Longrightarrow> tame c c1" for e c1
    using tame_QueryAuthd [of c compile get opts now] by simp
  show ?thesis using assms
    by (auto simp: IsAuthorized_def intro: q split: option.splits if_splits prod.splits bind_splits)
qed

lemma tame_CheckAuth: "proto_CheckAuth x n cmd tn cn c = Some (e, c') \<Longrightarrow> tame c c'"
  by (auto simp: proto_CheckAuth_def dest: tame_IsAuthorized split: if_splits bind_splits)

section \<open>The state machine\<close>

inductive conn_step :: "Options \<Rightarrow> client_view \<Rightarrow> client_view \<Rightarrow> bool" for opts :: Options where
  stay: "conn_step opts v v"
| subscribe: "IsValidTopicName (fst tc) \<Longrightarrow> IsValidChannelName (snd tc) \<Longrightarrow>
    conn_step opts (stateInit, ch, n) (stateSubscribed, Some tc, n)"
| ready: "0 \<le> sint m \<Longrightarrow> sint m \<le> o_MaxRdyCount opts \<Longrightarrow>
    conn_step opts (stateSubscribed, ch, n) (stateSubscribed, ch, m)"
| close: "conn_step opts (stateSubscribed, ch, n) (stateClosing, ch, 0)"

inductive_cases conn_step_fromE: "conn_step opts (st, ch, n) v"

definition cmd_step :: "Options \<Rightarrow> clientV2 \<Rightarrow> clientV2 \<Rightarrow> bool" where
  "cmd_step opts c c' \<longleftrightarrow> conn_step opts (view c) (view c') \<and> length (cl_Reader c') \<le> length (cl_Reader c)"

lemma cmd_step_tame: "tame c c' \<Longrightarrow> cmd_step opts c c'"
  by (simp add: cmd_step_def tame_def conn_step.stay)

lemma cmd_step_after_tame: "tame c c' \<Longrightarrow> cmd_step opts c' c'' \<Longrightarrow> cmd_step opts c c''"
  by (auto simp: cmd_step_def tame_def)

text \<open>What a command does to the whole state: other clients are untouched, the options stay.\<close>

definition local_step :: "int \<Rightarrow> 'b proto \<Rightarrow> 'b proto \<Rightarrow> bool" where
  "local_step k s s' \<longleftrightarrow> (\<forall>j. j \<noteq> k \<longrightarrow> p_clients s' j = p_clients s j) \<and>
     n_opts (p_nsqd s') = n_opts (p_nsqd s) \<and> cmd_step (n_opts (p_nsqd s)) (p_clients s k) (p_clients s' k)"

lemma upd_client_simps [simp]:
  "p_nsqd (upd_client k f s) = p_nsqd s" "p_clients (upd_client k f s) k = f (p_clients s k)"
  "j \<noteq> k \<Longrightarrow> p_clients (upd_client k f s) j = p_clients s j"
  "p_clients (s\<lparr>p_nsqd := n\<rparr>) = p_clients s"
  "upd_client k g (upd_client k f s) = upd_client k (\<lambda>c. g (f c)) s"
  "upd_client k f (s\<lparr>p_nsqd := n\<rparr>) = (upd_client k f s)\<lparr>p_nsqd := n\<rparr>"
  by (simp_all add: upd_client_def)

lemma local_refl: "local_step k s s"
  by (simp add: local_step_def cmd_step_tame)

lemma local_client: "cmd_step (n_opts (p_nsqd s)) (p_clients s k) (f (p_clients s k)) \<Longrightarrow> local_step k s (upd_client k f s)"
  by (simp add: local_step_def)

lemma local_nsqd: "n_opts n = n_opts (p_nsqd s) \<Longrightarrow> local_step k s s' \<Longrightarrow> local_step k s (s'\<lparr>p_nsqd := n\<rparr>)"
  by (simp add: local_step_def)

lemma opts_with_topic [simp]: "n_opts (with_topic t x n) = n_opts n"
  by (simp add: with_topic_def)

lemma opts_set_channel [simp]: "n_opts (set_channel tc c n) = n_opts n"
  by (simp add: set_channel_def split: option.split)

lemma opts_GetTopic: "nsqd_GetTopic env t n = Some n' \<Longrightarrow> n_opts n' = n_opts n"
  by (auto simp: nsqd_GetTopic_def Let_def split: option.splits if_splits bind_splits)

lemma opts_sub_loop: "sub_loop x fuel k tn cn n = Some (e, n') \<Longrightarrow> n_opts n' = n_opts n"
proof (induction fuel arbitrary: n)
  case (Suc fuel)
  then show ?case
    by (auto simp: Let_def dest!: opts_GetTopic split: prod.splits option.splits if_splits bind_splits)
qed simp

section \<open>Every command is a step\<close>

lemma tame_counters:
  "tame c (FinishedMessage c)" "tame c (RequeuedMessage c)" "tame c (PublishedMessage t n c)"
  by (simp_all add: FinishedMessage_def RequeuedMessage_def PublishedMessage_def tryUpdateReadyState_def)

lemma step_SUB:
  assumes "proto_SUB x k params s = Some (r, s')"
  shows "local_step k s s'"
proof -
  let ?c = "p_clients s k"
  have step: "cmd_step opts ?c c1" if "tame ?c c1" for opts c1 using that by (rule cmd_step_tame)
  have sub: "cmd_step opts ?c (c1\<lparr>cl_State := stateSubscribed, cl_Channel := Some (tn, cn), cl_SubEventChan := z\<rparr>)"
    if "tame ?c c1" "cl_State ?c = stateInit" "IsValidTopicName tn" "IsValidChannelName cn" for opts c1 z tn cn
    using that conn_step.subscribe [of "(tn, cn)" opts "cl_Channel ?c" "cl_ReadyCount ?c"]
    by (auto simp: cmd_step_def tame_def view_def)
  show ?thesis using assms
    by (auto simp: proto_SUB_def Let_def local_refl
        intro!: local_client local_nsqd dest!: tame_CheckAuth opts_sub_loop
        split: if_splits option.splits bind_splits) (simp_all add: step sub)
qed

lemma step_RDY:
  assumes "proto_RDY k params s = Some (r, s')"
  shows "local_step k s s'"
proof -
  have "cmd_step opts c (SetReadyCount m c)"
    if "cl_State c = stateSubscribed" "0 \<le> sint m" "sint m \<le> o_MaxRdyCount opts" for opts m c
    using that conn_step.ready [of m opts "cl_Channel c" "cl_ReadyCount c"]
    by (auto simp: cmd_step_def view_def SetReadyCount_def tryUpdateReadyState_def)
  then show ?thesis using assms
    by (auto simp: proto_RDY_def Let_def local_refl intro!: local_client split: if_splits sum.splits)
qed

lemma step_on_channel:
  assumes "on_channel cmd code k params arity op fin s = Some (r, s')" "tame (p_clients s k) (fin (p_clients s k))"
  shows "local_step k s s'"
  using assms
  by (auto simp: on_channel_def Let_def local_refl intro!: local_nsqd local_client cmd_step_tame
      split: if_splits sum.splits option.splits bind_splits)

lemma step_REQ: "proto_REQ x k params s = Some (r, s') \<Longrightarrow> local_step k s s'"
  by (auto simp: proto_REQ_def Let_def local_refl tame_counters dest!: step_on_channel split: if_splits sum.splits)

lemma step_CLS: "proto_CLS k s = Some (r, s') \<Longrightarrow> local_step k s s'"
  using conn_step.close [of "n_opts (p_nsqd s)" "cl_Channel (p_clients s k)" "cl_ReadyCount (p_clients s k)"]
  by (auto simp: proto_CLS_def local_refl cmd_step_def view_def StartClose_def SetReadyCount_def
      tryUpdateReadyState_def intro!: local_client split: if_splits)

lemma step_publish:
  assumes "publish_one x cmd k tn body d s = Some (r, s')"
  shows "local_step k s s'"
proof -
  have step: "cmd_step opts c c1" if "tame c c1" for opts c c1 using that by (rule cmd_step_tame)
  have pub: "tame c (PublishedMessage t n c1)" if "tame c c1" for c c1 t n
    using tame_trans [OF that tame_counters(3)] .
  show ?thesis using assms
    by (auto simp: publish_one_def Let_def intro!: local_nsqd local_client step pub
        dest!: tame_CheckAuth opts_GetTopic split: option.splits bind_splits)
qed

lemma local_after_tame:
  assumes "local_step k (upd_client k (\<lambda>_. c1) s) s'" "tame (p_clients s k) c1"
  shows "local_step k s s'"
  using assms cmd_step_after_tame by (auto simp: local_step_def)

lemma read_body_tame: "read_body code cmd what limit b c = (r, c1) \<Longrightarrow> tame c c1"
  using tame_read_body [of c code cmd what limit b] by simp

lemma step_PUB:
  assumes "proto_PUB x k params s = Some (r, s')"
  shows "local_step k s s'"
  using assms
  by (auto simp: proto_PUB_def Let_def local_refl intro!: local_client cmd_step_tame
      dest!: step_publish dest: read_body_tame local_after_tame split: if_splits sum.splits prod.splits)

lemma step_DPUB:
  assumes "proto_DPUB x k params s = Some (r, s')"
  shows "local_step k s s'"
  using assms
  by (auto simp: proto_DPUB_def Let_def local_refl intro!: local_client cmd_step_tame
      dest!: step_publish dest: read_body_tame local_after_tame split: if_splits sum.splits prod.splits)

lemma readLen_tame: "readLen c = (r, c1) \<Longrightarrow> tame c c1"
  using tame_readLen [of c] by simp

lemma read_input_tame: "read_input n c = (r, c1) \<Longrightarrow> tame c c1"
  using tame_read_input [of c n] by simp

lemma read_messages_tame: "read_messages x mx i n cf = Some (r, c', f') \<Longrightarrow> tame (fst cf) c'"
proof (induction n arbitrary: i cf r c' f')
  case (Suc n)
  obtain r1 c1 where c1: "readLen (fst cf) = (r1, c1)" by fastforce
  note t1 = readLen_tame [OF c1]
  show ?case
  proof (cases r1)
    case (Inl e)
    then show ?thesis using Suc.prems c1 t1 by auto
  next
    case (Inr sz)
    obtain r2 c2 where c2: "read_input (nat sz) c1 = (r2, c2)" by fastforce
    have t2: "tame (fst cf) c2" by (rule tame_trans [OF t1 read_input_tame [OF c2]])
    have t3: "tame (fst cf) c3" if "read_messages x mx (i + 1) n (c2, f) = Some (q, c3, g)" for f q c3 g
      using tame_trans [OF t2] Suc.IH [OF that] by simp
    show ?thesis using Suc.prems c1 c2 Inr t1 t2 t3
      by (auto split: if_splits sum.splits bind_splits)
  qed
qed simp

lemma readMPUB_tame: "readMPUB x opts cf = Some (r, c', f') \<Longrightarrow> tame (fst cf) c'"
proof -
  assume a: "readMPUB x opts cf = Some (r, c', f')"
  obtain r1 c1 where c1: "readLen (fst cf) = (r1, c1)" by fastforce
  note t1 = readLen_tame [OF c1]
  have "tame (fst cf) c2" if "read_messages x mx i n (c1, f) = Some (q, c2, g)" for mx i n f q c2 g
    using tame_trans [OF t1] read_messages_tame [OF that] by simp
  then show ?thesis using a c1 t1 by (auto simp: readMPUB_def split: sum.splits if_splits)
qed

lemma step_MPUB:
  assumes "proto_MPUB x k params s = Some (r, s')"
  shows "local_step k s s'"
proof -
  let ?c = "p_clients s k"
  have step: "cmd_step opts ?c c1" if "tame ?c c1" for opts c1 using that by (rule cmd_step_tame)
  have pub: "tame ?c (PublishedMessage t n c1)" if "tame ?c c1" for c1 t n
    using tame_trans [OF that tame_counters(3)] .
  have rl: "tame ?c c2" if "tame ?c c1" "readLen c1 = (q, c2)" for c1 c2 q
    using tame_trans [OF that(1) readLen_tame [OF that(2)]] .
  have rm: "tame ?c c3" if "tame ?c c2" "readMPUB x o' (c2, f) = Some (q, c3, g)" for c2 c3 o' f q g
    using tame_trans [OF that(1)] readMPUB_tame [OF that(2)] by simp
  show ?thesis using assms
    by (auto simp: proto_MPUB_def Let_def local_refl intro!: local_nsqd local_client step
        dest!: tame_CheckAuth opts_GetTopic intro: pub rl rm
        split: if_splits option.splits sum.splits prod.splits bind_splits)
qed

lemma step_Exec:
  assumes "proto_Exec x k params s = Some (r, s')"
  shows "local_step k s s'"
proof -
  have wc: "local_step k s s1" if "with_client k s q = Some (r, s1)" "tame (p_clients s k) (snd q)" for q s1
    using that by (auto simp: with_client_def intro!: local_client cmd_step_tame)
  have fin: "local_step k s s1" if "proto_FIN k params s = Some (r, s1)" for s1
    using that step_on_channel tame_counters(1) unfolding proto_FIN_def by blast
  have tou: "local_step k s s1" if "proto_TOUCH x k params s = Some (r, s1)" for s1
    using that step_on_channel tame_refl unfolding proto_TOUCH_def by blast
  show ?thesis using assms unfolding proto_Exec_def Let_def
    by (auto simp: proto_NOP_def local_refl
        intro: wc [OF _ tame_IDENTIFY] wc [OF _ tame_AUTH] fin tou step_RDY step_REQ step_PUB step_MPUB step_DPUB
          step_SUB step_CLS
        split: if_splits option.splits)
qed

section \<open>Rounds of the loop\<close>

definition result_state :: "'b io_result \<Rightarrow> 'b proto" where
  "result_state r = (case r of Continue s \<Rightarrow> s | Stop e s \<Rightarrow> s)"

lemma local_trans_tame:
  "local_step k s s' \<Longrightarrow> tame (p_clients s' k) c1 \<Longrightarrow> local_step k s (upd_client k (\<lambda>_. c1) s')"
  by (auto simp: local_step_def cmd_step_def tame_def)

lemma answer_local: "local_step k s s1 \<Longrightarrow> local_step k s (result_state (answer k r s1))"
proof -
  assume l: "local_step k s s1"
  have "local_step k s (upd_client k (\<lambda>_. c1) s1)" if "proto_Send ft d (p_clients s1 k) = (e, c1)" for ft d e c1
    using local_trans_tame [OF l] tame_Send [of "p_clients s1 k" ft d] that by simp
  then show ?thesis using l
    by (auto simp: answer_def result_state_def Let_def split: sum.split option.split prod.split)
qed

text \<open>A round that goes on has used up at least the end of a line.\<close>

lemma ReadSlice_line:
  assumes "ReadSlice c = (Inr line, c1)"
  shows "view c1 = view c" "length (cl_Reader c1) < length (cl_Reader c)"
proof -
  let ?l = "takeWhile (\<lambda>b. b \<noteq> newline) (cl_Reader c)"
  have a: "c1 = c\<lparr>cl_Reader := drop (length ?l + 1) (cl_Reader c)\<rparr>" "length ?l \<noteq> length (cl_Reader c)"
    using assms by (auto simp: ReadSlice_def Let_def split: if_splits)
  then show "view c1 = view c" by (simp add: view_def)
  have "length ?l \<le> length (cl_Reader c)" by (rule length_takeWhile_le)
  then show "length (cl_Reader c1) < length (cl_Reader c)" using a by simp
qed

lemma io_step_continue:
  assumes "io_step x k s = Some (Continue s')"
  shows "local_step k s s'" "length (cl_Reader (p_clients s' k)) < length (cl_Reader (p_clients s k))"
proof -
  obtain line c1 where rs: "ReadSlice (p_clients s k) = (Inr line, c1)"
    using assms by (auto simp: io_step_def split: prod.splits sum.splits)
  let ?s1 = "upd_client k (\<lambda>_. c1) s"
  obtain r s2 where ex: "proto_Exec x k (split_bytes space (trim_cr line)) ?s1 = Some (r, s2)" "answer k r s2 = Continue s'"
    using assms rs by (auto simp: io_step_def split: bind_splits)
  have l: "local_step k ?s1 s'" using answer_local [OF step_Exec [OF ex(1)], of r] ex(2) by (simp add: result_state_def)
  have t: "tame (p_clients s k) c1" "length (cl_Reader c1) < length (cl_Reader (p_clients s k))"
    using ReadSlice_line [OF rs] by (simp_all add: tame_def)
  show "local_step k s s'" by (rule local_after_tame [OF l t(1)])
  show "length (cl_Reader (p_clients s' k)) < length (cl_Reader (p_clients s k))"
    using l t(2) by (simp add: local_step_def cmd_step_def)
qed

text \<open>Exactly \<open>n\<close> rounds that go on.\<close>

fun io_rounds :: "(nat \<Rightarrow> 'b pctx) \<Rightarrow> nat \<Rightarrow> nat \<Rightarrow> int \<Rightarrow> 'b proto \<Rightarrow> 'b proto option" where
  "io_rounds xs i 0 k s = Some s"
| "io_rounds xs i (Suc n) k s =
     (case io_step (xs i) k s of Some (Continue s1) \<Rightarrow> io_rounds xs (i + 1) n k s1 | _ \<Rightarrow> None)"

lemma io_rounds_end:
  "\<exists>n s'. n \<le> length (cl_Reader (p_clients s k)) \<and> io_rounds xs i n k s = Some s' \<and>
     (\<forall>s''. io_step (xs (i + n)) k s' \<noteq> Some (Continue s''))"
proof (induction "length (cl_Reader (p_clients s k))" arbitrary: s i rule: less_induct)
  case less
  show ?case
  proof (cases "\<exists>s1. io_step (xs i) k s = Some (Continue s1)")
    case True
    then obtain s1 where s1: "io_step (xs i) k s = Some (Continue s1)" by blast
    have l: "length (cl_Reader (p_clients s1 k)) < length (cl_Reader (p_clients s k))"
      using io_step_continue(2) [OF s1] .
    obtain n s' where "n \<le> length (cl_Reader (p_clients s1 k))" "io_rounds xs (i + 1) n k s1 = Some s'"
      "\<forall>s''. io_step (xs (i + 1 + n)) k s' \<noteq> Some (Continue s'')"
      using less [OF l, of "i + 1"] by blast
    then show ?thesis using s1 l by (intro exI [of _ "Suc n"] exI [of _ s']) simp
  next
    case False
    then show ?thesis by (intro exI [of _ 0] exI [of _ s]) simp
  qed
qed

lemma io_rounds_induct:
  assumes "io_rounds xs i n k s = Some s'" "P s"
    "\<And>s s'. P s \<Longrightarrow> local_step k s s' \<Longrightarrow> P s'"
  shows "P s'"
  using assms(1,2)
proof (induction n arbitrary: i s)
  case (Suc n)
  obtain s1 where s1: "io_step (xs i) k s = Some (Continue s1)" "io_rounds xs (i + 1) n k s1 = Some s'"
    using Suc.prems(1) by (auto split: option.splits io_result.splits)
  then show ?case using Suc.IH [OF s1(2)] assms(3) [OF Suc.prems(2) io_step_continue(1) [OF s1(1)]] by blast
qed simp

end
