(* ===== verification/Nsq_TopicProps.thy ===== *)
theory Nsq_TopicProps
  imports Nsq_Topic Nsq_ChannelRun
begin

text \<open>
  What a topic guarantees: publishing stores each message once, the pump gives every channel
  its own copy of it; and what the extra goroutine \<open>putMemoryToFile\<close> breaks.
\<close>

section \<open>Copies for every channel\<close>

lemma pump_copy_ident: "ident (pump_copy now i msg) = ident msg" "m_deferred (pump_copy now i msg) = m_deferred msg"
  "wf_Message (pump_copy now i msg) = wf_Message msg"
  by (simp_all add: pump_copy_def ident_def NewMessage_def zero_Message_def wf_Message_def)

context backend_fifo
begin

lemma pump_put_ok:
  assumes "ok c" "\<not> c_exitFlag c" "wf_Message m" "accepts c m" "m_ID m \<notin># image_mset fst (msgs_of c)"
  shows "\<exists>c'. pump_put ops now m c = Some c' \<and> ok c' \<and> \<not> c_exitFlag c' \<and>
    msgs_of c' = add_mset (ident m) (msgs_of c)"
proof (cases "m_deferred m = 0")
  case True
  obtain c' where c': "Channel_PutMessage ops m c = Some (None, c')" "ok c'"
    "msgs_of c' = add_mset (ident m) (msgs_of c)"
    using PutMessage_ok [OF assms(1,3,4,2)] by blast
  have "c_exitFlag c' = c_exitFlag c"
    using c'(1) by (auto simp: Channel_PutMessage_def alloc_msg_def Let_def dest!: exit_put
        split: if_splits option.splits bind_splits)
  then show ?thesis using True c' assms(2) by (simp add: pump_put_def)
next
  case False
  then show ?thesis using PutMessageDeferred_ok [OF assms(1,3,4,5), of now "m_deferred m"] assms(2)
    by (auto simp: pump_put_def)
qed

text \<open>A channel that is ready to take a message.\<close>

definition ready_for :: "Message \<Rightarrow> 'b Channel \<Rightarrow> bool" where
  "ready_for m c \<longleftrightarrow> ok c \<and> \<not> c_exitFlag c \<and> accepts c m \<and> m_ID m \<notin># image_mset fst (msgs_of c)"

theorem fanout_ok:
  assumes "wf_Message m" "distinct ns" "\<forall>n \<in> set ns. \<exists>c. map_of cm n = Some c \<and> ready_for m c"
  shows "\<exists>cm'. fanout ops now m i ns cm = Some cm' \<and>
    (\<forall>n. n \<notin> set ns \<longrightarrow> map_of cm' n = map_of cm n) \<and>
    (\<forall>n \<in> set ns. \<exists>c c'. map_of cm n = Some c \<and> map_of cm' n = Some c' \<and> ok c' \<and>
       msgs_of c' = add_mset (ident m) (msgs_of c))"
  using assms(2,3)
proof (induction ns arbitrary: i cm)
  case (Cons n ns)
  obtain c where c: "map_of cm n = Some c" "ready_for m c" using Cons.prems(2) by auto
  let ?m = "pump_copy now i m"
  have acc: "accepts c ?m" using c(2) accepts_ident [OF pump_copy_ident(1)] by (simp add: ready_for_def)
  have id: "m_ID ?m = m_ID m" using pump_copy_ident(1) [of now i m] by (simp add: ident_def)
  obtain c' where c': "pump_put ops now ?m c = Some c'" "ok c'" "msgs_of c' = add_mset (ident m) (msgs_of c)"
    using pump_put_ok [of c ?m now] c(2) acc assms(1) id pump_copy_ident [of now i m]
    by (auto simp: ready_for_def)
  let ?cm = "amap_put n c' cm"
  have "\<forall>k \<in> set ns. \<exists>c. map_of ?cm k = Some c \<and> ready_for m c"
    using Cons.prems by (auto simp: map_of_amap_put)
  then obtain cm' where cm': "fanout ops now m (i + 1) ns ?cm = Some cm'"
    "\<forall>k. k \<notin> set ns \<longrightarrow> map_of cm' k = map_of ?cm k"
    "\<forall>k \<in> set ns. \<exists>c c'. map_of ?cm k = Some c \<and> map_of cm' k = Some c' \<and> ok c' \<and>
       msgs_of c' = add_mset (ident m) (msgs_of c)"
    using Cons.IH [of ?cm "i + 1"] Cons.prems(1) by auto
  have n: "n \<notin> set ns" using Cons.prems(1) by simp
  have "map_of cm' n = Some c'" using cm'(2) n by (simp add: map_of_amap_put)
  moreover have "\<forall>k. k \<notin> set (n # ns) \<longrightarrow> map_of cm' k = map_of cm k"
    using cm'(2) by (simp add: map_of_amap_put)
  moreover have "\<forall>k \<in> set ns. \<exists>c c'. map_of cm k = Some c \<and> map_of cm' k = Some c' \<and> ok c' \<and>
       msgs_of c' = add_mset (ident m) (msgs_of c)"
    using cm'(3) n by (auto simp: map_of_amap_put split: if_splits)
  ultimately show ?case using c c' cm'(1) by auto
qed simp

end

section \<open>What a topic holds\<close>

definition topic_total :: "'b Topic \<Rightarrow> identity multiset" where
  "topic_total t = mset (map ident (t_memoryMsgChan t)) + mset (map disk_ident (disk_part disk_contents (t_backend t)))"

definition topic_ok :: "'b Topic \<Rightarrow> bool" where
  "topic_ok t \<longleftrightarrow> (case t_backend t of DummyBackend \<Rightarrow> False | Backend s \<Rightarrow> disk_inv s) \<and>
     length (t_memoryMsgChan t) \<le> t_memCap t"

definition topic_accepts :: "'b Topic \<Rightarrow> Message \<Rightarrow> bool" where
  "topic_accepts t m = (case t_backend t of DummyBackend \<Rightarrow> False | Backend s \<Rightarrow> disk_accepts s (encodeMessage m))"

lemma Topic_put_ok:
  assumes "topic_ok t" "wf_Message m" "topic_accepts t m"
  shows "\<exists>mem bk ca. Topic_put m t = Some (None, t\<lparr>t_memoryMsgChan := mem, t_backend := bk, t_calls := ca\<rparr>) \<and>
    topic_ok (t\<lparr>t_memoryMsgChan := mem, t_backend := bk, t_calls := ca\<rparr>) \<and>
    topic_accepts (t\<lparr>t_memoryMsgChan := mem, t_backend := bk, t_calls := ca\<rparr>) = topic_accepts t \<and>
    topic_total (t\<lparr>t_memoryMsgChan := mem, t_backend := bk, t_calls := ca\<rparr>) = add_mset (ident m) (topic_total t)"
proof (cases "length (t_memoryMsgChan t) < t_memCap t")
  case True
  let ?t = "t\<lparr>t_memoryMsgChan := t_memoryMsgChan t @ [m], t_backend := t_backend t, t_calls := t_calls t\<rparr>"
  have "Topic_put m t = Some (None, ?t)" using True by (simp add: Topic_put_def)
  moreover have "topic_ok ?t" "topic_accepts ?t = topic_accepts t" "topic_total ?t = add_mset (ident m) (topic_total t)"
    using assms(1) True by (simp_all add: topic_ok_def topic_accepts_def topic_total_def fun_eq_iff)
  ultimately show ?thesis by blast
next
  case False
  obtain s where s: "t_backend t = Backend s" "disk_inv s" "disk_accepts s (encodeMessage m)"
    using assms(1,3) by (cases "t_backend t") (auto simp: topic_ok_def topic_accepts_def)
  obtain s' where s': "writeMessageToBackend disk_ops m (Backend s) = Some (None, Backend s')" "disk_inv s'"
    "disk_contents s' = disk_contents s @ [encodeMessage m]" "disk_accepts s' = disk_accepts s"
    using disk.write_law [OF s(2,3)] by blast
  let ?t = "t\<lparr>t_memoryMsgChan := t_memoryMsgChan t, t_backend := Backend s', t_calls := t_calls t @ [CallSetHealth None]\<rparr>"
  have "Topic_put m t = Some (None, ?t)" using False s(1) s'(1) by (simp add: Topic_put_def)
  moreover have "topic_ok ?t" "topic_accepts ?t = topic_accepts t" "topic_total ?t = add_mset (ident m) (topic_total t)"
    using assms s s' by (simp_all add: topic_ok_def topic_accepts_def topic_total_def disk_part_def fun_eq_iff)
  ultimately show ?thesis by blast
qed

lemma put_messages_ok:
  assumes "topic_ok t" "\<forall>m \<in> set ms. wf_Message m \<and> topic_accepts t m"
  shows "\<exists>t'. put_messages i n ms t = Some (None, t') \<and> topic_ok t' \<and>
    topic_total t' = topic_total t + mset (map ident ms) \<and>
    t_messageCount t' = t_messageCount t + of_nat (i + length ms) \<and>
    t_messageBytes t' = t_messageBytes t + of_nat (n + sum_list (map (\<lambda>m. length (m_Body m)) ms))"
  using assms
proof (induction ms arbitrary: i n t)
  case Nil
  then show ?case by (simp add: topic_ok_def topic_total_def)
next
  case (Cons m ms)
  obtain mem bk ca where p: "Topic_put m t = Some (None, t\<lparr>t_memoryMsgChan := mem, t_backend := bk, t_calls := ca\<rparr>)"
    "topic_ok (t\<lparr>t_memoryMsgChan := mem, t_backend := bk, t_calls := ca\<rparr>)"
    "topic_accepts (t\<lparr>t_memoryMsgChan := mem, t_backend := bk, t_calls := ca\<rparr>) = topic_accepts t"
    "topic_total (t\<lparr>t_memoryMsgChan := mem, t_backend := bk, t_calls := ca\<rparr>) = add_mset (ident m) (topic_total t)"
    using Topic_put_ok [OF Cons.prems(1)] Cons.prems(2) by (metis list.set_intros(1))
  let ?t = "t\<lparr>t_memoryMsgChan := mem, t_backend := bk, t_calls := ca\<rparr>"
  have "\<forall>m \<in> set ms. wf_Message m \<and> topic_accepts ?t m" using Cons.prems(2) p(3) by simp
  from Cons.IH [OF p(2) this, of "i + 1" "n + length (m_Body m)"] p(1,4) show ?case
    by (auto simp: algebra_simps)
qed

section \<open>The goroutine that writes memory to file\<close>

text \<open>The state of \<open>memoryBackend\<close> as \<open>NewTopic\<close> leaves it: no logging function, nothing open.\<close>

definition silent_queue :: "ioState \<Rightarrow> bool" where
  "silent_queue s \<longleftrightarrow> \<not> d_logf (io_dq s) \<and> d_readFile (io_dq s) = None \<and> d_writeFile (io_dq s) = None \<and>
     dk_faults (d_disk (io_dq s)) = [] \<and> \<not> d_exitFlag (io_dq s)"

lemma silent_sync:
  assumes "silent_queue s" "ioLoop_sync s = Some s'"
  shows "silent_queue s'"
  using assms by (auto simp: ioLoop_sync_def silent_queue_def dq_sync_ok with_meta_def Let_def split: if_splits)

lemma silent_readOne:
  assumes "silent_queue s"
  shows "dq_readOne (io_dq s) = None \<or> (\<exists>e. dq_readOne (io_dq s) = Some (Inl e, io_dq s))"
  using assms
  by (auto simp: silent_queue_def dq_readOne_def open_reader_def dq_logf_def split: option.split)

lemma silent_top:
  assumes "silent_queue s" "ioLoop_top s = Some s'"
  shows "silent_queue s' \<and> io_pc s' = AtSelect \<and> \<not> io_r s' \<or> silent_queue s' \<and> d_nextReadPos (io_dq s') \<noteq> d_readPos (io_dq s')"
proof -
  obtain s1 where s1: "ioLoop_sync s = Some s1" "ioLoop_read s1 = Some s'"
    using assms(2) by (auto simp: ioLoop_top_def bind_eq_Some_conv)
  have q: "silent_queue s1" using silent_sync [OF assms(1) s1(1)] .
  have l: "dq_logf (io_dq s1) = None" using q by (simp add: silent_queue_def dq_logf_def)
  show ?thesis
  proof (cases "has_data (io_dq s1)")
    case False
    then show ?thesis using s1(2) q by (auto simp: ioLoop_read_def silent_queue_def)
  next
    case True
    show ?thesis
    proof (cases "d_nextReadPos (io_dq s1) = d_readPos (io_dq s1)")
      case True
      then show ?thesis using s1(2) silent_readOne [OF q] l \<open>has_data (io_dq s1)\<close>
        by (auto simp: ioLoop_read_def)
    next
      case False
      then show ?thesis using s1(2) True q by (auto simp: ioLoop_read_def silent_queue_def)
    qed
  qed
qed

lemma filer_panics:
  assumes "silent_queue (t_memoryBackend t)" "t_memoryMsgChan t \<noteq> []"
  shows "Topic_putMemoryToFile t = None"
proof (cases "run_top 1 (t_memoryBackend t)")
  case None
  then show ?thesis using assms(2) by (cases "t_memoryMsgChan t") (simp_all add: Topic_putMemoryToFile_def del: run_top.simps)
next
  case (Some mb)
  then have "ioLoop_top (t_memoryBackend t) = Some mb" by (auto simp: bind_eq_Some_conv split: if_splits)
  then have q: "silent_queue mb" using silent_top [OF assms(1)] by blast
  have "dq_writeOne d (io_dq mb) = None" for d
    using q by (intro nil_logf_panics) (simp_all add: silent_queue_def)
  then have "bq_Put disk_ops d mb = None" for d
    using q by (simp add: disk_ops_def again_def dq_Put_def silent_queue_def)
  then show ?thesis using assms(2) Some
    by (cases "t_memoryMsgChan t")
      (simp_all add: Topic_putMemoryToFile_def writeMessageToBackend_def Message_WriteTo_buffer buffer_def
        del: run_top.simps)
qed

end
