(* ===== verification/Nsq_NsqdProps.thy ===== *)
theory Nsq_NsqdProps
  imports Nsq_Nsqd Nsq_TopicProps
begin

text \<open>
  What the daemon guarantees: the pool of scan workers reaches its ideal size, a scan pass
  picks distinct channels, and a restart restores the persisted topics and channels.
\<close>

section \<open>The worker pool\<close>

lemma resize_loop_reaches:
  "snd (resize_loop ideal pool) = ideal \<and> int (length (fst (resize_loop ideal pool))) = \<bar>ideal - pool\<bar>"
proof (induction ideal pool rule: resize_loop.induct)
  case (1 ideal pool)
  show ?case
  proof (cases "ideal = pool")
    case True
    then show ?thesis by (simp add: resize_loop.simps)
  next
    case False
    then show ?thesis using 1
      by (subst (1 2) resize_loop.simps) (auto simp: split_beta Let_def)
  qed
qed

lemma idealPoolSize_bounds:
  "1 \<le> o_QueueScanWorkerPoolMax opts \<Longrightarrow>
     1 \<le> idealPoolSize opts num \<and> idealPoolSize opts num \<le> o_QueueScanWorkerPoolMax opts \<and>
     (4 \<le> num \<longrightarrow> idealPoolSize opts num \<le> num div 4)"
  by (auto simp: idealPoolSize_def Let_def)

section \<open>Random selections\<close>

lemma uniq_loop_perm:
  assumes "i \<le> quantity" "quantity \<le> length xs" "maxval = length xs - i"
  shows "mset (uniq_loop rs i quantity maxval xs) = mset xs"
  using assms
proof (induction rs arbitrary: i maxval xs)
  case Nil
  then show ?case by (simp add: uniq_loop.simps)
next
  case (Cons r rs)
  show ?case
  proof (cases "i < quantity")
    case True
    let ?j = "r mod maxval + i"
    have m: "0 < maxval" using True Cons.prems by simp
    then have "r mod maxval < maxval" by simp
    then have j: "?j < length xs" using Cons.prems True by linarith
    have i: "i < length xs" using True Cons.prems by simp
    have "mset (uniq_loop rs (i + 1) quantity (maxval - 1) (swap_list xs i ?j)) = mset (swap_list xs i ?j)"
      using Cons.prems True by (intro Cons.IH) simp_all
    then show ?thesis using True i j by (subst uniq_loop.simps) (simp add: Let_def)
  next
    case False
    then show ?thesis by (simp add: uniq_loop.simps)
  qed
qed

lemma UniqRands_ok:
  "distinct (UniqRands rs quantity maxval) \<and> set (UniqRands rs quantity maxval) \<subseteq> {0..<maxval} \<and>
   length (UniqRands rs quantity maxval) = min quantity maxval"
proof -
  let ?q = "if maxval < quantity then maxval else quantity"
  let ?xs = "uniq_loop rs 0 ?q maxval [0..<maxval]"
  have m: "mset ?xs = mset [0..<maxval]" by (rule uniq_loop_perm) auto
  have d: "distinct ?xs" using mset_eq_imp_distinct_iff [OF m] by simp
  have s: "set ?xs = {0..<maxval}" using mset_eq_setD [OF m] by simp
  have l: "length ?xs = maxval" using mset_eq_length [OF m] by simp
  have u: "UniqRands rs quantity maxval = take ?q ?xs" unfolding UniqRands_def Let_def ..
  have "set (take ?q ?xs) \<subseteq> {0..<maxval}" unfolding s [symmetric] by (rule set_take_subset)
  moreover have "length (take ?q ?xs) = min quantity maxval" unfolding length_take l by simp
  ultimately show ?thesis unfolding u using d by (simp only: distinct_take simp_thms)
qed

section \<open>Metadata\<close>

definition restored :: "'b env \<Rightarrow> Options \<Rightarrow> string \<Rightarrow> metaChannel \<Rightarrow> string \<times> 'b Channel" where
  "restored env opts tn mc =
     (mc_Name mc, (NewChannel opts tn (mc_Name mc) (e_open env (getBackendName tn (mc_Name mc))))\<lparr>c_paused := mc_Paused mc\<rparr>)"

lemma NewChannel_fields [simp]:
  "c_name (NewChannel opts tn cn b) = cn" "c_paused (NewChannel opts tn cn b) = False"
  "c_ephemeral (NewChannel opts tn cn b) = HasSuffix cn ''#ephemeral''"
  "c_topicName (NewChannel opts tn cn b) = tn"
  by (simp_all add: NewChannel_def Channel_initPQ_def Let_def)

lemma load_channel_new:
  assumes "t_pump t = PumpWaiting" "mc_Name mc \<notin> fst ` set (t_channelMap t)" "IsValidChannelName (mc_Name mc)"
  shows "load_channel env opts mc t = t\<lparr>t_channelMap := t_channelMap t @ [restored env opts (t_name t) mc]\<rparr>"
proof -
  let ?c = "NewChannel opts (t_name t) (mc_Name mc) (e_open env (getBackendName (t_name t) (mc_Name mc)))"
  have none: "map_of (t_channelMap t) (mc_Name mc) = None" using assms(2) by (simp add: map_of_eq_None_iff)
  have g: "get_channel env opts (mc_Name mc) t = t\<lparr>t_channelMap := t_channelMap t @ [(mc_Name mc, ?c)]\<rparr>"
    using assms none
    by (simp add: get_channel_def Topic_GetChannel_def getOrCreateChannel_def pump_refresh_def amap_put_new Let_def)
  have put: "amap_put k v (xs @ [(k, w)]) = xs @ [(k, v)]" if "k \<notin> fst ` set xs" for k v w and xs :: "(string \<times> 'a Channel) list"
  proof -
    have "map (\<lambda>(k', v'). if k' = k then (k, v) else (k', v')) xs = xs"
      using that by (intro map_idI) force
    then show ?thesis by (simp add: amap_put_def)
  qed
  have u: "?c\<lparr>c_paused := False\<rparr> = ?c" by (simp add: NewChannel_def Channel_initPQ_def Let_def)
  show ?thesis
    using assms none put [OF assms(2)] u
    by (cases "mc_Paused mc") (simp_all add: load_channel_def g restored_def Let_def map_add_def)
qed

lemma load_channels:
  assumes "t_pump t = PumpWaiting" "distinct (map mc_Name mcs)"
    "\<forall>mc \<in> set mcs. mc_Name mc \<notin> fst ` set (t_channelMap t) \<and> IsValidChannelName (mc_Name mc)"
  shows "fold (load_channel env opts) mcs t =
    t\<lparr>t_channelMap := t_channelMap t @ map (restored env opts (t_name t)) mcs\<rparr>"
  using assms
proof (induction mcs arbitrary: t)
  case (Cons mc mcs)
  let ?t = "t\<lparr>t_channelMap := t_channelMap t @ [restored env opts (t_name t) mc]\<rparr>"
  have "load_channel env opts mc t = ?t" using Cons.prems by (intro load_channel_new) simp_all
  moreover have "fold (load_channel env opts) mcs ?t =
      ?t\<lparr>t_channelMap := t_channelMap ?t @ map (restored env opts (t_name ?t)) mcs\<rparr>"
    using Cons.prems by (intro Cons.IH) (auto simp: restored_def, metis imageI)
  ultimately show ?case by simp
qed simp

lemma persist_restored:
  assumes "\<forall>mc \<in> set mcs. \<not> HasSuffix (mc_Name mc) ''#ephemeral''"
  shows "persist_channels (map (restored env opts tn) mcs) = mcs"
  using assms
  by (induction mcs) (auto simp: persist_channels_def restored_def Channel_IsPaused_def)

lemma NewTopic_fields:
  assumes "NewTopic opts k name D = Some t"
  shows "t_name t = name \<and> t_pump t = PumpWaiting \<and> t_channelMap t = [] \<and> \<not> t_paused t \<and>
    t_ephemeral t = HasSuffix name ''#ephemeral''"
  using assms by (auto simp: NewTopic_def Let_def bind_eq_Some_conv split: if_splits)

definition valid_meta :: "metaTopic \<Rightarrow> bool" where
  "valid_meta mt \<longleftrightarrow> IsValidTopicName (mt_Name mt) \<and> \<not> HasSuffix (mt_Name mt) ''#ephemeral'' \<and>
     distinct (map mc_Name (mt_Channels mt)) \<and>
     (\<forall>mc \<in> set (mt_Channels mt). IsValidChannelName (mc_Name mc) \<and> \<not> HasSuffix (mc_Name mc) ''#ephemeral'')"

text \<open>Every topic's disk queue opens.\<close>

definition opens :: "'b env \<Rightarrow> Options \<Rightarrow> bool" where
  "opens env opts \<longleftrightarrow>
     (\<forall>name. (NewTopic opts (e_fuel env) name (e_disk env name) :: 'b Topic option) \<noteq> None)"

lemma load_topic_new:
  fixes env :: "'b env"
  assumes "valid_meta mt" "mt_Name mt \<notin> fst ` set (n_topicMap n)" "n_isLoading n"
    "opens env (n_opts n)"
  shows "\<exists>t. load_topics env (mt # mts) n =
      load_topics env mts (n\<lparr>n_topicMap := n_topicMap n @ [(mt_Name mt, t)]\<rparr>) \<and>
    persist_topics [(mt_Name mt, t)] = [mt]"
proof -
  let ?k = "mt_Name mt"
  obtain t :: "'b Topic" where t: "NewTopic (n_opts n) (e_fuel env) ?k (e_disk env ?k) = Some t"
    using assms(4) [unfolded opens_def, THEN spec, of ?k] by blast
  note f = NewTopic_fields [OF t]
  let ?t1 = "if mt_Paused mt then snd (Topic_Pause t) else t"
  let ?t2 = "fold (load_channel env (n_opts n)) (mt_Channels mt) ?t1"
  have t1: "t_pump ?t1 = PumpWaiting" "t_channelMap ?t1 = []" "t_name ?t1 = ?k" "t_paused ?t1 = mt_Paused mt"
    "t_ephemeral ?t1 = False"
    using f assms(1) by (simp_all add: Topic_Pause_def Topic_doPause_def pump_pause_def valid_meta_def)
  have t2: "?t2 = ?t1\<lparr>t_channelMap := map (restored env (n_opts n) ?k) (mt_Channels mt)\<rparr>"
    using load_channels [OF t1(1), of "mt_Channels mt" env "n_opts n"] assms(1) t1(2,3) by (simp add: valid_meta_def)
  have none: "map_of (n_topicMap n) ?k = None" using assms(2) by (simp only: map_of_eq_None_iff not_False_eq_True)
  have g: "nsqd_GetTopic env ?k n = Some (with_topic ?k t n)"
    using assms(3) t by (simp add: nsqd_GetTopic_def none)
  have m: "map_of (n_topicMap (with_topic ?k t n)) ?k = Some t"
    by (simp add: with_topic_def map_of_amap_put)
  have put: "amap_put ?k v (amap_put ?k w (n_topicMap n)) = n_topicMap n @ [(?k, v)]" for v w
  proof -
    have "map (\<lambda>(k', v'). if k' = ?k then (?k, v) else (k', v')) (n_topicMap n) = n_topicMap n"
      using assms(2) by (intro map_idI) force
    then show ?thesis using assms(2) by (simp add: amap_put_new) (simp add: amap_put_def)
  qed
  have "load_topics env (mt # mts) n =
      load_topics env mts (n\<lparr>n_topicMap := n_topicMap n @ [(?k, Topic_Start ?t2)]\<rparr>)"
    using assms(1) g m put by (simp add: valid_meta_def with_topic_def Let_def)
  moreover have "persist_topics [(?k, Topic_Start ?t2)] = [mt]"
    using persist_restored [of "mt_Channels mt" env "n_opts n" ?k] assms(1) t1
    by (simp add: t2 persist_topics_def Topic_Start_def Topic_IsPaused_def valid_meta_def)
  ultimately show ?thesis by blast
qed

lemma load_topics_restores:
  assumes "list_all valid_meta mts" "distinct (map mt_Name mts)"
    "set (map mt_Name mts) \<inter> fst ` set (n_topicMap n) = {}" "n_isLoading n"
    "opens env (n_opts n)"
  shows "\<exists>n'. load_topics env mts n = Some n' \<and>
    persist_topics (n_topicMap n') = persist_topics (n_topicMap n) @ mts"
  using assms
proof (induction mts arbitrary: n)
  case (Cons mt mts)
  obtain t where t: "load_topics env (mt # mts) n =
      load_topics env mts (n\<lparr>n_topicMap := n_topicMap n @ [(mt_Name mt, t)]\<rparr>)"
    "persist_topics [(mt_Name mt, t)] = [mt]"
    using load_topic_new [of mt n env mts] Cons.prems by auto
  let ?n = "n\<lparr>n_topicMap := n_topicMap n @ [(mt_Name mt, t)]\<rparr>"
  obtain n' where "load_topics env mts ?n = Some n'"
    "persist_topics (n_topicMap n') = persist_topics (n_topicMap ?n) @ mts"
    using Cons.IH [of ?n] Cons.prems by auto
  moreover have "persist_topics (n_topicMap ?n) = persist_topics (n_topicMap n) @ [mt]"
    using t(2) by (simp add: persist_topics_def)
  ultimately show ?case using t(1) by auto
qed simp

end
