(* ===== verification/Nsq_DaemonProps.thy ===== *)
theory Nsq_DaemonProps
  imports Nsq_ChannelProps Nsq_NsqdProps
begin

text \<open>
  The guarantees of topics (\<open>nsqd/topic.go\<close>) and of the daemon (\<open>nsqd/nsqd.go\<close>): a published
  message reaches every channel once, publishing is counted, a restart restores topics and channels,
  the scan pool has its size; and what the goroutine \<open>putMemoryToFile\<close> does to a topic.
\<close>

section \<open>Sample topic\<close>

definition sample_opts :: Options where
  "sample_opts = (NewOptions 1)\<lparr>o_MemQueueSize := 1, o_MaxMsgSize := 1000\<rparr>"

definition sample_topic :: "ioState Topic" where
  "sample_topic = the (NewTopic sample_opts 1 ''t'' fresh_disk)"

lemma fresh_queue_new:
  "\<exists>d. dq_New mb mn mx se True fresh_disk = Some d \<and> fresh_queue mb mn mx se = run_top 1 (io_start d)"
  by (simp add: fresh_queue_def dq_New_def dq_retrieveMetaData_def fresh_disk_def next_fault_def Let_def)

lemma NewTopic_fresh:
  assumes "\<not> HasSuffix name ''#ephemeral''" "o_MaxMsgSize opts < 2 ^ 30"
  shows "\<exists>t. NewTopic opts 1 name fresh_disk = Some t \<and> t_memCap t = nat (o_MemQueueSize opts) \<and>
    t_memoryMsgChan t = [] \<and> t_filer t = FilerWaiting \<and> \<not> t_exitFlag t \<and> topic_ok t \<and> topic_total t = {#} \<and>
    (\<forall>m. wf_Message m \<and> int (length (m_Body m)) \<le> o_MaxMsgSize opts \<longrightarrow> topic_accepts t m)"
proof -
  let ?mn = "int minValidMsgLength" and ?mx = "o_MaxMsgSize opts + int minValidMsgLength"
  let ?mb = "o_MaxBytesPerFile opts" and ?se = "o_SyncEvery opts"
  have mv: "minValidMsgLength = 26" by (simp add: minValidMsgLength_def MsgIDLength_def)
  obtain s where s: "fresh_queue ?mb ?mn ?mx ?se = Some s" "io_rel s []" "io_pc s = AtSelect"
    "\<not> d_exitFlag (io_dq s)" "ok_size (io_dq s) = size_ok ?mn ?mx"
    using fresh_queue_ok [of ?mn ?mx ?mb ?se] assms(2) mv by auto
  obtain d where d: "dq_New ?mb ?mn ?mx ?se True fresh_disk = Some d" "run_top 1 (io_start d) = Some s"
    using fresh_queue_new [of ?mb ?mn ?mx ?se] s(1) by auto
  obtain d' where d': "dq_New ?mb ?mn ?mx ?se False fresh_disk = Some d'"
    by (simp add: dq_New_def dq_retrieveMetaData_def fresh_disk_def next_fault_def Let_def)
  have di: "disk_inv s" unfolding disk_inv_iff using s by blast
  have dc: "disk_contents s = []" by (rule disk_contents_eq [OF s(2)])
  have "topic_accepts t m" if "t_backend t = Backend s" "wf_Message m" "int (length (m_Body m)) \<le> o_MaxMsgSize opts"
    for t :: "'a Topic" and m
    using that length_encodeMessage [OF that(2)] s(5)
    by (simp add: topic_accepts_def disk_accepts_def size_ok_def)
  then show ?thesis using assms(1) d d' di dc
    by (auto simp: NewTopic_def topic_queue_def topic_ok_def topic_total_def disk_part_def Let_def
        simp del: run_top.simps)
qed

section \<open>Topics\<close>



text \<open>\<open>PutMessages\<close> on a topic that is not exiting stores every message of the batch, in
  memory or, when the memory queue is full, on disk; it reports no error and adds the number of
  messages and of body bytes to the counters.\<close>

theorem put_messages_stores_all:
  assumes "topic_ok t" "\<not> t_exitFlag t" "\<forall>m \<in> set msgs. wf_Message m \<and> topic_accepts t m"
  shows "\<exists>t'. Topic_PutMessages msgs t = Some (None, t') \<and>
    topic_total t' = topic_total t + mset (map ident msgs) \<and>
    t_messageCount t' = t_messageCount t + of_nat (length msgs) \<and>
    t_messageBytes t' = t_messageBytes t + of_nat (sum_list (map (\<lambda>m. length (m_Body m)) msgs))"
  using put_messages_ok [OF assms(1,3), of 0 0] assms(2) by (auto simp: Topic_PutMessages_def)

theorem put_messages_stores_all_witness:
  "\<exists>t'. Topic_PutMessages [sample_msg, sample_msg\<lparr>m_Body := [1]\<rparr>] sample_topic = Some (None, t') \<and>
     topic_total t' = {#ident sample_msg, ident (sample_msg\<lparr>m_Body := [1]\<rparr>)#}"
proof -
  obtain t :: "ioState Topic" where t: "NewTopic sample_opts 1 ''t'' fresh_disk = Some t" "\<not> t_exitFlag t"
    "topic_ok t" "topic_total t = {#}"
    "\<forall>m. wf_Message m \<and> int (length (m_Body m)) \<le> o_MaxMsgSize sample_opts \<longrightarrow> topic_accepts t m"
    using NewTopic_fresh [of "''t''" sample_opts] by (auto simp: HasSuffix_def sample_opts_def)
  have "sample_topic = t" using t(1) by (simp add: sample_topic_def)
  moreover have "\<forall>m \<in> set [sample_msg, sample_msg\<lparr>m_Body := [1]\<rparr>]. wf_Message m \<and> topic_accepts t m"
    using t(5) sample_wf by (auto simp: wf_Message_def sample_opts_def sample_msg_def NewMessage_def)
  ultimately show ?thesis using put_messages_stores_all [OF t(3,2)] t(4) by fastforce
qed

text \<open>C38. Closing or deleting a topic never returns while \<open>putMemoryToFile\<close> has not received
  its message: with an empty memory queue the exit waits for that goroutine for ever, and with a message in
  it the goroutine panics, because \<open>memoryBackend\<close> has no logging function and the first write
  to it opens a file, which is logged.\<close>

theorem topic_exit_never_returns:
  assumes "NewTopic opts n name D = Some t0" "dk_faults D = []"
    "t_memoryBackend t = t_memoryBackend t0" "t_filer t = t_filer t0" "\<not> t_exitFlag t"
  shows "Topic_exit ops opts deleted t cs = (if t_memoryMsgChan t = [] then Blocks else Panics)"
proof -
  have f: "t_filer t = FilerWaiting" "silent_queue (t_memoryBackend t)"
    using assms
    by (auto simp: NewTopic_def topic_queue_def silent_queue_def io_start_def dq_New_def dq_retrieveMetaData_def
        next_fault_def dq_logf_def bind_eq_Some_conv Let_def split: option.splits if_splits)
  let ?t = "t\<lparr>t_exitFlag := True, t_pump := PumpExited,
    t_calls := (if deleted then t_calls t @ [CallNotify] else t_calls t)\<rparr>"
  have "Topic_putMemoryToFile ?t = None" if "t_memoryMsgChan t \<noteq> []"
    using that f(2) by (intro filer_panics) simp_all
  then show ?thesis using assms(5) f(1) by (simp add: Topic_exit_def Topic_wait_def)
qed

theorem topic_exit_never_returns_witness:
  "Topic_exit disk_ops sample_opts False sample_topic sample_client = Blocks \<and>
   Topic_exit disk_ops sample_opts False (sample_topic\<lparr>t_memoryMsgChan := [sample_msg]\<rparr>) sample_client = Panics"
proof -
  obtain t :: "ioState Topic" where t: "NewTopic sample_opts 1 ''t'' fresh_disk = Some t" "\<not> t_exitFlag t"
    "t_memoryMsgChan t = []"
    using NewTopic_fresh [of "''t''" sample_opts] by (auto simp: HasSuffix_def sample_opts_def)
  have "sample_topic = t" using t(1) by (simp add: sample_topic_def)
  moreover have "dk_faults fresh_disk = []" by (simp add: fresh_disk_def)
  ultimately show ?thesis
    using topic_exit_never_returns [OF t(1), of t disk_ops False sample_client]
      topic_exit_never_returns [OF t(1), of "t\<lparr>t_memoryMsgChan := [sample_msg]\<rparr>" disk_ops False sample_client] t(2,3)
    by simp
qed

section \<open>The daemon\<close>

text \<open>C37. What \<open>PersistMetadata\<close> wrote, \<open>LoadMetadata\<close> restores in a daemon started later on
  the same file: the same topics with the same channels, in order, paused exactly if they were paused. Ephemeral
  ones are neither written nor restored.\<close>

theorem metadata_roundtrip:
  fixes env :: "'b env" and n :: "'b NSQD" and n0 :: "'b NSQD"
  assumes "list_all valid_meta (persist_topics (n_topicMap n))"
    "distinct (map mt_Name (persist_topics (n_topicMap n)))"
    "n_file n0 = n_file (snd (nsqd_PersistMetadata None n))" "n_topicMap n0 = []" "opens env (n_opts n0)"
  shows "\<exists>n'. nsqd_LoadMetadata env n0 = Some (None, n') \<and> \<not> n_isLoading n' \<and>
    persist_topics (n_topicMap n') = persist_topics (n_topicMap n)"
proof -
  let ?n = "n0\<lparr>n_isLoading := True\<rparr>"
  obtain n' where n': "load_topics env (persist_topics (n_topicMap n)) ?n = Some n'"
    "persist_topics (n_topicMap n') = persist_topics (n_topicMap ?n) @ persist_topics (n_topicMap n)"
    using load_topics_restores [OF assms(1,2), of ?n env] assms(4,5) by auto
  have "persist_topics (n_topicMap ?n) = []" using assms(4) by (simp add: persist_topics_def)
  then show ?thesis using n' assms(3) by (simp add: nsqd_LoadMetadata_def nsqd_PersistMetadata_def)
qed

definition sample_env :: "ioState env" where
  "sample_env = \<lparr>e_ops = disk_ops, e_open = (\<lambda>_. sample_queue), e_disk = (\<lambda>_. fresh_disk), e_fuel = 1,
     e_lookup = (\<lambda>_. (None, []))\<rparr>"

definition sample_nsqd :: "ioState NSQD" where
  "sample_nsqd = \<lparr>n_clientIDSequence = 0, n_opts = sample_opts, n_isLoading = False, n_errValue = None,
     n_topicMap = [], n_clients = [], n_lookupdHTTPAddrs = [], n_tlsConfig = False, n_poolSize = 0,
     n_file = MetaMissing\<rparr>"

lemma opens_sample: "opens sample_env sample_opts"
proof (unfold opens_def, intro allI)
  fix name
  show "(NewTopic sample_opts (e_fuel sample_env) name (e_disk sample_env name) :: ioState Topic option) \<noteq> None"
  proof (cases "HasSuffix name ''#ephemeral''")
    case True
    then show ?thesis
      by (simp add: sample_env_def NewTopic_def topic_queue_def dq_New_def dq_retrieveMetaData_def fresh_disk_def
          next_fault_def Let_def)
  next
    case False
    then show ?thesis using NewTopic_fresh [of name sample_opts] by (auto simp: sample_env_def sample_opts_def)
  qed
qed

definition sample_meta :: "metaTopic list" where
  "sample_meta = [\<lparr>mt_Name = ''t'', mt_Paused = True, mt_Channels = [\<lparr>mc_Name = ''ch'', mc_Paused = True\<rparr>]\<rparr>]"

lemma sample_meta_valid: "list_all valid_meta sample_meta" "distinct (map mt_Name sample_meta)"
  by (simp_all add: sample_meta_def valid_meta_def) code_simp

theorem metadata_roundtrip_witness:
  "\<exists>n'. nsqd_LoadMetadata sample_env (sample_nsqd\<lparr>n_file := Meta sample_meta\<rparr>) = Some (None, n') \<and>
     persist_topics (n_topicMap n') = sample_meta"
proof -
  let ?c = "(NewChannel sample_opts ''t'' ''ch'' sample_queue)\<lparr>c_paused := True\<rparr>"
  let ?t = "sample_topic\<lparr>t_name := ''t'', t_paused := True, t_ephemeral := False, t_channelMap := [(''ch'', ?c)]\<rparr>"
  let ?n = "sample_nsqd\<lparr>n_topicMap := [(''t'', ?t)]\<rparr>" and ?new = "sample_nsqd\<lparr>n_file := Meta sample_meta\<rparr>"
  have p: "persist_topics (n_topicMap ?n) = sample_meta"
    by (simp add: persist_topics_def persist_channels_def Topic_IsPaused_def Channel_IsPaused_def HasSuffix_def
        sample_meta_def)
  have v: "list_all valid_meta (persist_topics (n_topicMap ?n))" "distinct (map mt_Name (persist_topics (n_topicMap ?n)))"
    unfolding p by (rule sample_meta_valid)+
  have f: "n_file ?new = n_file (snd (nsqd_PersistMetadata None ?n))"
    unfolding nsqd_PersistMetadata_def using p by simp
  have o: "opens sample_env (n_opts ?new)" using opens_sample by (simp add: sample_nsqd_def)
  have e: "n_topicMap ?new = []" by (simp add: sample_nsqd_def)
  show ?thesis using metadata_roundtrip [OF v f e o] unfolding p by blast
qed

text \<open>\<open>resizePool\<close> always ends, and leaves exactly the ideal number of scan workers
  running: a quarter of the channels, at least one and at most the configured maximum. It starts or stops as
  many workers as that takes.\<close>

theorem resize_pool_reaches_ideal:
  assumes "1 \<le> o_QueueScanWorkerPoolMax (n_opts n)" "nsqd_resizePool num n = (acts, n')"
  shows "n_poolSize n' = max 1 (min (num div 4) (o_QueueScanWorkerPoolMax (n_opts n))) \<and>
    int (length acts) = \<bar>n_poolSize n' - n_poolSize n\<bar>"
proof -
  let ?i = "idealPoolSize (n_opts n) num"
  have "?i = max 1 (min (num div 4) (o_QueueScanWorkerPoolMax (n_opts n)))"
    using assms(1) by (auto simp: idealPoolSize_def Let_def)
  moreover have "acts = fst (resize_loop ?i (n_poolSize n)) \<and> n_poolSize n' = snd (resize_loop ?i (n_poolSize n))"
    using assms(2) unfolding nsqd_resizePool_def split_beta Let_def by auto
  ultimately show ?thesis using resize_loop_reaches [of ?i "n_poolSize n"] by simp
qed

theorem resize_pool_reaches_ideal_witness:
  "n_poolSize (snd (nsqd_resizePool 13 sample_nsqd)) = 3"
  using resize_pool_reaches_ideal [of sample_nsqd 13 "fst (nsqd_resizePool 13 sample_nsqd)"
      "snd (nsqd_resizePool 13 sample_nsqd)"]
  by (simp add: sample_nsqd_def sample_opts_def NewOptions_def)

text \<open>\<open>UniqRands\<close> returns as many distinct numbers as asked for (or as there are), all in range, for
  every sequence of random numbers: a scan pass never picks one channel twice.\<close>

theorem uniq_rands_distinct:
  "distinct (UniqRands rs quantity maxval) \<and> set (UniqRands rs quantity maxval) \<subseteq> {0..<maxval} \<and>
   length (UniqRands rs quantity maxval) = min quantity maxval"
  by (rule UniqRands_ok)

end
