(* ===== verification/Nsq_ProtocolProps.thy ===== *)
theory Nsq_ProtocolProps
  imports Nsq_ProtocolInv Nsq_DaemonProps
begin

text \<open>
  What a connection to nsqd guarantees, whatever bytes a client sends: the state machine of the
  protocol, the TLS and authorization barriers, the ready count, the end of the command loop, and
  what the publishing commands do with well-formed input.
\<close>

section \<open>The state machine of a connection\<close>

definition conn_inv :: "Options \<Rightarrow> client_view \<Rightarrow> bool" where
  "conn_inv opts v = (case v of (st, ch, n) \<Rightarrow>
     st \<in> {stateInit, stateSubscribed, stateClosing} \<and>
     (st = stateInit \<longrightarrow> ch = None \<and> n = 0) \<and>
     (st \<noteq> stateInit \<longrightarrow> (\<exists>tn cn. ch = Some (tn, cn) \<and> IsValidTopicName tn \<and> IsValidChannelName cn)) \<and>
     0 \<le> sint n \<and> (sint n \<le> o_MaxRdyCount opts \<or> n = 0) \<and> (st = stateClosing \<longrightarrow> n = 0))"

lemma conn_inv_step: "conn_step opts v v' \<Longrightarrow> conn_inv opts v \<Longrightarrow> conn_inv opts v'"
proof (induction rule: conn_step.induct)
  case (subscribe tc ch n)
  then show ?case by (cases tc) (simp add: conn_inv_def)
qed (auto simp: conn_inv_def)

lemma conn_inv_new: "conn_inv opts (view (newClientV2 opts now k ip input))"
  by (simp add: conn_inv_def view_def newClientV2_def Let_def)

lemma conn_inv_local:
  "local_step k s s' \<Longrightarrow> conn_inv (n_opts (p_nsqd s)) (view (p_clients s k)) \<Longrightarrow>
     conn_inv (n_opts (p_nsqd s')) (view (p_clients s' k))"
  by (auto simp: local_step_def cmd_step_def intro: conn_inv_step)

text \<open>C6. After any sequence of commands on a new connection, whatever the client sends, the client is
  in one of the states of the protocol and consistent with it: before SUB it has no channel, after
  it has a channel with valid names; its ready count is never negative, never above the configured
  maximum, and zero once it is closing. In particular FIN, REQ and TOUCH never meet a nil channel.\<close>

theorem connection_invariant:
  assumes "io_open now ip input s0 = (k, s)" "io_rounds xs 0 n k s = Some s'"
  shows "conn_inv (n_opts (p_nsqd s')) (view (p_clients s' k))"
proof (rule io_rounds_induct [OF assms(2), where P = "\<lambda>s. conn_inv (n_opts (p_nsqd s)) (view (p_clients s k))"])
  show "conn_inv (n_opts (p_nsqd s)) (view (p_clients s k))"
    using assms(1) conn_inv_new by (auto simp: io_open_def nsqd_AddClient_def Let_def)
qed (rule conn_inv_local)

definition sample_ctx :: "ioState pctx" where
  "sample_ctx = \<lparr>x_env = sample_env, x_compile = (\<lambda>p. Some (\<lambda>t. t = p)), x_authd = (\<lambda>a ps. Inl ''down''),
     x_unmarshal = (\<lambda>b. Inl ''syntax error''), x_identify = (\<lambda>r. []), x_auth = (\<lambda>i u n. []), x_handshake = None,
     x_now = 5, x_clock = (\<lambda>i. [1500000000000000000 + int i * 2000000]), x_fuel = 1\<rparr>"

definition sample_proto :: "ioState proto" where
  "sample_proto = \<lparr>p_nsqd = sample_nsqd, p_clients = sample_client\<rparr>"

text \<open>A round of NOP on a connection.\<close>

lemma sample_round:
  assumes "io_open 0 (Inr ''host'') (bytes_of ''NOP'' @ [10]) sample_proto = (k, s)"
  shows "\<exists>s'. io_rounds (\<lambda>_. sample_ctx) 0 1 k s = Some s'"
proof -
  have r: "cl_Reader (p_clients s k) = bytes_of ''NOP'' @ [10]" "o_TLSRequired (n_opts (p_nsqd s)) = TLSNotRequired"
    using assms by (auto simp: io_open_def nsqd_AddClient_def newClientV2_def sample_proto_def sample_nsqd_def
        sample_opts_def NewOptions_def TLSNotRequired_def Let_def split: if_splits)
  have w: "takeWhile (\<lambda>b. b \<noteq> newline) (bytes_of ''NOP'' @ [10]) = bytes_of ''NOP''"
    "length (bytes_of ''NOP'') = 3" "text_of (split_bytes space (trim_cr (bytes_of ''NOP'')) ! 0) = ''NOP''"
    by code_simp+
  then show ?thesis using r
    by (simp add: io_step_def ReadSlice_def defaultBufferSize_def Let_def proto_Exec_def enforceTLSPolicy_def proto_NOP_def
        answer_def)
qed

theorem connection_invariant_witness:
  "\<exists>k s s'. io_open 0 (Inr ''host'') (bytes_of ''NOP'' @ [10]) sample_proto = (k, s) \<and>
     io_rounds (\<lambda>_. sample_ctx) 0 1 k s = Some s' \<and> conn_inv (n_opts (p_nsqd s')) (view (p_clients s' k))"
proof -
  obtain k s where o: "io_open 0 (Inr ''host'') (bytes_of ''NOP'' @ [10]) sample_proto = (k, s)" by fastforce
  obtain s' where "io_rounds (\<lambda>_. sample_ctx) 0 1 k s = Some s'" using sample_round [OF o] by blast
  with o show ?thesis using connection_invariant [OF o] by blast
qed


text \<open>A command only ever changes the client that sent it: all other clients and the
  configuration are as before.\<close>

theorem command_leaves_other_clients:
  assumes "proto_Exec x k params s = Some (r, s')" "j \<noteq> k"
  shows "p_clients s' j = p_clients s j \<and> n_opts (p_nsqd s') = n_opts (p_nsqd s)"
  using step_Exec [OF assms(1)] assms(2) by (simp add: local_step_def)

theorem command_leaves_other_clients_witness:
  "\<exists>r s'. proto_Exec sample_ctx 1 [bytes_of ''CLS''] sample_proto = Some (r, s') \<and> p_clients s' 2 = p_clients sample_proto 2"
proof -
  obtain r s' where e: "proto_Exec sample_ctx 1 [bytes_of ''CLS''] sample_proto = Some (r, s')"
  proof -
    have "text_of (bytes_of ''CLS'') = ''CLS''" by code_simp
    then show ?thesis using that
      by (simp add: proto_Exec_def enforceTLSPolicy_def proto_CLS_def sample_proto_def sample_nsqd_def sample_opts_def
          NewOptions_def TLSNotRequired_def sample_client_def newClientV2_def Let_def)
  qed
  then show ?thesis using command_leaves_other_clients [OF e, of 2] by auto
qed

section \<open>Barriers\<close>

text \<open>When TLS is required, a client that has not upgraded its connection gets a fatal error for
  every command but IDENTIFY, and the command has no effect at all.\<close>

theorem tls_required_blocks_commands:
  assumes "o_TLSRequired (n_opts (p_nsqd s)) \<noteq> TLSNotRequired" "\<not> cl_TLS (p_clients s k)"
    "text_of (params ! 0) \<noteq> ''IDENTIFY''"
  shows "\<exists>e. proto_Exec x k params s = Some (Inl e, s) \<and> is_fatal e"
  using assms by (auto simp: proto_Exec_def enforceTLSPolicy_def NewFatalClientErr_def Let_def)

theorem tls_required_blocks_commands_witness:
  "\<exists>e. proto_Exec sample_ctx 1 [bytes_of ''PUB'', bytes_of ''t'']
        (sample_proto\<lparr>p_nsqd := sample_nsqd\<lparr>n_opts := sample_opts\<lparr>o_TLSRequired := TLSRequired\<rparr>\<rparr>\<rparr>) =
      Some (Inl e, sample_proto\<lparr>p_nsqd := sample_nsqd\<lparr>n_opts := sample_opts\<lparr>o_TLSRequired := TLSRequired\<rparr>\<rparr>\<rparr>) \<and> is_fatal e"
proof (rule tls_required_blocks_commands)
  have "text_of (bytes_of ''PUB'') \<noteq> ''IDENTIFY''" by code_simp
  then show "text_of ([bytes_of ''PUB'', bytes_of ''t''] ! 0) \<noteq> ''IDENTIFY''" by simp
qed (simp_all add: TLSRequired_def TLSNotRequired_def sample_proto_def sample_client_def newClientV2_def Let_def)

lemma read_input_auth: "read_input n c = (r, c1) \<Longrightarrow> cl_AuthState c1 = cl_AuthState c"
  by (auto simp: read_input_def split: if_splits)

lemma readLen_auth: "readLen c = (r, c1) \<Longrightarrow> cl_AuthState c1 = cl_AuthState c"
  by (auto simp: readLen_def dest: read_input_auth split: prod.splits sum.splits)

lemma fatal_iff [simp]: "fatal code d = Inl e \<longleftrightarrow> e = NewFatalClientErr None code d"
  "fatal_of p code d = Inl e \<longleftrightarrow> e = NewFatalClientErr (Some p) code d" "is_fatal (NewFatalClientErr q code d)"
  by (auto simp: fatal_def fatal_of_def NewFatalClientErr_def)

lemma read_body_auth:
  assumes "read_body code cmd what limit b c = (r, c1)"
  shows "cl_AuthState c1 = cl_AuthState c" "r = Inl e \<Longrightarrow> is_fatal e"
proof -
  obtain q c2 where q: "readLen c = (q, c2)" by fastforce
  note a = readLen_auth [OF q]
  show "cl_AuthState c1 = cl_AuthState c"
  proof (cases q)
    case (Inr n)
    obtain w c3 where w: "read_input (nat n) c2 = (w, c3)" by fastforce
    show ?thesis using assms q Inr w a read_input_auth [OF w]
      by (simp add: read_body_def split: if_splits sum.splits)
  qed (use assms q a in \<open>simp add: read_body_def\<close>)
  show "r = Inl e \<Longrightarrow> is_fatal e" using assms by (auto simp: read_body_def split: prod.splits sum.splits if_splits)
qed

lemma CheckAuth_first:
  "nsqd_IsAuthEnabled n \<Longrightarrow> \<not> HasAuthorizations c \<Longrightarrow>
     proto_CheckAuth x n cmd tn cn c = Some (Some (NewFatalClientErr None ''E_AUTH_FIRST'' (''AUTH required before '' @ cmd)), c)"
  by (simp add: proto_CheckAuth_def)

lemma publish_refused:
  assumes "nsqd_IsAuthEnabled (p_nsqd s)" "\<not> HasAuthorizations (p_clients s k)"
    "publish_one x cmd k tn body d s = Some (r, s')"
  shows "p_nsqd s' = p_nsqd s \<and> (\<exists>e. r = Inl e \<and> is_fatal e)"
  using assms(3) by (auto simp: publish_one_def CheckAuth_first [OF assms(1,2)])

lemma HasAuth_cong: "cl_AuthState c1 = cl_AuthState c \<Longrightarrow> HasAuthorizations c1 = HasAuthorizations c"
  by (simp add: HasAuthorizations_def)

lemma body_refused:
  assumes "nsqd_IsAuthEnabled (p_nsqd s)" "\<not> HasAuthorizations (p_clients s k)"
    "(case read_body code cmd what limit b (p_clients s k) of
        (Inl e, c1) \<Rightarrow> Some (Inl e, upd_client k (\<lambda>_. c1) s)
      | (Inr body, c1) \<Rightarrow> publish_one x cmd k tn body d (upd_client k (\<lambda>_. c1) s)) = Some (r, s')"
  shows "p_nsqd s' = p_nsqd s \<and> (\<exists>e. r = Inl e \<and> is_fatal e)"
proof -
  obtain q c1 where q: "read_body code cmd what limit b (p_clients s k) = (q, c1)" by fastforce
  note a = read_body_auth [OF q]
  have h: "\<not> HasAuthorizations (p_clients (upd_client k (\<lambda>_. c1) s) k)" using HasAuth_cong [OF a(1)] assms(2) by simp
  show ?thesis using assms(1,3) q a publish_refused [OF _ h, of x cmd tn _ d] by (cases q) auto
qed

lemma SUB_refused:
  assumes "nsqd_IsAuthEnabled (p_nsqd s)" "\<not> HasAuthorizations (p_clients s k)" "proto_SUB x k params s = Some (r, s')"
  shows "p_nsqd s' = p_nsqd s \<and> (\<exists>e. r = Inl e \<and> is_fatal e)"
  using assms(3) by (auto simp: proto_SUB_def CheckAuth_first [OF assms(1,2)] Let_def split: if_splits)

lemma MPUB_refused:
  assumes "nsqd_IsAuthEnabled (p_nsqd s)" "\<not> HasAuthorizations (p_clients s k)" "proto_MPUB x k params s = Some (r, s')"
  shows "p_nsqd s' = p_nsqd s \<and> (\<exists>e. r = Inl e \<and> is_fatal e)"
  using assms(3) by (auto simp: proto_MPUB_def CheckAuth_first [OF assms(1,2)] Let_def split: if_splits)

text \<open>C31. When authorization is enabled, a client that has not sent a successful AUTH can neither publish
  nor subscribe: PUB, MPUB, DPUB and SUB end in a fatal error and leave the daemon, its topics and
  channels as they were; not even the topic is created.\<close>

theorem unauthorized_client_changes_nothing:
  assumes "nsqd_IsAuthEnabled (p_nsqd s)" "\<not> HasAuthorizations (p_clients s k)"
    "text_of (params ! 0) \<in> {''PUB'', ''MPUB'', ''DPUB'', ''SUB''}" "proto_Exec x k params s = Some (r, s')"
  shows "p_nsqd s' = p_nsqd s \<and> (\<exists>e. r = Inl e \<and> is_fatal e)"
proof -
  have pub: ?thesis if "proto_PUB x k params s = Some (r, s')"
    using that body_refused [OF assms(1,2)] by (auto simp: proto_PUB_def Let_def split: if_splits)
  have dpub: ?thesis if "proto_DPUB x k params s = Some (r, s')"
    using that body_refused [OF assms(1,2)] by (auto simp: proto_DPUB_def Let_def split: if_splits sum.splits)
  show ?thesis using assms pub dpub SUB_refused [OF assms(1,2)] MPUB_refused [OF assms(1,2)]
    unfolding proto_Exec_def Let_def
    by (auto simp: enforceTLSPolicy_def split: if_splits option.splits)
qed

lemma text_of_bytes_of [simp]: "text_of (bytes_of t) = t"
proof -
  have "char_of (unat (of_nat (of_char c) :: byte)) = (c :: char)" for c
  proof -
    have "(of_char c :: nat) < 256" by simp
    then have "unat (of_nat (of_char c) :: byte) = of_char c" by (simp add: unat_of_nat)
    then show ?thesis by simp
  qed
  then show ?thesis by (simp add: text_of_def bytes_of_def map_idI)
qed

theorem unauthorized_client_changes_nothing_witness:
  "\<exists>s r s'. s = sample_proto\<lparr>p_nsqd := sample_nsqd\<lparr>n_opts := sample_opts\<lparr>o_AuthHTTPAddresses := [''auth'']\<rparr>\<rparr>\<rparr> \<and>
     proto_Exec sample_ctx 1 [bytes_of ''MPUB'', bytes_of ''t''] s = Some (r, s') \<and> p_nsqd s' = p_nsqd s \<and>
     (\<exists>e. r = Inl e \<and> is_fatal e)"
proof -
  let ?s = "sample_proto\<lparr>p_nsqd := sample_nsqd\<lparr>n_opts := sample_opts\<lparr>o_AuthHTTPAddresses := [''auth'']\<rparr>\<rparr>\<rparr>"
  have a: "nsqd_IsAuthEnabled (p_nsqd ?s)" "\<not> HasAuthorizations (p_clients ?s 1)"
    by (simp_all add: nsqd_IsAuthEnabled_def HasAuthorizations_def sample_proto_def sample_client_def newClientV2_def Let_def)
  have v: "IsValidTopicName ''t''" by code_simp
  have "proto_Exec sample_ctx 1 [bytes_of ''MPUB'', bytes_of ''t''] ?s =
      Some (Inl (NewFatalClientErr None ''E_AUTH_FIRST'' (''AUTH required before '' @ ''MPUB'')),
        upd_client 1 (\<lambda>_. p_clients ?s 1) ?s)"
    using a v by (simp add: proto_Exec_def enforceTLSPolicy_def sample_opts_def NewOptions_def
        TLSNotRequired_def proto_MPUB_def proto_CheckAuth_def Let_def)
  from unauthorized_client_changes_nothing [OF a _ this] this show ?thesis by auto
qed

end
