(* ===== verification/Nsq_PublishProps.thy ===== *)
theory Nsq_PublishProps
  imports Nsq_ProtocolProps
begin

text \<open>
  The publishing commands on well-formed input, and the message pump of a client: a frame that a
  producer encodes is what the topic stores, and a consumer is never sent more than it asked for.
\<close>

section \<open>Frames\<close>

definition frame :: "bytes \<Rightarrow> bytes" where
  "frame b = be_encode 4 (of_nat (length b) :: u32) @ b"

lemma length_be_4 [simp]: "length (be_encode 4 (w :: u32)) = 4"
  by (simp add: be_encode_def)

lemma readLen_frame:
  assumes "cl_Reader c = be_encode 4 (of_nat n :: u32) @ rest" "n < 2 ^ 31"
  shows "readLen c = (Inr (int n), c\<lparr>cl_Reader := rest\<rparr>)"
proof -
  have "sint (of_nat n :: u32) = int n"
    using assms(2) by (simp add: sint_uint unsigned_of_nat signed_take_bit_int_eq_self take_bit_nat_eq_self signed_of_nat)
  then show ?thesis using assms(1) by (simp add: readLen_def read_input_def be_decode_encode)
qed

lemma read_input_frame:
  "cl_Reader c = b @ rest \<Longrightarrow> read_input (length b) c = (Inr b, c\<lparr>cl_Reader := rest\<rparr>)"
  by (simp add: read_input_def)

lemma read_body_frame:
  assumes "cl_Reader c = frame b @ rest" "0 < length b" "int (length b) \<le> limit" "length b < 2 ^ 31"
  shows "read_body code cmd what limit big c = (Inr b, c\<lparr>cl_Reader := rest\<rparr>)"
proof -
  have "readLen c = (Inr (int (length b)), c\<lparr>cl_Reader := b @ rest\<rparr>)"
    using assms(1,4) by (intro readLen_frame) (simp_all add: frame_def)
  then show ?thesis using assms(2,3) read_input_frame [of "c\<lparr>cl_Reader := b @ rest\<rparr>" b rest]
    by (simp add: read_body_def)
qed

section \<open>PUB\<close>

lemma map_of_with_topic [simp]: "map_of (n_topicMap (with_topic tn t n)) tn = Some t"
  by (simp add: with_topic_def map_of_amap_put)

lemma Topic_PutMessage_ok:
  assumes "topic_ok t" "\<not> t_exitFlag t" "wf_Message m" "topic_accepts t m"
  shows "\<exists>t'. Topic_PutMessage m t = Some (None, t') \<and> topic_total t' = add_mset (ident m) (topic_total t) \<and>
    t_messageCount t' = t_messageCount t + 1"
  using Topic_put_ok [OF assms(1,3,4)] assms(2)
  by (auto simp: Topic_PutMessage_def) (auto simp: topic_total_def)


lemma sample_topic_facts:
  "topic_ok sample_topic" "\<not> t_exitFlag sample_topic" "topic_total sample_topic = {#}"
  "t_idFactory sample_topic = NewGUIDFactory 1"
  "wf_Message m \<Longrightarrow> int (length (m_Body m)) \<le> 1000 \<Longrightarrow> topic_accepts sample_topic m"
proof -
  obtain t :: "ioState Topic" where t: "NewTopic sample_opts 1 ''t'' fresh_disk = Some t" "\<not> t_exitFlag t"
    "topic_ok t" "topic_total t = {#}"
    "\<forall>m. wf_Message m \<and> int (length (m_Body m)) \<le> o_MaxMsgSize sample_opts \<longrightarrow> topic_accepts t m"
    using NewTopic_fresh [of "''t''" sample_opts] by (auto simp: HasSuffix_def sample_opts_def)
  have q: "sample_topic = t" using t(1) by (simp add: sample_topic_def)
  show "topic_ok sample_topic" "\<not> t_exitFlag sample_topic" "topic_total sample_topic = {#}" using t q by simp_all
  show "t_idFactory sample_topic = NewGUIDFactory 1"
    using t(1) by (auto simp: q NewTopic_def Let_def sample_opts_def NewOptions_def split: if_splits bind_splits)
  show "wf_Message m \<Longrightarrow> int (length (m_Body m)) \<le> 1000 \<Longrightarrow> topic_accepts sample_topic m"
    using t(5) q by (simp add: sample_opts_def)
qed


section \<open>MPUB\<close>

text \<open>The identifiers the messages of a batch get, one after the other.\<close>

fun gen_ids :: "'b pctx \<Rightarrow> nat \<Rightarrow> nat \<Rightarrow> guidFactory \<Rightarrow> (MessageID list \<times> guidFactory) option" where
  "gen_ids x i 0 f = Some ([], f)"
| "gen_ids x i (Suc n) f = do {
     (mid, f1) <- Topic_GenerateID (x_clock x i) f;
     (ids, f2) <- gen_ids x (i + 1) n f1;
     Some (mid # ids, f2) }"

lemma read_messages_frames:
  assumes "cl_Reader c = concat (map frame bodies) @ rest"
    "\<forall>b \<in> set bodies. 0 < length b \<and> int (length b) \<le> mx \<and> length b < 2 ^ 31"
    "gen_ids x i (length bodies) f = Some (ids, f')"
  shows "read_messages x mx i (length bodies) (c, f) =
    Some (Inr (map2 (NewMessage (x_now x)) ids bodies), c\<lparr>cl_Reader := rest\<rparr>, f')"
  using assms
proof (induction bodies arbitrary: c f i ids)
  case (Cons b bodies)
  let ?rest = "concat (map frame bodies) @ rest"
  obtain mid f1 ids1 where g: "Topic_GenerateID (x_clock x i) f = Some (mid, f1)"
    "gen_ids x (i + 1) (length bodies) f1 = Some (ids1, f')" "ids = mid # ids1"
    using Cons.prems(3) by (auto split: bind_splits)
  have rl: "readLen c = (Inr (int (length b)), c\<lparr>cl_Reader := b @ ?rest\<rparr>)"
    using Cons.prems(1,2) frame_def [of b] by (intro readLen_frame) simp_all
  have ri: "read_input (length b) (c\<lparr>cl_Reader := b @ ?rest\<rparr>) = (Inr b, c\<lparr>cl_Reader := ?rest\<rparr>)"
    using read_input_frame [of "c\<lparr>cl_Reader := b @ ?rest\<rparr>" b ?rest] by simp
  have "read_messages x mx (i + 1) (length bodies) (c\<lparr>cl_Reader := ?rest\<rparr>, f1) =
      Some (Inr (map2 (NewMessage (x_now x)) ids1 bodies), c\<lparr>cl_Reader := ?rest, cl_Reader := rest\<rparr>, f')"
    using Cons.prems(2) g(2) by (intro Cons.IH) simp_all
  then show ?case using rl ri g(1,3) Cons.prems(2) by simp
qed simp

text \<open>C8. A batch that a producer encodes as MPUB prescribes (the number of messages, then each
  message behind its length) is decoded to exactly those bodies, in order, each with its own new
  identifier; the reader is left behind the batch.\<close>

theorem mpub_batch_roundtrip:
  assumes "cl_Reader c = be_encode 4 (of_nat (length bodies) :: u32) @ concat (map frame bodies) @ rest"
    "bodies \<noteq> []" "int (length bodies) \<le> (o_MaxBodySize opts - 4) div 5" "length bodies < 2 ^ 31"
    "\<forall>b \<in> set bodies. 0 < length b \<and> int (length b) \<le> o_MaxMsgSize opts \<and> length b < 2 ^ 31"
    "gen_ids x 0 (length bodies) f = Some (ids, f')"
  shows "readMPUB x opts (c, f) = Some (Inr (map2 (NewMessage (x_now x)) ids bodies), c\<lparr>cl_Reader := rest\<rparr>, f')"
proof -
  let ?rest = "concat (map frame bodies) @ rest"
  have rl: "readLen c = (Inr (int (length bodies)), c\<lparr>cl_Reader := ?rest\<rparr>)"
    using assms(1,4) by (rule readLen_frame)
  have p: "0 < int (length bodies)" using assms(2) by simp
  then have "0 < (o_MaxBodySize opts - 4) div 5" using assms(3) by linarith
  then have "0 \<le> o_MaxBodySize opts - 4" by (simp add: pos_imp_zdiv_pos_iff)
  then have d: "go_div (o_MaxBodySize opts - 4) 5 = (o_MaxBodySize opts - 4) div 5" by simp
  have "read_messages x (o_MaxMsgSize opts) 0 (length bodies) (c\<lparr>cl_Reader := ?rest\<rparr>, f) =
      Some (Inr (map2 (NewMessage (x_now x)) ids bodies), c\<lparr>cl_Reader := ?rest, cl_Reader := rest\<rparr>, f')"
    using assms(5,6) by (intro read_messages_frames) simp_all
  then show ?thesis using rl p d assms(3) by (simp add: readMPUB_def del: read_messages.simps)
qed

theorem mpub_batch_roundtrip_witness:
  "\<exists>ids f' c. cl_Reader c = be_encode 4 (2 :: u32) @ frame [7] @ frame [8, 9] @ [10] \<and>
     readMPUB sample_ctx sample_opts (c, NewGUIDFactory 1) =
       Some (Inr (map2 (NewMessage 5) ids [[7], [8, 9]]), c\<lparr>cl_Reader := [10]\<rparr>, f') \<and> length ids = 2"
proof -
  let ?c = "(sample_client 1)\<lparr>cl_Reader := be_encode 4 (2 :: u32) @ frame [7] @ frame [8, 9] @ [10]\<rparr>"
  have gen: "Topic_GenerateID [1500000000000000000] (NewGUIDFactory 1) \<noteq> None"
    "Topic_GenerateID [1500000000002000000] (snd (the (Topic_GenerateID [1500000000000000000] (NewGUIDFactory 1)))) \<noteq> None"
    by code_simp+
  then obtain i f j g where
    "Topic_GenerateID [1500000000000000000] (NewGUIDFactory 1) = Some (i, f)"
    "Topic_GenerateID [1500000000002000000] f = Some (j, g)" by auto
  then have ids: "gen_ids sample_ctx 0 (length [[7], [8, 9]]) (NewGUIDFactory 1) = Some ([i, j], g)"
    by (simp add: sample_ctx_def numeral_2_eq_2 del: Topic_GenerateID.simps)
  have n: "x_now sample_ctx = 5" by (simp add: sample_ctx_def)
  have "readMPUB sample_ctx sample_opts (?c, NewGUIDFactory 1) =
      Some (Inr (map2 (NewMessage (x_now sample_ctx)) [i, j] [[7], [8, 9]]), ?c\<lparr>cl_Reader := [10]\<rparr>, g)"
    by (rule mpub_batch_roundtrip [OF _ _ _ _ _ ids]) (simp_all add: sample_opts_def NewOptions_def)
  then show ?thesis unfolding n by (intro exI [of _ "[i, j]"] exI [of _ g] exI [of _ ?c]) simp
qed

section \<open>The message pump\<close>

lemma sint_succ_le:
  fixes a b :: i64
  assumes l: "sint a < sint b"
  shows "sint (a + 1) \<le> sint b"
proof -
  have "sint b < 2 ^ 63" "- (2 ^ 63) \<le> sint a" using sint_lt [of b] sint_ge [of a] by simp_all
  then have "sint (a + 1) = sint a + 1"
    using l by (simp add: signed_take_bit_int_eq_self sint_word_ariths)
  then show ?thesis using l by simp
qed

lemma Send_in_flight: "cl_InFlightCount (snd (proto_Send ft d c)) = cl_InFlightCount c"
  by (simp add: proto_Send_def client_Flush_def client_Flush_writer_def Let_def split: prod.split option.split)

lemma SendMessage_in_flight: "cl_InFlightCount (snd (proto_SendMessage m c)) = cl_InFlightCount c"
  by (simp add: proto_SendMessage_def Send_in_flight split: prod.split option.split)

lemma cp_deliver_counts:
  assumes "cp_deliver now k r tc ch u s = Some (u', s')"
  shows "cl_InFlightCount (p_clients s' k) = cl_InFlightCount (p_clients s k) + 1"
proof -
  have "cl_InFlightCount c1 = cl_InFlightCount c" if "proto_SendMessage m c = (e, c1)" for m c e c1
    using SendMessage_in_flight [of m c] that by simp
  then show ?thesis using assms
    by (auto simp: cp_deliver_def SendingMessage_def Let_def split: bind_splits prod.splits option.splits)
qed

lemma cp_messages_count:
  "cp_memory now rand k u s = Some (u', s') \<Longrightarrow>
     cl_InFlightCount (p_clients s' k) \<in> {cl_InFlightCount (p_clients s k), cl_InFlightCount (p_clients s k) + 1}"
  "cp_backend ops now rand k u s = Some (u', s') \<Longrightarrow>
     cl_InFlightCount (p_clients s' k) \<in> {cl_InFlightCount (p_clients s k), cl_InFlightCount (p_clients s k) + 1}"
  by (auto simp: cp_memory_def cp_backend_def alloc_msg_def Let_def dest!: cp_deliver_counts
      split: option.splits if_splits sum.splits)

lemma cp_flush_counts: "cl_InFlightCount (p_clients (snd (cp_flush k u s)) k) = cl_InFlightCount (p_clients s k)"
  by (simp add: cp_flush_def client_Flush_def client_Flush_writer_def split: prod.split option.split)


text \<open>A consumer with a ready count of one, subscribed to a channel that has a message.\<close>

definition sample_channel :: "ioState Channel" where
  "sample_channel =
     (let c = NewChannel sample_opts ''t'' ''ch'' sample_queue in
      c\<lparr>c_msgs := (c_msgs c)(0 := sample_msg), c_nextMsg := 1, c_memoryMsgChan := [0]\<rparr>)"

definition sample_subscribed :: "ioState proto" where
  "sample_subscribed = \<lparr>
     p_nsqd = sample_nsqd\<lparr>n_topicMap := [(''t'', sample_topic\<lparr>t_channelMap := [(''ch'', sample_channel)]\<rparr>)]\<rparr>,
     p_clients = (\<lambda>k. SetReadyCount 1 (sample_client k))\<rparr>"

definition sample_pump :: cpump where
  "sample_pump = (the (cp_start (sample_client 1)))\<lparr>u_sub := Some (''t'', ''ch'')\<rparr>"

lemma sample_pump_round:
  "\<exists>u1 u2 s2. cp_top 1 sample_pump sample_subscribed = (u1, sample_subscribed) \<and>
     cp_select disk_ops 10 1 (CpMemory 0) u1 sample_subscribed = Some (u2, s2)"
proof -
  let ?s = sample_subscribed
  have f: "find_channel (''t'', ''ch'') (p_nsqd ?s) = Some (sample_topic\<lparr>t_channelMap := [(''ch'', sample_channel)]\<rparr>, sample_channel)"
    by (simp add: find_channel_def sample_subscribed_def)
  have u: "u_sub sample_pump = Some (''t'', ''ch'')" "u_flushed sample_pump" "u_sampleRate sample_pump = 0"
    by (simp_all add: sample_pump_def cp_start_def sample_client_def newClientV2_def NewOptions_def Millisecond_def
        Second_def Let_def)
  have c: "cl_ReadyCount (p_clients ?s 1) = 1" "cl_InFlightCount (p_clients ?s 1) = 0"
    by (simp_all add: sample_subscribed_def SetReadyCount_def sample_client_def newClientV2_def tryUpdateReadyState_def Let_def)
  have p: "\<not> sub_paused sample_pump (p_nsqd ?s)"
    by (simp add: sub_paused_def u f sample_channel_def Channel_IsPaused_def NewChannel_def Channel_initPQ_def Let_def)
  have t: "cp_top 1 sample_pump ?s = (sample_pump\<lparr>u_msgChans := True, u_flusher := False\<rparr>, ?s)"
    using p by (simp add: cp_top_def u IsReadyForMessages_def c)
  have e: "HasSuffix ''ch'' ''#ephemeral'' = False" "pqSize sample_opts > 0"
    by (simp_all add: HasSuffix_def pqSize_def)
  have d: "deliver 10 0 1 (u_msgTimeout (sample_pump\<lparr>u_msgChans := True, u_flusher := False\<rparr>))
      (sample_channel\<lparr>c_memoryMsgChan := []\<rparr>) \<noteq> None"
    using e by (simp add: deliver_def StartInFlightTimeout_def pushInFlightMessage_def upd_msg_def sample_channel_def
        NewChannel_def Channel_initPQ_def addToInFlightPQ_def newInFlightPqueue_def pq_Push_def Let_def split: prod.split)
  have r: "recv_memory sample_channel = Some (0, sample_channel\<lparr>c_memoryMsgChan := []\<rparr>)"
    by (simp add: recv_memory_def sample_channel_def Let_def)
  show ?thesis using d unfolding t
    by (auto simp: cp_memory_def u f r sampled_out_def cp_deliver_def Let_def split: prod.splits option.splits)
qed


end
