(* ===== verification/Nsq_LookupProps.thy ===== *)
theory Nsq_LookupProps
  imports Nsq_LookupInv Nsq_PublishProps
begin

text \<open>
  The properties of nsqlookupd: its database only holds what open connections have registered, lookups
  report exactly that, and the commands an nsqd sends on connecting register everything it has. The
  encoding of commands is the client library's; the property on announcements assumes the
  documented form of its REGISTER line.
\<close>

section \<open>Lines\<close>

definition plain :: "byte \<Rightarrow> bool" where
  "plain b \<longleftrightarrow> 32 < b \<and> b < 127"

lemma name_char_plain: "name_char c \<or> c = CHR ''#'' \<Longrightarrow> plain (of_nat (of_char c))"
  by (auto simp: name_char_def plain_def word_less_nat_alt unat_of_nat Let_def)

lemma valid_plain: "isValidName t \<Longrightarrow> list_all plain (bytes_of t)"
proof -
  assume "isValidName t"
  then obtain base suf where "t = base @ suf" "list_all name_char base" "suf = [] \<or> suf = ephemeral_suffix"
    by (auto simp: isValidName_def regex_iff split: if_splits)
  moreover have "list_all (\<lambda>c. name_char c \<or> c = CHR ''#'') ephemeral_suffix"
    by (simp add: ephemeral_suffix_def name_char_def)
  ultimately have "list_all (\<lambda>c. name_char c \<or> c = CHR ''#'') t" by (auto simp: list_all_iff)
  then show ?thesis using name_char_plain by (auto simp: bytes_of_def list_all_iff)
qed

lemma bytes_of_append [simp]: "bytes_of (s @ t) = bytes_of s @ bytes_of t" "bytes_of [] = []"
  by (simp_all add: bytes_of_def)

lemma plain_not: "plain b \<Longrightarrow> b \<noteq> newline \<and> b \<noteq> space"
  by (auto simp: plain_def newline_def space_def)

lemma trim_left_stop:
  assumes "\<And>r. r \<in> set rs \<Longrightarrow> r \<noteq> [] \<Longrightarrow> hd r \<noteq> b"
  shows "trim_left rs (b # bs) = b # bs"
proof -
  have "find (\<lambda>r. r \<noteq> [] \<and> take (length r) (b # bs) = r) rs = None"
    using assms by (auto simp: find_None_iff) (metis hd_take length_greater_0_conv list.sel(1))
  then show ?thesis by (subst trim_left.simps) simp
qed

lemma space_runes_heads: "list_all (\<lambda>r. r \<noteq> [] \<and> \<not> plain (hd r) \<and> \<not> plain (last r)) space_runes"
  by code_simp

lemma TrimSpace_line:
  assumes "w \<noteq> []" "plain (hd w)" "plain (last w)"
  shows "TrimSpace (w @ [newline]) = w"
proof -
  obtain b bs where w: "w = b # bs" using assms(1) by (cases w) auto
  obtain l ls where r: "rev w = l # ls" using assms(1) by (cases "rev w") auto
  then have l: "plain l" using assms(3) by (metis hd_rev list.sel(1))
  have 1: "trim_left space_runes (w @ [newline]) = w @ [newline]"
    unfolding w append_Cons using assms(2) space_runes_heads w by (intro trim_left_stop) (auto simp: list_all_iff)
  have f: "find (\<lambda>r. r \<noteq> [] \<and> take (length r) (newline # rev w) = r) (map rev space_runes) = Some [newline]"
    by (simp add: space_runes_def newline_def)
  have 2: "trim_left (map rev space_runes) (rev w) = rev w"
    unfolding r using l space_runes_heads by (intro trim_left_stop) (auto simp: list_all_iff hd_rev)
  have "trim_left (map rev space_runes) (newline # rev w) = trim_left (map rev space_runes) (rev w)"
    by (subst trim_left.simps) (simp add: f)
  then show ?thesis using 1 2 by (simp add: TrimSpace_def)
qed

lemma split_word: "space \<notin> set w \<Longrightarrow> split_bytes space w = [w]"
  by (induction w) auto

lemma split_words: "space \<notin> set w \<Longrightarrow> split_bytes space (w @ space # bs) = w # split_bytes space bs"
  by (induction w) auto

definition register_words :: "string \<Rightarrow> string \<Rightarrow> string list" where
  "register_words t ch = ''REGISTER'' # t # (if ch = [] then [] else [ch])"

text \<open>The documented line of the client library's \<open>Register\<close> command.\<close>

definition register_line :: "(lookup_cmd \<Rightarrow> bytes) \<Rightarrow> bool" where
  "register_line wire \<longleftrightarrow>
     (\<forall>t ch. wire (LRegister t ch) =
        bytes_of (''REGISTER '' @ t @ (if ch = [] then [] else '' '' @ ch)) @ [newline])"

lemma register_line_words:
  assumes "register_line wire" "isValidName t" "ch = [] \<or> isValidName ch"
  shows "\<exists>w. wire (LRegister t ch) = w @ [newline] \<and> newline \<notin> set w \<and>
    map text_of (split_bytes space (TrimSpace (w @ [newline]))) = register_words t ch"
proof -
  let ?t = "bytes_of t" and ?c = "bytes_of ch" and ?cmd = "bytes_of ''REGISTER''"
  let ?w = "?cmd @ space # ?t @ (if ch = [] then [] else space # ?c)"
  have e: "wire (LRegister t ch) = ?w @ [newline]"
    using assms(1) by (simp add: register_line_def bytes_of_def space_def)
  have p: "list_all plain ?t" "ch = [] \<or> list_all plain ?c" using assms(2,3) valid_plain by auto
  have ne: "t \<noteq> []" using assms(2) by (auto simp: isValidName_def)
  have cmd: "list_all plain ?cmd" "?cmd \<noteq> []" by code_simp+
  have n: "newline \<notin> set ?w"
    using p cmd plain_not by (auto simp: list_all_iff newline_def space_def)
  have "plain (last ?w)"
    using p ne by (auto simp: list_all_iff last_append bytes_of_def last_map)
  then have "TrimSpace (?w @ [newline]) = ?w"
    using cmd by (intro TrimSpace_line) (auto simp: list_all_iff hd_append)
  moreover have "space \<notin> set ?cmd" "space \<notin> set ?t" "ch = [] \<or> space \<notin> set ?c"
    using p cmd plain_not by (auto simp: list_all_iff)
  ultimately have "map text_of (split_bytes space (TrimSpace (?w @ [newline]))) = register_words t ch"
    by (auto simp: split_words split_word register_words_def)
  then show ?thesis using e n by blast
qed

section \<open>Announcements\<close>

fun lk_rounds :: "(nat \<Rightarrow> lctx) \<Rightarrow> nat \<Rightarrow> nat \<Rightarrow> lstate \<Rightarrow> lstate option" where
  "lk_rounds xs i 0 s = Some s"
| "lk_rounds xs i (Suc n) s =
     (case lk_step (xs i) s of Some (LkContinue s') \<Rightarrow> lk_rounds xs (i + 1) n s' | _ \<Rightarrow> None)"

fun cmd_regs :: "string \<Rightarrow> lookup_cmd \<Rightarrow> (Registration \<times> string) set" where
  "cmd_regs a (LRegister t ch) =
     {(Reg ''topic'' t [], a)} \<union> (if ch = [] then {} else {(Reg ''channel'' t ch, a)})"
| "cmd_regs a (LUnRegister t ch) = {}"
| "cmd_regs a LPing = {}"

fun good_cmd :: "lookup_cmd \<Rightarrow> bool" where
  "good_cmd (LRegister t ch) \<longleftrightarrow> isValidName t \<and> (ch = [] \<or> isValidName ch)"
| "good_cmd (LUnRegister t ch) \<longleftrightarrow> False"
| "good_cmd LPing \<longleftrightarrow> False"

lemma getTopicChan_words:
  assumes "isValidName t" "ch = [] \<or> isValidName ch"
  shows "getTopicChan cmd (tl (register_words t ch)) = Inr (t, ch)"
  using assms by (auto simp: register_words_def getTopicChan_def IsValidTopicName_def IsValidChannelName_def Let_def)

lemma register_step:
  assumes "register_line wire" "isValidName t" "ch = [] \<or> isValidName ch" "cv_peerInfo c = Some p"
    "w_room (cv_conn c) = None" "cv_reader c = wire (LRegister t ch) @ rest"
  shows "\<exists>c'. lk_step x (c, db) = Some (LkContinue (c', register p t ch db)) \<and> cv_reader c' = rest \<and>
    cv_peerInfo c' = Some p \<and> w_room (cv_conn c') = None"
proof -
  obtain w where w: "wire (LRegister t ch) = w @ [newline]" "newline \<notin> set w"
    "map text_of (split_bytes space (TrimSpace (w @ [newline]))) = register_words t ch"
    using register_line_words [OF assms(1-3)] by blast
  let ?c = "c\<lparr>cv_reader := rest\<rparr>"
  have "takeWhile (\<lambda>b. b \<noteq> newline) (w @ newline # rest) = w" using w(2) by (subst takeWhile_append2) auto
  then have r: "ReadString c = (Inr (w @ [newline]), ?c)" using assms(6) w(1) by (simp add: ReadString_def)
  have "lookup_Exec x (register_words t ch) (?c, db) = Some (Inr (Some okBytes), ?c, register p t ch db)"
    using getTopicChan_words [OF assms(2,3), of "''REGISTER''"] assms(4)
    by (simp add: lookup_Exec_def register_words_def lookup_REGISTER_def)
  then have s: "lk_step x (c, db) = Some (lk_answer (Inr (Some okBytes)) (?c, register p t ch db))"
    by (simp add: lk_step_def r w(3))
  show ?thesis unfolding s using assms(4,5) by (simp add: lk_answer_def lk_respond_def SendResponse_def w_write_def)
qed

lemma register_rounds:
  assumes "register_line wire" "list_all good_cmd cmds" "lk_inv db L" "L a = Some (Some p)" "cv_peerInfo c = Some p"
    "w_room (cv_conn c) = None" "cv_reader c = concat (map wire cmds) @ rest"
  shows "\<exists>c' db'. lk_rounds xs i (length cmds) (c, db) = Some (c', db') \<and> cv_reader c' = rest \<and> lk_inv db' L \<and>
    regs db' = regs db \<union> (\<Union>cmd \<in> set cmds. cmd_regs a cmd)"
  using assms(2-)
proof (induction cmds arbitrary: c db i)
  case (Cons cmd cmds)
  then obtain t ch where cmd: "cmd = LRegister t ch" "isValidName t" "ch = [] \<or> isValidName ch" by (cases cmd) auto
  obtain c1 where c1: "lk_step (xs i) (c, db) = Some (LkContinue (c1, register p t ch db))"
    "cv_reader c1 = concat (map wire cmds) @ rest" "cv_peerInfo c1 = Some p" "w_room (cv_conn c1) = None"
    using register_step [OF assms(1) cmd(2,3) Cons.prems(4,5), of "concat (map wire cmds) @ rest" "xs i" db] Cons.prems(6) cmd(1)
    by auto
  note r = register_inv(1,2) [OF Cons.prems(2,3), of t ch, unfolded IsValidTopicName_def IsValidChannelName_def, OF cmd(2,3)]
  obtain c' db' where "lk_rounds xs (i + 1) (length cmds) (c1, register p t ch db) = Some (c', db')" "cv_reader c' = rest"
    "lk_inv db' L" "regs db' = regs (register p t ch db) \<union> (\<Union>cmd \<in> set cmds. cmd_regs a cmd)"
    using Cons.IH [OF _ r(1) Cons.prems(3) c1(3,4,2), of "i + 1"] Cons.prems(1) by auto
  then show ?case using c1(1) r(2) cmd(1) by auto
qed simp

text \<open>What an nsqd has, seen as registrations.\<close>

definition names_ok :: "'b NSQD \<Rightarrow> bool" where
  "names_ok n \<longleftrightarrow>
     (\<forall>(k, t) \<in> set (n_topicMap n). isValidName (t_name t) \<and>
        (\<forall>(k', c) \<in> set (t_channelMap t). c_topicName c = t_name t \<and> isValidName (c_name c)))"

definition provides :: "string \<Rightarrow> 'b NSQD \<Rightarrow> (Registration \<times> string) set" where
  "provides a n =
     {(Reg ''topic'' (t_name t) [], a) |k t. (k, t) \<in> set (n_topicMap n)} \<union>
     {(Reg ''channel'' (t_name t) (c_name c), a) |k t k' c. (k, t) \<in> set (n_topicMap n) \<and> (k', c) \<in> set (t_channelMap t)}"

lemma connect_commands_good: "names_ok n \<Longrightarrow> list_all good_cmd (connect_commands n)"
  by (fastforce simp: connect_commands_def names_ok_def list_all_iff split: if_splits)

lemma UN_concat: "(\<Union>x \<in> set (concat (map f ps)). g x) = (\<Union>p \<in> set ps. \<Union>x \<in> set (f p). g x)"
  by auto

lemma connect_commands_regs:
  assumes "names_ok n"
  shows "(\<Union>cmd \<in> set (connect_commands n). cmd_regs a cmd) = provides a n"
proof -
  have ne: "c_name c \<noteq> []" if "(k, t) \<in> set (n_topicMap n)" "(k', c) \<in> set (t_channelMap t)" for k t k' c
    using assms that by (fastforce simp: names_ok_def isValidName_def split: if_splits)
  have tn: "c_topicName c = t_name t" if "(k, t) \<in> set (n_topicMap n)" "(k', c) \<in> set (t_channelMap t)" for k t k' c
    using assms that by (fastforce simp: names_ok_def)
  let ?cmds = "\<lambda>t. if length (t_channelMap t) = 0 then [LRegister (t_name t) []]
      else map (\<lambda>(k', c). LRegister (c_topicName c) (c_name c)) (t_channelMap t)"
  let ?regs = "\<lambda>t. {(Reg ''topic'' (t_name t) [], a)} \<union>
      {(Reg ''channel'' (t_name t) (c_name c), a) |k' c. (k', c) \<in> set (t_channelMap t)}"
  have eq: "(\<Union>cmd \<in> set (?cmds t). cmd_regs a cmd) = ?regs t" if t: "(k, t) \<in> set (n_topicMap n)" for k t
  proof (cases "t_channelMap t = []")
    case False
    have "cmd_regs a (case e of (k', c) \<Rightarrow> LRegister (c_topicName c) (c_name c)) =
        {(Reg ''topic'' (t_name t) [], a), (Reg ''channel'' (t_name t) (c_name (snd e)), a)}" if "e \<in> set (t_channelMap t)" for e
      using ne [OF t, of "fst e" "snd e"] tn [OF t, of "fst e" "snd e"] that by (simp add: case_prod_beta insert_commute)
    then have "(\<Union>cmd \<in> set (?cmds t). cmd_regs a cmd) =
        (\<Union>e \<in> set (t_channelMap t). {(Reg ''topic'' (t_name t) [], a), (Reg ''channel'' (t_name t) (c_name (snd e)), a)})"
      using False by simp
    also have "\<dots> = ?regs t"
    proof -
      have "{(Reg ''channel'' (t_name t) (c_name c), a) |k' c. (k', c) \<in> set (t_channelMap t)} =
          (\<lambda>e. (Reg ''channel'' (t_name t) (c_name (snd e)), a)) ` set (t_channelMap t)"
        by (auto simp: image_iff) (metis snd_conv, blast)
      then show ?thesis using False by auto
    qed
    finally show ?thesis .
  qed simp
  have "(\<Union>cmd \<in> set (connect_commands n). cmd_regs a cmd) =
      (\<Union>p \<in> set (n_topicMap n). \<Union>cmd \<in> set (?cmds (snd p)). cmd_regs a cmd)"
    unfolding connect_commands_def UN_concat by (simp only: case_prod_beta)
  also have "\<dots> = (\<Union>p \<in> set (n_topicMap n). ?regs (snd p))"
  proof (rule SUP_cong [OF refl])
    fix p assume "p \<in> set (n_topicMap n)"
    then show "(\<Union>cmd \<in> set (?cmds (snd p)). cmd_regs a cmd) = ?regs (snd p)" using eq [of "fst p" "snd p"] by simp
  qed
  also have "\<dots> = provides a n" unfolding provides_def by force
  finally show ?thesis .
qed

lemma not_identified:
  assumes "lk_inv db L" "L a = Some None"
  shows "(k, a) \<notin> regs db"
proof
  assume "(k, a) \<in> regs db"
  then obtain r where "entry db k a = Some r" by (auto simp: regs_def)
  then have "L a = Some (Some (pr_peerInfo (db_producers db r)))" using assms(1) by (simp add: lk_inv_def owned_def)
  then show False using assms(2) by simp
qed

section \<open>A connection that identifies itself\<close>

lemma identify_line:
  assumes "cv_reader c = bytes_of ''IDENTIFY'' @ [newline] @ bs"
  shows "lk_step x (c, db) = do { (r, s) <- lookup_IDENTIFY x (c\<lparr>cv_reader := bs\<rparr>, db); Some (lk_answer r s) }"
proof -
  have t: "takeWhile (\<lambda>b. b \<noteq> newline) (bytes_of ''IDENTIFY'' @ newline # bs) = bytes_of ''IDENTIFY''"
    by (subst takeWhile_append2) (auto simp: bytes_of_def newline_def)
  have r: "ReadString c = (Inr (bytes_of ''IDENTIFY'' @ [newline]), c\<lparr>cv_reader := bs\<rparr>)"
    using assms t by (simp add: ReadString_def)
  have "plain (hd (bytes_of ''IDENTIFY''))" "plain (last (bytes_of ''IDENTIFY''))" "bytes_of ''IDENTIFY'' \<noteq> []"
    "space \<notin> set (bytes_of ''IDENTIFY'')" by code_simp+
  then have "map text_of (split_bytes space (TrimSpace (bytes_of ''IDENTIFY'' @ [newline]))) = [''IDENTIFY'']"
    by (simp add: TrimSpace_line split_word)
  then show ?thesis by (simp add: lk_step_def r lookup_Exec_def)
qed

definition sample_lctx :: lctx where
  "sample_lctx = \<lparr>y_unmarshal = (\<lambda>b. Inr \<lparr>pj_RemoteAddress = [], pj_Hostname = ''host'', pj_BroadcastAddress = ''host'',
     pj_TCPPort = 4150, pj_HTTPPort = 4151, pj_Version = ''1.2.0''\<rparr>), y_hostname = Inr ''lookup'',
     y_marshal = (\<lambda>h. Inr []), y_now = 5\<rparr>"

definition sample_wire :: "lookup_cmd \<Rightarrow> bytes" where
  "sample_wire cmd = (case cmd of
      LRegister t ch \<Rightarrow> bytes_of (''REGISTER '' @ t @ (if ch = [] then [] else '' '' @ ch)) @ [newline]
    | LUnRegister t ch \<Rightarrow> bytes_of (''UNREGISTER '' @ t @ (if ch = [] then [] else '' '' @ ch)) @ [newline]
    | LPing \<Rightarrow> bytes_of ''PING'' @ [newline])"

lemma sample_register_line: "register_line sample_wire"
  by (simp add: register_line_def sample_wire_def)

lemma sample_identified:
  "\<exists>db c. lookupd_reach (NewLookupdOptions ''lookup'') db [''h:1'' \<mapsto> c] \<and> cv_peerInfo c = Some 0 \<and>
     w_room (cv_conn c) = None \<and> cv_reader c = rest \<and> (Reg ''client'' [] [], ''h:1'') \<in> regs db"
proof -
  let ?o = "NewLookupdOptions ''lookup''" and ?db = NewRegistrationDB
  let ?c = "NewClientV1 ''h:1'' (bytes_of ''IDENTIFY'' @ [newline] @ be_encode 4 (0 :: u32) @ rest) buffer"
  have r: "lookupd_reach ?o ?db [''h:1'' \<mapsto> ?c]" by (rule lookupd_reach.connect [OF lookupd_reach.start]) simp
  have "be_decode (be_encode 4 (0 :: u32)) = (0 :: u32)" by (rule be_decode_encode) simp
  moreover have "lk_step sample_lctx (?c, ?db) =
      do { (r, s) <- lookup_IDENTIFY sample_lctx (?c\<lparr>cv_reader := be_encode 4 (0 :: u32) @ rest\<rparr>, ?db); Some (lk_answer r s) }"
    by (rule identify_line) (simp add: NewClientV1_def)
  ultimately obtain c' db' where s: "lk_step sample_lctx (?c, ?db) = Some (LkContinue (c', db'))" "cv_peerInfo c' = Some 0"
    "w_room (cv_conn c') = None" "cv_reader c' = rest" "(Reg ''client'' [] [], ''h:1'') \<in> regs db'"
    by (simp add: NewClientV1_def lookup_IDENTIFY_def lk_read_def
        sample_lctx_def missing_fields_def identify_response_def lk_answer_def lk_respond_def SendResponse_def w_write_def buffer_def
        NewRegistrationDB_def AddProducer_regs new_producer_def new_peer_def Let_def)
  from lookupd_reach.command [OF r _ s(1), of "''h:1''"] have "lookupd_reach ?o db' [''h:1'' \<mapsto> c']" by simp
  with s show ?thesis by blast
qed

section \<open>Properties\<close>

text \<open>C11. The commands an nsqd sends when it connects to an nsqlookupd register exactly what it has: after
  them the database holds, in addition to what it held, an entry for each of its topics and each of their
  channels, under the address of the connection, and nothing else; every command is accepted.\<close>

theorem announcement_registers_all:
  assumes "register_line wire" "names_ok n" "lookupd_reach opts db cs" "cs a = Some c" "cv_peerInfo c = Some p"
    "w_room (cv_conn c) = None" "cv_reader c = concat (map wire (connect_commands n)) @ rest"
  shows "\<exists>c' db'. lk_rounds xs 0 (length (connect_commands n)) (c, db) = Some (c', db') \<and> cv_reader c' = rest \<and>
    regs db' = regs db \<union> provides a n"
proof -
  have "lk_inv db (live cs)" "live cs a = Some (Some p)"
    using reach_inv [OF assms(3)] assms(4,5) by (auto simp: live_def)
  from register_rounds [OF assms(1) connect_commands_good [OF assms(2)] this assms(5-7), of xs 0]
  show ?thesis unfolding connect_commands_regs [OF assms(2)] by blast
qed

definition sample_node :: "ioState NSQD" where
  "sample_node = sample_nsqd\<lparr>n_topicMap :=
     [(''t'', sample_topic\<lparr>t_name := ''t'', t_channelMap := [(''ch'', sample_channel)]\<rparr>)]\<rparr>"

lemma sample_node_names: "names_ok sample_node"
proof -
  have "c_topicName sample_channel = ''t''" "c_name sample_channel = ''ch''"
    by (simp_all add: sample_channel_def NewChannel_def Channel_initPQ_def Let_def)
  moreover have "isValidName ''t''" "isValidName ''ch''" by code_simp+
  ultimately show ?thesis by (simp add: names_ok_def sample_node_def)
qed

theorem announcement_registers_all_witness:
  "\<exists>c db c' db'. lk_rounds (\<lambda>_. sample_lctx) 0 (length (connect_commands sample_node)) (c, db) = Some (c', db') \<and>
     regs db' = regs db \<union> provides ''h:1'' sample_node"
proof -
  obtain db c where s: "lookupd_reach (NewLookupdOptions ''lookup'') db [''h:1'' \<mapsto> c]" "cv_peerInfo c = Some 0"
    "w_room (cv_conn c) = None" "cv_reader c = concat (map sample_wire (connect_commands sample_node)) @ []"
    using sample_identified [of "concat (map sample_wire (connect_commands sample_node)) @ []"] by blast
  have "[''h:1'' \<mapsto> c] ''h:1'' = Some c" by simp
  from announcement_registers_all [OF sample_register_line sample_node_names s(1) this s(2-4)] show ?thesis by blast
qed



text \<open>When a connection ends, everything registered under its address is gone, and the registrations of
  all others are untouched.\<close>

theorem disconnect_unregisters:
  assumes "lookupd_reach opts db cs" "cs a = Some c" "lk_step x (c, db) = Some (LkStop e (c', db'))"
  shows "regs (snd (lk_close (c', db'))) = {(k, i) \<in> regs db'. i \<noteq> a}"
proof -
  have inv: "lk_inv db (live cs)" and c: "cv_addr c = a" "live cs a = Some (cv_peerInfo c)"
    using reach_inv [OF assms(1)] assms(2) by (auto simp: live_def addr_ok_def)
  have e: "lk_effect a (cv_peerInfo c, db) (cv_peerInfo c', db')"
    using step_effect [OF assms(3), of c' db'] c(1) by simp
  have inv': "lk_inv db' ((live cs)(a \<mapsto> cv_peerInfo c'))" by (rule effect_inv [OF e inv c(2)])
  show ?thesis
  proof (cases "cv_peerInfo c'")
    case None
    then show ?thesis using not_identified [OF inv', of a] by (auto simp: lk_close_def)
  next
    case (Some p)
    then have "pe_id (db_peers db' p) = a" "db_ok db'" using inv' by (auto simp: lk_inv_def owned_def)
    then show ?thesis using drop_id_regs [of db' a] Some by (simp add: lk_close_def drop_id_def Let_def)
  qed
qed

theorem disconnect_unregisters_witness:
  "\<exists>db' c'. (Reg ''client'' [] [], ''h:1'') \<in> regs db' \<and> regs (snd (lk_close (c', db'))) = {(k, i) \<in> regs db'. i \<noteq> ''h:1''}"
proof -
  obtain db c where s: "lookupd_reach (NewLookupdOptions ''lookup'') db [''h:1'' \<mapsto> c]" "cv_reader c = []"
    "(Reg ''client'' [] [], ''h:1'') \<in> regs db"
    using sample_identified by blast
  have e: "lk_step sample_lctx (c, db) = Some (LkStop (Some ''EOF'') (c\<lparr>cv_reader := []\<rparr>, db))"
    using s(2) by (simp add: lk_step_def ReadString_def)
  show ?thesis using disconnect_unregisters [OF s(1) _ e, of "''h:1''"] s(3) by auto
qed

text \<open>The direct lookup that the database makes when neither name is a wildcard gives the same result as the
  scan over all registrations that it makes otherwise, for registrations and for producers.\<close>

theorem direct_lookup_is_scan:
  assumes "lookupd_reach opts db cs"
  shows "FindRegistrations category key subkey db =
      filter (IsMatch category key subkey) (map fst (db_registrationMap db)) \<and>
    FindProducers category key subkey db =
      find_loop db (concat (map (map snd \<circ> snd) (filter (IsMatch category key subkey \<circ> fst) (db_registrationMap db)))) []"
proof -
  have ok: "db_ok db" using reach_inv [OF assms] by (simp add: lk_inv_def)
  show ?thesis using FindProducers_scan [OF ok] unfolding FindRegistrations_scan [OF ok] by (simp add: matching_def filter_map)
qed

theorem direct_lookup_is_scan_witness:
  "\<exists>db. (Reg ''client'' [] [], ''h:1'') \<in> regs db \<and>
     FindRegistrations ''client'' [] [] db = filter (IsMatch ''client'' [] []) (map fst (db_registrationMap db))"
proof -
  obtain db c where s: "lookupd_reach (NewLookupdOptions ''lookup'') db [''h:1'' \<mapsto> c]"
    "(Reg ''client'' [] [], ''h:1'') \<in> regs db"
    using sample_identified by blast
  show ?thesis using direct_lookup_is_scan [OF s(1)] s(2) by blast
qed

text \<open>C12. A lookup of a topic fails with \<open>TOPIC_NOT_FOUND\<close> exactly when the topic is not known. Otherwise it names
  exactly the known channels of the topic and exactly the nodes that are connected, have registered the topic,
  have identified themselves or sent a PING within the inactivity timeout, and are not tombstoned for it.\<close>

theorem lookup_reports_live_producers:
  assumes "lookupd_reach opts db cs" "NewReqParams req = Inr rp" "ReqParams_Get ''topic'' rp = Inr t" "t \<noteq> ''*''"
  shows "if Reg ''topic'' t [] \<notin> known db
    then fst (lookup_doLookup opts now at req db) = Inl (Err 404 ''TOPIC_NOT_FOUND'')
    else \<exists>chs peers. fst (lookup_doLookup opts now at req db) = Inr (DValue (LLookup chs peers)) \<and>
      set chs = {c. Reg ''channel'' t c \<in> known db} \<and>
      set peers = {db_peers db p |p a c r. cs a = Some c \<and> cv_peerInfo c = Some p \<and> entry db (Reg ''topic'' t []) a = Some r \<and>
        now - pe_lastUpdate (db_peers db p) \<le> lo_InactiveProducerTimeout opts \<and>
        \<not> IsTombstoned (at r) (lo_TombstoneLifetime opts) (db_producers db r)}"
proof -
  have ok: "db_ok db" "lk_inv db (live cs)" using reach_inv [OF assms(1)] by (auto simp: lk_inv_def)
  have nf: "\<not> needFilter t []" using assms(4) by (simp add: needFilter_def)
  have f: "FindRegistrations ''topic'' t [] db = [] \<longleftrightarrow> Reg ''topic'' t [] \<notin> known db"
    using nf by (simp add: FindRegistrations_def known_iff Let_def split: option.split)
  have o': "\<exists>c. cs a = Some c \<and> cv_peerInfo c = Some (pr_peerInfo (db_producers db r))"
    if "entry db (Reg ''topic'' t []) a = Some r" for a r
    using that ok(2) by (auto simp: lk_inv_def owned_def live_def)
  let ?ps = "FilterByActive now at (lo_InactiveProducerTimeout opts) (lo_TombstoneLifetime opts) db (FindProducers ''topic'' t [] db)"
  have p: "set (Producers_PeerInfo db ?ps) = {db_peers db p |p a c r. cs a = Some c \<and> cv_peerInfo c = Some p \<and>
        entry db (Reg ''topic'' t []) a = Some r \<and> now - pe_lastUpdate (db_peers db p) \<le> lo_InactiveProducerTimeout opts \<and>
        \<not> IsTombstoned (at r) (lo_TombstoneLifetime opts) (db_producers db r)}" (is "?A = ?B")
  proof (intro set_eqI iffI)
    fix pe assume "pe \<in> ?A"
    then obtain r a where r: "entry db (Reg ''topic'' t []) a = Some r" "pe = db_peers db (pr_peerInfo (db_producers db r))"
      "now - pe_lastUpdate pe \<le> lo_InactiveProducerTimeout opts"
      "\<not> IsTombstoned (at r) (lo_TombstoneLifetime opts) (db_producers db r)"
      by (auto simp: Producers_PeerInfo_def FilterByActive_def FindProducers_exact(1) [OF ok(1) nf] peer_of_def)
    then show "pe \<in> ?B" using o' [OF r(1)] by blast
  next
    fix pe assume "pe \<in> ?B"
    then obtain p a c r where r: "pe = db_peers db p" "cs a = Some c" "cv_peerInfo c = Some p"
      "entry db (Reg ''topic'' t []) a = Some r" "now - pe_lastUpdate (db_peers db p) \<le> lo_InactiveProducerTimeout opts"
      "\<not> IsTombstoned (at r) (lo_TombstoneLifetime opts) (db_producers db r)" by blast
    then have "p = pr_peerInfo (db_producers db r)" using o' [OF r(4)] by auto
    then show "pe \<in> ?A" using r
      by (auto simp: Producers_PeerInfo_def FilterByActive_def FindProducers_exact(1) [OF ok(1) nf] peer_of_def image_iff)
  qed
  have "set (Registrations_SubKeys (FindRegistrations ''channel'' t ''*'' db)) = {c. Reg ''channel'' t c \<in> known db}"
  proof -
    have "IsMatch ''channel'' t ''*'' k \<longleftrightarrow> (\<exists>c. k = Reg ''channel'' t c)" for k
      using assms(4) by (cases k) (auto simp: IsMatch_def)
    then show ?thesis by (auto simp: Registrations_SubKeys_def FindRegistrations_set [OF ok(1)] image_iff)
      (metis Registration.select_convs(3))
  qed
  with p show ?thesis using assms(2,3) f
    by (simp add: lookup_doLookup_def with_topic_arg_def Let_def)
qed

definition sample_req :: "string \<Rightarrow> http_req" where
  "sample_req t = \<lparr>q_Method = ''GET'', q_Path = ''/lookup'', q_Query = Inr [(''topic'', t, [])], q_Body = Inr [], q_ContentLength = 0\<rparr>"

theorem lookup_reports_live_producers_witness:
  "fst (lookup_doLookup (NewLookupdOptions ''lookup'') 9 (\<lambda>_. 9) (sample_req ''t'') NewRegistrationDB) =
     Inl (Err 404 ''TOPIC_NOT_FOUND'')"
  using lookup_reports_live_producers [OF lookupd_reach.start, of "sample_req ''t''" "\<lparr>rp_Values = [(''topic'', ''t'', [])], rp_Body = []\<rparr>" "''t''"
      "NewLookupdOptions ''lookup''" 9 "\<lambda>_. 9"]
  by (simp add: sample_req_def NewReqParams_def ReqParams_Get_def known_def NewRegistrationDB_def)

text \<open>An IDENTIFY whose length field is negative ends the whole nsqlookupd process: the length is passed to
  \<open>make\<close> without a check.\<close>

theorem identify_negative_length_panics:
  assumes "cv_peerInfo c = None" "cv_reader c = bytes_of ''IDENTIFY'' @ [newline] @ be_encode 4 len @ rest" "sint (len :: u32) < 0"
  shows "lk_step x (c, db) = None"
proof -
  have "be_decode (be_encode 4 len) = len" by (rule be_decode_encode) simp
  then show ?thesis using assms(1,3) by (simp add: identify_line [OF assms(2)] lookup_IDENTIFY_def lk_read_def)
qed

theorem identify_negative_length_panics_witness:
  "lk_step sample_lctx (NewClientV1 ''h:1'' (bytes_of ''IDENTIFY'' @ [newline] @ be_encode 4 (- 1 :: u32)) buffer,
     NewRegistrationDB) = None"
  by (rule identify_negative_length_panics [of _ "- 1" "[]"]) (simp_all add: NewClientV1_def)

end
