(* ===== verification/Nsq_LookupPeerProps.thy ===== *)
theory Nsq_LookupPeerProps
  imports Nsq_LookupPeer Nsq_HttpProps
begin

text \<open>
  The connections of an nsqd to its nsqlookupd instances: what a reconnect announces, and how the set
  of peers follows the configuration. An answer \<open>b\<close> of nsqlookupd is on the wire the frame \<open>enc b\<close>
  that \<open>SendResponse\<close> writes.
\<close>

section \<open>Round trips on a connection\<close>

definition fits :: "lookupPeer \<Rightarrow> bytes \<Rightarrow> bool" where
  "fits lp b \<longleftrightarrow> int (length b) \<le> lp_maxBodySize lp \<and> length b < 2 ^ 31"

lemma SendResponse_enc:
  "w_room w = None \<Longrightarrow> SendResponse w b = (length b + 4, None, w\<lparr>w_out := w_out w @ enc b\<rparr>)"
  by (simp add: SendResponse_def w_write_def enc_def)

lemma readResponseBounded_enc:
  assumes "int (length b) \<le> limit" "length b < 2 ^ 31"
  shows "readResponseBounded limit (enc b @ rest) = Some (Inr b, rest)"
proof -
  have "sint (of_nat (length b) :: u32) = int (length b)" using assms(2) by (simp add: signed_of_nat signed_take_bit_int_eq_self)
  then show ?thesis using assms(1) by (simp add: readResponseBounded_def conn_read_def enc_def)
qed

text \<open>A negative length is not refused: it panics.\<close>

lemma negative_response_panics:
  assumes "sint (len :: u32) < 0" "0 \<le> limit"
  shows "readResponseBounded limit (be_encode 4 len @ rest) = None"
  using assms by (simp add: readResponseBounded_def conn_read_def)

lemma lp_roundtrip_enc:
  assumes "lp_conn lp = Some (enc b @ rest, w)" "w_room w = None" "fits lp b"
  shows "lp_roundtrip cmd lp = Some (Inr b, lp\<lparr>lp_conn := Some (rest, w\<lparr>w_out := w_out w @ cmd\<rparr>)\<rparr>)"
  using assms by (simp add: lp_roundtrip_def lp_Write_def lp_Read_def w_write_def fits_def readResponseBounded_enc)

lemma send_commands_enc:
  assumes "lp_conn lp = Some (concat (map enc rs) @ rest, w)" "w_room w = None" "\<forall>b \<in> set rs. fits lp b"
    "length rs = length cmds"
  shows "send_commands cmds lp = Some (lp\<lparr>lp_conn := Some (rest, w\<lparr>w_out := w_out w @ concat cmds\<rparr>)\<rparr>)"
  using assms
proof (induction cmds arbitrary: lp rs w)
  case (Cons cmd cmds)
  then obtain b bs where rs: "rs = b # bs" by (cases rs) auto
  let ?w = "w\<lparr>w_out := w_out w @ cmd\<rparr>"
  let ?lp = "lp\<lparr>lp_conn := Some (concat (map enc bs) @ rest, ?w)\<rparr>"
  have "lp_roundtrip cmd lp = Some (Inr b, ?lp)" using Cons.prems rs by (intro lp_roundtrip_enc) auto
  moreover have "send_commands cmds ?lp = Some (?lp\<lparr>lp_conn := Some (rest, ?w\<lparr>w_out := w_out ?w @ concat cmds\<rparr>)\<rparr>)"
    using Cons.prems rs by (intro Cons.IH [of _ bs]) (auto simp: fits_def)
  ultimately show ?case by simp
qed simp

section \<open>The state of a peer\<close>

text \<open>A failed round trip disconnects the peer, a successful one leaves it as it was.\<close>

lemma lp_roundtrip_state:
  assumes "lp_roundtrip cmd lp = Some (r, lp')"
  shows "lp_addr lp' = lp_addr lp \<and> lp_state lp' = (case r of Inl _ \<Rightarrow> stateDisconnected | Inr _ \<Rightarrow> lp_state lp)"
  using assms
  by (auto simp: lp_roundtrip_def lp_Write_def lp_Read_def lp_Close_def
      split: bind_splits option.splits sum.splits prod.splits)

lemma send_commands_state:
  "send_commands cmds lp = Some lp' \<Longrightarrow> lp_addr lp' = lp_addr lp \<and> lp_state lp' \<in> {lp_state lp, stateDisconnected}"
proof (induction cmds arbitrary: lp)
  case (Cons cmd cmds)
  then obtain r lp1 where 1: "lp_roundtrip cmd lp = Some (r, lp1)" by (auto split: bind_splits)
  from lp_roundtrip_state [OF this] Cons.prems Cons.IH [of lp1] show ?case
    by (cases r) (auto simp: 1)
qed simp

lemma connectCallback_state:
  assumes "connectCallback y n lp = Some lp'"
  shows "lp_addr lp' = lp_addr lp \<and> lp_state lp' \<in> {lp_state lp, stateDisconnected}"
  using assms
  by (auto simp: connectCallback_def lp_Close_def split: sum.splits bind_splits if_splits prod.splits option.splits
      dest!: lp_roundtrip_state send_commands_state)

text \<open>An error of \<open>Command\<close> leaves the peer disconnected, so that the next command dials again; without one it is
  connected.\<close>

lemma lp_finish_state:
  assumes "lp_finish cmd lp = Some (r, lp')" "lp_state lp = stateConnected"
  shows "lp_addr lp' = lp_addr lp \<and> lp_state lp' = (case r of Inl _ \<Rightarrow> stateDisconnected | Inr _ \<Rightarrow> stateConnected)"
proof (cases cmd)
  case (Some c)
  then obtain r0 where r0: "lp_roundtrip c lp = Some (r0, lp')" "r = (case r0 of Inl e \<Rightarrow> Inl e | Inr b \<Rightarrow> Inr (Some b))"
    using assms(1) by (auto simp: lp_finish_def split: bind_splits)
  from lp_roundtrip_state [OF r0(1)] r0(2) assms(2) show ?thesis by (cases r0) auto
qed (use assms in \<open>auto simp: lp_finish_def\<close>)

lemma lp_Command_state:
  assumes "lp_Command y n cmd lp = Some (r, lp')" "lp_state lp \<in> {stateConnected, stateDisconnected}"
  shows "lp_addr lp' = lp_addr lp \<and> lp_state lp' = (case r of Inl _ \<Rightarrow> stateDisconnected | Inr _ \<Rightarrow> stateConnected)"
proof (cases "lp_state lp = stateConnected")
  case True
  then show ?thesis using assms(1) lp_finish_state [of cmd lp r lp'] by (simp add: lp_Command_def)
next
  case False
  then show ?thesis using assms
    by (auto simp: lp_Command_def lp_Connect_def lp_Write_def lp_Close_def Let_def
        split: list.splits sum.splits option.splits bind_splits prod.splits if_splits
        dest!: lp_finish_state connectCallback_state)
qed

section \<open>The loop over the peers\<close>

definition peer_ok :: "lookupPeer \<Rightarrow> bool" where
  "peer_ok lp \<longleftrightarrow> lp_state lp \<in> {stateConnected, stateDisconnected}"

definition ll_inv :: "lookup_loop \<Rightarrow> bool" where
  "ll_inv s \<longleftrightarrow> ll_addrs s = map lp_addr (ll_peers s) \<and> distinct (ll_addrs s) \<and> list_all peer_ok (ll_peers s)"

text \<open>The states of the loop: it starts without peers, every iteration connects when asked to and then takes
  one event. Between the steps the daemon, its configuration and the network change freely.\<close>

inductive ll_reach :: "lookup_loop \<Rightarrow> bool" where
  start: "ll_reach \<lparr>ll_peers = [], ll_addrs = [], ll_connect = True\<rparr>"
| top: "ll_reach s \<Longrightarrow> ll_top y (n :: ioState NSQD) hosts dials s = Some s' \<Longrightarrow> ll_reach s'"
| select: "ll_reach s \<Longrightarrow> ll_select y (n :: ioState NSQD) hosts ev s = Some s' \<Longrightarrow> ll_reach s'"

lemma lp_Command_ok:
  "lp_Command y n cmd lp = Some (r, lp') \<Longrightarrow> peer_ok lp \<Longrightarrow> peer_ok lp' \<and> lp_addr lp' = lp_addr lp"
  using lp_Command_state [of y n cmd lp r lp'] by (auto simp: peer_ok_def split: sum.splits)

lemma add_peers_ok:
  assumes "add_peers y n mx dials hosts (lps, map lp_addr lps) = Some (lps', addrs')"
    "distinct (map lp_addr lps)" "list_all peer_ok lps"
  shows "addrs' = map lp_addr lps' \<and> distinct addrs' \<and> list_all peer_ok lps' \<and> set addrs' = set hosts \<union> lp_addr ` set lps \<and>
    take (length lps) lps' = lps"
  using assms
proof (induction hosts arbitrary: lps)
  case (Cons host hosts)
  show ?case
  proof (cases "host \<in> lp_addr ` set lps")
    case True
    then show ?thesis using Cons.prems Cons.IH [of lps] by (auto simp: list_in_def)
  next
    case False
    then obtain r lp where lp: "lp_Command y n None (newLookupPeer host mx (dials host)) = Some (r, lp)"
      "add_peers y n mx dials hosts (lps @ [lp], map lp_addr lps @ [host]) = Some (lps', addrs')"
      using Cons.prems(1) by (auto simp: list_in_def split: bind_splits)
    have "peer_ok lp" "lp_addr lp = host"
      using lp_Command_ok [OF lp(1)] by (simp_all add: peer_ok_def newLookupPeer_def)
    then have "addrs' = map lp_addr lps' \<and> distinct addrs' \<and> list_all peer_ok lps' \<and>
        set addrs' = set hosts \<union> lp_addr ` set (lps @ [lp]) \<and> take (length (lps @ [lp])) lps' = lps @ [lp]"
      using lp(2) Cons.prems(2,3) False by (intro Cons.IH) (auto simp: image_iff)
    moreover have "take (length lps) lps' = lps" if "take (length (lps @ [lp])) lps' = lps @ [lp]"
      using arg_cong [OF that, of "take (length lps)"] by (simp add: min_def)
    ultimately show ?thesis using \<open>lp_addr lp = host\<close> by auto
  qed
qed auto

lemma command_all_ok:
  "command_all y n cmd lps = Some lps' \<Longrightarrow> list_all peer_ok lps \<Longrightarrow>
     list_all peer_ok lps' \<and> map lp_addr lps' = map lp_addr lps"
  by (induction lps arbitrary: lps') (fastforce split: bind_splits dest: lp_Command_ok)+

lemma ll_top_ok:
  assumes "ll_top y n hosts dials s = Some s'" "ll_inv s"
  shows "ll_inv s' \<and> (ll_connect s \<longrightarrow> set (ll_addrs s') = set hosts \<union> set (ll_addrs s) \<and>
    take (length (ll_peers s)) (ll_peers s') = ll_peers s)"
proof (cases "ll_connect s")
  case True
  then obtain lps addrs where
    a: "add_peers y n (o_MaxBodySize (n_opts n)) dials hosts (ll_peers s, map lp_addr (ll_peers s)) = Some (lps, addrs)" and
    s': "s' = \<lparr>ll_peers = lps, ll_addrs = addrs, ll_connect = False\<rparr>"
    using assms by (auto simp: ll_top_def ll_inv_def split: bind_splits)
  have i: "distinct (map lp_addr (ll_peers s))" "list_all peer_ok (ll_peers s)" "ll_addrs s = map lp_addr (ll_peers s)"
    using assms(2) by (auto simp: ll_inv_def)
  show ?thesis using add_peers_ok [OF a i(1,2)] i(3) by (auto simp: s' ll_inv_def)
qed (use assms in \<open>simp add: ll_top_def\<close>)

lemma ll_select_inv: "ll_select y n hosts ev s = Some s' \<Longrightarrow> ll_inv s \<Longrightarrow> ll_inv s'"
  by (cases ev) (auto simp: ll_inv_def Let_def list_all_iff distinct_map_filter dest!: command_all_ok [unfolded list_all_iff])

lemma ll_reach_inv: "ll_reach s \<Longrightarrow> ll_inv s"
proof (induction rule: ll_reach.induct)
  case start
  then show ?case by (simp add: ll_inv_def)
next
  case top
  then show ?case using ll_top_ok by blast
next
  case select
  then show ?case using ll_select_inv by blast
qed

section \<open>Properties\<close>

text \<open>C18. A disconnected peer on which a command is sent dials, and on the new connection the magic bytes, the
  identification, one REGISTER per topic without channels and per channel, and then the command go out, in this
  order; each is answered before the next one is sent. The peer ends connected, with the identity nsqlookupd
  sent, and the command's answer is returned.\<close>

theorem reconnect_reannounces:
  assumes "lp_state lp = stateDisconnected"
    "lp_dials lp = Inr (enc info @ concat (map enc rs) @ enc r @ rest, w) # ds" "w_room w = None"
    "an_identify y = Inr idc" "info \<noteq> bytes_of ''E_INVALID''" "an_unmarshal y info (lp_Info lp) = (None, i)"
    "length rs = length (connect_commands n)" "\<forall>b \<in> set (info # rs @ [r]). fits lp b"
  shows "lp_Command y n (Some cmd) lp = Some (Inr (Some r),
    lp\<lparr>lp_dials := ds, lp_state := stateConnected, lp_Info := i, lp_conn := Some (rest,
      w\<lparr>w_out := w_out w @ an_magic y @ idc @ concat (map (an_wire y) (connect_commands n)) @ cmd\<rparr>)\<rparr>)"
proof -
  define out where "out bs = w\<lparr>w_out := w_out w @ bs\<rparr>" for bs
  define on where "on inp bs = lp\<lparr>lp_dials := ds, lp_state := stateConnected, lp_conn := Some (inp, out bs)\<rparr>" for inp bs
  let ?regs = "concat (map (an_wire y) (connect_commands n))"
  have 1: "lp_roundtrip idc (on (enc info @ concat (map enc rs) @ enc r @ rest) (an_magic y)) =
      Some (Inr info, on (concat (map enc rs) @ enc r @ rest) (an_magic y @ idc))"
    using assms(3,8) lp_roundtrip_enc [of "on (enc info @ concat (map enc rs) @ enc r @ rest) (an_magic y)" info _ "out (an_magic y)" idc]
    by (simp add: on_def out_def fits_def)
  have 2: "send_commands (map (an_wire y) (connect_commands n))
        ((on (concat (map enc rs) @ enc r @ rest) (an_magic y @ idc))\<lparr>lp_Info := i\<rparr>) =
      Some ((on (enc r @ rest) (an_magic y @ idc @ ?regs))\<lparr>lp_Info := i\<rparr>)"
    using assms(3,7,8) by (subst send_commands_enc [of _ rs "enc r @ rest" "out (an_magic y @ idc)"]) (auto simp: on_def out_def fits_def)
  have 3: "lp_roundtrip cmd ((on (enc r @ rest) (an_magic y @ idc @ ?regs))\<lparr>lp_Info := i\<rparr>) =
      Some (Inr r, (on rest (an_magic y @ idc @ ?regs @ cmd))\<lparr>lp_Info := i\<rparr>)"
    using assms(3,8) by (subst lp_roundtrip_enc [of _ r rest "out (an_magic y @ idc @ ?regs)"]) (auto simp: on_def out_def fits_def)
  have "connectCallback y n (on (enc info @ concat (map enc rs) @ enc r @ rest) (an_magic y)) =
      Some ((on (enc r @ rest) (an_magic y @ idc @ ?regs))\<lparr>lp_Info := i\<rparr>)"
    using assms(4-6) 1 2 by (simp add: connectCallback_def on_def)
  then show ?thesis
    using assms(1-3) 3 by (simp add: lp_Command_def lp_finish_def lp_Connect_def lp_Write_def w_write_def on_def out_def)
qed

definition sample_anctx :: anctx where
  "sample_anctx = \<lparr>an_magic = bytes_of ''  V1'', an_wire = sample_wire, an_identify = Inr (bytes_of ''IDENTIFY'' @ [newline]),
     an_unmarshal = (\<lambda>b info. (None, info\<lparr>li_HTTPPort := 4161\<rparr>))\<rparr>"

definition sample_peer :: lookupPeer where
  "sample_peer = newLookupPeer ''l:1'' 100
     [Inr (enc (bytes_of ''{}'') @ concat (map enc [bytes_of ''OK'']) @ enc (bytes_of ''OK'') @ [], buffer)]"

lemma sample_node_commands: "connect_commands sample_node = [LRegister ''t'' ''ch'']"
  by (simp add: connect_commands_def sample_node_def sample_channel_def NewChannel_def Channel_initPQ_def Let_def)

theorem reconnect_reannounces_witness:
  "\<exists>lp. lp_Command sample_anctx sample_node (Some (sample_wire LPing)) sample_peer = Some (Inr (Some (bytes_of ''OK'')), lp) \<and>
     map_option (w_out \<circ> snd) (lp_conn lp) =
       Some (bytes_of ''  V1IDENTIFY'' @ [newline] @ bytes_of ''REGISTER t ch'' @ [newline] @ bytes_of ''PING'' @ [newline])"
proof -
  let ?info = "lp_Info sample_peer\<lparr>li_HTTPPort := 4161\<rparr>" and ?ok = "bytes_of ''OK''"
  have "lp_state sample_peer = stateDisconnected"
    "lp_dials sample_peer = Inr (enc (bytes_of ''{}'') @ concat (map enc [?ok]) @ enc ?ok @ [], buffer) # []"
    "w_room buffer = None" "an_identify sample_anctx = Inr (bytes_of ''IDENTIFY'' @ [newline])"
    "bytes_of ''{}'' \<noteq> bytes_of ''E_INVALID''"
    "an_unmarshal sample_anctx (bytes_of ''{}'') (lp_Info sample_peer) = (None, ?info)"
    "length [?ok] = length (connect_commands sample_node)"
    "\<forall>b \<in> set (bytes_of ''{}'' # [?ok] @ [?ok]). fits sample_peer b"
    by (simp_all add: sample_peer_def newLookupPeer_def sample_anctx_def sample_node_commands fits_def buffer_def bytes_of_def)
  from reconnect_reannounces [OF this, of "sample_wire LPing"] show ?thesis
    unfolding sample_node_commands by (intro exI conjI, assumption) (simp add: sample_anctx_def sample_wire_def buffer_def bytes_of_def)
qed

text \<open>C19. When the configured addresses of nsqlookupd instances change, the next iteration of the loop has
  exactly one peer for each configured address and none for another one, whatever the loop did before; the peers that
  stay keep their connections.\<close>

theorem lookup_loop_follows_configuration:
  assumes "ll_reach s" "ll_select y n hosts LlOptions s = Some s1" "ll_top y n hosts dials s1 = Some s2"
  shows "set (map lp_addr (ll_peers s2)) = set hosts \<and> distinct (map lp_addr (ll_peers s2)) \<and>
    ll_addrs s2 = map lp_addr (ll_peers s2) \<and>
    (\<exists>new. ll_peers s2 = filter (\<lambda>lp. lp_addr lp \<in> set hosts) (ll_peers s) @ new)"
proof -
  have s1: "ll_peers s1 = filter (\<lambda>lp. lp_addr lp \<in> set hosts) (ll_peers s)" "ll_addrs s1 = map lp_addr (ll_peers s1)"
    "ll_connect s1" using assms(2) by (auto simp: list_in_def Let_def)
  have "ll_inv s1" using ll_select_inv [OF assms(2)] ll_reach_inv [OF assms(1)] by simp
  from ll_top_ok [OF assms(3) this] s1 have 2: "ll_inv s2" "set (ll_addrs s2) = set hosts \<union> set (ll_addrs s1)"
    "take (length (ll_peers s1)) (ll_peers s2) = ll_peers s1" by auto
  from 2(3) have "ll_peers s2 = ll_peers s1 @ drop (length (ll_peers s1)) (ll_peers s2)"
    by (metis append_take_drop_id)
  moreover have "set (ll_addrs s1) \<subseteq> set hosts" using s1 by auto
  ultimately show ?thesis using 2 s1(1) by (auto simp: ll_inv_def)
qed

theorem lookup_loop_follows_configuration_witness:
  "\<exists>s2. ll_top sample_anctx sample_node [''l:1'', ''l:2'', ''l:1''] (\<lambda>_. []) \<lparr>ll_peers = [], ll_addrs = [], ll_connect = True\<rparr> = Some s2 \<and>
     lp_addr ` set (ll_peers s2) = {''l:1'', ''l:2''} \<and> distinct (map lp_addr (ll_peers s2))"
proof -
  let ?s = "\<lparr>ll_peers = [], ll_addrs = [], ll_connect = True\<rparr>" and ?hosts = "[''l:1'', ''l:2'', ''l:1'']"
  have 1: "ll_select sample_anctx sample_node ?hosts LlOptions ?s = Some ?s" by simp
  obtain s2 where s2: "ll_top sample_anctx sample_node ?hosts (\<lambda>_. []) ?s = Some s2"
    by (simp add: ll_top_def list_in_def lp_Command_def lp_Connect_def newLookupPeer_def)
  from lookup_loop_follows_configuration [OF ll_reach.start 1 s2]
  have "lp_addr ` set (ll_peers s2) = {''l:1'', ''l:2''}" "distinct (map lp_addr (ll_peers s2))" by auto
  with s2 show ?thesis by blast
qed

end
