(* ===== verification/Nsq_ClusterTypes.thy ===== *)
theory Nsq_ClusterTypes
  imports Nsq_Net
begin

text \<open>
  \<open>internal/clusterinfo/types.go\<close>: what is known about the nsqd instances of a cluster, and their
  statistics. Statistics of channels and topics are objects that lists of several owners share and that
  \<open>Add\<close> changes in place: they live in a store. 64-bit counters are words. Versions are values of the
  external package \<open>semver\<close>; its \<open>Parse\<close> and \<open>LT\<close> are arguments. The latencies, floating-point numbers that only
  are displayed, are left out. \<open>sort.Sort\<close> is a stable sort here; the order of elements with equal
  keys is unspecified in Go, and no property depends on it.
\<close>

section \<open>Producers\<close>

record ProducerTopic =
  pt_Topic :: string
  pt_Tombstoned :: bool

record 'v ClusterProducer =
  pd_RemoteAddresses :: "string list"
  pd_RemoteAddress :: string
  pd_Hostname :: string
  pd_BroadcastAddress :: string
  pd_TCPPort :: int
  pd_HTTPPort :: int
  pd_Version :: string
  pd_VersionObj :: 'v
  pd_Topics :: "ProducerTopic list"
  pd_OutOfDate :: bool

record 'v semver =
  sv_Parse :: "string \<Rightarrow> 'v \<times> go_error option"
  sv_LT :: "'v \<Rightarrow> 'v \<Rightarrow> bool"

text \<open>The structure \<open>UnmarshalJSON\<close> decodes into.\<close>

record raw_producer =
  rw_RemoteAddress :: string
  rw_Hostname :: string
  rw_BroadcastAddress :: string
  rw_TCPPort :: int
  rw_HTTPPort :: int
  rw_Version :: string
  rw_Topics :: "string list"
  rw_Tombstoned :: "bool list"

definition parse_version :: "'v semver \<Rightarrow> string \<Rightarrow> 'v" where
  "parse_version sv s =
     (case sv_Parse sv s of (v, None) \<Rightarrow> v | (_, Some _) \<Rightarrow> fst (sv_Parse sv ''0.0.0''))"

text \<open>The rest of \<open>UnmarshalJSON\<close>. An index past the end of \<open>Tombstoned\<close> panics.\<close>

definition Producer_Unmarshal :: "'v semver \<Rightarrow> raw_producer \<Rightarrow> 'v ClusterProducer option" where
  "Producer_Unmarshal sv r =
     (if length (rw_Tombstoned r) < length (rw_Topics r) then None
      else Some \<lparr>pd_RemoteAddresses = [], pd_RemoteAddress = rw_RemoteAddress r, pd_Hostname = rw_Hostname r,
        pd_BroadcastAddress = rw_BroadcastAddress r, pd_TCPPort = rw_TCPPort r, pd_HTTPPort = rw_HTTPPort r,
        pd_Version = rw_Version r, pd_VersionObj = parse_version sv (rw_Version r),
        pd_Topics = map2 (\<lambda>t b. \<lparr>pt_Topic = t, pt_Tombstoned = b\<rparr>) (rw_Topics r) (rw_Tombstoned r),
        pd_OutOfDate = False\<rparr>)"

definition Producer_Address :: "'v ClusterProducer \<Rightarrow> string" where
  "Producer_Address p = (if pd_RemoteAddress p = [] then ''N/A'' else pd_RemoteAddress p)"

definition HTTPAddress :: "'v ClusterProducer \<Rightarrow> string" where
  "HTTPAddress p = JoinHostPort (pd_BroadcastAddress p) (decimal (pd_HTTPPort p))"

definition TCPAddress :: "'v ClusterProducer \<Rightarrow> string" where
  "TCPAddress p = JoinHostPort (pd_BroadcastAddress p) (decimal (pd_TCPPort p))"

definition IsInconsistent :: "int \<Rightarrow> 'v ClusterProducer \<Rightarrow> bool" where
  "IsInconsistent numLookupd p \<longleftrightarrow> int (length (pd_RemoteAddresses p)) \<noteq> numLookupd"

definition HTTPAddrs :: "'v ClusterProducer list \<Rightarrow> string list" where
  "HTTPAddrs ps = map HTTPAddress ps"

definition Producers_Search :: "string \<Rightarrow> 'v ClusterProducer list \<Rightarrow> 'v ClusterProducer option" where
  "Producers_Search needle ps = find (\<lambda>p. needle = HTTPAddress p) ps"

section \<open>Statistics\<close>

record ClusterClientStats =
  kc_Node :: string
  kc_RemoteAddress :: string
  kc_Version :: string
  kc_ClientID :: string
  kc_Hostname :: string
  kc_UserAgent :: string
  kc_ConnectTs :: i64
  kc_ConnectedDuration :: int
  kc_InFlightCount :: i64
  kc_ReadyCount :: i64
  kc_FinishCount :: i64
  kc_RequeueCount :: i64
  kc_MessageCount :: i64
  kc_SampleRate :: int
  kc_Deflate :: bool
  kc_Snappy :: bool
  kc_Authed :: bool
  kc_AuthIdentity :: string
  kc_AuthIdentityURL :: string
  kc_TLS :: bool
  kc_CipherSuite :: string
  kc_TLSVersion :: string
  kc_TLSNegotiatedProtocol :: string
  kc_TLSNegotiatedProtocolIsMutual :: bool

definition HasUserAgent :: "ClusterClientStats \<Rightarrow> bool" where
  "HasUserAgent c \<longleftrightarrow> kc_UserAgent c \<noteq> []"

definition HasSampleRate :: "ClusterClientStats \<Rightarrow> bool" where
  "HasSampleRate c \<longleftrightarrow> 0 < kc_SampleRate c"

text \<open>The end of \<open>ClientStats.UnmarshalJSON\<close>, at the time \<open>now\<close> in nanoseconds.\<close>

definition ClientStats_Unmarshal :: "int \<Rightarrow> ClusterClientStats \<Rightarrow> ClusterClientStats" where
  "ClientStats_Unmarshal now c =
     c\<lparr>kc_ConnectedDuration := (now div 1000000000) * 1000000000 - sint (kc_ConnectTs c) * 1000000000\<rparr>"

record ChannelStats =
  ks_Node :: string
  ks_Hostname :: string
  ks_TopicName :: string
  ks_ChannelName :: string
  ks_Depth :: i64
  ks_MemoryDepth :: i64
  ks_BackendDepth :: i64
  ks_InFlightCount :: i64
  ks_DeferredCount :: i64
  ks_RequeueCount :: i64
  ks_TimeoutCount :: i64
  ks_MessageCount :: i64
  ks_ClientCount :: i64
  ks_Selected :: bool
  ks_NodeStats :: "ref list"
  ks_Clients :: "ClusterClientStats list"
  ks_Paused :: bool

record TopicStats =
  ts_Node :: string
  ts_Hostname :: string
  ts_TopicName :: string
  ts_Depth :: i64
  ts_MemoryDepth :: i64
  ts_BackendDepth :: i64
  ts_MessageCount :: i64
  ts_NodeStats :: "ref list"
  ts_Channels :: "ref list"
  ts_Paused :: bool

record stats_store =
  st_channels :: "ref \<Rightarrow> ChannelStats"
  st_nextChannel :: ref
  st_topics :: "ref \<Rightarrow> TopicStats"
  st_nextTopic :: ref

definition set_channel_stats :: "ref \<Rightarrow> ChannelStats \<Rightarrow> stats_store \<Rightarrow> stats_store" where
  "set_channel_stats r c st = st\<lparr>st_channels := (st_channels st)(r := c)\<rparr>"

definition set_topic_stats :: "ref \<Rightarrow> TopicStats \<Rightarrow> stats_store \<Rightarrow> stats_store" where
  "set_topic_stats r t st = st\<lparr>st_topics := (st_topics st)(r := t)\<rparr>"

definition alloc_channel :: "ChannelStats \<Rightarrow> stats_store \<Rightarrow> ref \<times> stats_store" where
  "alloc_channel c st =
     (st_nextChannel st, set_channel_stats (st_nextChannel st) c (st\<lparr>st_nextChannel := st_nextChannel st + 1\<rparr>))"

definition alloc_topic :: "TopicStats \<Rightarrow> stats_store \<Rightarrow> ref \<times> stats_store" where
  "alloc_topic t st =
     (st_nextTopic st, set_topic_stats (st_nextTopic st) t (st\<lparr>st_nextTopic := st_nextTopic st + 1\<rparr>))"

definition sort_channels_by_host :: "stats_store \<Rightarrow> ref list \<Rightarrow> ref list" where
  "sort_channels_by_host st rs = sort_key (\<lambda>r. ks_Hostname (st_channels st r)) rs"

definition sort_topics_by_host :: "stats_store \<Rightarrow> ref list \<Rightarrow> ref list" where
  "sort_topics_by_host st rs = sort_key (\<lambda>r. ts_Hostname (st_topics st r)) rs"

definition ChannelStats_Add :: "ref \<Rightarrow> ref \<Rightarrow> stats_store \<Rightarrow> stats_store" where
  "ChannelStats_Add rc ra st =
     (let c = st_channels st rc; a = st_channels st ra in
      set_channel_stats rc
        (c\<lparr>ks_Node := ''*'',
           ks_Depth := ks_Depth c + ks_Depth a,
           ks_MemoryDepth := ks_MemoryDepth c + ks_MemoryDepth a,
           ks_BackendDepth := ks_BackendDepth c + ks_BackendDepth a,
           ks_InFlightCount := ks_InFlightCount c + ks_InFlightCount a,
           ks_DeferredCount := ks_DeferredCount c + ks_DeferredCount a,
           ks_RequeueCount := ks_RequeueCount c + ks_RequeueCount a,
           ks_TimeoutCount := ks_TimeoutCount c + ks_TimeoutCount a,
           ks_MessageCount := ks_MessageCount c + ks_MessageCount a,
           ks_ClientCount := ks_ClientCount c + ks_ClientCount a,
           ks_Paused := (ks_Paused a \<or> ks_Paused c),
           ks_NodeStats := sort_channels_by_host st (ks_NodeStats c @ [ra]),
           ks_Clients := sort_key kc_Hostname (ks_Clients c @ ks_Clients a)\<rparr>) st)"

text \<open>The two loops of \<open>TopicStats.Add\<close>: a channel of the same name is added to, otherwise the channel itself joins
  the list.\<close>

fun add_matching :: "ref \<Rightarrow> ref list \<Rightarrow> bool \<times> stats_store \<Rightarrow> bool \<times> stats_store" where
  "add_matching ra [] s = s"
| "add_matching ra (rc # rcs) (found, st) =
     (if ks_ChannelName (st_channels st ra) = ks_ChannelName (st_channels st rc)
      then add_matching ra rcs (True, ChannelStats_Add rc ra st)
      else add_matching ra rcs (found, st))"

fun add_channels :: "ref \<Rightarrow> ref list \<Rightarrow> stats_store \<Rightarrow> stats_store" where
  "add_channels rt [] st = st"
| "add_channels rt (ra # ras) st =
     (case add_matching ra (ts_Channels (st_topics st rt)) (False, st) of
        (True, st1) \<Rightarrow> add_channels rt ras st1
      | (False, st1) \<Rightarrow>
          let t = st_topics st1 rt
          in add_channels rt ras (set_topic_stats rt (t\<lparr>ts_Channels := ts_Channels t @ [ra]\<rparr>) st1))"

definition TopicStats_Add :: "ref \<Rightarrow> ref \<Rightarrow> stats_store \<Rightarrow> stats_store" where
  "TopicStats_Add rt ra st =
     (let t = st_topics st rt; a = st_topics st ra;
          st1 = set_topic_stats rt
            (t\<lparr>ts_Node := ''*'',
               ts_Depth := ts_Depth t + ts_Depth a,
               ts_MemoryDepth := ts_MemoryDepth t + ts_MemoryDepth a,
               ts_BackendDepth := ts_BackendDepth t + ts_BackendDepth a,
               ts_MessageCount := ts_MessageCount t + ts_MessageCount a,
               ts_Paused := (ts_Paused a \<or> ts_Paused t)\<rparr>) st;
          st2 = add_channels rt (ts_Channels (st_topics st1 ra)) st1;
          t2 = st_topics st2 rt
      in set_topic_stats rt (t2\<lparr>ts_NodeStats := sort_topics_by_host st2 (ts_NodeStats t2 @ [ra])\<rparr>) st2)"

end
