(* ===== verification/Nsq_ClusterInfo.thy ===== *)
theory Nsq_ClusterInfo
  imports Nsq_ClusterTypes
begin

text \<open>
  \<open>internal/clusterinfo/data.go\<close>: the questions nsqadmin and the tools ask of all the nsqlookupd and nsqd
  instances of a cluster, and the changes they make there. A query runs one goroutine for each address and
  merges the answers under a lock in the order in which they arrive, which is an argument: \<open>ci_order n\<close> is the
  order in which \<open>n\<close> goroutines finish. JSON decoding is a group of arguments; the answers have no \<open>null\<close> in
  place of an object. \<open>None\<close> is a panic.
\<close>

section \<open>Context and errors\<close>

record info_resp =
  ir_Version :: string
  ir_BroadcastAddress :: string
  ir_Hostname :: string
  ir_HTTPPort :: int
  ir_TCPPort :: int

record ('w, 'v) ClusterInfo =
  ci_client :: "'w http_client"
  ci_semver :: "'v semver"
  ci_order :: "nat \<Rightarrow> nat list"
  j_version :: "bytes \<Rightarrow> go_error + string"
  j_topics :: "bytes \<Rightarrow> go_error + string list"
  j_channels :: "bytes \<Rightarrow> go_error + string list"
  j_producers :: "bytes \<Rightarrow> go_error + raw_producer list"
  j_info :: "bytes \<Rightarrow> go_error + info_resp"
  j_topicNames :: "bytes \<Rightarrow> go_error + string list"
  j_stats :: "bytes \<Rightarrow> go_error + (TopicStats \<times> ChannelStats list) list"

text \<open>An error of a query of which no part succeeded, and the errors of the parts that failed, a \<open>PartialErr\<close>.\<close>

datatype ci_err = Failed go_error | ErrList "go_error list"

fun ErrList_Error :: "go_error list \<Rightarrow> string" where
  "ErrList_Error l = strings_Join l [CHR 0x0A]"

definition gather :: "('w, 'v) ClusterInfo \<Rightarrow> ('a \<Rightarrow> go_error + 'b) \<Rightarrow> 'a list \<Rightarrow> go_error list \<times> ('a \<times> 'b) list" where
  "gather c f xs =
     (let rs = map (\<lambda>x. (x, f x)) (map ((!) xs) (ci_order c (length xs)))
      in (List.map_filter (\<lambda>(x, r). case r of Inl e \<Rightarrow> Some e | Inr _ \<Rightarrow> None) rs,
          List.map_filter (\<lambda>(x, r). case r of Inl _ \<Rightarrow> None | Inr v \<Rightarrow> Some (x, v)) rs))"

definition query_result :: "string \<Rightarrow> nat \<Rightarrow> go_error list \<Rightarrow> 'b \<Rightarrow> 'b \<Rightarrow> 'b \<times> ci_err option" where
  "query_result who n errs zero v =
     (if length errs = n then (zero, Some (Failed (''Failed to query any '' @ who @ '': '' @ ErrList_Error errs)))
      else if 0 < length errs then (v, Some (ErrList errs))
      else (v, None))"

section \<open>Queries to nsqlookupd\<close>

definition GetVersion :: "('w, 'v) ClusterInfo \<Rightarrow> string \<Rightarrow> 'w \<Rightarrow> go_error + 'v \<times> go_error option" where
  "GetVersion c addr w =
     (case GETV1 (ci_client c) (j_version c) (http addr ''/info'') w of
        Inl e \<Rightarrow> Inl e
      | Inr v \<Rightarrow> Inr (sv_Parse (ci_semver c) (if v = [] then ''unknown'' else v)))"

definition GetLookupdTopics :: "('w, 'v) ClusterInfo \<Rightarrow> string list \<Rightarrow> 'w \<Rightarrow> string list \<times> ci_err option" where
  "GetLookupdTopics c addrs w =
     (case gather c (\<lambda>addr. GETV1 (ci_client c) (j_topics c) (http addr ''/topics'') w) addrs of
        (errs, oks) \<Rightarrow>
          query_result ''nsqlookupd'' (length addrs) errs [] (sort (stringy_Uniq (concat (map snd oks)))))"

definition GetLookupdTopicChannels ::
    "('w, 'v) ClusterInfo \<Rightarrow> string \<Rightarrow> string list \<Rightarrow> 'w \<Rightarrow> string list \<times> ci_err option" where
  "GetLookupdTopicChannels c topic addrs w =
     (case gather c (\<lambda>addr. GETV1 (ci_client c) (j_channels c) (http addr (''/channels?topic='' @ QueryEscape topic)) w) addrs of
        (errs, oks) \<Rightarrow>
          query_result ''nsqlookupd'' (length addrs) errs [] (sort (stringy_Uniq (concat (map snd oks)))))"

text \<open>\<open>producersByAddr\<close> and \<open>producers\<close> hold the same pointers: one association list, in the order of the slice.
  A producer that is known already only adds a remote address to the known one.\<close>

definition merge_producer ::
    "'v semver \<Rightarrow> string \<Rightarrow> 'v ClusterProducer \<Rightarrow> (string \<times> 'v ClusterProducer) list \<times> 'v \<Rightarrow>
       (string \<times> 'v ClusterProducer) list \<times> 'v" where
  "merge_producer sv addr producer s =
     (let key = TCPAddress producer; remote = addr @ ''/'' @ Producer_Address producer in
      case map_of (fst s) key of
        Some p \<Rightarrow> (amap_put key (p\<lparr>pd_RemoteAddresses := pd_RemoteAddresses p @ [remote]\<rparr>) (fst s), snd s)
      | None \<Rightarrow>
          (fst s @ [(key, producer\<lparr>pd_Topics := sort_key pt_Topic (pd_Topics producer),
                                   pd_RemoteAddresses := pd_RemoteAddresses producer @ [remote]\<rparr>)],
           if sv_LT sv (snd s) (pd_VersionObj producer) then pd_VersionObj producer else snd s))"

text \<open>The answers with their producers decoded.\<close>

fun decode_answers ::
    "'v semver \<Rightarrow> (string \<times> raw_producer list) list \<Rightarrow> (string \<times> 'v ClusterProducer) list option" where
  "decode_answers sv [] = Some []"
| "decode_answers sv ((addr, raws) # oks) = do {
     ps <- those (map (Producer_Unmarshal sv) raws);
     rest <- decode_answers sv oks;
     Some (map (Pair addr) ps @ rest) }"

definition GetLookupdProducers ::
    "('w, 'v) ClusterInfo \<Rightarrow> string list \<Rightarrow> 'w \<Rightarrow> ('v ClusterProducer list \<times> ci_err option) option" where
  "GetLookupdProducers c addrs w =
     (case gather c (\<lambda>addr. GETV1 (ci_client c) (j_producers c) (http addr ''/nodes'') w) addrs of
        (errs, oks) \<Rightarrow> do {
          ans <- decode_answers (ci_semver c) oks;
          let (ps, maxVersion) = fold (\<lambda>(addr, p). merge_producer (ci_semver c) addr p) ans ([], fst (sv_Parse (ci_semver c) ''0.0.0''));
          let ps1 = map (\<lambda>(k, p). if sv_LT (ci_semver c) (pd_VersionObj p) maxVersion then p\<lparr>pd_OutOfDate := True\<rparr> else p) ps;
          Some (query_result ''nsqlookupd'' (length addrs) errs [] (sort_key pd_Hostname ps1)) })"

definition union_producer :: "'v ClusterProducer \<Rightarrow> 'v ClusterProducer list \<Rightarrow> 'v ClusterProducer list" where
  "union_producer p ps = (if HTTPAddress p \<in> set (map HTTPAddress ps) then ps else ps @ [p])"

definition GetLookupdTopicProducers ::
    "('w, 'v) ClusterInfo \<Rightarrow> string \<Rightarrow> string list \<Rightarrow> 'w \<Rightarrow> ('v ClusterProducer list \<times> ci_err option) option" where
  "GetLookupdTopicProducers c topic addrs w =
     (case gather c (\<lambda>addr. GETV1 (ci_client c) (j_producers c) (http addr (''/lookup?topic='' @ QueryEscape topic)) w) addrs of
        (errs, oks) \<Rightarrow> do {
          ans <- decode_answers (ci_semver c) oks;
          Some (query_result ''nsqlookupd'' (length addrs) errs [] (fold (\<lambda>(addr, p). union_producer p) ans [])) })"

section \<open>Queries to nsqd\<close>

definition GetNSQDTopics :: "('w, 'v) ClusterInfo \<Rightarrow> string list \<Rightarrow> 'w \<Rightarrow> string list \<times> ci_err option" where
  "GetNSQDTopics c addrs w =
     (case gather c (\<lambda>addr. GETV1 (ci_client c) (j_topicNames c) (http addr ''/stats?format=json'') w) addrs of
        (errs, oks) \<Rightarrow>
          query_result ''nsqd'' (length addrs) errs []
            (sort (fold (\<lambda>t ts. stringy_Add ts t) (concat (map snd oks)) [])))"

definition producer_of :: "'v semver \<Rightarrow> info_resp \<Rightarrow> string list \<Rightarrow> 'v ClusterProducer" where
  "producer_of sv info topics =
     \<lparr>pd_RemoteAddresses = [], pd_RemoteAddress = [], pd_Hostname = ir_Hostname info,
      pd_BroadcastAddress = ir_BroadcastAddress info, pd_TCPPort = ir_TCPPort info, pd_HTTPPort = ir_HTTPPort info,
      pd_Version = ir_Version info, pd_VersionObj = parse_version sv (ir_Version info),
      pd_Topics = map (\<lambda>t. \<lparr>pt_Topic = t, pt_Tombstoned = False\<rparr>) topics, pd_OutOfDate = False\<rparr>"

definition nsqd_producer :: "('w, 'v) ClusterInfo \<Rightarrow> 'w \<Rightarrow> string \<Rightarrow> go_error + 'v ClusterProducer" where
  "nsqd_producer c w addr =
     (case GETV1 (ci_client c) (j_info c) (http addr ''/info'') w of
        Inl e \<Rightarrow> Inl e
      | Inr info \<Rightarrow>
          (case GETV1 (ci_client c) (j_topicNames c) (http addr ''/stats?format=json&include_clients=false'') w of
             Inl e \<Rightarrow> Inl e
           | Inr topics \<Rightarrow> Inr (producer_of (ci_semver c) info topics)))"

definition GetNSQDProducers ::
    "('w, 'v) ClusterInfo \<Rightarrow> string list \<Rightarrow> 'w \<Rightarrow> 'v ClusterProducer list \<times> ci_err option" where
  "GetNSQDProducers c addrs w =
     (case gather c (nsqd_producer c w) addrs of
        (errs, oks) \<Rightarrow> query_result ''nsqd'' (length addrs) errs [] (map snd oks))"

text \<open>The address of the request stands in for what an old nsqd does not report.\<close>

definition complete_info :: "string \<Rightarrow> info_resp \<Rightarrow> info_resp" where
  "complete_info addr info =
     (let hp = (case SplitHostPort addr of Inl _ \<Rightarrow> ([], []) | Inr hp \<Rightarrow> hp);
          info1 = (if ir_BroadcastAddress info = []
                   then info\<lparr>ir_BroadcastAddress := fst hp, ir_HTTPPort := Atoi_ignoring_error (snd hp)\<rparr> else info)
      in if ir_Hostname info1 = [] then info1\<lparr>ir_Hostname := fst hp\<rparr> else info1)"

definition nsqd_topic_producer :: "('w, 'v) ClusterInfo \<Rightarrow> 'w \<Rightarrow> string \<Rightarrow> string \<Rightarrow> go_error + 'v ClusterProducer option" where
  "nsqd_topic_producer c w topic addr =
     (case GETV1 (ci_client c) (j_topicNames c)
             (http addr (''/stats?format=json&topic='' @ QueryEscape topic @ ''&include_clients=false'')) w of
        Inl e \<Rightarrow> Inl e
      | Inr topics \<Rightarrow>
          if topic \<in> set topics then
            (case GETV1 (ci_client c) (j_info c) (http addr ''/info'') w of
               Inl e \<Rightarrow> Inl e
             | Inr info \<Rightarrow> Inr (Some ((producer_of (ci_semver c) (complete_info addr info) topics))))
          else Inr None)"

definition GetNSQDTopicProducers ::
    "('w, 'v) ClusterInfo \<Rightarrow> string \<Rightarrow> string list \<Rightarrow> 'w \<Rightarrow> 'v ClusterProducer list \<times> ci_err option" where
  "GetNSQDTopicProducers c topic addrs w =
     (case gather c (nsqd_topic_producer c w topic) addrs of
        (errs, oks) \<Rightarrow> query_result ''nsqd'' (length addrs) errs [] (List.map_filter snd oks))"

definition GetProducers ::
    "('w, 'v) ClusterInfo \<Rightarrow> string list \<Rightarrow> string list \<Rightarrow> 'w \<Rightarrow> ('v ClusterProducer list \<times> ci_err option) option" where
  "GetProducers c lookupds nsqds w =
     (if length lookupds \<noteq> 0 then GetLookupdProducers c lookupds w else Some (GetNSQDProducers c nsqds w))"

definition GetTopicProducers ::
    "('w, 'v) ClusterInfo \<Rightarrow> string \<Rightarrow> string list \<Rightarrow> string list \<Rightarrow> 'w \<Rightarrow>
       ('v ClusterProducer list \<times> ci_err option) option" where
  "GetTopicProducers c topic lookupds nsqds w =
     (if length lookupds \<noteq> 0 then GetLookupdTopicProducers c topic lookupds w
      else Some (GetNSQDTopicProducers c topic nsqds w))"

section \<open>Statistics of nsqd\<close>

text \<open>Decoding an answer allocates its objects.\<close>

fun alloc_channels :: "ChannelStats list \<Rightarrow> stats_store \<Rightarrow> ref list \<times> stats_store" where
  "alloc_channels [] st = ([], st)"
| "alloc_channels (k # ks) st =
     (let (r, st1) = alloc_channel k st; (rs, st2) = alloc_channels ks st1 in (r # rs, st2))"

fun alloc_answer :: "(TopicStats \<times> ChannelStats list) list \<Rightarrow> stats_store \<Rightarrow> ref list \<times> stats_store" where
  "alloc_answer [] st = ([], st)"
| "alloc_answer ((t, ks) # ts) st =
     (let (rs, st1) = alloc_channels (map (\<lambda>k. k\<lparr>ks_NodeStats := []\<rparr>) ks) st;
          (r, st2) = alloc_topic (t\<lparr>ts_Channels := rs, ts_NodeStats := []\<rparr>) st1;
          (rest, st3) = alloc_answer ts st2
      in (r # rest, st3))"

record stats_acc =
  sa_topics :: "ref list"
  sa_channels :: "(string \<times> ref) list"
  sa_store :: stats_store

definition zero_channel_stats :: ChannelStats where
  "zero_channel_stats = \<lparr>ks_Node = [], ks_Hostname = [], ks_TopicName = [], ks_ChannelName = [], ks_Depth = 0, ks_MemoryDepth = 0,
     ks_BackendDepth = 0, ks_InFlightCount = 0, ks_DeferredCount = 0, ks_RequeueCount = 0, ks_TimeoutCount = 0,
     ks_MessageCount = 0, ks_ClientCount = 0, ks_Selected = False, ks_NodeStats = [], ks_Clients = [], ks_Paused = False\<rparr>"

definition stats_key :: "string \<Rightarrow> string \<Rightarrow> string \<Rightarrow> string" where
  "stats_key selectedTopic topic channel = (if selectedTopic = [] then topic @ '':'' @ channel else channel)"

text \<open>The aggregate under \<open>key\<close>, a new one if there is none.\<close>

definition find_aggregate :: "string \<Rightarrow> string \<Rightarrow> string \<Rightarrow> string \<Rightarrow> stats_acc \<Rightarrow> ref \<times> stats_acc" where
  "find_aggregate key addr topic channel s =
     (case map_of (sa_channels s) key of
        Some rc \<Rightarrow> (rc, s)
      | None \<Rightarrow>
          let (rc, st) = alloc_channel (zero_channel_stats\<lparr>ks_Node := addr, ks_TopicName := topic, ks_ChannelName := channel\<rparr>) (sa_store s)
          in (rc, s\<lparr>sa_channels := amap_put key rc (sa_channels s), sa_store := st\<rparr>))"

definition stats_channel :: "string \<Rightarrow> string \<Rightarrow> string \<Rightarrow> string \<Rightarrow> ref \<Rightarrow> stats_acc \<Rightarrow> stats_acc" where
  "stats_channel addr hostname selectedTopic topic r s =
     (let k = st_channels (sa_store s) r;
          k1 = k\<lparr>ks_Node := addr, ks_Hostname := hostname, ks_TopicName := topic, ks_MemoryDepth := ks_Depth k - ks_BackendDepth k\<rparr>;
          s1 = s\<lparr>sa_store := set_channel_stats r k1 (sa_store s)\<rparr>;
          (rc, s2) = find_aggregate (stats_key selectedTopic topic (ks_ChannelName k)) addr topic (ks_ChannelName k) s1;
          k2 = st_channels (sa_store s2) r;
          st3 = set_channel_stats r (k2\<lparr>ks_Clients := map (\<lambda>kc. kc\<lparr>kc_Node := addr\<rparr>) (ks_Clients k2)\<rparr>) (sa_store s2)
      in s2\<lparr>sa_store := ChannelStats_Add rc r st3\<rparr>)"

definition stats_topic :: "string \<Rightarrow> string \<Rightarrow> string \<Rightarrow> ref \<Rightarrow> stats_acc \<Rightarrow> stats_acc" where
  "stats_topic addr hostname selectedTopic r s =
     (let t = st_topics (sa_store s) r;
          t1 = t\<lparr>ts_Node := addr, ts_Hostname := hostname, ts_MemoryDepth := ts_Depth t - ts_BackendDepth t\<rparr>;
          s1 = s\<lparr>sa_store := set_topic_stats r t1 (sa_store s)\<rparr>
      in if selectedTopic \<noteq> [] \<and> ts_TopicName t1 \<noteq> selectedTopic then s1
         else fold (stats_channel addr hostname selectedTopic (ts_TopicName t1)) (ts_Channels t1)
                (s1\<lparr>sa_topics := sa_topics s1 @ [r]\<rparr>))"

definition stats_answer :: "string \<Rightarrow> 'v ClusterProducer \<Rightarrow> (TopicStats \<times> ChannelStats list) list \<Rightarrow> stats_acc \<Rightarrow> stats_acc" where
  "stats_answer selectedTopic p ans s =
     (let (rs, st) = alloc_answer ans (sa_store s)
      in fold (stats_topic (HTTPAddress p) (pd_Hostname p) selectedTopic) rs (s\<lparr>sa_store := st\<rparr>))"

definition stats_endpoint :: "string \<Rightarrow> string \<Rightarrow> bool \<Rightarrow> string \<Rightarrow> endpoint" where
  "stats_endpoint selectedTopic selectedChannel includeClients addr =
     http addr (''/stats?format=json'' @
       (if selectedTopic \<noteq> []
        then ''&topic='' @ QueryEscape selectedTopic @
          (if selectedChannel \<noteq> [] then ''&channel='' @ QueryEscape selectedChannel else [])
        else []) @
       (if includeClients then [] else ''&include_clients=false''))"

definition GetNSQDStats ::
    "('w, 'v) ClusterInfo \<Rightarrow> 'v ClusterProducer list \<Rightarrow> string \<Rightarrow> string \<Rightarrow> bool \<Rightarrow> 'w \<Rightarrow> stats_store \<Rightarrow>
       (ref list \<times> (string \<times> ref) list) \<times> ci_err option \<times> stats_store" where
  "GetNSQDStats c producers selectedTopic selectedChannel includeClients w st =
     (case gather c (\<lambda>p. GETV1 (ci_client c) (j_stats c)
             (stats_endpoint selectedTopic selectedChannel includeClients (HTTPAddress p)) w) producers of
        (errs, oks) \<Rightarrow>
          let s = fold (\<lambda>(p, ans). stats_answer selectedTopic p ans) oks \<lparr>sa_topics = [], sa_channels = [], sa_store = st\<rparr>;
              (v, e) = query_result ''nsqd'' (length producers) errs ([], [])
                (sort_topics_by_host (sa_store s) (sa_topics s), sa_channels s)
          in (v, e, sa_store s))"

section \<open>Changes\<close>

fun posts :: "('w, 'v) ClusterInfo \<Rightarrow> string \<Rightarrow> string \<Rightarrow> string list \<Rightarrow> 'w \<Rightarrow> go_error list \<times> 'w" where
  "posts c uri qs [] w = ([], w)"
| "posts c uri qs (addr # addrs) w =
     (let (e, w1) = POSTV1 (ci_client c) (http addr (''/'' @ uri @ ''?'' @ qs)) w;
          (errs, w2) = posts c uri qs addrs w1
      in (case e of None \<Rightarrow> errs | Some er \<Rightarrow> er # errs, w2))"

definition errs_result :: "go_error list \<Rightarrow> ci_err option" where
  "errs_result errs = (if 0 < length errs then Some (ErrList errs) else None)"

definition nsqlookupdPOST :: "('w, 'v) ClusterInfo \<Rightarrow> string list \<Rightarrow> string \<Rightarrow> string \<Rightarrow> 'w \<Rightarrow> ci_err option \<times> 'w" where
  "nsqlookupdPOST c addrs uri qs w = (case posts c uri qs addrs w of (errs, w1) \<Rightarrow> (errs_result errs, w1))"

definition producersPOST :: "('w, 'v) ClusterInfo \<Rightarrow> 'v ClusterProducer list \<Rightarrow> string \<Rightarrow> string \<Rightarrow> 'w \<Rightarrow> ci_err option \<times> 'w" where
  "producersPOST c pl uri qs w =
     (case posts c uri qs (map HTTPAddress pl) w of (errs, w1) \<Rightarrow> (errs_result errs, w1))"

text \<open>The type assertion to \<open>PartialErr\<close>: other errors end the operation, partial ones are collected.\<close>

definition partial_errs :: "ci_err option \<Rightarrow> go_error list \<Rightarrow> ci_err + go_error list" where
  "partial_errs e errs =
     (case e of None \<Rightarrow> Inr errs | Some (ErrList l) \<Rightarrow> Inr (errs @ l) | Some (Failed m) \<Rightarrow> Inl (Failed m))"

text \<open>An operation after a step that may have failed.\<close>

definition and_then :: "ci_err option \<Rightarrow> go_error list \<Rightarrow> 'w \<Rightarrow> (go_error list \<Rightarrow> (ci_err option \<times> 'w) option) \<Rightarrow> (ci_err option \<times> 'w) option" where
  "and_then e errs w k = (case partial_errs e errs of Inl er \<Rightarrow> Some (Some er, w) | Inr errs1 \<Rightarrow> k errs1)"

definition topic_qs :: "string \<Rightarrow> string" where
  "topic_qs topic = ''topic='' @ QueryEscape topic"

definition channel_qs :: "string \<Rightarrow> string \<Rightarrow> string" where
  "channel_qs topic channel = ''topic='' @ QueryEscape topic @ ''&channel='' @ QueryEscape channel"

definition TombstoneNodeForTopic ::
    "('w, 'v) ClusterInfo \<Rightarrow> string \<Rightarrow> string \<Rightarrow> string list \<Rightarrow> 'w \<Rightarrow> (ci_err option \<times> 'w) option" where
  "TombstoneNodeForTopic c topic node lookupds w =
     (let (e, w1) = nsqlookupdPOST c lookupds ''topic/tombstone'' (''topic='' @ QueryEscape topic @ ''&node='' @ QueryEscape node) w in
      and_then e [] w1 (\<lambda>errs.
        let (producers, e) = GetNSQDProducers c [node] w1 in
        and_then e errs w1 (\<lambda>errs.
          let (e, w2) = producersPOST c producers ''topic/delete'' (topic_qs topic) w1 in
          and_then e errs w2 (\<lambda>errs. Some (errs_result errs, w2)))))"

definition CreateTopicChannel ::
    "('w, 'v) ClusterInfo \<Rightarrow> string \<Rightarrow> string \<Rightarrow> string list \<Rightarrow> 'w \<Rightarrow> (ci_err option \<times> 'w) option" where
  "CreateTopicChannel c topic channel lookupds w =
     (let (e, w1) = nsqlookupdPOST c lookupds ''topic/create'' (topic_qs topic) w in
      and_then e [] w1 (\<lambda>errs.
        if 0 < length channel then
          (let (e, w2) = nsqlookupdPOST c lookupds ''channel/create'' (channel_qs topic channel) w1 in
           and_then e errs w2 (\<lambda>errs. do {
             (producers, e) <- GetLookupdTopicProducers c topic lookupds w2;
             and_then e errs w2 (\<lambda>errs.
               let (e, w3) = producersPOST c producers ''channel/create'' (channel_qs topic channel) w2 in
               and_then e errs w3 (\<lambda>errs. Some (errs_result errs, w3))) }))
        else Some (errs_result errs, w1)))"

text \<open>\<open>DeleteTopic\<close> and \<open>DeleteChannel\<close>: the producers are asked for first.\<close>

definition delete_everywhere ::
    "('w, 'v) ClusterInfo \<Rightarrow> string \<Rightarrow> string \<Rightarrow> string \<Rightarrow> string list \<Rightarrow> string list \<Rightarrow> 'w \<Rightarrow> (ci_err option \<times> 'w) option" where
  "delete_everywhere c topic uri qs lookupds nsqds w = do {
     (producers, e) <- GetTopicProducers c topic lookupds nsqds w;
     and_then e [] w (\<lambda>errs.
       let (e, w1) = nsqlookupdPOST c lookupds uri qs w in
       and_then e errs w1 (\<lambda>errs.
         let (e, w2) = producersPOST c producers uri qs w1 in
         and_then e errs w2 (\<lambda>errs. Some (errs_result errs, w2)))) }"

definition DeleteTopic ::
    "('w, 'v) ClusterInfo \<Rightarrow> string \<Rightarrow> string list \<Rightarrow> string list \<Rightarrow> 'w \<Rightarrow> (ci_err option \<times> 'w) option" where
  "DeleteTopic c topic lookupds nsqds w = delete_everywhere c topic ''topic/delete'' (topic_qs topic) lookupds nsqds w"

definition DeleteChannel ::
    "('w, 'v) ClusterInfo \<Rightarrow> string \<Rightarrow> string \<Rightarrow> string list \<Rightarrow> string list \<Rightarrow> 'w \<Rightarrow> (ci_err option \<times> 'w) option" where
  "DeleteChannel c topic channel lookupds nsqds w =
     delete_everywhere c topic ''channel/delete'' (channel_qs topic channel) lookupds nsqds w"

definition actionHelper ::
    "('w, 'v) ClusterInfo \<Rightarrow> string \<Rightarrow> string list \<Rightarrow> string list \<Rightarrow> string \<Rightarrow> string \<Rightarrow> 'w \<Rightarrow> (ci_err option \<times> 'w) option" where
  "actionHelper c topic lookupds nsqds uri qs w = do {
     (producers, e) <- GetTopicProducers c topic lookupds nsqds w;
     and_then e [] w (\<lambda>errs.
       let (e, w1) = producersPOST c producers uri qs w in
       and_then e errs w1 (\<lambda>errs. Some (errs_result errs, w1))) }"

definition PauseTopic where
  "PauseTopic c topic lookupds nsqds = actionHelper c topic lookupds nsqds ''topic/pause'' (topic_qs topic)"

definition UnPauseTopic where
  "UnPauseTopic c topic lookupds nsqds = actionHelper c topic lookupds nsqds ''topic/unpause'' (topic_qs topic)"

definition PauseChannel where
  "PauseChannel c topic channel lookupds nsqds =
     actionHelper c topic lookupds nsqds ''channel/pause'' (channel_qs topic channel)"

definition UnPauseChannel where
  "UnPauseChannel c topic channel lookupds nsqds =
     actionHelper c topic lookupds nsqds ''channel/unpause'' (channel_qs topic channel)"

definition EmptyTopic where
  "EmptyTopic c topic lookupds nsqds = actionHelper c topic lookupds nsqds ''topic/empty'' (topic_qs topic)"

definition EmptyChannel where
  "EmptyChannel c topic channel lookupds nsqds =
     actionHelper c topic lookupds nsqds ''channel/empty'' (channel_qs topic channel)"

end
