(* ===== verification/Nsq_Admin.thy ===== *)
theory Nsq_Admin
  imports Nsq_ClusterInfo
begin

text \<open>
  \<open>nsqadmin\<close>: the handlers of its API (\<open>nsqadmin/http.go\<close>), notifications of administrative actions (\<open>notify.go\<close>,
  \<open>nsqadmin.go\<close>), options (\<open>options.go\<close>) and log levels (\<open>internal/lg/lg.go\<close>). A handler takes the
  request and the state of the process, which contains the state \<open>'w\<close> of the rest of the cluster, and returns an
  error or a value, and the new state; \<open>None\<close> is a panic. JSON, base64, IP addresses, the host name and the
  clock are arguments. The index page, the assets, Graphite and the start of the process are not modelled.
\<close>

section \<open>Options\<close>

definition DEBUG :: int where "DEBUG = 1"

definition INFO :: int where "INFO = 2"

definition WARN :: int where "WARN = 3"

definition ERROR :: int where "ERROR = 4"

definition FATAL :: int where "FATAL = 5"

definition ascii_lower :: "char \<Rightarrow> char" where
  "ascii_lower c = (if CHR ''A'' \<le> c \<and> c \<le> CHR ''Z'' then char_of (of_char c + 32 :: nat) else c)"

definition ParseLogLevel :: "string \<Rightarrow> go_error + int" where
  "ParseLogLevel levelstr =
     (let s = map ascii_lower levelstr in
      if s = ''debug'' then Inr DEBUG
      else if s = ''info'' then Inr INFO
      else if s = ''warn'' then Inr WARN
      else if s = ''error'' then Inr ERROR
      else if s = ''fatal'' then Inr FATAL
      else Inl ''invalid log level'')"

definition LogLevel_String :: "int \<Rightarrow> string" where
  "LogLevel_String l =
     (if l = DEBUG then ''DEBUG'' else if l = INFO then ''INFO'' else if l = WARN then ''WARNING''
      else if l = ERROR then ''ERROR'' else if l = FATAL then ''FATAL'' else ''invalid'')"

record AdminOptions =
  ao_LogLevel :: int
  ao_LogPrefix :: string
  ao_HTTPAddress :: string
  ao_BasePath :: string
  ao_GraphiteURL :: string
  ao_ProxyGraphite :: bool
  ao_StatsdPrefix :: string
  ao_StatsdCounterFormat :: string
  ao_StatsdGaugeFormat :: string
  ao_StatsdInterval :: int
  ao_NSQLookupdHTTPAddresses :: "string list"
  ao_NSQDHTTPAddresses :: "string list"
  ao_HTTPClientConnectTimeout :: int
  ao_HTTPClientRequestTimeout :: int
  ao_HTTPClientTLSInsecureSkipVerify :: bool
  ao_HTTPClientTLSRootCAFile :: string
  ao_HTTPClientTLSCert :: string
  ao_HTTPClientTLSKey :: string
  ao_AllowConfigFromCIDR :: string
  ao_NotificationHTTPEndpoint :: string
  ao_AclHttpHeader :: string
  ao_AdminUsers :: "string list"

definition NewAdminOptions :: AdminOptions where
  "NewAdminOptions = \<lparr>ao_LogLevel = INFO, ao_LogPrefix = ''[nsqadmin] '', ao_HTTPAddress = ''0.0.0.0:4171'', ao_BasePath = ''/'',
     ao_GraphiteURL = [], ao_ProxyGraphite = False, ao_StatsdPrefix = ''nsq.%s'',
     ao_StatsdCounterFormat = ''stats.counters.%s.count'', ao_StatsdGaugeFormat = ''stats.gauges.%s'',
     ao_StatsdInterval = 60000000000, ao_NSQLookupdHTTPAddresses = [], ao_NSQDHTTPAddresses = [],
     ao_HTTPClientConnectTimeout = 2000000000, ao_HTTPClientRequestTimeout = 5000000000,
     ao_HTTPClientTLSInsecureSkipVerify = False, ao_HTTPClientTLSRootCAFile = [], ao_HTTPClientTLSCert = [],
     ao_HTTPClientTLSKey = [], ao_AllowConfigFromCIDR = ''127.0.0.1/8'', ao_NotificationHTTPEndpoint = [],
     ao_AclHttpHeader = ''X-Forwarded-User'', ao_AdminUsers = []\<rparr>"

datatype opt_value = OInt int | OString string | OBool bool | OStrings "string list"

text \<open>What \<open>getOptByCfgName\<close> finds by reflection: the fields with a flag, under the name of the tag or the
  flag with underscores.\<close>

definition option_fields :: "AdminOptions \<Rightarrow> (string \<times> opt_value) list" where
  "option_fields opts =
     [(''log_level'', OInt (ao_LogLevel opts)), (''log_prefix'', OString (ao_LogPrefix opts)),
      (''http_address'', OString (ao_HTTPAddress opts)), (''base_path'', OString (ao_BasePath opts)),
      (''graphite_url'', OString (ao_GraphiteURL opts)), (''proxy_graphite'', OBool (ao_ProxyGraphite opts)),
      (''statsd_prefix'', OString (ao_StatsdPrefix opts)), (''statsd_counter_format'', OString (ao_StatsdCounterFormat opts)),
      (''statsd_gauge_format'', OString (ao_StatsdGaugeFormat opts)), (''statsd_interval'', OInt (ao_StatsdInterval opts)),
      (''nsqlookupd_http_addresses'', OStrings (ao_NSQLookupdHTTPAddresses opts)),
      (''nsqd_http_addresses'', OStrings (ao_NSQDHTTPAddresses opts)),
      (''http_client_connect_timeout'', OInt (ao_HTTPClientConnectTimeout opts)),
      (''http_client_request_timeout'', OInt (ao_HTTPClientRequestTimeout opts)),
      (''http_client_tls_insecure_skip_verify'', OBool (ao_HTTPClientTLSInsecureSkipVerify opts)),
      (''http_client_tls_root_ca_file'', OString (ao_HTTPClientTLSRootCAFile opts)),
      (''http_client_tls_cert'', OString (ao_HTTPClientTLSCert opts)),
      (''http_client_tls_key'', OString (ao_HTTPClientTLSKey opts)),
      (''allow_config_from_cidr'', OString (ao_AllowConfigFromCIDR opts)),
      (''notification_http_endpoint'', OString (ao_NotificationHTTPEndpoint opts)),
      (''acl_http_header'', OString (ao_AclHttpHeader opts)), (''admin_users'', OStrings (ao_AdminUsers opts))]"

definition getOptByCfgName :: "AdminOptions \<Rightarrow> string \<Rightarrow> opt_value option" where
  "getOptByCfgName opts name = map_of (option_fields opts) name"

text \<open>The checks of the addresses and of the TLS files at the start.\<close>

definition admin_check_options :: "AdminOptions \<Rightarrow> go_error option" where
  "admin_check_options opts =
     (if length (ao_NSQDHTTPAddresses opts) = 0 \<and> length (ao_NSQLookupdHTTPAddresses opts) = 0
      then Some ''--nsqd-http-address or --lookupd-http-address required''
      else if length (ao_NSQDHTTPAddresses opts) \<noteq> 0 \<and> length (ao_NSQLookupdHTTPAddresses opts) \<noteq> 0
      then Some ''use --nsqd-http-address or --lookupd-http-address not both''
      else if ao_HTTPClientTLSCert opts \<noteq> [] \<and> ao_HTTPClientTLSKey opts = []
      then Some ''--http-client-tls-key must be specified with --http-client-tls-cert''
      else if ao_HTTPClientTLSKey opts \<noteq> [] \<and> ao_HTTPClientTLSCert opts = []
      then Some ''--http-client-tls-cert must be specified with --http-client-tls-key''
      else None)"

section \<open>Requests and state\<close>

record AdminAction =
  aa_Action :: string
  aa_Topic :: string
  aa_Channel :: string
  aa_Node :: string
  aa_Timestamp :: int
  aa_User :: string
  aa_RemoteIP :: string
  aa_UserAgent :: string
  aa_URL :: endpoint
  aa_Via :: string

text \<open>\<open>q_Header\<close> is \<open>Header.Get\<close>.\<close>

record admin_req = http_req +
  q_Header :: "string \<Rightarrow> string"
  q_Host :: string
  q_RawQuery :: string
  q_TLS :: bool
  q_RemoteAddr :: string

record ('w, 'v) adctx =
  ax_ci :: "('w, 'v) ClusterInfo"
  ax_base64 :: "string \<Rightarrow> go_error + string"
  ax_hostname :: string
  ax_now :: int
  ax_topic_body :: "bytes \<Rightarrow> go_error + string"
  ax_create_body :: "bytes \<Rightarrow> go_error + string \<times> string"
  ax_action_body :: "bytes \<Rightarrow> go_error + string"
  ax_addresses :: "bytes \<Rightarrow> string list \<Rightarrow> go_error option \<times> string list"
  ax_cidr :: "string \<Rightarrow> (string \<Rightarrow> bool) option"
  ax_is_ip :: "string \<Rightarrow> bool"

record 'w NSQAdmin =
  ad_opts :: AdminOptions
  ad_notifications :: "AdminAction list"
  ad_cluster :: 'w
  ad_store :: stats_store

record counterStats =
  ct_Node :: string
  ct_TopicName :: string
  ct_ChannelName :: string
  ct_MessageCount :: i64

datatype 'v admin_data =
    ATopics "string list" string
  | AInactive "(string \<times> string list) list" string
  | ATopic ref string
  | AChannel "ref option" string
  | ANodes "'v ClusterProducer list" string
  | ANode string "ref list" i64 i64 string
  | AMessage string
  | ACounter "(string \<times> counterStats) list" string
  | AOption opt_value

type_synonym ('w, 'v) admin_reply = "((http_err + 'v admin_data api_data) \<times> 'w NSQAdmin) option"

abbreviation lookupds :: "'w NSQAdmin \<Rightarrow> string list" where
  "lookupds s \<equiv> ao_NSQLookupdHTTPAddresses (ad_opts s)"

abbreviation nsqds :: "'w NSQAdmin \<Rightarrow> string list" where
  "nsqds s \<equiv> ao_NSQDHTTPAddresses (ad_opts s)"

definition maybeWarnMsg :: "string list \<Rightarrow> string" where
  "maybeWarnMsg msgs = (if 0 < length msgs then ''WARNING: '' @ strings_Join msgs ''; '' else [])"

text \<open>The handling of an error of a query that most handlers repeat: a partial one becomes a warning.\<close>

definition upstream :: "ci_err option \<Rightarrow> string list \<Rightarrow> http_err + string list" where
  "upstream e messages =
     (case e of
        None \<Rightarrow> Inr messages
      | Some (ErrList l) \<Rightarrow> Inr (messages @ [ErrList_Error l])
      | Some (Failed m) \<Rightarrow> Inl (Err 502 (''UPSTREAM_ERROR: '' @ m)))"

definition admin_upstream ::
    "ci_err option \<Rightarrow> string list \<Rightarrow> 'w NSQAdmin \<Rightarrow> (string list \<Rightarrow> ('w, 'v) admin_reply) \<Rightarrow> ('w, 'v) admin_reply" where
  "admin_upstream e messages s k = (case upstream e messages of Inl er \<Rightarrow> Some (Inl er, s) | Inr ms \<Rightarrow> k ms)"

definition decode_body :: "(bytes \<Rightarrow> go_error + 'a) \<Rightarrow> admin_req \<Rightarrow> go_error + 'a" where
  "decode_body f req = (case q_Body req of Inl e \<Rightarrow> Inl e | Inr b \<Rightarrow> f b)"

definition isAuthorizedAdminRequest :: "'w NSQAdmin \<Rightarrow> admin_req \<Rightarrow> bool" where
  "isAuthorizedAdminRequest s req \<longleftrightarrow>
     length (ao_AdminUsers (ad_opts s)) = 0 \<or>
     q_Header req (ao_AclHttpHeader (ad_opts s)) \<in> set (ao_AdminUsers (ad_opts s))"

section \<open>Notifications\<close>

text \<open>\<open>strings.SplitN(s, sep, 2)\<close>: the parts before and after the first separator.\<close>

definition SplitN2 :: "char \<Rightarrow> string \<Rightarrow> (string \<times> string) option" where
  "SplitN2 sep s = (if sep \<in> set s then Some (takeWhile (\<lambda>c. c \<noteq> sep) s, tl (dropWhile (\<lambda>c. c \<noteq> sep) s)) else None)"

definition basicAuthUser :: "('w, 'v) adctx \<Rightarrow> admin_req \<Rightarrow> string" where
  "basicAuthUser x req =
     (case SplitN2 (CHR '' '') (q_Header req ''Authorization'') of
        None \<Rightarrow> []
      | Some (scheme, cred) \<Rightarrow>
          if scheme \<noteq> ''Basic'' then []
          else (case ax_base64 x cred of
                  Inl _ \<Rightarrow> []
                | Inr b \<Rightarrow> (case SplitN2 (CHR '':'') b of None \<Rightarrow> [] | Some (user, _) \<Rightarrow> user)))"

definition notifyAdminAction ::
    "('w, 'v) adctx \<Rightarrow> string \<Rightarrow> string \<Rightarrow> string \<Rightarrow> string \<Rightarrow> admin_req \<Rightarrow> 'w NSQAdmin \<Rightarrow> 'w NSQAdmin" where
  "notifyAdminAction x action topic channel node req s =
     (if ao_NotificationHTTPEndpoint (ad_opts s) = [] then s
      else s\<lparr>ad_notifications := ad_notifications s @
        [\<lparr>aa_Action = action, aa_Topic = topic, aa_Channel = channel, aa_Node = node, aa_Timestamp = ax_now x,
          aa_User = basicAuthUser x req, aa_RemoteIP = q_RemoteAddr req, aa_UserAgent = q_Header req ''User-Agent'',
          aa_URL = \<lparr>ep_scheme = (if q_TLS req \<or> q_Header req ''X-Scheme'' = ''https'' then ''https'' else ''http''),
                    ep_host = q_Host req, ep_rest = q_Path req @ (if q_RawQuery req = [] then [] else ''?'' @ q_RawQuery req)\<rparr>,
          aa_Via = ax_hostname x\<rparr>]\<rparr>)"

text \<open>One round of \<open>handleAdminActions\<close>. After an error there is no response whose body could be closed: the
  process panics.\<close>

definition handleAdminAction :: "(AdminAction \<Rightarrow> go_error option) \<Rightarrow> 'w NSQAdmin \<Rightarrow> 'w NSQAdmin option" where
  "handleAdminAction post s =
     (case ad_notifications s of
        [] \<Rightarrow> Some s
      | a # as \<Rightarrow> (case post a of Some _ \<Rightarrow> None | None \<Rightarrow> Some (s\<lparr>ad_notifications := as\<rparr>)))"

section \<open>Handlers that query\<close>

definition admin_pingHandler :: "'w NSQAdmin \<Rightarrow> ('w, 'v) admin_reply" where
  "admin_pingHandler s = Some (Inr (DString ''OK''), s)"

fun inactive_topics :: "('w, 'v) ClusterInfo \<Rightarrow> string list \<Rightarrow> 'w \<Rightarrow> string list \<Rightarrow> (string \<times> string list) list option" where
  "inactive_topics c addrs w [] = Some []"
| "inactive_topics c addrs w (topic # topics) = do {
     (producers, _) <- GetLookupdTopicProducers c topic addrs w;
     rest <- inactive_topics c addrs w topics;
     Some (if length producers = 0 then (topic, fst (GetLookupdTopicChannels c topic addrs w)) # rest else rest) }"

definition topicsHandler :: "('w, 'v) adctx \<Rightarrow> admin_req \<Rightarrow> 'w NSQAdmin \<Rightarrow> ('w, 'v) admin_reply" where
  "topicsHandler x req s =
     (case NewReqParams (http_req.truncate req) of
        Inl e \<Rightarrow> Some (Inl (Err 400 e), s)
      | Inr reqParams \<Rightarrow>
          let (topics, e) = (if length (lookupds s) \<noteq> 0 then GetLookupdTopics (ax_ci x) (lookupds s) (ad_cluster s)
                             else GetNSQDTopics (ax_ci x) (nsqds s) (ad_cluster s)) in
          admin_upstream e [] s (\<lambda>messages.
            if ReqParams_Get ''inactive'' reqParams = Inr ''true'' then do {
              topicChannelMap <- (if length (lookupds s) = 0 then Some []
                                  else inactive_topics (ax_ci x) (lookupds s) (ad_cluster s) topics);
              Some (Inr (DValue (AInactive topicChannelMap (maybeWarnMsg messages))), s) }
            else Some (Inr (DValue (ATopics topics (maybeWarnMsg messages))), s)))"

definition zero_topic_stats :: TopicStats where
  "zero_topic_stats = \<lparr>ts_Node = [], ts_Hostname = [], ts_TopicName = [], ts_Depth = 0, ts_MemoryDepth = 0, ts_BackendDepth = 0,
     ts_MessageCount = 0, ts_NodeStats = [], ts_Channels = [], ts_Paused = False\<rparr>"

definition topicHandler :: "('w, 'v) adctx \<Rightarrow> string \<Rightarrow> 'w NSQAdmin \<Rightarrow> ('w, 'v) admin_reply" where
  "topicHandler x topicName s = do {
     (producers, e) <- GetTopicProducers (ax_ci x) topicName (lookupds s) (nsqds s) (ad_cluster s);
     admin_upstream e [] s (\<lambda>messages.
       let ((topicStats, _), e, st) = GetNSQDStats (ax_ci x) producers topicName [] False (ad_cluster s) (ad_store s);
           s1 = s\<lparr>ad_store := st\<rparr> in
       admin_upstream e messages s1 (\<lambda>messages.
         let (r, st1) = alloc_topic (zero_topic_stats\<lparr>ts_TopicName := topicName\<rparr>) st;
             st2 = fold (TopicStats_Add r) topicStats st1
         in Some (Inr (DValue (ATopic r (maybeWarnMsg messages))), s1\<lparr>ad_store := st2\<rparr>))) }"

definition channelHandler :: "('w, 'v) adctx \<Rightarrow> string \<Rightarrow> string \<Rightarrow> 'w NSQAdmin \<Rightarrow> ('w, 'v) admin_reply" where
  "channelHandler x topicName channelName s = do {
     (producers, e) <- GetTopicProducers (ax_ci x) topicName (lookupds s) (nsqds s) (ad_cluster s);
     admin_upstream e [] s (\<lambda>messages.
       let ((_, channelStats), e, st) = GetNSQDStats (ax_ci x) producers topicName channelName True (ad_cluster s) (ad_store s);
           s1 = s\<lparr>ad_store := st\<rparr> in
       admin_upstream e messages s1 (\<lambda>messages.
         Some (Inr (DValue (AChannel (map_of channelStats channelName) (maybeWarnMsg messages))), s1))) }"

definition nodesHandler :: "('w, 'v) adctx \<Rightarrow> 'w NSQAdmin \<Rightarrow> ('w, 'v) admin_reply" where
  "nodesHandler x s = do {
     (producers, e) <- GetProducers (ax_ci x) (lookupds s) (nsqds s) (ad_cluster s);
     admin_upstream e [] s (\<lambda>messages. Some (Inr (DValue (ANodes producers (maybeWarnMsg messages))), s)) }"

fun ci_err_text :: "ci_err \<Rightarrow> string" where
  "ci_err_text (Failed m) = m"
| "ci_err_text (ErrList l) = ErrList_Error l"

definition total_clients :: "stats_store \<Rightarrow> ref list \<Rightarrow> i64" where
  "total_clients st ts =
     sum_list (map (\<lambda>t. sum_list (map (\<lambda>k. of_nat (length (ks_Clients (st_channels st k)))) (ts_Channels (st_topics st t)))) ts)"

definition total_messages :: "stats_store \<Rightarrow> ref list \<Rightarrow> i64" where
  "total_messages st ts = sum_list (map (\<lambda>t. ts_MessageCount (st_topics st t)) ts)"

definition nodeHandler :: "('w, 'v) adctx \<Rightarrow> string \<Rightarrow> 'w NSQAdmin \<Rightarrow> ('w, 'v) admin_reply" where
  "nodeHandler x node s = do {
     (producers, e) <- GetProducers (ax_ci x) (lookupds s) (nsqds s) (ad_cluster s);
     admin_upstream e [] s (\<lambda>messages.
       case Producers_Search node producers of
         None \<Rightarrow> Some (Inl (Err 404 ''NODE_NOT_FOUND''), s)
       | Some producer \<Rightarrow>
           let ((topicStats, _), e, st) = GetNSQDStats (ax_ci x) [producer] [] [] True (ad_cluster s) (ad_store s);
               s1 = s\<lparr>ad_store := st\<rparr> in
           (case e of
              Some er \<Rightarrow> Some (Inl (Err 502 (''UPSTREAM_ERROR: '' @ ci_err_text er)), s1)
            | None \<Rightarrow>
                Some (Inr (DValue (ANode node topicStats (total_messages st topicStats) (total_clients st topicStats)
                        (maybeWarnMsg messages))), s1))) }"

definition count_node :: "stats_store \<Rightarrow> ChannelStats \<Rightarrow> ref \<Rightarrow> (string \<times> counterStats) list \<Rightarrow> (string \<times> counterStats) list" where
  "count_node st agg r stats =
     (let host = st_channels st r;
          key = ks_TopicName agg @ '':'' @ ks_ChannelName agg @ '':'' @ ks_Node host;
          n = (case map_of stats key of
                 Some n \<Rightarrow> n
               | None \<Rightarrow> \<lparr>ct_Node = ks_Node host, ct_TopicName = ks_TopicName agg, ct_ChannelName = ks_ChannelName agg, ct_MessageCount = 0\<rparr>)
      in amap_put key (n\<lparr>ct_MessageCount := ct_MessageCount n + ks_MessageCount host\<rparr>) stats)"

definition counterHandler :: "('w, 'v) adctx \<Rightarrow> 'w NSQAdmin \<Rightarrow> ('w, 'v) admin_reply" where
  "counterHandler x s = do {
     (producers, e) <- GetProducers (ax_ci x) (lookupds s) (nsqds s) (ad_cluster s);
     admin_upstream e [] s (\<lambda>messages.
       let ((_, channelStats), e, st) = GetNSQDStats (ax_ci x) producers [] [] False (ad_cluster s) (ad_store s);
           s1 = s\<lparr>ad_store := st\<rparr> in
       admin_upstream e messages s1 (\<lambda>messages.
         let stats = fold (\<lambda>(key, r). fold (count_node st (st_channels st r)) (ks_NodeStats (st_channels st r))) channelStats []
         in Some (Inr (DValue (ACounter stats (maybeWarnMsg messages))), s1))) }"

section \<open>Handlers that change the cluster\<close>

text \<open>The end of these handlers: the result of the operation on the cluster, then the notifications.\<close>

definition admin_done ::
    "(ci_err option \<times> 'w) option \<Rightarrow> ('w NSQAdmin \<Rightarrow> 'w NSQAdmin) \<Rightarrow> 'w NSQAdmin \<Rightarrow> ('w, 'v) admin_reply" where
  "admin_done r notify s = do {
     (e, w) <- r;
     let s1 = s\<lparr>ad_cluster := w\<rparr>;
     admin_upstream e [] s1 (\<lambda>messages. Some (Inr (DValue (AMessage (maybeWarnMsg messages))), notify s1)) }"

definition tombstoneNodeForTopicHandler :: "('w, 'v) adctx \<Rightarrow> string \<Rightarrow> admin_req \<Rightarrow> 'w NSQAdmin \<Rightarrow> ('w, 'v) admin_reply" where
  "tombstoneNodeForTopicHandler x node req s =
     (case decode_body (ax_topic_body x) req of
        Inl _ \<Rightarrow> Some (Inl (Err 400 ''INVALID_BODY''), s)
      | Inr topic \<Rightarrow>
          if \<not> IsValidTopicName topic then Some (Inl (Err 400 ''INVALID_TOPIC''), s)
          else admin_done (TombstoneNodeForTopic (ax_ci x) topic node (lookupds s) (ad_cluster s))
                 (notifyAdminAction x ''tombstone_topic_producer'' topic [] node req) s)"

definition createTopicChannelHandler :: "('w, 'v) adctx \<Rightarrow> admin_req \<Rightarrow> 'w NSQAdmin \<Rightarrow> ('w, 'v) admin_reply" where
  "createTopicChannelHandler x req s =
     (if \<not> isAuthorizedAdminRequest s req then Some (Inl (Err 403 ''FORBIDDEN''), s)
      else case decode_body (ax_create_body x) req of
        Inl e \<Rightarrow> Some (Inl (Err 400 e), s)
      | Inr (topic, channel) \<Rightarrow>
          if \<not> IsValidTopicName topic then Some (Inl (Err 400 ''INVALID_TOPIC''), s)
          else if 0 < length channel \<and> \<not> IsValidChannelName channel then Some (Inl (Err 400 ''INVALID_CHANNEL''), s)
          else admin_done (CreateTopicChannel (ax_ci x) topic channel (lookupds s) (ad_cluster s))
                 (\<lambda>s1. let s2 = notifyAdminAction x ''create_topic'' topic [] [] req s1
                       in if 0 < length channel then notifyAdminAction x ''create_channel'' topic channel [] req s2 else s2) s)"

definition deleteTopicHandler :: "('w, 'v) adctx \<Rightarrow> string \<Rightarrow> admin_req \<Rightarrow> 'w NSQAdmin \<Rightarrow> ('w, 'v) admin_reply" where
  "deleteTopicHandler x topicName req s =
     (if \<not> isAuthorizedAdminRequest s req then Some (Inl (Err 403 ''FORBIDDEN''), s)
      else admin_done (DeleteTopic (ax_ci x) topicName (lookupds s) (nsqds s) (ad_cluster s))
             (notifyAdminAction x ''delete_topic'' topicName [] [] req) s)"

definition deleteChannelHandler :: "('w, 'v) adctx \<Rightarrow> string \<Rightarrow> string \<Rightarrow> admin_req \<Rightarrow> 'w NSQAdmin \<Rightarrow> ('w, 'v) admin_reply" where
  "deleteChannelHandler x topicName channelName req s =
     (if \<not> isAuthorizedAdminRequest s req then Some (Inl (Err 403 ''FORBIDDEN''), s)
      else admin_done (DeleteChannel (ax_ci x) topicName channelName (lookupds s) (nsqds s) (ad_cluster s))
             (notifyAdminAction x ''delete_channel'' topicName channelName [] req) s)"

text \<open>The operation and the name of an action on a topic or a channel.\<close>

definition action_of ::
    "('w, 'v) adctx \<Rightarrow> string \<Rightarrow> string \<Rightarrow> string \<Rightarrow> 'w NSQAdmin \<Rightarrow> (string \<times> (ci_err option \<times> 'w) option) option" where
  "action_of x action topicName channelName s =
     (let c = ax_ci x; ls = lookupds s; ns = nsqds s; w = ad_cluster s in
      if action = ''pause''
      then Some (if channelName \<noteq> [] then (''pause_channel'', PauseChannel c topicName channelName ls ns w)
                 else (''pause_topic'', PauseTopic c topicName ls ns w))
      else if action = ''unpause''
      then Some (if channelName \<noteq> [] then (''unpause_channel'', UnPauseChannel c topicName channelName ls ns w)
                 else (''unpause_topic'', UnPauseTopic c topicName ls ns w))
      else if action = ''empty''
      then Some (if channelName \<noteq> [] then (''empty_channel'', EmptyChannel c topicName channelName ls ns w)
                 else (''empty_topic'', EmptyTopic c topicName ls ns w))
      else None)"

text \<open>Here the notification is sent whatever the operation returns.\<close>

definition topicChannelAction ::
    "('w, 'v) adctx \<Rightarrow> admin_req \<Rightarrow> string \<Rightarrow> string \<Rightarrow> 'w NSQAdmin \<Rightarrow> ('w, 'v) admin_reply" where
  "topicChannelAction x req topicName channelName s =
     (if \<not> isAuthorizedAdminRequest s req then Some (Inl (Err 403 ''FORBIDDEN''), s)
      else case decode_body (ax_action_body x) req of
        Inl e \<Rightarrow> Some (Inl (Err 400 e), s)
      | Inr action \<Rightarrow>
          (case action_of x action topicName channelName s of
             None \<Rightarrow> Some (Inl (Err 400 ''INVALID_ACTION''), s)
           | Some (name, r) \<Rightarrow> do {
               (e, w) <- r;
               let s1 = notifyAdminAction x name topicName channelName [] req (s\<lparr>ad_cluster := w\<rparr>);
               admin_upstream e [] s1 (\<lambda>messages. Some (Inr (DValue (AMessage (maybeWarnMsg messages))), s1)) }))"

definition topicActionHandler where
  "topicActionHandler x topicName req s = topicChannelAction x req topicName [] s"

definition channelActionHandler where
  "channelActionHandler x topicName channelName req s = topicChannelAction x req topicName channelName s"

section \<open>Configuration\<close>

text \<open>\<open>json.Unmarshal\<close> into the copied slice writes into the array that the options in effect share: their
  elements are overwritten with what was decoded, also when the result is an error.\<close>

definition overwrite :: "'a list \<Rightarrow> 'a list \<Rightarrow> 'a list" where
  "overwrite old new = take (length old) (new @ drop (length new) old)"

definition admin_put_option :: "('w, 'v) adctx \<Rightarrow> string \<Rightarrow> bytes \<Rightarrow> 'w NSQAdmin \<Rightarrow> http_err option \<times> 'w NSQAdmin" where
  "admin_put_option x opt body s =
     (if opt = ''nsqlookupd_http_addresses'' then
        (case ax_addresses x body (lookupds s) of
           (Some _, addrs) \<Rightarrow>
             (Some (Err 400 ''INVALID_VALUE''),
              s\<lparr>ad_opts := (ad_opts s)\<lparr>ao_NSQLookupdHTTPAddresses := overwrite (lookupds s) addrs\<rparr>\<rparr>)
         | (None, addrs) \<Rightarrow> (None, s\<lparr>ad_opts := (ad_opts s)\<lparr>ao_NSQLookupdHTTPAddresses := addrs\<rparr>\<rparr>))
      else if opt = ''log_level'' then
        (case ParseLogLevel (text_of body) of
           Inl _ \<Rightarrow> (Some (Err 400 ''INVALID_VALUE''), s)
         | Inr l \<Rightarrow> (None, s\<lparr>ad_opts := (ad_opts s)\<lparr>ao_LogLevel := l\<rparr>\<rparr>))
      else (Some (Err 400 ''INVALID_OPTION''), s))"

definition config_allowed :: "('w, 'v) adctx \<Rightarrow> admin_req \<Rightarrow> 'w NSQAdmin \<Rightarrow> http_err option option" where
  "config_allowed x req s =
     (if ao_AllowConfigFromCIDR (ad_opts s) = [] then Some None
      else case SplitHostPort (q_RemoteAddr req) of
        Inl _ \<Rightarrow> Some (Some (Err 400 ''INVALID_REMOTE_ADDR''))
      | Inr (addr, _) \<Rightarrow>
          if \<not> ax_is_ip x addr then Some (Some (Err 400 ''INVALID_REMOTE_ADDR''))
          else (case ax_cidr x (ao_AllowConfigFromCIDR (ad_opts s)) of
                  None \<Rightarrow> None
                | Some contains \<Rightarrow> Some (if contains addr then None else Some (Err 403 ''FORBIDDEN''))))"

definition admin_get_option :: "string \<Rightarrow> 'w NSQAdmin \<Rightarrow> ('w, 'v) admin_reply" where
  "admin_get_option opt s =
     (case getOptByCfgName (ad_opts s) opt of
        None \<Rightarrow> Some (Inl (Err 400 ''INVALID_OPTION''), s)
      | Some v \<Rightarrow> Some (Inr (DValue (AOption v)), s))"

definition admin_doConfig :: "('w, 'v) adctx \<Rightarrow> string \<Rightarrow> admin_req \<Rightarrow> 'w NSQAdmin \<Rightarrow> ('w, 'v) admin_reply" where
  "admin_doConfig x opt req s = do {
     refused <- config_allowed x req s;
     (case refused of
        Some er \<Rightarrow> Some (Inl er, s)
      | None \<Rightarrow>
          if q_Method req = ''PUT'' then
            (case q_Body req of
               Inl _ \<Rightarrow> Some (Inl (Err 500 ''INTERNAL_ERROR''), s)
             | Inr b \<Rightarrow>
                 let body = take (1024 * 1024 + 1) b in
                 if length body = 1024 * 1024 + 1 \<or> length body = 0 then Some (Inl (Err 413 ''INVALID_VALUE''), s)
                 else (case admin_put_option x opt body s of
                         (Some er, s1) \<Rightarrow> Some (Inl er, s1)
                       | (None, s1) \<Rightarrow> admin_get_option opt s1))
          else admin_get_option opt s) }"

section \<open>Routes\<close>

text \<open>The routes of the API with their parameters, as the router matches them.\<close>

datatype admin_route =
    RPing | RTopics | RTopic string | RChannel string string | RNodes | RNode string | RCreate
  | RTopicAction string | RChannelAction string string | RTombstone string | RDeleteTopic string
  | RDeleteChannel string string | RCounter | RConfig string

fun admin_serve :: "('w, 'v) adctx \<Rightarrow> admin_route \<Rightarrow> admin_req \<Rightarrow> 'w NSQAdmin \<Rightarrow> ('w, 'v) admin_reply" where
  "admin_serve x RPing req s = admin_pingHandler s"
| "admin_serve x RTopics req s = topicsHandler x req s"
| "admin_serve x (RTopic t) req s = topicHandler x t s"
| "admin_serve x (RChannel t ch) req s = channelHandler x t ch s"
| "admin_serve x RNodes req s = nodesHandler x s"
| "admin_serve x (RNode n) req s = nodeHandler x n s"
| "admin_serve x RCreate req s = createTopicChannelHandler x req s"
| "admin_serve x (RTopicAction t) req s = topicActionHandler x t req s"
| "admin_serve x (RChannelAction t ch) req s = channelActionHandler x t ch req s"
| "admin_serve x (RTombstone n) req s = tombstoneNodeForTopicHandler x n req s"
| "admin_serve x (RDeleteTopic t) req s = deleteTopicHandler x t req s"
| "admin_serve x (RDeleteChannel t ch) req s = deleteChannelHandler x t ch req s"
| "admin_serve x RCounter req s = counterHandler x s"
| "admin_serve x (RConfig opt) req s = admin_doConfig x opt req s"

end

