(* ===== verification/Nsq_ClusterProps.thy ===== *)
theory Nsq_ClusterProps
  imports Nsq_Admin
begin

text \<open>
  What the queries to a cluster return, whatever instances answer and in whatever order: topics are the union of what is
  reported, producers are merged by address, statistics are added up.
\<close>

section \<open>Gathering answers\<close>

text \<open>Every goroutine finishes once.\<close>

definition arrives :: "('w, 'v) ClusterInfo \<Rightarrow> bool" where
  "arrives c \<longleftrightarrow> (\<forall>n. mset (ci_order c n) = mset [0..<n])"

definition failures :: "('a \<Rightarrow> go_error + 'b) \<Rightarrow> 'a list \<Rightarrow> go_error list" where
  "failures f xs = List.map_filter (\<lambda>x. case f x of Inl e \<Rightarrow> Some e | Inr _ \<Rightarrow> None) xs"

definition successes :: "('a \<Rightarrow> go_error + 'b) \<Rightarrow> 'a list \<Rightarrow> ('a \<times> 'b) list" where
  "successes f xs = List.map_filter (\<lambda>x. case f x of Inl _ \<Rightarrow> None | Inr v \<Rightarrow> Some (x, v)) xs"

lemma mset_map_filter: "mset (List.map_filter g xs) = image_mset (the \<circ> g) (filter_mset (\<lambda>x. g x \<noteq> None) (mset xs))"
  by (simp add: List.map_filter_def)

lemma map_filter_map: "List.map_filter g (map h xs) = List.map_filter (\<lambda>x. g (h x)) xs"
  by (simp add: List.map_filter_def filter_map comp_def)

lemma arrival_perm:
  assumes "arrives c"
  shows "mset (map ((!) xs) (ci_order c (length xs))) = mset xs"
proof -
  have "mset (map ((!) xs) (ci_order c (length xs))) = image_mset ((!) xs) (mset [0..<length xs])"
    using assms by (simp only: mset_map arrives_def)
  also have "\<dots> = mset (map ((!) xs) [0..<length xs])" by (simp only: mset_map)
  finally show ?thesis by (simp only: map_nth)
qed

lemma gather_eq:
  "gather c f xs = (failures f (map ((!) xs) (ci_order c (length xs))), successes f (map ((!) xs) (ci_order c (length xs))))"
  by (simp add: gather_def Let_def map_filter_map failures_def successes_def)

lemma failures_cong: "mset xs = mset ys \<Longrightarrow> mset (failures f xs) = mset (failures f ys)"
  by (simp add: failures_def mset_map_filter)

lemma successes_cong: "mset xs = mset ys \<Longrightarrow> mset (successes f xs) = mset (successes f ys)"
  by (simp add: successes_def mset_map_filter)

lemma gather_mset:
  assumes "arrives c" "gather c f xs = (errs, oks)"
  shows "mset errs = mset (failures f xs)" "mset oks = mset (successes f xs)"
  using assms(2) failures_cong [OF arrival_perm [OF assms(1)]] successes_cong [OF arrival_perm [OF assms(1)]]
  by (auto simp: gather_eq)

lemma failures_length: "length (failures f xs) = length xs \<longleftrightarrow> (\<forall>x \<in> set xs. isl (f x))"
proof -
  have "length (failures f xs) = length (filter (\<lambda>x. isl (f x)) xs)"
    unfolding failures_def List.map_filter_def length_map
    by (intro arg_cong [where f = length] filter_cong) (auto split: sum.splits)
  moreover have "length (filter (\<lambda>x. isl (f x)) xs) < length xs" if "x \<in> set xs" "\<not> isl (f x)" for x
    using that by (rule length_filter_less)
  ultimately show ?thesis by (metis filter_True less_irrefl)
qed

lemma failures_empty: "failures f xs = [] \<longleftrightarrow> (\<forall>x \<in> set xs. \<not> isl (f x))"
  by (auto simp: failures_def List.map_filter_def filter_empty_conv isl_def split: sum.splits)

lemma successes_set: "set (successes f xs) = {(x, v). x \<in> set xs \<and> f x = Inr v}"
  by (force simp: successes_def List.map_filter_def split: sum.splits)

text \<open>The result of a query: nothing when every part failed, otherwise the value with the errors of the parts that did.\<close>

lemma query_result_gather:
  assumes "arrives c" "gather c f xs = (errs, oks)"
  shows "query_result who (length xs) errs zero v =
    (if \<forall>x \<in> set xs. isl (f x) then (zero, Some (Failed (''Failed to query any '' @ who @ '': '' @ ErrList_Error errs)))
     else (v, if \<forall>x \<in> set xs. \<not> isl (f x) then None else Some (ErrList errs)))"
proof -
  have m: "mset errs = mset (failures f xs)" by (rule gather_mset [OF assms])
  then have "length errs = length (failures f xs)" by (rule mset_eq_length)
  then have "length errs = length xs \<longleftrightarrow> (\<forall>x \<in> set xs. isl (f x))"
    "0 < length errs \<longleftrightarrow> \<not> (\<forall>x \<in> set xs. \<not> isl (f x))"
    using failures_length [of f xs] failures_empty [of f xs] by (simp, metis length_greater_0_conv)
  then show ?thesis by (simp only: query_result_def if_False if_True split: if_split) blast
qed

section \<open>Topics\<close>

lemma sort_uniq: "sort (stringy_Uniq ts) = sorted_list_of_set (set ts)"
  using sorted_list_of_set_sort_remdups [of "stringy_Uniq ts"] stringy_Uniq_distinct [of ts]
  by (simp add: distinct_remdups_id)

definition lookupd_topics :: "('w, 'v) ClusterInfo \<Rightarrow> 'w \<Rightarrow> string \<Rightarrow> go_error + string list" where
  "lookupd_topics c w addr = GETV1 (ci_client c) (j_topics c) (http addr ''/topics'') w"

text \<open>The topics of a cluster: if no nsqlookupd answers, the query fails. Otherwise it returns, in order and
  without duplicates, exactly the topics that some nsqlookupd reports, independent of the order in which the answers
  arrive; the errors of those that did not answer come along, each once, as a partial error.\<close>

theorem lookupd_topics_are_union:
  assumes "arrives c"
  shows "if \<forall>a \<in> set addrs. isl (lookupd_topics c w a)
    then \<exists>m. GetLookupdTopics c addrs w = ([], Some (Failed m))
    else \<exists>e. GetLookupdTopics c addrs w = (sorted_list_of_set {t. \<exists>a \<in> set addrs. \<exists>ts. lookupd_topics c w a = Inr ts \<and> t \<in> set ts}, e) \<and>
      (if \<forall>a \<in> set addrs. \<not> isl (lookupd_topics c w a) then e = None
       else \<exists>l. e = Some (ErrList l) \<and> mset l = mset (failures (lookupd_topics c w) addrs))"
proof -
  let ?q = "lookupd_topics c w"
  obtain errs oks where g: "gather c ?q addrs = (errs, oks)" by fastforce
  have "set oks = set (successes ?q addrs)" using gather_mset(2) [OF assms g] by (rule mset_eq_setD)
  then have u: "set (concat (map snd oks)) = {t. \<exists>a \<in> set addrs. \<exists>ts. ?q a = Inr ts \<and> t \<in> set ts}"
    by (force simp: successes_set)
  have "GetLookupdTopics c addrs w =
      query_result ''nsqlookupd'' (length addrs) errs [] (sorted_list_of_set {t. \<exists>a \<in> set addrs. \<exists>ts. ?q a = Inr ts \<and> t \<in> set ts})"
    using g by (simp add: GetLookupdTopics_def lookupd_topics_def [abs_def] sort_uniq u [unfolded lookupd_topics_def, symmetric])
  then show ?thesis using gather_mset(1) [OF assms g] unfolding query_result_gather [OF assms g]
    by (auto split: if_splits)
qed

section \<open>Producers\<close>

text \<open>\<open>LT\<close> of \<open>semver\<close> is documented to order versions by precedence: irreflexive, transitive, and versions of the same
  precedence compare alike.\<close>

definition precedence :: "'v semver \<Rightarrow> bool" where
  "precedence sv \<longleftrightarrow> (\<forall>a. \<not> sv_LT sv a a) \<and> (\<forall>a b c. sv_LT sv a b \<longrightarrow> sv_LT sv b c \<longrightarrow> sv_LT sv a c) \<and>
     (\<forall>a b c. sv_LT sv a c \<longrightarrow> sv_LT sv a b \<or> sv_LT sv b c)"

definition remote :: "string \<times> 'v ClusterProducer \<Rightarrow> string" where
  "remote ap = fst ap @ ''/'' @ Producer_Address (snd ap)"

definition remotes :: "string \<Rightarrow> (string \<times> 'v ClusterProducer) list \<Rightarrow> string list" where
  "remotes k ans = map remote (filter (\<lambda>ap. TCPAddress (snd ap) = k) ans)"

text \<open>The largest of the versions seen.\<close>

definition newest :: "'v semver \<Rightarrow> 'v \<Rightarrow> 'v set \<Rightarrow> 'v \<Rightarrow> bool" where
  "newest sv zero V v \<longleftrightarrow> (\<forall>u \<in> V. \<not> sv_LT sv v u) \<and> \<not> sv_LT sv v zero \<and> (v = zero \<or> v \<in> V)"

lemma newest_insert:
  assumes "newest sv zero V v" "precedence sv"
  shows "newest sv zero (insert u V) (if sv_LT sv v u then u else v)"
proof (cases "sv_LT sv v u")
  case True
  then have "\<not> sv_LT sv u x" if "\<not> sv_LT sv v x" for x using that assms(2) unfolding precedence_def by blast
  moreover have "\<not> sv_LT sv u u" using assms(2) by (simp add: precedence_def)
  ultimately show ?thesis using True assms(1) by (simp add: newest_def)
qed (use assms in \<open>auto simp: newest_def\<close>)

lemma newest_before:
  assumes "newest sv zero V v" "precedence sv"
  shows "sv_LT sv u v \<longleftrightarrow> sv_LT sv u zero \<or> (\<exists>x \<in> V. sv_LT sv u x)"
proof
  show "sv_LT sv u v" if "sv_LT sv u zero \<or> (\<exists>x \<in> V. sv_LT sv u x)"
    using that assms unfolding newest_def precedence_def by blast
qed (use assms(1) in \<open>auto simp: newest_def\<close>)

text \<open>What the merge of the reports \<open>ans\<close> has built: one entry for each TCP address reported, with the remote
  addresses of all its reports, and the largest version of the entries.\<close>

definition merged ::
    "'v semver \<Rightarrow> 'v \<Rightarrow> (string \<times> 'v ClusterProducer) list \<Rightarrow> (string \<times> 'v ClusterProducer) list \<times> 'v \<Rightarrow> bool" where
  "merged sv zero ans s \<longleftrightarrow>
     distinct (map fst (fst s)) \<and> dom (map_of (fst s)) = (TCPAddress \<circ> snd) ` set ans \<and>
     (\<forall>k p. map_of (fst s) k = Some p \<longrightarrow> TCPAddress p = k \<and> \<not> pd_OutOfDate p \<and> pd_RemoteAddresses p = remotes k ans) \<and>
     newest sv zero (pd_VersionObj ` ran (map_of (fst s))) (snd s)"

lemma TCPAddress_update [simp]:
  "TCPAddress (p\<lparr>pd_RemoteAddresses := rs\<rparr>) = TCPAddress p" "TCPAddress (p\<lparr>pd_Topics := ts\<rparr>) = TCPAddress p"
  "TCPAddress (p\<lparr>pd_OutOfDate := b\<rparr>) = TCPAddress p"
  by (simp_all add: TCPAddress_def)

lemma keys_amap_put: "map fst (amap_put k v m) = (if k \<in> fst ` set m then map fst m else map fst m @ [k])"
  by (auto simp: amap_put_def comp_def case_prod_beta intro!: map_cong)

lemma remotes_append: "remotes k (ans @ [(addr, p)]) =
    (if TCPAddress p = k then remotes k ans @ [addr @ ''/'' @ Producer_Address p] else remotes k ans)"
  by (simp add: remotes_def remote_def)

lemma merged_start: "precedence sv \<Longrightarrow> merged sv zero [] ([], zero)"
  by (simp add: merged_def precedence_def newest_def)

lemma ran_upd_same: "m k = Some q \<Longrightarrow> f q' = f q \<Longrightarrow> f ` ran (m(k \<mapsto> q')) = f ` ran m"
proof -
  assume m: "m k = Some q" "f q' = f q"
  have "f x \<in> f ` ran m" if "x \<in> ran (m(k \<mapsto> q'))" for x using that m by (cases "x = q'") (auto simp: ran_def split: if_splits)
  moreover have "f x \<in> f ` ran (m(k \<mapsto> q'))" if x: "x \<in> ran m" for x
  proof -
    obtain j where j: "m j = Some x" using x by (auto simp: ran_def)
    then show ?thesis using m by (cases "j = k") (force simp: ran_def image_iff)+
  qed
  ultimately show ?thesis by blast
qed

lemma merge_producer_merged:
  assumes "merged sv zero ans s" "precedence sv" "pd_RemoteAddresses p = []" "\<not> pd_OutOfDate p"
  shows "merged sv zero (ans @ [(addr, p)]) (merge_producer sv addr p s)"
proof (cases "map_of (fst s) (TCPAddress p)")
  case None
  let ?p = "p\<lparr>pd_Topics := sort_key pt_Topic (pd_Topics p), pd_RemoteAddresses := [addr @ ''/'' @ Producer_Address p]\<rparr>"
  let ?max = "if sv_LT sv (snd s) (pd_VersionObj p) then pd_VersionObj p else snd s"
  have new: "TCPAddress p \<notin> fst ` set (fst s)" using None by (simp add: map_of_eq_None_iff)
  have "TCPAddress p \<notin> (TCPAddress \<circ> snd) ` set ans" using assms(1) None unfolding merged_def by blast
  then have none: "remotes (TCPAddress p) ans = []" by (force simp: remotes_def filter_empty_conv)
  have eq: "merge_producer sv addr p s = (amap_put (TCPAddress p) ?p (fst s), ?max)"
    using None assms(3) by (simp add: merge_producer_def Let_def amap_put_new [OF new])
  have "newest sv zero (pd_VersionObj ` ran (map_of (amap_put (TCPAddress p) ?p (fst s)))) ?max"
    using newest_insert [OF _ assms(2)] assms(1) None by (simp add: merged_def map_of_amap_put)
  then show ?thesis
    using assms(1,4) new none unfolding eq
    by (auto simp: merged_def map_of_amap_put keys_amap_put remotes_append split: if_splits)
next
  case (Some q)
  let ?q = "q\<lparr>pd_RemoteAddresses := pd_RemoteAddresses q @ [addr @ ''/'' @ Producer_Address p]\<rparr>"
  have mem: "TCPAddress p \<in> fst ` set (fst s)" using Some by (metis domI dom_map_of_conv_image_fst)
  have eq: "merge_producer sv addr p s = (amap_put (TCPAddress p) ?q (fst s), snd s)"
    using Some by (simp add: merge_producer_def Let_def)
  have "pd_VersionObj ` ran (map_of (amap_put (TCPAddress p) ?q (fst s))) = pd_VersionObj ` ran (map_of (fst s))"
    using ran_upd_same [where m = "map_of (fst s)" and k = "TCPAddress p" and q = q and f = pd_VersionObj and q' = ?q] Some by (simp add: map_of_amap_put)
  then show ?thesis
    using assms(1) Some mem unfolding eq
    by (auto simp: merged_def map_of_amap_put keys_amap_put remotes_append split: if_splits)
qed

lemma merge_all:
  assumes "precedence sv" "\<forall>(addr, p) \<in> set ans. pd_RemoteAddresses p = [] \<and> \<not> pd_OutOfDate p"
  shows "merged sv zero ans (fold (\<lambda>(addr, p). merge_producer sv addr p) ans ([], zero))"
  using assms(2)
proof (induction ans rule: rev_induct)
  case (snoc ap ans)
  then show ?case using merge_producer_merged [OF _ assms(1)] by (cases ap) auto
qed (simp add: merged_start [OF assms(1)])

text \<open>The reports that the answers to a query contain, in the order of arrival.\<close>

lemma decode_answers_new:
  "decode_answers sv oks = Some ans \<Longrightarrow> \<forall>(addr, p) \<in> set ans. pd_RemoteAddresses p = [] \<and> \<not> pd_OutOfDate p"
proof (induction oks arbitrary: ans)
  case (Cons ok oks)
  obtain addr raws where ok: "ok = (addr, raws)" by fastforce
  from Cons.prems obtain ps rest where ps: "those (map (Producer_Unmarshal sv) raws) = Some ps"
    "decode_answers sv oks = Some rest" "ans = map (Pair addr) ps @ rest"
    by (auto simp: ok split: bind_splits)
  have "pd_RemoteAddresses p = [] \<and> \<not> pd_OutOfDate p" if "p \<in> set ps" for p
  proof -
    have "p \<in> set ps \<Longrightarrow> those (map (Producer_Unmarshal sv) raws) = Some ps \<Longrightarrow> \<exists>raw. Producer_Unmarshal sv raw = Some p" for ps raws
      by (induction raws arbitrary: ps) (auto split: option.splits)
    then show ?thesis using that ps(1) by (fastforce simp: Producer_Unmarshal_def split: if_splits)
  qed
  then show ?case using Cons.IH [OF ps(2)] ps(3) by auto
qed simp

text \<open>All nodes of a cluster, as the nsqlookupd instances report them: each TCP address that is reported is listed once,
  with one remote address for each of its reports; the list is ordered by host name. A node is marked as out of date exactly if its version
  is before that of another listed node, or before 0.0.0.\<close>

theorem cluster_producers_merged:
  fixes c :: "('w, 'v) ClusterInfo"
  assumes "arrives c" "precedence (ci_semver c)" "GetLookupdProducers c addrs w = Some (ps, e)" "\<forall>m. e \<noteq> Some (Failed m)"
  shows "\<exists>oks ans. mset oks = mset (successes (\<lambda>a. GETV1 (ci_client c) (j_producers c) (http a ''/nodes'') w) addrs) \<and>
    decode_answers (ci_semver c) oks = Some ans \<and>
    distinct (map TCPAddress ps) \<and> set (map TCPAddress ps) = (TCPAddress \<circ> snd) ` set ans \<and> sorted (map pd_Hostname ps) \<and>
    (\<forall>p \<in> set ps. pd_RemoteAddresses p = remotes (TCPAddress p) ans \<and>
       (pd_OutOfDate p \<longleftrightarrow> sv_LT (ci_semver c) (pd_VersionObj p) (fst (sv_Parse (ci_semver c) ''0.0.0'')) \<or>
          (\<exists>q \<in> set ps. sv_LT (ci_semver c) (pd_VersionObj p) (pd_VersionObj q))))"
proof -
  let ?sv = "ci_semver c" and ?q = "\<lambda>a. GETV1 (ci_client c) (j_producers c) (http a ''/nodes'') w"
  let ?zero = "fst (sv_Parse ?sv ''0.0.0'')"
  obtain errs oks where g: "gather c ?q addrs = (errs, oks)" by fastforce
  then obtain ans where ans: "decode_answers ?sv oks = Some ans" using assms(3) by (auto simp: GetLookupdProducers_def split: bind_splits)
  define s where "s = fold (\<lambda>(addr, p). merge_producer ?sv addr p) ans ([], ?zero)"
  define mark where "mark = (\<lambda>p :: 'v ClusterProducer. if sv_LT ?sv (pd_VersionObj p) (snd s) then p\<lparr>pd_OutOfDate := True\<rparr> else p)"
  have m: "merged ?sv ?zero ans s" unfolding s_def by (rule merge_all [OF assms(2) decode_answers_new [OF ans]])
  have "GetLookupdProducers c addrs w =
      Some (query_result ''nsqlookupd'' (length addrs) errs [] (sort_key pd_Hostname (map (mark \<circ> snd) (fst s))))"
    by (simp add: GetLookupdProducers_def g ans s_def mark_def Let_def case_prod_unfold comp_def)
  then have "ps = sort_key pd_Hostname (map (mark \<circ> snd) (fst s))"
    using assms(3,4) by (auto simp: query_result_gather [OF assms(1) g] split: if_splits)
  then have ps: "mset ps = mset (map (mark \<circ> snd) (fst s))" "sorted (map pd_Hostname ps)" by simp_all
  have set_ps: "set ps = (mark \<circ> snd) ` set (fst s)" using mset_eq_setD [OF ps(1)] by simp
  have mark: "TCPAddress (mark p) = TCPAddress p" "pd_VersionObj (mark p) = pd_VersionObj p"
    "pd_RemoteAddresses (mark p) = pd_RemoteAddresses p" for p by (simp_all add: mark_def)
  have entry: "TCPAddress p = k" "\<not> pd_OutOfDate p" "pd_RemoteAddresses p = remotes k ans" "map_of (fst s) k = Some p"
    if "(k, p) \<in> set (fst s)" for k p using that m by (auto simp: merged_def)
  have keys: "map (TCPAddress \<circ> (mark \<circ> snd)) (fst s) = map fst (fst s)"
    using entry(1) by (auto simp: mark intro!: map_cong)
  have "mset (map TCPAddress ps) = mset (map fst (fst s))" using ps(1) keys by (metis mset_map map_map)
  moreover have dk: "distinct (map fst (fst s))" and "newest ?sv ?zero (pd_VersionObj ` ran (map_of (fst s))) (snd s)"
    using m by (simp_all add: merged_def)
  moreover have nw: "newest ?sv ?zero (pd_VersionObj ` snd ` set (fst s)) (snd s)" using calculation(3) by (simp only: ran_distinct [OF dk])
  ultimately have d: "distinct (map TCPAddress ps)" "set (map TCPAddress ps) = (TCPAddress \<circ> snd) ` set ans"
    using m by (metis mset_eq_imp_distinct_iff merged_def, metis mset_eq_setD merged_def dom_map_of_conv_image_fst list.set_map)
  have "pd_RemoteAddresses p = remotes (TCPAddress p) ans \<and>
      (pd_OutOfDate p \<longleftrightarrow> sv_LT ?sv (pd_VersionObj p) ?zero \<or> (\<exists>q \<in> set ps. sv_LT ?sv (pd_VersionObj p) (pd_VersionObj q)))"
    if p: "p \<in> set ps" for p
  proof -
    obtain k p0 where p0: "(k, p0) \<in> set (fst s)" "p = mark p0" using p by (auto simp: set_ps)
    have "pd_OutOfDate p \<longleftrightarrow> sv_LT ?sv (pd_VersionObj p0) (snd s)" using entry(2) [OF p0(1)] by (simp add: p0(2) mark_def)
    also have "\<dots> \<longleftrightarrow> sv_LT ?sv (pd_VersionObj p0) ?zero \<or> (\<exists>v \<in> pd_VersionObj ` snd ` set (fst s). sv_LT ?sv (pd_VersionObj p0) v)"
      by (rule newest_before [OF nw assms(2)])
    finally show ?thesis using entry [OF p0(1)] by (auto simp: set_ps p0(2) mark image_comp)
  qed
  then show ?thesis using gather_mset(2) [OF assms(1) g] ans d ps(2) by blast
qed

section \<open>An example cluster\<close>

text \<open>Two nsqlookupd instances, of which the second only answers over TLS, and one that does not answer. Answers are found by the
  path of the request; the goroutines finish in reverse order.\<close>

definition sample_client :: "unit http_client" where
  "sample_client =
     \<lparr>hc_get = (\<lambda>e _.
        if ep_host e = ''c:1'' then Inl ''refused''
        else if ep_host e = ''b:1'' then Inr (403, [1])
        else Inr (200, bytes_of (take 3 (ep_rest e)))),
      hc_post = (\<lambda>e w. (Inr (200, []), w)),
      hc_https_port = (\<lambda>b. Inr 2)\<rparr>"

definition sample_raw :: raw_producer where
  "sample_raw = \<lparr>rw_RemoteAddress = ''r:9'', rw_Hostname = ''h'', rw_BroadcastAddress = ''n'', rw_TCPPort = 7, rw_HTTPPort = 8,
     rw_Version = ''1.2.0'', rw_Topics = [''t''], rw_Tombstoned = [False]\<rparr>"

definition sample_channel_stats :: "string \<Rightarrow> i64 \<Rightarrow> ChannelStats" where
  "sample_channel_stats name depth = zero_channel_stats\<lparr>ks_ChannelName := name, ks_Depth := depth, ks_MessageCount := 10\<rparr>"

definition sample_topic_stats :: "string \<Rightarrow> TopicStats" where
  "sample_topic_stats name = zero_topic_stats\<lparr>ts_TopicName := name, ts_Depth := 3\<rparr>"

definition sample_ci :: "(unit, nat) ClusterInfo" where
  "sample_ci =
     \<lparr>ci_client = sample_client, ci_semver = \<lparr>sv_Parse = (\<lambda>s. (length s, None)), sv_LT = (<)\<rparr>, ci_order = (\<lambda>n. rev [0..<n]),
      j_version = (\<lambda>b. Inr ''1.2.0''), j_topics = (\<lambda>b. Inr [''t'', ''s'', ''t'']), j_channels = (\<lambda>b. Inr [''ch'']),
      j_producers = (\<lambda>b. Inr [sample_raw]),
      j_info = (\<lambda>b. Inr \<lparr>ir_Version = ''1.2.0'', ir_BroadcastAddress = ''n'', ir_Hostname = ''h'', ir_HTTPPort = 8, ir_TCPPort = 7\<rparr>),
      j_topicNames = (\<lambda>b. Inr [''t'']),
      j_stats = (\<lambda>b. Inr [(sample_topic_stats ''t'', [sample_channel_stats ''ch'' 3])])\<rparr>"

lemma sample_ci_arrives: "arrives sample_ci"
  by (simp add: arrives_def sample_ci_def)

lemma sample_ci_precedence: "precedence (ci_semver sample_ci)"
  by (auto simp: precedence_def sample_ci_def)

theorem lookupd_topics_are_union_witness:
  "GetLookupdTopics sample_ci [''a:1'', ''b:1'', ''c:1''] () = ([''s'', ''t''], Some (ErrList [''refused'']))"
proof -
  have q: "lookupd_topics sample_ci () ''a:1'' = Inr [''t'', ''s'', ''t'']" "lookupd_topics sample_ci () ''b:1'' = Inr [''t'', ''s'', ''t'']"
    "lookupd_topics sample_ci () ''c:1'' = Inl ''refused''" by code_simp+
  have "{t. \<exists>a \<in> set [''a:1'', ''b:1'', ''c:1'']. \<exists>ts. lookupd_topics sample_ci () a = Inr ts \<and> t \<in> set ts} = set [''t'', ''s'']"
    by (auto simp: q)
  moreover have "sorted_list_of_set (set [''t'', ''s'']) = [''s'', ''t'']"
    unfolding sorted_list_of_set_sort_remdups by code_simp
  ultimately have "sorted_list_of_set {t. \<exists>a \<in> set [''a:1'', ''b:1'', ''c:1'']. \<exists>ts. lookupd_topics sample_ci () a = Inr ts \<and> t \<in> set ts} =
      [''s'', ''t'']" by simp
  moreover have "failures (lookupd_topics sample_ci ()) [''a:1'', ''b:1'', ''c:1''] = [''refused'']"
    using q by (simp add: failures_def List.map_filter_def)
  ultimately show ?thesis
    using lookupd_topics_are_union [OF sample_ci_arrives, of "[''a:1'', ''b:1'', ''c:1'']" "()"] q by auto
qed

theorem cluster_producers_merged_witness:
  "\<exists>ps. GetLookupdProducers sample_ci [''a:1'', ''b:1'', ''c:1''] () = Some (ps, Some (ErrList [''refused''])) \<and>
     map pd_RemoteAddresses ps = [[''b:1/r:9'', ''a:1/r:9'']] \<and> distinct (map TCPAddress ps) \<and>
     (\<forall>p \<in> set ps. \<not> pd_OutOfDate p)"
proof -
  let ?r = "GetLookupdProducers sample_ci [''a:1'', ''b:1'', ''c:1''] ()"
  have "map_option (\<lambda>(ps, e). (map pd_RemoteAddresses ps, map pd_VersionObj ps, e)) ?r =
      Some ([[''b:1/r:9'', ''a:1/r:9'']], [5], Some (ErrList [''refused'']))" by code_simp
  then obtain z where z: "?r = Some z" "(\<lambda>(ps, e). (map pd_RemoteAddresses ps, map pd_VersionObj ps, e)) z =
      ([[''b:1/r:9'', ''a:1/r:9'']], [5], Some (ErrList [''refused'']))" unfolding map_option_eq_Some by blast
  obtain ps e where "z = (ps, e)" by fastforce
  then have r: "?r = Some (ps, e)" and e: "e = Some (ErrList [''refused''])" and
    ps: "map pd_RemoteAddresses ps = [[''b:1/r:9'', ''a:1/r:9'']]" "map pd_VersionObj ps = [5]" using z by (simp_all only: prod.case prod.inject)
  have d: "distinct (map TCPAddress ps)" and
    o: "pd_OutOfDate p \<longleftrightarrow> pd_VersionObj p < 5 \<or> (\<exists>q \<in> set ps. pd_VersionObj p < pd_VersionObj q)" if "p \<in> set ps" for p
    using cluster_producers_merged [OF sample_ci_arrives sample_ci_precedence r] that by (auto simp: sample_ci_def e)
  have "pd_VersionObj p = 5" if "p \<in> set ps" for p using that ps(2) by (metis imageI list.set_map list.simps(15) empty_set singletonD)
  then have "\<not> pd_OutOfDate p" if "p \<in> set ps" for p using o [OF that] that by auto
  moreover have "ps \<noteq> []" using ps(2) by auto
  ultimately show ?thesis using r e ps(1) d by (metis hd_in_set)
qed

end

