(* ===== verification/Nsq_StatsProps.thy ===== *)
theory Nsq_StatsProps
  imports Nsq_ClusterProps
begin

text \<open>
  The statistics of a cluster: what \<open>GetNSQDStats\<close> computes in its store of shared objects is, for each channel, the sum of what
  the nodes report. The invariant \<open>agg\<close> relates the aggregates to the reports merged so far; \<open>pending\<close> says that the
  objects of an answer that are not merged yet still hold what was decoded.
\<close>

section \<open>Reports\<close>

definition counters :: "(ChannelStats \<Rightarrow> i64) list" where
  "counters = [ks_Depth, ks_MemoryDepth, ks_BackendDepth, ks_InFlightCount, ks_DeferredCount, ks_RequeueCount,
     ks_TimeoutCount, ks_MessageCount, ks_ClientCount]"

definition reported :: "string \<Rightarrow> string \<Rightarrow> string \<Rightarrow> ChannelStats \<Rightarrow> ChannelStats" where
  "reported addr hostname topic k =
     k\<lparr>ks_Node := addr, ks_Hostname := hostname, ks_TopicName := topic, ks_MemoryDepth := ks_Depth k - ks_BackendDepth k,
       ks_Clients := map (\<lambda>kc. kc\<lparr>kc_Node := addr\<rparr>) (ks_Clients k)\<rparr>"

definition topic_reports :: "string \<Rightarrow> (TopicStats \<times> ChannelStats list) list \<Rightarrow> (string \<times> ChannelStats) list" where
  "topic_reports sel ans =
     concat (map (\<lambda>(t, ks). if sel \<noteq> [] \<and> ts_TopicName t \<noteq> sel then []
       else map (\<lambda>k. (ts_TopicName t, k\<lparr>ks_NodeStats := []\<rparr>)) ks) ans)"

text \<open>What a node reports, by the key of the aggregate it belongs to.\<close>

definition keyed :: "string \<Rightarrow> 'v ClusterProducer \<Rightarrow> string \<times> ChannelStats \<Rightarrow> string \<times> ChannelStats" where
  "keyed sel p tk = (stats_key sel (fst tk) (ks_ChannelName (snd tk)), reported (HTTPAddress p) (pd_Hostname p) (fst tk) (snd tk))"

definition stats_reports :: "string \<Rightarrow> 'v ClusterProducer \<times> (TopicStats \<times> ChannelStats list) list \<Rightarrow> (string \<times> ChannelStats) list" where
  "stats_reports sel pa = map (keyed sel (fst pa)) (topic_reports sel (snd pa))"

definition of_key :: "string \<Rightarrow> (string \<times> 'a) list \<Rightarrow> 'a list" where
  "of_key key reps = map snd (filter (\<lambda>kr. fst kr = key) reps)"

lemma of_key_append: "of_key key (xs @ ys) = of_key key xs @ of_key key ys"
  by (simp add: of_key_def)

lemma of_key_single: "of_key key [(key', x)] = (if key' = key then [x] else [])"
  by (simp add: of_key_def)

lemma of_key_none: "key \<notin> fst ` set reps \<Longrightarrow> of_key key reps = []"
  by (force simp: of_key_def filter_empty_conv)

section \<open>The invariant\<close>

definition totals :: "ChannelStats \<Rightarrow> ChannelStats list \<Rightarrow> bool" where
  "totals a ks \<longleftrightarrow> (\<forall>f \<in> set counters. f a = sum_list (map f ks)) \<and> length (ks_NodeStats a) = length ks \<and>
     mset (ks_Clients a) = mset (concat (map ks_Clients ks)) \<and> (ks_Paused a \<longleftrightarrow> (\<exists>k \<in> set ks. ks_Paused k))"

definition agg :: "(string \<times> ChannelStats) list \<Rightarrow> stats_acc \<Rightarrow> bool" where
  "agg reps s \<longleftrightarrow> distinct (map fst (sa_channels s)) \<and> inj_on (map_of (sa_channels s)) (dom (map_of (sa_channels s))) \<and>
     dom (map_of (sa_channels s)) = fst ` set reps \<and>
     (\<forall>key r. map_of (sa_channels s) key = Some r \<longrightarrow>
        r < st_nextChannel (sa_store s) \<and> totals (st_channels (sa_store s) r) (of_key key reps))"

definition pending :: "stats_acc \<Rightarrow> (string \<times> ref) list \<Rightarrow> (string \<times> ChannelStats) list \<Rightarrow> bool" where
  "pending s work ks \<longleftrightarrow> distinct (map snd work) \<and>
     list_all2 (\<lambda>(t, r) (t', k). t = t' \<and> r < st_nextChannel (sa_store s) \<and> r \<notin> ran (map_of (sa_channels s)) \<and>
       st_channels (sa_store s) r = k) work ks"

lemma totals_zero: "totals (zero_channel_stats\<lparr>ks_Node := a, ks_TopicName := t, ks_ChannelName := n\<rparr>) []"
  by (simp add: totals_def counters_def zero_channel_stats_def)

lemma totals_add:
  assumes "totals (st_channels st rc) ks" "rc \<noteq> r"
  shows "totals (st_channels (ChannelStats_Add rc r st) rc) (ks @ [st_channels st r])"
  using assms by (auto simp: totals_def counters_def ChannelStats_Add_def set_channel_stats_def Let_def sort_channels_by_host_def)

lemma Add_other: "r' \<noteq> rc \<Longrightarrow> st_channels (ChannelStats_Add rc r st) r' = st_channels st r'"
  by (simp add: ChannelStats_Add_def set_channel_stats_def Let_def)

lemma Add_frame [simp]:
  "st_nextChannel (ChannelStats_Add rc r st) = st_nextChannel st" "st_topics (ChannelStats_Add rc r st) = st_topics st"
  by (simp_all add: ChannelStats_Add_def set_channel_stats_def Let_def)

section \<open>One channel\<close>

lemma stats_channel_known:
  assumes "map_of (sa_channels s) (stats_key sel t (ks_ChannelName (st_channels (sa_store s) r))) = Some rc"
  shows "stats_channel addr host sel t r s =
    s\<lparr>sa_store := ChannelStats_Add rc r (set_channel_stats r (reported addr host t (st_channels (sa_store s) r)) (sa_store s))\<rparr>"
  using assms by (simp add: stats_channel_def find_aggregate_def reported_def set_channel_stats_def Let_def)

lemma stats_channel_new:
  assumes "map_of (sa_channels s) key = None" "key = stats_key sel t (ks_ChannelName (st_channels (sa_store s) r))"
    "r < st_nextChannel (sa_store s)" "rc = st_nextChannel (sa_store s)"
    "zero = zero_channel_stats\<lparr>ks_Node := addr, ks_TopicName := t, ks_ChannelName := ks_ChannelName (st_channels (sa_store s) r)\<rparr>"
  shows "stats_channel addr host sel t r s =
    s\<lparr>sa_channels := amap_put key rc (sa_channels s),
      sa_store := ChannelStats_Add rc r (set_channel_stats r (reported addr host t (st_channels (sa_store s) r))
        (set_channel_stats rc zero ((sa_store s)\<lparr>st_nextChannel := rc + 1\<rparr>)))\<rparr>"
  using assms
  by (simp add: stats_channel_def find_aggregate_def alloc_channel_def reported_def set_channel_stats_def Let_def fun_upd_twist)

lemma amap_put_same: "distinct (map fst m) \<Longrightarrow> map_of m k = Some v \<Longrightarrow> amap_put k v m = m"
  by (force simp: amap_put_def intro!: map_idI dest: eq_key_imp_eq_value)

text \<open>The aggregate under \<open>key\<close> grows by a report, whether it was there before or not.\<close>

lemma agg_grow:
  assumes "agg reps s" "sa_channels s' = amap_put key rc (sa_channels s)"
    "map_of (sa_channels s) key = Some rc \<or> map_of (sa_channels s) key = None \<and> rc \<notin> ran (map_of (sa_channels s))"
    "rc < st_nextChannel (sa_store s')" "st_nextChannel (sa_store s) \<le> st_nextChannel (sa_store s')"
    "totals (st_channels (sa_store s') rc) (of_key key reps @ [k])"
    "\<And>r. r \<in> ran (map_of (sa_channels s)) \<Longrightarrow> r \<noteq> rc \<Longrightarrow> st_channels (sa_store s') r = st_channels (sa_store s) r"
  shows "agg (reps @ [(key, k)]) s'"
proof -
  let ?m = "map_of (sa_channels s)"
  have m': "map_of (sa_channels s') = ?m(key \<mapsto> rc)" by (simp add: assms(2) map_of_amap_put)
  have old: "?m key' \<noteq> Some rc" if "key' \<noteq> key" for key'
    using that assms(1,3) unfolding agg_def by (metis domI inj_onD ranI)
  have "distinct (map fst (sa_channels s'))" using assms(1) by (auto simp: assms(2) agg_def keys_amap_put)
  moreover have "inj_on (?m(key \<mapsto> rc)) (dom (?m(key \<mapsto> rc)))"
    using assms(1) old by (auto simp: agg_def inj_on_def dom_def)
  moreover have "r < st_nextChannel (sa_store s') \<and> totals (st_channels (sa_store s') r) (of_key key' (reps @ [(key, k)]))"
    if "(?m(key \<mapsto> rc)) key' = Some r" for key' r
  proof (cases "key' = key")
    case True
    then show ?thesis using that assms(4,6) by (simp add: of_key_append of_key_single)
  next
    case False
    then have "?m key' = Some r" "r \<noteq> rc" using that old [OF False] by auto
    then have "r < st_nextChannel (sa_store s)" "totals (st_channels (sa_store s) r) (of_key key' reps)"
      "st_channels (sa_store s') r = st_channels (sa_store s) r" using assms(1) assms(7) [of r] by (auto simp: agg_def ranI)
    then show ?thesis using False assms(5) by (simp add: of_key_append of_key_single)
  qed
  ultimately show ?thesis using assms(1) by (simp add: agg_def m')
qed

lemma pending_keep:
  assumes "pending s work ks" "ran (map_of (sa_channels s')) \<subseteq> insert rc (ran (map_of (sa_channels s)))"
    "rc \<in> ran (map_of (sa_channels s)) \<or> st_nextChannel (sa_store s) \<le> rc"
    "st_nextChannel (sa_store s) \<le> st_nextChannel (sa_store s')" "r \<notin> snd ` set work"
    "\<And>r'. r' < st_nextChannel (sa_store s) \<Longrightarrow> r' \<noteq> rc \<Longrightarrow> r' \<noteq> r \<Longrightarrow> st_channels (sa_store s') r' = st_channels (sa_store s) r'"
  shows "pending s' work ks"
proof -
  have "(case x of (t, r) \<Rightarrow> \<lambda>(t', k). t = t' \<and> r < st_nextChannel (sa_store s') \<and> r \<notin> ran (map_of (sa_channels s')) \<and>
      st_channels (sa_store s') r = k) y"
    if "x \<in> set work" "(case x of (t, r) \<Rightarrow> \<lambda>(t', k). t = t' \<and> r < st_nextChannel (sa_store s) \<and> r \<notin> ran (map_of (sa_channels s)) \<and>
      st_channels (sa_store s) r = k) y" for x y
  proof -
    obtain t r' t' k where xy: "x = (t, r')" "y = (t', k)" by fastforce
    have "r' \<noteq> r" using assms(5) that(1) xy(1) by force
    moreover have "r' \<noteq> rc" using assms(3) that(2) by (auto simp: xy)
    ultimately show ?thesis using that(2) assms(2,4) assms(6) [of r'] by (auto simp: xy)
  qed
  then show ?thesis using assms(1) unfolding pending_def by (auto elim!: list.rel_mono_strong)
qed

text \<open>Merging one object of an answer: its aggregate grows by the report, the objects still to be merged stay as they are.\<close>

lemma stats_channel_step:
  assumes "agg reps s" "pending s ((t, r) # work) ((t', k) # ks)"
  shows "agg (reps @ [(stats_key sel t' (ks_ChannelName k), reported addr host t' k)]) (stats_channel addr host sel t r s) \<and>
    pending (stats_channel addr host sel t r s) work ks \<and>
    st_topics (sa_store (stats_channel addr host sel t r s)) = st_topics (sa_store s)"
proof -
  let ?st = "sa_store s" and ?rep = "reported addr host t' k" and ?m = "map_of (sa_channels s)"
  define key where "key = stats_key sel t' (ks_ChannelName k)"
  have r: "t' = t" "r < st_nextChannel ?st" "r \<notin> ran ?m" "st_channels ?st r = k" "r \<notin> snd ` set work"
    and work: "pending s work ks" using assms(2) by (auto simp: pending_def)
  show ?thesis
  proof (cases "?m key")
    case (Some rc)
    let ?st1 = "set_channel_stats r ?rep ?st"
    have ne: "rc \<noteq> r" "rc \<in> ran ?m" using Some r(3) by (auto simp: ran_def)
    have same: "sa_channels s = amap_put key rc (sa_channels s)"
      using assms(1) Some by (simp add: agg_def amap_put_same)
    have eq: "stats_channel addr host sel t r s = s\<lparr>sa_store := ChannelStats_Add rc r ?st1\<rparr>"
      using Some r(1,4) stats_channel_known [of s sel t r rc addr host] by (simp add: key_def)
    have ag: "rc < st_nextChannel ?st" "totals (st_channels ?st rc) (of_key key reps)" using assms(1) Some by (auto simp: agg_def)
    have "totals (st_channels (ChannelStats_Add rc r ?st1) rc) (of_key key reps @ [?rep])"
      using totals_add [of ?st1 rc "of_key key reps" r] ag ne by (simp add: set_channel_stats_def)
    then have "agg (reps @ [(key, ?rep)]) (stats_channel addr host sel t r s)"
      unfolding eq using Some ag same r(3) by (intro agg_grow [OF assms(1), of _ key rc]) (auto simp: Add_other set_channel_stats_def)
    moreover have "pending (stats_channel addr host sel t r s) work ks"
      unfolding eq using ne r(5) by (intro pending_keep [OF work, of _ rc r]) (auto simp: Add_other set_channel_stats_def)
    ultimately show ?thesis by (simp add: eq key_def set_channel_stats_def)
  next
    case None
    define rc where "rc = st_nextChannel ?st"
    define zero where "zero = zero_channel_stats\<lparr>ks_Node := addr, ks_TopicName := t, ks_ChannelName := ks_ChannelName k\<rparr>"
    let ?st1 = "set_channel_stats r ?rep (set_channel_stats rc zero (?st\<lparr>st_nextChannel := rc + 1\<rparr>))"
    have "x < rc" if "x \<in> ran ?m" for x using that assms(1) unfolding agg_def ran_def rc_def by blast
    then have ne: "rc \<noteq> r" "rc \<notin> ran ?m" using r(2) by (auto simp: rc_def)
    have eq: "stats_channel addr host sel t r s = s\<lparr>sa_channels := amap_put key rc (sa_channels s), sa_store := ChannelStats_Add rc r ?st1\<rparr>"
      using None r(1,2,4) stats_channel_new [of s key sel t r rc zero addr host] by (simp add: key_def rc_def zero_def)
    have "key \<notin> fst ` set reps" using None assms(1) by (auto simp: agg_def)
    then have "totals (st_channels (ChannelStats_Add rc r ?st1) rc) (of_key key reps @ [?rep])"
      using totals_add [of ?st1 rc "[]" r] totals_zero ne(1) by (simp add: set_channel_stats_def of_key_none zero_def)
    then have "agg (reps @ [(key, ?rep)]) (stats_channel addr host sel t r s)"
      unfolding eq using None ne r(3) by (intro agg_grow [OF assms(1), of _ key rc]) (auto simp: Add_other set_channel_stats_def rc_def)
    moreover have "pending (stats_channel addr host sel t r s) work ks"
      unfolding eq using ne r(5) None
      by (intro pending_keep [OF work, of _ rc r]) (auto simp: Add_other set_channel_stats_def rc_def map_of_amap_put ran_map_upd)
    ultimately show ?thesis by (simp add: eq key_def set_channel_stats_def)
  qed
qed

section \<open>A whole answer\<close>

lemma stats_channels_step:
  assumes "agg reps s" "pending s (map (Pair t) chs @ work) (map (Pair t) kks @ ks)" "length chs = length kks"
  shows "agg (reps @ map (\<lambda>k. (stats_key sel t (ks_ChannelName k), reported addr host t k)) kks) (fold (stats_channel addr host sel t) chs s) \<and>
    pending (fold (stats_channel addr host sel t) chs s) work ks \<and>
    st_topics (sa_store (fold (stats_channel addr host sel t) chs s)) = st_topics (sa_store s)"
  using assms
proof (induction chs arbitrary: s reps kks)
  case (Cons r chs)
  then obtain k kks' where kks: "kks = k # kks'" by (cases kks) auto
  have "agg reps s" "pending s ((t, r) # map (Pair t) chs @ work) ((t, k) # map (Pair t) kks' @ ks)"
    using Cons.prems by (simp_all add: kks)
  note step = stats_channel_step [OF this, of sel addr host]
  have "length chs = length kks'" using Cons.prems(3) by (simp add: kks)
  from Cons.IH [OF conjunct1 [OF step] conjunct1 [OF conjunct2 [OF step]] this] step show ?case by (simp add: kks)
qed simp

text \<open>The objects of the topics to be merged.\<close>

definition selected_refs :: "string \<Rightarrow> (ref \<Rightarrow> TopicStats) \<Rightarrow> ref list \<Rightarrow> (string \<times> ref) list" where
  "selected_refs sel topics rs = concat (map (\<lambda>r. if sel \<noteq> [] \<and> ts_TopicName (topics r) \<noteq> sel then []
     else map (Pair (ts_TopicName (topics r))) (ts_Channels (topics r))) rs)"

lemma set_topic_stats_frame [simp]:
  "st_channels (set_topic_stats r t st) = st_channels st" "st_nextChannel (set_topic_stats r t st) = st_nextChannel st"
  "st_topics (set_topic_stats r t st) = (st_topics st)(r := t)"
  by (simp_all add: set_topic_stats_def)

lemma agg_extend:
  assumes "agg reps s" "sa_channels s' = sa_channels s" "st_nextChannel (sa_store s) \<le> st_nextChannel (sa_store s')"
    "\<forall>r < st_nextChannel (sa_store s). st_channels (sa_store s') r = st_channels (sa_store s) r"
  shows "agg reps s'"
proof -
  have "r < st_nextChannel (sa_store s') \<and> totals (st_channels (sa_store s') r) (of_key key reps)"
    if "map_of (sa_channels s) key = Some r" for key r
  proof -
    have "r < st_nextChannel (sa_store s)" "totals (st_channels (sa_store s) r) (of_key key reps)"
      using assms(1) that unfolding agg_def by blast+
    then show ?thesis using assms(3,4) by simp
  qed
  then show ?thesis using assms(1) unfolding agg_def assms(2) by blast
qed

lemma pending_cong:
  assumes "pending s work ks" "sa_channels s' = sa_channels s" "st_nextChannel (sa_store s') = st_nextChannel (sa_store s)"
    "st_channels (sa_store s') = st_channels (sa_store s)"
  shows "pending s' work ks"
  using assms(1) unfolding pending_def assms(2-4) .

lemma stats_topics_step:
  assumes "agg reps s" "pending s (selected_refs sel (st_topics (sa_store s)) rs) (topic_reports sel ans)"
    "list_all2 (\<lambda>r (t, ks). ts_TopicName (st_topics (sa_store s) r) = ts_TopicName t \<and>
       length (ts_Channels (st_topics (sa_store s) r)) = length ks) rs ans"
  shows "agg (reps @ map (\<lambda>(t, k). (stats_key sel t (ks_ChannelName k), reported addr host t k)) (topic_reports sel ans))
    (fold (stats_topic addr host sel) rs s)"
  using assms
proof (induction rs arbitrary: s reps ans)
  case (Cons r rs)
  then obtain t ks ans' where ans: "ans = (t, ks) # ans'" by (cases ans) auto
  let ?st = "sa_store s"
  let ?t = "st_topics ?st r"
  let ?t1 = "?t\<lparr>ts_Node := addr, ts_Hostname := host, ts_MemoryDepth := ts_Depth ?t - ts_BackendDepth ?t\<rparr>"
  let ?s1 = "s\<lparr>sa_store := set_topic_stats r ?t1 ?st\<rparr>"
  have name: "ts_TopicName ?t = ts_TopicName t" "length (ts_Channels ?t) = length ks" using Cons.prems(3) by (simp_all add: ans)
  have rest: "list_all2 (\<lambda>r (t, ks). ts_TopicName (st_topics st r) = ts_TopicName t \<and> length (ts_Channels (st_topics st r)) = length ks) rs ans'"
    if "st_topics st = (st_topics ?st)(r := ?t1)" for st
    using Cons.prems(3) that by (auto simp: ans elim!: list.rel_mono_strong)
  have sel: "selected_refs sel ((st_topics ?st)(r := ?t1)) rs = selected_refs sel (st_topics ?st) rs"
    by (auto simp: selected_refs_def intro!: arg_cong [where f = concat] map_cong)
  show ?case
  proof (cases "sel \<noteq> [] \<and> ts_TopicName t \<noteq> sel")
    case True
    have eq: "stats_topic addr host sel r s = ?s1" using True by (simp add: stats_topic_def Let_def name)
    have tr: "topic_reports sel ans = topic_reports sel ans'" using True by (simp add: topic_reports_def ans)
    have "agg reps ?s1" using Cons.prems(1) by (rule agg_extend) simp_all
    moreover have "pending ?s1 (selected_refs sel (st_topics (sa_store ?s1)) rs) (topic_reports sel ans')"
      using Cons.prems(2) True by (simp add: pending_def sel) (simp add: selected_refs_def topic_reports_def ans name)
    ultimately show ?thesis unfolding tr fold_simps eq by (rule Cons.IH) (rule rest, simp)
  next
    case False
    let ?s2 = "?s1\<lparr>sa_topics := sa_topics s @ [r]\<rparr>"
    let ?s3 = "fold (stats_channel addr host sel (ts_TopicName t)) (ts_Channels ?t) ?s2"
    have eq: "stats_topic addr host sel r s = ?s3" using False by (auto simp: stats_topic_def Let_def name)
    have tr: "topic_reports sel ans = map (Pair (ts_TopicName t)) (map (\<lambda>k. k\<lparr>ks_NodeStats := []\<rparr>) ks) @ topic_reports sel ans'"
      using False by (auto simp: topic_reports_def ans comp_def)
    have refs: "selected_refs sel (st_topics ?st) (r # rs) = map (Pair (ts_TopicName t)) (ts_Channels ?t) @ selected_refs sel (st_topics ?st) rs"
      using False by (auto simp: selected_refs_def name)
    have "agg reps ?s2" using Cons.prems(1) by (rule agg_extend) simp_all
    moreover have "pending ?s2 (map (Pair (ts_TopicName t)) (ts_Channels ?t) @ selected_refs sel (st_topics ?st) rs)
        (map (Pair (ts_TopicName t)) (map (\<lambda>k. k\<lparr>ks_NodeStats := []\<rparr>) ks) @ topic_reports sel ans')"
      using Cons.prems(2) unfolding refs tr by (rule pending_cong) simp_all
    ultimately have 3: "agg (reps @ map (\<lambda>k. (stats_key sel (ts_TopicName t) (ks_ChannelName k), reported addr host (ts_TopicName t) k))
          (map (\<lambda>k. k\<lparr>ks_NodeStats := []\<rparr>) ks)) ?s3"
      "pending ?s3 (selected_refs sel (st_topics ?st) rs) (topic_reports sel ans')" "st_topics (sa_store ?s3) = st_topics (sa_store ?s2)"
      using stats_channels_step [of reps ?s2 "ts_TopicName t" "ts_Channels ?t" _ "map (\<lambda>k. k\<lparr>ks_NodeStats := []\<rparr>) ks" _ sel addr host] name(2)
      by simp_all
    have "pending ?s3 (selected_refs sel (st_topics (sa_store ?s3)) rs) (topic_reports sel ans')"
      using 3(2) sel by (simp only: 3(3)) simp
    from Cons.IH [OF 3(1) this rest] 3(3) show ?thesis unfolding tr fold_simps eq by (simp add: comp_def)
  qed
qed (simp add: topic_reports_def)

section \<open>Decoding\<close>

lemma alloc_channels_spec:
  assumes "alloc_channels ks st = (rs, st')"
  shows "rs = [st_nextChannel st..<st_nextChannel st + length ks] \<and> st_nextChannel st' = st_nextChannel st + length ks \<and>
    map (st_channels st') rs = ks \<and> st_topics st' = st_topics st \<and> st_nextTopic st' = st_nextTopic st \<and>
    (\<forall>r < st_nextChannel st. st_channels st' r = st_channels st r)"
  using assms
proof (induction ks arbitrary: st rs)
  case (Cons k ks)
  let ?n = "st_nextChannel st"
  obtain rs1 where 1: "alloc_channels ks (set_channel_stats ?n k (st\<lparr>st_nextChannel := ?n + 1\<rparr>)) = (rs1, st')" "rs = ?n # rs1"
    using Cons.prems by (auto simp: alloc_channel_def Let_def split: prod.splits)
  moreover have "[?n..<?n + length (k # ks)] = ?n # [?n + 1..<?n + 1 + length ks]" by (simp add: upt_conv_Cons del: upt_Suc)
  ultimately show ?case using Cons.IH [OF 1(1)] by (auto simp: set_channel_stats_def simp del: upt_Suc)
qed simp

text \<open>An answer is decoded into new objects, each reachable once.\<close>

lemma alloc_answer_spec:
  assumes "alloc_answer ans st = (rs, st')"
  shows "st_nextChannel st \<le> st_nextChannel st' \<and> st_nextTopic st \<le> st_nextTopic st' \<and>
    (\<forall>r < st_nextChannel st. st_channels st' r = st_channels st r) \<and> (\<forall>r < st_nextTopic st. st_topics st' r = st_topics st r) \<and>
    list_all2 (\<lambda>r (t, ks). st_nextTopic st \<le> r \<and> ts_TopicName (st_topics st' r) = ts_TopicName t \<and>
      map (st_channels st') (ts_Channels (st_topics st' r)) = map (\<lambda>k. k\<lparr>ks_NodeStats := []\<rparr>) ks) rs ans \<and>
    distinct (concat (map (\<lambda>r. ts_Channels (st_topics st' r)) rs)) \<and>
    (\<forall>r \<in> set rs. \<forall>c \<in> set (ts_Channels (st_topics st' r)). st_nextChannel st \<le> c \<and> c < st_nextChannel st')"
  using assms
proof (induction ans arbitrary: st rs)
  case (Cons a ans)
  obtain t ks where a: "a = (t, ks)" by fastforce
  let ?ks = "map (\<lambda>k. k\<lparr>ks_NodeStats := []\<rparr>) ks" and ?n = "st_nextChannel st"
  obtain crs st1 where 1: "alloc_channels ?ks st = (crs, st1)" by fastforce
  note c = alloc_channels_spec [OF 1]
  define st2 where "st2 = set_topic_stats (st_nextTopic st1) (t\<lparr>ts_Channels := crs, ts_NodeStats := []\<rparr>) (st1\<lparr>st_nextTopic := st_nextTopic st1 + 1\<rparr>)"
  obtain rs2 where 2: "alloc_answer ans st2 = (rs2, st')" "rs = st_nextTopic st # rs2"
    using Cons.prems 1 c by (auto simp: a alloc_topic_def Let_def st2_def split: prod.splits)
  have s2: "st_nextChannel st2 = ?n + length ks" "st_nextTopic st2 = st_nextTopic st + 1" "st_channels st2 = st_channels st1"
    "st_topics st2 = (st_topics st)(st_nextTopic st := t\<lparr>ts_Channels := crs, ts_NodeStats := []\<rparr>)"
    using c by (simp_all add: st2_def) (simp_all add: set_topic_stats_def)
  note ih = Cons.IH [OF 2(1)]
  have t': "st_topics st' (st_nextTopic st) = t\<lparr>ts_Channels := crs, ts_NodeStats := []\<rparr>" using ih s2 by simp
  have crs: "crs = [?n..<?n + length ks]" using c by simp
  have "map (st_channels st') crs = map (st_channels st1) crs"
    using ih s2 crs by (auto intro!: map_cong)
  then have chs: "map (st_channels st') crs = ?ks" using c by metis
  have above: "?n + length ks \<le> x" if "x \<in> set (concat (map (\<lambda>r. ts_Channels (st_topics st' r)) rs2))" for x
    using that ih s2 by auto
  have "distinct (crs @ concat (map (\<lambda>r. ts_Channels (st_topics st' r)) rs2))"
    using ih crs above by (fastforce simp: distinct_append)
  moreover have "list_all2 (\<lambda>r (t, ks). st_nextTopic st \<le> r \<and> ts_TopicName (st_topics st' r) = ts_TopicName t \<and>
      map (st_channels st') (ts_Channels (st_topics st' r)) = map (\<lambda>k. k\<lparr>ks_NodeStats := []\<rparr>) ks) rs2 ans"
    using ih s2 by (auto elim!: list.rel_mono_strong)
  moreover have "\<forall>r < ?n. st_channels st' r = st_channels st r" "\<forall>r < st_nextTopic st. st_topics st' r = st_topics st r"
    using ih s2 c by auto
  moreover have "\<forall>r \<in> set rs2. \<forall>c \<in> set (ts_Channels (st_topics st' r)). ?n \<le> c \<and> c < st_nextChannel st'"
    using ih s2 by fastforce
  ultimately show ?case using ih s2 t' chs crs by (auto simp: a 2(2))
qed simp

lemma selected_refs_snd:
  "distinct (concat (map (\<lambda>r. ts_Channels (T r)) rs)) \<Longrightarrow> distinct (map snd (selected_refs sel T rs)) \<and>
     snd ` set (selected_refs sel T rs) \<subseteq> set (concat (map (\<lambda>r. ts_Channels (T r)) rs))"
  by (induction rs) (auto simp: selected_refs_def comp_def split: if_splits)

lemma selected_refs_match:
  assumes "list_all2 (\<lambda>r (t, ks). ts_TopicName (T r) = ts_TopicName t \<and> map H (ts_Channels (T r)) = map (\<lambda>k. k\<lparr>ks_NodeStats := []\<rparr>) ks) rs ans"
  shows "list_all2 (\<lambda>(t, r) (t', k). t = t' \<and> H r = k) (selected_refs sel T rs) (topic_reports sel ans)"
  using assms
proof (induction rule: list_all2_induct)
  case (Cons r rs a ans)
  obtain t ks where a: "a = (t, ks)" by fastforce
  have "list_all2 (\<lambda>(t, r) (t', k). t = t' \<and> H r = k) (map (Pair n) cs) (map (\<lambda>k. (n, k\<lparr>ks_NodeStats := []\<rparr>)) ks)"
    if "map H cs = map (\<lambda>k. k\<lparr>ks_NodeStats := []\<rparr>) ks" for n cs ks
    using that by (auto simp: list_all2_conv_all_nth list_eq_iff_nth_eq)
  then show ?case using Cons by (auto simp: a selected_refs_def topic_reports_def intro!: list_all2_appendI)
qed (simp add: selected_refs_def topic_reports_def)

lemma stats_answer_step:
  assumes "agg reps s"
  shows "agg (reps @ stats_reports sel (p, ans)) (stats_answer sel p ans s)"
proof -
  obtain rs st where al: "alloc_answer ans (sa_store s) = (rs, st)" by fastforce
  note spec = alloc_answer_spec [OF al]
  let ?s1 = "s\<lparr>sa_store := st\<rparr>" and ?refs = "selected_refs sel (st_topics st) rs"
  have lim: "x < st_nextChannel (sa_store s)" if "x \<in> ran (map_of (sa_channels s))" for x
    using that assms unfolding agg_def ran_def by blast
  have a1: "agg reps ?s1"
    by (rule agg_extend [OF assms]) (use spec in simp_all)
  have sub: "distinct (map snd ?refs)" "snd ` set ?refs \<subseteq> set (concat (map (\<lambda>r. ts_Channels (st_topics st r)) rs))"
    using selected_refs_snd [of "st_topics st" rs sel] spec by auto
  have "list_all2 (\<lambda>(t, r) (t', k). t = t' \<and> st_channels st r = k) ?refs (topic_reports sel ans)"
    using spec by (intro selected_refs_match) (auto elim!: list.rel_mono_strong)
  then have "pending ?s1 ?refs (topic_reports sel ans)"
    using sub spec lim unfolding pending_def
    by (auto elim!: list.rel_mono_strong) (fastforce dest!: subsetD simp: image_iff)+
  then have "agg (reps @ map (\<lambda>(t, k). (stats_key sel t (ks_ChannelName k), reported (HTTPAddress p) (pd_Hostname p) t k)) (topic_reports sel ans))
      (fold (stats_topic (HTTPAddress p) (pd_Hostname p) sel) rs ?s1)"
    using a1 spec by (intro stats_topics_step) (auto elim!: list.rel_mono_strong dest: map_eq_imp_length_eq)
  then show ?thesis
    by (simp add: stats_answer_def al stats_reports_def keyed_def [abs_def] case_prod_unfold)
qed

lemma stats_answers:
  "agg reps s \<Longrightarrow> agg (reps @ concat (map (stats_reports sel) oks)) (fold (\<lambda>(p, ans). stats_answer sel p ans) oks s)"
proof (induction oks arbitrary: reps s)
  case (Cons ok oks)
  obtain p ans where ok: "ok = (p, ans)" by fastforce
  from Cons.IH [OF stats_answer_step [OF Cons.prems, of sel p ans]] show ?case by (simp add: ok)
qed simp

section \<open>The sums do not depend on the order of arrival\<close>

lemma totals_perm:
  assumes "mset ks = mset ks'"
  shows "totals a ks = totals a ks'"
proof -
  have "sum_list (map f ks) = sum_list (map f ks')" for f :: "ChannelStats \<Rightarrow> i64"
    using assms by (metis mset_map sum_mset_sum_list)
  moreover have "mset (concat (map ks_Clients ks)) = mset (concat (map ks_Clients ks'))"
    using assms by (metis mset_concat mset_map sum_mset_sum_list)
  ultimately show ?thesis using mset_eq_length [OF assms] mset_eq_setD [OF assms] by (simp add: totals_def)
qed

lemma of_key_perm:
  assumes "mset xs = mset ys"
  shows "mset (of_key key (concat (map f xs))) = mset (of_key key (concat (map f ys)))"
proof -
  have "mset (concat (map f xs)) = mset (concat (map f ys))" using assms by (metis mset_concat mset_map sum_mset_sum_list)
  then show ?thesis by (simp add: of_key_def)
qed

definition channel_query ::
    "('w, 'v) ClusterInfo \<Rightarrow> string \<Rightarrow> string \<Rightarrow> bool \<Rightarrow> 'w \<Rightarrow> 'v ClusterProducer \<Rightarrow> go_error + (TopicStats \<times> ChannelStats list) list" where
  "channel_query c sel chan clients w p =
     GETV1 (ci_client c) (j_stats c) (stats_endpoint sel chan clients (HTTPAddress p)) w"

text \<open>C21. The statistics of channels over all nodes: there is an aggregate for exactly the channels that a node that answered reports, and it
  holds the sums of what is reported (modulo \<open>2\<^sup>6\<^sup>4\<close>, as the counters wrap around) in every counter, one entry for each
  reporting node, the clients of all nodes, and is paused if the channel is paused on one of them. None of this
  depends on the order in which the answers arrive.\<close>

theorem stats_aggregate_sums:
  fixes c :: "('w, 'v) ClusterInfo"
  assumes "arrives c" "GetNSQDStats c producers sel chan clients w st = ((ts, chans), e, st')" "\<forall>m. e \<noteq> Some (Failed m)"
    "reps = concat (map (stats_reports sel) (successes (channel_query c sel chan clients w) producers))"
  shows "dom (map_of chans) = fst ` set reps \<and>
    (\<forall>key r. map_of chans key = Some r \<longrightarrow> totals (st_channels st' r) (of_key key reps))"
proof -
  let ?q = "channel_query c sel chan clients w"
  obtain errs oks where g: "gather c ?q producers = (errs, oks)" by fastforce
  define s where "s = fold (\<lambda>(p, ans). stats_answer sel p ans) oks \<lparr>sa_topics = [], sa_channels = [], sa_store = st\<rparr>"
  let ?reps = "concat (map (stats_reports sel) oks)"
  have "chans = sa_channels s" "st' = sa_store s"
    using assms(2,3) g
    by (auto simp: GetNSQDStats_def channel_query_def [abs_def] s_def [symmetric] query_result_gather [OF assms(1) g, unfolded channel_query_def [abs_def]]
        Let_def split: if_splits)
  moreover have "agg [] \<lparr>sa_topics = [], sa_channels = [], sa_store = st\<rparr>" by (simp add: agg_def)
  then have "agg ?reps s" unfolding s_def using stats_answers [of "[]" _ sel oks] by simp
  moreover have p: "mset oks = mset (successes ?q producers)" by (rule gather_mset(2) [OF assms(1) g])
  moreover have "fst ` set ?reps = fst ` set reps" using mset_eq_setD [OF p] by (simp add: assms(4))
  moreover have "totals a (of_key key ?reps) = totals a (of_key key reps)" for a key
    unfolding assms(4) by (rule totals_perm [OF of_key_perm [OF p]])
  ultimately show ?thesis by (simp add: agg_def)
qed

lemma GetNSQDStats_ok:
  assumes "arrives c" "\<forall>p \<in> set producers. \<not> isl (channel_query c sel chan clients w p)" "producers \<noteq> []"
    "GetNSQDStats c producers sel chan clients w st = (v, e, st')"
  shows "e = None"
proof -
  obtain errs oks where g: "gather c (channel_query c sel chan clients w) producers = (errs, oks)" by fastforce
  have "\<not> (\<forall>p \<in> set producers. isl (channel_query c sel chan clients w p))" using assms(2,3) by (meson hd_in_set)
  then show ?thesis
    using assms(2,4) g
    by (auto simp: GetNSQDStats_def query_result_gather [OF assms(1) g, unfolded channel_query_def [abs_def]] channel_query_def [abs_def] Let_def
        split: if_splits)
qed

definition sample_nodes :: "nat ClusterProducer list" where
  "sample_nodes = map (\<lambda>host. (producer_of (ci_semver sample_ci)
     \<lparr>ir_Version = ''1.2.0'', ir_BroadcastAddress = host, ir_Hostname = host, ir_HTTPPort = 1, ir_TCPPort = 2\<rparr> [])) [''a'', ''b'']"

definition empty_store :: stats_store where
  "empty_store = \<lparr>st_channels = (\<lambda>_. zero_channel_stats), st_nextChannel = 0, st_topics = (\<lambda>_. zero_topic_stats), st_nextTopic = 0\<rparr>"

theorem stats_aggregate_sums_witness:
  "\<exists>ts chans st r. GetNSQDStats sample_ci sample_nodes [] [] False () empty_store = ((ts, chans), None, st) \<and>
     map_of chans ''t:ch'' = Some r \<and> ks_Depth (st_channels st r) = 6 \<and> ks_MessageCount (st_channels st r) = 20 \<and>
     length (ks_NodeStats (st_channels st r)) = 2"
proof -
  obtain ts chans e st where G: "GetNSQDStats sample_ci sample_nodes [] [] False () empty_store = ((ts, chans), e, st)"
    by (metis prod.exhaust)
  define reps where "reps = concat (map (stats_reports []) (successes (channel_query sample_ci [] [] False ()) sample_nodes))"
  have "list_all (\<lambda>p. \<not> isl (channel_query sample_ci [] [] False () p)) sample_nodes" "sample_nodes \<noteq> []" by code_simp+
  then have e: "e = None" using GetNSQDStats_ok [OF sample_ci_arrives _ _ G] by (simp add: list_all_iff)
  have reps: "map fst reps = [''t:ch'', ''t:ch'']" "map (ks_Depth \<circ> snd) reps = [3, 3]" "map (ks_MessageCount \<circ> snd) reps = [10, 10]"
    unfolding reps_def by code_simp+
  then obtain k1 k2 where k: "reps = [(''t:ch'', k1), (''t:ch'', k2)]" "ks_Depth k1 = 3" "ks_Depth k2 = 3" "ks_MessageCount k1 = 10"
    "ks_MessageCount k2 = 10" by (auto simp: map_eq_Cons_conv)
  have st: "dom (map_of chans) = fst ` set reps" "\<And>key r. map_of chans key = Some r \<Longrightarrow> totals (st_channels st r) (of_key key reps)"
    using stats_aggregate_sums [OF sample_ci_arrives G _ reps_def] e by auto
  have "''t:ch'' \<in> dom (map_of chans)" unfolding st(1) k(1) by simp
  then obtain r where r: "map_of chans ''t:ch'' = Some r" by blast
  from st(2) [OF r] have "totals (st_channels st r) [k1, k2]" by (simp add: k(1) of_key_def)
  then have "ks_Depth (st_channels st r) = 6" "ks_MessageCount (st_channels st r) = 20" "length (ks_NodeStats (st_channels st r)) = 2"
    by (simp_all add: totals_def counters_def k)
  then show ?thesis using G e r by blast
qed

end
