(* ===== verification/Nsq_AdminProps.thy ===== *)
theory Nsq_AdminProps
  imports Nsq_StatsProps
begin

text \<open>
  What nsqadmin may change and what it does change: requests of users who are not administrators leave the cluster alone, with one
  exception; a deletion reaches every nsqlookupd and every producer. Further, the retry over TLS, and what a rejected
  change of the configuration leaves behind.
\<close>

section \<open>Requests that leave the cluster alone\<close>

definition quiet :: "'w NSQAdmin \<Rightarrow> ('w, 'v) admin_reply \<Rightarrow> bool" where
  "quiet s r \<longleftrightarrow> (\<forall>d s'. r = Some (d, s') \<longrightarrow> ad_cluster s' = ad_cluster s \<and> ad_notifications s' = ad_notifications s)"

text \<open>The state from which a handler continues differs only in the store of statistics.\<close>

lemma quiet_done: "ad_cluster s' = ad_cluster s \<Longrightarrow> ad_notifications s' = ad_notifications s \<Longrightarrow> quiet s (Some (d, s'))"
  by (simp add: quiet_def)

lemma quiet_bind: "(\<And>a. quiet s (f a)) \<Longrightarrow> quiet s (Option.bind r f)"
  by (cases r) (simp_all add: quiet_def)

lemma quiet_upstream:
  assumes "ad_cluster s' = ad_cluster s" "ad_notifications s' = ad_notifications s" "\<And>ms. quiet s (k ms)"
  shows "quiet s (admin_upstream er ms s' k)"
  using assms by (auto simp: admin_upstream_def quiet_done split: sum.splits)

lemmas quiet_intros = quiet_bind quiet_upstream quiet_done

lemma quiet_topics: "quiet s (topicsHandler x req s)"
  by (auto simp: topicsHandler_def Let_def split: sum.splits prod.splits intro!: quiet_intros)

lemma quiet_topic: "quiet s (topicHandler x t s)"
  by (auto simp: topicHandler_def Let_def split: prod.splits intro!: quiet_intros)

lemma quiet_channel: "quiet s (channelHandler x t ch s)"
  by (auto simp: channelHandler_def Let_def split: prod.splits intro!: quiet_intros)

lemma quiet_nodes: "quiet s (nodesHandler x s)"
  by (auto simp: nodesHandler_def split: prod.splits intro!: quiet_intros)

lemma quiet_node: "quiet s (nodeHandler x n s)"
  by (auto simp: nodeHandler_def Let_def split: prod.splits option.splits intro!: quiet_intros)

lemma quiet_counter: "quiet s (counterHandler x s)"
  by (auto simp: counterHandler_def Let_def split: prod.splits intro!: quiet_intros)

lemma put_option_quiet:
  "admin_put_option x opt b s = (e, s') \<Longrightarrow> ad_cluster s' = ad_cluster s \<and> ad_notifications s' = ad_notifications s"
  by (auto simp: admin_put_option_def split: if_splits prod.splits option.splits sum.splits)

lemma quiet_get_option: "ad_cluster s' = ad_cluster s \<Longrightarrow> ad_notifications s' = ad_notifications s \<Longrightarrow> quiet s (admin_get_option opt s')"
  by (auto simp: admin_get_option_def quiet_done split: option.splits)

lemma quiet_config: "quiet s (admin_doConfig x opt req s)"
  by (auto simp: admin_doConfig_def Let_def split: option.splits sum.splits prod.splits
      intro!: quiet_intros quiet_get_option dest: put_option_quiet)

lemmas quiet_queries = quiet_topics quiet_topic quiet_channel quiet_nodes quiet_node quiet_counter quiet_config

text \<open>C22. If administrators are configured, a request whose header does not name one of them changes nothing in the cluster and
  notifies nobody, whatever its route and its body, unless the route is the one that tombstones a node.\<close>

theorem unauthorized_admin_changes_nothing:
  assumes "\<not> isAuthorizedAdminRequest s req" "\<forall>node. route \<noteq> RTombstone node" "admin_serve x route req s = Some (d, s')"
  shows "ad_cluster s' = ad_cluster s \<and> ad_notifications s' = ad_notifications s"
proof -
  have "quiet s (admin_serve x route req s)"
    using assms(1,2) quiet_queries
    by (cases route)
      (simp_all add: admin_pingHandler_def createTopicChannelHandler_def topicActionHandler_def channelActionHandler_def
        topicChannelAction_def deleteTopicHandler_def deleteChannelHandler_def quiet_done)
  then show ?thesis using assms(3) by (simp add: quiet_def)
qed

section \<open>Requests that are made\<close>

text \<open>A client that records its POST requests, over an arbitrary one.\<close>

definition logged :: "'w http_client \<Rightarrow> ('w \<times> endpoint list) http_client" where
  "logged hc =
     \<lparr>hc_get = (\<lambda>e wl. hc_get hc e (fst wl)),
      hc_post = (\<lambda>e wl. case hc_post hc e (fst wl) of (a, w) \<Rightarrow> (a, (w, snd wl @ [e]))),
      hc_https_port = hc_https_port hc\<rparr>"

definition plain_requests :: "endpoint list \<Rightarrow> endpoint list" where
  "plain_requests l = filter (\<lambda>e. ep_scheme e = ''http'') l"

lemma POSTV1_log:
  assumes "POSTV1 (logged hc) e wl = (r, wl')"
  shows "\<exists>retry. snd wl' = snd wl @ e # retry \<and> plain_requests retry = []"
  using assms
proof (induction "if ep_scheme e = ''https'' then 0 else 1 :: nat" arbitrary: e wl rule: less_induct)
  case less
  obtain a w where p: "hc_post hc e (fst wl) = (a, w)" by fastforce
  have step: "hc_post (logged hc) e wl = (a, (w, snd wl @ [e]))" by (simp add: logged_def p)
  note this_step = less.prems [unfolded POSTV1.simps [of "logged hc" e wl] step fst_conv snd_conv]
  show ?case
  proof (cases "judge (logged hc) e a")
    case (Retry e')
    note sch = judge_retry [OF Retry]
    have "POSTV1 (logged hc) e' (w, snd wl @ [e]) = (r, wl')"
      using this_step by (simp add: Retry)
    then have "\<exists>retry. snd wl' = snd (w, snd wl @ [e]) @ e' # retry \<and> plain_requests retry = []" using sch by (intro less.hyps) auto
    then show ?thesis using sch by (auto simp: plain_requests_def)
  qed (use this_step in \<open>auto simp: plain_requests_def\<close>)
qed

lemma posts_log:
  assumes "ci_client c = logged hc" "posts c uri qs addrs wl = (errs, wl')"
  shows "\<exists>new. snd wl' = snd wl @ new \<and>
    plain_requests new = map (\<lambda>a. http a (''/'' @ uri @ ''?'' @ qs)) addrs"
  using assms(2)
proof (induction addrs arbitrary: wl errs)
  case (Cons a addrs)
  let ?e = "http a (''/'' @ uri @ ''?'' @ qs)"
  obtain r wl1 where 1: "POSTV1 (logged hc) ?e wl = (r, wl1)" by (rule prod.exhaust)
  obtain errs1 where 2: "posts c uri qs addrs wl1 = (errs1, wl')" using Cons.prems 1 by (auto simp: assms(1) Let_def split: prod.splits)
  from POSTV1_log [OF 1] Cons.IH [OF 2] show ?case by (auto simp: plain_requests_def)
qed (simp add: plain_requests_def)

lemma partial_posts: "partial_errs (errs_result l) errs = Inr (errs @ l)"
  by (simp add: partial_errs_def errs_result_def)

text \<open>\<open>DeleteTopic\<close> reaches everybody: unless nothing at all is known about the producers, a deletion is requested of every nsqlookupd
  and then of every producer found, each once and in this order, no matter which of them fail; requests that are repeated
  over TLS come on top. If nobody answered the query, nothing is requested.\<close>

theorem delete_topic_reaches_everyone:
  assumes "ci_client c = logged hc" "GetTopicProducers c topic ls ns (w, []) = Some (ps, e0)"
    "DeleteTopic c topic ls ns (w, []) = Some (e, w', reqs)"
  shows "case e0 of
      Some (Failed m) \<Rightarrow> e = Some (Failed m) \<and> reqs = [] \<and> w' = w
    | _ \<Rightarrow> plain_requests reqs = map (\<lambda>a. http a (''/topic/delete?topic='' @ QueryEscape topic)) (ls @ map HTTPAddress ps)"
proof (cases "partial_errs e0 []")
  case (Inl er)
  then show ?thesis using assms(2,3)
    by (auto simp: DeleteTopic_def delete_everywhere_def and_then_def partial_errs_def split: option.splits ci_err.splits)
next
  case (Inr errs)
  obtain l1 wl1 where 1: "posts c ''topic/delete'' (topic_qs topic) ls (w, []) = (l1, wl1)" by (rule prod.exhaust)
  obtain l2 wl2 where 2: "posts c ''topic/delete'' (topic_qs topic) (map HTTPAddress ps) wl1 = (l2, wl2)" by (rule prod.exhaust)
  have "wl2 = (w', reqs)" using assms(2,3) Inr 1 2
    by (simp add: DeleteTopic_def delete_everywhere_def and_then_def nsqlookupdPOST_def producersPOST_def partial_posts)
  then have "plain_requests reqs = map (\<lambda>a. http a (''/topic/delete?topic='' @ QueryEscape topic)) (ls @ map HTTPAddress ps)"
    using posts_log [OF assms(1) 1] posts_log [OF assms(1) 2] by (auto simp: plain_requests_def topic_qs_def)
  then show ?thesis using Inr by (auto simp: partial_errs_def split: option.splits ci_err.splits)
qed

text \<open>The example cluster, with its POST requests recorded.\<close>

definition logged_ci :: "(unit \<times> endpoint list, nat) ClusterInfo" where
  "logged_ci = \<lparr>ci_client = logged sample_client, ci_semver = ci_semver sample_ci, ci_order = ci_order sample_ci, j_version = j_version sample_ci,
     j_topics = j_topics sample_ci, j_channels = j_channels sample_ci, j_producers = j_producers sample_ci, j_info = j_info sample_ci,
     j_topicNames = j_topicNames sample_ci, j_stats = j_stats sample_ci\<rparr>"

theorem delete_topic_reaches_everyone_witness:
  "\<exists>e w reqs. DeleteTopic logged_ci ''t'' [''a:1'', ''c:1''] [] ((), []) = Some (e, w, reqs) \<and>
     plain_requests reqs = map (\<lambda>a. http a ''/topic/delete?topic=t'') [''a:1'', ''c:1'', ''n:8'']"
proof -
  have "map_option (\<lambda>(ps, e). (map HTTPAddress ps, e)) (GetTopicProducers logged_ci ''t'' [''a:1'', ''c:1''] [] ((), [])) =
      Some ([''n:8''], Some (ErrList [''refused'']))" by code_simp
  then obtain ps e0 where g: "GetTopicProducers logged_ci ''t'' [''a:1'', ''c:1''] [] ((), []) = Some (ps, e0)"
    "map HTTPAddress ps = [''n:8'']" "e0 = Some (ErrList [''refused''])" unfolding map_option_eq_Some by fastforce
  have "DeleteTopic logged_ci ''t'' [''a:1'', ''c:1''] [] ((), []) \<noteq> None" by code_simp
  then obtain e w reqs where d: "DeleteTopic logged_ci ''t'' [''a:1'', ''c:1''] [] ((), []) = Some (e, w, reqs)"
    by (metis option.exhaust prod.exhaust)
  have "QueryEscape ''t'' = ''t''" by code_simp
  moreover have "ci_client logged_ci = logged sample_client" by (simp add: logged_ci_def)
  ultimately show ?thesis using delete_topic_reaches_everyone [OF _ g(1) d] d g(2,3) by auto
qed

section \<open>Tombstones\<close>

definition sample_admin :: "(unit \<times> endpoint list) NSQAdmin" where
  "sample_admin = \<lparr>ad_opts = NewAdminOptions\<lparr>ao_NSQLookupdHTTPAddresses := [''a:1''], ao_AdminUsers := [''root'']\<rparr>, ad_notifications = [],
     ad_cluster = ((), []), ad_store = empty_store\<rparr>"

definition sample_adctx :: "(unit \<times> endpoint list, nat) adctx" where
  "sample_adctx = \<lparr>ax_ci = logged_ci, ax_base64 = (\<lambda>s. Inl ''bad''), ax_hostname = ''h'', ax_now = 0, ax_topic_body = (\<lambda>b. Inr ''t''),
     ax_create_body = (\<lambda>b. Inr (''t'', [])), ax_action_body = (\<lambda>b. Inr ''pause''),
     ax_addresses = (\<lambda>b old. (Some ''cannot unmarshal number'', [''evil:1'', []])), ax_cidr = (\<lambda>c. Some (\<lambda>ip. True)), ax_is_ip = (\<lambda>ip. True)\<rparr>"

definition sample_admin_req :: admin_req where
  "sample_admin_req = \<lparr>q_Method = ''PUT'', q_Path = ''/'', q_Query = Inr [], q_Body = Inr [1], q_ContentLength = 1, q_Header = (\<lambda>h. ''guest''),
     q_Host = ''h'', q_RawQuery = [], q_TLS = False, q_RemoteAddr = ''127.0.0.1:9''\<rparr>"

lemma sample_admin_guest: "\<not> isAuthorizedAdminRequest sample_admin sample_admin_req"
  by (simp add: isAuthorizedAdminRequest_def sample_admin_def sample_admin_req_def)

theorem unauthorized_admin_changes_nothing_witness:
  "\<exists>d s'. admin_serve sample_adctx (RDeleteTopic ''t'') sample_admin_req sample_admin = Some (d, s') \<and> snd (ad_cluster s') = []"
proof -
  obtain d s' where r: "admin_serve sample_adctx (RDeleteTopic ''t'') sample_admin_req sample_admin = Some (d, s')"
    using sample_admin_guest by (simp add: deleteTopicHandler_def)
  then have "ad_cluster s' = ad_cluster sample_admin"
    using unauthorized_admin_changes_nothing [OF sample_admin_guest _ r] by simp
  then show ?thesis using r by (auto simp: sample_admin_def)
qed

text \<open>The route that tombstones a node does not ask who sends the request: a request of a user who is not an administrator is
  served, the node is tombstoned at the nsqlookupd and the topic is deleted on the node.\<close>

theorem tombstone_without_authorization:
  "\<not> isAuthorizedAdminRequest sample_admin sample_admin_req \<and>
   map_option (\<lambda>(d, s'). (case d of Inl _ \<Rightarrow> False | Inr _ \<Rightarrow> True, snd (ad_cluster s')))
     (admin_serve sample_adctx (RTombstone ''n:8'') sample_admin_req sample_admin) =
   Some (True, [http ''a:1'' ''/topic/tombstone?topic=t&node=n%3A8'', http ''n:8'' ''/topic/delete?topic=t''])"
  by (rule conjI [OF sample_admin_guest]) code_simp

section \<open>Configuration\<close>

text \<open>A PUT of nsqlookupd addresses that is rejected because an element has the wrong type is not without effect: the
  elements before it have been decoded into the array of the options in effect, and the addresses nsqadmin uses are overwritten.\<close>

theorem rejected_config_overwrites_addresses:
  assumes "config_allowed x req s = Some None" "q_Method req = ''PUT''" "q_Body req = Inr b" "b \<noteq> []" "length b \<le> 1024 * 1024"
    "ax_addresses x b (lookupds s) = (Some er, addrs)"
  shows "\<exists>s'. admin_doConfig x ''nsqlookupd_http_addresses'' req s = Some (Inl (Err 400 ''INVALID_VALUE''), s') \<and>
    lookupds s' = take (length (lookupds s)) (addrs @ drop (length addrs) (lookupds s))"
  using assms by (simp add: admin_doConfig_def admin_put_option_def overwrite_def Let_def)

theorem rejected_config_overwrites_addresses_witness:
  "\<exists>s'. admin_doConfig sample_adctx ''nsqlookupd_http_addresses'' sample_admin_req sample_admin = Some (Inl (Err 400 ''INVALID_VALUE''), s') \<and>
     lookupds s' = [''evil:1'']"
proof -
  have "config_allowed sample_adctx sample_admin_req sample_admin = Some None" by code_simp
  then show ?thesis
    using rejected_config_overwrites_addresses
      [of sample_adctx sample_admin_req sample_admin "[1]" "''cannot unmarshal number''" "[''evil:1'', []]"]
    by (simp add: sample_admin_req_def sample_adctx_def sample_admin_def)
qed

section \<open>Requests over TLS\<close>

lemma last_index_none: "c \<notin> set s \<Longrightarrow> last_index c s = None"
  by (induction s) auto

lemma last_index_append: "c \<notin> set t \<Longrightarrow> last_index c (s @ c # t) = Some (length s)"
  by (induction s) (auto simp: last_index_none)

lemma first_index_append: "c \<notin> set s \<Longrightarrow> first_index c (s @ c # t) = Some (length s)"
  by (induction s) auto

text \<open>\<open>SplitHostPort\<close> inverts \<open>JoinHostPort\<close>, for names, IPv4 and IPv6 addresses alike.\<close>

lemma Split_Join:
  assumes "set host \<inter> {CHR ''['', CHR '']''} = {}" "set port \<inter> {CHR ''['', CHR '']'', CHR '':''} = {}"
  shows "SplitHostPort (JoinHostPort host port) = Inr (host, port)"
proof (cases "CHR '':'' \<in> set host")
  case True
  let ?hp = "CHR ''['' # host @ CHR '']'' # CHR '':'' # port"
  have hp: "JoinHostPort host port = ?hp" using True by (simp add: JoinHostPort_def)
  have "last_index (CHR '':'') ?hp = Some (length host + 2)"
    using last_index_append [of "CHR '':''" port "CHR ''['' # host @ [CHR '']'']"] assms(2) by simp
  moreover have "first_index (CHR '']'') ?hp = Some (length host + 1)"
    using first_index_append [of "CHR '']''" "CHR ''['' # host" "CHR '':'' # port"] assms(1) by simp
  ultimately show ?thesis using assms unfolding hp by (auto simp: SplitHostPort_def split_rest_def)
next
  case False
  have hp: "JoinHostPort host port = host @ CHR '':'' # port" using False by (simp add: JoinHostPort_def)
  have "last_index (CHR '':'') (host @ CHR '':'' # port) = Some (length host)" using assms(2) by (intro last_index_append) auto
  moreover have "hd (host @ CHR '':'' # port) \<noteq> CHR ''[''" using assms(1) by (cases host) auto
  ultimately show ?thesis using assms False unfolding hp by (auto simp: SplitHostPort_def split_rest_def)
qed

text \<open>A daemon that demands TLS answers 403 with the port to use. The request is then made once more, over TLS, to the same host on
  that port and for the same resource, whether the host is a name, an IPv4 or an IPv6 address; its answer is final: a second 403 is an error.\<close>

theorem tls_retry_same_host:
  assumes "set host \<inter> {CHR ''['', CHR '']''} = {}" "set port \<inter> {CHR ''['', CHR '']'', CHR '':''} = {}"
    "hc_get hc (http (JoinHostPort host port) rest) w = Inr (403, body)" "hc_https_port hc body = Inr n"
  shows "GETV1 hc unmarshal (http (JoinHostPort host port) rest) w =
    (case hc_get hc \<lparr>ep_scheme = ''https'', ep_host = JoinHostPort host (decimal n), ep_rest = rest\<rparr> w of
       Inl e \<Rightarrow> Inl e
     | Inr (status, b) \<Rightarrow> if status = 200 then unmarshal b else Inl ''got response'')"
proof -
  let ?e = "http (JoinHostPort host port) rest" and ?e' = "\<lparr>ep_scheme = ''https'', ep_host = JoinHostPort host (decimal n), ep_rest = rest\<rparr>"
  have "judge hc ?e (hc_get hc ?e w) = Retry ?e'" using assms by (simp add: judge_def httpsEndpoint_def Split_Join)
  then have "get_loop hc ?e w = get_loop hc ?e' w" using get_loop.simps [of hc ?e w] by simp
  moreover have "get_loop hc ?e' w = (case hc_get hc ?e' w of Inl e \<Rightarrow> Inl e
      | Inr (status, b) \<Rightarrow> if status = 200 then Inr b else Inl ''got response'')"
    using get_loop.simps [of hc ?e' w] by (auto simp: judge_def split: sum.splits prod.splits)
  ultimately show ?thesis by (auto simp: GETV1_def split: sum.splits prod.splits)
qed

theorem tls_retry_same_host_witness:
  "GETV1 sample_client Inr (http (JoinHostPort ''b'' ''1'') ''/ping'') () = Inr (bytes_of ''/pi'')"
proof -
  have "JoinHostPort ''b'' ''1'' = ''b:1''" "JoinHostPort ''b'' (decimal 2) = ''b:2''" by code_simp+
  then show ?thesis
    using tls_retry_same_host [of "''b''" "''1''" sample_client "''/ping''" "()" "[1]" 2 Inr] by (simp add: sample_client_def)
qed

section \<open>Totals of a topic\<close>

text \<open>The totals that \<open>topicHandler\<close> builds share objects with the nodes: when two nodes report a channel of the same name, the
  statistics of the channel under the first node are overwritten with the totals (depth, node name \<open>*\<close>), while the
  second node keeps its own.\<close>

theorem topic_totals_overwrite_first_node:
  assumes "rt \<noteq> a1" "rt \<noteq> a2" "a1 \<noteq> a2" "c1 \<noteq> c2" "ts_Channels (st_topics st rt) = []"
    "ts_Channels (st_topics st a1) = [c1]" "ts_Channels (st_topics st a2) = [c2]"
    "ks_ChannelName (st_channels st c1) = ks_ChannelName (st_channels st c2)"
    "st' = fold (TopicStats_Add rt) [a1, a2] st"
  shows "ts_Channels (st_topics st' a1) = [c1] \<and> ts_Channels (st_topics st' rt) = [c1] \<and>
    ks_Node (st_channels st' c1) = ''*'' \<and> ks_Depth (st_channels st' c1) = ks_Depth (st_channels st c1) + ks_Depth (st_channels st c2) \<and>
    st_channels st' c2 = st_channels st c2"
  using assms by (simp add: TopicStats_Add_def ChannelStats_Add_def set_topic_stats_def set_channel_stats_def Let_def)

theorem topic_totals_overwrite_first_node_witness:
  "\<exists>st. ks_Depth (st_channels st 0) = 1 \<and> ks_Depth (st_channels (fold (TopicStats_Add 0) [1, 2] st) 0) = 3"
proof -
  let ?st = "empty_store\<lparr>st_channels := (\<lambda>r. zero_channel_stats\<lparr>ks_Depth := of_nat (r + 1)\<rparr>),
    st_topics := (\<lambda>r. zero_topic_stats\<lparr>ts_Channels := (if r = 0 then [] else [r - 1])\<rparr>)\<rparr>"
  show ?thesis
    using topic_totals_overwrite_first_node [of 0 1 2 0 1 ?st "fold (TopicStats_Add 0) [1, 2] ?st"]
    by (intro exI [of _ ?st]) (simp add: zero_channel_stats_def zero_topic_stats_def)
qed

end

