(* ===== verification/Nsq_Files.thy ===== *)
theory Nsq_Files
  imports Nsq_Net "HOL-Library.Sublist"
begin

text \<open>
  What the tools use of the standard library: \<open>strings.Replace\<close>, \<open>strings.TrimPrefix\<close>, \<open>path.Join\<close> and
  \<open>filepath.Split\<close>, and the files of a Unix system. A file is an inode, with its bytes and the number of them that are
  on stable storage; a directory entry is a name for an inode. Any call can fail: \<open>fs_faults\<close> says for each call, in order,
  whether it does, and for a write how many bytes are written before. The process whose operations these are is the only
  one that changes the files.
\<close>

section \<open>Strings\<close>

text \<open>\<open>strings.Replace(s, old, new, -1)\<close> with \<open>old\<close> not empty.\<close>

function strings_Replace :: "string \<Rightarrow> string \<Rightarrow> string \<Rightarrow> string" where
  "strings_Replace old new [] = []"
| "strings_Replace old new (c # s) =
     (if old \<noteq> [] \<and> take (length old) (c # s) = old
      then new @ strings_Replace old new (drop (length old) (c # s))
      else c # strings_Replace old new s)"
  by pat_completeness auto
termination
  by (relation "measure (\<lambda>(old, new, s). length s)") auto

definition TrimPrefix :: "string \<Rightarrow> string \<Rightarrow> string" where
  "TrimPrefix s p = (if take (length p) s = p then drop (length p) s else s)"

fun strings_Split :: "char \<Rightarrow> string \<Rightarrow> string list" where
  "strings_Split c [] = [[]]"
| "strings_Split c (d # s) =
     (case strings_Split c s of
        [] \<Rightarrow> []
      | p # ps \<Rightarrow> if d = c then [] # p # ps else (d # p) # ps)"

text \<open>\<open>%06d\<close> of a natural number.\<close>

definition pad6 :: "nat \<Rightarrow> string" where
  "pad6 n = replicate (6 - length (digits n)) (CHR ''0'') @ digits n"

section \<open>Paths\<close>

text \<open>\<open>path.Clean\<close>: the elements that remain, the last one first.\<close>

fun clean_elems :: "bool \<Rightarrow> string list \<Rightarrow> string list \<Rightarrow> string list" where
  "clean_elems rooted [] acc = acc"
| "clean_elems rooted (e # es) acc =
     (if e = [] \<or> e = ''.'' then clean_elems rooted es acc
      else if e = ''..'' then
        (case acc of
           [] \<Rightarrow> clean_elems rooted es (if rooted then [] else [e])
         | a # as \<Rightarrow> clean_elems rooted es (if a = ''..'' then e # acc else as))
      else clean_elems rooted es (e # acc))"

definition path_Clean :: "string \<Rightarrow> string" where
  "path_Clean p =
     (let rooted = (p \<noteq> [] \<and> hd p = CHR ''/'');
          q = (if rooted then ''/'' else []) @
              strings_Join (rev (clean_elems rooted (strings_Split (CHR ''/'') p) [])) ''/''
      in if q = [] then ''.'' else q)"

definition path_Join :: "string \<Rightarrow> string \<Rightarrow> string" where
  "path_Join a b =
     (let es = filter (\<lambda>e. e \<noteq> []) [a, b] in if es = [] then [] else path_Clean (strings_Join es ''/''))"

definition path_Split :: "string \<Rightarrow> string \<times> string" where
  "path_Split p = (case last_index (CHR ''/'') p of None \<Rightarrow> ([], p) | Some i \<Rightarrow> (take (i + 1) p, drop (i + 1) p))"

section \<open>Files\<close>

datatype os_err = ErrExist | ErrNotExist | ErrOther

record inode =
  in_data :: bytes
  in_synced :: nat

record fs =
  fs_names :: "(string \<times> nat) list"
  fs_inodes :: "nat \<Rightarrow> inode"
  fs_next :: nat
  fs_faults :: "nat option list"

record os_file =
  h_Name :: string
  h_inode :: nat
  h_closed :: bool

definition os_fault :: "fs \<Rightarrow> nat option \<times> fs" where
  "os_fault s = (case fs_faults s of [] \<Rightarrow> (None, s) | x # xs \<Rightarrow> (x, s\<lparr>fs_faults := xs\<rparr>))"

definition upd_inode :: "nat \<Rightarrow> (inode \<Rightarrow> inode) \<Rightarrow> fs \<Rightarrow> fs" where
  "upd_inode i g s = s\<lparr>fs_inodes := (fs_inodes s)(i := g (fs_inodes s i))\<rparr>"

definition os_MkdirAll :: "string \<Rightarrow> fs \<Rightarrow> os_err option \<times> fs" where
  "os_MkdirAll dir s = (case os_fault s of (Some _, s1) \<Rightarrow> (Some ErrOther, s1) | (None, s1) \<Rightarrow> (None, s1))"

definition os_Stat :: "string \<Rightarrow> fs \<Rightarrow> os_err option \<times> fs" where
  "os_Stat name s =
     (case os_fault s of
        (Some _, s1) \<Rightarrow> (Some ErrOther, s1)
      | (None, s1) \<Rightarrow> (if map_of (fs_names s1) name = None then Some ErrNotExist else None, s1))"

text \<open>\<open>os.OpenFile\<close> with \<open>O_WRONLY | O_CREATE\<close>, and \<open>O_EXCL\<close> or \<open>O_APPEND\<close>: either way writes go to the end.\<close>

definition os_OpenFile :: "bool \<Rightarrow> string \<Rightarrow> fs \<Rightarrow> (os_err + os_file) \<times> fs" where
  "os_OpenFile excl name s =
     (case os_fault s of
        (Some _, s1) \<Rightarrow> (Inl ErrOther, s1)
      | (None, s1) \<Rightarrow>
          (case map_of (fs_names s1) name of
             Some i \<Rightarrow> (if excl then Inl ErrExist else Inr \<lparr>h_Name = name, h_inode = i, h_closed = False\<rparr>, s1)
           | None \<Rightarrow>
               let i = fs_next s1 in
               (Inr \<lparr>h_Name = name, h_inode = i, h_closed = False\<rparr>,
                (upd_inode i (\<lambda>_. \<lparr>in_data = [], in_synced = 0\<rparr>) s1)
                  \<lparr>fs_names := fs_names s1 @ [(name, i)], fs_next := Suc i\<rparr>)))"

definition file_Write :: "bytes \<Rightarrow> os_file \<Rightarrow> fs \<Rightarrow> nat \<times> os_err option \<times> fs" where
  "file_Write p h s =
     (if h_closed h then (0, Some ErrOther, s)
      else case os_fault s of
             (Some k, s1) \<Rightarrow>
               (min k (length p), Some ErrOther, upd_inode (h_inode h) (\<lambda>n. n\<lparr>in_data := in_data n @ take k p\<rparr>) s1)
           | (None, s1) \<Rightarrow> (length p, None, upd_inode (h_inode h) (\<lambda>n. n\<lparr>in_data := in_data n @ p\<rparr>) s1))"

definition file_Sync :: "os_file \<Rightarrow> fs \<Rightarrow> os_err option \<times> fs" where
  "file_Sync h s =
     (if h_closed h then (Some ErrOther, s)
      else case os_fault s of
             (Some _, s1) \<Rightarrow> (Some ErrOther, s1)
           | (None, s1) \<Rightarrow> (None, upd_inode (h_inode h) (\<lambda>n. n\<lparr>in_synced := length (in_data n)\<rparr>) s1))"

definition file_Close :: "os_file \<Rightarrow> fs \<Rightarrow> os_err option \<times> os_file \<times> fs" where
  "file_Close h s =
     (if h_closed h then (Some ErrOther, h, s)
      else case os_fault s of
             (Some _, s1) \<Rightarrow> (Some ErrOther, h\<lparr>h_closed := True\<rparr>, s1)
           | (None, s1) \<Rightarrow> (None, h\<lparr>h_closed := True\<rparr>, s1))"

definition file_Stat :: "os_file \<Rightarrow> fs \<Rightarrow> (os_err + int) \<times> fs" where
  "file_Stat h s =
     (case os_fault s of
        (Some _, s1) \<Rightarrow> (Inl ErrOther, s1)
      | (None, s1) \<Rightarrow> (Inr (int (length (in_data (fs_inodes s1 (h_inode h))))), s1))"

definition os_Link :: "string \<Rightarrow> string \<Rightarrow> fs \<Rightarrow> os_err option \<times> fs" where
  "os_Link src dst s =
     (case os_fault s of
        (Some _, s1) \<Rightarrow> (Some ErrOther, s1)
      | (None, s1) \<Rightarrow>
          (case map_of (fs_names s1) src of
             None \<Rightarrow> (Some ErrNotExist, s1)
           | Some i \<Rightarrow>
               if map_of (fs_names s1) dst \<noteq> None then (Some ErrExist, s1)
               else (None, s1\<lparr>fs_names := fs_names s1 @ [(dst, i)]\<rparr>)))"

definition os_Remove :: "string \<Rightarrow> fs \<Rightarrow> os_err option \<times> fs" where
  "os_Remove name s =
     (case os_fault s of
        (Some _, s1) \<Rightarrow> (Some ErrOther, s1)
      | (None, s1) \<Rightarrow>
          if map_of (fs_names s1) name = None then (Some ErrNotExist, s1)
          else (None, s1\<lparr>fs_names := amap_del name (fs_names s1)\<rparr>))"

section \<open>What is never lost\<close>

definition durable :: "fs \<Rightarrow> nat \<Rightarrow> bytes" where
  "durable s i = take (in_synced (fs_inodes s i)) (in_data (fs_inodes s i))"

definition named :: "fs \<Rightarrow> nat \<Rightarrow> bool" where
  "named s i \<longleftrightarrow> i \<in> snd ` set (fs_names s)"

text \<open>Every file of the earlier state still has a name, and its bytes, also those on stable storage, have at most been
  extended.\<close>

definition kept :: "fs \<Rightarrow> fs \<Rightarrow> bool" where
  "kept s s' \<longleftrightarrow> (\<forall>i. named s i \<longrightarrow> named s' i \<and> prefix (in_data (fs_inodes s i)) (in_data (fs_inodes s' i)) \<and>
     prefix (durable s i) (durable s' i))"

definition fs_wf :: "fs \<Rightarrow> bool" where
  "fs_wf s \<longleftrightarrow> distinct (map fst (fs_names s)) \<and> (\<forall>i. named s i \<longrightarrow> i < fs_next s \<and>
     in_synced (fs_inodes s i) \<le> length (in_data (fs_inodes s i)))"

text \<open>A transition of the file system that loses nothing.\<close>

definition fs_ok :: "fs \<Rightarrow> fs \<Rightarrow> bool" where
  "fs_ok s s' \<longleftrightarrow> (fs_wf s \<longrightarrow> fs_wf s' \<and> kept s s')"

named_theorems fs_ok_intros

lemma kept_refl [simp]: "kept s s"
  by (simp add: kept_def)

lemma kept_trans: "kept s s' \<Longrightarrow> kept s' s'' \<Longrightarrow> kept s s''"
  unfolding kept_def by (meson prefix_order.trans)

lemma fs_ok_refl [simp]: "fs_ok s s"
  by (simp add: fs_ok_def)

lemma fs_ok_trans: "fs_ok s s' \<Longrightarrow> fs_ok s' s'' \<Longrightarrow> fs_ok s s''"
  unfolding fs_ok_def using kept_trans by blast

lemma fs_ok_faults: "fs_ok s (s\<lparr>fs_faults := xs\<rparr>)"
  by (simp add: fs_ok_def fs_wf_def kept_def named_def durable_def)

lemma os_fault_ok: "fs_ok s (snd (os_fault s))"
  by (simp add: os_fault_def fs_ok_faults split: list.split)

lemma os_fault_names: "fs_names (snd (os_fault s)) = fs_names s"
  by (simp add: os_fault_def split: list.split)

lemma fs_ok_fault: "os_fault s = (x, s1) \<Longrightarrow> fs_ok s1 s' \<Longrightarrow> fs_ok s s'"
  using os_fault_ok [of s] fs_ok_trans by (metis snd_conv)

lemma named_upd_inode [simp]: "named (upd_inode i g s) j = named s j"
  by (simp add: named_def upd_inode_def)

lemma upd_inode_simps [simp]:
  "fs_names (upd_inode i g s) = fs_names s" "fs_next (upd_inode i g s) = fs_next s"
  "fs_inodes (upd_inode i g s) j = (if j = i then g (fs_inodes s i) else fs_inodes s j)"
  by (simp_all add: upd_inode_def)

lemma fs_ok_append: "fs_ok s (upd_inode i (\<lambda>n. n\<lparr>in_data := in_data n @ p\<rparr>) s)"
  by (fastforce simp: fs_ok_def fs_wf_def kept_def durable_def)

lemma fs_ok_synced: "fs_ok s (upd_inode i (\<lambda>n. n\<lparr>in_synced := length (in_data n)\<rparr>) s)"
  by (auto simp: fs_ok_def fs_wf_def kept_def durable_def take_is_prefix)

lemma fs_ok_create:
  assumes "map_of (fs_names s) name = None"
  shows "fs_ok s ((upd_inode (fs_next s) (\<lambda>_. \<lparr>in_data = [], in_synced = 0\<rparr>) s)
     \<lparr>fs_names := fs_names s @ [(name, fs_next s)], fs_next := Suc (fs_next s)\<rparr>)"
  using assms
  by (auto simp: fs_ok_def fs_wf_def kept_def durable_def named_def map_of_eq_None_iff upd_inode_def less_Suc_eq)

lemma fs_ok_link:
  assumes "map_of (fs_names s) src = Some i" "map_of (fs_names s) dst = None"
  shows "fs_ok s (s\<lparr>fs_names := fs_names s @ [(dst, i)]\<rparr>)"
  using assms map_of_SomeD [OF assms(1)]
  by (force simp: fs_ok_def fs_wf_def kept_def durable_def named_def map_of_eq_None_iff)

lemma fs_ok_unlink:
  assumes "distinct (map fst (fs_names s)) \<Longrightarrow> \<exists>i. map_of (fs_names s) src = Some i \<and> (dst, i) \<in> set (fs_names s)" "dst \<noteq> src"
  shows "fs_ok s (s\<lparr>fs_names := amap_del src (fs_names s)\<rparr>)"
proof -
  have names: "named (s\<lparr>fs_names := amap_del src (fs_names s)\<rparr>) j = named s j" if wf: "fs_wf s" for j
  proof -
    have d: "distinct (map fst (fs_names s))" using wf by (simp add: fs_wf_def)
    then obtain i where i: "map_of (fs_names s) src = Some i" "(dst, i) \<in> set (fs_names s)" using assms(1) by blast
    have "j = i" if "(src, j) \<in> set (fs_names s)" using that d i(1) by simp
    then show ?thesis using i(2) assms(2) by (force simp: named_def set_amap_del)
  qed
  have "distinct (map fst (amap_del src (fs_names s)))" if "fs_wf s"
    using that by (simp add: fs_wf_def distinct_amap_del)
  with names show ?thesis by (simp add: fs_ok_def fs_wf_def kept_def durable_def)
qed

lemma os_MkdirAll_ok [fs_ok_intros]: "os_MkdirAll dir s = (e, s') \<Longrightarrow> fs_ok s s'"
  using os_fault_ok [of s] by (auto simp: os_MkdirAll_def split: prod.splits option.splits)

lemma os_Stat_ok [fs_ok_intros]: "os_Stat name s = (e, s') \<Longrightarrow> fs_ok s s'"
  using os_fault_ok [of s] by (auto simp: os_Stat_def split: prod.splits option.splits)

lemma file_Stat_ok [fs_ok_intros]: "file_Stat h s = (e, s') \<Longrightarrow> fs_ok s s'"
  using os_fault_ok [of s] by (auto simp: file_Stat_def split: prod.splits option.splits)

lemma file_Close_ok [fs_ok_intros]: "file_Close h s = (e, h', s') \<Longrightarrow> fs_ok s s'"
  using os_fault_ok [of s] by (auto simp: file_Close_def split: prod.splits option.splits if_splits)

lemma file_Sync_ok [fs_ok_intros]: "file_Sync h s = (e, s') \<Longrightarrow> fs_ok s s'"
  by (auto simp: file_Sync_def fs_ok_synced intro: fs_ok_fault split: prod.splits option.splits if_splits)

lemma file_Write_ok [fs_ok_intros]: "file_Write p h s = (n, e, s') \<Longrightarrow> fs_ok s s'"
  by (auto simp: file_Write_def fs_ok_append intro: fs_ok_fault split: prod.splits option.splits if_splits)

lemma os_OpenFile_ok [fs_ok_intros]:
  assumes "os_OpenFile excl name s = (r, s')"
  shows "fs_ok s s'"
proof -
  obtain x s1 where n: "os_fault s = (x, s1)" by (rule prod.exhaust)
  have "fs_ok s1 s'"
    using assms n by (auto simp: os_OpenFile_def Let_def fs_ok_create split: option.splits if_splits)
  with n show ?thesis by (rule fs_ok_fault)
qed

lemma os_OpenFile_named: "os_OpenFile excl name s = (Inr h, s') \<Longrightarrow> named s' (h_inode h) \<and> \<not> h_closed h"
  by (auto simp: os_OpenFile_def Let_def named_def rev_image_eqI dest!: map_of_SomeD split: prod.splits option.splits if_splits)

lemma os_Remove_cases:
  "os_Remove name s = (e, s') \<Longrightarrow>
     s' = snd (os_fault s) \<or> s' = (snd (os_fault s))\<lparr>fs_names := amap_del name (fs_names s)\<rparr>"
  using os_fault_names [of s] by (auto simp: os_Remove_def split: prod.splits option.splits if_splits)

lemma os_Link_cases:
  assumes "os_Link src dst s = (e, s')"
  shows "e \<noteq> None \<and> s' = snd (os_fault s) \<or>
    e = None \<and> (\<exists>i. map_of (fs_names s) src = Some i \<and> map_of (fs_names s) dst = None \<and>
      s' = (snd (os_fault s))\<lparr>fs_names := fs_names s @ [(dst, i)]\<rparr>)"
  using assms os_fault_names [of s] by (auto simp: os_Link_def split: prod.splits option.splits if_splits)

text \<open>A file of the earlier state that a process writes stays named.\<close>

lemma fs_ok_named: "fs_wf s \<Longrightarrow> fs_ok s s' \<Longrightarrow> named s i \<Longrightarrow> named s' i"
  by (simp add: fs_ok_def kept_def)

lemma fs_ok_wf: "fs_wf s \<Longrightarrow> fs_ok s s' \<Longrightarrow> fs_wf s'"
  by (simp add: fs_ok_def)

lemma fs_ok_kept: "kept s0 s \<Longrightarrow> fs_wf s \<Longrightarrow> fs_ok s s' \<Longrightarrow> kept s0 s'"
  unfolding fs_ok_def using kept_trans by blast

lemma file_Sync_durable:
  "file_Sync h s = (None, s') \<Longrightarrow>
     durable s' (h_inode h) = in_data (fs_inodes s (h_inode h)) \<and>
     in_data (fs_inodes s' (h_inode h)) = in_data (fs_inodes s (h_inode h))"
  by (auto simp: file_Sync_def os_fault_def durable_def split: prod.splits option.splits if_splits list.splits)

lemma file_Write_data:
  "file_Write p h s = (n, None, s') \<Longrightarrow>
     in_data (fs_inodes s' (h_inode h)) = in_data (fs_inodes s (h_inode h)) @ p \<and> \<not> h_closed h"
  by (auto simp: file_Write_def os_fault_def split: prod.splits option.splits if_splits list.splits)

end
