(* ===== verification/Nsq_Stats.thy ===== *)
theory Nsq_Stats
  imports Nsq_Files
begin

text \<open>
  The statistics of a daemon: the snapshots of \<open>nsqd/stats.go\<close> (with \<open>clientV2.Stats\<close> of \<open>nsqd/client_v2.go\<close>) and their way to
  statsd (\<open>nsqd/statsd.go\<close>, \<open>internal/statsd\<close>, \<open>internal/writers\<close>). What is not in the model of the daemon is an
  argument: addresses and TLS states of the connections, the latency percentiles of the quantile streams, with their
  printed labels, and the runtime's memory statistics.
\<close>

section \<open>Snapshots of clients\<close>

record tls_conn =
  tc_Version :: u16
  tc_CipherSuite :: u16
  tc_NegotiatedProtocol :: string
  tc_NegotiatedProtocolIsMutual :: bool

definition GetCipherSuite :: "tls_conn \<Rightarrow> string" where
  "GetCipherSuite p =
     (case map_of
        [(0x0005, ''TLS_RSA_WITH_RC4_128_SHA''), (0x000A, ''TLS_RSA_WITH_3DES_EDE_CBC_SHA''),
         (0x002F, ''TLS_RSA_WITH_AES_128_CBC_SHA''), (0x0035, ''TLS_RSA_WITH_AES_256_CBC_SHA''),
         (0xC007, ''TLS_ECDHE_ECDSA_WITH_RC4_128_SHA''), (0xC009, ''TLS_ECDHE_ECDSA_WITH_AES_128_CBC_SHA''),
         (0xC00A, ''TLS_ECDHE_ECDSA_WITH_AES_256_CBC_SHA''), (0xC011, ''TLS_ECDHE_RSA_WITH_RC4_128_SHA''),
         (0xC012, ''TLS_ECDHE_RSA_WITH_3DES_EDE_CBC_SHA''), (0xC013, ''TLS_ECDHE_RSA_WITH_AES_128_CBC_SHA''),
         (0xC014, ''TLS_ECDHE_RSA_WITH_AES_256_CBC_SHA''), (0xC02F, ''TLS_ECDHE_RSA_WITH_AES_128_GCM_SHA256''),
         (0xC02B, ''TLS_ECDHE_ECDSA_WITH_AES_128_GCM_SHA256'')] (tc_CipherSuite p) of
        Some s \<Rightarrow> s
      | None \<Rightarrow> ''Unknown '' @ decimal (uint (tc_CipherSuite p)))"

definition conn_GetVersion :: "tls_conn \<Rightarrow> string" where
  "conn_GetVersion p =
     (case map_of [(0x0300, ''SSL30''), (0x0301, ''TLS1.0''), (0x0302, ''TLS1.1''), (0x0303, ''TLS1.2'')] (tc_Version p) of
        Some s \<Rightarrow> s
      | None \<Rightarrow> ''Unknown '' @ decimal (uint (tc_Version p)))"

record NsqdClientStats =
  xs_ClientID :: string
  xs_Hostname :: string
  xs_Version :: string
  xs_RemoteAddress :: string
  xs_State :: client_state
  xs_ReadyCount :: i64
  xs_InFlightCount :: i64
  xs_MessageCount :: u64
  xs_FinishCount :: u64
  xs_RequeueCount :: u64
  xs_ConnectTime :: int
  xs_SampleRate :: int
  xs_Deflate :: bool
  xs_Snappy :: bool
  xs_UserAgent :: string
  xs_Authed :: bool
  xs_AuthIdentity :: string
  xs_AuthIdentityURL :: string
  xs_PubCounts :: "(string \<times> u64) list"
  xs_TLS :: bool
  xs_CipherSuite :: string
  xs_TLSVersion :: string
  xs_TLSNegotiatedProtocol :: string
  xs_TLSNegotiatedProtocolIsMutual :: bool

record stats_env =
  se_addr :: "int \<Rightarrow> string"
  se_tls :: "int \<Rightarrow> tls_conn"
  se_channel_latency :: "i64 list option \<Rightarrow> (string \<times> int) list"
  se_topic_latency :: "i64 list list \<Rightarrow> (string \<times> int) list"

definition client_Stats :: "stats_env \<Rightarrow> clientV2 \<Rightarrow> NsqdClientStats" where
  "client_Stats x c =
     (let (identity, identityURL) =
            (case cl_AuthState c of Some st \<Rightarrow> (s_Identity st, s_IdentityURL st) | None \<Rightarrow> ([], []));
          p = se_tls x (cl_ID c)
      in \<lparr>xs_ClientID = cl_ClientID c, xs_Hostname = cl_Hostname c, xs_Version = ''V2'',
          xs_RemoteAddress = se_addr x (cl_ID c), xs_State = cl_State c, xs_ReadyCount = cl_ReadyCount c,
          xs_InFlightCount = cl_InFlightCount c, xs_MessageCount = cl_MessageCount c, xs_FinishCount = cl_FinishCount c,
          xs_RequeueCount = cl_RequeueCount c, xs_ConnectTime = cl_ConnectTime c div Second,
          xs_SampleRate = cl_SampleRate c, xs_Deflate = cl_Deflate c, xs_Snappy = cl_Snappy c,
          xs_UserAgent = cl_UserAgent c, xs_Authed = HasAuthorizations c, xs_AuthIdentity = identity,
          xs_AuthIdentityURL = identityURL, xs_PubCounts = cl_pubCounts c, xs_TLS = cl_TLS c,
          xs_CipherSuite = (if cl_TLS c then GetCipherSuite p else []),
          xs_TLSVersion = (if cl_TLS c then conn_GetVersion p else []),
          xs_TLSNegotiatedProtocol = (if cl_TLS c then tc_NegotiatedProtocol p else []),
          xs_TLSNegotiatedProtocolIsMutual = (cl_TLS c \<and> tc_NegotiatedProtocolIsMutual p)\<rparr>)"

section \<open>Snapshots of channels and topics\<close>

record NsqdChannelStats =
  xc_ChannelName :: string
  xc_Depth :: int
  xc_BackendDepth :: int
  xc_InFlightCount :: int
  xc_DeferredCount :: int
  xc_MessageCount :: u64
  xc_RequeueCount :: u64
  xc_TimeoutCount :: u64
  xc_ClientCount :: int
  xc_Clients :: "NsqdClientStats list"
  xc_Paused :: bool
  xc_E2eProcessingLatency :: "(string \<times> int) list"

record NsqdTopicStats =
  xt_TopicName :: string
  xt_Channels :: "NsqdChannelStats list"
  xt_Depth :: int
  xt_BackendDepth :: int
  xt_MessageCount :: u64
  xt_MessageBytes :: u64
  xt_Paused :: bool
  xt_E2eProcessingLatency :: "(string \<times> int) list"

definition NewChannelStats ::
    "stats_env \<Rightarrow> 'b BackendQueue \<Rightarrow> 'b Channel \<Rightarrow> NsqdClientStats list \<Rightarrow> int \<Rightarrow> NsqdChannelStats" where
  "NewChannelStats x ops c clients clientCount =
     \<lparr>xc_ChannelName = c_name c, xc_Depth = Channel_Depth ops c, xc_BackendDepth = backend_Depth ops (c_backend c),
      xc_InFlightCount = int (length (c_inFlightMessages c)), xc_DeferredCount = int (length (c_deferredMessages c)),
      xc_MessageCount = c_messageCount c, xc_RequeueCount = c_requeueCount c, xc_TimeoutCount = c_timeoutCount c,
      xc_ClientCount = clientCount, xc_Clients = clients, xc_Paused = Channel_IsPaused c,
      xc_E2eProcessingLatency = se_channel_latency x (c_latency c)\<rparr>"

definition NewTopicStats :: "stats_env \<Rightarrow> 'b Topic \<Rightarrow> NsqdChannelStats list \<Rightarrow> NsqdTopicStats" where
  "NewTopicStats x t channels =
     \<lparr>xt_TopicName = t_name t, xt_Channels = channels, xt_Depth = Topic_Depth t,
      xt_BackendDepth = backend_Depth disk_ops (t_backend t), xt_MessageCount = t_messageCount t,
      xt_MessageBytes = t_messageBytes t, xt_Paused = Topic_IsPaused t,
      xt_E2eProcessingLatency = se_topic_latency x (latency_streams t)\<rparr>"

text \<open>The objects of a map, all or the one with a given name, sorted by name.\<close>

definition select_named :: "('a \<Rightarrow> string) \<Rightarrow> string \<Rightarrow> (string \<times> 'a) list \<Rightarrow> 'a list option" where
  "select_named name_of name m =
     (if name = [] then Some (sort_key name_of (map snd m))
      else case map_of m name of Some v \<Rightarrow> Some [v] | None \<Rightarrow> None)"

definition channel_stats :: "stats_env \<Rightarrow> 'b BackendQueue \<Rightarrow> bool \<Rightarrow> cstore \<Rightarrow> 'b Channel \<Rightarrow> NsqdChannelStats" where
  "channel_stats x ops includeClients cs c =
     NewChannelStats x ops c (if includeClients then map (\<lambda>i. client_Stats x (cs i)) (c_clients c) else [])
       (int (length (c_clients c)))"

definition topic_stats ::
    "stats_env \<Rightarrow> 'b BackendQueue \<Rightarrow> string \<Rightarrow> bool \<Rightarrow> cstore \<Rightarrow> 'b Topic \<Rightarrow> NsqdTopicStats option" where
  "topic_stats x ops channel includeClients cs t =
     (case select_named c_name channel (t_channelMap t) of
        None \<Rightarrow> None
      | Some realChannels \<Rightarrow> Some (NewTopicStats x t (map (channel_stats x ops includeClients cs) realChannels)))"

definition GetStats ::
    "stats_env \<Rightarrow> 'b BackendQueue \<Rightarrow> string \<Rightarrow> string \<Rightarrow> bool \<Rightarrow> cstore \<Rightarrow> 'b NSQD \<Rightarrow> NsqdTopicStats list" where
  "GetStats x ops topic channel includeClients cs n =
     (case select_named t_name topic (n_topicMap n) of
        None \<Rightarrow> []
      | Some realTopics \<Rightarrow> List.map_filter (topic_stats x ops channel includeClients cs) realTopics)"

definition GetProducerStats :: "stats_env \<Rightarrow> cstore \<Rightarrow> 'b NSQD \<Rightarrow> NsqdClientStats list" where
  "GetProducerStats x cs n = map (\<lambda>i. client_Stats x (cs i)) (filter (\<lambda>i. IsProducer (cs i)) (n_clients n))"

section \<open>Memory statistics\<close>

text \<open>\<open>runtime.MemStats\<close>; \<open>PauseNs\<close> is a circular array of 256 pauses.\<close>

record MemStats =
  ms_HeapObjects :: u64
  ms_HeapIdle :: u64
  ms_HeapInuse :: u64
  ms_HeapReleased :: u64
  ms_NextGC :: u64
  ms_NumGC :: u32
  ms_PauseNs :: "u64 list"

record memStats =
  mm_HeapObjects :: u64
  mm_HeapIdleBytes :: u64
  mm_HeapInUseBytes :: u64
  mm_HeapReleasedBytes :: u64
  mm_GCPauseUsec100 :: u64
  mm_GCPauseUsec99 :: u64
  mm_GCPauseUsec95 :: u64
  mm_NextGCBytes :: u64
  mm_GCTotalRuns :: u32

text \<open>The floating-point computation of the index is exact for the percentiles and lengths that occur: it is the floor of
  \<open>perc / 100 * length + 1 / 2\<close>.\<close>

definition nsqd_percentile :: "nat \<Rightarrow> u64 list \<Rightarrow> nat \<Rightarrow> u64" where
  "nsqd_percentile perc arr len =
     (if len = 0 then 0
      else let i = (2 * perc * len + 100) div 200 in arr ! (if len \<le> i then len - 1 else i))"

definition getMemStats :: "MemStats \<Rightarrow> memStats" where
  "getMemStats ms =
     (let len = (if unat (ms_NumGC ms) < length (ms_PauseNs ms) then unat (ms_NumGC ms) else length (ms_PauseNs ms));
          gcPauses = sort (take len (ms_PauseNs ms))
      in \<lparr>mm_HeapObjects = ms_HeapObjects ms, mm_HeapIdleBytes = ms_HeapIdle ms, mm_HeapInUseBytes = ms_HeapInuse ms,
          mm_HeapReleasedBytes = ms_HeapReleased ms,
          mm_GCPauseUsec100 = nsqd_percentile 100 gcPauses (length gcPauses) div 1000,
          mm_GCPauseUsec99 = nsqd_percentile 99 gcPauses (length gcPauses) div 1000,
          mm_GCPauseUsec95 = nsqd_percentile 95 gcPauses (length gcPauses) div 1000,
          mm_NextGCBytes = ms_NextGC ms, mm_GCTotalRuns = ms_NumGC ms\<rparr>)"

section \<open>The statsd client\<close>

definition HostKey :: "string \<Rightarrow> string" where
  "HostKey h = strings_Replace '':'' ''_'' (strings_Replace ''.'' ''_'' h)"

text \<open>What \<open>New\<close> of \<open>nsqd.go\<close> makes of the configured prefix.\<close>

definition statsd_prefix :: "string \<Rightarrow> string \<Rightarrow> string \<Rightarrow> go_error + string" where
  "statsd_prefix httpAddress broadcastAddress pfx =
     (if pfx = [] then Inr []
      else case SplitHostPort httpAddress of
        Inl e \<Rightarrow> Inl (''failed to parse HTTP address ('' @ httpAddress @ '') - '' @ e)
      | Inr (_, port) \<Rightarrow>
          let p = strings_Replace ''%s'' (HostKey (JoinHostPort broadcastAddress port)) pfx in
          Inr (if last p \<noteq> CHR ''.'' then p @ ''.'' else p))"

text \<open>A key without the prefix; \<open>key_name\<close> is its text.\<close>

datatype statsd_key = TopicKey string string | ChannelKey string string string | MemKey string

fun key_name :: "statsd_key \<Rightarrow> string" where
  "key_name (TopicKey t field) = ''topic.'' @ t @ ''.'' @ field"
| "key_name (ChannelKey t c field) = ''topic.'' @ t @ ''.channel.'' @ c @ ''.'' @ field"
| "key_name (MemKey field) = ''mem.'' @ field"

datatype metric = Counter statsd_key int | Gauge statsd_key int

text \<open>\<open>send\<close> makes the prefix and the key part of a format: the text is what it prints if they contain no percent sign, which
  names of topics and channels do not.\<close>

definition statsd_send :: "string \<Rightarrow> string \<Rightarrow> string \<Rightarrow> int \<Rightarrow> bytes" where
  "statsd_send pfx stat unit value = bytes_of (pfx @ stat @ '':'' @ decimal value @ unit @ [CHR 0x0A])"

definition statsd_Incr :: "string \<Rightarrow> string \<Rightarrow> int \<Rightarrow> bytes" where
  "statsd_Incr pfx stat k = statsd_send pfx stat ''|c'' k"

definition statsd_Decr :: "string \<Rightarrow> string \<Rightarrow> int \<Rightarrow> bytes" where
  "statsd_Decr pfx stat k = statsd_send pfx stat ''|c'' (- k)"

definition statsd_Timing :: "string \<Rightarrow> string \<Rightarrow> int \<Rightarrow> bytes" where
  "statsd_Timing pfx stat delta = statsd_send pfx stat ''|ms'' delta"

definition statsd_Gauge :: "string \<Rightarrow> string \<Rightarrow> int \<Rightarrow> bytes" where
  "statsd_Gauge pfx stat v = statsd_send pfx stat ''|g'' v"

fun statsd_line :: "string \<Rightarrow> metric \<Rightarrow> bytes" where
  "statsd_line pfx (Counter k v) = statsd_Incr pfx (key_name k) v"
| "statsd_line pfx (Gauge k v) = statsd_Gauge pfx (key_name k) v"

section \<open>Writers\<close>

text \<open>\<open>SpreadWriter\<close> keeps what is written to it, one packet for each write. \<open>bufio.Writer\<close> in front of it never sees
  an error.\<close>

definition spread_Write :: "bytes \<Rightarrow> bytes list \<Rightarrow> bytes list" where
  "spread_Write p buf = buf @ [p]"

text \<open>\<open>Flush\<close> divides the interval by the number of packets: without packets, or without time, it panics. Otherwise it
  sends every packet.\<close>

definition spread_Flush :: "int \<Rightarrow> bytes list \<Rightarrow> bytes list option" where
  "spread_Flush interval buf =
     (if buf = [] then None
      else if go_div interval (int (length buf)) \<le> 0 then None
      else Some buf)"

definition pbuf_Flush :: "bufio \<times> bytes list \<Rightarrow> bufio \<times> bytes list" where
  "pbuf_Flush = (\<lambda>(b, sw). if b_buf b = [] then (b, sw) else (b\<lparr>b_buf := []\<rparr>, spread_Write (b_buf b) sw))"

definition pbuf_direct :: "bytes \<Rightarrow> bufio \<times> bytes list \<Rightarrow> bufio \<times> bytes list" where
  "pbuf_direct p = (\<lambda>(b, sw). if b_size b < length p then (b, spread_Write p sw) else (b\<lparr>b_buf := p\<rparr>, sw))"

definition pbuf_Write :: "bytes \<Rightarrow> bufio \<times> bytes list \<Rightarrow> bufio \<times> bytes list" where
  "pbuf_Write p = (\<lambda>(b, sw).
     if length (b_buf b) + length p \<le> b_size b then (b\<lparr>b_buf := b_buf b @ p\<rparr>, sw)
     else if b_buf b = [] then pbuf_direct p (b, sw)
     else let k = b_size b - length (b_buf b) in
          pbuf_direct (drop k p) (pbuf_Flush (b\<lparr>b_buf := b_buf b @ take k p\<rparr>, sw)))"

definition BoundaryBufferedWriter_Write :: "bytes \<Rightarrow> bufio \<times> bytes list \<Rightarrow> bufio \<times> bytes list" where
  "BoundaryBufferedWriter_Write p s =
     pbuf_Write p (if b_size (fst s) - length (b_buf (fst s)) < length p then pbuf_Flush s else s)"

definition NewBoundaryBufferedWriter :: "int \<Rightarrow> bufio \<times> bytes list" where
  "NewBoundaryBufferedWriter sz = (bufio_NewWriterSize sz, [])"

section \<open>The statsd loop\<close>

record StatsdOptions =
  so_Address :: string
  so_Prefix :: string
  so_Interval :: int
  so_MemStats :: bool
  so_UDPPacketSize :: int

definition NewStatsdOptions :: StatsdOptions where
  "NewStatsdOptions = \<lparr>so_Address = [], so_Prefix = ''nsq.%s'', so_Interval = 60 * Second, so_MemStats = True,
     so_UDPPacketSize = 508\<rparr>"

definition empty_TopicStats :: NsqdTopicStats where
  "empty_TopicStats = \<lparr>xt_TopicName = [], xt_Channels = [], xt_Depth = 0, xt_BackendDepth = 0, xt_MessageCount = 0,
     xt_MessageBytes = 0, xt_Paused = False, xt_E2eProcessingLatency = []\<rparr>"

definition empty_ChannelStats :: NsqdChannelStats where
  "empty_ChannelStats = \<lparr>xc_ChannelName = [], xc_Depth = 0, xc_BackendDepth = 0, xc_InFlightCount = 0,
     xc_DeferredCount = 0, xc_MessageCount = 0, xc_RequeueCount = 0, xc_TimeoutCount = 0, xc_ClientCount = 0,
     xc_Clients = [], xc_Paused = False, xc_E2eProcessingLatency = []\<rparr>"

definition find_last :: "('a \<Rightarrow> string) \<Rightarrow> 'a \<Rightarrow> string \<Rightarrow> 'a list \<Rightarrow> 'a" where
  "find_last name_of dflt name xs = (case find (\<lambda>x. name = name_of x) xs of Some x \<Rightarrow> x | None \<Rightarrow> dflt)"

definition latency_metrics :: "(string \<Rightarrow> statsd_key) \<Rightarrow> (string \<times> int) list \<Rightarrow> metric list" where
  "latency_metrics k items = map (\<lambda>(label, v). Gauge (k (''e2e_processing_latency_'' @ label)) v) items"

definition channel_metrics :: "string \<Rightarrow> NsqdChannelStats \<Rightarrow> NsqdChannelStats \<Rightarrow> metric list" where
  "channel_metrics t l c =
     (let k = ChannelKey t (xc_ChannelName c) in
      [Counter (k ''message_count'') (sint (xc_MessageCount c - xc_MessageCount l)),
       Gauge (k ''depth'') (xc_Depth c),
       Gauge (k ''backend_depth'') (xc_BackendDepth c),
       Gauge (k ''in_flight_count'') (xc_InFlightCount c),
       Gauge (k ''deferred_count'') (xc_DeferredCount c),
       Counter (k ''requeue_count'') (sint (xc_RequeueCount c - xc_RequeueCount l)),
       Counter (k ''timeout_count'') (sint (xc_TimeoutCount c - xc_TimeoutCount l)),
       Gauge (k ''clients'') (xc_ClientCount c)] @ latency_metrics k (xc_E2eProcessingLatency c))"

definition topic_metrics :: "NsqdTopicStats list \<Rightarrow> NsqdTopicStats \<Rightarrow> metric list" where
  "topic_metrics lastStats t =
     (let l = find_last xt_TopicName empty_TopicStats (xt_TopicName t) lastStats;
          k = TopicKey (xt_TopicName t) in
      [Counter (k ''message_count'') (sint (xt_MessageCount t - xt_MessageCount l)),
       Counter (k ''message_bytes'') (sint (xt_MessageBytes t - xt_MessageBytes l)),
       Gauge (k ''depth'') (xt_Depth t),
       Gauge (k ''backend_depth'') (xt_BackendDepth t)] @ latency_metrics k (xt_E2eProcessingLatency t) @
      concat (map (\<lambda>c. channel_metrics (xt_TopicName t)
        (find_last xc_ChannelName empty_ChannelStats (xc_ChannelName c) (xt_Channels l)) c) (xt_Channels t)))"

definition mem_metrics :: "u32 \<Rightarrow> memStats \<Rightarrow> metric list" where
  "mem_metrics lastRuns ms =
     [Gauge (MemKey ''heap_objects'') (sint (mm_HeapObjects ms)),
      Gauge (MemKey ''heap_idle_bytes'') (sint (mm_HeapIdleBytes ms)),
      Gauge (MemKey ''heap_in_use_bytes'') (sint (mm_HeapInUseBytes ms)),
      Gauge (MemKey ''heap_released_bytes'') (sint (mm_HeapReleasedBytes ms)),
      Gauge (MemKey ''gc_pause_usec_100'') (sint (mm_GCPauseUsec100 ms)),
      Gauge (MemKey ''gc_pause_usec_99'') (sint (mm_GCPauseUsec99 ms)),
      Gauge (MemKey ''gc_pause_usec_95'') (sint (mm_GCPauseUsec95 ms)),
      Gauge (MemKey ''next_gc_bytes'') (sint (mm_NextGCBytes ms)),
      Counter (MemKey ''gc_runs'') (uint (mm_GCTotalRuns ms - lastRuns))]"

record statsd_state =
  sl_lastStats :: "NsqdTopicStats list"
  sl_lastRuns :: u32

definition statsd_init :: statsd_state where
  "statsd_init = \<lparr>sl_lastStats = [], sl_lastRuns = 0\<rparr>"

definition tick_metrics :: "StatsdOptions \<Rightarrow> NsqdTopicStats list \<Rightarrow> memStats \<Rightarrow> statsd_state \<Rightarrow> metric list" where
  "tick_metrics opts stats ms s =
     concat (map (topic_metrics (sl_lastStats s)) stats) @
     (if so_MemStats opts then mem_metrics (sl_lastRuns s) ms else [])"

definition tick_state :: "StatsdOptions \<Rightarrow> NsqdTopicStats list \<Rightarrow> memStats \<Rightarrow> statsd_state \<Rightarrow> statsd_state" where
  "tick_state opts stats ms s =
     \<lparr>sl_lastStats = stats, sl_lastRuns = (if so_MemStats opts then mm_GCTotalRuns ms else sl_lastRuns s)\<rparr>"

definition tick_packets :: "StatsdOptions \<Rightarrow> metric list \<Rightarrow> bytes list" where
  "tick_packets opts mts =
     snd (pbuf_Flush (fold (\<lambda>m. BoundaryBufferedWriter_Write (statsd_line (so_Prefix opts) m)) mts
       (NewBoundaryBufferedWriter (so_UDPPacketSize opts))))"

text \<open>One tick: without a socket nothing happens; \<open>None\<close> is a panic. The result is what is sent.\<close>

definition statsd_tick ::
    "int \<Rightarrow> StatsdOptions \<Rightarrow> go_error option \<Rightarrow> NsqdTopicStats list \<Rightarrow> memStats \<Rightarrow> statsd_state \<Rightarrow>
       (bytes list \<times> statsd_state) option" where
  "statsd_tick interval opts dial stats ms s =
     (case dial of
        Some e \<Rightarrow> Some ([], s)
      | None \<Rightarrow>
          (case spread_Flush (interval - Second) (tick_packets opts (tick_metrics opts stats ms s)) of
             None \<Rightarrow> None
           | Some packets \<Rightarrow> Some (packets, tick_state opts stats ms s)))"

fun statsd_loop ::
    "int \<Rightarrow> StatsdOptions \<Rightarrow> (go_error option \<times> NsqdTopicStats list \<times> memStats) list \<Rightarrow> statsd_state \<Rightarrow>
       (bytes list list \<times> statsd_state) option" where
  "statsd_loop interval opts [] s = Some ([], s)"
| "statsd_loop interval opts ((dial, stats, ms) # ticks) s =
     (case statsd_tick interval opts dial stats ms s of
        None \<Rightarrow> None
      | Some (packets, s1) \<Rightarrow> map_option (apfst (Cons packets)) (statsd_loop interval opts ticks s1))"

end
