(* ===== verification/Nsq_NsqdStats.thy ===== *)
theory Nsq_NsqdStats
  imports Nsq_Stats Nsq_Admin
begin

text \<open>
  The rest of \<open>nsqd/http.go\<close>: the statistics of a daemon as a value or as text (\<open>doStats\<close>, \<open>printStats\<close>) and its
  configuration (\<open>doConfig\<close>, \<open>getOptByCfgName\<close>). Times and durations in the text are printed by the standard library: their
  texts are arguments, as is the text of the latencies.
\<close>

section \<open>Statistics\<close>

record stats_request =
  sr_env :: stats_env
  sr_mem :: MemStats
  sr_version :: string
  sr_versionString :: string
  sr_startTime :: int
  sr_startText :: string
  sr_uptime :: string
  sr_now :: int
  sr_duration :: "int \<Rightarrow> string"
  sr_latency :: "(string \<times> int) list \<Rightarrow> string"

record stats_reply =
  sy_Version :: string
  sy_Health :: string
  sy_StartTime :: int
  sy_Topics :: "NsqdTopicStats list"
  sy_Memory :: memStats
  sy_Producers :: "NsqdClientStats list"

datatype nsqd_value = StatsValue stats_reply | OptionField string

fun filter_channels :: "string \<Rightarrow> NsqdChannelStats list \<Rightarrow> NsqdChannelStats list \<Rightarrow> NsqdChannelStats list" where
  "filter_channels name [] all = all"
| "filter_channels name (c # cs) all = (if xc_ChannelName c = name then [c] else filter_channels name cs all)"

fun filter_topics :: "string \<Rightarrow> string \<Rightarrow> NsqdTopicStats list \<Rightarrow> NsqdTopicStats list \<Rightarrow> NsqdTopicStats list" where
  "filter_topics topic channel [] all = all"
| "filter_topics topic channel (t # ts) all =
     (if xt_TopicName t = topic
      then [if channel \<noteq> [] then t\<lparr>xt_Channels := filter_channels channel (xt_Channels t) (xt_Channels t)\<rparr> else t]
      else filter_topics topic channel ts all)"

definition filter_producers :: "string \<Rightarrow> NsqdClientStats list \<Rightarrow> NsqdClientStats list" where
  "filter_producers topic ps =
     List.map_filter (\<lambda>p. case map_of (xs_PubCounts p) topic of
        None \<Rightarrow> None
      | Some k \<Rightarrow> Some (p\<lparr>xs_PubCounts := [(topic, k)]\<rparr>)) ps"

section \<open>Statistics as text\<close>

abbreviation nl :: string where
  "nl \<equiv> [CHR 0x0A]"

definition pad_right :: "nat \<Rightarrow> string \<Rightarrow> string" where
  "pad_right n s = s @ replicate (n - length s) (CHR '' '')"

definition udecimal :: "'a::len word \<Rightarrow> string" where
  "udecimal w = decimal (uint w)"

definition print_mem :: "memStats \<Rightarrow> string" where
  "print_mem ms =
     concat (map (\<lambda>(name, v). ''   '' @ pad_right 25 name @ [CHR 0x09] @ v @ nl)
       [(''heap_objects'', udecimal (mm_HeapObjects ms)), (''heap_idle_bytes'', udecimal (mm_HeapIdleBytes ms)),
        (''heap_in_use_bytes'', udecimal (mm_HeapInUseBytes ms)), (''heap_released_bytes'', udecimal (mm_HeapReleasedBytes ms)),
        (''gc_pause_usec_100'', udecimal (mm_GCPauseUsec100 ms)), (''gc_pause_usec_99'', udecimal (mm_GCPauseUsec99 ms)),
        (''gc_pause_usec_95'', udecimal (mm_GCPauseUsec95 ms)), (''next_gc_bytes'', udecimal (mm_NextGCBytes ms)),
        (''gc_total_runs'', udecimal (mm_GCTotalRuns ms))])"

text \<open>The number of a connection's state; \<open>now.Sub(connectTime)\<close>, truncated to the second.\<close>

fun state_number :: "client_state \<Rightarrow> int" where
  "state_number stateInit = 0"
| "state_number stateDisconnected = 1"
| "state_number stateConnected = 2"
| "state_number stateSubscribed = 3"
| "state_number stateClosing = 4"

definition connected_for :: "stats_request \<Rightarrow> NsqdClientStats \<Rightarrow> string" where
  "connected_for r c = sr_duration r (go_div (sr_now r - xs_ConnectTime c * Second) Second * Second)"

definition print_client :: "stats_request \<Rightarrow> NsqdClientStats \<Rightarrow> string" where
  "print_client r c =
     ''        ['' @ xs_Version c @ '' '' @ pad_right 21 (xs_ClientID c) @ ''] state: '' @ decimal (state_number (xs_State c)) @
     '' inflt: '' @ pad_right 4 (decimal (sint (xs_InFlightCount c))) @ '' rdy: '' @ pad_right 4 (decimal (sint (xs_ReadyCount c))) @
     '' fin: '' @ pad_right 8 (udecimal (xs_FinishCount c)) @ '' re-q: '' @ pad_right 8 (udecimal (xs_RequeueCount c)) @
     '' msgs: '' @ pad_right 8 (udecimal (xs_MessageCount c)) @ '' connected: '' @ connected_for r c @ nl"

definition print_channel :: "stats_request \<Rightarrow> NsqdChannelStats \<Rightarrow> string" where
  "print_channel r c =
     (if xc_Paused c then ''   *P '' else ''      '') @ ''['' @ pad_right 25 (xc_ChannelName c) @
     ''] depth: '' @ pad_right 5 (decimal (xc_Depth c)) @ '' be-depth: '' @ pad_right 5 (decimal (xc_BackendDepth c)) @
     '' inflt: '' @ pad_right 4 (decimal (xc_InFlightCount c)) @ '' def: '' @ pad_right 4 (decimal (xc_DeferredCount c)) @
     '' re-q: '' @ pad_right 5 (udecimal (xc_RequeueCount c)) @ '' timeout: '' @ pad_right 5 (udecimal (xc_TimeoutCount c)) @
     '' msgs: '' @ pad_right 8 (udecimal (xc_MessageCount c)) @ '' e2e%: '' @ sr_latency r (xc_E2eProcessingLatency c) @ nl @
     concat (map (print_client r) (xc_Clients c))"

definition print_topic :: "stats_request \<Rightarrow> NsqdTopicStats \<Rightarrow> string" where
  "print_topic r t =
     nl @ (if xt_Paused t then ''*P '' else ''   '') @ ''['' @ pad_right 15 (xt_TopicName t) @
     ''] depth: '' @ pad_right 5 (decimal (xt_Depth t)) @ '' be-depth: '' @ pad_right 5 (decimal (xt_BackendDepth t)) @
     '' msgs: '' @ pad_right 8 (udecimal (xt_MessageCount t)) @ '' e2e%: '' @ sr_latency r (xt_E2eProcessingLatency t) @ nl @
     concat (map (print_channel r) (xt_Channels t))"

definition print_producer :: "stats_request \<Rightarrow> NsqdClientStats \<Rightarrow> string" where
  "print_producer r c =
     nl @ ''   ['' @ xs_Version c @ '' '' @ pad_right 21 (xs_ClientID c) @
     ''] msgs: '' @ pad_right 8 (udecimal (sum_list (map snd (xs_PubCounts c)))) @ '' connected: '' @ connected_for r c @ nl @
     concat (map (\<lambda>(t, n). ''      ['' @ pad_right 15 t @ ''] msgs: '' @ pad_right 8 (udecimal n) @ nl) (xs_PubCounts c))"

definition printStats :: "stats_request \<Rightarrow> NsqdTopicStats list \<Rightarrow> NsqdClientStats list \<Rightarrow> memStats \<Rightarrow> string \<Rightarrow> bytes" where
  "printStats r stats producers ms health =
     bytes_of (sr_versionString r @ nl @ ''start_time '' @ sr_startText r @ nl @ ''uptime '' @ sr_uptime r @ nl @
       nl @ ''Health: '' @ health @ nl @ nl @ ''Memory:'' @ nl @ print_mem ms @ nl @
       (if stats = [] then ''Topics: None'' @ nl else ''Topics:'') @ concat (map (print_topic r) stats) @ nl @
       (if producers = [] then ''Producers: None'' @ nl
        else ''Producers:'' @ concat (map (print_producer r) producers)))"

definition param_or_empty :: "string \<Rightarrow> ReqParams \<Rightarrow> string" where
  "param_or_empty key rp = (case ReqParams_Get key rp of Inl _ \<Rightarrow> [] | Inr v \<Rightarrow> v)"

definition http_doStats :: "stats_request \<Rightarrow> 'b BackendQueue \<Rightarrow> http_req \<Rightarrow> 'b proto \<Rightarrow> http_err + nsqd_value api_data" where
  "http_doStats r ops req s =
     (case NewReqParams req of
        Inl _ \<Rightarrow> Inl (Err 400 ''INVALID_REQUEST'')
      | Inr rp \<Rightarrow>
          let topicName = param_or_empty ''topic'' rp; channelName = param_or_empty ''channel'' rp;
              jsonFormat = (param_or_empty ''format'' rp = ''json'');
              includeClients = (case map_of boolParams (param_or_empty ''include_clients'' rp) of Some b \<Rightarrow> b | None \<Rightarrow> True);
              producers0 = (if includeClients then GetProducerStats (sr_env r) (p_clients s) (p_nsqd s) else []);
              stats0 = GetStats (sr_env r) ops topicName channelName includeClients (p_clients s) (p_nsqd s);
              health = nsqd_GetHealth (p_nsqd s);
              stats = (if topicName \<noteq> [] then filter_topics topicName channelName stats0 stats0 else stats0);
              producers = (if topicName \<noteq> [] then filter_producers topicName producers0 else producers0);
              ms = getMemStats (sr_mem r)
          in Inr (if \<not> jsonFormat then DBytes (printStats r stats producers ms health)
                  else DValue (StatsValue \<lparr>sy_Version = sr_version r, sy_Health = health,
                         sy_StartTime = sr_startTime r div Second, sy_Topics = stats, sy_Memory = ms, sy_Producers = producers\<rparr>)))"

section \<open>Configuration\<close>

text \<open>The fields of \<open>Options\<close> in their order, with the tags \<open>flag\<close> and \<open>cfg\<close>.\<close>

definition nsqd_option_fields :: "(string \<times> string \<times> string) list" where
  "nsqd_option_fields =
     [(''ID'', ''node-id'', ''id''), (''LogLevel'', ''log-level'', []), (''LogPrefix'', ''log-prefix'', []), (''Logger'', [], []),
      (''TCPAddress'', ''tcp-address'', []), (''HTTPAddress'', ''http-address'', []), (''HTTPSAddress'', ''https-address'', []),
      (''BroadcastAddress'', ''broadcast-address'', []),
      (''NSQLookupdTCPAddresses'', ''lookupd-tcp-address'', ''nsqlookupd_tcp_addresses''),
      (''AuthHTTPAddresses'', ''auth-http-address'', ''auth_http_addresses''),
      (''HTTPClientConnectTimeout'', ''http-client-connect-timeout'', ''http_client_connect_timeout''),
      (''HTTPClientRequestTimeout'', ''http-client-request-timeout'', ''http_client_request_timeout''),
      (''DataPath'', ''data-path'', []), (''MemQueueSize'', ''mem-queue-size'', []),
      (''MaxBytesPerFile'', ''max-bytes-per-file'', []), (''SyncEvery'', ''sync-every'', []), (''SyncTimeout'', ''sync-timeout'', []),
      (''QueueScanInterval'', [], []), (''QueueScanRefreshInterval'', [], []), (''QueueScanSelectionCount'', [], []),
      (''QueueScanWorkerPoolMax'', [], []), (''QueueScanDirtyPercent'', [], []),
      (''MsgTimeout'', ''msg-timeout'', []), (''MaxMsgTimeout'', ''max-msg-timeout'', []), (''MaxMsgSize'', ''max-msg-size'', []),
      (''MaxBodySize'', ''max-body-size'', []), (''MaxReqTimeout'', ''max-req-timeout'', []), (''ClientTimeout'', [], []),
      (''MaxHeartbeatInterval'', ''max-heartbeat-interval'', []), (''MaxRdyCount'', ''max-rdy-count'', []),
      (''MaxOutputBufferSize'', ''max-output-buffer-size'', []), (''MaxOutputBufferTimeout'', ''max-output-buffer-timeout'', []),
      (''MinOutputBufferTimeout'', ''min-output-buffer-timeout'', []), (''OutputBufferTimeout'', ''output-buffer-timeout'', []),
      (''MaxChannelConsumers'', ''max-channel-consumers'', []), (''StatsdAddress'', ''statsd-address'', []),
      (''StatsdPrefix'', ''statsd-prefix'', []), (''StatsdInterval'', ''statsd-interval'', []),
      (''StatsdMemStats'', ''statsd-mem-stats'', []), (''StatsdUDPPacketSize'', ''statsd-udp-packet-size'', []),
      (''E2EProcessingLatencyWindowTime'', ''e2e-processing-latency-window-time'', []),
      (''E2EProcessingLatencyPercentiles'', ''e2e-processing-latency-percentile'', ''e2e_processing_latency_percentiles''),
      (''TLSCert'', ''tls-cert'', []), (''TLSKey'', ''tls-key'', []), (''TLSClientAuthPolicy'', ''tls-client-auth-policy'', []),
      (''TLSRootCAFile'', ''tls-root-ca-file'', []), (''TLSRequired'', ''tls-required'', []), (''TLSMinVersion'', ''tls-min-version'', []),
      (''DeflateEnabled'', ''deflate'', []), (''MaxDeflateLevel'', ''max-deflate-level'', []), (''SnappyEnabled'', ''snappy'', [])]"

text \<open>The field that a name selects; its value is what the handler returns.\<close>

fun find_field :: "string \<Rightarrow> (string \<times> string \<times> string) list \<Rightarrow> string option" where
  "find_field name [] = None"
| "find_field name ((field, flagName, cfgName) # fs) =
     (if flagName = [] then find_field name fs
      else if name \<noteq> (if cfgName = [] then strings_Replace ''-'' ''_'' flagName else cfgName) then find_field name fs
      else Some field)"

definition nsqd_getOptByCfgName :: "string \<Rightarrow> string option" where
  "nsqd_getOptByCfgName name = find_field name nsqd_option_fields"

text \<open>What the handler changes: the options, the level of the log, and the notification of the lookup loop, a channel
  with a buffer of one. \<open>unmarshal\<close> is \<open>json.Unmarshal\<close> into the slice of addresses; see \<open>overwrite\<close>.\<close>

record nsqd_config =
  nc_opts :: Options
  nc_LogLevel :: int
  nc_notified :: bool

definition config_put ::
    "(bytes \<Rightarrow> string list \<Rightarrow> go_error option \<times> string list) \<Rightarrow> string \<Rightarrow> bytes \<Rightarrow> nsqd_config \<Rightarrow> http_err option \<times> nsqd_config" where
  "config_put unmarshal opt body s =
     (if opt = ''nsqlookupd_tcp_addresses'' then
        (let old = o_NSQLookupdTCPAddresses (nc_opts s) in
         case unmarshal body old of
           (Some _, addrs) \<Rightarrow>
             (Some (Err 400 ''INVALID_VALUE''), s\<lparr>nc_opts := (nc_opts s)\<lparr>o_NSQLookupdTCPAddresses := overwrite old addrs\<rparr>\<rparr>)
         | (None, addrs) \<Rightarrow> (None, s\<lparr>nc_opts := (nc_opts s)\<lparr>o_NSQLookupdTCPAddresses := addrs\<rparr>, nc_notified := True\<rparr>))
      else if opt = ''log_level'' then
        (case ParseLogLevel (text_of body) of
           Inl _ \<Rightarrow> (Some (Err 400 ''INVALID_VALUE''), s)
         | Inr l \<Rightarrow> (None, s\<lparr>nc_LogLevel := l, nc_notified := True\<rparr>))
      else (Some (Err 400 ''INVALID_OPTION''), s))"

definition config_get :: "string \<Rightarrow> http_err + nsqd_value api_data" where
  "config_get opt = (case nsqd_getOptByCfgName opt of None \<Rightarrow> Inl (Err 400 ''INVALID_OPTION'') | Some f \<Rightarrow> Inr (DValue (OptionField f)))"

definition http_doConfig ::
    "(bytes \<Rightarrow> string list \<Rightarrow> go_error option \<times> string list) \<Rightarrow> string \<Rightarrow> http_req \<Rightarrow> nsqd_config \<Rightarrow>
       (http_err + nsqd_value api_data) \<times> nsqd_config" where
  "http_doConfig unmarshal opt req s =
     (if q_Method req = ''PUT'' then
        (let readMax = o_MaxMsgSize (nc_opts s) + 1 in
         case read_limited readMax req of
           Inl _ \<Rightarrow> (Inl (Err 500 ''INTERNAL_ERROR''), s)
         | Inr body \<Rightarrow>
             if int (length body) = readMax \<or> length body = 0 then (Inl (Err 413 ''INVALID_VALUE''), s)
             else (case config_put unmarshal opt body s of
                     (Some e, s1) \<Rightarrow> (Inl e, s1)
                   | (None, s1) \<Rightarrow> (config_get opt, s1)))
      else (config_get opt, s))"

end
