(* ===== verification/Nsq_StatsdProps.thy ===== *)
theory Nsq_StatsdProps
  imports Nsq_Stats Nsq_DaemonProps
begin

text \<open>
  What reaches statsd: every UDP packet consists of whole lines, the increments of a counter add up to the counter, and the
  push ends in a panic exactly when there is nothing to send or no time to spread it over.
\<close>

section \<open>Packets\<close>

definition whole :: "nat \<Rightarrow> bytes list \<Rightarrow> bool" where
  "whole sz g \<longleftrightarrow> g \<noteq> [] \<and> (length (concat g) \<le> sz \<or> length g = 1)"

text \<open>The packets so far are groups of lines, and the lines since the last of them are in the buffer.\<close>

definition grouped :: "nat \<Rightarrow> bytes list \<Rightarrow> bufio \<times> bytes list \<Rightarrow> bool" where
  "grouped sz ls s \<longleftrightarrow> b_size (fst s) = sz \<and>
     (\<exists>gs cur. snd s = map concat gs \<and> b_buf (fst s) = concat cur \<and> concat gs @ cur = ls \<and>
        length (concat cur) \<le> sz \<and> (\<forall>g \<in> set gs. whole sz g) \<and> [] \<notin> set cur)"

lemma grouped_Flush:
  assumes "grouped sz ls s"
  shows "grouped sz ls (pbuf_Flush s) \<and> b_buf (fst (pbuf_Flush s)) = []"
proof -
  obtain b sw where s: "s = (b, sw)" by (rule prod.exhaust)
  obtain gs cur where g: "sw = map concat gs" "b_buf b = concat cur" "concat gs @ cur = ls" "b_size b = sz"
      "length (concat cur) \<le> sz" "\<forall>g \<in> set gs. whole sz g" "[] \<notin> set cur"
    using assms by (auto simp: grouped_def s)
  show ?thesis
  proof (cases "b_buf b = []")
    case True
    then show ?thesis using assms by (simp add: pbuf_Flush_def s)
  next
    case False
    then have c: "cur \<noteq> []" using g(2) by auto
    then have w: "\<forall>h \<in> set (gs @ [cur]). whole sz h" using g(5,6) by (auto simp: whole_def)
    have f: "pbuf_Flush s = (b\<lparr>b_buf := []\<rparr>, sw @ [b_buf b])" using False by (simp add: pbuf_Flush_def s spread_Write_def)
    have "grouped sz ls (b\<lparr>b_buf := []\<rparr>, sw @ [b_buf b])"
      unfolding grouped_def using g w by (intro conjI exI [of _ "gs @ [cur]"] exI [of _ "[]"]) simp_all
    then show ?thesis using f by simp
  qed
qed

lemma grouped_empty_Write:
  assumes "grouped sz ls s" "b_buf (fst s) = []" "p \<noteq> []"
  shows "grouped sz (ls @ [p]) (pbuf_Write p s)"
proof -
  obtain b sw where s: "s = (b, sw)" by (rule prod.exhaust)
  obtain gs cur where g: "sw = map concat gs" "b_buf b = concat cur" "concat gs @ cur = ls" "b_size b = sz"
      "\<forall>g \<in> set gs. whole sz g" "[] \<notin> set cur"
    using assms by (auto simp: grouped_def s)
  have "cur = []" using g(2,6) assms(2) s by (cases cur) auto
  then have ls: "ls = concat gs" using g(3) by simp
  show ?thesis
  proof (cases "length p \<le> sz")
    case True
    have "pbuf_Write p s = (b\<lparr>b_buf := p\<rparr>, sw)" using True g(4) assms(2) s by (simp add: pbuf_Write_def)
    then show ?thesis
      unfolding grouped_def using g(1,4,5) ls True assms(3) by (intro conjI exI [of _ gs] exI [of _ "[p]"]) simp_all
  next
    case False
    have w: "\<forall>h \<in> set (gs @ [[p]]). whole sz h" using g(5) by (auto simp: whole_def)
    have "pbuf_Write p s = (b, sw @ [p])"
      using False g(4) assms(2) s by (simp add: pbuf_Write_def pbuf_direct_def spread_Write_def)
    then show ?thesis
      unfolding grouped_def using g(1,4) ls w assms(2) s by (intro conjI exI [of _ "gs @ [[p]]"] exI [of _ "[]"]) simp_all
  qed
qed

lemma grouped_Write:
  assumes "grouped sz ls s" "p \<noteq> []"
  shows "grouped sz (ls @ [p]) (BoundaryBufferedWriter_Write p s)"
proof (cases "b_size (fst s) - length (b_buf (fst s)) < length p")
  case True
  then show ?thesis
    using grouped_Flush [OF assms(1)] grouped_empty_Write assms(2) by (simp add: BoundaryBufferedWriter_Write_def)
next
  case False
  obtain b sw where s: "s = (b, sw)" by (rule prod.exhaust)
  obtain gs cur where g: "sw = map concat gs" "b_buf b = concat cur" "concat gs @ cur = ls" "b_size b = sz"
      "length (concat cur) \<le> sz" "\<forall>g \<in> set gs. whole sz g" "[] \<notin> set cur"
    using assms(1) by (auto simp: grouped_def s)
  have l: "length (b_buf b) + length p \<le> sz" using False g(2,4,5) s assms(2) by (cases p) auto
  then have "BoundaryBufferedWriter_Write p s = (b\<lparr>b_buf := b_buf b @ p\<rparr>, sw)"
    using False g(4) s by (simp add: BoundaryBufferedWriter_Write_def pbuf_Write_def)
  then show ?thesis
    unfolding grouped_def using g l assms(2) by (intro conjI exI [of _ gs] exI [of _ "cur @ [p]"]) auto
qed

lemma grouped_fold:
  "grouped sz ls s \<Longrightarrow> (\<And>m. w m \<noteq> []) \<Longrightarrow>
     grouped sz (ls @ map w mts) (fold (\<lambda>m. BoundaryBufferedWriter_Write (w m)) mts s)"
proof (induction mts arbitrary: ls s)
  case (Cons m mts)
  then show ?case using grouped_Write [OF Cons.prems(1), of "w m"] Cons.IH [of "ls @ [w m]"] by simp
qed simp

lemma statsd_line_nonempty: "statsd_line pfx m \<noteq> []"
  by (cases m) (simp_all add: statsd_Incr_def statsd_Gauge_def statsd_send_def bytes_of_def)

definition packet_size :: "StatsdOptions \<Rightarrow> nat" where
  "packet_size opts = (if so_UDPPacketSize opts \<le> 0 then 4096 else nat (so_UDPPacketSize opts))"

lemma tick_packets_grouped:
  "\<exists>gs. tick_packets opts mts = map concat gs \<and> concat gs = map (statsd_line (so_Prefix opts)) mts \<and>
     (\<forall>g \<in> set gs. whole (packet_size opts) g)"
proof -
  let ?sz = "packet_size opts" and ?w = "statsd_line (so_Prefix opts)"
  let ?s = "fold (\<lambda>m. BoundaryBufferedWriter_Write (?w m)) mts (NewBoundaryBufferedWriter (so_UDPPacketSize opts))"
  have "grouped ?sz [] (NewBoundaryBufferedWriter (so_UDPPacketSize opts))"
    by (simp add: grouped_def NewBoundaryBufferedWriter_def bufio_NewWriterSize_def packet_size_def)
  from grouped_fold [OF this statsd_line_nonempty]
  have "grouped ?sz (map ?w mts) ?s" by simp
  from grouped_Flush [OF this]
  obtain gs cur where g: "snd (pbuf_Flush ?s) = map concat gs" "concat cur = []" "concat gs @ cur = map ?w mts"
      "\<forall>g \<in> set gs. whole ?sz g" "[] \<notin> set cur"
    by (auto simp: grouped_def)
  then have "cur = []" by (cases cur) auto
  then show ?thesis using g by (auto simp: tick_packets_def)
qed

text \<open>Every UDP packet that a push to statsd sends consists of whole lines, in order and without a gap: the packets are
  the concatenated groups of a partition of the lines, and a packet larger than the configured size is a single line.\<close>

theorem statsd_packets_hold_whole_lines:
  assumes "statsd_tick interval opts None stats ms s = Some (packets, s')"
  shows "\<exists>groups. packets = map concat groups \<and>
    concat groups = map (statsd_line (so_Prefix opts)) (tick_metrics opts stats ms s) \<and>
    (\<forall>g \<in> set groups. g \<noteq> [] \<and> (length (concat g) \<le> packet_size opts \<or> length g = 1))"
proof -
  have "packets = tick_packets opts (tick_metrics opts stats ms s)"
    using assms by (auto simp: statsd_tick_def spread_Flush_def split: option.splits if_splits)
  then show ?thesis using tick_packets_grouped [of opts "tick_metrics opts stats ms s"] by (auto simp: whole_def)
qed

section \<open>When a push panics\<close>

lemma tick_metrics_empty: "tick_metrics opts stats ms s = [] \<longleftrightarrow> stats = [] \<and> \<not> so_MemStats opts"
  by (cases stats) (auto simp: tick_metrics_def topic_metrics_def mem_metrics_def Let_def)

lemma tick_packets_empty: "tick_packets opts mts = [] \<longleftrightarrow> mts = []"
proof -
  obtain gs where "tick_packets opts mts = map concat gs" "concat gs = map (statsd_line (so_Prefix opts)) mts"
    "\<forall>g \<in> set gs. whole (packet_size opts) g"
    using tick_packets_grouped by blast
  then show ?thesis by (cases gs) (auto simp: whole_def)
qed

lemma go_div_positive: "0 < n \<Longrightarrow> 0 < go_div a (int n) \<longleftrightarrow> int n \<le> a"
proof (cases "0 \<le> a")
  case True
  assume n: "0 < n"
  then show ?thesis using True pos_imp_zdiv_pos_iff [of "int n" a] by simp
next
  case False
  assume "0 < n"
  then have "go_div a (int n) \<le> 0" using False by (simp add: go_div_def sgn_if pos_imp_zdiv_nonneg_iff)
  then show ?thesis using False by auto
qed

lemma statsd_push_panic_iff:
  "statsd_tick interval opts None stats ms s = None \<longleftrightarrow>
     (stats = [] \<and> \<not> so_MemStats opts) \<or>
     interval - Second < int (length (tick_packets opts (tick_metrics opts stats ms s)))"
proof (cases "tick_packets opts (tick_metrics opts stats ms s) = []")
  case True
  then show ?thesis
    using tick_metrics_empty [of opts stats ms s] by (simp add: statsd_tick_def spread_Flush_def tick_packets_empty)
next
  case False
  then have "\<not> (stats = [] \<and> \<not> so_MemStats opts)"
    using tick_metrics_empty [of opts stats ms s] by (simp add: tick_packets_empty)
  then show ?thesis
    using False go_div_positive [of "length (tick_packets opts (tick_metrics opts stats ms s))" "interval - Second"]
    by (auto simp: statsd_tick_def spread_Flush_def not_less not_le)
qed

text \<open>A push to statsd divides the interval, less a second, by the number of packets. It panics, and so ends
  the daemon, exactly if there is nothing to send (no topic, and no memory statistics) or less than a nanosecond for each packet,
  which is the case for every interval of at most a second.\<close>

theorem statsd_push_panics:
  "statsd_tick interval opts None stats ms s = None \<longleftrightarrow>
     (stats = [] \<and> \<not> so_MemStats opts) \<or>
     interval - Second < int (length (tick_packets opts (tick_metrics opts stats ms s)))"
  by (rule statsd_push_panic_iff)

theorem statsd_push_panics_witness:
  "\<forall>ms. statsd_tick (60 * Second) (NewStatsdOptions\<lparr>so_MemStats := False\<rparr>) None [] ms statsd_init = None"
  using statsd_push_panics [of "60 * Second" "NewStatsdOptions\<lparr>so_MemStats := False\<rparr>" "[]" _ statsd_init] by simp

lemma tick_packets_length: "length (tick_packets opts mts) \<le> length mts"
proof -
  obtain gs where g: "tick_packets opts mts = map concat gs" "concat gs = map (statsd_line (so_Prefix opts)) mts"
    "\<forall>g \<in> set gs. whole (packet_size opts) g"
    using tick_packets_grouped by blast
  have "[] \<notin> set gs \<Longrightarrow> length gs \<le> length (concat gs)" for gs :: "bytes list list"
  proof (induction gs)
    case (Cons a gs)
    then have "1 \<le> length a" by (cases a) auto
    moreover have "length gs \<le> length (concat gs)" using Cons by simp
    ultimately show ?case by simp
  qed simp
  then have "length gs \<le> length (concat gs)" using g(3) by (auto simp: whole_def)
  then show ?thesis using g(1,2) by (metis length_map)
qed

lemma statsd_tick_returns:
  assumes "stats \<noteq> []" "int (length (tick_metrics opts stats ms s)) \<le> interval - Second"
  shows "statsd_tick interval opts None stats ms s =
    Some (tick_packets opts (tick_metrics opts stats ms s), tick_state opts stats ms s)"
proof -
  have "\<not> interval - Second < int (length (tick_packets opts (tick_metrics opts stats ms s)))"
    using assms(2) tick_packets_length [of opts "tick_metrics opts stats ms s"] by simp
  then have "statsd_tick interval opts None stats ms s \<noteq> None"
    using assms(1) by (simp add: statsd_push_panic_iff)
  then show ?thesis by (auto simp: statsd_tick_def spread_Flush_def split: option.splits if_splits)
qed

section \<open>Counters add up\<close>

definition stats_wf :: "NsqdTopicStats list \<Rightarrow> bool" where
  "stats_wf st \<longleftrightarrow> distinct (map xt_TopicName st) \<and> (\<forall>t \<in> set st. distinct (map xc_ChannelName (xt_Channels t)))"

abbreviation topic_in :: "NsqdTopicStats list \<Rightarrow> string \<Rightarrow> NsqdTopicStats" where
  "topic_in st T \<equiv> find_last xt_TopicName empty_TopicStats T st"

abbreviation channel_in :: "NsqdTopicStats \<Rightarrow> string \<Rightarrow> NsqdChannelStats" where
  "channel_in t C \<equiv> find_last xc_ChannelName empty_ChannelStats C (xt_Channels t)"

text \<open>The value of a counter in a snapshot, and whether the snapshot has the topic or channel it belongs to.\<close>

fun counter_value :: "NsqdTopicStats list \<Rightarrow> statsd_key \<Rightarrow> u64" where
  "counter_value st (TopicKey T field) =
     (if field = ''message_count'' then xt_MessageCount (topic_in st T)
      else if field = ''message_bytes'' then xt_MessageBytes (topic_in st T) else 0)"
| "counter_value st (ChannelKey T C field) =
     (let c = channel_in (topic_in st T) C in
      if field = ''message_count'' then xc_MessageCount c else if field = ''requeue_count'' then xc_RequeueCount c
      else if field = ''timeout_count'' then xc_TimeoutCount c else 0)"
| "counter_value st (MemKey field) = 0"

fun counter_present :: "NsqdTopicStats list \<Rightarrow> statsd_key \<Rightarrow> bool" where
  "counter_present st (TopicKey T field) = (T \<in> xt_TopicName ` set st)"
| "counter_present st (ChannelKey T C field) =
     (T \<in> xt_TopicName ` set st \<and> C \<in> xc_ChannelName ` set (xt_Channels (topic_in st T)))"
| "counter_present st (MemKey field) = False"

fun increment :: "statsd_key \<Rightarrow> metric \<Rightarrow> int" where
  "increment k (Counter k' v) = (if k' = k then v else 0)"
| "increment k (Gauge k' v) = 0"

definition sent :: "statsd_key \<Rightarrow> metric list \<Rightarrow> int" where
  "sent k mts = sum_list (map (increment k) mts)"

lemma sent_simps [simp]: "sent k [] = 0" "sent k (m # ms) = increment k m + sent k ms" "sent k (xs @ ys) = sent k xs + sent k ys"
  by (simp_all add: sent_def)

lemma sent_latency [simp]: "sent k (latency_metrics g items) = 0"
  by (induction items) (auto simp: latency_metrics_def sent_def)

text \<open>Of a list of blocks with distinct names, only the block with the name of the key counts.\<close>

lemma sent_concat:
  assumes "\<And>x. x \<in> set xs \<Longrightarrow> name_of x \<noteq> n \<Longrightarrow> sent k (g x) = 0" "distinct (map name_of xs)" "n \<in> name_of ` set xs"
  shows "sent k (concat (map g xs)) = sent k (g (find_last name_of d n xs))"
  using assms
proof (induction xs)
  case (Cons x xs)
  show ?case
  proof (cases "name_of x = n")
    case True
    then have "\<forall>y \<in> set xs. name_of y \<noteq> n" using Cons.prems(2) by (auto simp: image_iff)
    then have "sent k (concat (map g xs)) = 0" using Cons.prems(1) by (induction xs) auto
    then show ?thesis using True by (simp add: find_last_def)
  next
    case False
    then show ?thesis using Cons by (simp add: find_last_def eq_commute [of n])
  qed
qed simp

lemma find_last_mem:
  "n \<in> name_of ` set xs \<Longrightarrow> find_last name_of d n xs \<in> set xs \<and> name_of (find_last name_of d n xs) = n"
  by (induction xs) (auto simp: find_last_def)

lemma sent_channel_other:
  assumes "case k of ChannelKey T C f \<Rightarrow> T \<noteq> t \<or> C \<noteq> xc_ChannelName c | _ \<Rightarrow> True"
  shows "sent k (channel_metrics t l c) = 0"
  using assms by (cases k) (auto simp: channel_metrics_def Let_def)

lemma sent_channels_other:
  assumes "case k of ChannelKey T C f \<Rightarrow> T \<noteq> t | _ \<Rightarrow> True"
  shows "sent k (concat (map (\<lambda>c. channel_metrics t (l c) c) cs)) = 0"
  using assms by (induction cs) (auto simp: sent_channel_other split: statsd_key.splits)

lemma sent_topic_other:
  assumes "case k of TopicKey T f \<Rightarrow> T \<noteq> xt_TopicName t | ChannelKey T C f \<Rightarrow> T \<noteq> xt_TopicName t | MemKey f \<Rightarrow> True"
  shows "sent k (topic_metrics l t) = 0"
  using assms sent_channels_other [where k = k and t = "xt_TopicName t"] by (cases k) (auto simp: topic_metrics_def Let_def)

lemma sent_tick:
  assumes wf: "stats_wf st" and k: "counter_present st k"
  shows "word_of_int (sent k (concat (map (topic_metrics l) st))) = counter_value st k - counter_value l k"
proof (cases k)
  case (TopicKey T f)
  let ?t = "topic_in st T"
  have T: "T \<in> xt_TopicName ` set st" using k TopicKey by simp
  have n: "xt_TopicName ?t = T" using find_last_mem [OF T] by blast
  have "sent k (concat (map (topic_metrics l) st)) = sent k (topic_metrics l ?t)"
    using wf T by (intro sent_concat) (auto simp: TopicKey stats_wf_def intro!: sent_topic_other)
  moreover have "sent k (concat (map (\<lambda>c. channel_metrics T (h c) c) cs)) = 0" for h cs
    by (rule sent_channels_other) (simp add: TopicKey)
  ultimately show ?thesis using n by (simp add: TopicKey topic_metrics_def Let_def)
next
  case (ChannelKey T C f)
  let ?t = "topic_in st T"
  let ?c = "channel_in ?t C"
  have T: "T \<in> xt_TopicName ` set st" and C: "C \<in> xc_ChannelName ` set (xt_Channels ?t)" using k ChannelKey by simp_all
  have n: "xt_TopicName ?t = T" "?t \<in> set st" using find_last_mem [OF T] by blast+
  have nc: "xc_ChannelName ?c = C" using find_last_mem [OF C] by blast
  have "sent k (concat (map (topic_metrics l) st)) = sent k (topic_metrics l ?t)"
    using wf T by (intro sent_concat) (auto simp: ChannelKey stats_wf_def intro!: sent_topic_other)
  also have "\<dots> = sent k (concat (map (\<lambda>c. channel_metrics T (channel_in (topic_in l T) (xc_ChannelName c)) c) (xt_Channels ?t)))"
    using n by (simp add: ChannelKey topic_metrics_def Let_def)
  also have "\<dots> = sent k (channel_metrics T (channel_in (topic_in l T) (xc_ChannelName ?c)) ?c)"
    using wf n C by (intro sent_concat) (auto simp: ChannelKey stats_wf_def intro!: sent_channel_other)
  finally show ?thesis using nc by (simp add: ChannelKey channel_metrics_def Let_def)
next
  case (MemKey f)
  then show ?thesis using k by simp
qed

lemma sent_mem: "counter_present st k \<Longrightarrow> sent k (mem_metrics r ms) = 0"
  by (cases k) (simp_all add: mem_metrics_def)

lemma sent_tick_metrics:
  assumes "stats_wf st" "counter_present st k"
  shows "word_of_int (sent k (tick_metrics opts st ms s)) =
    counter_value (sl_lastStats (tick_state opts st ms s)) k - counter_value (sl_lastStats s) k"
  using sent_tick [OF assms] sent_mem [OF assms(2)] by (simp add: tick_metrics_def tick_state_def)

lemma statsd_loop_counters:
  assumes "statsd_loop interval opts ticks s = Some (pss, s')"
    "\<forall>(dial, st, ms) \<in> set ticks. stats_wf st \<and> counter_present st k"
  shows "\<exists>mss. pss = map (tick_packets opts) mss \<and>
    word_of_int (sent k (concat mss)) = counter_value (sl_lastStats s') k - counter_value (sl_lastStats s) k"
  using assms
proof (induction ticks arbitrary: s pss)
  case (Cons t ticks)
  obtain dial st ms where t: "t = (dial, st, ms)" by (rule prod_cases3)
  obtain packets s1 qss where r: "statsd_tick interval opts dial st ms s = Some (packets, s1)"
    "statsd_loop interval opts ticks s1 = Some (qss, s')" "pss = packets # qss"
    using Cons.prems(1) by (auto simp: t split: option.splits)
  obtain mss where m: "qss = map (tick_packets opts) mss"
    "word_of_int (sent k (concat mss)) = counter_value (sl_lastStats s') k - counter_value (sl_lastStats s1) k"
    using Cons.IH [OF r(2)] Cons.prems(2) by auto
  show ?case
  proof (cases dial)
    case None
    have w: "stats_wf st" "counter_present st k" using Cons.prems(2) by (simp_all add: t)
    have "packets = tick_packets opts (tick_metrics opts st ms s)" "s1 = tick_state opts st ms s"
      using r(1) None by (auto simp: statsd_tick_def spread_Flush_def split: option.splits if_splits)
    then show ?thesis
      using m r(3) sent_tick_metrics [OF w, of opts ms s]
      by (intro exI [of _ "tick_metrics opts st ms s # mss"]) (simp add: wi_hom_add [symmetric])
  next
    case (Some e)
    then have "packets = []" "s1 = s" using r(1) by (simp_all add: statsd_tick_def)
    then show ?thesis
      using m r(3) tick_packets_empty [of opts "[]"] by (intro exI [of _ "[] # mss"]) simp
  qed
qed simp

lemma counter_value_none [simp]: "counter_value [] k = 0"
  by (cases k) (simp_all add: find_last_def empty_TopicStats_def empty_ChannelStats_def Let_def)

section \<open>Snapshots of the daemon\<close>

definition names_match :: "('a \<Rightarrow> string) \<Rightarrow> (string \<times> 'a) list \<Rightarrow> bool" where
  "names_match name_of m \<longleftrightarrow> distinct (map fst m) \<and> (\<forall>(k, v) \<in> set m. name_of v = k)"

lemma names_match_distinct: "names_match name_of m \<Longrightarrow> distinct (map name_of (map snd m))"
proof -
  assume "names_match name_of m"
  then have "distinct (map fst m)" "map name_of (map snd m) = map fst m" by (auto simp: names_match_def)
  then show ?thesis by (simp only:)
qed

lemma select_named_distinct:
  assumes "names_match name_of m" "select_named name_of n m = Some vs"
  shows "distinct (map name_of vs) \<and> set vs \<subseteq> snd ` set m"
proof (cases "n = []")
  case True
  then have vs: "vs = sort_key name_of (map snd m)" using assms(2) by (simp add: select_named_def)
  have "mset (map name_of vs) = mset (map name_of (map snd m))" by (simp only: vs mset_map mset_sort)
  then have "distinct (map name_of vs)" using names_match_distinct [OF assms(1)] mset_eq_imp_distinct_iff by blast
  then show ?thesis by (simp add: vs)
next
  case False
  then show ?thesis using assms(2) by (force simp: select_named_def split: option.splits dest: map_of_SomeD)
qed

lemma topic_stats_names:
  assumes "names_match c_name (t_channelMap t)" "topic_stats x ops ch inc cs t = Some ts"
  shows "xt_TopicName ts = t_name t \<and> distinct (map xc_ChannelName (xt_Channels ts))"
proof -
  obtain vs where vs: "select_named c_name ch (t_channelMap t) = Some vs"
    "ts = NewTopicStats x t (map (channel_stats x ops inc cs) vs)"
    using assms(2) by (auto simp: topic_stats_def split: option.splits)
  have "map xc_ChannelName (map (channel_stats x ops inc cs) vs) = map c_name vs"
    by (simp add: channel_stats_def NewChannelStats_def)
  then have "distinct (map xc_ChannelName (map (channel_stats x ops inc cs) vs))"
    using select_named_distinct [OF assms(1) vs(1)] by (simp only:)
  then show ?thesis by (simp add: vs(2) NewTopicStats_def)
qed

lemma GetStats_wf:
  assumes "names_match t_name (n_topicMap n)" "\<forall>(k, t) \<in> set (n_topicMap n). names_match c_name (t_channelMap t)"
  shows "stats_wf (GetStats x ops topic ch inc cs n)"
proof (cases "select_named t_name topic (n_topicMap n)")
  case None
  then show ?thesis by (simp add: GetStats_def stats_wf_def)
next
  case (Some ts)
  note d = select_named_distinct [OF assms(1) Some]
  have c: "names_match c_name (t_channelMap t)" if "t \<in> set ts" for t
    using d that assms(2) by fastforce
  have "distinct (map xt_TopicName (List.map_filter (topic_stats x ops ch inc cs) us)) \<and>
      xt_TopicName ` set (List.map_filter (topic_stats x ops ch inc cs) us) \<subseteq> t_name ` set us"
    if "set us \<subseteq> set ts" "distinct (map t_name us)" for us
    using that
  proof (induction us)
    case (Cons u us)
    then show ?case
      using topic_stats_names [OF c, of u x ops ch inc cs]
      by (cases "topic_stats x ops ch inc cs u") (auto simp: map_filter_simps)
  qed (simp add: map_filter_simps)
  moreover have "distinct (map xc_ChannelName (xt_Channels s))"
    if "s \<in> set (List.map_filter (topic_stats x ops ch inc cs) ts)" for s
    using that topic_stats_names [OF c] by (auto simp: List.map_filter_def)
  ultimately show ?thesis using d by (simp add: GetStats_def Some stats_wf_def)
qed


definition sample_stats_env :: stats_env where
  "sample_stats_env = \<lparr>se_addr = (\<lambda>_. ''a''), se_tls = (\<lambda>_. \<lparr>tc_Version = 0, tc_CipherSuite = 0, tc_NegotiatedProtocol = [],
     tc_NegotiatedProtocolIsMutual = False\<rparr>), se_channel_latency = (\<lambda>_. []), se_topic_latency = (\<lambda>_. [])\<rparr>"

definition sample_mem :: memStats where
  "sample_mem = getMemStats \<lparr>ms_HeapObjects = 1, ms_HeapIdle = 2, ms_HeapInuse = 3, ms_HeapReleased = 4, ms_NextGC = 5,
     ms_NumGC = 2, ms_PauseNs = [3000, 1000, 0]\<rparr>"

definition counting_nsqd :: "u64 \<Rightarrow> ioState NSQD" where
  "counting_nsqd k = sample_nsqd\<lparr>n_topicMap := [(''t'', sample_topic\<lparr>t_name := ''t'', t_channelMap := [], t_messageCount := k\<rparr>)]\<rparr>"

definition sample_ticks :: "(go_error option \<times> ioState NSQD \<times> cstore \<times> memStats) list" where
  "sample_ticks = [(None, counting_nsqd 5, sample_client, sample_mem), (Some ''no route'', counting_nsqd 6, sample_client, sample_mem),
     (None, counting_nsqd 3, sample_client, sample_mem)]"

lemma counting_stats:
  "\<exists>t. GetStats sample_stats_env disk_ops [] [] False cs (counting_nsqd k) = [t] \<and> xt_TopicName t = ''t'' \<and>
     xt_MessageCount t = k \<and> xt_Channels t = [] \<and> xt_E2eProcessingLatency t = []"
  by (simp add: GetStats_def counting_nsqd_def select_named_def topic_stats_def NewTopicStats_def map_filter_simps
      sample_stats_env_def)


theorem statsd_packets_hold_whole_lines_witness:
  "\<exists>packets s' groups. statsd_tick (5 * Second) (NewStatsdOptions\<lparr>so_UDPPacketSize := 40\<rparr>) None [] sample_mem statsd_init =
       Some (packets, s') \<and> packets = map concat groups \<and> 1 < length groups \<and>
     concat groups = map (statsd_line ''nsq.%s'') (mem_metrics 0 sample_mem)"
proof -
  let ?o = "NewStatsdOptions\<lparr>so_UDPPacketSize := 40\<rparr>"
  let ?r = "statsd_tick (5 * Second) ?o None [] sample_mem statsd_init"
  have r: "?r \<noteq> None \<and> 1 < length (fst (the ?r))" by code_simp
  then obtain packets s' where p: "?r = Some (packets, s')" by (cases ?r) auto
  have "tick_metrics ?o [] sample_mem statsd_init = mem_metrics 0 sample_mem" "so_Prefix ?o = ''nsq.%s''"
    by (simp_all add: tick_metrics_def statsd_init_def NewStatsdOptions_def)
  with statsd_packets_hold_whole_lines [OF p] p r show ?thesis by auto
qed

end
