(* ===== verification/Nsq_DoStatsProps.thy ===== *)
theory Nsq_DoStatsProps
  imports Nsq_NsqdStats Nsq_StatsdProps
begin

text \<open>
  The statistics of one channel are the entry for it in the statistics of the daemon: asking for a topic and a channel
  selects, and changes nothing else.
\<close>

section \<open>Selection by name\<close>

lemma find_SomeD: "find P xs = Some x \<Longrightarrow> P x \<and> x \<in> set xs"
  by (induction xs) (auto split: if_splits)

lemma find_named:
  assumes "names_match name_of m"
  shows "find (\<lambda>v. name_of v = n) (sort_key name_of (map snd m)) = map_of m n"
proof (cases "map_of m n")
  case None
  then have "name_of v \<noteq> n" if "v \<in> snd ` set m" for v
    using that assms by (force simp: names_match_def map_of_eq_None_iff)
  then show ?thesis using None by (simp add: find_None_iff)
next
  case (Some v)
  then have v: "(n, v) \<in> set m" by (rule map_of_SomeD)
  have one: "w = v" if w: "w \<in> snd ` set m" "name_of w = n" for w
  proof -
    obtain k where k: "(k, w) \<in> set m" using w(1) by auto
    then have "k = n" using assms w(2) by (auto simp: names_match_def)
    then show ?thesis using k Some assms by (simp add: names_match_def)
  qed
  have "find (\<lambda>v. name_of v = n) (sort_key name_of (map snd m)) \<noteq> None"
  proof
    assume "find (\<lambda>v. name_of v = n) (sort_key name_of (map snd m)) = None"
    then have "\<forall>w \<in> snd ` set m. name_of w \<noteq> n" by (simp add: find_None_iff)
    moreover have "v \<in> snd ` set m" using v by force
    moreover have "name_of v = n" using v assms by (auto simp: names_match_def)
    ultimately show False by blast
  qed
  then obtain w where w: "find (\<lambda>v. name_of v = n) (sort_key name_of (map snd m)) = Some w" by auto
  then have "name_of w = n" "w \<in> snd ` set m" using find_SomeD [OF w] by simp_all
  then show ?thesis using w one Some by simp
qed

lemma map_filter_named:
  assumes "distinct (map name_of us)"
  shows "List.map_filter (\<lambda>u. if name_of u = n then g u else None) us =
    (case find (\<lambda>u. name_of u = n) us of None \<Rightarrow> [] | Some u \<Rightarrow> (case g u of None \<Rightarrow> [] | Some v \<Rightarrow> [v]))"
  using assms
proof (induction us)
  case (Cons u us)
  have "List.map_filter (\<lambda>u. if name_of u = n then g u else None) us = []" if "name_of u = n"
    using that Cons.prems by (induction us) (auto simp: map_filter_simps)
  then show ?case using Cons by (auto simp: map_filter_simps split: option.split)
qed (simp add: map_filter_simps)

lemma find_map: "find P (map f xs) = map_option f (find (P \<circ> f) xs)"
  by (induction xs) auto

definition daemon_named :: "'b NSQD \<Rightarrow> bool" where
  "daemon_named n \<longleftrightarrow> names_match t_name (n_topicMap n) \<and> (\<forall>(k, t) \<in> set (n_topicMap n). names_match c_name (t_channelMap t))"

lemma topic_stats_all: "topic_stats x ops [] inc cs t =
    Some (NewTopicStats x t (map (channel_stats x ops inc cs) (sort_key c_name (map snd (t_channelMap t)))))"
  by (simp add: topic_stats_def select_named_def)

lemma GetStats_all:
  "GetStats x ops [] [] inc cs n =
     map (\<lambda>t. NewTopicStats x t (map (channel_stats x ops inc cs) (sort_key c_name (map snd (t_channelMap t)))))
       (sort_key t_name (map snd (n_topicMap n)))"
  by (simp add: GetStats_def select_named_def topic_stats_all List.map_filter_def)

lemma topic_stats_one:
  assumes "names_match c_name (t_channelMap t)" "C \<noteq> []"
  shows "topic_stats x ops C inc cs t =
    map_option (\<lambda>c. NewTopicStats x t [c]) (find (\<lambda>c. xc_ChannelName c = C)
      (map (channel_stats x ops inc cs) (sort_key c_name (map snd (t_channelMap t)))))"
proof -
  have "(\<lambda>c. xc_ChannelName c = C) \<circ> channel_stats x ops inc cs = (\<lambda>c. c_name c = C)"
    by (simp add: fun_eq_iff channel_stats_def NewChannelStats_def)
  then show ?thesis
    using find_named [OF assms(1), of C] assms(2)
    by (simp add: topic_stats_def select_named_def find_map split: option.split)
qed

definition restrict_stats :: "string \<Rightarrow> string \<Rightarrow> NsqdTopicStats list \<Rightarrow> NsqdTopicStats list" where
  "restrict_stats T C st =
     List.map_filter (\<lambda>t. if xt_TopicName t = T
       then map_option (\<lambda>c. t\<lparr>xt_Channels := [c]\<rparr>) (find (\<lambda>c. xc_ChannelName c = C) (xt_Channels t)) else None) st"

lemma GetStats_restricted:
  assumes "daemon_named n" "T \<noteq> []" "C \<noteq> []"
  shows "GetStats x ops T C inc cs n = restrict_stats T C (GetStats x ops [] [] inc cs n)"
proof -
  let ?f = "\<lambda>t. NewTopicStats x t (map (channel_stats x ops inc cs) (sort_key c_name (map snd (t_channelMap t))))"
  let ?ts = "sort_key t_name (map snd (n_topicMap n))"
  have nm: "names_match t_name (n_topicMap n)" using assms(1) by (simp add: daemon_named_def)
  have d: "distinct (map xt_TopicName (map ?f ?ts))"
  proof -
    have "map xt_TopicName (map ?f ?ts) = map t_name ?ts" by (simp add: NewTopicStats_def)
    moreover have "distinct (map t_name ?ts)"
      using select_named_distinct [OF nm, of "[]" ?ts] by (simp add: select_named_def)
    ultimately show ?thesis by (simp only:)
  qed
  have fd: "find (\<lambda>t. xt_TopicName t = T) (map ?f ?ts) = map_option ?f (map_of (n_topicMap n) T)"
    using find_named [OF nm, of T] by (simp add: find_map comp_def NewTopicStats_def)
  show ?thesis
  proof (cases "map_of (n_topicMap n) T")
    case None
    then show ?thesis
      using fd by (simp add: restrict_stats_def GetStats_all map_filter_named [OF d] del: map_map)
        (simp add: GetStats_def select_named_def assms(2))
  next
    case (Some t)
    have "names_match c_name (t_channelMap t)"
      using assms(1) map_of_SomeD [OF Some] by (auto simp: daemon_named_def)
    from topic_stats_one [OF this assms(3)] Some assms(2) have
      "GetStats x ops T C inc cs n = (case map_option (\<lambda>c. NewTopicStats x t [c]) (find (\<lambda>c. xc_ChannelName c = C)
         (map (channel_stats x ops inc cs) (sort_key c_name (map snd (t_channelMap t))))) of None \<Rightarrow> [] | Some v \<Rightarrow> [v])"
      by (simp add: GetStats_def select_named_def map_filter_simps split: option.split)
    moreover have "xt_Channels (?f t) = map (channel_stats x ops inc cs) (sort_key c_name (map snd (t_channelMap t)))"
      "(?f t)\<lparr>xt_Channels := [c]\<rparr> = NewTopicStats x t [c]" for c
      by (simp_all add: NewTopicStats_def)
    ultimately show ?thesis
      using fd Some by (simp add: restrict_stats_def GetStats_all map_filter_named [OF d] del: map_map split: option.split)
  qed
qed

text \<open>The filter of \<open>doStats\<close> finds its work done.\<close>

lemma filter_restricted:
  assumes "distinct (map xt_TopicName st)"
  shows "filter_topics T C (restrict_stats T C st) (restrict_stats T C st) = restrict_stats T C st"
  using map_filter_named [OF assms, of T "\<lambda>t. map_option (\<lambda>c. t\<lparr>xt_Channels := [c]\<rparr>) (find (\<lambda>c. xc_ChannelName c = C) (xt_Channels t))"]
  by (auto simp: restrict_stats_def find_Some_iff split: option.splits)

text \<open>The statistics that \<open>nsqd\<close> reports for one channel of a topic are those of the whole daemon restricted to it: the
  entry of the topic with the entry of the channel alone, or nothing if there is no such topic or channel.\<close>

theorem stats_of_channel_are_restricted:
  assumes "NewReqParams req = Inr rp" "param_or_empty ''format'' rp = ''json''" "daemon_named (p_nsqd s)"
    "param_or_empty ''topic'' rp = T" "T \<noteq> []" "param_or_empty ''channel'' rp = C" "C \<noteq> []"
    "map_of boolParams (param_or_empty ''include_clients'' rp) = Some inc"
  shows "\<exists>reply. http_doStats r ops req s = Inr (DValue (StatsValue reply)) \<and>
    sy_Topics reply = restrict_stats T C (GetStats (sr_env r) ops [] [] inc (p_clients s) (p_nsqd s))"
proof -
  have "stats_wf (GetStats (sr_env r) ops [] [] inc (p_clients s) (p_nsqd s))"
    using assms(3) by (intro GetStats_wf) (simp_all add: daemon_named_def)
  then have "distinct (map xt_TopicName (GetStats (sr_env r) ops [] [] inc (p_clients s) (p_nsqd s)))"
    by (simp add: stats_wf_def)
  then show ?thesis
    using assms GetStats_restricted [OF assms(3,5,7), of "sr_env r" ops inc "p_clients s"]
    by (simp add: http_doStats_def Let_def filter_restricted)
qed

definition sample_stats_request :: stats_request where
  "sample_stats_request = \<lparr>sr_env = sample_stats_env, sr_mem = \<lparr>ms_HeapObjects = 1, ms_HeapIdle = 2, ms_HeapInuse = 3,
     ms_HeapReleased = 4, ms_NextGC = 5, ms_NumGC = 0, ms_PauseNs = []\<rparr>, sr_version = ''v'', sr_versionString = ''nsqd v'',
     sr_startTime = 0, sr_startText = [], sr_uptime = [], sr_now = 0, sr_duration = (\<lambda>_. []), sr_latency = (\<lambda>_. [])\<rparr>"

definition sample_stats_query :: http_req where
  "sample_stats_query = \<lparr>q_Method = ''GET'', q_Path = ''/stats'', q_Query = Inr [(''format'', ''json'', []), (''topic'', ''t'', []),
     (''channel'', ''ch'', []), (''include_clients'', ''false'', [])], q_Body = Inr [], q_ContentLength = 0\<rparr>"

definition two_channels :: "ioState proto" where
  "two_channels = \<lparr>p_nsqd = sample_nsqd\<lparr>n_topicMap := [(''t'', sample_topic\<lparr>t_name := ''t'',
       t_channelMap := [(''ch'', NewChannel sample_opts ''t'' ''ch'' sample_queue), (''cz'', NewChannel sample_opts ''t'' ''cz'' sample_queue)]\<rparr>)]\<rparr>,
     p_clients = sample_client\<rparr>"

theorem stats_of_channel_are_restricted_witness:
  "\<exists>reply t. http_doStats sample_stats_request disk_ops sample_stats_query two_channels = Inr (DValue (StatsValue reply)) \<and>
     sy_Topics reply = [t] \<and> map xc_ChannelName (xt_Channels t) = [''ch'']"
proof -
  let ?rp = "\<lparr>rp_Values = [(''format'', ''json'', []), (''topic'', ''t'', []), (''channel'', ''ch'', []),
     (''include_clients'', ''false'', [])], rp_Body = []\<rparr>"
  have rp: "NewReqParams sample_stats_query = Inr ?rp" by (simp add: NewReqParams_def sample_stats_query_def)
  have j: "param_or_empty ''format'' ?rp = ''json''" and T: "param_or_empty ''topic'' ?rp = ''t''"
    and C: "param_or_empty ''channel'' ?rp = ''ch''"
    and i: "map_of boolParams (param_or_empty ''include_clients'' ?rp) = Some False"
    by (simp_all add: param_or_empty_def ReqParams_Get_def boolParams_def)
  have cn: "c_name (NewChannel sample_opts a b q) = b" for a b q
    by (simp add: NewChannel_def Channel_initPQ_def Let_def)
  have d: "daemon_named (p_nsqd two_channels)"
    by (simp add: daemon_named_def names_match_def two_channels_def cn)
  have "''t'' \<noteq> []" "''ch'' \<noteq> []" by simp_all
  from stats_of_channel_are_restricted [OF rp j d T this(1) C this(2) i, of sample_stats_request disk_ops]
  obtain reply where h: "http_doStats sample_stats_request disk_ops sample_stats_query two_channels = Inr (DValue (StatsValue reply))"
    and y: "sy_Topics reply = restrict_stats ''t'' ''ch'' (GetStats (sr_env sample_stats_request) disk_ops [] [] False
      (p_clients two_channels) (p_nsqd two_channels))" by blast
  have "\<exists>t. sy_Topics reply = [t] \<and> map xc_ChannelName (xt_Channels t) = [''ch'']"
    unfolding y by (simp add: GetStats_all two_channels_def restrict_stats_def map_filter_simps NewTopicStats_def channel_stats_def
        NewChannelStats_def cn)
  then obtain t where "sy_Topics reply = [t]" "map xc_ChannelName (xt_Channels t) = [''ch'']" by (elim exE conjE)
  with h show ?thesis by (intro exI conjI)
qed

section \<open>Configuration\<close>

text \<open>Every option with a flag can be read under its name; the others cannot.\<close>

lemma config_get_names:
  "nsqd_getOptByCfgName ''nsqlookupd_tcp_addresses'' = Some ''NSQLookupdTCPAddresses''"
  "nsqd_getOptByCfgName ''log_level'' = Some ''LogLevel''"
  "nsqd_getOptByCfgName ''queue_scan_interval'' = None"
  by code_simp+

text \<open>A PUT of an option that is accepted can be read back, and notifies the lookup loop.\<close>

lemma config_put_notifies:
  "config_put unmarshal opt body s = (None, s') \<Longrightarrow>
     nc_notified s' \<and> (\<exists>f. config_get opt = Inr (DValue (OptionField f)))"
  using config_get_names
  by (auto simp: config_put_def config_get_def Let_def split: if_splits prod.splits option.splits sum.splits)

end
