(* ===== verification/Nsq_FileLogger.thy ===== *)
theory Nsq_FileLogger
  imports Nsq_Files Nsq_ClusterInfo
begin

text \<open>
  \<open>apps/nsq_to_file\<close>: a consumer that writes the bodies of the messages of a topic to files and rotates the files
  (\<open>file_logger.go\<close>, \<open>strftime.go\<close>), and the discovery of topics (\<open>topic_discoverer.go\<close>). The event a \<open>select\<close> of the
  router receives is an argument of its step. The clock is the list of its readings, the last of which stays. A gzip
  writer keeps the bytes it is given and writes one member when it is closed: the member is the argument \<open>gz\<close>, and
  \<open>time.Format\<close> the argument \<open>format\<close>. Of the client library \<open>go-nsq\<close> the model has the calls to it (\<open>Finish\<close>, \<open>Stop\<close>)
  and \<open>IsStarved\<close>, an argument.
\<close>

section \<open>Options\<close>

record FileOptions =
  fo_Topics :: "string list"
  fo_TopicPattern :: string
  fo_Channel :: string
  fo_NSQDTCPAddrs :: "string list"
  fo_NSQLookupdHTTPAddrs :: "string list"
  fo_MaxInFlight :: int
  fo_OutputDir :: string
  fo_WorkDir :: string
  fo_DatetimeFormat :: string
  fo_FilenameFormat :: string
  fo_HostIdentifier :: string
  fo_GZIPLevel :: int
  fo_GZIP :: bool
  fo_SkipEmptyFiles :: bool
  fo_RotateSize :: int
  fo_RotateInterval :: int

definition NewFileOptions :: FileOptions where
  "NewFileOptions =
     \<lparr>fo_Topics = [], fo_TopicPattern = [], fo_Channel = ''nsq_to_file'', fo_NSQDTCPAddrs = [],
      fo_NSQLookupdHTTPAddrs = [], fo_MaxInFlight = 200, fo_OutputDir = ''/tmp'', fo_WorkDir = [],
      fo_DatetimeFormat = ''%Y-%m-%d_%H'', fo_FilenameFormat = ''<TOPIC>.<HOST><REV>.<DATETIME>.log'',
      fo_HostIdentifier = [], fo_GZIPLevel = 6, fo_GZIP = False, fo_SkipEmptyFiles = False, fo_RotateSize = 0,
      fo_RotateInterval = 0\<rparr>"

section \<open>Names of files\<close>

definition strftime_conversion :: "(char \<times> string) list" where
  "strftime_conversion =
     [(CHR ''B'', ''January''), (CHR ''b'', ''Jan''), (CHR ''m'', ''01''), (CHR ''A'', ''Monday''), (CHR ''a'', ''Mon''),
      (CHR ''d'', ''02''), (CHR ''H'', ''15''), (CHR ''I'', ''03''), (CHR ''M'', ''04''), (CHR ''S'', ''05''),
      (CHR ''Y'', ''2006''), (CHR ''y'', ''06''), (CHR ''p'', ''PM''), (CHR ''Z'', ''MST''), (CHR ''z'', ''-0700''),
      (CHR ''%'', ''%'')]"

fun strftime_layout :: "string \<Rightarrow> string" where
  "strftime_layout [] = []"
| "strftime_layout [c] = [c]"
| "strftime_layout (c # d # s) =
     (if c = CHR ''%'' then
        (case map_of strftime_conversion d of
           Some l \<Rightarrow> l @ strftime_layout s
         | None \<Rightarrow> c # strftime_layout (d # s))
      else c # strftime_layout (d # s))"

definition strftime :: "(string \<Rightarrow> int \<Rightarrow> string) \<Rightarrow> string \<Rightarrow> int \<Rightarrow> string" where
  "strftime format fmt t = format (strftime_layout fmt) t"

definition computeFilenameFormat :: "go_error + string \<Rightarrow> int \<Rightarrow> FileOptions \<Rightarrow> string \<Rightarrow> go_error + string" where
  "computeFilenameFormat hostname pid opts topic =
     (case hostname of
        Inl e \<Rightarrow> Inl e
      | Inr host \<Rightarrow>
          let shortHostname = hd (strings_Split (CHR ''.'') host);
              identifier = (if fo_HostIdentifier opts = [] then shortHostname
                            else strings_Replace ''<HOSTNAME>'' host
                                   (strings_Replace ''<SHORT_HOST>'' shortHostname (fo_HostIdentifier opts)));
              needsRev = (fo_GZIP opts \<or> 0 < fo_RotateSize opts \<or> 0 < fo_RotateInterval opts \<or>
                          fo_WorkDir opts \<noteq> fo_OutputDir opts);
              cff = fo_FilenameFormat opts
          in if needsRev \<and> \<not> Contains cff ''<REV>''
             then Inl ''missing <REV> in --filename-format when gzip, rotation, or work dir enabled''
             else let cff1 = (if needsRev then cff else strings_Replace ''<REV>'' [] cff);
                      cff2 = strings_Replace ''<TOPIC>'' topic cff1;
                      cff3 = strings_Replace ''<HOST>'' identifier cff2;
                      cff4 = strings_Replace ''<PID>'' (decimal pid) cff3
                  in Inr (if fo_GZIP opts \<and> \<not> HasSuffix cff4 ''.gz'' then cff4 @ ''.gz'' else cff4))"

section \<open>The state of a logger\<close>

record nsq_Message =
  nm_ID :: bytes
  nm_Body :: bytes

record gzip_Writer =
  gz_pending :: bytes
  gz_closed :: bool

datatype log_writer = WNil | WFile | WGzip

record FileLogger =
  fl_opts :: FileOptions
  fl_topic :: string
  fl_out :: "os_file option"
  fl_writer :: log_writer
  fl_gzipWriter :: "gzip_Writer option"
  fl_filenameFormat :: string
  fl_filename :: string
  fl_openTime :: int
  fl_filesize :: int
  fl_rev :: nat
  fl_output :: "nsq_Message list"
  fl_finished :: "nsq_Message list"
  fl_stops :: nat
  fl_fs :: fs
  fl_clock :: "int list"

text \<open>What runs, has called \<open>os.Exit\<close> (or panicked, which ends the process too), or has used up the rounds it was
  given for its loops.\<close>

datatype 'a process = Running 'a | Exited 'a | Spinning

fun proc_then :: "'a process \<Rightarrow> ('a \<Rightarrow> 'a process) \<Rightarrow> 'a process" where
  "proc_then (Running f) k = k f"
| "proc_then (Exited f) k = Exited f"
| "proc_then Spinning k = Spinning"

record file_env =
  v_format :: "string \<Rightarrow> int \<Rightarrow> string"
  v_gz :: "int \<Rightarrow> bytes \<Rightarrow> bytes"
  v_fuel :: nat

definition newFileLogger :: "FileOptions \<Rightarrow> string \<Rightarrow> string \<Rightarrow> int list \<Rightarrow> fs \<Rightarrow> FileLogger" where
  "newFileLogger opts topic fmt clock s =
     \<lparr>fl_opts = opts, fl_topic = topic, fl_out = None, fl_writer = WNil, fl_gzipWriter = None, fl_filenameFormat = fmt,
      fl_filename = [], fl_openTime = 0, fl_filesize = 0, fl_rev = 0, fl_output = [], fl_finished = [], fl_stops = 0,
      fl_fs = s, fl_clock = clock\<rparr>"

text \<open>The consumer and its two ways to connect belong to \<open>go-nsq\<close>: their results are arguments.\<close>

definition NewFileLogger ::
    "go_error + string \<Rightarrow> int \<Rightarrow> go_error option \<Rightarrow> go_error option \<Rightarrow> go_error option \<Rightarrow>
       FileOptions \<Rightarrow> string \<Rightarrow> int list \<Rightarrow> fs \<Rightarrow> go_error + FileLogger" where
  "NewFileLogger hostname pid consumer nsqds lookupds opts topic clock s =
     (case computeFilenameFormat hostname pid opts topic of
        Inl e \<Rightarrow> Inl e
      | Inr fmt \<Rightarrow>
          (case consumer of
             Some e \<Rightarrow> Inl e
           | None \<Rightarrow>
               (case nsqds of
                  Some e \<Rightarrow> Inl e
                | None \<Rightarrow>
                    (case lookupds of
                       Some e \<Rightarrow> Inl e
                     | None \<Rightarrow> Inr (newFileLogger opts topic fmt clock s)))))"

section \<open>Writing\<close>

fun gzip_Close :: "(bytes \<Rightarrow> bytes) \<Rightarrow> os_file \<Rightarrow> gzip_Writer \<Rightarrow> fs \<Rightarrow> os_err option \<times> gzip_Writer \<times> fs" where
  "gzip_Close member h g s =
     (if gz_closed g then (None, g, s)
      else case file_Write (member (gz_pending g)) h s of (_, e, s1) \<Rightarrow> (e, g\<lparr>gz_closed := True\<rparr>, s1))"

definition fl_Write :: "bytes \<Rightarrow> FileLogger \<Rightarrow> os_err option \<times> FileLogger" where
  "fl_Write p f =
     (case (fl_writer f, fl_out f, fl_gzipWriter f) of
        (WFile, Some h, _) \<Rightarrow>
          (case file_Write p h (fl_fs f) of
             (n, e, s) \<Rightarrow> (e, f\<lparr>fl_fs := s, fl_filesize := fl_filesize f + int n\<rparr>))
      | (WGzip, _, Some g) \<Rightarrow>
          if gz_closed g then (Some ErrOther, f)
          else (None, f\<lparr>fl_gzipWriter := Some (g\<lparr>gz_pending := gz_pending g @ p\<rparr>),
                        fl_filesize := fl_filesize f + int (length p)\<rparr>)
      | _ \<Rightarrow> (Some ErrOther, f))"

definition fl_Sync :: "file_env \<Rightarrow> FileLogger \<Rightarrow> os_err option \<times> FileLogger" where
  "fl_Sync v f =
     (case fl_out f of
        None \<Rightarrow> (Some ErrOther, f)
      | Some h \<Rightarrow>
          (case fl_gzipWriter f of
             Some g \<Rightarrow>
               (case gzip_Close (v_gz v (fo_GZIPLevel (fl_opts f))) h g (fl_fs f) of
                  (Some e, g1, s1) \<Rightarrow> (Some e, f\<lparr>fl_gzipWriter := Some g1, fl_fs := s1\<rparr>)
                | (None, g1, s1) \<Rightarrow>
                    (case file_Sync h s1 of
                       (e, s2) \<Rightarrow> (e, f\<lparr>fl_fs := s2, fl_gzipWriter := Some \<lparr>gz_pending = [], gz_closed = False\<rparr>,
                                       fl_writer := WGzip\<rparr>)))
           | None \<Rightarrow> (case file_Sync h (fl_fs f) of (e, s1) \<Rightarrow> (e, f\<lparr>fl_fs := s1\<rparr>))))"

section \<open>Closing a file\<close>

definition exclusiveRename :: "string \<Rightarrow> string \<Rightarrow> fs \<Rightarrow> os_err option \<times> fs" where
  "exclusiveRename src dst s =
     (case os_Link src dst s of
        (Some e, s1) \<Rightarrow> (Some e, s1)
      | (None, s1) \<Rightarrow> os_Remove src s1)"

definition rev_name :: "string \<Rightarrow> nat \<Rightarrow> string" where
  "rev_name tmpl i = strings_Replace ''<REV>'' (CHR ''-'' # pad6 i) tmpl"

text \<open>The loop that looks for a name that is not taken.\<close>

fun rename_loop :: "nat \<Rightarrow> string \<Rightarrow> string \<Rightarrow> nat \<Rightarrow> FileLogger \<Rightarrow> FileLogger process" where
  "rename_loop 0 src tmpl i f = Spinning"
| "rename_loop (Suc n) src tmpl i f =
     (case exclusiveRename src (rev_name tmpl i) (fl_fs f) of
        (None, s) \<Rightarrow> Running (f\<lparr>fl_fs := s\<rparr>)
      | (Some ErrExist, s) \<Rightarrow> rename_loop n src tmpl (Suc i) (f\<lparr>fl_fs := s\<rparr>)
      | (Some _, s) \<Rightarrow> Exited (f\<lparr>fl_fs := s\<rparr>))"

text \<open>Closing the streams, up to the move to the output directory.\<close>

definition close_streams :: "file_env \<Rightarrow> os_file \<Rightarrow> FileLogger \<Rightarrow> FileLogger process" where
  "close_streams v h f =
     (case (case fl_gzipWriter f of
              None \<Rightarrow> (None, None, fl_fs f)
            | Some g \<Rightarrow> (case gzip_Close (v_gz v (fo_GZIPLevel (fl_opts f))) h g (fl_fs f) of
                           (e, g1, s1) \<Rightarrow> (e, Some g1, s1))) of
        (Some e, g1, s1) \<Rightarrow> Exited (f\<lparr>fl_gzipWriter := g1, fl_fs := s1\<rparr>)
      | (None, g1, s1) \<Rightarrow>
          (case file_Sync h s1 of
             (Some e, s2) \<Rightarrow> Exited (f\<lparr>fl_gzipWriter := g1, fl_fs := s2\<rparr>)
           | (None, s2) \<Rightarrow>
               (case file_Close h s2 of
                  (Some e, h1, s3) \<Rightarrow> Exited (f\<lparr>fl_gzipWriter := g1, fl_out := Some h1, fl_fs := s3\<rparr>)
                | (None, h1, s3) \<Rightarrow> Running (f\<lparr>fl_gzipWriter := g1, fl_out := Some h1, fl_fs := s3\<rparr>))))"

text \<open>\<open>Close\<close> returns after the first rename that succeeds, before \<open>f.out = nil\<close>.\<close>

definition move_file :: "file_env \<Rightarrow> os_file \<Rightarrow> FileLogger \<Rightarrow> FileLogger process" where
  "move_file v h f =
     (let src = h_Name h;
          dst = path_Join (fo_OutputDir (fl_opts f)) (TrimPrefix src (fo_WorkDir (fl_opts f)))
      in case exclusiveRename src dst (fl_fs f) of
           (None, s) \<Rightarrow> Running (f\<lparr>fl_fs := s\<rparr>)
         | (Some ErrExist, s) \<Rightarrow>
             proc_then
               (rename_loop (v_fuel v) src
                  (path_Join (fst (path_Split dst)) (snd (path_Split (fl_filename f)))) (fl_rev f + 1) (f\<lparr>fl_fs := s\<rparr>))
               (\<lambda>f1. Running (f1\<lparr>fl_out := None\<rparr>))
         | (Some _, s) \<Rightarrow> Exited (f\<lparr>fl_fs := s\<rparr>))"

definition fl_Close :: "file_env \<Rightarrow> FileLogger \<Rightarrow> FileLogger process" where
  "fl_Close v f =
     (case fl_out f of
        None \<Rightarrow> Running f
      | Some h \<Rightarrow>
          proc_then (close_streams v h f)
            (\<lambda>f1. if fo_WorkDir (fl_opts f1) \<noteq> fo_OutputDir (fl_opts f1) then move_file v h f1
                  else Running (f1\<lparr>fl_out := None\<rparr>)))"

section \<open>Rotation\<close>

definition fl_now :: "FileLogger \<Rightarrow> int \<times> FileLogger" where
  "fl_now f =
     (case fl_clock f of
        [] \<Rightarrow> (0, f)
      | [t] \<Rightarrow> (t, f)
      | t # ts \<Rightarrow> (t, f\<lparr>fl_clock := ts\<rparr>))"

definition currentFilename :: "file_env \<Rightarrow> FileLogger \<Rightarrow> string \<times> FileLogger" where
  "currentFilename v f =
     (case fl_now f of
        (t, f1) \<Rightarrow>
          (strings_Replace ''<DATETIME>'' (strftime (v_format v) (fo_DatetimeFormat (fl_opts f)) t) (fl_filenameFormat f), f1))"

definition needsRotation :: "file_env \<Rightarrow> FileLogger \<Rightarrow> bool \<times> FileLogger" where
  "needsRotation v f =
     (if fl_out f = None then (True, f)
      else case currentFilename v f of
        (filename, f1) \<Rightarrow>
          if filename \<noteq> fl_filename f1 then (True, f1)
          else
            let (byInterval, f2) =
                  (if 0 < fo_RotateInterval (fl_opts f1)
                   then case fl_now f1 of (t, f2) \<Rightarrow> (fo_RotateInterval (fl_opts f1) < t - fl_openTime f1, f2)
                   else (False, f1))
            in if byInterval then (True, f2)
               else (0 < fo_RotateSize (fl_opts f2) \<and> fo_RotateSize (fl_opts f2) < fl_filesize f2, f2))"

definition makeDirFromPath :: "string \<Rightarrow> fs \<Rightarrow> os_err option \<times> fs" where
  "makeDirFromPath p s = (let dir = fst (path_Split p) in if dir \<noteq> [] then os_MkdirAll dir s else (None, s))"

text \<open>The check of the output directory: whether the revision is free there.\<close>

definition check_output :: "string \<Rightarrow> FileLogger \<Rightarrow> (os_err + bool) \<times> FileLogger" where
  "check_output absFilename f =
     (if fo_WorkDir (fl_opts f) = fo_OutputDir (fl_opts f) then (Inr True, f)
      else
        let name = path_Join (fo_OutputDir (fl_opts f)) (TrimPrefix absFilename (fo_WorkDir (fl_opts f))) in
        case makeDirFromPath name (fl_fs f) of
          (Some e, s1) \<Rightarrow> (Inl e, f\<lparr>fl_fs := s1\<rparr>)
        | (None, s1) \<Rightarrow>
            (case os_Stat name s1 of
               (None, s2) \<Rightarrow> (Inr False, f\<lparr>fl_fs := s2\<rparr>)
             | (Some ErrNotExist, s2) \<Rightarrow> (Inr True, f\<lparr>fl_fs := s2\<rparr>)
             | (Some e, s2) \<Rightarrow> (Inl e, f\<lparr>fl_fs := s2\<rparr>)))"

text \<open>One round of the loop that opens a file: \<open>Inr True\<close> is \<open>break\<close>, \<open>Inr False\<close> is \<open>continue\<close>. After a failed \<open>Stat\<close>
  the code does not exit but uses the missing result, which panics.\<close>

definition open_round :: "string \<Rightarrow> FileLogger \<Rightarrow> (os_err + bool) \<times> FileLogger" where
  "open_round fullPath f =
     (let absFilename = rev_name fullPath (fl_rev f) in
      case check_output absFilename f of
        (Inl e, f1) \<Rightarrow> (Inl e, f1)
      | (Inr False, f1) \<Rightarrow> (Inr False, f1)
      | (Inr True, f1) \<Rightarrow>
          (case os_OpenFile (fo_GZIP (fl_opts f1) \<or> 0 < fo_RotateInterval (fl_opts f1)) absFilename (fl_fs f1) of
             (Inl ErrExist, s) \<Rightarrow> (Inr False, f1\<lparr>fl_out := None, fl_fs := s\<rparr>)
           | (Inl e, s) \<Rightarrow> (Inl e, f1\<lparr>fl_out := None, fl_fs := s\<rparr>)
           | (Inr h, s) \<Rightarrow>
               (case file_Stat h s of
                  (Inl e, s1) \<Rightarrow> (Inl e, f1\<lparr>fl_out := Some h, fl_fs := s1\<rparr>)
                | (Inr sz, s1) \<Rightarrow>
                    (Inr (\<not> (0 < fo_RotateSize (fl_opts f1) \<and> fo_RotateSize (fl_opts f1) < sz)),
                     f1\<lparr>fl_out := Some h, fl_fs := s1, fl_filesize := sz\<rparr>))))"

fun open_loop :: "nat \<Rightarrow> string \<Rightarrow> FileLogger \<Rightarrow> FileLogger process" where
  "open_loop 0 fullPath f = Spinning"
| "open_loop (Suc n) fullPath f =
     (case open_round fullPath f of
        (Inl e, f1) \<Rightarrow> Exited f1
      | (Inr True, f1) \<Rightarrow> Running f1
      | (Inr False, f1) \<Rightarrow> open_loop n fullPath (f1\<lparr>fl_rev := fl_rev f1 + 1\<rparr>))"

definition set_writer :: "FileLogger \<Rightarrow> FileLogger" where
  "set_writer f =
     (if fo_GZIP (fl_opts f)
      then f\<lparr>fl_gzipWriter := Some \<lparr>gz_pending = [], gz_closed = False\<rparr>, fl_writer := WGzip\<rparr>
      else f\<lparr>fl_writer := WFile\<rparr>)"

definition open_file :: "file_env \<Rightarrow> FileLogger \<Rightarrow> FileLogger process" where
  "open_file v f =
     (case currentFilename v f of
        (filename, f1) \<Rightarrow>
          let f2 = f1\<lparr>fl_rev := (if filename \<noteq> fl_filename f1 then 0 else fl_rev f1 + 1), fl_filename := filename\<rparr> in
          case fl_now f2 of
            (t, f3) \<Rightarrow>
              let f4 = f3\<lparr>fl_openTime := t\<rparr>; fullPath = path_Join (fo_WorkDir (fl_opts f4)) filename in
              (case makeDirFromPath fullPath (fl_fs f4) of
                 (Some e, s) \<Rightarrow> Exited (f4\<lparr>fl_fs := s\<rparr>)
               | (None, s) \<Rightarrow>
                   proc_then (open_loop (v_fuel v) fullPath (f4\<lparr>fl_fs := s\<rparr>)) (\<lambda>f5. Running (set_writer f5))))"

definition updateFile :: "file_env \<Rightarrow> FileLogger \<Rightarrow> FileLogger process" where
  "updateFile v f = proc_then (fl_Close v f) (open_file v)"

section \<open>The router\<close>

datatype router_event = StopChan | TermChan | HupChan | Tick | LogChan nsq_Message

text \<open>The branches of the \<open>select\<close>, with the flags \<open>sync\<close>, \<open>closeFile\<close> and \<open>exit\<close> they set.\<close>

definition write_message :: "nsq_Message \<Rightarrow> FileLogger \<Rightarrow> FileLogger process" where
  "write_message m f =
     (case fl_Write (nm_Body m) f of
        (Some e, f1) \<Rightarrow> Exited f1
      | (None, f1) \<Rightarrow>
          (case fl_Write [10] f1 of
             (Some e, f2) \<Rightarrow> Exited f2
           | (None, f2) \<Rightarrow>
               if int (length (fl_output f2)) < fo_MaxInFlight (fl_opts f2)
               then Running (f2\<lparr>fl_output := fl_output f2 @ [m]\<rparr>)
               else Exited f2))"

definition router_select :: "file_env \<Rightarrow> router_event \<Rightarrow> FileLogger \<Rightarrow> (bool \<times> bool \<times> bool) \<times> FileLogger process" where
  "router_select v ev f =
     (case ev of
        StopChan \<Rightarrow> ((True, True, True), Running f)
      | TermChan \<Rightarrow> ((True, False, False), Running (f\<lparr>fl_stops := fl_stops f + 1\<rparr>))
      | HupChan \<Rightarrow> ((True, True, False), Running f)
      | Tick \<Rightarrow>
          (case needsRotation v f of
             (True, f1) \<Rightarrow>
               if fo_SkipEmptyFiles (fl_opts f1) then ((True, True, False), Running f1)
               else ((True, False, False), updateFile v f1)
           | (False, f1) \<Rightarrow> ((True, False, False), Running f1))
      | LogChan m \<Rightarrow>
          (case needsRotation v f of
             (due, f1) \<Rightarrow>
               let p = proc_then (if due then updateFile v f1 else Running f1) (write_message m) in
               ((due \<or> (case p of Running f2 \<Rightarrow> int (length (fl_output f2)) = fo_MaxInFlight (fl_opts f2) | _ \<Rightarrow> False),
                 False, False), p)))"

text \<open>Syncing the file and finishing its messages, the last one first.\<close>

definition sync_and_finish :: "file_env \<Rightarrow> FileLogger \<Rightarrow> FileLogger process" where
  "sync_and_finish v f =
     (if fl_output f = [] then Running f
      else case fl_Sync v f of
             (Some e, f1) \<Rightarrow> Exited f1
           | (None, f1) \<Rightarrow> Running (f1\<lparr>fl_finished := fl_finished f1 @ rev (fl_output f1), fl_output := []\<rparr>))"

definition router_step :: "file_env \<Rightarrow> router_event \<Rightarrow> bool \<Rightarrow> FileLogger \<Rightarrow> FileLogger process" where
  "router_step v ev starved f =
     (case router_select v ev f of
        ((sync, closeFile, exit), p) \<Rightarrow>
          proc_then p (\<lambda>f1.
            proc_then (if sync \<or> starved then sync_and_finish v f1 else Running f1) (\<lambda>f2.
              if closeFile then fl_Close v f2 else Running f2)))"

fun router :: "file_env \<Rightarrow> (router_event \<times> bool) list \<Rightarrow> FileLogger \<Rightarrow> FileLogger process" where
  "router v [] f = Running f"
| "router v ((ev, starved) # evs) f =
     (if ev = StopChan then router_step v ev starved f
      else proc_then (router_step v ev starved f) (router v evs))"

definition HandleMessage :: "nsq_Message \<Rightarrow> router_event" where
  "HandleMessage m = LogChan m"

section \<open>Discovery of topics\<close>

text \<open>
  \<open>mk\<close> is \<open>NewFileLogger\<close> for a topic. A logger runs in a goroutine of its own: what the discoverer does to it is the list of
  the events it has sent to it.
\<close>

record TopicDiscoverer =
  td_opts :: FileOptions
  td_topics :: "(string \<times> FileLogger \<times> router_event list) list"

definition newTopicDiscoverer :: "FileOptions \<Rightarrow> TopicDiscoverer" where
  "newTopicDiscoverer opts = \<lparr>td_opts = opts, td_topics = []\<rparr>"

definition isTopicAllowed :: "regexp \<Rightarrow> string \<Rightarrow> TopicDiscoverer \<Rightarrow> bool" where
  "isTopicAllowed compile topic t \<longleftrightarrow>
     (if fo_TopicPattern (td_opts t) = [] then True
      else case compile (fo_TopicPattern (td_opts t)) of None \<Rightarrow> False | Some m \<Rightarrow> m topic)"

fun updateTopics :: "regexp \<Rightarrow> (string \<Rightarrow> go_error + FileLogger) \<Rightarrow> string list \<Rightarrow> TopicDiscoverer \<Rightarrow> TopicDiscoverer" where
  "updateTopics compile mk [] t = t"
| "updateTopics compile mk (topic # topics) t =
     (if map_of (td_topics t) topic \<noteq> None then updateTopics compile mk topics t
      else if \<not> isTopicAllowed compile topic t then updateTopics compile mk topics t
      else case mk topic of
             Inl e \<Rightarrow> updateTopics compile mk topics t
           | Inr fl \<Rightarrow> updateTopics compile mk topics (t\<lparr>td_topics := td_topics t @ [(topic, fl, [])]\<rparr>))"

datatype discover_event = RefreshTick | TermSignal | HupSignal

definition send_all :: "router_event \<Rightarrow> TopicDiscoverer \<Rightarrow> TopicDiscoverer" where
  "send_all ev t = t\<lparr>td_topics := map (\<lambda>(n, fl, evs). (n, fl, evs @ [ev])) (td_topics t)\<rparr>"

text \<open>\<open>run\<close>: a refresh happens only if no topics are configured; the result says whether the loop goes on. An error of any
  \<open>nsqlookupd\<close> makes the loop ignore the topics of the others.\<close>

definition discover_step ::
    "('w, 'v) ClusterInfo \<Rightarrow> 'w \<Rightarrow> regexp \<Rightarrow> (string \<Rightarrow> go_error + FileLogger) \<Rightarrow> discover_event \<Rightarrow> TopicDiscoverer \<Rightarrow>
       bool \<times> TopicDiscoverer" where
  "discover_step ci w compile mk ev t =
     (case ev of
        RefreshTick \<Rightarrow>
          if fo_Topics (td_opts t) \<noteq> [] then (True, t)
          else (case GetLookupdTopics ci (fo_NSQLookupdHTTPAddrs (td_opts t)) w of
                  (newTopics, Some e) \<Rightarrow> (True, t)
                | (newTopics, None) \<Rightarrow> (True, updateTopics compile mk newTopics t))
      | TermSignal \<Rightarrow> (False, send_all TermChan t)
      | HupSignal \<Rightarrow> (True, send_all HupChan t))"

fun discover_run ::
    "('w, 'v) ClusterInfo \<Rightarrow> regexp \<Rightarrow> (string \<Rightarrow> go_error + FileLogger) \<Rightarrow> (discover_event \<times> 'w) list \<Rightarrow> TopicDiscoverer \<Rightarrow>
       TopicDiscoverer" where
  "discover_run ci compile mk [] t = t"
| "discover_run ci compile mk ((ev, w) # evs) t =
     (case discover_step ci w compile mk ev t of
        (True, t1) \<Rightarrow> discover_run ci compile mk evs t1
      | (False, t1) \<Rightarrow> t1)"

definition discover :: "('w, 'v) ClusterInfo \<Rightarrow> regexp \<Rightarrow> (string \<Rightarrow> go_error + FileLogger) \<Rightarrow> FileOptions \<Rightarrow>
    (discover_event \<times> 'w) list \<Rightarrow> TopicDiscoverer" where
  "discover ci compile mk opts evs =
     discover_run ci compile mk evs (updateTopics compile mk (fo_Topics opts) (newTopicDiscoverer opts))"

text \<open>A topic never has two loggers, and keeps the one it has.\<close>

lemma updateTopics_distinct:
  "distinct (map fst (td_topics t)) \<Longrightarrow> distinct (map fst (td_topics (updateTopics compile mk topics t)))"
proof (induction topics arbitrary: t)
  case (Cons topic topics)
  then show ?case by (auto simp: map_of_eq_None_iff split: sum.split)
qed simp

lemma send_all_topics: "map fst (td_topics (send_all ev t)) = map fst (td_topics t)"
  by (simp add: send_all_def case_prod_beta')

lemma discover_run_distinct:
  "distinct (map fst (td_topics t)) \<Longrightarrow> distinct (map fst (td_topics (discover_run ci compile mk evs t)))"
proof (induction evs arbitrary: t)
  case (Cons e evs)
  obtain ev w where e: "e = (ev, w)" by (rule prod.exhaust)
  obtain more t1 where s: "discover_step ci w compile mk ev t = (more, t1)" by (rule prod.exhaust)
  have "distinct (map fst (td_topics t1))"
    using s Cons.prems
    by (auto simp: discover_step_def send_all_topics updateTopics_distinct
        split: discover_event.splits if_splits prod.splits option.splits)
  then show ?case using Cons.IH s e by (simp split: bool.split)
qed simp

lemma discover_one_logger: "distinct (map fst (td_topics (discover ci compile mk opts evs)))"
  unfolding discover_def by (rule discover_run_distinct [OF updateTopics_distinct]) (simp add: newTopicDiscoverer_def)

end
