(* ===== verification/Nsq_FileProps.thy ===== *)
theory Nsq_FileProps
  imports Nsq_FileLogger
begin

text \<open>
  What \<open>nsq_to_file\<close> guarantees: a message is finished only when its line is on stable storage in a file that has a name,
  and no file is overwritten or lost, whatever fails in between. The invariant \<open>fl_inv\<close> of a running logger is kept by
  every step of the router; \<open>settled\<close> is the state between the closing of one file and the opening of the next.
\<close>

section \<open>Processes\<close>

fun proc_ok :: "('a \<Rightarrow> bool) \<Rightarrow> ('a \<Rightarrow> bool) \<Rightarrow> 'a process \<Rightarrow> bool" where
  "proc_ok P Q (Running f) = P f"
| "proc_ok P Q (Exited f) = Q f"
| "proc_ok P Q Spinning = True"

lemma proc_ok_then: "proc_ok P Q p \<Longrightarrow> (\<And>f. P f \<Longrightarrow> proc_ok P' Q (k f)) \<Longrightarrow> proc_ok P' Q (proc_then p k)"
  by (cases p) simp_all

lemma proc_ok_mono: "proc_ok P Q p \<Longrightarrow> (\<And>f. P f \<Longrightarrow> P' f) \<Longrightarrow> (\<And>f. Q f \<Longrightarrow> Q' f) \<Longrightarrow> proc_ok P' Q' p"
  by (cases p) simp_all

section \<open>Lines on stable storage\<close>

definition log_line :: "nsq_Message \<Rightarrow> bytes" where
  "log_line m = nm_Body m @ [10]"

text \<open>What a chunk of plain bytes is in the file: itself, or a gzip member.\<close>

definition stored_as :: "file_env \<Rightarrow> FileOptions \<Rightarrow> bytes \<Rightarrow> bytes" where
  "stored_as v opts p = (if fo_GZIP opts then v_gz v (fo_GZIPLevel opts) p else p)"

definition on_disk :: "file_env \<Rightarrow> FileOptions \<Rightarrow> fs \<Rightarrow> nsq_Message \<Rightarrow> bool" where
  "on_disk v opts s m \<longleftrightarrow>
     (\<exists>i p. named s i \<and> sublist (stored_as v opts p) (durable s i) \<and> sublist (log_line m) p)"

lemma on_disk_kept: "on_disk v opts s m \<Longrightarrow> kept s s' \<Longrightarrow> on_disk v opts s' m"
  unfolding on_disk_def kept_def by (meson prefix_imp_sublist sublist_order.order_trans)

section \<open>The invariant\<close>

definition base :: "file_env \<Rightarrow> FileOptions \<Rightarrow> fs \<Rightarrow> FileLogger \<Rightarrow> bool" where
  "base v opts s0 f \<longleftrightarrow> fl_opts f = opts \<and> fs_wf (fl_fs f) \<and> kept s0 (fl_fs f) \<and>
     (\<forall>m \<in> set (fl_finished f). on_disk v opts (fl_fs f) m)"

definition gzip_shut :: "FileLogger \<Rightarrow> bool" where
  "gzip_shut f \<longleftrightarrow> (\<forall>g. fl_gzipWriter f = Some g \<longrightarrow> gz_closed g)"

definition writer_fits :: "FileLogger \<Rightarrow> bool" where
  "writer_fits f \<longleftrightarrow> (if fo_GZIP (fl_opts f) then fl_writer f \<noteq> WFile
     else fl_writer f \<noteq> WGzip \<and> fl_gzipWriter f = None)"

definition out_open :: "FileLogger \<Rightarrow> bool" where
  "out_open f \<longleftrightarrow> (\<exists>h. fl_out f = Some h \<and> \<not> h_closed h)"

definition out_named :: "FileLogger \<Rightarrow> bool" where
  "out_named f \<longleftrightarrow> (\<forall>h. fl_out f = Some h \<longrightarrow> \<not> h_closed h \<longrightarrow> named (fl_fs f) (h_inode h))"

definition settled :: "file_env \<Rightarrow> FileOptions \<Rightarrow> fs \<Rightarrow> FileLogger \<Rightarrow> bool" where
  "settled v opts s0 f \<longleftrightarrow> base v opts s0 f \<and> gzip_shut f \<and> writer_fits f \<and> out_named f \<and>
     (\<forall>m \<in> set (fl_output f). on_disk v opts (fl_fs f) m)"

text \<open>The line of a message is in the open file, or in the gzip member that is being written.\<close>

definition in_current :: "FileLogger \<Rightarrow> nsq_Message \<Rightarrow> bool" where
  "in_current f m \<longleftrightarrow>
     (\<exists>h. fl_out f = Some h \<and> \<not> h_closed h \<and>
        (if fo_GZIP (fl_opts f)
         then \<exists>g. fl_gzipWriter f = Some g \<and> \<not> gz_closed g \<and> sublist (log_line m) (gz_pending g)
         else sublist (log_line m) (in_data (fs_inodes (fl_fs f) (h_inode h)))))"

definition fl_inv :: "file_env \<Rightarrow> FileOptions \<Rightarrow> fs \<Rightarrow> FileLogger \<Rightarrow> bool" where
  "fl_inv v opts s0 f \<longleftrightarrow> base v opts s0 f \<and> (out_open f \<or> gzip_shut f) \<and> writer_fits f \<and> out_named f \<and>
     (\<forall>m \<in> set (fl_output f). on_disk v opts (fl_fs f) m \<or> in_current f m)"

lemmas fl_defs = base_def gzip_shut_def writer_fits_def out_named_def

lemma settled_inv: "settled v opts s0 f \<Longrightarrow> fl_inv v opts s0 f"
  by (simp add: settled_def fl_inv_def)

lemma base_fs:
  assumes "base v opts s0 f" "fs_ok (fl_fs f) s" "fl_fs f' = s" "fl_opts f' = fl_opts f" "fl_finished f' = fl_finished f"
  shows "base v opts s0 f'"
proof -
  have wf: "fs_wf (fl_fs f)" and k: "kept s0 (fl_fs f)" using assms(1) by (simp_all add: base_def)
  have "kept (fl_fs f) s" using assms(2) wf by (simp add: fs_ok_def)
  then show ?thesis using assms wf k fs_ok_wf fs_ok_kept on_disk_kept by (auto simp: base_def)
qed

lemma settled_fs:
  assumes "settled v opts s0 f" "fs_ok (fl_fs f) s" "fl_fs f' = s" "fl_opts f' = fl_opts f" "fl_finished f' = fl_finished f"
    "fl_gzipWriter f' = fl_gzipWriter f" "fl_writer f' = fl_writer f" "fl_output f' = fl_output f"
    "\<And>h. fl_out f' = Some h \<Longrightarrow> \<not> h_closed h \<Longrightarrow> fl_out f = Some h \<or> named s (h_inode h)"
  shows "settled v opts s0 f'"
proof -
  have b: "base v opts s0 f" using assms(1) by (simp add: settled_def)
  then have k: "kept (fl_fs f) s" and wf: "fs_wf (fl_fs f)" using assms(2) by (simp_all add: base_def fs_ok_def)
  have "out_named f'"
    using assms(1,3,9) fs_ok_named [OF wf assms(2)] unfolding settled_def out_named_def by blast
  then show ?thesis
    using assms base_fs [OF b assms(2-5)] on_disk_kept [OF _ k]
    by (simp add: settled_def gzip_shut_def writer_fits_def)
qed

lemma settled_base: "settled v opts s0 f \<Longrightarrow> base v opts s0 f"
  by (simp add: settled_def)

section \<open>Closing and renaming\<close>

lemma exclusiveRename_ok [fs_ok_intros]:
  assumes "exclusiveRename src dst s = (e, s')"
  shows "fs_ok s s'"
proof -
  obtain x s1 where l: "os_Link src dst s = (x, s1)" by (rule prod.exhaust)
  show ?thesis
  proof (cases x)
    case (Some y)
    then have "s' = s1" "s1 = snd (os_fault s)"
      using l assms os_Link_cases [OF l] by (auto simp: exclusiveRename_def)
    then show ?thesis using os_fault_ok by simp
  next
    case None
    then obtain i where i: "map_of (fs_names s) src = Some i" "map_of (fs_names s) dst = None"
      and s1: "s1 = (snd (os_fault s))\<lparr>fs_names := fs_names s @ [(dst, i)]\<rparr>"
      using os_Link_cases [OF l] by auto
    have "fs_ok s s1"
      using fs_ok_trans [OF os_fault_ok fs_ok_link] i os_fault_names [of s] s1 by metis
    moreover have r: "os_Remove src s1 = (e, s')" using assms l None by (simp add: exclusiveRename_def)
    have "fs_ok s1 s'"
    proof -
      let ?t = "snd (os_fault s1)"
      have n: "fs_names ?t = fs_names s @ [(dst, i)]" using os_fault_names s1 by simp
      have "map_of (fs_names ?t) src = Some i" using i by (simp add: n map_add_def)
      then have "fs_ok ?t (?t\<lparr>fs_names := amap_del src (fs_names ?t)\<rparr>)"
        using i by (intro fs_ok_unlink [where dst = dst]) (auto simp: n)
      then have "fs_ok s1 (?t\<lparr>fs_names := amap_del src (fs_names s1)\<rparr>)"
        using fs_ok_trans [OF os_fault_ok] os_fault_names by metis
      then show ?thesis using os_Remove_cases [OF r] os_fault_ok by auto
    qed
    ultimately show ?thesis by (rule fs_ok_trans)
  qed
qed

lemma gzip_Close_ok [fs_ok_intros]: "gzip_Close mem h g s = (e, g', s') \<Longrightarrow> fs_ok s s'"
  by (auto split: if_splits prod.splits intro: file_Write_ok)

lemma rename_loop_settled:
  "settled v opts s0 f \<Longrightarrow> proc_ok (settled v opts s0) (base v opts s0) (rename_loop n src tmpl i f)"
proof (induction n arbitrary: i f)
  case (Suc n)
  obtain e s where r: "exclusiveRename src (rev_name tmpl i) (fl_fs f) = (e, s)" by (rule prod.exhaust)
  have "settled v opts s0 (f\<lparr>fl_fs := s\<rparr>)"
    by (rule settled_fs [OF Suc.prems exclusiveRename_ok [OF r]]) simp_all
  then show ?case using r Suc.IH settled_base by (simp split: option.split os_err.split)
qed simp

lemma move_file_settled:
  assumes "settled v opts s0 f"
  shows "proc_ok (settled v opts s0) (base v opts s0) (move_file v h f)"
proof -
  have none: "proc_ok (settled v opts s0) (base v opts s0) (Running (f1\<lparr>fl_out := None\<rparr>))"
    if "settled v opts s0 f1" for f1
    using settled_fs [OF that fs_ok_refl, of "f1\<lparr>fl_out := None\<rparr>"] by simp
  let ?dst = "path_Join (fo_OutputDir (fl_opts f)) (TrimPrefix (h_Name h) (fo_WorkDir (fl_opts f)))"
  obtain e s where r: "exclusiveRename (h_Name h) ?dst (fl_fs f) = (e, s)" by (rule prod.exhaust)
  have s: "settled v opts s0 (f\<lparr>fl_fs := s\<rparr>)"
    by (rule settled_fs [OF assms exclusiveRename_ok [OF r]]) simp_all
  show ?thesis
    using r s settled_base [OF s] proc_ok_then [OF rename_loop_settled [OF s] none]
    by (simp add: move_file_def Let_def split: option.split os_err.split)
qed

text \<open>A successful flush: the gzip member is written, then the file is synced.\<close>

definition flushed :: "file_env \<Rightarrow> os_file \<Rightarrow> FileLogger \<Rightarrow> fs \<Rightarrow> bool" where
  "flushed v h f s1 \<longleftrightarrow>
     (case fl_gzipWriter f of
        None \<Rightarrow> s1 = fl_fs f
      | Some g \<Rightarrow> \<exists>g1. gzip_Close (v_gz v (fo_GZIPLevel (fl_opts f))) h g (fl_fs f) = (None, g1, s1))"

lemma flushed_ok: "flushed v h f s1 \<Longrightarrow> fs_ok (fl_fs f) s1"
  by (auto simp: flushed_def simp del: gzip_Close.simps split: option.splits intro: gzip_Close_ok)

lemma flushed_current:
  assumes "fl_out f = Some h" "flushed v h f s1" "in_current f m"
  shows "\<exists>p. sublist (stored_as v (fl_opts f) p) (in_data (fs_inodes s1 (h_inode h))) \<and> sublist (log_line m) p"
proof (cases "fo_GZIP (fl_opts f)")
  case True
  then obtain g where g: "fl_gzipWriter f = Some g" "\<not> gz_closed g" "sublist (log_line m) (gz_pending g)"
    using assms(1,3) by (auto simp: in_current_def)
  then obtain n where "file_Write (v_gz v (fo_GZIPLevel (fl_opts f)) (gz_pending g)) h (fl_fs f) = (n, None, s1)"
    using assms(2) by (auto simp: flushed_def split: prod.splits)
  from file_Write_data [OF this]
  have "sublist (stored_as v (fl_opts f) (gz_pending g)) (in_data (fs_inodes s1 (h_inode h)))"
    using True by (simp add: stored_as_def)
  then show ?thesis using g(3) by blast
next
  case False
  then have l: "sublist (log_line m) (in_data (fs_inodes (fl_fs f) (h_inode h)))"
    using assms(1,3) by (auto simp: in_current_def)
  have "\<exists>q. in_data (fs_inodes s1 (h_inode h)) = in_data (fs_inodes (fl_fs f) (h_inode h)) @ q"
    using assms(2)
    by (auto simp: flushed_def split: option.splits if_splits prod.splits dest: file_Write_data)
  then have "sublist (log_line m) (in_data (fs_inodes s1 (h_inode h)))"
    using l by (metis sublist_append_rightI sublist_order.order_trans)
  then show ?thesis using False by (auto simp: stored_as_def)
qed

lemma flush_on_disk:
  assumes inv: "fl_inv v opts s0 f" and out: "fl_out f = Some h" and fl: "flushed v h f s1"
    and sync: "file_Sync h s1 = (None, s2)" and m: "m \<in> set (fl_output f)"
  shows "on_disk v opts s2 m"
proof -
  have wf: "fs_wf (fl_fs f)" and opts: "fl_opts f = opts" using inv by (simp_all add: fl_inv_def base_def)
  have ok: "fs_ok (fl_fs f) s2" using flushed_ok [OF fl] file_Sync_ok [OF sync] fs_ok_trans by blast
  have opn: "\<not> h_closed h" using sync by (auto simp: file_Sync_def)
  then have nm: "named s2 (h_inode h)"
    using inv out fs_ok_named [OF wf ok] by (simp add: fl_inv_def out_named_def)
  from inv m consider "on_disk v opts (fl_fs f) m" | "in_current f m" by (auto simp: fl_inv_def)
  then show ?thesis
  proof cases
    case 1
    then show ?thesis using on_disk_kept ok wf by (simp add: fs_ok_def)
  next
    case 2
    from flushed_current [OF out fl 2] file_Sync_durable [OF sync] nm opts
    show ?thesis unfolding on_disk_def by (intro exI [of _ "h_inode h"]) auto
  qed
qed

lemma fl_inv_base: "fl_inv v opts s0 f \<Longrightarrow> base v opts s0 f"
  by (simp add: fl_inv_def)

text \<open>Closing: the streams, then the name.\<close>

lemma close_streams_settled:
  assumes inv: "fl_inv v opts s0 f" and out: "fl_out f = Some h"
  shows "proc_ok (settled v opts s0) (base v opts s0) (close_streams v h f)"
proof -
  let ?r = "case fl_gzipWriter f of
              None \<Rightarrow> (None, None, fl_fs f)
            | Some g \<Rightarrow> (case gzip_Close (v_gz v (fo_GZIPLevel (fl_opts f))) h g (fl_fs f) of
                           (e, g1, s1) \<Rightarrow> (e, Some g1, s1))"
  obtain e g1 s1 where r: "?r = (e, g1, s1)" by (rule prod_cases3)
  obtain e2 s2 where y: "file_Sync h s1 = (e2, s2)" by (rule prod.exhaust)
  obtain e3 h1 s3 where c: "file_Close h s2 = (e3, h1, s3)" by (rule prod_cases3)
  have ok1: "fs_ok (fl_fs f) s1"
    using r by (auto simp del: gzip_Close.simps split: option.splits prod.splits intro: gzip_Close_ok)
  have ok2: "fs_ok (fl_fs f) s2" using ok1 file_Sync_ok [OF y] by (rule fs_ok_trans)
  have ok3: "fs_ok (fl_fs f) s3" using ok2 file_Close_ok [OF c] by (rule fs_ok_trans)
  note b = base_fs [OF fl_inv_base [OF inv]]
  have closed: "h_closed h1" using c by (auto simp: file_Close_def split: if_splits prod.splits option.splits)
  have shut: "\<forall>g. g1 = Some g \<longrightarrow> gz_closed g" and none: "fl_gzipWriter f = None \<Longrightarrow> g1 = None" if "e = None"
    using r that by (auto split: option.splits prod.splits if_splits)
  have disk: "on_disk v opts s3 m" if "e = None" "e2 = None" "m \<in> set (fl_output f)" for m
  proof -
    have "flushed v h f s1"
      using r that(1) by (auto simp: flushed_def simp del: gzip_Close.simps split: option.splits prod.splits)
    then have "on_disk v opts s2 m" using flush_on_disk [OF inv out] y that(2,3) by blast
    moreover have "fs_wf s2" using ok2 inv by (simp add: fl_inv_def base_def fs_ok_def)
    ultimately show ?thesis using file_Close_ok [OF c] on_disk_kept by (simp add: fs_ok_def)
  qed
  have set: "settled v opts s0 (f\<lparr>fl_gzipWriter := g1, fl_out := Some h1, fl_fs := s3\<rparr>)"
    if "e = None" "e2 = None"
    using b [OF ok3, of "f\<lparr>fl_gzipWriter := g1, fl_out := Some h1, fl_fs := s3\<rparr>"] shut none disk closed that inv
    by (simp add: settled_def fl_inv_def gzip_shut_def writer_fits_def out_named_def)
  show ?thesis
    using r y c set b [OF ok1, of "f\<lparr>fl_gzipWriter := g1, fl_fs := s1\<rparr>"]
      b [OF ok2, of "f\<lparr>fl_gzipWriter := g1, fl_fs := s2\<rparr>"]
      b [OF ok3, of "f\<lparr>fl_gzipWriter := g1, fl_out := Some h1, fl_fs := s3\<rparr>"]
    by (simp add: close_streams_def split: option.split)
qed

lemma drop_out_settled: "settled v opts s0 f \<Longrightarrow> settled v opts s0 (f\<lparr>fl_out := None\<rparr>)"
  using settled_fs [OF _ fs_ok_refl, of v opts s0 f "f\<lparr>fl_out := None\<rparr>"] by simp

lemma fl_Close_settled:
  assumes "fl_inv v opts s0 f"
  shows "proc_ok (settled v opts s0) (base v opts s0) (fl_Close v f)"
proof (cases "fl_out f")
  case None
  then show ?thesis using assms by (simp add: fl_Close_def fl_inv_def settled_def in_current_def out_open_def)
next
  case (Some h)
  show ?thesis
    using proc_ok_then [OF close_streams_settled [OF assms Some]] move_file_settled drop_out_settled
    by (simp add: fl_Close_def Some)
qed

section \<open>Opening\<close>

lemma makeDirFromPath_ok [fs_ok_intros]: "makeDirFromPath p s = (e, s') \<Longrightarrow> fs_ok s s'"
  by (auto simp: makeDirFromPath_def Let_def intro: fs_ok_intros split: if_splits)

lemma check_output_settled:
  assumes "settled v opts s0 f" "check_output name f = (r, f')"
  shows "settled v opts s0 f' \<and> fl_rev f' = fl_rev f"
proof -
  have "\<exists>s. fs_ok (fl_fs f) s \<and> f' = f\<lparr>fl_fs := s\<rparr>"
    using assms(2)
    by (auto simp: check_output_def Let_def dest!: makeDirFromPath_ok os_Stat_ok intro: fs_ok_trans
        split: if_splits prod.splits option.splits os_err.splits intro!: exI [of _ "fl_fs f'"])
  then obtain s where "fs_ok (fl_fs f) s" "f' = f\<lparr>fl_fs := s\<rparr>" by blast
  then show ?thesis using settled_fs [OF assms(1), of s f'] by simp
qed

lemma open_round_settled:
  assumes "settled v opts s0 f" "open_round fullPath f = (r, f')"
  shows "settled v opts s0 f' \<and> (r = Inr True \<longrightarrow> out_open f')"
proof -
  let ?name = "rev_name fullPath (fl_rev f)"
  obtain c f1 where c: "check_output ?name f = (c, f1)" by (rule prod.exhaust)
  have s1: "settled v opts s0 f1" using check_output_settled [OF assms(1) c] by simp
  let ?open = "os_OpenFile (fo_GZIP (fl_opts f1) \<or> 0 < fo_RotateInterval (fl_opts f1)) ?name (fl_fs f1)"
  obtain h s where o: "?open = (h, s)" by (rule prod.exhaust)
  have ok: "fs_ok (fl_fs f1) s" using o by (rule os_OpenFile_ok)
  show ?thesis
  proof (cases "c = Inr True")
    case False
    then have "f' = f1" "r \<noteq> Inr True"
      using assms(2) c by (auto simp: open_round_def split: sum.splits bool.splits)
    then show ?thesis using s1 by simp
  next
    case c1: True
    show ?thesis
    proof (cases h)
      case (Inl e)
      then have "f' = f1\<lparr>fl_out := None, fl_fs := s\<rparr>" "r \<noteq> Inr True"
        using assms(2) c c1 o by (auto simp: open_round_def split: os_err.splits)
      then show ?thesis using settled_fs [OF s1 ok, of f'] by simp
    next
      case (Inr k)
      obtain e s2 where st: "file_Stat k s = (e, s2)" by (rule prod.exhaust)
      have k: "named s (h_inode k)" "\<not> h_closed k" using os_OpenFile_named o Inr by blast+
      have ok2: "fs_ok (fl_fs f1) s2" using ok file_Stat_ok [OF st] by (rule fs_ok_trans)
      have "fs_wf s" using s1 ok by (simp add: settled_def base_def fs_ok_def)
      then have nm: "named s2 (h_inode k)" using fs_ok_named [OF _ file_Stat_ok [OF st]] k by blast
      have f': "fl_out f' = Some k" "fl_fs f' = s2" "fl_opts f' = fl_opts f1" "fl_finished f' = fl_finished f1"
        "fl_gzipWriter f' = fl_gzipWriter f1" "fl_writer f' = fl_writer f1" "fl_output f' = fl_output f1"
        using assms(2) c c1 o Inr st by (auto simp: open_round_def split: sum.splits)
      then show ?thesis using settled_fs [OF s1 ok2, of f'] nm k by (simp add: out_open_def)
    qed
  qed
qed

lemma open_loop_settled:
  "settled v opts s0 f \<Longrightarrow>
     proc_ok (\<lambda>f. settled v opts s0 f \<and> out_open f) (base v opts s0) (open_loop n fullPath f)"
proof (induction n arbitrary: f)
  case (Suc n)
  obtain r f1 where r: "open_round fullPath f = (r, f1)" by (rule prod.exhaust)
  have s: "settled v opts s0 f1" "r = Inr True \<Longrightarrow> out_open f1" using open_round_settled [OF Suc.prems r] by auto
  have "settled v opts s0 (f1\<lparr>fl_rev := fl_rev f1 + 1\<rparr>)"
    using settled_fs [OF s(1) fs_ok_refl, of "f1\<lparr>fl_rev := fl_rev f1 + 1\<rparr>"] by simp
  then show ?case using r s Suc.IH settled_base by (simp split: sum.split bool.split)
qed simp

lemma fl_now_clock: "fl_now f = (t, f') \<Longrightarrow> \<exists>c. f' = f\<lparr>fl_clock := c\<rparr>"
  by (auto simp: fl_now_def split: list.splits intro: exI [of _ "fl_clock f"])

lemma currentFilename_clock: "currentFilename v f = (n, f') \<Longrightarrow> \<exists>c. f' = f\<lparr>fl_clock := c\<rparr>"
  by (auto simp: currentFilename_def split: prod.splits dest: fl_now_clock)

lemma set_writer_inv: "settled v opts s0 f \<Longrightarrow> out_open f \<Longrightarrow> fl_inv v opts s0 (set_writer f) \<and> out_open (set_writer f)"
  by (auto simp: settled_def fl_inv_def set_writer_def fl_defs out_open_def)

lemma open_file_inv:
  assumes "settled v opts s0 f"
  shows "proc_ok (\<lambda>f. fl_inv v opts s0 f \<and> out_open f) (base v opts s0) (open_file v f)"
proof -
  obtain n f1 where n: "currentFilename v f = (n, f1)" by (rule prod.exhaust)
  let ?f2 = "f1\<lparr>fl_rev := (if n \<noteq> fl_filename f1 then 0 else fl_rev f1 + 1), fl_filename := n\<rparr>"
  obtain t f3 where t: "fl_now ?f2 = (t, f3)" by (rule prod.exhaust)
  let ?f4 = "f3\<lparr>fl_openTime := t\<rparr>"
  let ?p = "path_Join (fo_WorkDir (fl_opts ?f4)) n"
  obtain e s where d: "makeDirFromPath ?p (fl_fs ?f4) = (e, s)" by (rule prod.exhaust)
  obtain c c' where f: "f1 = f\<lparr>fl_clock := c\<rparr>" "f3 = ?f2\<lparr>fl_clock := c'\<rparr>"
    using currentFilename_clock [OF n] fl_now_clock [OF t] by blast
  have "fs_ok (fl_fs f) s" using makeDirFromPath_ok [OF d] f by simp
  then have s: "settled v opts s0 (?f4\<lparr>fl_fs := s\<rparr>)" by (rule settled_fs [OF assms]) (use f in simp_all)
  have "proc_ok (\<lambda>f. fl_inv v opts s0 f \<and> out_open f) (base v opts s0)
      (proc_then (open_loop (v_fuel v) ?p (?f4\<lparr>fl_fs := s\<rparr>)) (\<lambda>f5. Running (set_writer f5)))"
    by (rule proc_ok_then [OF open_loop_settled [OF s]]) (use set_writer_inv in auto)
  then show ?thesis
    using n t d settled_base [OF s] by (simp add: open_file_def Let_def split: option.split)
qed

lemma updateFile_inv:
  "fl_inv v opts s0 f \<Longrightarrow> proc_ok (\<lambda>f. fl_inv v opts s0 f \<and> out_open f) (base v opts s0) (updateFile v f)"
  unfolding updateFile_def by (rule proc_ok_then [OF fl_Close_settled open_file_inv])

section \<open>Writing and finishing\<close>

lemma needsRotation_clock: "needsRotation v f = (r, f') \<Longrightarrow> (\<exists>c. f' = f\<lparr>fl_clock := c\<rparr>) \<and> (r \<or> fl_out f \<noteq> None)"
  by (fastforce simp: needsRotation_def Let_def split: if_splits prod.splits
      dest!: currentFilename_clock fl_now_clock intro: exI [of _ "fl_clock f"])

lemma fl_inv_clock [simp]: "fl_inv v opts s0 (f\<lparr>fl_clock := c\<rparr>) = fl_inv v opts s0 f"
  by (simp add: fl_inv_def fl_defs in_current_def out_open_def)

lemma fl_inv_stops [simp]: "fl_inv v opts s0 (f\<lparr>fl_stops := k\<rparr>) = fl_inv v opts s0 f"
  by (simp add: fl_inv_def fl_defs in_current_def out_open_def)

text \<open>The bytes that reach the current file or gzip member.\<close>

definition current_bytes :: "FileLogger \<Rightarrow> bytes" where
  "current_bytes f =
     (if fo_GZIP (fl_opts f) then (case fl_gzipWriter f of Some g \<Rightarrow> gz_pending g | None \<Rightarrow> [])
      else (case fl_out f of Some h \<Rightarrow> in_data (fs_inodes (fl_fs f) (h_inode h)) | None \<Rightarrow> []))"

definition gzip_ready :: "FileLogger \<Rightarrow> bool" where
  "gzip_ready f \<longleftrightarrow> (fo_GZIP (fl_opts f) \<longrightarrow> (\<exists>g. fl_gzipWriter f = Some g \<and> \<not> gz_closed g))"

lemma in_current_iff: "in_current f m \<longleftrightarrow> out_open f \<and> gzip_ready f \<and> sublist (log_line m) (current_bytes f)"
  by (auto simp: in_current_def out_open_def gzip_ready_def current_bytes_def)

lemma fl_Write_base:
  assumes "fl_inv v opts s0 f" "fl_Write p f = (e, f')"
  shows "base v opts s0 f' \<and> fl_finished f' = fl_finished f \<and> fl_output f' = fl_output f \<and> fl_opts f' = opts \<and>
    fs_ok (fl_fs f) (fl_fs f') \<and> fl_out f' = fl_out f \<and> writer_fits f' \<and> out_named f'"
proof -
  have b: "base v opts s0 f" and o: "fl_opts f = opts" using assms(1) by (simp_all add: fl_inv_def base_def)
  have f': "fs_ok (fl_fs f) (fl_fs f') \<and> fl_opts f' = fl_opts f \<and> fl_finished f' = fl_finished f \<and>
      fl_output f' = fl_output f \<and> fl_out f' = fl_out f \<and> fl_writer f' = fl_writer f \<and>
      (fl_gzipWriter f' = None \<longleftrightarrow> fl_gzipWriter f = None)"
    using assms(2) by (auto simp: fl_Write_def split: log_writer.splits option.splits prod.splits if_splits intro: file_Write_ok)
  then have "base v opts s0 f'" using base_fs [OF b _ refl] by blast
  moreover have "out_named f'"
    using f' assms(1) fs_ok_named [of "fl_fs f"] by (auto simp: fl_inv_def base_def out_named_def)
  ultimately show ?thesis using f' o assms(1) by (auto simp: fl_inv_def writer_fits_def split: if_splits)
qed

lemma fl_Write_current:
  assumes "fl_inv v opts s0 f" "fl_Write p f = (None, f')"
  shows "current_bytes f' = current_bytes f @ p \<and> out_open f' \<and> gzip_ready f'"
  using assms
  by (auto simp: fl_Write_def fl_inv_def writer_fits_def current_bytes_def out_open_def gzip_ready_def gzip_shut_def
      split: log_writer.splits option.splits prod.splits if_splits dest: file_Write_data)

lemma fl_Write_inv:
  assumes inv: "fl_inv v opts s0 f" and w: "fl_Write p f = (None, f')"
  shows "fl_inv v opts s0 f' \<and> out_open f' \<and> gzip_ready f' \<and> current_bytes f' = current_bytes f @ p \<and>
    fl_output f' = fl_output f \<and> fl_opts f' = opts"
proof -
  note b = fl_Write_base [OF assms]
  note c = fl_Write_current [OF assms]
  have "on_disk v opts (fl_fs f') m \<or> in_current f' m" if "m \<in> set (fl_output f')" for m
  proof -
    have "on_disk v opts (fl_fs f) m \<or> in_current f m" using inv that b by (auto simp: fl_inv_def)
    moreover have "kept (fl_fs f) (fl_fs f')" using b inv by (simp add: fl_inv_def base_def fs_ok_def)
    ultimately show ?thesis
      using c on_disk_kept unfolding in_current_iff by (metis sublist_append_rightI sublist_order.order_trans)
  qed
  then show ?thesis using b c by (simp add: fl_inv_def)
qed

lemma write_message_inv:
  assumes inv: "fl_inv v opts s0 f"
  shows "proc_ok (fl_inv v opts s0) (base v opts s0) (write_message m f)"
proof -
  obtain e f1 where w1: "fl_Write (nm_Body m) f = (e, f1)" by (rule prod.exhaust)
  obtain e2 f2 where w2: "fl_Write [10] f1 = (e2, f2)" by (rule prod.exhaust)
  show ?thesis
  proof (cases e)
    case (Some x)
    then show ?thesis using fl_Write_base [OF inv w1] w1 by (simp add: write_message_def)
  next
    case None
    note i1 = fl_Write_inv [OF inv w1 [unfolded None]]
    then have inv1: "fl_inv v opts s0 f1" by blast
    show ?thesis
    proof (cases e2)
      case (Some x)
      then show ?thesis using fl_Write_base [OF inv1 w2] w1 w2 None by (simp add: write_message_def)
    next
      case n2: None
      note i2 = fl_Write_inv [OF inv1 w2 [unfolded n2]]
      let ?f = "f2\<lparr>fl_output := fl_output f2 @ [m]\<rparr>"
      have "current_bytes f2 = current_bytes f @ log_line m" using i1 i2 by (simp add: log_line_def)
      then have "in_current f2 m" using i2 by (simp add: in_current_iff)
      moreover have "in_current ?f k = in_current f2 k" for k by (simp add: in_current_def)
      ultimately have "fl_inv v opts s0 ?f" using i2 by (auto simp: fl_inv_def fl_defs out_open_def)
      then show ?thesis using w1 w2 None n2 i2 by (simp add: write_message_def fl_inv_def)
    qed
  qed
qed

lemma fl_Sync_inv:
  assumes inv: "fl_inv v opts s0 f" and y: "fl_Sync v f = (e, f')"
  shows "base v opts s0 f' \<and> (e = None \<longrightarrow> fl_inv v opts s0 f' \<and> fl_output f' = fl_output f \<and>
    (\<forall>m \<in> set (fl_output f). on_disk v opts (fl_fs f') m))"
proof (cases "fl_out f")
  case None
  then show ?thesis using y inv by (auto simp: fl_Sync_def fl_inv_def)
next
  case (Some h)
  have same: "fl_opts f' = fl_opts f \<and> fl_finished f' = fl_finished f \<and> fl_output f' = fl_output f \<and> fl_out f' = fl_out f"
    using y by (auto simp: fl_Sync_def Some simp del: gzip_Close.simps split: option.splits prod.splits)
  have ok: "fs_ok (fl_fs f) (fl_fs f')"
    using y by (auto simp: fl_Sync_def Some simp del: gzip_Close.simps split: option.splits prod.splits
        intro: fs_ok_intros fs_ok_trans [OF gzip_Close_ok file_Sync_ok])
  have b: "base v opts s0 f'" using base_fs [OF fl_inv_base [OF inv] ok refl] same by blast
  moreover have "fl_inv v opts s0 f' \<and> fl_output f' = fl_output f \<and> (\<forall>m \<in> set (fl_output f). on_disk v opts (fl_fs f') m)"
    if "e = None"
  proof -
    have "\<exists>s1. flushed v h f s1 \<and> file_Sync h s1 = (None, fl_fs f') \<and>
        (fl_gzipWriter f = None \<longrightarrow> fl_gzipWriter f' = None \<and> fl_writer f' = fl_writer f) \<and>
        (fl_gzipWriter f \<noteq> None \<longrightarrow> fl_writer f' = WGzip)"
      using y that by (auto simp: fl_Sync_def Some flushed_def simp del: gzip_Close.simps split: option.splits prod.splits)
    then obtain s1 where s1: "flushed v h f s1" "file_Sync h s1 = (None, fl_fs f')"
      and g: "fl_gzipWriter f = None \<longrightarrow> fl_gzipWriter f' = None \<and> fl_writer f' = fl_writer f"
        "fl_gzipWriter f \<noteq> None \<longrightarrow> fl_writer f' = WGzip"
      by (elim exE conjE) (rule that)
    have d: "\<forall>m \<in> set (fl_output f). on_disk v opts (fl_fs f') m" using flush_on_disk [OF inv Some s1] by blast
    have "\<not> h_closed h" using s1(2) by (auto simp: file_Sync_def)
    then have "out_open f'" using same Some by (simp add: out_open_def)
    moreover have "writer_fits f'" using inv g same by (cases "fl_gzipWriter f") (auto simp: fl_inv_def writer_fits_def split: if_splits)
    moreover have "out_named f'"
      using same inv fs_ok_named [OF _ ok] by (auto simp: fl_inv_def base_def out_named_def)
    ultimately show ?thesis using b d same by (simp add: fl_inv_def)
  qed
  ultimately show ?thesis by blast
qed

lemma sync_and_finish_inv:
  assumes inv: "fl_inv v opts s0 f"
  shows "proc_ok (fl_inv v opts s0) (base v opts s0) (sync_and_finish v f)"
proof -
  obtain e f1 where y: "fl_Sync v f = (e, f1)" by (rule prod.exhaust)
  note i = fl_Sync_inv [OF inv y]
  have "fl_inv v opts s0 (f1\<lparr>fl_finished := fl_finished f1 @ rev (fl_output f1), fl_output := []\<rparr>)" if "e = None"
    using i that by (auto simp: fl_inv_def fl_defs out_open_def)
  then show ?thesis using inv i y by (simp add: sync_and_finish_def split: option.split)
qed

section \<open>The router\<close>

lemma router_select_inv:
  assumes inv: "fl_inv v opts s0 f" and r: "router_select v ev f = (flags, p)"
  shows "proc_ok (fl_inv v opts s0) (base v opts s0) p"
proof -
  obtain due f1 where n: "needsRotation v f = (due, f1)" by (rule prod.exhaust)
  have inv1: "fl_inv v opts s0 f1" using needsRotation_clock [OF n] inv by auto
  have u: "proc_ok (fl_inv v opts s0) (base v opts s0) (updateFile v f1)"
    by (rule proc_ok_mono [OF updateFile_inv [OF inv1]]) simp_all
  have w: "proc_ok (fl_inv v opts s0) (base v opts s0)
      (proc_then (if due then updateFile v f1 else Running f1) (write_message m))" for m
    by (rule proc_ok_then [where P = "fl_inv v opts s0"]) (use u inv1 write_message_inv in auto)
  show ?thesis
    using r n inv inv1 u w
    by (cases ev) (auto simp: router_select_def Let_def split: if_splits bool.splits)
qed

lemma router_step_inv:
  assumes inv: "fl_inv v opts s0 f"
  shows "proc_ok (fl_inv v opts s0) (base v opts s0) (router_step v ev starved f)"
proof -
  obtain sync close ex p where r: "router_select v ev f = ((sync, close, ex), p)" by (metis prod.exhaust)
  have c: "proc_ok (fl_inv v opts s0) (base v opts s0) (if close then fl_Close v f2 else Running f2)"
    if "fl_inv v opts s0 f2" for f2
    using that proc_ok_mono [OF fl_Close_settled [OF that]] settled_inv by auto
  have s: "proc_ok (fl_inv v opts s0) (base v opts s0)
      (proc_then (if sync \<or> starved then sync_and_finish v f1 else Running f1)
        (\<lambda>f2. if close then fl_Close v f2 else Running f2))" if "fl_inv v opts s0 f1" for f1
    by (rule proc_ok_then [where P = "fl_inv v opts s0"]) (use that sync_and_finish_inv c in auto)
  show ?thesis
    using proc_ok_then [OF router_select_inv [OF inv r] s] r by (simp add: router_step_def)
qed

lemma router_inv: "fl_inv v opts s0 f \<Longrightarrow> proc_ok (fl_inv v opts s0) (base v opts s0) (router v evs f)"
proof (induction evs arbitrary: f)
  case (Cons e evs)
  obtain ev starved where e: "e = (ev, starved)" by (rule prod.exhaust)
  note step = router_step_inv [OF Cons.prems, of ev starved]
  have "proc_ok (fl_inv v opts s0) (base v opts s0) (proc_then (router_step v ev starved f) (router v evs))"
    by (rule proc_ok_then [OF step Cons.IH])
  with step show ?case by (cases "ev = StopChan") (simp_all add: e)
qed simp

lemma newFileLogger_inv: "fs_wf s \<Longrightarrow> fl_inv v opts s (newFileLogger opts topic fmt clock s)"
  by (simp add: newFileLogger_def fl_inv_def fl_defs)

section \<open>Finished messages are on disk\<close>

text \<open>The logger of a process that runs or has exited.\<close>

fun logger_of :: "'a process \<Rightarrow> 'a option" where
  "logger_of (Running f) = Some f"
| "logger_of (Exited f) = Some f"
| "logger_of Spinning = None"

lemma router_base:
  assumes "fs_wf s" "logger_of (router v evs (newFileLogger opts topic fmt clock s)) = Some f"
  shows "base v opts s f"
  using router_inv [OF newFileLogger_inv [OF assms(1)], of v opts evs topic fmt clock] assms(2)
  by (cases "router v evs (newFileLogger opts topic fmt clock s)") (auto simp: fl_inv_def)

text \<open>C13. \<open>nsq_to_file\<close> tells \<open>nsqd\<close> that a message is finished only when its body and a newline are on stable storage, in a
  file that still has a name, as plain bytes or within a gzip member: for every sequence of events, whatever system call
  fails, and also if the process has exited.\<close>

theorem finished_messages_are_on_disk:
  assumes "fs_wf s" "logger_of (router v evs (newFileLogger opts topic fmt clock s)) = Some f"
    "m \<in> set (fl_finished f)"
  shows "\<exists>i p. i \<in> snd ` set (fs_names (fl_fs f)) \<and> sublist (nm_Body m @ [10]) p \<and>
    sublist (if fo_GZIP opts then v_gz v (fo_GZIPLevel opts) p else p) (durable (fl_fs f) i)"
  using router_base [OF assms(1,2)] assms(3)
  unfolding base_def on_disk_def named_def log_line_def stored_as_def by blast

definition ex_env :: file_env where
  "ex_env = \<lparr>v_format = (\<lambda>l t. ''d''), v_gz = (\<lambda>l p. 31 # p), v_fuel = 5\<rparr>"

definition ex_opts :: FileOptions where
  "ex_opts = NewFileOptions\<lparr>fo_OutputDir := ''/o'', fo_WorkDir := ''/w'', fo_MaxInFlight := 2\<rparr>"

definition ex_fs :: fs where
  "ex_fs = \<lparr>fs_names = [(''/o/t-000000'', 0)], fs_inodes = (\<lambda>_. \<lparr>in_data = [7], in_synced = 1\<rparr>), fs_next = 1, fs_faults = []\<rparr>"

definition ex_msg :: nsq_Message where
  "ex_msg = \<lparr>nm_ID = [1], nm_Body = [65, 66]\<rparr>"

definition ex_logger :: "(router_event \<times> bool) list \<Rightarrow> FileLogger process" where
  "ex_logger evs = router ex_env evs (newFileLogger ex_opts ''t'' ''t<REV>'' [1] ex_fs)"

lemma ex_fs_wf: "fs_wf ex_fs"
  by (simp add: fs_wf_def ex_fs_def named_def)

theorem finished_messages_are_on_disk_witness:
  "\<exists>f i p. logger_of (ex_logger [(LogChan ex_msg, False), (Tick, False)]) = Some f \<and> ex_msg \<in> set (fl_finished f) \<and>
     i \<in> snd ` set (fs_names (fl_fs f)) \<and> sublist (nm_Body ex_msg @ [10]) p \<and> sublist p (durable (fl_fs f) i)"
proof -
  let ?p = "ex_logger [(LogChan ex_msg, False), (Tick, False)]"
  have "logger_of ?p \<noteq> None \<and> ex_msg \<in> set (fl_finished (the (logger_of ?p)))" by code_simp
  then obtain f where f: "logger_of ?p = Some f" "ex_msg \<in> set (fl_finished f)" by auto
  moreover have "\<not> fo_GZIP ex_opts" by (simp add: ex_opts_def NewFileOptions_def)
  ultimately show ?thesis
    using finished_messages_are_on_disk [OF ex_fs_wf f(1) [unfolded ex_logger_def] f(2)] by auto
qed

text \<open>C14. No file is overwritten or lost by \<open>nsq_to_file\<close>: a file that exists before still has a name after any run, and its
  bytes, and those on stable storage, have at most been extended. Moving a file to the output directory does not replace
  another one.\<close>

theorem files_never_lost:
  assumes "fs_wf s" "logger_of (router v evs (newFileLogger opts topic fmt clock s)) = Some f"
    "i \<in> snd ` set (fs_names s)"
  shows "i \<in> snd ` set (fs_names (fl_fs f)) \<and>
    prefix (in_data (fs_inodes s i)) (in_data (fs_inodes (fl_fs f) i)) \<and> prefix (durable s i) (durable (fl_fs f) i)"
  using router_base [OF assms(1,2)] assms(3) unfolding base_def kept_def named_def by blast

theorem files_never_lost_witness:
  "\<exists>f. logger_of (ex_logger [(LogChan ex_msg, False), (HupChan, False)]) = Some f \<and>
     0 \<in> snd ` set (fs_names (fl_fs f)) \<and> prefix [7] (in_data (fs_inodes (fl_fs f) 0)) \<and> prefix [7] (durable (fl_fs f) 0)"
proof -
  let ?p = "ex_logger [(LogChan ex_msg, False), (HupChan, False)]"
  have "logger_of ?p \<noteq> None" by code_simp
  then obtain f where f: "logger_of ?p = Some f" by auto
  have "0 \<in> snd ` set (fs_names ex_fs)" by (simp add: ex_fs_def)
  from files_never_lost [OF ex_fs_wf f [unfolded ex_logger_def] this] f
  show ?thesis by (intro exI [of _ f]) (simp add: ex_fs_def durable_def)
qed

section \<open>The logger after its file was moved\<close>

lemma no_fault [simp]: "fs_faults s = [] \<Longrightarrow> os_fault s = (None, s)"
  by (simp add: os_fault_def)

lemma upd_inode_faults [simp]: "fs_faults (upd_inode i g s) = fs_faults s"
  by (simp add: upd_inode_def)

lemma fl_Sync_quiet:
  assumes "fl_out f = Some h" "\<not> h_closed h" "fs_faults (fl_fs f) = []"
  shows "\<exists>f'. fl_Sync v f = (None, f') \<and> fl_out f' = fl_out f \<and> fl_opts f' = fl_opts f \<and> fs_faults (fl_fs f') = [] \<and>
    fs_names (fl_fs f') = fs_names (fl_fs f)"
  using assms by (cases "fl_gzipWriter f") (auto simp: fl_Sync_def file_Sync_def file_Write_def)

lemma moved_streams:
  assumes "fl_out f = Some h" "\<not> h_closed h" "fs_faults (fl_fs f) = []"
  shows "\<exists>f1. close_streams v h f = Running f1 \<and> fl_out f1 = Some (h\<lparr>h_closed := True\<rparr>) \<and> gzip_shut f1 \<and>
    fl_opts f1 = fl_opts f \<and> fs_faults (fl_fs f1) = [] \<and> fs_names (fl_fs f1) = fs_names (fl_fs f)"
  using assms by (cases "fl_gzipWriter f")
    (auto simp: close_streams_def file_Sync_def file_Close_def file_Write_def gzip_shut_def)

lemma exclusiveRename_free:
  assumes "fs_faults s = []" "map_of (fs_names s) src \<noteq> None" "map_of (fs_names s) dst = None"
  shows "\<exists>s'. exclusiveRename src dst s = (None, s') \<and> fs_faults s' = []"
  using assms by (auto simp: exclusiveRename_def os_Link_def os_Remove_def map_add_def split: option.splits)

text \<open>A logger whose file is closed but still set.\<close>

definition out_stale :: "FileLogger \<Rightarrow> bool" where
  "out_stale f \<longleftrightarrow> (\<exists>h. fl_out f = Some h \<and> h_closed h) \<and> gzip_shut f"

lemma stale_Write: "out_stale f \<Longrightarrow> \<exists>f'. fl_Write p f = (Some ErrOther, f')"
  by (auto simp: out_stale_def gzip_shut_def fl_Write_def file_Write_def split: log_writer.splits option.splits)

lemma stale_Close: "out_stale f \<Longrightarrow> \<exists>f'. fl_Close v f = Exited f'"
  by (auto simp: out_stale_def gzip_shut_def fl_Close_def close_streams_def file_Sync_def split: option.splits)

lemma stale_message:
  assumes "out_stale f"
  shows "\<exists>f'. router_step v (LogChan m) starved f = Exited f'"
proof -
  obtain due f1 where n: "needsRotation v f = (due, f1)" by (rule prod.exhaust)
  obtain c where "f1 = f\<lparr>fl_clock := c\<rparr>" using needsRotation_clock [OF n] by blast
  then have st: "out_stale f1" using assms by (simp add: out_stale_def gzip_shut_def)
  obtain f2 f3 where "fl_Close v f1 = Exited f2" "fl_Write (nm_Body m) f1 = (Some ErrOther, f3)"
    using stale_Close [OF st] stale_Write [OF st] by blast
  then show ?thesis using n by (cases due) (simp_all add: router_step_def router_select_def updateFile_def write_message_def)
qed

lemma moved_is_stale:
  assumes "fl_out f = Some h" "\<not> h_closed h" "fo_WorkDir (fl_opts f) \<noteq> fo_OutputDir (fl_opts f)"
    "fs_faults (fl_fs f) = []" "map_of (fs_names (fl_fs f)) (h_Name h) \<noteq> None"
    "map_of (fs_names (fl_fs f)) (path_Join (fo_OutputDir (fl_opts f)) (TrimPrefix (h_Name h) (fo_WorkDir (fl_opts f)))) = None"
  shows "\<exists>f1. fl_Close v f = Running f1 \<and> out_stale f1"
proof -
  obtain f1 where c: "close_streams v h f = Running f1" "fl_out f1 = Some (h\<lparr>h_closed := True\<rparr>)" "gzip_shut f1"
    "fl_opts f1 = fl_opts f" "fs_faults (fl_fs f1) = []" "fs_names (fl_fs f1) = fs_names (fl_fs f)"
    using moved_streams [OF assms(1,2,4)] by blast
  obtain s' where "exclusiveRename (h_Name h)
      (path_Join (fo_OutputDir (fl_opts f)) (TrimPrefix (h_Name h) (fo_WorkDir (fl_opts f)))) (fl_fs f1) = (None, s')"
    using exclusiveRename_free c assms(5,6) by metis
  then have "fl_Close v f = Running (f1\<lparr>fl_fs := s'\<rparr>)"
    using assms(1,3) c by (simp add: fl_Close_def move_file_def Let_def)
  moreover have "out_stale (f1\<lparr>fl_fs := s'\<rparr>)" using c by (simp add: out_stale_def gzip_shut_def)
  ultimately show ?thesis by blast
qed

text \<open>With a working directory, \<open>Close\<close> returns after a successful move without clearing the file of the logger. After
  a HUP that finds the name in the output directory free, the logger still runs, but the next message, whatever it is,
  ends the process: its bytes go to a closed file, or the rotation syncs it.\<close>

theorem message_after_hup_exits:
  assumes "fl_out f = Some h" "\<not> h_closed h" "fo_WorkDir (fl_opts f) \<noteq> fo_OutputDir (fl_opts f)"
    "fs_faults (fl_fs f) = []" "map_of (fs_names (fl_fs f)) (h_Name h) \<noteq> None"
    "map_of (fs_names (fl_fs f)) (path_Join (fo_OutputDir (fl_opts f)) (TrimPrefix (h_Name h) (fo_WorkDir (fl_opts f)))) = None"
  shows "\<exists>f1. router_step v HupChan False f = Running f1 \<and> (\<forall>m b. \<exists>f2. router_step v (LogChan m) b f1 = Exited f2)"
proof -
  obtain f' where y: "fl_Sync v f = (None, f')" and f': "fl_out f' = fl_out f" "fl_opts f' = fl_opts f"
      "fs_faults (fl_fs f') = []" "fs_names (fl_fs f') = fs_names (fl_fs f)"
    using fl_Sync_quiet [OF assms(1,2,4)] by blast
  define f0 where "f0 = (if fl_output f = [] then f else
    f'\<lparr>fl_finished := fl_finished f' @ rev (fl_output f'), fl_output := []\<rparr>)"
  have f0: "sync_and_finish v f = Running f0" using y by (simp add: sync_and_finish_def f0_def)
  have same: "fl_out f0 = fl_out f" "fl_opts f0 = fl_opts f" "fs_names (fl_fs f0) = fs_names (fl_fs f)" "fs_faults (fl_fs f0) = []"
    using f' assms(4) by (simp_all add: f0_def)
  obtain f1 where f1: "fl_Close v f0 = Running f1" "out_stale f1"
    using moved_is_stale [of f0 h v, unfolded same] assms by blast
  have "router_step v HupChan False f = Running f1" using f0 f1(1) by (simp add: router_step_def router_select_def)
  then show ?thesis using stale_message [OF f1(2)] by blast
qed

theorem message_after_hup_exits_witness:
  "\<exists>f f1. ex_logger [(LogChan ex_msg, False)] = Running f \<and> router_step ex_env HupChan False f = Running f1 \<and>
     (\<exists>f2. router_step ex_env (LogChan ex_msg) False f1 = Exited f2)"
proof -
  let ?p = "ex_logger [(LogChan ex_msg, False)]"
  let ?f = "the (logger_of ?p)"
  let ?h = "\<lparr>h_Name = ''/w/t-000001'', h_inode = 1, h_closed = False\<rparr>"
  have p: "(case ?p of Running _ \<Rightarrow> True | _ \<Rightarrow> False)" by code_simp
  then have r: "?p = Running ?f" by (cases ?p) simp_all
  have h: "fl_out ?f = Some ?h" by code_simp
  have d: "fo_WorkDir (fl_opts ?f) \<noteq> fo_OutputDir (fl_opts ?f)" by code_simp
  have e: "fs_faults (fl_fs ?f) = []" by code_simp
  have src: "map_of (fs_names (fl_fs ?f)) (h_Name ?h) \<noteq> None" by code_simp
  have dst: "map_of (fs_names (fl_fs ?f))
      (path_Join (fo_OutputDir (fl_opts ?f)) (TrimPrefix (h_Name ?h) (fo_WorkDir (fl_opts ?f)))) = None" by code_simp
  have c: "\<not> h_closed ?h" by simp
  from message_after_hup_exits [OF h c d e src dst, of ex_env] r show ?thesis by blast
qed

end
