(* ===== verification/Nsq_FileRotation.thy ===== *)
theory Nsq_FileRotation
  imports Nsq_FileProps
begin

text \<open>
  Rotation ends: without a working directory, the loop of \<open>updateFile\<close> that looks for a free revision finds one after at
  most one round more than there are files. Different revisions are different names, since \<open>%06d\<close> is injective and the
  template contains the place for it.
\<close>

section \<open>Names of revisions\<close>

lemma decimal_value_append: "decimal_value (xs @ [d]) = decimal_value xs * 10 + (of_char d - 48)"
  by (simp add: decimal_value_def)

lemma decimal_value_digits: "decimal_value (digits n) = n"
proof (induction n rule: digits.induct)
  case (1 n)
  show ?case
  proof (cases "n < 10")
    case True
    then show ?thesis by (subst digits.simps) (simp add: decimal_value_def)
  next
    case False
    then show ?thesis using 1 by (subst digits.simps) (simp add: decimal_value_append)
  qed
qed

lemma decimal_value_zeros: "decimal_value (replicate k (CHR ''0'') @ xs) = decimal_value xs"
  by (induction k) (simp_all add: decimal_value_def)

lemma pad6_inject: "pad6 i = pad6 j \<longleftrightarrow> i = j"
  unfolding pad6_def by (metis decimal_value_digits decimal_value_zeros)

lemma Contains_Cons: "Contains (c # s) sub \<longleftrightarrow> take (length sub) (c # s) = sub \<or> Contains s sub"
proof -
  have C: "Contains t sub \<longleftrightarrow> (\<exists>i\<le>length t. take (length sub) (drop i t) = sub)" for t
    unfolding Contains_def by (simp add: Bex_def less_Suc_eq_le del: upt_Suc)
  have "(\<exists>i\<le>Suc n. P i) \<longleftrightarrow> P 0 \<or> (\<exists>i\<le>n. P (Suc i))" for n and P :: "nat \<Rightarrow> bool"
    by (metis Suc_le_mono le0 not0_implies_Suc)
  then show ?thesis by (simp add: C)
qed

text \<open>A replacement puts the new string between the same pieces, whatever it is.\<close>

lemma strings_Replace_pieces:
  "old \<noteq> [] \<Longrightarrow>
     \<exists>p ps. (\<forall>new. strings_Replace old new s = strings_Join (p # ps) new) \<and> (Contains s old \<longrightarrow> ps \<noteq> [])"
proof (induction s rule: length_induct)
  case (1 s)
  show ?case
  proof (cases s)
    case Nil
    have "\<not> Contains [] old" using "1.prems" by (simp add: Contains_def)
    then show ?thesis using Nil by (intro exI [of _ "[]"]) simp
  next
    case (Cons c t)
    show ?thesis
    proof (cases "take (length old) s = old")
      case True
      have "length (drop (length old) s) < length s" using "1.prems" Cons by (cases old) auto
      then obtain p ps where "\<forall>new. strings_Replace old new (drop (length old) s) = strings_Join (p # ps) new"
        using "1.IH" "1.prems" by blast
      then have "\<forall>new. strings_Replace old new s = strings_Join ([] # p # ps) new"
        using True Cons "1.prems" by simp
      then show ?thesis by blast
    next
      case False
      have "length t < length s" using Cons by simp
      then obtain p ps where i: "\<forall>new. strings_Replace old new t = strings_Join (p # ps) new" "Contains t old \<longrightarrow> ps \<noteq> []"
        using "1.IH" "1.prems" by blast
      have "strings_Replace old new s = strings_Join ((c # p) # ps) new" for new
        using False Cons i(1) by (cases ps) simp_all
      moreover have "Contains s old \<longrightarrow> ps \<noteq> []" using False i(2) Cons by (simp add: Contains_Cons)
      ultimately show ?thesis by blast
    qed
  qed
qed

lemma length_strings_Join: "length (strings_Join (p # ps) sep) = length (concat (p # ps)) + length ps * length sep"
  by (induction ps arbitrary: p) simp_all

lemma strings_Join_inject:
  assumes "ps \<noteq> []" "strings_Join (p # ps) a = strings_Join (p # ps) b"
  shows "a = b"
proof -
  have "length ps * length a = length ps * length b"
    using arg_cong [OF assms(2), of length] by (simp only: length_strings_Join)
  then have "length a = length b" using assms(1) by simp
  then show ?thesis using assms by (cases ps) simp_all
qed

lemma rev_name_inject: "Contains tmpl ''<REV>'' \<Longrightarrow> rev_name tmpl i = rev_name tmpl j \<longleftrightarrow> i = j"
  using strings_Replace_pieces [of "''<REV>''" tmpl] strings_Join_inject pad6_inject unfolding rev_name_def
  by (metis list.discI list.inject)

section \<open>The search for a free name\<close>

text \<open>A round that does not break has met a name that exists, and adds none.\<close>

lemma open_round_next:
  assumes "open_round tmpl f = (Inr False, f')" "fo_WorkDir (fl_opts f) = fo_OutputDir (fl_opts f)"
  shows "rev_name tmpl (fl_rev f) \<in> fst ` set (fs_names (fl_fs f)) \<and> fs_names (fl_fs f') = fs_names (fl_fs f) \<and>
    fl_opts f' = fl_opts f \<and> fl_rev f' = fl_rev f \<and>
    (fo_GZIP (fl_opts f) \<or> 0 < fo_RotateInterval (fl_opts f) \<or> 0 < fo_RotateSize (fl_opts f))"
proof -
  let ?name = "rev_name tmpl (fl_rev f)" and ?excl = "fo_GZIP (fl_opts f) \<or> 0 < fo_RotateInterval (fl_opts f)"
  obtain x s1 where n: "os_fault (fl_fs f) = (x, s1)" by (rule prod.exhaust)
  have s1: "fs_names s1 = fs_names (fl_fs f)" using os_fault_names [of "fl_fs f"] n by simp
  obtain r s where o: "os_OpenFile ?excl ?name (fl_fs f) = (r, s)" by (rule prod.exhaust)
  have *: "map_of (fs_names (fl_fs f)) ?name \<noteq> None"
    using assms o n s1
    by (auto simp: open_round_def check_output_def os_OpenFile_def Let_def file_Stat_def os_fault_def
        split: option.splits if_splits sum.splits os_err.splits prod.splits list.splits)
  then have names: "fs_names s = fs_names (fl_fs f)"
    using o n s1 by (auto simp: os_OpenFile_def split: option.splits)
  have "fs_names (fl_fs f') = fs_names s \<and> fl_opts f' = fl_opts f \<and> fl_rev f' = fl_rev f \<and>
      (?excl \<or> 0 < fo_RotateSize (fl_opts f))"
    using assms o n s1 *
    by (auto simp: open_round_def check_output_def os_OpenFile_def file_Stat_def os_fault_def
        split: option.splits if_splits sum.splits os_err.splits prod.splits list.splits)
  moreover have "?name \<in> fst ` set (fs_names (fl_fs f))" using * by (metis map_of_eq_None_iff)
  ultimately show ?thesis using names by simp
qed

definition taken :: "string \<Rightarrow> nat \<Rightarrow> fs \<Rightarrow> string set" where
  "taken tmpl r s = {x \<in> fst ` set (fs_names s). \<exists>k\<ge>r. x = rev_name tmpl k}"

lemma taken_Suc:
  assumes "Contains tmpl ''<REV>''" "rev_name tmpl r \<in> fst ` set (fs_names s)"
  shows "card (taken tmpl (Suc r) s) < card (taken tmpl r s)"
proof (rule psubset_card_mono)
  have "rev_name tmpl r \<in> taken tmpl r s" using assms(2) by (auto simp: taken_def)
  moreover have "rev_name tmpl r \<notin> taken tmpl (Suc r) s" using rev_name_inject [OF assms(1)] by (auto simp: taken_def)
  ultimately show "taken tmpl (Suc r) s \<subset> taken tmpl r s" by (auto simp: taken_def dest: Suc_leD)
qed (simp add: taken_def)

definition rotation_possible :: "FileOptions \<Rightarrow> bool" where
  "rotation_possible opts \<longleftrightarrow> fo_GZIP opts \<or> 0 < fo_RotateInterval opts \<or> 0 < fo_RotateSize opts"

lemma open_loop_returns:
  "fo_WorkDir (fl_opts f) = fo_OutputDir (fl_opts f) \<Longrightarrow>
   rotation_possible (fl_opts f) \<longrightarrow> Contains tmpl ''<REV>'' \<Longrightarrow>
   card (taken tmpl (fl_rev f) (fl_fs f)) < n \<Longrightarrow> open_loop n tmpl f \<noteq> Spinning"
proof (induction n arbitrary: f)
  case (Suc n)
  obtain r f1 where r: "open_round tmpl f = (r, f1)" by (rule prod.exhaust)
  show ?case
  proof (cases "r = Inr False")
    case True
    note o = open_round_next [OF r [unfolded True] Suc.prems(1)]
    then have rev: "Contains tmpl ''<REV>''" using Suc.prems(2) by (simp add: rotation_possible_def)
    let ?f = "f1\<lparr>fl_rev := fl_rev f1 + 1\<rparr>"
    have "taken tmpl (fl_rev ?f) (fl_fs ?f) = taken tmpl (Suc (fl_rev f)) (fl_fs f)" using o by (simp add: taken_def)
    then have "card (taken tmpl (fl_rev ?f) (fl_fs ?f)) < n"
      using taken_Suc [OF rev, of "fl_rev f" "fl_fs f"] o Suc.prems(3) by simp
    then have "open_loop n tmpl ?f \<noteq> Spinning" using Suc.IH [of ?f] Suc.prems o by simp
    then show ?thesis using r True by simp
  next
    case False
    then show ?thesis using r by (auto split: sum.split bool.split)
  qed
qed simp

lemma card_taken: "card (taken tmpl r s) \<le> length (fs_names s)"
proof -
  have "card (taken tmpl r s) \<le> card (fst ` set (fs_names s))" by (rule card_mono) (auto simp: taken_def)
  also have "\<dots> \<le> length (fs_names s)" by (metis card_length length_map set_map)
  finally show ?thesis .
qed

lemma close_streams_names:
  assumes "close_streams v h f = Running f1"
  shows "fs_names (fl_fs f1) = fs_names (fl_fs f) \<and> fl_opts f1 = fl_opts f \<and> fl_filenameFormat f1 = fl_filenameFormat f"
  using assms
  by (auto simp: close_streams_def file_Sync_def file_Close_def file_Write_def os_fault_def
      split: option.splits prod.splits if_splits list.splits)

lemma makeDirFromPath_names: "makeDirFromPath p s = (e, s') \<Longrightarrow> fs_names s' = fs_names s"
  using os_fault_names [of s]
  by (auto simp: makeDirFromPath_def os_MkdirAll_def Let_def split: if_splits prod.splits option.splits)



end
