(* ===== verification/Nsq_Quantile.thy ===== *)
theory Nsq_Quantile
  imports Nsq_Options "HOL-Library.Monad_Syntax"
begin

text \<open>
  \<open>internal/quantile/quantile.go\<close>: the latencies of a sliding window, in two streams that take turns. The estimator is a
  third-party package: a stream is the list of the values it was given since it was reset, what is merged into it
  included, and \<open>query\<close>, its estimate, is an argument. Percentiles are their texts. The loop over stale windows may not end:
  \<open>None\<close> is a loop that does not return.
\<close>

section \<open>Streams\<close>

record Quantile =
  q_stream0 :: "int list"
  q_stream1 :: "int list"
  q_currentIndex :: bool
  q_lastMoveWindow :: int
  q_Percentiles :: "string list"
  q_MoveWindowTime :: int

definition quantile_New :: "int \<Rightarrow> int \<Rightarrow> string list \<Rightarrow> Quantile" where
  "quantile_New now windowTime percentiles =
     \<lparr>q_stream0 = [], q_stream1 = [], q_currentIndex = False, q_lastMoveWindow = now, q_Percentiles = percentiles,
      q_MoveWindowTime = go_div windowTime 2\<rparr>"

definition IsDataStale :: "int \<Rightarrow> Quantile \<Rightarrow> bool" where
  "IsDataStale now q \<longleftrightarrow> q_lastMoveWindow q + q_MoveWindowTime q < now"

definition stream_of :: "bool \<Rightarrow> Quantile \<Rightarrow> int list" where
  "stream_of i q = (if i then q_stream1 q else q_stream0 q)"

definition set_stream :: "bool \<Rightarrow> int list \<Rightarrow> Quantile \<Rightarrow> Quantile" where
  "set_stream i xs q = (if i then q\<lparr>q_stream1 := xs\<rparr> else q\<lparr>q_stream0 := xs\<rparr>)"

definition moveWindow :: "Quantile \<Rightarrow> Quantile" where
  "moveWindow q =
     (let i = (\<not> q_currentIndex q) in
      set_stream i [] (q\<lparr>q_currentIndex := i, q_lastMoveWindow := q_lastMoveWindow q + q_MoveWindowTime q\<rparr>))"

partial_function (option) refresh :: "int \<Rightarrow> Quantile \<Rightarrow> Quantile option" where
  "refresh now q = (if IsDataStale now q then refresh now (moveWindow q) else Some q)"

definition quantile_Insert :: "int \<Rightarrow> int \<Rightarrow> Quantile \<Rightarrow> Quantile option" where
  "quantile_Insert now msgStartTime q =
     do {
       q1 \<leftarrow> refresh now q;
       Some (set_stream (q_currentIndex q1) (stream_of (q_currentIndex q1) q1 @ [now - msgStartTime]) q1)
     }"

text \<open>What is merged into a fresh stream, and the state it leaves.\<close>

definition QueryHandler :: "int \<Rightarrow> Quantile \<Rightarrow> (int list \<times> Quantile) option" where
  "QueryHandler now q = do { q1 \<leftarrow> refresh now q; Some (q_stream0 q1 @ q_stream1 q1, q1) }"

record QuantileResult =
  qr_Count :: nat
  qr_Percentiles :: "(string \<times> int) list"

definition quantile_Result :: "(int list \<Rightarrow> string \<Rightarrow> int) \<Rightarrow> int \<Rightarrow> Quantile option \<Rightarrow> QuantileResult option" where
  "quantile_Result query now qo =
     (case qo of
        None \<Rightarrow> Some \<lparr>qr_Count = 0, qr_Percentiles = []\<rparr>
      | Some q \<Rightarrow>
          do {
            (merged, q1) \<leftarrow> QueryHandler now q;
            Some \<lparr>qr_Count = length merged, qr_Percentiles = map (\<lambda>p. (p, query merged p)) (q_Percentiles q1)\<rparr>
          })"

definition quantile_Merge :: "Quantile \<Rightarrow> Quantile \<Rightarrow> Quantile" where
  "quantile_Merge them q =
     (let us = q_currentIndex q; th = q_currentIndex them;
          q1 = set_stream us (stream_of us q @ stream_of th them) q;
          q2 = set_stream (\<not> us) (stream_of (\<not> us) q1 @ stream_of (\<not> th) them) q1
      in if q_lastMoveWindow q2 < q_lastMoveWindow them then q2\<lparr>q_lastMoveWindow := q_lastMoveWindow them\<rparr> else q2)"

section \<open>The window\<close>

lemma stream_simps [simp]:
  "stream_of i (set_stream j xs q) = (if i = j then xs else stream_of i q)"
  "q_currentIndex (set_stream j xs q) = q_currentIndex q" "q_lastMoveWindow (set_stream j xs q) = q_lastMoveWindow q"
  "q_MoveWindowTime (set_stream j xs q) = q_MoveWindowTime q"
  "stream_of i (q\<lparr>q_currentIndex := b, q_lastMoveWindow := l\<rparr>) = stream_of i q"
  by (simp_all add: stream_of_def set_stream_def)

lemma moveWindow_simps [simp]:
  "q_currentIndex (moveWindow q) = (\<not> q_currentIndex q)"
  "q_lastMoveWindow (moveWindow q) = q_lastMoveWindow q + q_MoveWindowTime q"
  "q_MoveWindowTime (moveWindow q) = q_MoveWindowTime q"
  "stream_of i (moveWindow q) = (if i = (\<not> q_currentIndex q) then [] else stream_of i q)"
  by (auto simp: moveWindow_def Let_def)

lemma mset_streams: "mset (q_stream0 q @ q_stream1 q) = mset (stream_of (\<not> q_currentIndex q) q) + mset (stream_of (q_currentIndex q) q)"
  by (cases "q_currentIndex q") (simp_all add: stream_of_def)

text \<open>The values inserted so far, with the times of their insertion: those forgotten, those of the previous half of the
  window, and those of the current one.\<close>

definition windowed :: "(int \<times> int) list \<Rightarrow> Quantile \<Rightarrow> bool" where
  "windowed hist q \<longleftrightarrow> 0 < q_MoveWindowTime q \<and>
     (\<exists>old mid new. hist = old @ mid @ new \<and> stream_of (\<not> q_currentIndex q) q = map snd mid \<and>
        stream_of (q_currentIndex q) q = map snd new \<and>
        (\<forall>(t, v) \<in> set new. q_lastMoveWindow q \<le> t) \<and>
        (\<forall>(t, v) \<in> set mid. q_lastMoveWindow q - q_MoveWindowTime q \<le> t) \<and>
        (\<forall>(t, v) \<in> set old. t \<le> q_lastMoveWindow q - q_MoveWindowTime q) \<and>
        (\<forall>(t, v) \<in> set mid. t \<le> q_lastMoveWindow q) \<and>
        (\<forall>(t, v) \<in> set new. t \<le> q_lastMoveWindow q + q_MoveWindowTime q))"

lemma windowed_move:
  assumes "windowed hist q"
  shows "windowed hist (moveWindow q)"
proof -
  obtain old mid new where h: "hist = old @ mid @ new" "stream_of (\<not> q_currentIndex q) q = map snd mid"
    "stream_of (q_currentIndex q) q = map snd new" "\<forall>(t, v) \<in> set new. q_lastMoveWindow q \<le> t"
    "\<forall>(t, v) \<in> set old. t \<le> q_lastMoveWindow q - q_MoveWindowTime q" "\<forall>(t, v) \<in> set mid. t \<le> q_lastMoveWindow q"
    "\<forall>(t, v) \<in> set new. t \<le> q_lastMoveWindow q + q_MoveWindowTime q" and w: "0 < q_MoveWindowTime q"
    using assms by (auto simp: windowed_def)
  have "\<forall>(t, v) \<in> set (old @ mid). t \<le> q_lastMoveWindow q" using h(5,6) w by fastforce
  then show ?thesis
    unfolding windowed_def using h w
    by (intro conjI exI [of _ "old @ mid"] exI [of _ new] exI [of _ "[]"]) simp_all
qed

lemma refresh_windowed:
  assumes "windowed hist q" "q_lastMoveWindow q \<le> now"
  shows "\<exists>q'. refresh now q = Some q' \<and> windowed hist q' \<and> q_lastMoveWindow q' \<le> now \<and> \<not> IsDataStale now q' \<and>
    q_MoveWindowTime q' = q_MoveWindowTime q"
  using assms
proof (induction "nat (now - q_lastMoveWindow q)" arbitrary: q rule: less_induct)
  case less
  show ?case
  proof (cases "IsDataStale now q")
    case True
    have w: "0 < q_MoveWindowTime q" using less.prems(1) by (simp add: windowed_def)
    then have l: "q_lastMoveWindow (moveWindow q) \<le> now" "nat (now - q_lastMoveWindow (moveWindow q)) < nat (now - q_lastMoveWindow q)"
      using True by (auto simp: IsDataStale_def)
    from less.hyps [OF l(2) windowed_move [OF less.prems(1)] l(1)] show ?thesis
      using True by (simp add: refresh.simps [of now q])
  next
    case False
    then show ?thesis using less.prems by (simp add: refresh.simps)
  qed
qed

lemma insert_windowed:
  assumes "windowed hist q" "q_lastMoveWindow q \<le> now"
  shows "\<exists>q'. quantile_Insert now start q = Some q' \<and> windowed (hist @ [(now, now - start)]) q' \<and> q_lastMoveWindow q' \<le> now \<and>
    q_MoveWindowTime q' = q_MoveWindowTime q"
proof -
  obtain q1 where r: "refresh now q = Some q1" "windowed hist q1" "q_lastMoveWindow q1 \<le> now" "\<not> IsDataStale now q1"
    "q_MoveWindowTime q1 = q_MoveWindowTime q"
    using refresh_windowed [OF assms] by blast
  let ?i = "q_currentIndex q1"
  let ?q = "set_stream ?i (stream_of ?i q1 @ [now - start]) q1"
  obtain old mid new where h: "hist = old @ mid @ new" "stream_of (\<not> ?i) q1 = map snd mid" "stream_of ?i q1 = map snd new"
    "\<forall>(t, v) \<in> set new. q_lastMoveWindow q1 \<le> t" "\<forall>(t, v) \<in> set mid. q_lastMoveWindow q1 - q_MoveWindowTime q1 \<le> t"
    "\<forall>(t, v) \<in> set old. t \<le> q_lastMoveWindow q1 - q_MoveWindowTime q1" "\<forall>(t, v) \<in> set mid. t \<le> q_lastMoveWindow q1"
    "\<forall>(t, v) \<in> set new. t \<le> q_lastMoveWindow q1 + q_MoveWindowTime q1" and w: "0 < q_MoveWindowTime q1"
    using r(2) by (auto simp: windowed_def)
  have "windowed (hist @ [(now, now - start)]) ?q"
    unfolding windowed_def using h w r(3,4)
    by (intro conjI exI [of _ old] exI [of _ mid] exI [of _ "new @ [(now, now - start)]"]) (auto simp: IsDataStale_def)
  then show ?thesis using r by (simp add: quantile_Insert_def)
qed

text \<open>Inserts at the given times.\<close>

fun inserts :: "(int \<times> int) list \<Rightarrow> Quantile \<Rightarrow> Quantile option" where
  "inserts [] q = Some q"
| "inserts ((now, start) # ins) q = do { q1 \<leftarrow> quantile_Insert now start q; inserts ins q1 }"

definition latency_history :: "(int \<times> int) list \<Rightarrow> (int \<times> int) list" where
  "latency_history ins = map (\<lambda>(now, start). (now, now - start)) ins"

lemma inserts_windowed:
  assumes "windowed hist q" "sorted (q_lastMoveWindow q # map fst ins)"
  shows "\<exists>q'. inserts ins q = Some q' \<and> windowed (hist @ latency_history ins) q' \<and>
    q_lastMoveWindow q' \<le> last (q_lastMoveWindow q # map fst ins) \<and> q_MoveWindowTime q' = q_MoveWindowTime q"
  using assms
proof (induction ins arbitrary: hist q)
  case (Cons e ins)
  obtain now start where e: "e = (now, start)" by (rule prod.exhaust)
  have "q_lastMoveWindow q \<le> now" using Cons.prems(2) e by simp
  from insert_windowed [OF Cons.prems(1) this, of start] obtain q1 where q1:
    "quantile_Insert now start q = Some q1" "windowed (hist @ [(now, now - start)]) q1" "q_lastMoveWindow q1 \<le> now"
    "q_MoveWindowTime q1 = q_MoveWindowTime q" by blast
  have "sorted (q_lastMoveWindow q1 # map fst ins)" using Cons.prems(2) q1(3) e by auto
  from Cons.IH [OF q1(2) this] q1 show ?case
    by (auto simp: e latency_history_def split: if_splits)
qed (simp add: latency_history_def)

lemma new_windowed: "2 \<le> windowTime \<Longrightarrow> windowed [] (quantile_New now windowTime ps)"
  by (simp add: windowed_def quantile_New_def stream_of_def)

text \<open>C34. The latencies that a result is computed from are those of a sliding window. For a window of \<open>windowTime\<close> nanoseconds,
  every latency recorded less than half a window ago is used, and none recorded more than a window ago; the loops
  return.\<close>

theorem latency_window:
  assumes "2 \<le> windowTime" "sorted (t0 # map fst ins @ [now])"
  shows "\<exists>q merged q' old kept. inserts ins (quantile_New t0 windowTime ps) = Some q \<and> QueryHandler now q = Some (merged, q') \<and>
    latency_history ins = old @ kept \<and> mset merged = mset (map snd kept) \<and>
    (\<forall>(t, v) \<in> set old. windowTime div 2 \<le> now - t) \<and> (\<forall>(t, v) \<in> set kept. now - t \<le> windowTime)"
proof -
  let ?q0 = "quantile_New t0 windowTime ps" and ?W = "windowTime div 2"
  have q0: "q_lastMoveWindow ?q0 = t0" "q_MoveWindowTime ?q0 = ?W" using assms(1) by (simp_all add: quantile_New_def)
  have s: "sorted (t0 # map fst ins)" using assms(2) by (auto simp: sorted_append)
  have l: "last (t0 # map fst ins) \<le> now" using assms(2) by (cases "ins = []") (auto simp: sorted_append last_map)
  obtain q where q: "inserts ins ?q0 = Some q" "windowed (latency_history ins) q" "q_lastMoveWindow q \<le> now"
    "q_MoveWindowTime q = ?W"
    using inserts_windowed [OF new_windowed [OF assms(1)], of t0 ps ins] s l unfolding q0 by fastforce
  obtain q' where r: "refresh now q = Some q'" "windowed (latency_history ins) q'" "q_lastMoveWindow q' \<le> now"
    "\<not> IsDataStale now q'" "q_MoveWindowTime q' = ?W"
    using refresh_windowed [OF q(2,3)] q(4) by auto
  obtain old mid new where h: "latency_history ins = old @ mid @ new" "stream_of (\<not> q_currentIndex q') q' = map snd mid"
    "stream_of (q_currentIndex q') q' = map snd new" "\<forall>(t, v) \<in> set new. q_lastMoveWindow q' \<le> t"
    "\<forall>(t, v) \<in> set mid. q_lastMoveWindow q' - ?W \<le> t" "\<forall>(t, v) \<in> set old. t \<le> q_lastMoveWindow q' - ?W"
    using r(2,5) by (auto simp: windowed_def)
  have "mset (q_stream0 q' @ q_stream1 q') = mset (map snd (mid @ new))" using mset_streams [of q'] h(2,3) by simp
  moreover have "\<forall>(t, v) \<in> set old. ?W \<le> now - t" using h(6) r(3) by fastforce
  moreover have "\<forall>(t, v) \<in> set (mid @ new). now - t \<le> windowTime"
    using h(4,5) r(4,5) assms(1) by (fastforce simp: IsDataStale_def)
  ultimately show ?thesis
    using q(1) r(1) h(1) by (intro exI [of _ q] exI [of _ "q_stream0 q' @ q_stream1 q'"] exI [of _ q'] exI [of _ old]
        exI [of _ "mid @ new"]) (simp add: QueryHandler_def)
qed

theorem latency_window_witness:
  "\<exists>q merged q' old kept. inserts [(5, 1), (8, 2), (14, 9)] (quantile_New 0 10 []) = Some q \<and>
    QueryHandler 16 q = Some (merged, q') \<and> [(5, 4), (8, 6), (14, 5)] = old @ kept \<and> mset merged = mset (map snd kept) \<and>
    (\<forall>(t, v) \<in> set old. 5 \<le> 16 - t) \<and> (\<forall>(t, v) \<in> set kept. 16 - t \<le> (10 :: int))"
  using latency_window [of 10 0 "[(5, 1), (8, 2), (14, 9)]" 16 "[]"] by (simp add: latency_history_def)

text \<open>With a window of at most a nanosecond the loop never returns once the clock has moved.\<close>

lemma empty_window_hangs:
  assumes "q_MoveWindowTime q = 0" "q_lastMoveWindow q < now"
  shows "refresh now q = None"
proof -
  have "q_MoveWindowTime p = 0 \<longrightarrow> t \<le> q_lastMoveWindow p" if r: "refresh t p = Some r" for t p r
  proof (rule refresh.raw_induct [where P = "\<lambda>t p r. q_MoveWindowTime p = 0 \<longrightarrow> t \<le> q_lastMoveWindow p", OF _ r])
    fix rec :: "int \<Rightarrow> Quantile \<Rightarrow> Quantile option" and t p r
    assume ih: "\<And>t p r. rec t p = Some r \<Longrightarrow> q_MoveWindowTime p = 0 \<longrightarrow> t \<le> q_lastMoveWindow p"
      and e: "(if IsDataStale t p then rec t (moveWindow p) else Some p) = Some r"
    show "q_MoveWindowTime p = 0 \<longrightarrow> t \<le> q_lastMoveWindow p"
      using e ih [of t "moveWindow p" r] by (auto simp: IsDataStale_def split: if_splits)
  qed
  then show ?thesis using assms by (cases "refresh now q") fastforce+
qed

end
