(* ===== verification/Nsq_Relay.thy ===== *)
theory Nsq_Relay
  imports Nsq_FileLogger Complex_Main
begin

text \<open>
  \<open>apps/nsq_to_nsq\<close>: a consumer that publishes the messages of some topics again at other daemons, after an optional
  filter on JSON bodies. The client library \<open>go-nsq\<close>, the host pool and \<open>encoding/json\<close> are parameters of the model.
  \<open>PublishAsync\<close> returns at once: a call that returned no error is answered later, by the transaction with the arguments
  it was given, which a responder goroutine receives. The outcome of a call and the moment and the result of its
  transaction are arguments of the events of a run. One message is handled without interruption: what a responder does
  between \<open>PublishAsync\<close> and \<open>DisableAutoResponse\<close> commutes with the rest of the handler.
\<close>

section \<open>Lists of flags\<close>

text \<open>\<open>internal/app\<close>: a flag that may be given several times.\<close>

type_synonym StringArray = "string list"

definition StringArray_Set :: "string \<Rightarrow> StringArray \<Rightarrow> StringArray" where
  "StringArray_Set s a = a @ [s]"

definition StringArray_String :: "StringArray \<Rightarrow> string" where
  "StringArray_String a = strings_Join a '',''"

section \<open>Floating-point numbers\<close>

text \<open>
  A \<open>float64\<close> is its value; the two zeros compare equal and are one value here. A conversion to \<open>int64\<close> drops the
  fraction; out of range its result is up to the implementation and an argument. A conversion from \<open>int64\<close> rounds to
  53 bits, half to even.
\<close>

datatype float64 = Finite rat | Infinite bool | NaN

fun float64_eq :: "float64 \<Rightarrow> float64 \<Rightarrow> bool" where
  "float64_eq (Finite a) (Finite b) \<longleftrightarrow> a = b"
| "float64_eq (Infinite a) (Infinite b) \<longleftrightarrow> a = b"
| "float64_eq _ _ \<longleftrightarrow> False"

definition truncate_rat :: "rat \<Rightarrow> int" where
  "truncate_rat q = (if 0 \<le> q then floor q else ceiling q)"

definition int64_of_float64 :: "(float64 \<Rightarrow> i64) \<Rightarrow> float64 \<Rightarrow> i64" where
  "int64_of_float64 out t =
     (case t of
        Finite q \<Rightarrow> (if - (2 ^ 63) \<le> truncate_rat q \<and> truncate_rat q < 2 ^ 63 then word_of_int (truncate_rat q) else out t)
      | _ \<Rightarrow> out t)"

fun bit_length :: "nat \<Rightarrow> nat" where
  "bit_length n = (if n = 0 then 0 else Suc (bit_length (n div 2)))"

declare bit_length.simps [simp del]

definition round53 :: "nat \<Rightarrow> nat" where
  "round53 a =
     (let u = 2 ^ (bit_length a - 53); q = a div u; r = a mod u
      in (if u < 2 * r \<or> (2 * r = u \<and> odd q) then q + 1 else q) * u)"

definition float64_of_int64 :: "i64 \<Rightarrow> float64" where
  "float64_of_int64 i = Finite (of_int (sgn (sint i) * int (round53 (nat \<bar>sint i\<bar>))))"

section \<open>Data\<close>

record relay_flags =
  rf_showVersion :: bool
  rf_channel :: string
  rf_destTopic :: string
  rf_maxInFlight :: int
  rf_statusEvery :: int
  rf_mode :: string
  rf_nsqdTCPAddrs :: StringArray
  rf_lookupdHTTPAddrs :: StringArray
  rf_destNsqdTCPAddrs :: StringArray
  rf_whitelistJSONFields :: StringArray
  rf_topics :: StringArray
  rf_requireJSONField :: string
  rf_requireJSONValue :: string

definition relay_defaults :: relay_flags where
  "relay_defaults =
     \<lparr>rf_showVersion = False, rf_channel = ''nsq_to_nsq'', rf_destTopic = [], rf_maxInFlight = 200, rf_statusEvery = 250,
      rf_mode = ''hostpool'', rf_nsqdTCPAddrs = [], rf_lookupdHTTPAddrs = [], rf_destNsqdTCPAddrs = [],
      rf_whitelistJSONFields = [], rf_topics = [], rf_requireJSONField = [], rf_requireJSONValue = []\<rparr>"

text \<open>The values of a decoded JSON object that the code tells apart; an \<open>int64\<close> only comes from the filter.\<close>

datatype 'j json = JString string | JFloat float64 | JInt64 i64 | JOther 'j

type_synonym 'j json_object = "string \<Rightarrow> 'j json option"

text \<open>The arguments of a transaction are values of the type \<open>interface{}\<close>.\<close>

datatype 'r arg = AMessage nsq_Message | ATime int | AString string | AHostPoolResponse 'r

record 'r transaction =
  tx_Address :: string
  tx_Topic :: string
  tx_Body :: bytes
  tx_Args :: "'r arg list"

datatype relay_mode = RelayRoundRobin | RelayHostPool

record 'p PublishHandler =
  ph_counter :: u64
  ph_addresses :: StringArray
  ph_producers :: "string list"
  ph_mode :: relay_mode
  ph_hostPool :: 'p
  ph_requireJSONValueParsed :: bool
  ph_requireJSONValueIsNumber :: bool
  ph_requireJSONNumber :: float64
  ph_perAddressStatus :: "string list"

record TopicHandler =
  th_destinationTopic :: string

text \<open>The host pool: \<open>hostpool.New\<close>, \<open>NewEpsilonGreedy\<close> (the argument says which), \<open>Get\<close>, \<open>Host\<close> and \<open>Mark\<close>.\<close>

record ('p, 'r) hostpool =
  hp_New :: "bool \<Rightarrow> string list \<Rightarrow> 'p"
  hp_Get :: "'p \<Rightarrow> 'r \<times> 'p"
  hp_Host :: "'r \<Rightarrow> string"
  hp_Mark :: "'r \<Rightarrow> go_error option \<Rightarrow> 'p \<Rightarrow> 'p"

record ('p, 'r, 'j) relay_env =
  re_flags :: relay_flags
  re_pool :: "('p, 'r) hostpool"
  re_Unmarshal :: "bytes \<Rightarrow> 'j json_object option"
  re_Marshal :: "'j json_object \<Rightarrow> bytes option"
  re_ParseFloat :: "string \<Rightarrow> float64 \<times> go_error option"
  re_out_of_range :: "float64 \<Rightarrow> i64"

datatype msg_response = Finish | Requeue int

record ('p, 'r) relay =
  rl_handler :: "'p PublishHandler"
  rl_outstanding :: "'r transaction list"
  rl_received :: "nsq_Message list"
  rl_answers :: "(nsq_Message \<times> msg_response) list"
  rl_accepted :: "(string \<times> string \<times> bytes) list"

section \<open>The filter\<close>

definition parse_required :: "('p, 'r, 'j) relay_env \<Rightarrow> 'p PublishHandler \<Rightarrow> 'p PublishHandler" where
  "parse_required v ph =
     (if rf_requireJSONValue (re_flags v) \<noteq> [] \<and> \<not> ph_requireJSONValueParsed ph
      then case re_ParseFloat v (rf_requireJSONValue (re_flags v)) of
             (x, err) \<Rightarrow> ph\<lparr>ph_requireJSONNumber := x, ph_requireJSONValueIsNumber := (err = None),
                             ph_requireJSONValueParsed := True\<rparr>
      else ph)"

definition value_matches :: "string \<Rightarrow> 'p PublishHandler \<Rightarrow> 'j json \<Rightarrow> bool" where
  "value_matches required ph x =
     (case x of
        JString s \<Rightarrow> s = required
      | JFloat f \<Rightarrow> ph_requireJSONValueIsNumber ph \<and> float64_eq f (ph_requireJSONNumber ph)
      | _ \<Rightarrow> False)"

text \<open>The two results are \<open>pass\<close> and \<open>backoff\<close>.\<close>

definition shouldPassMessage ::
    "('p, 'r, 'j) relay_env \<Rightarrow> 'j json_object \<Rightarrow> 'p PublishHandler \<Rightarrow> (bool \<times> bool) \<times> 'p PublishHandler" where
  "shouldPassMessage v js ph =
     (let field = rf_requireJSONField (re_flags v); required = rf_requireJSONValue (re_flags v) in
      if field = [] then ((True, False), ph)
      else let ph1 = parse_required v ph in
           case js field of
             None \<Rightarrow> ((False, required \<noteq> []), ph1)
           | Some x \<Rightarrow> ((required \<noteq> [] \<longrightarrow> value_matches required ph1 x, False), ph1))"

definition filter_value :: "(float64 \<Rightarrow> i64) \<Rightarrow> 'j json \<Rightarrow> 'j json" where
  "filter_value out x =
     (case x of
        JFloat t \<Rightarrow> (let i = int64_of_float64 out t in if float64_eq (float64_of_int64 i) t then JInt64 i else JFloat t)
      | _ \<Rightarrow> x)"

fun filter_fields :: "(float64 \<Rightarrow> i64) \<Rightarrow> string list \<Rightarrow> 'j json_object \<Rightarrow> 'j json_object \<Rightarrow> 'j json_object" where
  "filter_fields out [] js newMsg = newMsg"
| "filter_fields out (key # keys) js newMsg =
     filter_fields out keys js
       (case js key of None \<Rightarrow> newMsg | Some x \<Rightarrow> newMsg(key \<mapsto> filter_value out x))"

definition filterMessage :: "('p, 'r, 'j) relay_env \<Rightarrow> 'j json_object \<Rightarrow> bytes \<Rightarrow> go_error + bytes" where
  "filterMessage v js rawMsg =
     (if rf_whitelistJSONFields (re_flags v) = [] then Inr rawMsg
      else case re_Marshal v (filter_fields (re_out_of_range v) (rf_whitelistJSONFields (re_flags v)) js Map.empty) of
             None \<Rightarrow> Inl ''unable to marshal filtered message''
           | Some b \<Rightarrow> Inr b)"

section \<open>The handler\<close>

text \<open>The choice of a destination in turn; no addresses are a division by zero, which panics.\<close>

definition round_robin :: "u64 \<Rightarrow> StringArray \<Rightarrow> (string \<times> u64) option" where
  "round_robin counter addresses =
     (if addresses = [] then None
      else Some (addresses ! (unat (counter + 1) mod length addresses), counter + 1))"

text \<open>What the handler makes of a message before it publishes: \<open>Inl\<close> is its early return, \<open>Inr\<close> the body it publishes.\<close>

definition relay_body ::
    "('p, 'r, 'j) relay_env \<Rightarrow> bytes \<Rightarrow> 'p PublishHandler \<Rightarrow> (go_error option + bytes) \<times> 'p PublishHandler" where
  "relay_body v body ph =
     (if rf_requireJSONField (re_flags v) \<noteq> [] \<or> rf_whitelistJSONFields (re_flags v) \<noteq> [] then
        (case re_Unmarshal v body of
           None \<Rightarrow> (Inl None, ph)
         | Some js \<Rightarrow>
             (case shouldPassMessage v js ph of
                ((pass, backoff), ph1) \<Rightarrow>
                  if \<not> pass then (Inl (if backoff then Some ''backoff'' else None), ph1)
                  else case filterMessage v js body of
                         Inl e \<Rightarrow> (Inl (Some e), ph1)
                       | Inr b \<Rightarrow> (Inr b, ph1)))
      else (Inr body, ph))"

text \<open>
  \<open>pub\<close> is the error a call of \<open>PublishAsync\<close> returns. A producer that is missing from the map is a nil pointer, and the
  call panics: the result is \<open>None\<close>. The first result is the error the handler returns, the second whether it disabled
  the automatic response.
\<close>

definition relay_HandleMessage ::
    "('p, 'r, 'j) relay_env \<Rightarrow> go_error option \<Rightarrow> int \<Rightarrow> nsq_Message \<Rightarrow> string \<Rightarrow> ('p, 'r) relay \<Rightarrow>
       ((go_error option \<times> bool) \<times> ('p, 'r) relay) option" where
  "relay_HandleMessage v pub now m destinationTopic s =
     (case relay_body v (nm_Body m) (rl_handler s) of
        (Inl err, ph1) \<Rightarrow> Some ((err, False), s\<lparr>rl_handler := ph1\<rparr>)
      | (Inr body, ph1) \<Rightarrow>
          (case ph_mode ph1 of
             RelayRoundRobin \<Rightarrow>
               (case round_robin (ph_counter ph1) (ph_addresses ph1) of
                  None \<Rightarrow> None
                | Some (addr, counter) \<Rightarrow>
                    if addr \<notin> set (ph_producers ph1) then None
                    else let s1 = s\<lparr>rl_handler := ph1\<lparr>ph_counter := counter\<rparr>\<rparr> in
                         (case pub of
                            Some e \<Rightarrow> Some ((Some e, False), s1)
                          | None \<Rightarrow>
                              Some ((None, True),
                                    s1\<lparr>rl_outstanding := rl_outstanding s1 @
                                         [\<lparr>tx_Address = addr, tx_Topic = destinationTopic, tx_Body = body,
                                           tx_Args = [AMessage m, ATime now, AString addr]\<rparr>]\<rparr>)))
           | RelayHostPool \<Rightarrow>
               (case hp_Get (re_pool v) (ph_hostPool ph1) of
                  (r, pool) \<Rightarrow>
                    let addr = hp_Host (re_pool v) r in
                    if addr \<notin> set (ph_producers ph1) then None
                    else (case pub of
                            Some e \<Rightarrow>
                              Some ((Some e, False), s\<lparr>rl_handler := ph1\<lparr>ph_hostPool := hp_Mark (re_pool v) r (Some e) pool\<rparr>\<rparr>)
                          | None \<Rightarrow>
                              Some ((None, True),
                                    s\<lparr>rl_handler := ph1\<lparr>ph_hostPool := pool\<rparr>,
                                      rl_outstanding := rl_outstanding s @
                                         [\<lparr>tx_Address = addr, tx_Topic = destinationTopic, tx_Body = body,
                                           tx_Args = [AMessage m, ATime now, AHostPoolResponse r]\<rparr>]\<rparr>)))))"

definition topic_HandleMessage ::
    "('p, 'r, 'j) relay_env \<Rightarrow> go_error option \<Rightarrow> int \<Rightarrow> TopicHandler \<Rightarrow> nsq_Message \<Rightarrow> ('p, 'r) relay \<Rightarrow>
       ((go_error option \<times> bool) \<times> ('p, 'r) relay) option" where
  "topic_HandleMessage v pub now t m s = relay_HandleMessage v pub now m (th_destinationTopic t) s"

section \<open>The responder\<close>

text \<open>The type assertions of the two modes; one that fails panics.\<close>

definition assert_args ::
    "('p, 'r) hostpool \<Rightarrow> relay_mode \<Rightarrow> 'r arg list \<Rightarrow> (nsq_Message \<times> string \<times> 'r option) option" where
  "assert_args hp mode args =
     (case (mode, args) of
        (RelayRoundRobin, AMessage m # ATime t # AString a # _) \<Rightarrow> Some (m, a, None)
      | (RelayHostPool, AMessage m # ATime t # AHostPoolResponse r # _) \<Rightarrow> Some (m, hp_Host hp r, Some r)
      | _ \<Rightarrow> None)"

definition responder :: "('p, 'r, 'j) relay_env \<Rightarrow> 'r arg list \<Rightarrow> go_error option \<Rightarrow> ('p, 'r) relay \<Rightarrow> ('p, 'r) relay option" where
  "responder v args err s =
     (case assert_args (re_pool v) (ph_mode (rl_handler s)) args of
        None \<Rightarrow> None
      | Some (m, address, hostPoolResponse) \<Rightarrow>
          let ph = rl_handler s;
              ph1 = (case hostPoolResponse of
                       None \<Rightarrow> ph
                     | Some r \<Rightarrow> ph\<lparr>ph_hostPool := hp_Mark (re_pool v) r (if err = None then None else Some ''failed'')
                                                    (ph_hostPool ph)\<rparr>);
              s1 = s\<lparr>rl_handler := ph1, rl_answers := rl_answers s @ [(m, if err = None then Finish else Requeue (- 1))]\<rparr>
          in if address \<in> set (ph_perAddressStatus ph1) then Some s1 else None)"

section \<open>The program\<close>

datatype 'a started = Version | Fatal go_error | Started 'a

definition nsq_addrs_check :: "string list \<Rightarrow> string list \<Rightarrow> go_error option" where
  "nsq_addrs_check nsqds lookupds =
     (if nsqds = [] \<and> lookupds = [] then Some ''--nsqd-tcp-address or --lookupd-http-address required''
      else if nsqds \<noteq> [] \<and> lookupds \<noteq> [] then Some ''use --nsqd-tcp-address or --lookupd-http-address not both''
      else None)"

definition relay_check :: "relay_flags \<Rightarrow> go_error option" where
  "relay_check f =
     (if rf_topics f = [] \<or> rf_channel f = [] then Some ''--topic and --channel are required''
      else if \<not> list_all IsValidTopicName (rf_topics f) then Some ''--topic is invalid''
      else if rf_destTopic f \<noteq> [] \<and> \<not> IsValidTopicName (rf_destTopic f) then Some ''--destination-topic is invalid''
      else if \<not> IsValidChannelName (rf_channel f) then Some ''--channel is invalid''
      else case nsq_addrs_check (rf_nsqdTCPAddrs f) (rf_lookupdHTTPAddrs f) of
             Some e \<Rightarrow> Some e
           | None \<Rightarrow> if rf_destNsqdTCPAddrs f = [] then Some ''--destination-nsqd-tcp-address required'' else None)"

definition relay_selectedMode :: "string \<Rightarrow> relay_mode" where
  "relay_selectedMode mode =
     (if mode = ''round-robin'' then RelayRoundRobin
      else if mode = ''hostpool'' \<or> mode = ''epsilon-greedy'' then RelayHostPool
      else RelayRoundRobin)"

definition NewPublishHandler :: "('p, 'r) hostpool \<Rightarrow> relay_flags \<Rightarrow> 'p PublishHandler" where
  "NewPublishHandler hp f =
     \<lparr>ph_counter = 0, ph_addresses = rf_destNsqdTCPAddrs f, ph_producers = rf_destNsqdTCPAddrs f,
      ph_mode = relay_selectedMode (rf_mode f),
      ph_hostPool = hp_New hp (rf_mode f = ''epsilon-greedy'') (rf_destNsqdTCPAddrs f),
      ph_requireJSONValueParsed = False, ph_requireJSONValueIsNumber = False, ph_requireJSONNumber = Finite 0,
      ph_perAddressStatus = rf_destNsqdTCPAddrs f\<rparr>"

definition relay_handlers :: "relay_flags \<Rightarrow> TopicHandler list" where
  "relay_handlers f =
     map (\<lambda>topic. \<lparr>th_destinationTopic = (if rf_destTopic f \<noteq> [] then rf_destTopic f else topic)\<rparr>) (rf_topics f)"

fun first_error :: "('a \<Rightarrow> go_error option) \<Rightarrow> 'a list \<Rightarrow> go_error option" where
  "first_error f [] = None"
| "first_error f (x # xs) = (case f x of Some e \<Rightarrow> Some e | None \<Rightarrow> first_error f xs)"

text \<open>The producers, the consumers and their connections belong to \<open>go-nsq\<close>; their results are arguments. The handlers of the
  topics share one \<open>PublishHandler\<close>.\<close>

definition relay_main ::
    "('p, 'r, 'j) relay_env \<Rightarrow> (string \<Rightarrow> go_error option) \<Rightarrow> (string \<Rightarrow> go_error option) \<Rightarrow> (string \<Rightarrow> go_error option) \<Rightarrow>
       (string \<Rightarrow> go_error option) \<Rightarrow> (TopicHandler list \<times> ('p, 'r) relay) started" where
  "relay_main v newProducer newConsumer connectNSQDs connectLookupds =
     (let f = re_flags v in
      if rf_showVersion f then Version
      else case relay_check f of
        Some e \<Rightarrow> Fatal e
      | None \<Rightarrow>
          (case first_error newProducer (rf_destNsqdTCPAddrs f) of
             Some e \<Rightarrow> Fatal (''failed creating producer '' @ e)
           | None \<Rightarrow>
               (case first_error newConsumer (rf_topics f) of
                  Some e \<Rightarrow> Fatal e
                | None \<Rightarrow>
                    (case first_error connectNSQDs (rf_topics f) of
                       Some e \<Rightarrow> Fatal e
                     | None \<Rightarrow>
                         (case first_error connectLookupds (rf_topics f) of
                            Some e \<Rightarrow> Fatal e
                          | None \<Rightarrow>
                              Started (relay_handlers f,
                                       \<lparr>rl_handler = NewPublishHandler (re_pool v) f, rl_outstanding = [], rl_received = [],
                                        rl_answers = [], rl_accepted = []\<rparr>))))))"

text \<open>
  A run. \<open>RelayMessage i m pub now\<close>: the consumer of the topic with index \<open>i\<close> calls its handler with \<open>m\<close>; after the return the client
  library finishes the message, or requeues it after an error, unless the automatic response is disabled.
  \<open>RelayDone k err\<close>: the transaction with index \<open>k\<close> among the outstanding ones arrives with the error \<open>err\<close>; without one, the
  destination has accepted the message.
\<close>

datatype relay_event = RelayMessage nat nsq_Message "go_error option" int | RelayDone nat "go_error option"

definition auto_response :: "go_error option \<Rightarrow> msg_response" where
  "auto_response err = (if err = None then Finish else Requeue (- 1))"

fun relay_valid :: "TopicHandler list \<Rightarrow> ('p, 'r) relay \<Rightarrow> relay_event \<Rightarrow> bool" where
  "relay_valid hs s (RelayMessage i m pub now) \<longleftrightarrow> i < length hs"
| "relay_valid hs s (RelayDone k err) \<longleftrightarrow> k < length (rl_outstanding s)"

fun remove_nth :: "nat \<Rightarrow> 'a list \<Rightarrow> 'a list" where
  "remove_nth k xs = take k xs @ drop (Suc k) xs"

fun relay_exec :: "('p, 'r, 'j) relay_env \<Rightarrow> TopicHandler list \<Rightarrow> relay_event \<Rightarrow> ('p, 'r) relay \<Rightarrow> ('p, 'r) relay option" where
  "relay_exec v hs (RelayMessage i m pub now) s =
     (case topic_HandleMessage v pub now (hs ! i) m (s\<lparr>rl_received := rl_received s @ [m]\<rparr>) of
        None \<Rightarrow> None
      | Some ((err, disabled), s1) \<Rightarrow>
          Some (if disabled then s1 else s1\<lparr>rl_answers := rl_answers s1 @ [(m, auto_response err)]\<rparr>))"
| "relay_exec v hs (RelayDone k err) s =
     (let t = rl_outstanding s ! k;
          s1 = s\<lparr>rl_outstanding := remove_nth k (rl_outstanding s),
                 rl_accepted := rl_accepted s @ (if err = None then [(tx_Address t, tx_Topic t, tx_Body t)] else [])\<rparr>
      in responder v (tx_Args t) err s1)"

inductive relay_run :: "('p, 'r, 'j) relay_env \<Rightarrow> TopicHandler list \<Rightarrow> ('p, 'r) relay \<Rightarrow> ('p, 'r) relay \<Rightarrow> bool" for v hs s0 where
  relay_start: "relay_run v hs s0 s0"
| relay_next: "relay_run v hs s0 s \<Longrightarrow> relay_valid hs s ev \<Longrightarrow> relay_exec v hs ev s = Some s' \<Longrightarrow> relay_run v hs s0 s'"

end
