(* ===== verification/Nsq_RelayProps.thy ===== *)
theory Nsq_RelayProps
  imports Nsq_Relay
begin

text \<open>
  What \<open>nsq_to_nsq\<close> does with the messages it receives: each is answered once, it is finished only if a destination has
  accepted it or the filter drops it, and nothing in the program panics. The number cached by the filter is compared with
  a definition that has no state. The choice of destinations in turn is even.
\<close>

section \<open>The filter without its cache\<close>

definition required_value :: "('p, 'r, 'j) relay_env \<Rightarrow> 'j json \<Rightarrow> bool" where
  "required_value v x =
     (let required = rf_requireJSONValue (re_flags v) in
      required = [] \<or>
      (case x of
         JString s \<Rightarrow> s = required
       | JFloat f \<Rightarrow> snd (re_ParseFloat v required) = None \<and> float64_eq f (fst (re_ParseFloat v required))
       | _ \<Rightarrow> False))"

definition whitelisted :: "('p, 'r, 'j) relay_env \<Rightarrow> 'j json_object \<Rightarrow> 'j json_object" where
  "whitelisted v js =
     (\<lambda>key. if key \<in> set (rf_whitelistJSONFields (re_flags v)) then map_option (filter_value (re_out_of_range v)) (js key)
            else None)"

text \<open>\<open>Inl None\<close>: the message is dropped. \<open>Inl (Some e)\<close>: it is refused with an error. \<open>Inr b\<close>: \<open>b\<close> is published.\<close>

definition relay_spec :: "('p, 'r, 'j) relay_env \<Rightarrow> bytes \<Rightarrow> go_error option + bytes" where
  "relay_spec v body =
     (let field = rf_requireJSONField (re_flags v); keys = rf_whitelistJSONFields (re_flags v) in
      if field = [] \<and> keys = [] then Inr body
      else case re_Unmarshal v body of
        None \<Rightarrow> Inl None
      | Some js \<Rightarrow>
          if field \<noteq> [] \<and> js field = None
          then Inl (if rf_requireJSONValue (re_flags v) = [] then None else Some ''backoff'')
          else if field \<noteq> [] \<and> \<not> required_value v (the (js field)) then Inl None
          else if keys = [] then Inr body
          else case re_Marshal v (whitelisted v js) of
                 None \<Rightarrow> Inl (Some ''unable to marshal filtered message'')
               | Some b \<Rightarrow> Inr b)"

definition cache_ok :: "('p, 'r, 'j) relay_env \<Rightarrow> 'p PublishHandler \<Rightarrow> bool" where
  "cache_ok v ph \<longleftrightarrow>
     (ph_requireJSONValueParsed ph \<longrightarrow>
        ph_requireJSONNumber ph = fst (re_ParseFloat v (rf_requireJSONValue (re_flags v))) \<and>
        (ph_requireJSONValueIsNumber ph \<longleftrightarrow> snd (re_ParseFloat v (rf_requireJSONValue (re_flags v))) = None))"

lemma filter_fields_eq:
  "filter_fields out keys js newMsg =
     (\<lambda>key. if key \<in> set keys \<and> js key \<noteq> None then map_option (filter_value out) (js key) else newMsg key)"
  by (induction keys arbitrary: newMsg) (auto simp: fun_eq_iff split: option.splits)

lemma filterMessage_whitelisted:
  "filterMessage v js raw =
     (if rf_whitelistJSONFields (re_flags v) = [] then Inr raw
      else case re_Marshal v (whitelisted v js) of
             None \<Rightarrow> Inl ''unable to marshal filtered message''
           | Some b \<Rightarrow> Inr b)"
proof -
  have "filter_fields (re_out_of_range v) (rf_whitelistJSONFields (re_flags v)) js Map.empty = whitelisted v js"
    by (auto simp: filter_fields_eq whitelisted_def fun_eq_iff)
  then show ?thesis by (simp add: filterMessage_def)
qed

lemma parse_required_cache: "cache_ok v ph \<Longrightarrow> cache_ok v (parse_required v ph)"
  by (auto simp: cache_ok_def parse_required_def split: prod.split)

lemma parse_required_parsed:
  "rf_requireJSONValue (re_flags v) \<noteq> [] \<Longrightarrow> ph_requireJSONValueParsed (parse_required v ph)"
  by (simp add: parse_required_def split: prod.split)

lemma value_matches_required:
  assumes "cache_ok v ph" "rf_requireJSONValue (re_flags v) \<noteq> []"
  shows "value_matches (rf_requireJSONValue (re_flags v)) (parse_required v ph) x = required_value v x"
  using parse_required_cache [OF assms(1)] parse_required_parsed [OF assms(2), of ph] assms(2)
  by (auto simp: value_matches_def required_value_def cache_ok_def split: json.split)

text \<open>What the filter leaves alone: everything of the handler but the cache.\<close>

definition same_handler :: "'p PublishHandler \<Rightarrow> 'p PublishHandler \<Rightarrow> bool" where
  "same_handler ph ph1 \<longleftrightarrow>
     ph_counter ph1 = ph_counter ph \<and> ph_addresses ph1 = ph_addresses ph \<and> ph_producers ph1 = ph_producers ph \<and>
     ph_mode ph1 = ph_mode ph \<and> ph_hostPool ph1 = ph_hostPool ph \<and> ph_perAddressStatus ph1 = ph_perAddressStatus ph"

lemma parse_required_same: "same_handler ph (parse_required v ph)"
  by (simp add: parse_required_def same_handler_def split: prod.split)

lemma shouldPass_cases:
  assumes "cache_ok v ph"
  shows "shouldPassMessage v js ph =
     (let field = rf_requireJSONField (re_flags v) in
      if field = [] then ((True, False), ph)
      else (case js field of
              None \<Rightarrow> (False, rf_requireJSONValue (re_flags v) \<noteq> [])
            | Some x \<Rightarrow> (required_value v x, False), parse_required v ph))"
  using value_matches_required [OF assms]
  by (auto simp: shouldPassMessage_def Let_def required_value_def split: option.split)

lemma relay_body_spec:
  assumes "cache_ok v ph" and b: "relay_body v body ph = (r, ph1)"
  shows "r = relay_spec v body \<and> cache_ok v ph1 \<and> same_handler ph ph1"
proof -
  have refl: "same_handler ph ph" by (simp add: same_handler_def)
  note facts = assms(1) refl parse_required_cache [OF assms(1)] parse_required_same [of ph v]
  show ?thesis
    using b facts unfolding relay_body_def shouldPass_cases [OF assms(1)] filterMessage_whitelisted
    by (auto simp: relay_spec_def Let_def split: if_splits option.splits sum.splits)
qed

section \<open>The invariant\<close>

text \<open>\<open>d\<close> are the topics messages are published to.\<close>

definition handler_ok :: "('p, 'r, 'j) relay_env \<Rightarrow> 'p PublishHandler \<Rightarrow> bool" where
  "handler_ok v ph \<longleftrightarrow>
     (let a = rf_destNsqdTCPAddrs (re_flags v) in
      a \<noteq> [] \<and> ph_addresses ph = a \<and> ph_producers ph = a \<and> ph_perAddressStatus ph = a \<and>
      ph_mode ph = relay_selectedMode (rf_mode (re_flags v)) \<and> cache_ok v ph)"

definition args_of :: "('p, 'r) hostpool \<Rightarrow> relay_mode \<Rightarrow> nsq_Message \<Rightarrow> string \<Rightarrow> 'r arg list \<Rightarrow> bool" where
  "args_of hp mode m addr args \<longleftrightarrow> (\<exists>r. assert_args hp mode args = Some (m, addr, r))"

definition transaction_ok :: "('p, 'r, 'j) relay_env \<Rightarrow> TopicHandler list \<Rightarrow> 'r transaction \<Rightarrow> nsq_Message \<Rightarrow> bool" where
  "transaction_ok v hs t m \<longleftrightarrow>
     tx_Address t \<in> set (rf_destNsqdTCPAddrs (re_flags v)) \<and> tx_Topic t \<in> set (map th_destinationTopic hs) \<and>
     relay_spec v (nm_Body m) = Inr (tx_Body t) \<and>
     args_of (re_pool v) (relay_selectedMode (rf_mode (re_flags v))) m (tx_Address t) (tx_Args t)"

text \<open>The bodies of the finished messages that were not dropped, as they are published.\<close>

definition finished_bodies :: "('p, 'r, 'j) relay_env \<Rightarrow> (nsq_Message \<times> msg_response) list \<Rightarrow> bytes list" where
  "finished_bodies v ans =
     List.map_filter (\<lambda>(m, a). if a = Finish then (case relay_spec v (nm_Body m) of Inl _ \<Rightarrow> None | Inr b \<Rightarrow> Some b) else None) ans"

definition relay_inv :: "('p, 'r, 'j) relay_env \<Rightarrow> TopicHandler list \<Rightarrow> ('p, 'r) relay \<Rightarrow> nsq_Message list \<Rightarrow> bool" where
  "relay_inv v hs s pending \<longleftrightarrow>
     handler_ok v (rl_handler s) \<and>
     list_all2 (transaction_ok v hs) (rl_outstanding s) pending \<and>
     mset (rl_received s) = mset (map fst (rl_answers s)) + mset pending \<and>
     mset (map (snd \<circ> snd) (rl_accepted s)) = mset (finished_bodies v (rl_answers s)) \<and>
     fst ` set (rl_accepted s) \<subseteq> set (rf_destNsqdTCPAddrs (re_flags v)) \<and>
     (fst \<circ> snd) ` set (rl_accepted s) \<subseteq> set (map th_destinationTopic hs) \<and>
     (\<forall>(m, a) \<in> set (rl_answers s). case relay_spec v (nm_Body m) of
        Inl None \<Rightarrow> a = Finish | Inl (Some e) \<Rightarrow> a = Requeue (- 1) | Inr b \<Rightarrow> a = Finish \<or> a = Requeue (- 1))"

lemma finished_bodies_snoc [simp]:
  "finished_bodies v (ans @ [(m, a)]) =
     finished_bodies v ans @
     (if a = Finish then (case relay_spec v (nm_Body m) of Inl _ \<Rightarrow> [] | Inr b \<Rightarrow> [b]) else [])"
  by (simp add: finished_bodies_def map_filter_def split: sum.split)

section \<open>Every event keeps the invariant\<close>

lemma round_robin_in: "round_robin c as = Some (a, c1) \<Longrightarrow> a \<in> set as"
  by (auto simp: round_robin_def split: if_splits)

lemma same_handler_ok: "handler_ok v ph \<Longrightarrow> same_handler ph ph1 \<Longrightarrow> cache_ok v ph1 \<Longrightarrow> handler_ok v ph1"
  by (auto simp: handler_ok_def same_handler_def Let_def)

lemma handler_ok_updates [simp]:
  "handler_ok v (ph\<lparr>ph_counter := c\<rparr>) = handler_ok v ph" "handler_ok v (ph\<lparr>ph_hostPool := p\<rparr>) = handler_ok v ph"
  by (simp_all add: handler_ok_def cache_ok_def)

text \<open>The handler returns with an answer for the client library to give, or has left a transaction for the responder.\<close>

definition handled ::
    "('p, 'r, 'j) relay_env \<Rightarrow> nsq_Message \<Rightarrow> string \<Rightarrow> ('p, 'r) relay \<Rightarrow> go_error option \<Rightarrow> bool \<Rightarrow> ('p, 'r) relay \<Rightarrow> bool" where
  "handled v m dest s err disabled s1 \<longleftrightarrow>
     handler_ok v (rl_handler s1) \<and> rl_received s1 = rl_received s \<and> rl_answers s1 = rl_answers s \<and>
     rl_accepted s1 = rl_accepted s \<and>
     (if disabled
      then \<exists>t. rl_outstanding s1 = rl_outstanding s @ [t] \<and> tx_Topic t = dest \<and>
               tx_Address t \<in> set (rf_destNsqdTCPAddrs (re_flags v)) \<and> relay_spec v (nm_Body m) = Inr (tx_Body t) \<and>
               args_of (re_pool v) (relay_selectedMode (rf_mode (re_flags v))) m (tx_Address t) (tx_Args t)
      else rl_outstanding s1 = rl_outstanding s \<and>
           (relay_spec v (nm_Body m) = Inl err \<or> (\<exists>b. relay_spec v (nm_Body m) = Inr b) \<and> err \<noteq> None))"

lemma HandleMessage_handled:
  assumes ok: "handler_ok v (rl_handler s)"
    and h: "relay_HandleMessage v pub now m dest s = Some ((err, disabled), s1)"
  shows "handled v m dest s err disabled s1"
proof -
  obtain r ph1 where b: "relay_body v (nm_Body m) (rl_handler s) = (r, ph1)" by (rule prod.exhaust)
  from relay_body_spec [OF _ b] ok
  have r: "r = relay_spec v (nm_Body m)" and ok1: "handler_ok v ph1"
    by (auto simp: handler_ok_def Let_def same_handler_def)
  then have mode: "ph_mode ph1 = relay_selectedMode (rf_mode (re_flags v))"
    and prods: "ph_producers ph1 = rf_destNsqdTCPAddrs (re_flags v)"
    by (simp_all add: handler_ok_def Let_def)
  show ?thesis
  proof (cases r)
    case (Inl e)
    then show ?thesis using h b r ok1 by (auto simp: relay_HandleMessage_def handled_def)
  next
    case (Inr body)
    then have spec: "relay_spec v (nm_Body m) = Inr body" and b': "relay_body v (nm_Body m) (rl_handler s) = (Inr body, ph1)"
      using r b by simp_all
    show ?thesis
    proof (cases "ph_mode ph1")
      case RelayRoundRobin
      then have m: "relay_selectedMode (rf_mode (re_flags v)) = RelayRoundRobin" using mode by simp
      show ?thesis using h [unfolded relay_HandleMessage_def b'] RelayRoundRobin spec ok1 prods
        by (auto simp: handled_def args_of_def assert_args_def m Let_def split: option.splits if_splits)
    next
      case RelayHostPool
      then have m: "relay_selectedMode (rf_mode (re_flags v)) = RelayHostPool" using mode by simp
      show ?thesis using h [unfolded relay_HandleMessage_def b'] RelayHostPool spec ok1 prods
        by (auto simp: handled_def args_of_def assert_args_def m Let_def split: option.splits if_splits prod.splits)
    qed
  qed
qed

lemma responder_effect:
  assumes a: "args_of (re_pool v) (ph_mode (rl_handler s)) m addr args"
    and r: "responder v args err s = Some s1"
  shows "rl_answers s1 = rl_answers s @ [(m, auto_response err)] \<and> rl_outstanding s1 = rl_outstanding s \<and>
     rl_received s1 = rl_received s \<and> rl_accepted s1 = rl_accepted s \<and>
     (handler_ok v (rl_handler s) \<longrightarrow> handler_ok v (rl_handler s1))"
  using assms by (auto simp: args_of_def responder_def Let_def auto_response_def split: if_splits option.splits)

lemma relay_inv_message:
  assumes inv: "relay_inv v hs s pending" and i: "i < length hs"
    and e: "relay_exec v hs (RelayMessage i m pub now) s = Some s'"
  shows "\<exists>pending'. relay_inv v hs s' pending'"
proof -
  let ?s = "s\<lparr>rl_received := rl_received s @ [m]\<rparr>"
  from e obtain err disabled s1
    where h: "relay_HandleMessage v pub now m (th_destinationTopic (hs ! i)) ?s = Some ((err, disabled), s1)"
      and s': "s' = (if disabled then s1 else s1\<lparr>rl_answers := rl_answers s1 @ [(m, auto_response err)]\<rparr>)"
    by (auto simp: topic_HandleMessage_def split: option.splits)
  have "handler_ok v (rl_handler ?s)" using inv by (simp add: relay_inv_def)
  note hd = HandleMessage_handled [OF this h, unfolded handled_def]
  have dest: "th_destinationTopic (hs ! i) \<in> set (map th_destinationTopic hs)" using i by simp
  show ?thesis
  proof (cases disabled)
    case True
    with hd obtain t where t: "rl_outstanding s1 = rl_outstanding s @ [t]" "transaction_ok v hs t m"
      using dest by (auto simp: transaction_ok_def)
    then have "list_all2 (transaction_ok v hs) (rl_outstanding s1) (pending @ [m])"
      using inv by (auto simp: relay_inv_def intro: list_all2_appendI)
    with hd s' inv True have "relay_inv v hs s' (pending @ [m])" by (simp add: relay_inv_def)
    then show ?thesis by blast
  next
    case False
    with hd s' inv have "relay_inv v hs s' pending"
      by (auto simp: relay_inv_def auto_response_def split: sum.splits option.splits)
    then show ?thesis by blast
  qed
qed

lemma list_all2_remove_nth:
  assumes "list_all2 P xs ys" "k < length xs"
  shows "list_all2 P (remove_nth k xs) (remove_nth k ys)" and "mset ys = add_mset (ys ! k) (mset (remove_nth k ys))"
proof -
  show "list_all2 P (remove_nth k xs) (remove_nth k ys)"
    using assms(1) by (auto intro: list_all2_appendI list_all2_takeI list_all2_dropI)
  have k: "k < length ys" using assms list_all2_lengthD by fastforce
  have "mset ys = mset (take k ys @ ys ! k # drop (Suc k) ys)" using id_take_nth_drop [OF k] by simp
  then show "mset ys = add_mset (ys ! k) (mset (remove_nth k ys))" by simp
qed

lemma relay_inv_done:
  assumes inv: "relay_inv v hs s pending" and k: "k < length (rl_outstanding s)"
    and e: "relay_exec v hs (RelayDone k err) s = Some s'"
  shows "\<exists>pending'. relay_inv v hs s' pending'"
proof -
  let ?t = "rl_outstanding s ! k"
  let ?s = "s\<lparr>rl_outstanding := remove_nth k (rl_outstanding s),
             rl_accepted := rl_accepted s @ (if err = None then [(tx_Address ?t, tx_Topic ?t, tx_Body ?t)] else [])\<rparr>"
  have all: "list_all2 (transaction_ok v hs) (rl_outstanding s) pending" and ok: "handler_ok v (rl_handler s)"
    using inv by (simp_all add: relay_inv_def)
  have t: "transaction_ok v hs ?t (pending ! k)" using list_all2_nthD [OF all k] .
  have r: "responder v (tx_Args ?t) err ?s = Some s'" using e by (simp add: Let_def)
  have "ph_mode (rl_handler ?s) = relay_selectedMode (rf_mode (re_flags v))"
    using ok by (simp add: handler_ok_def Let_def)
  then have "args_of (re_pool v) (ph_mode (rl_handler ?s)) (pending ! k) (tx_Address ?t) (tx_Args ?t)"
    using t by (simp add: transaction_ok_def)
  from responder_effect [OF this r] ok
  have s': "rl_answers s' = rl_answers s @ [(pending ! k, auto_response err)]" "rl_received s' = rl_received s"
    "rl_outstanding s' = remove_nth k (rl_outstanding s)" "rl_accepted s' = rl_accepted ?s" "handler_ok v (rl_handler s')"
    by simp_all
  have "relay_inv v hs s' (remove_nth k pending)"
    using inv s' t list_all2_remove_nth [OF all k]
    by (auto simp: relay_inv_def transaction_ok_def auto_response_def)
  then show ?thesis by blast
qed

lemma relay_inv_exec:
  assumes "relay_inv v hs s pending" "relay_valid hs s ev" "relay_exec v hs ev s = Some s'"
  shows "\<exists>pending'. relay_inv v hs s' pending'"
  using assms by (cases ev) (auto dest: relay_inv_message relay_inv_done simp del: relay_exec.simps)

lemma relay_main_started:
  assumes "relay_main v newProducer newConsumer nsqds lookupds = Started (hs, s0)"
  shows "relay_inv v hs s0 []" and "hs = relay_handlers (re_flags v)"
  using assms
  by (auto simp: relay_main_def relay_check_def NewPublishHandler_def relay_inv_def handler_ok_def cache_ok_def Let_def
      finished_bodies_def map_filter_def split: if_splits option.splits)

lemma relay_run_inv:
  assumes "relay_run v hs s0 s" "relay_inv v hs s0 []"
  shows "\<exists>pending. relay_inv v hs s pending"
  using assms(1) by induction (use assms(2) relay_inv_exec in blast)+

section \<open>Panics\<close>

lemma round_robin_some: "as \<noteq> [] \<Longrightarrow> \<exists>a c1. round_robin c as = Some (a, c1) \<and> a \<in> set as"
  by (simp add: round_robin_def)

lemma HandleMessage_returns:
  assumes ok: "handler_ok v (rl_handler s)"
    and pool: "\<forall>p. hp_Host (re_pool v) (fst (hp_Get (re_pool v) p)) \<in> set (rf_destNsqdTCPAddrs (re_flags v))"
  shows "\<exists>r. relay_HandleMessage v pub now m dest s = Some r"
proof -
  obtain r ph1 where b: "relay_body v (nm_Body m) (rl_handler s) = (r, ph1)" by (rule prod.exhaust)
  from relay_body_spec [OF _ b] ok have ok1: "handler_ok v ph1"
    by (auto simp: handler_ok_def Let_def same_handler_def)
  then obtain a c1 where rr: "round_robin (ph_counter ph1) (ph_addresses ph1) = Some (a, c1)" "a \<in> set (ph_producers ph1)"
    using round_robin_some [of "ph_addresses ph1" "ph_counter ph1"] by (auto simp: handler_ok_def Let_def)
  obtain q p where g: "hp_Get (re_pool v) (ph_hostPool ph1) = (q, p)" by (rule prod.exhaust)
  then have "hp_Host (re_pool v) q \<in> set (ph_producers ph1)"
    using pool [rule_format, of "ph_hostPool ph1"] ok1 by (simp add: handler_ok_def Let_def)
  with b rr g show ?thesis
    by (auto simp: relay_HandleMessage_def Let_def split: sum.split relay_mode.split option.split)
qed

lemma responder_returns:
  assumes "args_of (re_pool v) (ph_mode (rl_handler s)) m addr args" "addr \<in> set (ph_perAddressStatus (rl_handler s))"
  shows "\<exists>s1. responder v args err s = Some s1"
  using assms by (auto simp: args_of_def responder_def Let_def split: option.split)

lemma relay_exec_returns:
  assumes inv: "relay_inv v hs s pending" and ev: "relay_valid hs s ev"
    and pool: "\<forall>p. hp_Host (re_pool v) (fst (hp_Get (re_pool v) p)) \<in> set (rf_destNsqdTCPAddrs (re_flags v))"
  shows "\<exists>s'. relay_exec v hs ev s = Some s'"
proof -
  have ok: "handler_ok v (rl_handler s)" and all: "list_all2 (transaction_ok v hs) (rl_outstanding s) pending"
    using inv by (simp_all add: relay_inv_def)
  show ?thesis
  proof (cases ev)
    case (RelayMessage i m pub now)
    have "handler_ok v (rl_handler (s\<lparr>rl_received := rl_received s @ [m]\<rparr>))" using ok by simp
    from HandleMessage_returns [OF this pool] obtain r
      where "relay_HandleMessage v pub now m (th_destinationTopic (hs ! i)) (s\<lparr>rl_received := rl_received s @ [m]\<rparr>) = Some r" ..
    then show ?thesis using RelayMessage by (simp add: topic_HandleMessage_def split: prod.split)
  next
    case (RelayDone k err)
    with ev list_all2_nthD [OF all] have "transaction_ok v hs (rl_outstanding s ! k) (pending ! k)" by simp
    then show ?thesis using RelayDone ok
      by (auto simp: transaction_ok_def handler_ok_def Let_def intro!: responder_returns)
  qed
qed

section \<open>A sample run\<close>

fun relay_all :: "('p, 'r, 'j) relay_env \<Rightarrow> TopicHandler list \<Rightarrow> relay_event list \<Rightarrow> ('p, 'r) relay \<Rightarrow> ('p, 'r) relay option" where
  "relay_all v hs [] s = Some s"
| "relay_all v hs (ev # evs) s =
     (if relay_valid hs s ev then (case relay_exec v hs ev s of None \<Rightarrow> None | Some s1 \<Rightarrow> relay_all v hs evs s1) else None)"

lemma relay_all_run: "relay_run v hs s0 s \<Longrightarrow> relay_all v hs evs s = Some s' \<Longrightarrow> relay_run v hs s0 s'"
  by (induction evs arbitrary: s) (auto intro: relay_next split: if_splits option.splits simp del: relay_exec.simps)

definition sample_pool :: "(nat, string) hostpool" where
  "sample_pool = \<lparr>hp_New = (\<lambda>_ _. 0), hp_Get = (\<lambda>p. (if even p then ''a'' else ''b'', p + 1)), hp_Host = (\<lambda>r. r),
     hp_Mark = (\<lambda>_ _ p. p)\<rparr>"

definition sample_relay :: "(nat, string, unit) relay_env" where
  "sample_relay =
     \<lparr>re_flags = relay_defaults\<lparr>rf_topics := [''t''], rf_nsqdTCPAddrs := [''n''], rf_destNsqdTCPAddrs := [''a'', ''b''],
                     rf_whitelistJSONFields := [''k''], rf_requireJSONField := ''k'', rf_requireJSONValue := ''3''\<rparr>,
      re_pool = sample_pool,
      re_Unmarshal = (\<lambda>b. if b = [1] then Some [''k'' \<mapsto> JFloat (Finite 3), ''x'' \<mapsto> JOther ()]
                           else if b = [2] then Some [''x'' \<mapsto> JOther ()] else None),
      re_Marshal = (\<lambda>js. if js ''k'' = Some (JInt64 3) \<and> js ''x'' = None then Some [7] else None),
      re_ParseFloat = (\<lambda>_. (Finite 3, None)), re_out_of_range = (\<lambda>_. 0)\<rparr>"

definition sample_message :: "bytes \<Rightarrow> nsq_Message" where
  "sample_message b = \<lparr>nm_ID = b, nm_Body = b\<rparr>"

abbreviation sample_handlers :: "TopicHandler list" where
  "sample_handlers \<equiv> [\<lparr>th_destinationTopic = ''t''\<rparr>]"

definition sample_started :: "(nat, string) relay" where
  "sample_started =
     \<lparr>rl_handler = NewPublishHandler sample_pool (re_flags sample_relay), rl_outstanding = [], rl_received = [],
      rl_answers = [], rl_accepted = []\<rparr>"

text \<open>One message is relayed and accepted, one is refused for a missing field, one is not JSON, one is outstanding.\<close>

definition sample_events :: "relay_event list" where
  "sample_events =
     [RelayMessage 0 (sample_message [1]) None 5, RelayMessage 0 (sample_message [2]) None 6,
      RelayMessage 0 (sample_message [3]) None 7, RelayDone 0 None, RelayMessage 0 (sample_message [1]) None 8]"

lemma sample_main:
  "relay_main sample_relay (\<lambda>_. None) (\<lambda>_. None) (\<lambda>_. None) (\<lambda>_. None) = Started (sample_handlers, sample_started)"
  by code_simp

lemma sample_relay_run:
  obtains s where "relay_run sample_relay sample_handlers sample_started s"
    "rl_accepted s = [(''a'', ''t'', [7])]" "length (rl_outstanding s) = 1"
    "rl_answers s = [(sample_message [2], Requeue (- 1)), (sample_message [3], Finish), (sample_message [1], Finish)]"
proof -
  have "case relay_all sample_relay sample_handlers sample_events sample_started of
          None \<Rightarrow> False
        | Some s \<Rightarrow> rl_accepted s = [(''a'', ''t'', [7])] \<and> length (rl_outstanding s) = 1 \<and>
            rl_answers s = [(sample_message [2], Requeue (- 1)), (sample_message [3], Finish), (sample_message [1], Finish)]"
    by code_simp
  then show thesis
    using relay_all_run [OF relay_start, of sample_relay sample_handlers sample_events] that by (auto split: option.splits)
qed

lemma sample_pool_hosts:
  "\<forall>p. hp_Host (re_pool sample_relay) (fst (hp_Get (re_pool sample_relay) p)) \<in> set (rf_destNsqdTCPAddrs (re_flags sample_relay))"
  by (simp add: sample_relay_def sample_pool_def relay_defaults_def)

section \<open>Theorems\<close>

text \<open>C15.
  \<open>nsq_to_nsq\<close> answers every message it receives exactly once. In every state it can reach, the messages received are those
  answered and those of the outstanding transactions; the bodies accepted at the destinations are, counted with
  repetitions, the filtered bodies of the messages that were finished and not dropped by the filter, and all were published
  to a configured address and topic. A message the filter drops is finished; one it refuses is requeued.\<close>

theorem relay_answers_once:
  assumes "relay_main v newProducer newConsumer nsqds lookupds = Started (hs, s0)" and "relay_run v hs s0 s"
  shows "\<exists>pending.
    mset (rl_received s) = mset (map fst (rl_answers s)) + mset pending \<and>
    list_all2 (\<lambda>t m. relay_spec v (nm_Body m) = Inr (tx_Body t)) (rl_outstanding s) pending \<and>
    mset (map (snd \<circ> snd) (rl_accepted s)) = mset (finished_bodies v (rl_answers s)) \<and>
    fst ` set (rl_accepted s) \<subseteq> set (rf_destNsqdTCPAddrs (re_flags v)) \<and>
    (fst \<circ> snd) ` set (rl_accepted s) \<subseteq>
      (if rf_destTopic (re_flags v) = [] then set (rf_topics (re_flags v)) else {rf_destTopic (re_flags v)}) \<and>
    (\<forall>(m, a) \<in> set (rl_answers s). case relay_spec v (nm_Body m) of
       Inl None \<Rightarrow> a = Finish | Inl (Some e) \<Rightarrow> a = Requeue (- 1) | Inr b \<Rightarrow> a = Finish \<or> a = Requeue (- 1))"
proof -
  have hs: "hs = relay_handlers (re_flags v)" using relay_main_started(2) [OF assms(1)] .
  from relay_run_inv [OF assms(2) relay_main_started(1) [OF assms(1)]] obtain pending where inv: "relay_inv v hs s pending" ..
  have "set (map th_destinationTopic hs) \<subseteq>
      (if rf_destTopic (re_flags v) = [] then set (rf_topics (re_flags v)) else {rf_destTopic (re_flags v)})"
    by (auto simp: hs relay_handlers_def)
  moreover have "(fst \<circ> snd) ` set (rl_accepted s) \<subseteq> set (map th_destinationTopic hs)"
    using inv unfolding relay_inv_def by blast
  ultimately have topics: "(fst \<circ> snd) ` set (rl_accepted s) \<subseteq>
      (if rf_destTopic (re_flags v) = [] then set (rf_topics (re_flags v)) else {rf_destTopic (re_flags v)})"
    by (rule order_trans [rotated])
  have "list_all2 (\<lambda>t m. relay_spec v (nm_Body m) = Inr (tx_Body t)) (rl_outstanding s) pending"
    using inv unfolding relay_inv_def transaction_ok_def by (auto elim: list_all2_mono)
  with inv topics show ?thesis unfolding relay_inv_def by blast
qed

theorem relay_answers_once_witness:
  "\<exists>s pending. relay_run sample_relay sample_handlers sample_started s \<and> rl_accepted s = [(''a'', ''t'', [7])] \<and>
     mset (rl_received s) = mset (map fst (rl_answers s)) + mset pending \<and>
     list_all2 (\<lambda>t m. relay_spec sample_relay (nm_Body m) = Inr (tx_Body t)) (rl_outstanding s) pending \<and> length pending = 1"
proof -
  obtain s where r: "relay_run sample_relay sample_handlers sample_started s" "rl_accepted s = [(''a'', ''t'', [7])]"
    "length (rl_outstanding s) = 1" by (rule sample_relay_run)
  from relay_answers_once [OF sample_main r(1)] obtain pending where
    "mset (rl_received s) = mset (map fst (rl_answers s)) + mset pending"
    "list_all2 (\<lambda>t m. relay_spec sample_relay (nm_Body m) = Inr (tx_Body t)) (rl_outstanding s) pending" by blast
  moreover from this(2) r(3) have "length pending = 1" by (simp add: list_all2_lengthD [symmetric])
  ultimately show ?thesis using r by blast
qed

text \<open>C27.
  No type assertion of the responder fails, no producer or timer is missing and no division by zero happens: whatever the
  destinations answer and in whatever order, every event of a started \<open>nsq_to_nsq\<close> leads to a next state. Of the host pool this
  needs that \<open>Get\<close> returns one of the hosts it was made for.\<close>

theorem relay_never_panics:
  assumes "relay_main v newProducer newConsumer nsqds lookupds = Started (hs, s0)"
    and "relay_run v hs s0 s" and "relay_valid hs s ev"
    and "\<forall>p. hp_Host (re_pool v) (fst (hp_Get (re_pool v) p)) \<in> set (rf_destNsqdTCPAddrs (re_flags v))"
  shows "\<exists>s'. relay_exec v hs ev s = Some s'"
  using relay_run_inv [OF assms(2) relay_main_started(1) [OF assms(1)]] relay_exec_returns [OF _ assms(3,4)] by blast

theorem relay_never_panics_witness:
  "\<exists>s s'. length (rl_outstanding s) = 1 \<and> relay_exec sample_relay sample_handlers (RelayDone 0 (Some ''E_TIMEOUT'')) s = Some s'"
proof -
  obtain s where r: "relay_run sample_relay sample_handlers sample_started s" "length (rl_outstanding s) = 1"
    by (rule sample_relay_run)
  then have "relay_valid sample_handlers s (RelayDone 0 (Some ''E_TIMEOUT''))" by simp
  from relay_never_panics [OF sample_main r(1) this sample_pool_hosts] r(2) show ?thesis by blast
qed

section \<open>Destinations in turn\<close>

fun rr_sequence :: "nat \<Rightarrow> u64 \<Rightarrow> StringArray \<Rightarrow> string list" where
  "rr_sequence 0 c as = []"
| "rr_sequence (Suc n) c as = (case round_robin c as of None \<Rightarrow> [] | Some (a, c1) \<Rightarrow> a # rr_sequence n c1 as)"

lemma unat_succ: "unat (c :: u64) + 1 < 2 ^ 64 \<Longrightarrow> unat (c + 1) = unat c + 1"
  by (simp add: unat_word_ariths)

lemma rr_sequence_nth:
  assumes "as \<noteq> []" "unat c + n < 2 ^ 64"
  shows "rr_sequence n c as = map (\<lambda>i. as ! ((unat c + 1 + i) mod length as)) [0..<n]"
  using assms
proof (induction n arbitrary: c)
  case (Suc n)
  have u: "unat (c + 1) = unat c + 1" using Suc.prems(2) by (intro unat_succ) simp
  have "rr_sequence n (c + 1) as = map (\<lambda>i. as ! ((unat c + 1 + Suc i) mod length as)) [0..<n]"
    using Suc.IH [of "c + 1"] Suc.prems u by simp
  moreover have "map f [0..<Suc n] = f 0 # map (\<lambda>i. f (Suc i)) [0..<n]" for f :: "nat \<Rightarrow> string"
    by (simp add: map_upt_Suc del: upt_Suc)
  ultimately show ?case using Suc.prems(1) u by (simp add: round_robin_def del: upt_Suc)
qed simp

lemma count_list_conv_mset: "count_list xs a = count (mset xs) a"
  by (induction xs) auto

lemma mset_window:
  assumes "as \<noteq> []"
  shows "mset (map (\<lambda>i. as ! ((k + i) mod length as)) [0..<length as]) = mset as"
proof (induction k)
  case 0
  have "map (\<lambda>i. as ! ((0 + i) mod length as)) [0..<length as] = as"
    by (rule nth_equalityI) simp_all
  then show ?case by simp
next
  case (Suc k)
  let ?f = "\<lambda>i. as ! (i mod length as)"
  have m: "map (\<lambda>i. ?f (j + i)) [0..<length as] = map ?f [j..<j + length as]" for j
    by (rule nth_equalityI) simp_all
  have "[k..<k + length as] = k # [Suc k..<k + length as]" using assms by (simp add: upt_conv_Cons)
  moreover have "[Suc k..<Suc k + length as] = [Suc k..<k + length as] @ [k + length as]"
    using assms upt_Suc_append [of "Suc k" "k + length as"] by (simp add: Suc_le_eq)
  ultimately have "mset (map ?f [Suc k..<Suc k + length as]) = mset (map ?f [k..<k + length as])" by simp
  then show ?case using Suc.IH unfolding m by simp
qed

lemma rr_sequence_append:
  "as \<noteq> [] \<Longrightarrow> rr_sequence (n + k) c as = rr_sequence n c as @ rr_sequence k (c + of_nat n) as"
  by (induction n arbitrary: c) (auto simp: round_robin_def algebra_simps)

text \<open>C39.
  In the mode \<open>round-robin\<close> the destinations are used evenly: as long as the 64-bit counter does not wrap around, any
  \<open>n\<close> times as many consecutive messages as there are addresses go to each address \<open>n\<close> times, wherever the counter stands.\<close>

theorem round_robin_is_even:
  assumes "addresses \<noteq> []" and "unat counter + n * length addresses < 2 ^ 64"
  shows "count_list (rr_sequence (n * length addresses) counter addresses) a = n * count_list addresses a"
  using assms(2)
proof (induction n arbitrary: counter)
  case (Suc n)
  let ?l = "length addresses"
  have u: "unat (counter + of_nat ?l) = unat counter + ?l"
    using Suc.prems by (subst unat_add_lem [THEN iffD1]) (simp_all add: unat_of_nat)
  have "mset (rr_sequence ?l counter addresses) = mset addresses"
    using rr_sequence_nth [of addresses counter ?l] mset_window [OF assms(1), of "unat counter + 1"] Suc.prems assms(1)
    by (simp add: add.assoc)
  moreover have "count_list (rr_sequence (n * ?l) (counter + of_nat ?l) addresses) a = n * count_list addresses a"
    using Suc.IH [of "counter + of_nat ?l"] Suc.prems u by simp
  ultimately show ?case
    using rr_sequence_append [OF assms(1), of ?l "n * ?l" counter] by (simp add: count_list_conv_mset)
qed simp

theorem round_robin_is_even_witness:
  "count_list (rr_sequence 6 5 [''a'', ''b'', ''c'']) ''b'' = 2 \<and> rr_sequence 3 5 [''a'', ''b'', ''c''] = [''a'', ''b'', ''c'']"
proof
  show "count_list (rr_sequence 6 5 [''a'', ''b'', ''c'']) ''b'' = 2"
    using round_robin_is_even [of "[''a'', ''b'', ''c'']" 5 2 "''b''"] by simp
  show "rr_sequence 3 5 [''a'', ''b'', ''c''] = [''a'', ''b'', ''c'']" by code_simp
qed

end
