(* ===== verification/Nsq_RelayHttp.thy ===== *)
theory Nsq_RelayHttp
  imports Nsq_Relay Nsq_Admin "HOL-Library.AList"
begin

text \<open>
  \<open>apps/nsq_to_http\<close>: a consumer that sends the body of each message to HTTP endpoints. The HTTP client is a parameter: the
  answer to a request is an error of the transport or a status, and may change the state \<open>'w\<close> of the other side. Every
  request is recorded with its answer. The parsing of a URL is given by its error. The order in which a map is
  iterated is an argument. Times and their statistics are left out, except that a missing timer is a nil pointer.
\<close>

section \<open>Data\<close>

record http_flags =
  hf_showVersion :: bool
  hf_topic :: string
  hf_channel :: string
  hf_maxInFlight :: int
  hf_mode :: string
  hf_sample :: rat
  hf_contentType :: string
  hf_getAddrs :: StringArray
  hf_postAddrs :: StringArray
  hf_customHeaders :: StringArray
  hf_nsqdTCPAddrs :: StringArray
  hf_lookupdHTTPAddrs :: StringArray

definition default_contentType :: string where
  "default_contentType = ''application/octet-stream''"

definition http_defaults :: http_flags where
  "http_defaults =
     \<lparr>hf_showVersion = False, hf_topic = [], hf_channel = ''nsq_to_http'', hf_maxInFlight = 200, hf_mode = ''hostpool'',
      hf_sample = 1, hf_contentType = default_contentType, hf_getAddrs = [], hf_postAddrs = [], hf_customHeaders = [],
      hf_nsqdTCPAddrs = [], hf_lookupdHTTPAddrs = []\<rparr>"

record http_request =
  rq_Method :: string
  rq_URL :: string
  rq_Header :: "(string \<times> string) list"
  rq_Body :: bytes

type_synonym http_status = "go_error + int"

datatype http_mode = ModeAll | ModeRoundRobin | ModeHostPool

datatype Publisher = PostPublisher | GetPublisher

record ('p, 'r, 'w) http_env =
  he_flags :: http_flags
  he_order :: "(string \<times> string) list \<Rightarrow> (string \<times> string) list"
  he_pool :: "('p, 'r) hostpool"
  he_Parse :: "string \<Rightarrow> go_error option"
  he_Sprintf :: "string \<Rightarrow> string \<Rightarrow> string"
  he_Do :: "http_request \<Rightarrow> 'w \<Rightarrow> http_status \<times> 'w"

record ('p, 'w) http_handler =
  hh_counter :: u64
  hh_Publisher :: Publisher
  hh_addresses :: StringArray
  hh_mode :: http_mode
  hh_hostPool :: 'p
  hh_perAddressStatus :: "string list"
  hh_world :: 'w
  hh_log :: "(http_request \<times> http_status) list"

section \<open>Requests\<close>

text \<open>\<open>http.Header.Set\<close> stores under the canonical form of the key; a key that is not a token is left as it is.\<close>

definition is_token_char :: "char \<Rightarrow> bool" where
  "is_token_char c \<longleftrightarrow>
     (CHR ''a'' \<le> c \<and> c \<le> CHR ''z'') \<or> (CHR ''A'' \<le> c \<and> c \<le> CHR ''Z'') \<or> (CHR ''0'' \<le> c \<and> c \<le> CHR ''9'') \<or>
     c \<in> set (CHR 0x27 # ''!#$%&*+-.^_`|~'')"

definition to_upper :: "char \<Rightarrow> char" where
  "to_upper c = (if CHR ''a'' \<le> c \<and> c \<le> CHR ''z'' then char_of (of_char c - 32 :: nat) else c)"

definition to_lower :: "char \<Rightarrow> char" where
  "to_lower c = (if CHR ''A'' \<le> c \<and> c \<le> CHR ''Z'' then char_of (of_char c + 32 :: nat) else c)"

fun canonical_key :: "bool \<Rightarrow> string \<Rightarrow> string" where
  "canonical_key upper [] = []"
| "canonical_key upper (c # s) = (if upper then to_upper c else to_lower c) # canonical_key (c = CHR ''-'') s"

definition CanonicalMIMEHeaderKey :: "string \<Rightarrow> string" where
  "CanonicalMIMEHeaderKey s = (if list_all is_token_char s then canonical_key True s else s)"

definition Header_Set :: "string \<Rightarrow> string \<Rightarrow> (string \<times> string) list \<Rightarrow> (string \<times> string) list" where
  "Header_Set key val h = AList.update (CanonicalMIMEHeaderKey key) val h"

definition version_Binary :: string where
  "version_Binary = ''1.1.1-alpha''"

definition userAgent :: string where
  "userAgent = ''nsq_to_http v'' @ version_Binary"

fun parseCustomHeaders :: "string list \<Rightarrow> (string \<times> string) list \<Rightarrow> go_error + (string \<times> string) list" where
  "parseCustomHeaders [] parsed = Inr parsed"
| "parseCustomHeaders (s # strs) parsed =
     (case SplitN2 (CHR '':'') s of
        None \<Rightarrow> Inl (''Invalid headers: '' @ s)
      | Some (k, x) \<Rightarrow>
          let key = text_of (TrimSpace (bytes_of k)); val = text_of (TrimSpace (bytes_of x)) in
          if key = [] \<or> val = [] then Inl (''Invalid headers: '' @ s)
          else parseCustomHeaders strs (AList.update key val parsed))"

definition validCustomHeaders :: "('p, 'r, 'w) http_env \<Rightarrow> (string \<times> string) list" where
  "validCustomHeaders v =
     (case parseCustomHeaders (hf_customHeaders (he_flags v)) [] of Inl e \<Rightarrow> [] | Inr parsed \<Rightarrow> he_order v parsed)"

definition add_custom :: "(string \<times> string) list \<Rightarrow> (string \<times> string) list \<Rightarrow> (string \<times> string) list" where
  "add_custom custom h = foldl (\<lambda>h (key, val). Header_Set key val h) h custom"

text \<open>A request that is sent is recorded with its answer.\<close>

definition http_Do ::
    "('p, 'r, 'w) http_env \<Rightarrow> http_request \<Rightarrow> ('p, 'w) http_handler \<Rightarrow> http_status \<times> ('p, 'w) http_handler" where
  "http_Do v q h = (case he_Do v q (hh_world h) of (a, w) \<Rightarrow> (a, h\<lparr>hh_world := w, hh_log := hh_log h @ [(q, a)]\<rparr>))"

definition get_request :: "('p, 'r, 'w) http_env \<Rightarrow> string \<Rightarrow> http_request" where
  "get_request v endpoint =
     \<lparr>rq_Method = ''GET'', rq_URL = endpoint, rq_Header = add_custom (validCustomHeaders v) (Header_Set ''User-Agent'' userAgent []),
      rq_Body = []\<rparr>"

definition HTTPGet ::
    "('p, 'r, 'w) http_env \<Rightarrow> string \<Rightarrow> ('p, 'w) http_handler \<Rightarrow> http_status \<times> ('p, 'w) http_handler" where
  "HTTPGet v endpoint h = (case he_Parse v endpoint of Some e \<Rightarrow> (Inl e, h) | None \<Rightarrow> http_Do v (get_request v endpoint) h)"

definition post_request :: "('p, 'r, 'w) http_env \<Rightarrow> string \<Rightarrow> bytes \<Rightarrow> http_request" where
  "post_request v endpoint body =
     \<lparr>rq_Method = ''POST'', rq_URL = endpoint,
      rq_Header = add_custom (validCustomHeaders v)
        (Header_Set ''Content-Type'' (hf_contentType (he_flags v)) (Header_Set ''User-Agent'' userAgent [])),
      rq_Body = body\<rparr>"

definition HTTPPost ::
    "('p, 'r, 'w) http_env \<Rightarrow> string \<Rightarrow> bytes \<Rightarrow> ('p, 'w) http_handler \<Rightarrow> http_status \<times> ('p, 'w) http_handler" where
  "HTTPPost v endpoint body h =
     (case he_Parse v endpoint of Some e \<Rightarrow> (Inl e, h) | None \<Rightarrow> http_Do v (post_request v endpoint body) h)"

definition PostPublisher_Publish ::
    "('p, 'r, 'w) http_env \<Rightarrow> string \<Rightarrow> bytes \<Rightarrow> ('p, 'w) http_handler \<Rightarrow> go_error option \<times> ('p, 'w) http_handler" where
  "PostPublisher_Publish v addr msg h =
     (case HTTPPost v addr msg h of
        (Inl e, h1) \<Rightarrow> (Some e, h1)
      | (Inr status, h1) \<Rightarrow>
          (if status < 200 \<or> 300 \<le> status then Some (''got status code '' @ decimal status) else None, h1))"

text \<open>
  \<open>fmt.Sprintf\<close> with a format whose only verb is \<open>%s\<close> puts the argument there. What it makes of a format with a further
  percent sign, as in an escaped URL, is the argument \<open>he_Sprintf\<close>.
\<close>

fun subst_verb :: "string \<Rightarrow> string \<Rightarrow> string" where
  "subst_verb (c # d # s) x = (if c = CHR ''%'' \<and> d = CHR ''s'' then x @ s else c # subst_verb (d # s) x)"
| "subst_verb s x = s"

definition get_endpoint :: "('p, 'r, 'w) http_env \<Rightarrow> string \<Rightarrow> bytes \<Rightarrow> string" where
  "get_endpoint v addr msg =
     (let x = QueryEscape (text_of msg)
      in if count_list addr (CHR ''%'') = 1 then subst_verb addr x else he_Sprintf v addr x)"

definition GetPublisher_Publish ::
    "('p, 'r, 'w) http_env \<Rightarrow> string \<Rightarrow> bytes \<Rightarrow> ('p, 'w) http_handler \<Rightarrow> go_error option \<times> ('p, 'w) http_handler" where
  "GetPublisher_Publish v addr msg h =
     (case HTTPGet v (get_endpoint v addr msg) h of
        (Inl e, h1) \<Rightarrow> (Some e, h1)
      | (Inr status, h1) \<Rightarrow> (if status \<noteq> 200 then Some (''got status code '' @ decimal status) else None, h1))"

definition http_Publish ::
    "('p, 'r, 'w) http_env \<Rightarrow> string \<Rightarrow> bytes \<Rightarrow> ('p, 'w) http_handler \<Rightarrow> go_error option \<times> ('p, 'w) http_handler" where
  "http_Publish v addr msg h =
     (case hh_Publisher h of
        PostPublisher \<Rightarrow> PostPublisher_Publish v addr msg h
      | GetPublisher \<Rightarrow> GetPublisher_Publish v addr msg h)"

section \<open>The handler\<close>

text \<open>The result is \<open>None\<close> when the handler panics.\<close>

type_synonym ('p, 'w) http_result = "(go_error option \<times> ('p, 'w) http_handler) option"

definition timed :: "string \<Rightarrow> go_error option \<times> ('p, 'w) http_handler \<Rightarrow> ('p, 'w) http_result" where
  "timed addr r =
     (case r of
        (Some e, h) \<Rightarrow> Some (Some e, h)
      | (None, h) \<Rightarrow> if addr \<in> set (hh_perAddressStatus h) then Some (None, h) else None)"

fun publish_all :: "('p, 'r, 'w) http_env \<Rightarrow> bytes \<Rightarrow> string list \<Rightarrow> ('p, 'w) http_handler \<Rightarrow> ('p, 'w) http_result" where
  "publish_all v body [] h = Some (None, h)"
| "publish_all v body (addr # addrs) h =
     (case timed addr (http_Publish v addr body h) of
        Some (None, h1) \<Rightarrow> publish_all v body addrs h1
      | r \<Rightarrow> r)"

text \<open>\<open>r\<close> is the random number between 0 and 1 that decides whether the message is sampled.\<close>

definition http_HandleMessage ::
    "('p, 'r, 'w) http_env \<Rightarrow> rat \<Rightarrow> nsq_Message \<Rightarrow> ('p, 'w) http_handler \<Rightarrow> ('p, 'w) http_result" where
  "http_HandleMessage v r m h =
     (if hf_sample (he_flags v) < 1 \<and> hf_sample (he_flags v) < r then Some (None, h)
      else case hh_mode h of
        ModeAll \<Rightarrow> publish_all v (nm_Body m) (hh_addresses h) h
      | ModeRoundRobin \<Rightarrow>
          (case round_robin (hh_counter h) (hh_addresses h) of
             None \<Rightarrow> None
           | Some (addr, counter) \<Rightarrow> timed addr (http_Publish v addr (nm_Body m) (h\<lparr>hh_counter := counter\<rparr>)))
      | ModeHostPool \<Rightarrow>
          (case hp_Get (he_pool v) (hh_hostPool h) of
             (resp, pool) \<Rightarrow>
               let addr = hp_Host (he_pool v) resp in
               case http_Publish v addr (nm_Body m) (h\<lparr>hh_hostPool := pool\<rparr>) of
                 (err, h1) \<Rightarrow> timed addr (err, h1\<lparr>hh_hostPool := hp_Mark (he_pool v) resp err (hh_hostPool h1)\<rparr>)))"

section \<open>The program\<close>

text \<open>\<open>strings.Count(s, "%s")\<close>.\<close>

fun count_verb :: "string \<Rightarrow> nat" where
  "count_verb (c # d # s) = (if c = CHR ''%'' \<and> d = CHR ''s'' then Suc (count_verb s) else count_verb (d # s))"
| "count_verb s = 0"

definition http_check :: "http_flags \<Rightarrow> go_error option" where
  "http_check f =
     (if hf_customHeaders f \<noteq> [] \<and> isl (parseCustomHeaders (hf_customHeaders f) [])
      then Some (''--header value format should be 'key=value'' @ [CHR 0x27])
      else if hf_topic f = [] \<or> hf_channel f = [] then Some ''--topic and --channel are required''
      else if hf_contentType f \<noteq> default_contentType \<and> hf_postAddrs f = [] then Some ''--content-type only used with --post''
      else if hf_contentType f \<noteq> default_contentType \<and> hf_contentType f = []
      then Some ''--content-type requires a value when used''
      else case nsq_addrs_check (hf_nsqdTCPAddrs f) (hf_lookupdHTTPAddrs f) of
             Some e \<Rightarrow> Some e
           | None \<Rightarrow>
               if hf_getAddrs f = [] \<and> hf_postAddrs f = [] then Some ''--get or --post required''
               else if hf_getAddrs f \<noteq> [] \<and> hf_postAddrs f \<noteq> [] then Some ''use --get or --post not both''
               else if \<not> list_all (\<lambda>get. count_verb get = 1) (hf_getAddrs f)
               then Some ''invalid GET address - must be a printf string''
               else if 1 < hf_sample f \<or> hf_sample f < 0 then Some ''ERROR: --sample must be between 0.0 and 1.0''
               else None)"

definition http_selectedMode :: "string \<Rightarrow> http_mode" where
  "http_selectedMode mode =
     (if mode = ''round-robin'' then ModeRoundRobin
      else if mode = ''hostpool'' \<or> mode = ''epsilon-greedy'' then ModeHostPool
      else ModeAll)"

definition NewHttpHandler :: "('p, 'r) hostpool \<Rightarrow> 'w \<Rightarrow> http_flags \<Rightarrow> ('p, 'w) http_handler" where
  "NewHttpHandler hp w f =
     (let (publisher, addresses) = (if hf_postAddrs f \<noteq> [] then (PostPublisher, hf_postAddrs f) else (GetPublisher, hf_getAddrs f))
      in \<lparr>hh_counter = 0, hh_Publisher = publisher, hh_addresses = addresses, hh_mode = http_selectedMode (hf_mode f),
          hh_hostPool = hp_New hp (hf_mode f = ''epsilon-greedy'') addresses, hh_perAddressStatus = addresses,
          hh_world = w, hh_log = []\<rparr>)"

definition http_main ::
    "('p, 'r, 'w) http_env \<Rightarrow> 'w \<Rightarrow> go_error option \<Rightarrow> go_error option \<Rightarrow> go_error option \<Rightarrow> ('p, 'w) http_handler started" where
  "http_main v w newConsumer connectNSQDs connectLookupds =
     (if hf_showVersion (he_flags v) then Version
      else case http_check (he_flags v) of
        Some e \<Rightarrow> Fatal e
      | None \<Rightarrow>
          (case first_error id [newConsumer, connectNSQDs, connectLookupds] of
             Some e \<Rightarrow> Fatal e
           | None \<Rightarrow> Started (NewHttpHandler (he_pool v) w (he_flags v))))"

inductive http_run :: "('p, 'r, 'w) http_env \<Rightarrow> ('p, 'w) http_handler \<Rightarrow> ('p, 'w) http_handler \<Rightarrow> bool" for v h0 where
  http_start: "http_run v h0 h0"
| http_next: "http_run v h0 h \<Longrightarrow> http_HandleMessage v r m h = Some (err, h') \<Longrightarrow> http_run v h0 h'"

section \<open>What is delivered\<close>

definition request_to :: "('p, 'r, 'w) http_env \<Rightarrow> Publisher \<Rightarrow> bytes \<Rightarrow> string \<Rightarrow> http_request" where
  "request_to v p body addr =
     (case p of PostPublisher \<Rightarrow> post_request v addr body | GetPublisher \<Rightarrow> get_request v (get_endpoint v addr body))"

definition accepted_by :: "Publisher \<Rightarrow> http_status \<Rightarrow> bool" where
  "accepted_by p a \<longleftrightarrow>
     (case a of Inl e \<Rightarrow> False
      | Inr status \<Rightarrow> (case p of PostPublisher \<Rightarrow> 200 \<le> status \<and> status < 300 | GetPublisher \<Rightarrow> status = 200))"

text \<open>The message was sent to a prefix of the targets, the first refusal ending it; no error means that all accepted it.\<close>

definition sent_to ::
    "('p, 'r, 'w) http_env \<Rightarrow> Publisher \<Rightarrow> bytes \<Rightarrow> string list \<Rightarrow> go_error option \<Rightarrow> (http_request \<times> http_status) list \<Rightarrow> bool" where
  "sent_to v p body targets err new \<longleftrightarrow>
     length new \<le> length targets \<and> map fst new = map (request_to v p body) (take (length new) targets) \<and>
     list_all (accepted_by p) (map snd (butlast new)) \<and>
     (err = None \<longleftrightarrow> length new = length targets \<and> list_all (accepted_by p) (map snd new))"

text \<open>What a handler keeps.\<close>

definition same_setup :: "('p, 'w) http_handler \<Rightarrow> ('p, 'w) http_handler \<Rightarrow> bool" where
  "same_setup h h1 \<longleftrightarrow>
     hh_Publisher h1 = hh_Publisher h \<and> hh_addresses h1 = hh_addresses h \<and> hh_mode h1 = hh_mode h \<and>
     hh_perAddressStatus h1 = hh_perAddressStatus h"

lemma same_setup_trans: "same_setup h h1 \<Longrightarrow> same_setup h1 h2 \<Longrightarrow> same_setup h h2"
  by (simp add: same_setup_def)

lemma Publish_sent:
  assumes "http_Publish v addr body h = (err, h1)"
  shows "\<exists>new. hh_log h1 = hh_log h @ new \<and> sent_to v (hh_Publisher h) body [addr] err new \<and> same_setup h h1 \<and>
     hh_counter h1 = hh_counter h \<and> hh_hostPool h1 = hh_hostPool h"
proof (cases "he_Parse v (rq_URL (request_to v (hh_Publisher h) body addr))")
  case None
  obtain a w where d: "he_Do v (request_to v (hh_Publisher h) body addr) (hh_world h) = (a, w)" by (rule prod.exhaust)
  have "hh_log h1 = hh_log h @ [(request_to v (hh_Publisher h) body addr, a)] \<and> same_setup h h1 \<and>
      (err = None \<longleftrightarrow> accepted_by (hh_Publisher h) a) \<and> hh_counter h1 = hh_counter h \<and> hh_hostPool h1 = hh_hostPool h"
    using assms None d
    by (cases "hh_Publisher h"; cases a)
      (auto simp: http_Publish_def PostPublisher_Publish_def GetPublisher_Publish_def HTTPPost_def HTTPGet_def http_Do_def
        request_to_def post_request_def get_request_def accepted_by_def same_setup_def split: if_splits)
  then show ?thesis by (auto simp: sent_to_def)
next
  case (Some e)
  then have "h1 = h \<and> err = Some e"
    using assms
    by (auto simp: http_Publish_def PostPublisher_Publish_def GetPublisher_Publish_def HTTPPost_def HTTPGet_def
        request_to_def post_request_def get_request_def split: Publisher.splits)
  then show ?thesis by (auto simp: sent_to_def same_setup_def)
qed

lemma sent_to_Cons:
  assumes "sent_to v p body [a] None new1" "sent_to v p body as err new2"
  shows "sent_to v p body (a # as) err (new1 @ new2)"
proof -
  from assms(1) obtain x where new1: "new1 = [x]" "fst x = request_to v p body a" "accepted_by p (snd x)"
    by (auto simp: sent_to_def length_Suc_conv)
  with assms(2) show ?thesis by (auto simp: sent_to_def)
qed

lemma sent_to_failed:
  assumes "sent_to v p body [a] (Some e) new"
  shows "sent_to v p body (a # as) (Some e) new"
proof -
  from assms consider "new = []" | x where "new = [x]" "fst x = request_to v p body a" "\<not> accepted_by p (snd x)"
    by (cases new) (auto simp: sent_to_def)
  then show ?thesis by cases (auto simp: sent_to_def)
qed

lemma publish_all_sent:
  assumes "set addrs \<subseteq> set (hh_perAddressStatus h)"
  shows "\<exists>err h1 new. publish_all v body addrs h = Some (err, h1) \<and> hh_log h1 = hh_log h @ new \<and>
     sent_to v (hh_Publisher h) body addrs err new \<and> same_setup h h1"
  using assms
proof (induction addrs arbitrary: h)
  case Nil
  show ?case by (simp add: sent_to_def same_setup_def)
next
  case (Cons a as)
  obtain err h1 where p: "http_Publish v a body h = (err, h1)" by (rule prod.exhaust)
  from Publish_sent [OF p] obtain new where new: "hh_log h1 = hh_log h @ new"
    "sent_to v (hh_Publisher h) body [a] err new" "same_setup h h1" by blast
  show ?case
  proof (cases err)
    case None
    have "set as \<subseteq> set (hh_perAddressStatus h1)" using Cons.prems new(3) by (simp add: same_setup_def)
    from Cons.IH [OF this] obtain err2 h2 new2 where r: "publish_all v body as h1 = Some (err2, h2)"
      "hh_log h2 = hh_log h1 @ new2" "sent_to v (hh_Publisher h1) body as err2 new2" "same_setup h1 h2" by blast
    have "publish_all v body (a # as) h = Some (err2, h2)"
      using p None r(1) Cons.prems new(3) by (simp add: timed_def same_setup_def)
    moreover have "sent_to v (hh_Publisher h) body (a # as) err2 (new @ new2)"
      using sent_to_Cons new(2,3) r(3) None by (simp add: same_setup_def)
    ultimately show ?thesis using new(1) r(2) same_setup_trans [OF new(3) r(4)] by auto
  next
    case (Some e)
    then show ?thesis using p new sent_to_failed by (auto simp: timed_def)
  qed
qed

definition http_sampled_out :: "('p, 'r, 'w) http_env \<Rightarrow> rat \<Rightarrow> bool" where
  "http_sampled_out v r \<longleftrightarrow> hf_sample (he_flags v) < 1 \<and> hf_sample (he_flags v) < r"

definition targets_of :: "('p, 'r, 'w) http_env \<Rightarrow> ('p, 'w) http_handler \<Rightarrow> string list" where
  "targets_of v h =
     (case hh_mode h of
        ModeAll \<Rightarrow> hh_addresses h
      | ModeRoundRobin \<Rightarrow> [hh_addresses h ! (unat (hh_counter h + 1) mod length (hh_addresses h))]
      | ModeHostPool \<Rightarrow> [hp_Host (he_pool v) (fst (hp_Get (he_pool v) (hh_hostPool h)))])"

lemma HandleMessage_sent:
  assumes ne: "hh_addresses h \<noteq> []" and st: "hh_perAddressStatus h = hh_addresses h"
    and pool: "\<forall>p. hp_Host (he_pool v) (fst (hp_Get (he_pool v) p)) \<in> set (hh_addresses h)"
    and s: "\<not> http_sampled_out v r"
  shows "\<exists>err h1 new. http_HandleMessage v r m h = Some (err, h1) \<and> hh_log h1 = hh_log h @ new \<and>
     sent_to v (hh_Publisher h) (nm_Body m) (targets_of v h) err new \<and> same_setup h h1"
proof (cases "hh_mode h")
  case ModeAll
  then show ?thesis using publish_all_sent [of "hh_addresses h" h v "nm_Body m"] st s
    by (auto simp: http_HandleMessage_def targets_of_def http_sampled_out_def)
next
  case ModeRoundRobin
  let ?a = "hh_addresses h ! (unat (hh_counter h + 1) mod length (hh_addresses h))"
  obtain err h1 where p: "http_Publish v ?a (nm_Body m) (h\<lparr>hh_counter := hh_counter h + 1\<rparr>) = (err, h1)"
    by (rule prod.exhaust)
  have "?a \<in> set (hh_addresses h)" using ne by simp
  then show ?thesis using Publish_sent [OF p] p ModeRoundRobin ne st s
    by (cases err) (auto simp: http_HandleMessage_def targets_of_def http_sampled_out_def round_robin_def timed_def same_setup_def)
next
  case ModeHostPool
  obtain q pl where g: "hp_Get (he_pool v) (hh_hostPool h) = (q, pl)" by (rule prod.exhaust)
  obtain err h1 where p: "http_Publish v (hp_Host (he_pool v) q) (nm_Body m) (h\<lparr>hh_hostPool := pl\<rparr>) = (err, h1)"
    by (rule prod.exhaust)
  have "hp_Host (he_pool v) q \<in> set (hh_addresses h)" using pool [rule_format, of "hh_hostPool h"] g by simp
  then show ?thesis using Publish_sent [OF p] p g ModeHostPool st s
    by (cases err) (auto simp: http_HandleMessage_def targets_of_def http_sampled_out_def timed_def same_setup_def Let_def)
qed

lemma http_main_started:
  assumes "http_main v w c n l = Started h0"
  shows "hh_addresses h0 \<noteq> [] \<and> hh_perAddressStatus h0 = hh_addresses h0"
  using assms
  by (auto simp: http_main_def http_check_def NewHttpHandler_def split: if_splits option.splits)

lemma http_run_setup:
  assumes "http_run v h0 h" and "hh_addresses h0 \<noteq> []" and "hh_perAddressStatus h0 = hh_addresses h0"
    and pool: "\<forall>p. hp_Host (he_pool v) (fst (hp_Get (he_pool v) p)) \<in> set (hh_addresses h0)"
  shows "same_setup h0 h"
  using assms(1)
proof induction
  case http_start
  show ?case by (simp add: same_setup_def)
next
  case (http_next h r m err h')
  show ?case
  proof (cases "http_sampled_out v r")
    case True
    then show ?thesis using http_next by (simp add: http_HandleMessage_def http_sampled_out_def)
  next
    case False
    have "same_setup h h'" using HandleMessage_sent [OF _ _ _ False, of h m] assms(2,3) pool http_next
      by (auto simp: same_setup_def)
    then show ?thesis by (rule same_setup_trans [OF http_next.IH])
  qed
qed

lemma targets_configured:
  assumes "hh_addresses h \<noteq> []" "\<forall>p. hp_Host (he_pool v) (fst (hp_Get (he_pool v) p)) \<in> set (hh_addresses h)"
  shows "set (targets_of v h) \<subseteq> set (hh_addresses h)"
  using assms by (auto simp: targets_of_def split: http_mode.split)


text \<open>A sample: two addresses, of which the second refuses.\<close>

definition sample_http :: "(nat, string, unit) http_env" where
  "sample_http =
     \<lparr>he_flags = http_defaults\<lparr>hf_topic := ''t'', hf_nsqdTCPAddrs := [''n''], hf_postAddrs := [''http://a'', ''http://b''],
                     hf_mode := ''all''\<rparr>,
      he_order = id,
      he_pool = \<lparr>hp_New = (\<lambda>_ _. 0), hp_Get = (\<lambda>p. (''http://a'', p)), hp_Host = id, hp_Mark = (\<lambda>_ _ p. p)\<rparr>,
      he_Parse = (\<lambda>_. None), he_Sprintf = (\<lambda>f x. f),
      he_Do = (\<lambda>q w. (Inr (if rq_URL q = ''http://a'' then 204 else 503), w))\<rparr>"

lemma sample_http_started:
  "http_main sample_http () None None None = Started (NewHttpHandler (he_pool sample_http) () (he_flags sample_http))"
  by code_simp


text \<open>A mode that is not one of the documented names selects \<open>ModeAll\<close>.\<close>

lemma unknown_mode_is_all: "mode \<notin> {''round-robin'', ''hostpool'', ''epsilon-greedy''} \<Longrightarrow> http_selectedMode mode = ModeAll"
  by (simp add: http_selectedMode_def)

end
