(* ===== verification/Nsq_ToNsq.thy ===== *)
theory Nsq_ToNsq
  imports Nsq_Relay
begin

text \<open>
  \<open>apps/to_nsq\<close>: publishes what it reads from its standard input, split at a delimiter, to every configured daemon, and limits
  its rate. The input is the bytes that are left and the error that follows them. \<open>pub\<close> is \<open>Producer.Publish\<close> of \<open>go-nsq\<close>,
  which may change the state \<open>'w\<close> of the daemons; the order in which the map of producers is iterated, which may be another
  one for every line, is an argument.
\<close>

section \<open>Reading and publishing\<close>

datatype io_err = IoEOF | IoErr go_error

record 'w to_nsq =
  tn_input :: bytes
  tn_end :: io_err
  tn_world :: 'w
  tn_published :: "(string \<times> bytes) list"

type_synonym 'w publish = "string \<Rightarrow> string \<Rightarrow> bytes \<Rightarrow> 'w \<Rightarrow> io_err option \<times> 'w"

text \<open>\<open>bufio.Reader.ReadBytes\<close>: the bytes up to and including the delimiter, or what is left and the error.\<close>

definition ReadBytes :: "byte \<Rightarrow> 'w to_nsq \<Rightarrow> (bytes \<times> io_err option) \<times> 'w to_nsq" where
  "ReadBytes delim s =
     (if delim \<in> set (tn_input s)
      then ((takeWhile (\<lambda>b. b \<noteq> delim) (tn_input s) @ [delim], None),
            s\<lparr>tn_input := tl (dropWhile (\<lambda>b. b \<noteq> delim) (tn_input s))\<rparr>)
      else ((tn_input s, Some (tn_end s)), s\<lparr>tn_input := []\<rparr>))"

fun publish_to :: "'w publish \<Rightarrow> string \<Rightarrow> bytes \<Rightarrow> string list \<Rightarrow> 'w to_nsq \<Rightarrow> io_err option \<times> 'w to_nsq" where
  "publish_to pub topic line [] s = (None, s)"
| "publish_to pub topic line (addr # addrs) s =
     (case pub addr topic line (tn_world s) of
        (Some e, w) \<Rightarrow> (Some e, s\<lparr>tn_world := w\<rparr>)
      | (None, w) \<Rightarrow> publish_to pub topic line addrs (s\<lparr>tn_world := w, tn_published := tn_published s @ [(addr, line)]\<rparr>))"

text \<open>The last byte is cut off as the delimiter, also when the input has ended without one.\<close>

definition readAndPublish ::
    "'w publish \<Rightarrow> string \<Rightarrow> string list \<Rightarrow> byte \<Rightarrow> 'w to_nsq \<Rightarrow> io_err option \<times> 'w to_nsq" where
  "readAndPublish pub topic producers delim s =
     (case ReadBytes delim s of
        ((line, readErr), s1) \<Rightarrow>
          let line1 = (if 0 < length line then take (length line - 1) line else line) in
          if line1 = [] then (readErr, s1)
          else case publish_to pub topic line1 producers s1 of
                 (Some e, s2) \<Rightarrow> (Some e, s2)
               | (None, s2) \<Rightarrow> (readErr, s2))"

lemma publish_to_input: "publish_to pub topic line addrs s = (e, s1) \<Longrightarrow> tn_input s1 = tn_input s"
  by (induction addrs arbitrary: s) (auto split: prod.splits option.splits)

lemma length_tl_dropWhile: "x \<in> set xs \<Longrightarrow> length (dropWhile (\<lambda>b. b \<noteq> x) xs) - Suc 0 < length xs"
  by (induction xs) auto

lemma readAndPublish_shorter:
  "readAndPublish pub topic producers delim s = (None, s1) \<Longrightarrow> length (tn_input s1) < length (tn_input s)"
  by (auto simp: readAndPublish_def ReadBytes_def Let_def length_tl_dropWhile
      dest!: publish_to_input split: if_splits prod.splits option.splits)

text \<open>The loop: \<open>Stopped\<close> at the end of the input, \<open>Died\<close> after any other error. \<open>orders\<close> are the orders of the iterations.\<close>

datatype 'w to_nsq_end = Stopped "'w to_nsq" | Died go_error "'w to_nsq"

function to_nsq_loop :: "'w publish \<Rightarrow> string \<Rightarrow> (nat \<Rightarrow> string list) \<Rightarrow> nat \<Rightarrow> byte \<Rightarrow> 'w to_nsq \<Rightarrow> 'w to_nsq_end" where
  "to_nsq_loop pub topic orders k delim s =
     (case readAndPublish pub topic (orders k) delim s of
        (None, s1) \<Rightarrow> to_nsq_loop pub topic orders (Suc k) delim s1
      | (Some IoEOF, s1) \<Rightarrow> Stopped s1
      | (Some (IoErr e), s1) \<Rightarrow> Died e s1)"
  by pat_completeness auto

termination
  by (relation "measure (\<lambda>(pub, topic, orders, k, delim, s). length (tn_input s))") (simp_all add: readAndPublish_shorter)

declare to_nsq_loop.simps [simp del]

section \<open>Throttling\<close>

text \<open>
  The balance is shared by two goroutines. A tick adds 1 and, in a second atomic step, stores the rate if the sum it got is
  above the rate (\<open>tt_tick\<close> is the sum in between). The reader loads the balance, sleeps if it is not positive, publishes a line
  and subtracts 1 (\<open>tt_reader\<close> is whether it slept, between the load and the subtraction). The counters are for the statements:
  \<open>tt_raced\<close> counts the subtractions between the two steps of a tick that stores.
\<close>

record throttle =
  tt_balance :: i64
  tt_tick :: "i64 option"
  tt_reader :: "bool option"
  tt_ticks :: nat
  tt_sleeps :: nat
  tt_sent :: nat
  tt_raced :: nat

definition throttleEnabled :: "i64 \<Rightarrow> bool" where
  "throttleEnabled rate \<longleftrightarrow> 1 \<le> sint rate"

definition throttle_interval :: "i64 \<Rightarrow> int" where
  "throttle_interval rate = (if throttleEnabled rate then go_div 1000000000 (sint rate) else 0)"

definition throttle_start :: throttle where
  "throttle_start =
     \<lparr>tt_balance = 1, tt_tick = None, tt_reader = None, tt_ticks = 0, tt_sleeps = 0, tt_sent = 0, tt_raced = 0\<rparr>"

datatype throttle_event = TickAdd | TickStore | ReaderLoad | ReaderSent

fun throttle_step :: "i64 \<Rightarrow> throttle_event \<Rightarrow> throttle \<Rightarrow> throttle option" where
  "throttle_step rate TickAdd s =
     (case tt_tick s of
        Some n \<Rightarrow> None
      | None \<Rightarrow> Some (s\<lparr>tt_balance := tt_balance s + 1, tt_tick := Some (tt_balance s + 1), tt_ticks := tt_ticks s + 1\<rparr>))"
| "throttle_step rate TickStore s =
     (case tt_tick s of
        None \<Rightarrow> None
      | Some n \<Rightarrow> Some (s\<lparr>tt_tick := None, tt_balance := (if sint rate < sint n then rate else tt_balance s)\<rparr>))"
| "throttle_step rate ReaderLoad s =
     (case tt_reader s of
        Some x \<Rightarrow> None
      | None \<Rightarrow>
          let slept = (sint (tt_balance s) \<le> 0)
          in Some (s\<lparr>tt_reader := Some slept, tt_sleeps := tt_sleeps s + (if slept then 1 else 0)\<rparr>))"
| "throttle_step rate ReaderSent s =
     (case tt_reader s of
        None \<Rightarrow> None
      | Some x \<Rightarrow>
          Some (s\<lparr>tt_reader := None, tt_balance := tt_balance s - 1, tt_sent := tt_sent s + 1,
                  tt_raced := tt_raced s + (case tt_tick s of Some n \<Rightarrow> if sint rate < sint n then 1 else 0 | None \<Rightarrow> 0)\<rparr>))"

inductive throttle_reach :: "i64 \<Rightarrow> throttle \<Rightarrow> bool" for rate where
  throttle_init: "throttle_reach rate throttle_start"
| throttle_next: "throttle_reach rate s \<Longrightarrow> throttle_step rate ev s = Some s' \<Longrightarrow> throttle_reach rate s'"

section \<open>The program\<close>

record to_nsq_flags =
  nf_topic :: string
  nf_delimiter :: bytes
  nf_destNsqdTCPAddrs :: StringArray
  nf_rate :: i64

definition to_nsq_main :: "to_nsq_flags \<Rightarrow> (string \<Rightarrow> go_error option) \<Rightarrow> (byte \<times> string list \<times> throttle) started" where
  "to_nsq_main f newProducer =
     (if nf_topic f = [] then Fatal ''--topic required''
      else if length (nf_delimiter f) \<noteq> 1 then Fatal ''--delimiter must be a single byte''
      else case first_error newProducer (nf_destNsqdTCPAddrs f) of
             Some e \<Rightarrow> Fatal (''failed to create nsq.Producer - '' @ e)
           | None \<Rightarrow>
               if nf_destNsqdTCPAddrs f = [] then Fatal ''--nsqd-tcp-address required''
               else Started (hd (nf_delimiter f), remdups (nf_destNsqdTCPAddrs f), throttle_start))"

section \<open>What is published\<close>

definition published_to :: "string \<Rightarrow> 'w to_nsq \<Rightarrow> bytes list" where
  "published_to a s = map snd (filter (\<lambda>(x, l). x = a) (tn_published s))"

text \<open>Every order of the iteration visits each producer once, and every publish succeeds.\<close>

definition all_succeed :: "'w publish \<Rightarrow> bool" where
  "all_succeed pub \<longleftrightarrow> (\<forall>addr topic line w. fst (pub addr topic line w) = None)"

lemma publish_to_all:
  assumes "all_succeed pub" "distinct addrs"
  shows "\<exists>s1. publish_to pub topic line addrs s = (None, s1) \<and> tn_input s1 = tn_input s \<and> tn_end s1 = tn_end s \<and>
     (\<forall>a. published_to a s1 = published_to a s @ (if a \<in> set addrs then [line] else []))"
  using assms(2)
proof (induction addrs arbitrary: s)
  case (Cons x xs)
  obtain w where w: "pub x topic line (tn_world s) = (None, w)"
    using assms(1) by (metis all_succeed_def prod.collapse)
  let ?s = "s\<lparr>tn_world := w, tn_published := tn_published s @ [(x, line)]\<rparr>"
  from Cons.IH [of ?s] Cons.prems obtain s1 where s1: "publish_to pub topic line xs ?s = (None, s1)"
    "tn_input s1 = tn_input s" "tn_end s1 = tn_end s"
    "\<forall>a. published_to a s1 = published_to a ?s @ (if a \<in> set xs then [line] else [])" by auto
  have "published_to a ?s = published_to a s @ (if a = x then [line] else [])" for a
    by (simp add: published_to_def)
  with s1 Cons.prems w show ?case by auto
qed simp

definition nonempty :: "bytes list \<Rightarrow> bytes list" where
  "nonempty ls = filter (\<lambda>l. l \<noteq> []) ls"

text \<open>One line, and the end of the input.\<close>

lemma read_line:
  assumes "all_succeed pub" "distinct addrs" "delim \<notin> set line" "tn_input s = line @ delim # rest"
  shows "\<exists>s1. readAndPublish pub topic addrs delim s = (None, s1) \<and> tn_input s1 = rest \<and> tn_end s1 = tn_end s \<and>
     (\<forall>a \<in> set addrs. published_to a s1 = published_to a s @ nonempty [line])"
proof -
  let ?s = "s\<lparr>tn_input := rest\<rparr>"
  have r: "ReadBytes delim s = ((line @ [delim], None), ?s)"
  proof -
    have "takeWhile (\<lambda>b. b \<noteq> delim) (line @ delim # rest) = line" "dropWhile (\<lambda>b. b \<noteq> delim) (line @ delim # rest) = delim # rest"
      using assms(3) by (subst takeWhile_append2 dropWhile_append2; auto)+
    then show ?thesis using assms(4) by (simp add: ReadBytes_def)
  qed
  have p: "published_to a ?s = published_to a s" for a by (simp add: published_to_def)
  show ?thesis
  proof (cases "line = []")
    case True
    then show ?thesis using r p by (simp add: readAndPublish_def nonempty_def)
  next
    case False
    from publish_to_all [OF assms(1,2), of topic line ?s] r p False show ?thesis
      by (auto simp: readAndPublish_def nonempty_def)
  qed
qed

lemma readAndPublish_butlast:
  "readAndPublish pub topic producers delim s =
     (case ReadBytes delim s of
        ((line, readErr), s1) \<Rightarrow>
          if butlast line = [] then (readErr, s1)
          else case publish_to pub topic (butlast line) producers s1 of
                 (Some e, s2) \<Rightarrow> (Some e, s2)
               | (None, s2) \<Rightarrow> (readErr, s2))"
proof -
  have "(if 0 < length l then take (length l - 1) l else l) = butlast l" for l :: bytes
    by (simp add: butlast_conv_take)
  then show ?thesis by (simp only: readAndPublish_def Let_def)
qed

lemma read_tail:
  assumes "all_succeed pub" "distinct addrs" "delim \<notin> set (tn_input s)"
  shows "\<exists>s1. readAndPublish pub topic addrs delim s = (Some (tn_end s), s1) \<and>
     (\<forall>a \<in> set addrs. published_to a s1 = published_to a s @ nonempty [butlast (tn_input s)])"
proof -
  let ?s = "s\<lparr>tn_input := []\<rparr>"
  have r: "ReadBytes delim s = ((tn_input s, Some (tn_end s)), ?s)" using assms(3) by (simp add: ReadBytes_def)
  have p: "published_to a ?s = published_to a s" for a by (simp add: published_to_def)
  show ?thesis
  proof (cases "butlast (tn_input s) = []")
    case True
    then show ?thesis using r p by (simp add: readAndPublish_butlast nonempty_def)
  next
    case False
    from publish_to_all [OF assms(1,2), of topic "butlast (tn_input s)" ?s] r p False show ?thesis
      by (auto simp: readAndPublish_butlast nonempty_def)
  qed
qed

text \<open>C28.
  When every publish succeeds, \<open>to_nsq\<close> ends at the end of its input, and every producer has got the lines of the input in
  order, without the empty ones, each as one message. What follows the last delimiter is published without its last byte:
  an input that does not end with a delimiter loses a byte.\<close>

theorem to_nsq_publishes_lines:
  assumes "all_succeed pub" and "\<forall>k. distinct (orders k) \<and> set (orders k) = addrs"
    and "\<forall>l \<in> set ls. delim \<notin> set l" and "delim \<notin> set rest"
    and "tn_input s = concat (map (\<lambda>l. l @ [delim]) ls) @ rest" and "tn_end s = IoEOF"
  shows "\<exists>s1. to_nsq_loop pub topic orders k delim s = Stopped s1 \<and>
     (\<forall>a \<in> addrs. published_to a s1 = published_to a s @ nonempty (ls @ [butlast rest]))"
  using assms(3,5,6)
proof (induction ls arbitrary: s k)
  case Nil
  with read_tail [OF assms(1), of "orders k" delim s topic] assms(2,4) show ?case
    by (auto simp: to_nsq_loop.simps [of pub topic orders k delim s])
next
  case (Cons l ls)
  from read_line [OF assms(1), of "orders k" delim l s "concat (map (\<lambda>l. l @ [delim]) ls) @ rest" topic] assms(2) Cons.prems
  obtain s1 where s1: "readAndPublish pub topic (orders k) delim s = (None, s1)"
    "tn_input s1 = concat (map (\<lambda>l. l @ [delim]) ls) @ rest" "tn_end s1 = IoEOF"
    "\<forall>a \<in> addrs. published_to a s1 = published_to a s @ nonempty [l]" by auto
  from Cons.IH [of s1 "Suc k"] Cons.prems s1 obtain s2 where "to_nsq_loop pub topic orders (Suc k) delim s1 = Stopped s2"
    "\<forall>a \<in> addrs. published_to a s2 = published_to a s1 @ nonempty (ls @ [butlast rest])" by auto
  then show ?case using s1 by (auto simp: to_nsq_loop.simps [of pub topic orders k delim s] nonempty_def)
qed

text \<open>Without the newline at its end, the input \<open>ab\<close>, newline, \<open>cd\<close> is published as \<open>ab\<close> and \<open>c\<close>.\<close>

theorem to_nsq_publishes_lines_witness:
  "\<exists>s1. to_nsq_loop (\<lambda>_ _ _ w. (None, w)) ''t'' (\<lambda>_. [''a'', ''b'']) 0 10
          \<lparr>tn_input = [97, 98, 10, 99, 100], tn_end = IoEOF, tn_world = (), tn_published = []\<rparr> = Stopped s1 \<and>
     published_to ''a'' s1 = [[97, 98], [99]]"
proof -
  let ?s = "\<lparr>tn_input = [97, 98, 10, 99, 100], tn_end = IoEOF, tn_world = (), tn_published = []\<rparr>"
  have "\<exists>s1. to_nsq_loop (\<lambda>_ _ _ w. (None, w)) ''t'' (\<lambda>_. [''a'', ''b'']) 0 10 ?s = Stopped s1 \<and>
     (\<forall>a \<in> {''a'', ''b''}. published_to a s1 = published_to a ?s @ nonempty ([[97, 98]] @ [butlast [99, 100]]))"
    by (rule to_nsq_publishes_lines) (auto simp: all_succeed_def)
  then show ?thesis by (auto simp: published_to_def nonempty_def)
qed

section \<open>The rate\<close>

lemma sint_range: "- (2 ^ 63) \<le> sint (b :: i64)" "sint (b :: i64) < 2 ^ 63"
  using sint_greater_eq [of b] sint_less [of b] by simp_all

lemma sint_add_one: "sint (b :: i64) < 2 ^ 63 - 1 \<Longrightarrow> sint (b + 1) = sint b + 1"
  using sint_range [of b] by (simp add: sint_word_ariths signed_take_bit_int_eq_self)

lemma sint_sub_one: "- (2 ^ 63) < sint (b :: i64) \<Longrightarrow> sint (b - 1) = sint b - 1"
  using sint_range [of b] by (simp add: sint_word_ariths signed_take_bit_int_eq_self)

text \<open>The lines sent apart from those that raced, as an integer.\<close>

abbreviation paid :: "throttle \<Rightarrow> int" where
  "paid s \<equiv> int (tt_sent s) - int (tt_raced s)"

definition throttle_inv :: "i64 \<Rightarrow> throttle \<Rightarrow> bool" where
  "throttle_inv rate s \<longleftrightarrow>
     (case tt_tick s of
        None \<Rightarrow> sint (tt_balance s) \<le> sint rate
      | Some n \<Rightarrow> sint n \<le> sint rate + 1 \<and> sint (tt_balance s) \<le> sint n \<and>
                  (sint rate < sint n \<longrightarrow> sint n \<le> 1 + int (tt_ticks s) - paid s)) \<and>
     sint (tt_balance s) \<le> 1 + int (tt_ticks s) - paid s \<and>
     - int (tt_sleeps s) \<le> sint (tt_balance s) \<and>
     (case tt_reader s of
        None \<Rightarrow> True
      | Some True \<Rightarrow> 1 - int (tt_sleeps s) \<le> sint (tt_balance s)
      | Some False \<Rightarrow> 1 \<le> sint (tt_balance s))"

lemma throttle_inv_step:
  assumes inv: "throttle_inv rate s" and step: "throttle_step rate ev s = Some s'"
    and rate: "1 \<le> sint rate" "sint rate < 2 ^ 63 - 1" and few: "tt_sleeps s' < 2 ^ 63"
  shows "throttle_inv rate s'"
proof (cases ev)
  case TickAdd
  have t: "tt_tick s = None" and s': "s' = s\<lparr>tt_balance := tt_balance s + 1, tt_tick := Some (tt_balance s + 1), tt_ticks := tt_ticks s + 1\<rparr>"
    using step TickAdd by (auto split: option.splits)
  have b: "sint (tt_balance s) \<le> sint rate" using inv t by (simp add: throttle_inv_def)
  then have "sint (tt_balance s + 1) = sint (tt_balance s) + 1" using rate(2) by (intro sint_add_one) simp
  then show ?thesis using inv t b by (auto simp: throttle_inv_def s' split: option.splits bool.splits)
next
  case TickStore
  then obtain n where t: "tt_tick s = Some n"
    and s': "s' = s\<lparr>tt_tick := None, tt_balance := (if sint rate < sint n then rate else tt_balance s)\<rparr>"
    using step by (auto split: option.splits)
  then show ?thesis using inv rate by (auto simp: throttle_inv_def split: option.splits bool.splits)
next
  case ReaderLoad
  then show ?thesis using inv step
    by (auto simp: throttle_inv_def Let_def split: option.splits bool.splits if_splits)
next
  case ReaderSent
  then obtain x where x: "tt_reader s = Some x"
    and s': "s' = s\<lparr>tt_reader := None, tt_balance := tt_balance s - 1, tt_sent := tt_sent s + 1,
       tt_raced := tt_raced s + (case tt_tick s of Some n \<Rightarrow> if sint rate < sint n then 1 else 0 | None \<Rightarrow> 0)\<rparr>"
    using step by (auto split: option.splits)
  have low: "1 - int (tt_sleeps s) \<le> sint (tt_balance s)"
    using inv x by (auto simp: throttle_inv_def split: bool.splits)
  then have "- (2 ^ 63) < sint (tt_balance s)" using few by (simp add: s')
  then have "sint (tt_balance s - 1) = sint (tt_balance s) - 1" by (rule sint_sub_one)
  then show ?thesis using inv low by (auto simp: throttle_inv_def s' split: option.splits if_splits)
qed

lemma throttle_step_sleeps: "throttle_step rate ev s = Some s' \<Longrightarrow> tt_sleeps s \<le> tt_sleeps s'"
  by (cases ev) (auto simp: Let_def split: option.splits)

lemma throttle_reach_inv:
  assumes "throttle_reach rate s" "1 \<le> sint rate" "sint rate < 2 ^ 63 - 1" "tt_sleeps s < 2 ^ 63"
  shows "throttle_inv rate s"
  using assms(1,4)
proof induction
  case throttle_init
  show ?case using assms(2) by (simp add: throttle_inv_def throttle_start_def)
next
  case (throttle_next s ev s')
  then show ?case using throttle_inv_step [OF _ throttle_next.hyps(2) assms(2,3)] throttle_step_sleeps by fastforce
qed

text \<open>C29.
  The throttle of \<open>to_nsq\<close> bounds what is sent. In every interleaving of the ticker and the reader the balance stays at most one
  above the rate, and at most the rate between ticks, and the number of lines sent is at most 1 plus the number of ticks plus the
  number of times the reader slept for an interval, plus those that were sent between the two steps of a tick that resets
  the balance, which are forgotten. The 64-bit balance does not overflow.\<close>

theorem throttle_bounds_rate:
  assumes "throttle_reach rate s" "throttleEnabled rate" "sint rate < 2 ^ 63 - 1" "tt_sleeps s < 2 ^ 63"
  shows "tt_sent s \<le> 1 + tt_ticks s + tt_sleeps s + tt_raced s \<and>
     sint (tt_balance s) \<le> sint rate + (if tt_tick s = None then 0 else 1) \<and>
     - int (tt_sleeps s) \<le> sint (tt_balance s)"
proof -
  have "throttle_inv rate s" using throttle_reach_inv assms by (simp add: throttleEnabled_def)
  then have "int (tt_sent s) \<le> int (1 + tt_ticks s + tt_sleeps s + tt_raced s)"
    "sint (tt_balance s) \<le> sint rate + (if tt_tick s = None then 0 else 1)" "- int (tt_sleeps s) \<le> sint (tt_balance s)"
    by (auto simp: throttle_inv_def split: option.splits)
  then show ?thesis by simp
qed

fun throttle_steps :: "i64 \<Rightarrow> throttle_event list \<Rightarrow> throttle \<Rightarrow> throttle option" where
  "throttle_steps rate [] s = Some s"
| "throttle_steps rate (ev # evs) s = (case throttle_step rate ev s of None \<Rightarrow> None | Some s1 \<Rightarrow> throttle_steps rate evs s1)"

lemma throttle_steps_reach: "throttle_reach rate s \<Longrightarrow> throttle_steps rate evs s = Some s' \<Longrightarrow> throttle_reach rate s'"
  by (induction evs arbitrary: s) (auto intro: throttle_next split: option.splits)

text \<open>At the rate 1, a line that is sent between the two steps of a tick costs nothing.\<close>

theorem throttle_bounds_rate_witness:
  "\<exists>s. throttle_reach 1 s \<and> tt_sent s = 3 \<and> tt_ticks s = 1 \<and> tt_sleeps s = 0 \<and> tt_raced s = 2 \<and>
     tt_sent s \<le> 1 + tt_ticks s + tt_sleeps s + tt_raced s"
proof -
  let ?s = "\<lparr>tt_balance = 0, tt_tick = None, tt_reader = None, tt_ticks = 1, tt_sleeps = 0, tt_sent = 3, tt_raced = 2\<rparr>"
  have "throttle_steps 1 [TickAdd, ReaderLoad, ReaderSent, ReaderLoad, ReaderSent, TickStore, ReaderLoad, ReaderSent] throttle_start =
     Some ?s"
    by code_simp
  then have r: "throttle_reach 1 ?s"
    by (rule throttle_steps_reach [OF throttle_init])
  have "throttleEnabled 1" by (simp add: throttleEnabled_def)
  from throttle_bounds_rate [OF r this] r show ?thesis by (intro exI [of _ ?s]) simp
qed

end
