(* ===== verification/Nsq_Tools.thy ===== *)
theory Nsq_Tools
  imports Nsq_Relay
begin

text \<open>
  The two tools that print: \<open>apps/nsq_stat\<close> polls the statistics of a channel, \<open>apps/nsq_tail\<close> prints the messages of topics.
  The cluster at the moment of each poll, the outcome of each write to the standard output and the events of the client
  library are arguments. A rate is computed with floating-point numbers; that computation is an argument.
\<close>

section \<open>Lists of numbers\<close>

text \<open>\<open>app.FloatArray\<close>: \<open>parse\<close> is \<open>strconv.ParseFloat\<close>, of which infinities and NaN, which cannot be sorted, are left out; \<open>Inl\<close>
  is the end of the program. \<open>render\<close> is the verb \<open>%f\<close>.\<close>

fun append_floats :: "(string \<Rightarrow> rat option) \<Rightarrow> string list \<Rightarrow> rat list \<Rightarrow> go_error + rat list" where
  "append_floats parse [] a = Inr a"
| "append_floats parse (s # ss) a =
     (case parse s of None \<Rightarrow> Inl (''Could not parse: '' @ s) | Some x \<Rightarrow> append_floats parse ss (a @ [x]))"

definition FloatArray_Set :: "(string \<Rightarrow> rat option) \<Rightarrow> string \<Rightarrow> rat list \<Rightarrow> go_error + rat list" where
  "FloatArray_Set parse param a =
     (case append_floats parse (strings_Split (CHR '','') param) a of Inl e \<Rightarrow> Inl e | Inr xs \<Rightarrow> Inr (rev (sort xs)))"

definition FloatArray_String :: "(rat \<Rightarrow> string) \<Rightarrow> rat list \<Rightarrow> string" where
  "FloatArray_String render a = strings_Join (map render a) '',''"

lemma append_floats_result:
  "append_floats parse ss a = Inr xs \<Longrightarrow> \<exists>ys. map parse ss = map Some ys \<and> xs = a @ ys"
proof (induction ss arbitrary: a)
  case (Cons s ss)
  then obtain x where x: "parse s = Some x" "append_floats parse ss (a @ [x]) = Inr xs" by (auto split: option.splits)
  from Cons.IH [OF x(2)] obtain ys where "map parse ss = map Some ys" "xs = (a @ [x]) @ ys" by blast
  with x(1) show ?case by (intro exI [of _ "x # ys"]) simp
qed simp

text \<open>The list has what it had and the numbers of the flag, the largest first.\<close>

lemma FloatArray_Set_result:
  assumes "FloatArray_Set parse param a = Inr b"
  shows "sorted_wrt (\<ge>) b \<and> (\<exists>ys. map parse (strings_Split (CHR '','') param) = map Some ys \<and> mset b = mset a + mset ys)"
proof -
  from assms obtain xs where xs: "append_floats parse (strings_Split (CHR '','') param) a = Inr xs" "b = rev (sort xs)"
    by (auto simp: FloatArray_Set_def split: sum.splits)
  from append_floats_result [OF xs(1)] xs(2) show ?thesis
    using sorted_sort [of xs] by (auto simp: sorted_wrt_rev)
qed

section \<open>nsq\_stat\<close>

record numValue =
  nv_isSet :: bool
  nv_value :: int

text \<open>\<open>strconv.ParseInt(s, 10, 32)\<close>: values that do not fit 32 bits are refused.\<close>

definition numValue_Set :: "string \<Rightarrow> numValue \<Rightarrow> go_error option \<times> numValue" where
  "numValue_Set s nv =
     (case ParseInt s of
        Inl e \<Rightarrow> (Some e, nv)
      | Inr x \<Rightarrow> if x < - (2 ^ 31) \<or> 2 ^ 31 \<le> x then (Some ''value out of range'', nv)
                 else (None, \<lparr>nv_isSet = True, nv_value = x\<rparr>))"

record stat_flags =
  sf_showVersion :: bool
  sf_topic :: string
  sf_channel :: string
  sf_interval :: int
  sf_httpConnectTimeout :: int
  sf_httpRequestTimeout :: int
  sf_countNum :: numValue
  sf_nsqdHTTPAddrs :: StringArray
  sf_lookupdHTTPAddrs :: StringArray

fun checkAddrs :: "string list \<Rightarrow> go_error option" where
  "checkAddrs [] = None"
| "checkAddrs (a # addrs) = (if take 4 a = ''http'' then Some ''address should not contain scheme'' else checkAddrs addrs)"

definition stat_check :: "stat_flags \<Rightarrow> go_error option" where
  "stat_check f =
     (if sf_topic f = [] \<or> sf_channel f = [] then Some ''--topic and --channel are required''
      else if sf_interval f \<le> 0 then Some ''--interval should be positive''
      else if sf_httpConnectTimeout f \<le> 0 then Some ''--http-client-connect-timeout should be positive''
      else if sf_httpRequestTimeout f \<le> 0 then Some ''--http-client-request-timeout should be positive''
      else if nv_isSet (sf_countNum f) \<and> nv_value (sf_countNum f) \<le> 0 then Some ''--count should be positive''
      else if sf_nsqdHTTPAddrs f = [] \<and> sf_lookupdHTTPAddrs f = []
      then Some ''--nsqd-http-address or --lookupd-http-address required''
      else if sf_nsqdHTTPAddrs f \<noteq> [] \<and> sf_lookupdHTTPAddrs f \<noteq> []
      then Some ''use --nsqd-http-address or --lookupd-http-address not both''
      else case checkAddrs (sf_nsqdHTTPAddrs f) of
             Some e \<Rightarrow> Some (''--nsqd-http-address error - '' @ e)
           | None \<Rightarrow> map_option (\<lambda>e. ''--lookupd-http-address error - '' @ e) (checkAddrs (sf_lookupdHTTPAddrs f)))"

text \<open>A line of the output: the header, or the eleven numbers of a report.\<close>

datatype stat_line = StatHeader | StatReport "int list"

datatype stat_end = StatWaiting | StatFatal go_error | StatPanic | StatExit

text \<open>One poll of the channel's statistics: the reference of the aggregate in the store.\<close>

definition stat_poll ::
    "('w, 'v) ClusterInfo \<Rightarrow> stat_flags \<Rightarrow> 'w \<Rightarrow> stats_store \<Rightarrow> (stat_end + ref) \<times> stats_store" where
  "stat_poll ci f w st =
     (case (if sf_lookupdHTTPAddrs f \<noteq> [] then GetLookupdTopicProducers ci (sf_topic f) (sf_lookupdHTTPAddrs f) w
            else Some (GetNSQDTopicProducers ci (sf_topic f) (sf_nsqdHTTPAddrs f) w)) of
        None \<Rightarrow> (Inl StatPanic, st)
      | Some (producers, Some e) \<Rightarrow> (Inl (StatFatal ''ERROR: failed to get topic producers''), st)
      | Some (producers, None) \<Rightarrow>
          (case GetNSQDStats ci producers (sf_topic f) (sf_channel f) False w st of
             (_, Some e, st1) \<Rightarrow> (Inl (StatFatal ''ERROR: failed to get nsqd stats''), st1)
           | ((_, channelStats), None, st1) \<Rightarrow>
               (case map_of channelStats (sf_channel f) of
                  None \<Rightarrow> (Inl (StatFatal ''ERROR: failed to find channel''), st1)
                | Some c \<Rightarrow> (Inr c, st1))))"

definition stat_report :: "(i64 \<Rightarrow> int \<Rightarrow> int) \<Rightarrow> int \<Rightarrow> ChannelStats \<Rightarrow> ChannelStats \<Rightarrow> stat_line" where
  "stat_report rate interval c o' =
     StatReport ([rate (ks_MessageCount c - ks_MessageCount o') interval,
                  rate (ks_MessageCount c - ks_MessageCount o' - (ks_Depth c - ks_Depth o')) interval] @
                 map sint [ks_Depth c, ks_MemoryDepth c, ks_BackendDepth c, ks_InFlightCount c, ks_DeferredCount c,
                           ks_RequeueCount c, ks_TimeoutCount c, ks_MessageCount c, ks_ClientCount c])"

text \<open>\<open>ws\<close> are the states of the cluster at the polls; \<open>o'\<close> is the statistics of the poll before.\<close>

fun statLoop ::
    "('w, 'v) ClusterInfo \<Rightarrow> (i64 \<Rightarrow> int \<Rightarrow> int) \<Rightarrow> stat_flags \<Rightarrow> int \<Rightarrow> ref option \<Rightarrow> 'w list \<Rightarrow> stats_store \<Rightarrow>
       stat_line list \<times> stat_end" where
  "statLoop ci rate f i o' ws st =
     (if nv_isSet (sf_countNum f) \<and> \<not> i \<le> nv_value (sf_countNum f) then ([], StatExit)
      else case ws of
        [] \<Rightarrow> ([], StatWaiting)
      | w # ws1 \<Rightarrow>
          (case stat_poll ci f w st of
             (Inl e, st1) \<Rightarrow> ([], e)
           | (Inr c, st1) \<Rightarrow>
               let header = (if i mod 25 = 0 then [StatHeader] else []);
                   report = (case o' of
                               None \<Rightarrow> []
                             | Some r \<Rightarrow> [stat_report rate (sf_interval f) (st_channels st1 c) (st_channels st1 r)])
               in case statLoop ci rate f (i + 1) (Some c) ws1 st1 of
                    (ls, e) \<Rightarrow> (header @ report @ ls, e)))"

declare statLoop.simps [simp del]

definition stat_main ::
    "('w, 'v) ClusterInfo \<Rightarrow> (i64 \<Rightarrow> int \<Rightarrow> int) \<Rightarrow> stat_flags \<Rightarrow> 'w list \<Rightarrow> stats_store \<Rightarrow> (stat_line list \<times> stat_end) started" where
  "stat_main ci rate f ws st =
     (if sf_showVersion f then Version
      else case stat_check f of
             Some e \<Rightarrow> Fatal e
           | None \<Rightarrow> Started (statLoop ci rate f 0 None ws st))"

section \<open>nsq\_tail\<close>

record tail_flags =
  tf_showVersion :: bool
  tf_channel :: string
  tf_maxInFlight :: int
  tf_totalMessages :: int
  tf_printTopic :: bool
  tf_nsqdTCPAddrs :: StringArray
  tf_lookupdHTTPAddrs :: StringArray
  tf_topics :: StringArray

record TailHandler =
  ta_topicName :: string
  ta_totalMessages :: int
  ta_messagesShown :: int

text \<open>The standard output with the outcomes of the writes to come (\<open>True\<close> fails; past the list they succeed).\<close>

record stdout =
  so_bytes :: bytes
  so_fails :: "bool list"

definition stdout_Write :: "bytes \<Rightarrow> stdout \<Rightarrow> stdout process" where
  "stdout_Write b o' =
     (case so_fails o' of
        [] \<Rightarrow> Running (o'\<lparr>so_bytes := so_bytes o' @ b\<rparr>)
      | True # fs \<Rightarrow> Exited (o'\<lparr>so_fails := fs\<rparr>)
      | False # fs \<Rightarrow> Running (o'\<lparr>so_bytes := so_bytes o' @ b, so_fails := fs\<rparr>))"

text \<open>\<open>Exited\<close> is \<open>os.Exit(0)\<close> after the last message, or \<open>log.Fatalf\<close> after a failed write.\<close>

definition tail_HandleMessage :: "bool \<Rightarrow> nsq_Message \<Rightarrow> TailHandler \<times> stdout \<Rightarrow> (TailHandler \<times> stdout) process" where
  "tail_HandleMessage printTopic m s =
     (case s of
        (th, o') \<Rightarrow>
          let th1 = th\<lparr>ta_messagesShown := ta_messagesShown th + 1\<rparr>;
              p = proc_then (if printTopic
                             then proc_then (stdout_Write (bytes_of (ta_topicName th1)) o') (stdout_Write (bytes_of '' | ''))
                             else Running o') (\<lambda>o1. proc_then (stdout_Write (nm_Body m) o1) (stdout_Write [10]))
          in case p of
               Spinning \<Rightarrow> Spinning
             | Exited o1 \<Rightarrow> Exited (th1, o1)
             | Running o1 \<Rightarrow>
                 if 0 < ta_totalMessages th1 \<and> ta_totalMessages th1 \<le> ta_messagesShown th1 then Exited (th1, o1)
                 else Running (th1, o1))"

definition tail_check :: "tail_flags \<Rightarrow> go_error option" where
  "tail_check f =
     (case nsq_addrs_check (tf_nsqdTCPAddrs f) (tf_lookupdHTTPAddrs f) of
        Some e \<Rightarrow> Some e
      | None \<Rightarrow> if tf_topics f = [] then Some ''--topic required'' else None)"

definition tail_maxInFlight :: "tail_flags \<Rightarrow> int" where
  "tail_maxInFlight f =
     (if 0 < tf_totalMessages f \<and> tf_totalMessages f < tf_maxInFlight f then tf_totalMessages f else tf_maxInFlight f)"

text \<open>\<open>r\<close> is \<open>rand.Int()\<close>.\<close>

definition tail_channel :: "tail_flags \<Rightarrow> nat \<Rightarrow> string" where
  "tail_channel f r = (if tf_channel f = [] then ''tail'' @ pad6 (r mod 999999) @ ''#ephemeral'' else tf_channel f)"

definition tail_main ::
    "tail_flags \<Rightarrow> nat \<Rightarrow> (string \<Rightarrow> go_error option) \<Rightarrow> (string \<Rightarrow> go_error option) \<Rightarrow> (string \<Rightarrow> go_error option) \<Rightarrow>
       (string \<times> int \<times> TailHandler list) started" where
  "tail_main f r newConsumer connectNSQDs connectLookupds =
     (if tf_showVersion f then Version
      else case tail_check f of
        Some e \<Rightarrow> Fatal e
      | None \<Rightarrow>
          (case first_error (\<lambda>t. first_error (\<lambda>g. g t) [newConsumer, connectNSQDs, connectLookupds]) (tf_topics f) of
             Some e \<Rightarrow> Fatal e
           | None \<Rightarrow>
               Started (tail_channel f r, tail_maxInFlight f,
                        map (\<lambda>t. \<lparr>ta_topicName = t, ta_totalMessages = tf_totalMessages f, ta_messagesShown = 0\<rparr>) (tf_topics f))))"

text \<open>A run: messages arrive at the handlers of the topics; the handlers share the standard output.\<close>

fun tail_run :: "bool \<Rightarrow> (nat \<times> nsq_Message) list \<Rightarrow> TailHandler list \<times> stdout \<Rightarrow> (TailHandler list \<times> stdout) process" where
  "tail_run printTopic [] s = Running s"
| "tail_run printTopic ((i, m) # evs) (hs, o') =
     (case tail_HandleMessage printTopic m (hs ! i, o') of
        Running (th, o1) \<Rightarrow> tail_run printTopic evs (hs[i := th], o1)
      | Exited (th, o1) \<Rightarrow> Exited (hs[i := th], o1)
      | Spinning \<Rightarrow> Spinning)"

section \<open>The reports of nsq\_stat\<close>

lemma stat_reports_from:
  assumes "nv_isSet (sf_countNum f)" "0 \<le> i" "i \<le> nv_value (sf_countNum f) + 1"
    and "nv_value (sf_countNum f) + 1 - i \<le> int (length ws)" "\<forall>w \<in> set ws. \<forall>st. \<exists>c st1. stat_poll ci f w st = (Inr c, st1)"
  shows "\<exists>ls. statLoop ci rate f i (Some r) ws st = (ls, StatExit) \<and>
     int (length (filter (\<lambda>l. l \<noteq> StatHeader) ls)) = nv_value (sf_countNum f) + 1 - i"
  using assms(2-)
proof (induction ws arbitrary: i r st)
  case Nil
  then show ?case using assms(1) by (auto simp: statLoop.simps)
next
  case (Cons w ws)
  show ?case
  proof (cases "i \<le> nv_value (sf_countNum f)")
    case False
    then show ?thesis using Cons.prems assms(1) by (simp add: statLoop.simps)
  next
    case True
    obtain c st1 where p: "stat_poll ci f w st = (Inr c, st1)" using Cons.prems(4) by fastforce
    from Cons.IH [of "i + 1" c st1] Cons.prems True obtain ls
      where ls: "statLoop ci rate f (i + 1) (Some c) ws st1 = (ls, StatExit)"
        "int (length (filter (\<lambda>l. l \<noteq> StatHeader) ls)) = nv_value (sf_countNum f) - i" by auto
    show ?thesis using True p ls by (simp add: statLoop.simps [of ci rate f i] stat_report_def Let_def)
  qed
qed

text \<open>With \<open>--count n\<close> and polls that succeed, \<open>nsq_stat\<close> prints \<open>n\<close> reports and exits.\<close>

lemma stat_prints_count_reports:
  assumes "nv_isSet (sf_countNum f)" "1 \<le> nv_value (sf_countNum f)"
    and "nv_value (sf_countNum f) + 1 \<le> int (length ws)" "\<forall>w \<in> set ws. \<forall>st. \<exists>c st1. stat_poll ci f w st = (Inr c, st1)"
  shows "\<exists>ls. statLoop ci rate f 0 None ws st = (ls, StatExit) \<and>
     int (length (filter (\<lambda>l. l \<noteq> StatHeader) ls)) = nv_value (sf_countNum f)"
proof -
  obtain w ws1 where ws: "ws = w # ws1" using assms(2,3) by (cases ws) auto
  obtain c st1 where p: "stat_poll ci f w st = (Inr c, st1)" using assms(4) ws by fastforce
  from stat_reports_from [OF assms(1), of 1 ws1 ci rate c st1] assms ws obtain ls
    where "statLoop ci rate f 1 (Some c) ws1 st1 = (ls, StatExit)"
      "int (length (filter (\<lambda>l. l \<noteq> StatHeader) ls)) = nv_value (sf_countNum f)" by auto
  then show ?thesis using p ws assms(2) by (simp add: statLoop.simps [of ci rate f 0])
qed

section \<open>The messages nsq\_tail shows\<close>

definition tail_line :: "bool \<Rightarrow> string \<Rightarrow> nsq_Message \<Rightarrow> bytes" where
  "tail_line printTopic topic m = (if printTopic then bytes_of topic @ bytes_of '' | '' else []) @ nm_Body m @ [10]"

lemma tail_HandleMessage_shows:
  assumes "so_fails o' = []"
  shows "tail_HandleMessage printTopic m (th, o') =
     (let th1 = th\<lparr>ta_messagesShown := ta_messagesShown th + 1\<rparr>;
          o1 = o'\<lparr>so_bytes := so_bytes o' @ tail_line printTopic (ta_topicName th) m\<rparr>
      in if 0 < ta_totalMessages th \<and> ta_totalMessages th \<le> ta_messagesShown th + 1 then Exited (th1, o1) else Running (th1, o1))"
  using assms by (simp add: tail_HandleMessage_def stdout_Write_def tail_line_def Let_def)

text \<open>One topic: the first \<open>n\<close> messages are shown, and nothing after them.\<close>

lemma tail_shows_total:
  assumes "0 < n" "so_fails o' = []" "ta_totalMessages th = n" "0 \<le> ta_messagesShown th" "ta_messagesShown th < n"
    and "n - ta_messagesShown th \<le> int (length ms)"
  shows "\<exists>th1 o1. tail_run printTopic (map (Pair 0) ms) ([th], o') = Exited ([th1], o1) \<and>
     so_bytes o1 = so_bytes o' @
       concat (map (tail_line printTopic (ta_topicName th)) (take (nat (n - ta_messagesShown th)) ms))"
  using assms(2-)
proof (induction ms arbitrary: th o')
  case (Cons m ms)
  let ?th = "th\<lparr>ta_messagesShown := ta_messagesShown th + 1\<rparr>"
  let ?o = "o'\<lparr>so_bytes := so_bytes o' @ tail_line printTopic (ta_topicName th) m\<rparr>"
  show ?case
  proof (cases "ta_messagesShown th + 1 = n")
    case True
    then show ?thesis using Cons.prems assms(1) by (auto simp: tail_HandleMessage_shows Let_def)
  next
    case False
    have k: "nat (n - ta_messagesShown th) = Suc (nat (n - (ta_messagesShown th + 1)))" using Cons.prems False by simp
    from Cons.IH [of ?o ?th] Cons.prems False show ?thesis
      by (auto simp: tail_HandleMessage_shows Let_def k)
  qed
qed simp

end
