(* ===== verification/Nsq_MetaFile.thy ===== *)
theory Nsq_MetaFile
  imports Nsq_Files
begin

text \<open>
  The metadata file of \<open>nsqd\<close> (\<open>newMetadataFile\<close>, \<open>readOrEmpty\<close>, \<open>writeSyncFile\<close> and the end of \<open>PersistMetadata\<close> in
  \<open>nsqd/nsqd.go\<close>) over the file system of \<open>Nsq_Files\<close>, in which every call may fail, a write also half way. A crash between
  two calls leaves what a failure of the second one leaves, so the theorem below also says what a restart finds. That the
  directory itself is not synced is left out: the names are taken to be durable.
\<close>

section \<open>Calls\<close>

text \<open>\<open>os.OpenFile\<close> with \<open>O_WRONLY | O_CREATE | O_TRUNC\<close>.\<close>

definition os_OpenTrunc :: "string \<Rightarrow> fs \<Rightarrow> (os_err + os_file) \<times> fs" where
  "os_OpenTrunc name s =
     (case os_fault s of
        (Some _, s1) \<Rightarrow> (Inl ErrOther, s1)
      | (None, s1) \<Rightarrow>
          (case map_of (fs_names s1) name of
             Some i \<Rightarrow> (Inr \<lparr>h_Name = name, h_inode = i, h_closed = False\<rparr>, upd_inode i (\<lambda>_. \<lparr>in_data = [], in_synced = 0\<rparr>) s1)
           | None \<Rightarrow>
               let i = fs_next s1 in
               (Inr \<lparr>h_Name = name, h_inode = i, h_closed = False\<rparr>,
                (upd_inode i (\<lambda>_. \<lparr>in_data = [], in_synced = 0\<rparr>) s1)
                  \<lparr>fs_names := fs_names s1 @ [(name, i)], fs_next := Suc i\<rparr>)))"

definition os_Rename :: "string \<Rightarrow> string \<Rightarrow> fs \<Rightarrow> os_err option \<times> fs" where
  "os_Rename src dst s =
     (case os_fault s of
        (Some _, s1) \<Rightarrow> (Some ErrOther, s1)
      | (None, s1) \<Rightarrow>
          (case map_of (fs_names s1) src of
             None \<Rightarrow> (Some ErrNotExist, s1)
           | Some i \<Rightarrow> (None, s1\<lparr>fs_names := (dst, i) # amap_del dst (amap_del src (fs_names s1))\<rparr>)))"

definition os_ReadFile :: "string \<Rightarrow> fs \<Rightarrow> (os_err + bytes) \<times> fs" where
  "os_ReadFile name s =
     (case os_fault s of
        (Some _, s1) \<Rightarrow> (Inl ErrOther, s1)
      | (None, s1) \<Rightarrow>
          (case map_of (fs_names s1) name of
             None \<Rightarrow> (Inl ErrNotExist, s1)
           | Some i \<Rightarrow> (Inr (in_data (fs_inodes s1 i)), s1)))"

section \<open>The metadata file\<close>

definition newMetadataFile :: "Options \<Rightarrow> string" where
  "newMetadataFile opts = path_Join (o_DataPath opts) ''nsqd.dat''"

text \<open>\<open>Inr None\<close> is a nil slice: the file does not exist.\<close>

definition readOrEmpty :: "string \<Rightarrow> fs \<Rightarrow> (os_err + bytes option) \<times> fs" where
  "readOrEmpty fn s =
     (case os_ReadFile fn s of
        (Inl ErrNotExist, s1) \<Rightarrow> (Inr None, s1)
      | (Inl e, s1) \<Rightarrow> (Inl e, s1)
      | (Inr data, s1) \<Rightarrow> (Inr (Some data), s1))"

definition writeSyncFile :: "string \<Rightarrow> bytes \<Rightarrow> fs \<Rightarrow> os_err option \<times> fs" where
  "writeSyncFile fn data s =
     (case os_OpenTrunc fn s of
        (Inl e, s1) \<Rightarrow> (Some e, s1)
      | (Inr f, s1) \<Rightarrow>
          (case file_Write data f s1 of
             (_, werr, s2) \<Rightarrow>
               (case (if werr = None then file_Sync f s2 else (werr, s2)) of
                  (err, s3) \<Rightarrow> (case file_Close f s3 of (_, _, s4) \<Rightarrow> (err, s4)))))"

text \<open>\<open>r\<close> is \<open>rand.Int()\<close>.\<close>

definition tmpFileName :: "string \<Rightarrow> nat \<Rightarrow> string" where
  "tmpFileName fn r = fn @ ''.'' @ decimal (int r) @ ''.tmp''"

definition persist_file :: "string \<Rightarrow> nat \<Rightarrow> bytes \<Rightarrow> fs \<Rightarrow> os_err option \<times> fs" where
  "persist_file fn r data s =
     (case writeSyncFile (tmpFileName fn r) data s of
        (Some e, s1) \<Rightarrow> (Some e, s1)
      | (None, s1) \<Rightarrow> os_Rename (tmpFileName fn r) fn s1)"

section \<open>What is stored\<close>

definition stored_file :: "fs \<Rightarrow> string \<Rightarrow> (bytes \<times> bytes) option" where
  "stored_file s name = map_option (\<lambda>i. (in_data (fs_inodes s i), durable s i)) (map_of (fs_names s) name)"

text \<open>The two names stand for different files.\<close>

definition apart :: "string \<Rightarrow> string \<Rightarrow> fs \<Rightarrow> bool" where
  "apart a b s \<longleftrightarrow> a \<noteq> b \<and> (\<forall>i. map_of (fs_names s) a = Some i \<longrightarrow> map_of (fs_names s) b \<noteq> Some i) \<and>
     (\<forall>i. map_of (fs_names s) b = Some i \<longrightarrow> i < fs_next s)"

lemma os_fault_inodes [simp]:
  "os_fault s = (x, s1) \<Longrightarrow> fs_names s1 = fs_names s \<and> fs_inodes s1 = fs_inodes s \<and> fs_next s1 = fs_next s"
  by (auto simp: os_fault_def split: list.splits)

text \<open>A call on the file \<open>i\<close> that leaves the names and the other files alone.\<close>

definition only_inode :: "nat \<Rightarrow> fs \<Rightarrow> fs \<Rightarrow> bool" where
  "only_inode i s s' \<longleftrightarrow> fs_names s' = fs_names s \<and> fs_next s' = fs_next s \<and> (\<forall>j. j \<noteq> i \<longrightarrow> fs_inodes s' j = fs_inodes s j)"

lemma only_inode_trans: "only_inode i s s' \<Longrightarrow> only_inode i s' s'' \<Longrightarrow> only_inode i s s''"
  by (simp add: only_inode_def)

lemma file_Write_only: "file_Write p h s = (n, e, s') \<Longrightarrow> only_inode (h_inode h) s s'"
  by (auto simp: file_Write_def only_inode_def split: if_splits prod.splits option.splits dest: os_fault_inodes)

lemma file_Sync_only: "file_Sync h s = (e, s') \<Longrightarrow> only_inode (h_inode h) s s'"
  by (auto simp: file_Sync_def only_inode_def split: if_splits prod.splits option.splits dest: os_fault_inodes)

lemma file_Close_same: "file_Close h s = (e, h', s') \<Longrightarrow> fs_names s' = fs_names s \<and> fs_next s' = fs_next s \<and> fs_inodes s' = fs_inodes s"
  by (auto simp: file_Close_def split: if_splits prod.splits option.splits dest: os_fault_inodes)

lemma os_OpenTrunc_apart:
  assumes "os_OpenTrunc tmp s = (r, s')" "apart tmp fn s"
  shows "apart tmp fn s' \<and> stored_file s' fn = stored_file s fn \<and>
     (case r of Inl e \<Rightarrow> True
      | Inr f \<Rightarrow> map_of (fs_names s') tmp = Some (h_inode f) \<and> in_data (fs_inodes s' (h_inode f)) = [] \<and> \<not> h_closed f)"
proof -
  obtain x s1 where f: "os_fault s = (x, s1)" by (rule prod.exhaust)
  note same = os_fault_inodes [OF f]
  have a: "apart tmp fn s1" "stored_file s1 fn = stored_file s fn"
    using assms(2) same by (simp_all add: apart_def stored_file_def durable_def)
  show ?thesis
  proof (cases x)
    case (Some k)
    then show ?thesis using assms(1) f a by (auto simp: os_OpenTrunc_def)
  next
    case None
    show ?thesis
    proof (cases "map_of (fs_names s1) tmp")
      case None
      with \<open>x = None\<close> show ?thesis using assms(1) f a
        by (auto simp: os_OpenTrunc_def Let_def apart_def stored_file_def durable_def map_add_def less_Suc_eq upd_inode_def
            split: option.splits)
    next
      case (Some i)
      with \<open>x = None\<close> show ?thesis using assms(1) f a
        by (cases "map_of (fs_names s1) fn") (auto simp: os_OpenTrunc_def apart_def stored_file_def durable_def)
    qed
  qed
qed

lemma only_inode_stored:
  assumes "only_inode i s s'" "map_of (fs_names s) tmp = Some i" "apart tmp fn s"
  shows "apart tmp fn s' \<and> stored_file s' fn = stored_file s fn \<and> map_of (fs_names s') tmp = Some i"
proof (cases "map_of (fs_names s) fn")
  case None
  then show ?thesis using assms by (simp add: only_inode_def apart_def stored_file_def)
next
  case (Some j)
  then have "j \<noteq> i" using assms(2,3) by (auto simp: apart_def)
  then show ?thesis using assms Some by (simp add: only_inode_def apart_def stored_file_def durable_def)
qed

lemma writeSyncFile_stored:
  assumes w: "writeSyncFile tmp data s = (e, s')" and ap: "apart tmp fn s"
  shows "apart tmp fn s' \<and> stored_file s' fn = stored_file s fn \<and> (e = None \<longrightarrow> stored_file s' tmp = Some (data, data))"
proof -
  obtain r s1 where o: "os_OpenTrunc tmp s = (r, s1)" by (rule prod.exhaust)
  note o1 = os_OpenTrunc_apart [OF o ap]
  show ?thesis
  proof (cases r)
    case (Inl er)
    then show ?thesis using w o o1 by (auto simp: writeSyncFile_def)
  next
    case (Inr f)
    obtain n werr s2 where wr: "file_Write data f s1 = (n, werr, s2)" by (rule prod.exhaust, metis prod.exhaust)
    obtain err s3 where sy: "(if werr = None then file_Sync f s2 else (werr, s2)) = (err, s3)" by (rule prod.exhaust)
    obtain c f' s4 where cl: "file_Close f s3 = (c, f', s4)" by (rule prod.exhaust, metis prod.exhaust)
    have res: "e = err" "s' = s4" using w o Inr wr sy cl by (simp_all add: writeSyncFile_def)
    have tmp: "map_of (fs_names s1) tmp = Some (h_inode f)" "in_data (fs_inodes s1 (h_inode f)) = []" "apart tmp fn s1"
      "stored_file s1 fn = stored_file s fn" using o1 Inr by simp_all
    have "only_inode (h_inode f) s2 s3" using sy file_Sync_only [of f s2] by (auto simp: only_inode_def split: if_splits)
    then have only: "only_inode (h_inode f) s1 s3" by (rule only_inode_trans [OF file_Write_only [OF wr]])
    note st = only_inode_stored [OF only tmp(1,3)]
    have same4: "fs_names s4 = fs_names s3" "fs_inodes s4 = fs_inodes s3" "fs_next s4 = fs_next s3"
      using file_Close_same [OF cl] by auto
    have "stored_file s3 tmp = Some (data, data)" if "err = None"
    proof -
      have we: "werr = None" "file_Sync f s2 = (None, s3)" using sy \<open>err = None\<close> by (auto split: if_splits)
      then show ?thesis using file_Write_data [of data f s1 n s2] file_Sync_durable [of f s2 s3] wr tmp(2) st
        by (simp add: stored_file_def)
    qed
    moreover have "stored_file s4 x = stored_file s3 x" for x using same4 by (simp add: stored_file_def durable_def)
    ultimately show ?thesis using st same4 res tmp(4) by (simp add: apart_def)
  qed
qed

lemma os_Rename_stored:
  assumes "os_Rename tmp fn s = (e, s')" "apart tmp fn s" "stored_file s tmp = Some (data, data)"
  shows "if e = None then stored_file s' fn = Some (data, data) else stored_file s' fn = stored_file s fn"
  using assms
  by (auto simp: os_Rename_def stored_file_def durable_def split: prod.splits option.splits dest!: os_fault_inodes)

lemma tmpFileName_other: "tmpFileName fn r \<noteq> fn"
  by (simp add: tmpFileName_def)

text \<open>The two outcomes of replacing the file.\<close>

lemma persist_file_stored:
  assumes "persist_file fn r data s = (e, s')" and "fs_wf s"
    and "\<forall>i. map_of (fs_names s) (tmpFileName fn r) = Some i \<longrightarrow> map_of (fs_names s) fn \<noteq> Some i"
  shows "if e = None then stored_file s' fn = Some (data, data) else stored_file s' fn = stored_file s fn"
proof -
  have lt: "i < fs_next s" if "map_of (fs_names s) fn = Some i" for i
    using assms(2) map_of_SomeD [OF that] by (force simp: fs_wf_def named_def)
  have ap: "apart (tmpFileName fn r) fn s" using assms(3) lt tmpFileName_other by (auto simp: apart_def)
  obtain e1 s1 where w: "writeSyncFile (tmpFileName fn r) data s = (e1, s1)" by (rule prod.exhaust)
  note st = writeSyncFile_stored [OF w ap]
  show ?thesis
  proof (cases e1)
    case None
    then have "os_Rename (tmpFileName fn r) fn s1 = (e, s')" using assms(1) w by (simp add: persist_file_def)
    from os_Rename_stored [OF this] st None show ?thesis by simp
  next
    case (Some x)
    then show ?thesis using assms(1) w st by (auto simp: persist_file_def)
  qed
qed

text \<open>A restart reads what was persisted.\<close>

lemma read_after_persist:
  assumes "persist_file fn r data s = (None, s')" "fs_wf s" "fs_faults s' = []"
    "\<forall>i. map_of (fs_names s) (tmpFileName fn r) = Some i \<longrightarrow> map_of (fs_names s) fn \<noteq> Some i"
  shows "fst (readOrEmpty fn s') = Inr (Some data)"
  using persist_file_stored [OF assms(1,2,4)] assms(3)
  by (auto simp: readOrEmpty_def os_ReadFile_def os_fault_def stored_file_def)

text \<open>C17.
  The metadata file is replaced as a whole. Whichever calls fail, after \<open>PersistMetadata\<close> the file has its old contents, if an
  error is returned, or the new contents on stable storage. Of the temporary name this needs that it is not another name of the
  metadata file.\<close>

theorem metadata_file_replaced_whole:
  assumes "persist_file fn r data s = (e, s')" and "fs_wf s"
    and "\<forall>i. map_of (fs_names s) (tmpFileName fn r) = Some i \<longrightarrow> map_of (fs_names s) fn \<noteq> Some i"
  shows "if e = None then stored_file s' fn = Some (data, data) else stored_file s' fn = stored_file s fn"
  using assms by (rule persist_file_stored)

text \<open>The sync fails: the old file stays.\<close>

theorem metadata_file_replaced_whole_witness:
  "\<exists>e s'. persist_file ''d'' 7 [1, 2]
       \<lparr>fs_names = [(''d'', 0)], fs_inodes = (\<lambda>_. \<lparr>in_data = [9], in_synced = 1\<rparr>), fs_next = 1, fs_faults = [None, None, Some 0]\<rparr> =
         (Some e, s') \<and> stored_file s' ''d'' = Some ([9], [9])"
proof -
  let ?s = "\<lparr>fs_names = [(''d'', 0)], fs_inodes = (\<lambda>_. \<lparr>in_data = [9], in_synced = 1\<rparr>), fs_next = 1, fs_faults = [None, None, Some 0]\<rparr>"
  obtain e s' where p: "persist_file ''d'' 7 [1, 2] ?s = (e, s')" by (rule prod.exhaust)
  have e: "fst (persist_file ''d'' 7 [1, 2] ?s) \<noteq> None" by code_simp
  have "fs_wf ?s" by (simp add: fs_wf_def named_def)
  from metadata_file_replaced_whole [OF p this] p e show ?thesis
    by (auto simp: tmpFileName_def stored_file_def durable_def)
qed

end
