(* ===== verification/Nsq_QueueScan.thy ===== *)
theory Nsq_QueueScan
  imports Nsq_DaemonProps
begin

text \<open>
  The goroutine \<open>queueScanLoop\<close> of \<open>nsqd/nsqd.go\<close> as a whole: it selects channels at random from a list it refreshes now and then, has
  the workers of its pool scan them, and goes on without a pause while many of them were dirty. The channels are objects of a
  store, and the loop holds references, so that a channel may change between two ticks. The workers of one round scan
  different channels; their steps commute, and the model takes them in the order of the selection.
\<close>

type_synonym 'b chan_store = "ref \<Rightarrow> 'b Channel"

record queue_scan =
  qs_channels :: "ref list"
  qs_poolSize :: int

text \<open>The channels sent to the workers, and how many of them answer that they were dirty. Every worker reads the clock.\<close>

fun scan_work ::
    "'b BackendQueue \<Rightarrow> (nat \<Rightarrow> int) \<Rightarrow> nat \<Rightarrow> ref list \<Rightarrow> 'b chan_store \<Rightarrow> cstore \<Rightarrow> (nat \<times> 'b chan_store \<times> cstore) option" where
  "scan_work ops now k [] H cs = Some (0, H, cs)"
| "scan_work ops now k (r # rs) H cs = do {
     (dirty, c, cs1) <- queueScanWorker ops (now k) (H r) cs;
     (n, H1, cs2) <- scan_work ops now (Suc k) rs (H(r := c)) cs1;
     Some ((if dirty then 1 else 0) + n, H1, cs2) }"

definition scan_num :: "Options \<Rightarrow> nat \<Rightarrow> nat" where
  "scan_num opts n = (if int n < o_QueueScanSelectionCount opts then n else nat (o_QueueScanSelectionCount opts))"

text \<open>
  The rounds of one tick, from the label \<open>loop\<close> on: each has the clock of its workers and its random numbers. The first result is
  whether the tick is over; it is not when the rounds given are used up. The fraction \<open>QueueScanDirtyPercent\<close> is given by its
  numerator and denominator.
\<close>

fun scan_rounds ::
    "'b BackendQueue \<Rightarrow> Options \<Rightarrow> nat \<times> nat \<Rightarrow> ref list \<Rightarrow> ((nat \<Rightarrow> int) \<times> nat list) list \<Rightarrow> 'b chan_store \<Rightarrow> cstore \<Rightarrow>
       (bool \<times> 'b chan_store \<times> cstore) option" where
  "scan_rounds ops opts dirtyPercent channels [] H cs = Some (False, H, cs)"
| "scan_rounds ops opts dirtyPercent channels ((now, rs) # rounds) H cs = do {
     let num = scan_num opts (length channels);
     (numDirty, H1, cs1) <- scan_work ops now 0 (map ((!) channels) (UniqRands rs num (length channels))) H cs;
     if fst dirtyPercent * num < numDirty * snd dirtyPercent then scan_rounds ops opts dirtyPercent channels rounds H1 cs1
     else Some (True, H1, cs1) }"

text \<open>The start of the loop; a negative capacity of a Go channel and an interval that is not positive panic.\<close>

definition scan_resize :: "Options \<Rightarrow> ref list \<Rightarrow> int \<Rightarrow> queue_scan" where
  "scan_resize opts channels pool =
     \<lparr>qs_channels = channels, qs_poolSize = snd (resize_loop (idealPoolSize opts (int (length channels))) pool)\<rparr>"

definition queueScan_start :: "Options \<Rightarrow> int \<Rightarrow> ref list \<Rightarrow> int \<Rightarrow> queue_scan option" where
  "queueScan_start opts refreshInterval channels pool =
     (if o_QueueScanSelectionCount opts < 0 \<or> o_QueueScanInterval opts \<le> 0 \<or> refreshInterval \<le> 0 then None
      else Some (scan_resize opts channels pool))"

datatype scan_event = WorkTick "((nat \<Rightarrow> int) \<times> nat list) list" | RefreshTick "ref list" | ScanExit

datatype scan_state = ScanWaiting queue_scan | ScanBusy queue_scan | ScanClosed

fun queueScan_select ::
    "'b BackendQueue \<Rightarrow> Options \<Rightarrow> nat \<times> nat \<Rightarrow> scan_event \<Rightarrow> queue_scan \<Rightarrow> 'b chan_store \<Rightarrow> cstore \<Rightarrow>
       (scan_state \<times> 'b chan_store \<times> cstore) option" where
  "queueScan_select ops opts dirtyPercent (WorkTick rounds) s H cs =
     (if qs_channels s = [] then Some (ScanWaiting s, H, cs)
      else do {
        (over, H1, cs1) <- scan_rounds ops opts dirtyPercent (qs_channels s) rounds H cs;
        Some (if over then ScanWaiting s else ScanBusy s, H1, cs1) })"
| "queueScan_select ops opts dirtyPercent (RefreshTick channels) s H cs =
     Some (ScanWaiting (scan_resize opts channels (qs_poolSize s)), H, cs)"
| "queueScan_select ops opts dirtyPercent ScanExit s H cs = Some (ScanClosed, H, cs)"

section \<open>What a scan leaves\<close>

definition scan_pending :: "'b Channel \<Rightarrow> nat" where
  "scan_pending c = length (c_inFlightMessages c) + length (c_deferredMessages c)"

text \<open>No deadline of a message in flight and no time of a deferred message has come at the time \<open>t\<close>.\<close>

definition none_due :: "int \<Rightarrow> 'b Channel \<Rightarrow> bool" where
  "none_due t c \<longleftrightarrow>
     (\<forall>r \<in> snd ` set (c_inFlightMessages c). t < sint (m_pri (c_msgs c r))) \<and>
     (\<forall>x \<in> snd ` set (c_deferredMessages c). t < sint (it_Priority (c_items c x)))"

lemma scan_num_le: "scan_num opts n \<le> n"
  by (auto simp: scan_num_def)

lemma UniqRands_all: "set (UniqRands rs n n) = {0..<n}"
  using UniqRands_ok [of rs n n] card_subset_eq [of "{0..<n}" "set (UniqRands rs n n)"] by (simp add: distinct_card)

lemma filter_shorter: "x \<in> set xs \<Longrightarrow> \<not> P x \<Longrightarrow> length (filter P xs) < length xs"
  by (induction xs) (auto simp: less_Suc_eq_le)

context backend_fifo
begin

text \<open>One channel: nothing is lost, a dirty answer means that there is less to wait for, and what was due is queued again.\<close>

lemma queueScanWorker_ok:
  assumes "ok c"
  shows "\<exists>d c' cs'. queueScanWorker ops now c cs = Some (d, c', cs') \<and> ok c' \<and> msgs_of c' = msgs_of c \<and>
     c_exitFlag c' = c_exitFlag c \<and> scan_pending c' + (if d then 1 else 0) \<le> scan_pending c \<and>
     (\<forall>t. none_due t c \<longrightarrow> none_due t c') \<and> (\<not> c_exitFlag c \<longrightarrow> none_due (sint (UnixNano now)) c')"
proof (cases "c_exitFlag c")
  case True
  then show ?thesis using assms
    by (intro exI [of _ False]) (simp add: queueScanWorker_def processInFlightQueue_def processDeferredQueue_def Channel_Exiting_def)
next
  case False
  let ?t = "UnixNano now"
  obtain d1 c1 cs1 where l1: "inflight_loop ops ?t (Suc (length (pq_elems (c_inFlightPQ c)))) False c cs = Some (d1, c1, cs1)"
    "ok c1" "msgs_of c1 = msgs_of c" "c_inFlightMessages c1 = filter (\<lambda>(i, r). sint ?t < pri_of (c_msgs c) r) (c_inFlightMessages c)"
    "c_deferredMessages c1 = c_deferredMessages c" "same_but_index UNIV (c_msgs c) (c_msgs c1)" "c_items c1 = c_items c"
    "c_exitFlag c1 = c_exitFlag c" "d1 \<longleftrightarrow> (\<exists>r \<in> snd ` set (c_inFlightMessages c). pri_of (c_msgs c) r \<le> sint ?t)"
    using inflight_loop_ok [OF assms lessI, of ?t False cs] by blast
  obtain d2 c2 where l2: "deferred_loop ops ?t (Suc (length (dq_items (c_deferredPQ c1)))) False c1 = Some (d2, c2)"
    "ok c2" "msgs_of c2 = msgs_of c1" "c_deferredMessages c2 = filter (\<lambda>(i, x). sint ?t < prio_of (c_items c1) x) (c_deferredMessages c1)"
    "c_inFlightMessages c2 = c_inFlightMessages c1" "same_items (c_items c1) (c_items c2)" "c_msgs c2 = c_msgs c1"
    "c_exitFlag c2 = c_exitFlag c1" "d2 \<longleftrightarrow> (\<exists>x \<in> snd ` set (c_deferredMessages c1). prio_of (c_items c1) x \<le> sint ?t)"
    using deferred_loop_ok [OF l1(2) lessI, of ?t False] by blast
  have w: "queueScanWorker ops now c cs = Some (d1 \<or> d2, c2, cs1)"
    using False l1(1,8) l2(1)
    by (simp add: queueScanWorker_def processInFlightQueue_def processDeferredQueue_def Channel_Exiting_def
        del: inflight_loop.simps deferred_loop.simps)
  have pri: "m_pri (c_msgs c2 r) = m_pri (c_msgs c r)" for r using same_but_index_fields(6) [OF l1(6)] l2(7) by simp
  have prio: "it_Priority (c_items c2 x) = it_Priority (c_items c x)" for x using l2(6) l1(7) by (simp add: same_items_def)
  have "length (c_inFlightMessages c2) + (if d1 then 1 else 0) \<le> length (c_inFlightMessages c)"
    using l1(9) filter_shorter [of _ "c_inFlightMessages c" "\<lambda>(i, r). sint ?t < pri_of (c_msgs c) r"]
    by (fastforce simp: l2(5) l1(4) Suc_le_eq)
  moreover have "length (c_deferredMessages c2) + (if d2 then 1 else 0) \<le> length (c_deferredMessages c)"
    using l2(9) filter_shorter [of _ "c_deferredMessages c" "\<lambda>(i, x). sint ?t < prio_of (c_items c) x"]
    by (fastforce simp: l2(4) l1(5,7) Suc_le_eq)
  moreover have "none_due t c2" if "none_due t c" for t
    using that by (auto simp: none_due_def pri prio l2(4,5) l1(4,5))
  moreover have "none_due (sint ?t) c2"
    unfolding none_due_def pri prio by (auto simp: l2(4,5) l1(4,5,7) pri_of_def prio_of_def)
  ultimately show ?thesis using w l1(3,8) l2(2,3,8) by (auto simp: scan_pending_def)
qed

lemma scan_work_ok:
  assumes "finite R" "set rs \<subseteq> R" "\<forall>r \<in> R. ok (H r)"
  shows "\<exists>n H1 cs1. scan_work ops now k rs H cs = Some (n, H1, cs1) \<and>
     (\<forall>r \<in> R. ok (H1 r) \<and> msgs_of (H1 r) = msgs_of (H r) \<and> c_exitFlag (H1 r) = c_exitFlag (H r)) \<and>
     (\<Sum>r \<in> R. scan_pending (H1 r)) + n \<le> (\<Sum>r \<in> R. scan_pending (H r)) \<and>
     (\<forall>t. \<forall>r \<in> R. none_due t (H r) \<longrightarrow> none_due t (H1 r)) \<and>
     (\<forall>t. (\<forall>j. t \<le> sint (UnixNano (now j))) \<longrightarrow> (\<forall>r \<in> set rs. \<not> c_exitFlag (H r) \<longrightarrow> none_due t (H1 r)))"
  using assms(2,3)
proof (induction rs arbitrary: k H cs)
  case (Cons r rs)
  have r: "r \<in> R" "ok (H r)" using Cons.prems by simp_all
  from queueScanWorker_ok [OF r(2), of "now k" cs] obtain d c cs' where w:
    "queueScanWorker ops (now k) (H r) cs = Some (d, c, cs')" "ok c" "msgs_of c = msgs_of (H r)" "c_exitFlag c = c_exitFlag (H r)"
    "scan_pending c + (if d then 1 else 0) \<le> scan_pending (H r)" "\<forall>t. none_due t (H r) \<longrightarrow> none_due t c"
    "\<not> c_exitFlag (H r) \<longrightarrow> none_due (sint (UnixNano (now k))) c" by blast
  let ?H = "H(r := c)"
  have sub: "set rs \<subseteq> R" and oks: "\<forall>x \<in> R. ok (?H x)" using Cons.prems w(2) by simp_all
  obtain n H1 cs1 where ih: "scan_work ops now (Suc k) rs ?H cs' = Some (n, H1, cs1)"
    "\<forall>x \<in> R. ok (H1 x) \<and> msgs_of (H1 x) = msgs_of (?H x) \<and> c_exitFlag (H1 x) = c_exitFlag (?H x)"
    "(\<Sum>x \<in> R. scan_pending (H1 x)) + n \<le> (\<Sum>x \<in> R. scan_pending (?H x))"
    "\<forall>t. \<forall>x \<in> R. none_due t (?H x) \<longrightarrow> none_due t (H1 x)"
    "\<forall>t. (\<forall>j. t \<le> sint (UnixNano (now j))) \<longrightarrow> (\<forall>x \<in> set rs. \<not> c_exitFlag (?H x) \<longrightarrow> none_due t (H1 x))"
    using Cons.IH [OF sub oks, of "Suc k" cs'] by blast
  have sum: "(\<Sum>x \<in> R. scan_pending (?H x)) + (if d then 1 else 0) \<le> (\<Sum>x \<in> R. scan_pending (H x))"
  proof -
    have "(\<Sum>x \<in> R - {r}. scan_pending (?H x)) = (\<Sum>x \<in> R - {r}. scan_pending (H x))" by (rule sum.cong) simp_all
    then have "(\<Sum>x \<in> R. scan_pending (?H x)) = scan_pending c + (\<Sum>x \<in> R - {r}. scan_pending (H x))"
      unfolding sum.remove [OF assms(1) r(1)] by simp
    then show ?thesis using w(5) unfolding sum.remove [OF assms(1) r(1), of "\<lambda>x. scan_pending (H x)"] by simp
  qed
  have later: "none_due t (H1 r)" if "\<forall>j. t \<le> sint (UnixNano (now j))" "\<not> c_exitFlag (H r)" for t
  proof -
    have "none_due t c" using w(7) that by (auto simp: none_due_def intro: le_less_trans)
    then show ?thesis using ih(4) r(1) by simp
  qed
  have "scan_work ops now k (r # rs) H cs = Some ((if d then 1 else 0) + n, H1, cs1)" using w(1) ih(1) by simp
  moreover have "\<forall>x \<in> R. ok (H1 x) \<and> msgs_of (H1 x) = msgs_of (H x) \<and> c_exitFlag (H1 x) = c_exitFlag (H x)"
    using ih(2) w(3,4) by auto
  moreover have "\<forall>t. \<forall>x \<in> R. none_due t (H x) \<longrightarrow> none_due t (H1 x)" using ih(4) w(6) by (metis fun_upd_apply)
  moreover have "\<forall>t. (\<forall>j. t \<le> sint (UnixNano (now j))) \<longrightarrow> (\<forall>x \<in> set (r # rs). \<not> c_exitFlag (H x) \<longrightarrow> none_due t (H1 x))"
    using ih(5) later w(4) by (metis fun_upd_apply set_ConsD)
  ultimately show ?case using ih(3) sum by (intro exI conjI) (assumption | linarith)+
qed simp

lemma scan_rounds_ok:
  assumes "\<forall>r \<in> set channels. ok (H r) \<and> \<not> c_exitFlag (H r)" "(\<Sum>r \<in> set channels. scan_pending (H r)) < length rounds"
    and "\<forall>(now, rs) \<in> set rounds. \<forall>k. t \<le> sint (UnixNano (now k))"
  shows "\<exists>H1 cs1. scan_rounds ops opts dirtyPercent channels rounds H cs = Some (True, H1, cs1) \<and>
     (\<forall>r \<in> set channels. msgs_of (H1 r) = msgs_of (H r)) \<and>
     (int (length channels) \<le> o_QueueScanSelectionCount opts \<or> (\<forall>r \<in> set channels. none_due t (H r)) \<longrightarrow>
        (\<forall>r \<in> set channels. none_due t (H1 r)))"
  using assms
proof (induction rounds arbitrary: H cs)
  case (Cons round rounds)
  obtain now rs where rd: "round = (now, rs)" by fastforce
  define num where "num = scan_num opts (length channels)"
  define sel where "sel = UniqRands rs num (length channels)"
  have sub: "set (map ((!) channels) sel) \<subseteq> set channels"
    using UniqRands_ok [of rs num "length channels"] by (auto simp: sel_def)
  have oks: "\<forall>r \<in> set channels. ok (H r)" using Cons.prems(1) by blast
  obtain n H1 cs1 where w: "scan_work ops now 0 (map ((!) channels) sel) H cs = Some (n, H1, cs1)"
    "\<forall>r \<in> set channels. ok (H1 r) \<and> msgs_of (H1 r) = msgs_of (H r) \<and> c_exitFlag (H1 r) = c_exitFlag (H r)"
    "(\<Sum>r \<in> set channels. scan_pending (H1 r)) + n \<le> (\<Sum>r \<in> set channels. scan_pending (H r))"
    "\<forall>t. \<forall>r \<in> set channels. none_due t (H r) \<longrightarrow> none_due t (H1 r)"
    "\<forall>t. (\<forall>j. t \<le> sint (UnixNano (now j))) \<longrightarrow>
       (\<forall>r \<in> set (map ((!) channels) sel). \<not> c_exitFlag (H r) \<longrightarrow> none_due t (H1 r))"
    using scan_work_ok [OF finite_set sub oks] by blast
  have all: "set (map ((!) channels) sel) = set channels" if "int (length channels) \<le> o_QueueScanSelectionCount opts"
  proof -
    have "num = length channels" using that by (auto simp: num_def scan_num_def)
    then have "set (map ((!) channels) sel) = (!) channels ` {0..<length channels}" by (simp add: sel_def UniqRands_all)
    also have "\<dots> = set channels" by (metis list.set_map map_nth set_upt)
    finally show ?thesis .
  qed
  have due: "\<forall>r \<in> set channels. none_due t (H1 r)"
    if "int (length channels) \<le> o_QueueScanSelectionCount opts \<or> (\<forall>r \<in> set channels. none_due t (H r))"
    using that
  proof
    assume "int (length channels) \<le> o_QueueScanSelectionCount opts"
    moreover have "\<forall>j. t \<le> sint (UnixNano (now j))" using Cons.prems(3) rd by simp
    ultimately show ?thesis using w(5) all Cons.prems(1) by metis
  qed (use w(4) in blast)
  show ?case
  proof (cases "fst dirtyPercent * num < n * snd dirtyPercent")
    case True
    then have "0 < n" by (cases n) auto
    then have "(\<Sum>r \<in> set channels. scan_pending (H1 r)) < length rounds" using w(3) Cons.prems(2) by simp
    then obtain H2 cs2 where ih: "scan_rounds ops opts dirtyPercent channels rounds H1 cs1 = Some (True, H2, cs2)"
      "\<forall>r \<in> set channels. msgs_of (H2 r) = msgs_of (H1 r)"
      "(\<forall>r \<in> set channels. none_due t (H1 r)) \<longrightarrow> (\<forall>r \<in> set channels. none_due t (H2 r))"
      using Cons.IH [of H1 cs1] Cons.prems(1,3) w(2) by auto
    moreover have "scan_rounds ops opts dirtyPercent channels (round # rounds) H cs = Some (True, H2, cs2)"
      using w(1) True ih(1) by (simp add: rd num_def sel_def Let_def)
    ultimately show ?thesis using w(2) due by auto
  next
    case False
    then have "scan_rounds ops opts dirtyPercent channels (round # rounds) H cs = Some (True, H1, cs1)"
      using w(1) by (simp add: rd num_def sel_def Let_def)
    then show ?thesis using w(2) due by auto
  qed
qed simp

end



end
