(* ===== verification/Nsq_Servers.thy ===== *)
theory Nsq_Servers
  imports Nsq_FileLogger Nsq_Admin Nsq_Stats
begin

text \<open>
  What the daemons share around their protocols: the accept loop (\<open>internal/protocol/tcp_server.go\<close>), the HTTP server
  (\<open>internal/http_api/http_server.go\<close>) and its compression (\<open>compress.go\<close>), the lock of the data directory
  (\<open>internal/dirlock\<close>), log lines (\<open>internal/lg\<close>), the first bytes of a connection (\<open>nsqd/tcp.go\<close>), and how
  \<open>nsqd\<close>, \<open>nsqlookupd\<close> and \<open>nsqadmin\<close> are made, run and stopped. The calls of the operating system and of
  \<open>crypto/tls\<close> are given by their results.
\<close>

section \<open>Logging\<close>

definition Logf :: "int \<Rightarrow> int \<Rightarrow> string \<Rightarrow> string option" where
  "Logf cfgLevel msgLevel line = (if msgLevel < cfgLevel then None else Some (LogLevel_String msgLevel @ '': '' @ line))"

definition LogLevel_Set :: "string \<Rightarrow> int \<Rightarrow> go_error option \<times> int" where
  "LogLevel_Set s l = (case ParseLogLevel s of Inl e \<Rightarrow> (Some e, l) | Inr lvl \<Rightarrow> (None, lvl))"

section \<open>The accept loop\<close>

text \<open>An error of \<open>Accept\<close> is its text and whether it is a temporary error of the network.\<close>

type_synonym 'c accept = "(string \<times> bool) + 'c"

definition closed_text :: string where
  "closed_text = ''use of closed network connection''"

text \<open>The connections handed to the handler, and the result: \<open>None\<close> while the loop runs.\<close>

fun TCPServer :: "'c accept list \<Rightarrow> 'c list \<times> go_error option option" where
  "TCPServer [] = ([], None)"
| "TCPServer (Inr conn # as) = (case TCPServer as of (cs, r) \<Rightarrow> (conn # cs, r))"
| "TCPServer (Inl (err, temporary) # as) =
     (if temporary then TCPServer as
      else if \<not> Contains err closed_text then ([], Some (Some (''listener.Accept() error - '' @ err)))
      else ([], Some None))"

definition http_Serve :: "go_error option \<Rightarrow> go_error option" where
  "http_Serve err =
     (case err of
        None \<Rightarrow> None
      | Some e \<Rightarrow> if \<not> Contains e closed_text then Some (''http.Serve() error - '' @ e) else None)"

text \<open>A loop that ends returns no error exactly if its listener was closed, and every connection accepted before is handled.\<close>

lemma TCPServer_result:
  "\<exists>k. fst (TCPServer as) = List.map_filter (\<lambda>a. case a of Inl _ \<Rightarrow> None | Inr c \<Rightarrow> Some c) (take k as) \<and>
     (case snd (TCPServer as) of
        None \<Rightarrow> k = length as
      | Some r \<Rightarrow> \<exists>err. k < length as \<and> as ! k = Inl (err, False) \<and> (r = None \<longleftrightarrow> Contains err closed_text))"
proof (induction as rule: TCPServer.induct)
  case 1
  show ?case by (simp add: map_filter_def)
next
  case (2 conn as)
  then obtain k where k: "fst (TCPServer as) = List.map_filter (\<lambda>a. case a of Inl _ \<Rightarrow> None | Inr c \<Rightarrow> Some c) (take k as)"
    "case snd (TCPServer as) of None \<Rightarrow> k = length as
      | Some r \<Rightarrow> \<exists>err. k < length as \<and> as ! k = Inl (err, False) \<and> (r = None \<longleftrightarrow> Contains err closed_text)" by blast
  then show ?case
    by (intro exI [of _ "Suc k"]) (auto simp: map_filter_def split: prod.splits option.splits)
next
  case (3 err temporary as)
  show ?case
  proof (cases temporary)
    case True
    with 3 obtain k where k: "fst (TCPServer as) = List.map_filter (\<lambda>a. case a of Inl _ \<Rightarrow> None | Inr c \<Rightarrow> Some c) (take k as)"
      "case snd (TCPServer as) of None \<Rightarrow> k = length as
        | Some r \<Rightarrow> \<exists>err. k < length as \<and> as ! k = Inl (err, False) \<and> (r = None \<longleftrightarrow> Contains err closed_text)" by blast
    with True show ?thesis
      by (intro exI [of _ "Suc k"]) (auto simp: map_filter_def split: option.splits)
  next
    case False
    then show ?thesis by (intro exI [of _ 0]) (auto simp: map_filter_def)
  qed
qed

section \<open>Compression\<close>

datatype encoding = Gzip | Deflate

fun choose_encoding :: "string list \<Rightarrow> encoding option" where
  "choose_encoding [] = None"
| "choose_encoding (coding # codings) =
     (let e = text_of (TrimSpace (bytes_of coding)) in
      if e = ''gzip'' then Some Gzip else if e = ''deflate'' then Some Deflate else choose_encoding codings)"

text \<open>A response while it is written: its headers (a key may occur twice) and the bytes of the body so far.\<close>

record response =
  rs_Header :: "(string \<times> string) list"
  rs_Body :: bytes
  rs_encoding :: "encoding option"

definition hdr_Get :: "string \<Rightarrow> (string \<times> string) list \<Rightarrow> string" where
  "hdr_Get k h = (case map_of h k of None \<Rightarrow> [] | Some v \<Rightarrow> v)"

definition CompressHandler :: "string \<Rightarrow> response \<Rightarrow> response" where
  "CompressHandler acceptEncoding w =
     (case choose_encoding (strings_Split (CHR '','') acceptEncoding) of
        None \<Rightarrow> w
      | Some coding \<Rightarrow>
          w\<lparr>rs_Header := amap_put ''Content-Encoding'' (case coding of Gzip \<Rightarrow> ''gzip'' | Deflate \<Rightarrow> ''deflate'') (rs_Header w) @
                          [(''Vary'', ''Accept-Encoding'')],
            rs_encoding := Some coding\<rparr>)"

definition compress_WriteHeader :: "response \<Rightarrow> response" where
  "compress_WriteHeader w =
     (if rs_encoding w = None then w else w\<lparr>rs_Header := amap_del ''Content-Length'' (rs_Header w)\<rparr>)"

text \<open>\<open>detect\<close> is \<open>http.DetectContentType\<close>. The body collects what the compressor is given.\<close>

definition compress_Write :: "(bytes \<Rightarrow> string) \<Rightarrow> bytes \<Rightarrow> response \<Rightarrow> response" where
  "compress_Write detect b w =
     (if rs_encoding w = None then w\<lparr>rs_Body := rs_Body w @ b\<rparr>
      else let h = (if hdr_Get ''Content-Type'' (rs_Header w) = [] then amap_put ''Content-Type'' (detect b) (rs_Header w)
                    else rs_Header w)
           in w\<lparr>rs_Header := amap_del ''Content-Length'' h, rs_Body := rs_Body w @ b\<rparr>)"

section \<open>The lock of the data directory\<close>

text \<open>\<open>locks\<close> are the directories on which some process holds an exclusive lock.\<close>

record DirLock =
  dl_dir :: string
  dl_open :: bool

definition dirlock_New :: "string \<Rightarrow> DirLock" where
  "dirlock_New dir = \<lparr>dl_dir = dir, dl_open = False\<rparr>"

definition dirlock_Lock :: "go_error option \<Rightarrow> DirLock \<Rightarrow> string list \<Rightarrow> go_error option \<times> DirLock \<times> string list" where
  "dirlock_Lock open_err l locks =
     (case open_err of
        Some e \<Rightarrow> (Some e, l, locks)
      | None \<Rightarrow>
          let l1 = l\<lparr>dl_open := True\<rparr> in
          if dl_dir l \<in> set locks then (Some (''cannot flock directory '' @ dl_dir l), l1, locks)
          else (None, l1, dl_dir l # locks))"

definition dirlock_Unlock :: "DirLock \<Rightarrow> string list \<Rightarrow> DirLock \<times> string list" where
  "dirlock_Unlock l locks = (l\<lparr>dl_open := False\<rparr>, remove1 (dl_dir l) locks)"

text \<open>Two locks on one directory are never held together.\<close>

lemma dirlock_exclusive:
  assumes "dirlock_Lock e1 l1 locks = (None, l1', locks1)" "dl_dir l2 = dl_dir l1"
  shows "fst (dirlock_Lock e2 l2 locks1) \<noteq> None"
  using assms by (auto simp: dirlock_Lock_def Let_def split: option.splits if_splits)

lemma dirlock_distinct:
  "distinct locks \<Longrightarrow> dirlock_Lock e l locks = (r, l', locks') \<Longrightarrow> distinct locks'"
  by (auto simp: dirlock_Lock_def Let_def split: option.splits if_splits)

lemma dirlock_relock:
  assumes "distinct locks" "dirlock_Lock None l1 locks = (None, l1', locks1)" "dl_dir l2 = dl_dir l1"
  shows "fst (dirlock_Lock None l2 (snd (dirlock_Unlock l1' locks1))) = None"
  using assms by (auto simp: dirlock_Lock_def dirlock_Unlock_def Let_def split: if_splits)

section \<open>The first bytes of a connection to nsqd\<close>

text \<open>\<open>HandleIgnored\<close>: the magic could not be read; the connection is left open. \<open>HandleRefused\<close>: it is another one, which is
  answered and the connection closed. \<open>HandleV2\<close>: the loop of the protocol runs on the rest of the input.\<close>

datatype tcp_handling = HandleIgnored | HandleRefused writer | HandleV2 bytes

definition tcp_Handle :: "bytes \<Rightarrow> writer \<Rightarrow> tcp_handling" where
  "tcp_Handle input conn =
     (if length input < 4 then HandleIgnored
      else if text_of (take 4 input) = ''  V2'' then HandleV2 (drop 4 input)
      else HandleRefused (snd (snd (SendFramedResponse conn frameTypeError (bytes_of ''E_BAD_PROTOCOL'')))))"

definition tcp_serve ::
    "(nat \<Rightarrow> 'b pctx) \<Rightarrow> nat \<Rightarrow> int \<Rightarrow> go_error + string \<Rightarrow> bytes \<Rightarrow> writer \<Rightarrow> 'b proto \<Rightarrow> 'b proto option" where
  "tcp_serve xs fuel now ip input conn s =
     (case tcp_Handle input conn of
        HandleV2 rest \<Rightarrow> map_option snd (IOLoop xs fuel now ip rest s)
      | _ \<Rightarrow> Some s)"

section \<open>Main\<close>

text \<open>The servers of a daemon in the order in which they end: the first end is the result of \<open>Main\<close>, \<open>once\<close> drops the others.\<close>

fun daemon_Main :: "go_error option list \<Rightarrow> go_error option option" where
  "daemon_Main [] = None"
| "daemon_Main (e # es) = Some e"

definition nsqd_servers :: "bool \<Rightarrow> string \<Rightarrow> string list" where
  "nsqd_servers tlsConfig httpsAddress = [''TCP'', ''HTTP''] @ (if tlsConfig \<and> httpsAddress \<noteq> [] then [''HTTPS''] else [])"

definition nsqd_loops :: "string \<Rightarrow> string list" where
  "nsqd_loops statsdAddress =
     [''queueScanLoop'', ''lookupLoop''] @ (if statsdAddress \<noteq> [] then [''statsdLoop''] else [])"

text \<open>The listeners of \<open>New\<close>: \<open>listen\<close> gives the error of \<open>net.Listen\<close> for an address.\<close>

definition nsqd_listen :: "(string \<Rightarrow> go_error option) \<Rightarrow> string \<Rightarrow> string \<Rightarrow> bool \<Rightarrow> string \<Rightarrow> go_error + string list" where
  "nsqd_listen listen tcpAddress httpAddress tlsConfig httpsAddress =
     (case listen tcpAddress of
        Some e \<Rightarrow> Inl (''listen ('' @ tcpAddress @ '') failed - '' @ e)
      | None \<Rightarrow>
          (case listen httpAddress of
             Some e \<Rightarrow> Inl (''listen ('' @ httpAddress @ '') failed - '' @ e)
           | None \<Rightarrow>
               if tlsConfig \<and> httpsAddress \<noteq> []
               then (case listen httpsAddress of
                       Some e \<Rightarrow> Inl (''listen ('' @ httpsAddress @ '') failed - '' @ e)
                     | None \<Rightarrow> Inr [tcpAddress, httpAddress, httpsAddress])
               else Inr [tcpAddress, httpAddress]))"

section \<open>TLS\<close>

datatype client_auth = NoClientCert | RequireAnyClientCert | RequireAndVerifyClientCert

record tls_config =
  tc_ClientAuth :: client_auth
  tc_MinVersion :: u16
  tc_MaxVersion :: u16
  tc_ClientCAs :: bool

record tls_options =
  to_TLSCert :: string
  to_TLSKey :: string
  to_TLSClientAuthPolicy :: string
  to_TLSRootCAFile :: string
  to_TLSMinVersion :: u16

text \<open>\<open>keypair\<close> is the error of \<open>tls.LoadX509KeyPair\<close>, \<open>ca\<close> the result of reading the file of the authority: an error, or
  whether its certificates could be appended. Another policy than the two documented ones asks for no certificate.\<close>

definition buildTLSConfig :: "go_error option \<Rightarrow> go_error + bool \<Rightarrow> tls_options \<Rightarrow> go_error + tls_config option" where
  "buildTLSConfig keypair ca opts =
     (if to_TLSCert opts = [] \<and> to_TLSKey opts = [] then Inr None
      else case keypair of
        Some e \<Rightarrow> Inl e
      | None \<Rightarrow>
          let policy = (if to_TLSClientAuthPolicy opts = ''require'' then RequireAnyClientCert
                        else if to_TLSClientAuthPolicy opts = ''require-verify'' then RequireAndVerifyClientCert
                        else NoClientCert);
              cfg = \<lparr>tc_ClientAuth = policy, tc_MinVersion = to_TLSMinVersion opts, tc_MaxVersion = 0x0303, tc_ClientCAs = False\<rparr>
          in if to_TLSRootCAFile opts = [] then Inr (Some cfg)
             else (case ca of
                     Inl e \<Rightarrow> Inl e
                   | Inr False \<Rightarrow> Inl ''failed to append certificate to pool''
                   | Inr True \<Rightarrow> Inr (Some (cfg\<lparr>tc_ClientCAs := True\<rparr>))))"

lemma buildTLSConfig_verifies:
  assumes "buildTLSConfig keypair ca opts = Inr (Some cfg)"
  shows "tc_ClientAuth cfg = RequireAndVerifyClientCert \<longleftrightarrow> to_TLSClientAuthPolicy opts = ''require-verify''"
  using assms by (auto simp: buildTLSConfig_def Let_def split: if_splits option.splits sum.splits bool.splits)

section \<open>nsqlookupd\<close>

record NSQLookupd =
  nl_tcpListener :: "string option"
  nl_httpListener :: "string option"
  nl_DB :: RegistrationDB

text \<open>The second error names the TCP address too.\<close>

definition lookupd_New :: "(string \<Rightarrow> go_error option) \<Rightarrow> string \<Rightarrow> string \<Rightarrow> RegistrationDB \<Rightarrow> go_error + NSQLookupd" where
  "lookupd_New listen tcpAddress httpAddress db =
     (case listen tcpAddress of
        Some e \<Rightarrow> Inl (''listen ('' @ tcpAddress @ '') failed - '' @ e)
      | None \<Rightarrow>
          (case listen httpAddress of
             Some e \<Rightarrow> Inl (''listen ('' @ tcpAddress @ '') failed - '' @ e)
           | None \<Rightarrow> Inr \<lparr>nl_tcpListener = Some tcpAddress, nl_httpListener = Some httpAddress, nl_DB = db\<rparr>))"

definition lookupd_Exit :: "NSQLookupd \<Rightarrow> NSQLookupd" where
  "lookupd_Exit l = l\<lparr>nl_tcpListener := None, nl_httpListener := None\<rparr>"

text \<open>\<open>Main\<close> of \<open>nsqlookupd\<close>: the two servers, either of which may end first; \<open>ended\<close> is the end of the HTTP server, if it has ended.\<close>

definition lookupd_Main :: "bool \<Rightarrow> 'c accept list \<Rightarrow> go_error option option \<Rightarrow> go_error option option" where
  "lookupd_Main tcpFirst accepts ended =
     (let t = (case snd (TCPServer accepts) of None \<Rightarrow> [] | Some r \<Rightarrow> [r]);
          h = (case ended of None \<Rightarrow> [] | Some e \<Rightarrow> [http_Serve e])
      in daemon_Main (if tcpFirst then t @ h else h @ t))"

text \<open>It ends exactly if one of them does, and after \<open>Exit\<close>, which closes both listeners, without an error.\<close>

lemma lookupd_Main_ends: "lookupd_Main tcpFirst accepts ended = None \<longleftrightarrow> snd (TCPServer accepts) = None \<and> ended = None"
  by (auto simp: lookupd_Main_def Let_def split: option.splits)

lemma lookupd_Main_closed:
  assumes "snd (TCPServer accepts) = Some None" "Contains e closed_text"
  shows "lookupd_Main tcpFirst accepts (Some (Some e)) = Some None"
  using assms by (simp add: lookupd_Main_def http_Serve_def)

section \<open>nsqadmin\<close>

text \<open>\<open>path_Clean\<close> is \<open>path.Clean\<close>.\<close>

definition normalizeBasePath :: "string \<Rightarrow> string" where
  "normalizeBasePath p =
     (if length p = 0 then ''/''
      else path_Clean (if hd p \<noteq> CHR ''/'' then CHR ''/'' # p else p))"

record admin_env =
  ae_keypair :: "go_error option"
  ae_readCA :: "go_error + bool"
  ae_resolve :: "string \<Rightarrow> go_error option"
  ae_parseURL :: "string \<Rightarrow> go_error option"
  ae_parseCIDR :: "string \<Rightarrow> go_error option"
  ae_listen :: "string \<Rightarrow> go_error option"

definition admin_tls :: "admin_env \<Rightarrow> AdminOptions \<Rightarrow> go_error option" where
  "admin_tls v opts =
     (if ao_HTTPClientTLSCert opts \<noteq> [] \<and> ao_HTTPClientTLSKey opts \<noteq> [] \<and> ae_keypair v \<noteq> None
      then Some ''failed to LoadX509KeyPair''
      else if ao_HTTPClientTLSRootCAFile opts \<noteq> [] then
        (case ae_readCA v of
           Inl e \<Rightarrow> Some ''failed to read TLS root CA file''
         | Inr False \<Rightarrow> Some ''failed to AppendCertsFromPEM''
         | Inr True \<Rightarrow> None)
      else None)"

definition admin_resolve :: "admin_env \<Rightarrow> AdminOptions \<Rightarrow> go_error option" where
  "admin_resolve v opts =
     (if list_ex (\<lambda>a. ae_resolve v a \<noteq> None) (ao_NSQLookupdHTTPAddresses opts) then Some ''failed to resolve --lookupd-http-address''
      else if list_ex (\<lambda>a. ae_resolve v a \<noteq> None) (ao_NSQDHTTPAddresses opts) then Some ''failed to resolve --nsqd-http-address''
      else if ao_ProxyGraphite opts \<and> ae_parseURL v (ao_GraphiteURL opts) \<noteq> None then Some ''failed to parse --graphite-url''
      else if ao_AllowConfigFromCIDR opts \<noteq> [] \<and> ae_parseCIDR v (ao_AllowConfigFromCIDR opts) \<noteq> None
      then Some ''failed to parse --allow-config-from-cidr''
      else None)"

definition admin_New :: "admin_env \<Rightarrow> 'w \<Rightarrow> stats_store \<Rightarrow> AdminOptions \<Rightarrow> go_error + 'w NSQAdmin" where
  "admin_New v w st opts =
     (case admin_check_options opts of
        Some e \<Rightarrow> Inl e
      | None \<Rightarrow>
          (case admin_tls v opts of
             Some e \<Rightarrow> Inl e
           | None \<Rightarrow>
               (case admin_resolve v opts of
                  Some e \<Rightarrow> Inl e
                | None \<Rightarrow>
                    let opts1 = opts\<lparr>ao_BasePath := normalizeBasePath (ao_BasePath opts)\<rparr> in
                    (case ae_listen v (ao_HTTPAddress opts1) of
                       Some e \<Rightarrow> Inl (''listen ('' @ ao_HTTPAddress opts1 @ '') failed - '' @ e)
                     | None \<Rightarrow> Inr \<lparr>ad_opts = opts1, ad_notifications = [], ad_cluster = w, ad_store = st\<rparr>))))"

definition admin_Main :: "go_error option option \<Rightarrow> go_error option option" where
  "admin_Main ended = daemon_Main (case ended of None \<Rightarrow> [] | Some e \<Rightarrow> [http_Serve e])"

text \<open>\<open>Exit\<close> closes the listener and the channel of the notifications, which ends \<open>handleAdminActions\<close>; a second close of a channel
  panics.\<close>

record 'w admin_process =
  ap_admin :: "'w NSQAdmin"
  ap_listening :: bool
  ap_notifying :: bool

definition admin_Exit :: "'w admin_process \<Rightarrow> 'w admin_process option" where
  "admin_Exit p = (if \<not> ap_notifying p then None else Some (p\<lparr>ap_listening := False, ap_notifying := False\<rparr>))"

text \<open>A base path starts with a slash.\<close>

lemma path_Clean_rooted: "hd p = CHR ''/'' \<Longrightarrow> p \<noteq> [] \<Longrightarrow> hd (path_Clean p) = CHR ''/'' \<and> path_Clean p \<noteq> []"
  by (auto simp: path_Clean_def Let_def)

lemma normalizeBasePath_rooted: "hd (normalizeBasePath p) = CHR ''/'' \<and> normalizeBasePath p \<noteq> []"
  using path_Clean_rooted [of p] path_Clean_rooted [of "CHR ''/'' # p"] by (auto simp: normalizeBasePath_def)

end
