(* ===== verification/Nsq_Startup.thy ===== *)
theory Nsq_Startup
  imports Nsq_Servers Nsq_NsqdStats
begin

text \<open>
  How the programs start (\<open>apps/nsqd\<close>, \<open>apps/nsqlookupd\<close>, \<open>apps/nsqadmin\<close>, and the flags of \<open>apps/nsq_to_file\<close>): the flags they
  declare, the types of the two TLS options, the checks of a configuration file, and the steps of \<open>Start\<close> and \<open>Stop\<close>. The
  parsing of flags and of TOML, \<open>options.Resolve\<close> and the service framework are third-party or standard library code, given by
  their results.
\<close>

section \<open>Flags\<close>

datatype flag_kind = FlagBool | FlagString | FlagInt | FlagInt64 | FlagDuration | FlagVar

type_synonym flag_set = "(string \<times> flag_kind) list"

definition nsqdFlagSet :: flag_set where
  "nsqdFlagSet =
     [(''version'', FlagBool), (''config'', FlagString), (''log-level'', FlagVar), (''log-prefix'', FlagString),
      (''verbose'', FlagBool), (''node-id'', FlagInt64), (''worker-id'', FlagBool), (''https-address'', FlagString),
      (''http-address'', FlagString), (''tcp-address'', FlagString), (''auth-http-address'', FlagVar),
      (''broadcast-address'', FlagString), (''lookupd-tcp-address'', FlagVar),
      (''http-client-connect-timeout'', FlagDuration), (''http-client-request-timeout'', FlagDuration),
      (''data-path'', FlagString), (''mem-queue-size'', FlagInt64), (''max-bytes-per-file'', FlagInt64),
      (''sync-every'', FlagInt64), (''sync-timeout'', FlagDuration), (''msg-timeout'', FlagDuration),
      (''max-msg-timeout'', FlagDuration), (''max-msg-size'', FlagInt64), (''max-req-timeout'', FlagDuration),
      (''max-body-size'', FlagInt64), (''max-heartbeat-interval'', FlagDuration), (''max-rdy-count'', FlagInt64),
      (''max-output-buffer-size'', FlagInt64), (''max-output-buffer-timeout'', FlagDuration),
      (''min-output-buffer-timeout'', FlagDuration), (''output-buffer-timeout'', FlagDuration),
      (''max-channel-consumers'', FlagInt), (''statsd-address'', FlagString), (''statsd-interval'', FlagDuration),
      (''statsd-mem-stats'', FlagBool), (''statsd-prefix'', FlagString), (''statsd-udp-packet-size'', FlagInt),
      (''e2e-processing-latency-percentile'', FlagVar), (''e2e-processing-latency-window-time'', FlagDuration),
      (''tls-cert'', FlagString), (''tls-key'', FlagString), (''tls-client-auth-policy'', FlagString),
      (''tls-root-ca-file'', FlagString), (''tls-required'', FlagVar), (''tls-min-version'', FlagVar),
      (''deflate'', FlagBool), (''max-deflate-level'', FlagInt), (''snappy'', FlagBool)]"

definition nsqlookupdFlagSet :: flag_set where
  "nsqlookupdFlagSet =
     [(''config'', FlagString), (''version'', FlagBool), (''log-level'', FlagVar), (''log-prefix'', FlagString),
      (''verbose'', FlagBool), (''tcp-address'', FlagString), (''http-address'', FlagString),
      (''broadcast-address'', FlagString), (''inactive-producer-timeout'', FlagDuration),
      (''tombstone-lifetime'', FlagDuration)]"

definition nsqadminFlagSet :: flag_set where
  "nsqadminFlagSet =
     [(''config'', FlagString), (''version'', FlagBool), (''log-level'', FlagVar), (''log-prefix'', FlagString),
      (''verbose'', FlagBool), (''http-address'', FlagString), (''base-path'', FlagString),
      (''graphite-url'', FlagString), (''proxy-graphite'', FlagBool), (''statsd-counter-format'', FlagString),
      (''statsd-gauge-format'', FlagString), (''statsd-prefix'', FlagString), (''statsd-interval'', FlagDuration),
      (''notification-http-endpoint'', FlagString), (''http-client-connect-timeout'', FlagDuration),
      (''http-client-request-timeout'', FlagDuration), (''http-client-tls-insecure-skip-verify'', FlagBool),
      (''http-client-tls-root-ca-file'', FlagString), (''http-client-tls-cert'', FlagString),
      (''http-client-tls-key'', FlagString), (''allow-config-from-cidr'', FlagString),
      (''acl-http-header'', FlagString), (''lookupd-http-address'', FlagVar), (''nsqd-http-address'', FlagVar),
      (''admin-user'', FlagVar)]"

definition nsq_to_file_flagSet :: flag_set where
  "nsq_to_file_flagSet =
     [(''version'', FlagBool), (''log-level'', FlagString), (''log-prefix'', FlagString), (''channel'', FlagString),
      (''max-in-flight'', FlagInt), (''output-dir'', FlagString), (''work-dir'', FlagString),
      (''datetime-format'', FlagString), (''filename-format'', FlagString), (''host-identifier'', FlagString),
      (''gzip-level'', FlagInt), (''gzip'', FlagBool), (''skip-empty-files'', FlagBool),
      (''topic-refresh'', FlagDuration), (''topic-pattern'', FlagString), (''rotate-size'', FlagInt64),
      (''rotate-interval'', FlagDuration), (''sync-interval'', FlagDuration),
      (''http-client-connect-timeout'', FlagDuration), (''http-client-request-timeout'', FlagDuration),
      (''nsqd-tcp-address'', FlagVar), (''lookupd-http-address'', FlagVar), (''topic'', FlagVar),
      (''consumer-opt'', FlagVar)]"

text \<open>The flags that the fields of the options name in their tags (\<open>nsqd_option_fields\<close> has those of \<open>nsqd\<close>).\<close>

definition lookupd_option_flags :: "string list" where
  "lookupd_option_flags =
     [''log-level'', ''log-prefix'', ''tcp-address'', ''http-address'', ''broadcast-address'',
      ''inactive-producer-timeout'', ''tombstone-lifetime'']"

definition admin_option_flags :: "string list" where
  "admin_option_flags =
     [''log-level'', ''log-prefix'', ''http-address'', ''base-path'', ''graphite-url'', ''proxy-graphite'',
      ''statsd-prefix'', ''statsd-counter-format'', ''statsd-gauge-format'', ''statsd-interval'',
      ''lookupd-http-address'', ''nsqd-http-address'', ''http-client-connect-timeout'',
      ''http-client-request-timeout'', ''http-client-tls-insecure-skip-verify'', ''http-client-tls-root-ca-file'',
      ''http-client-tls-cert'', ''http-client-tls-key'', ''allow-config-from-cidr'', ''notification-http-endpoint'',
      ''acl-http-header'', ''admin-user'']"

definition file_option_flags :: "string list" where
  "file_option_flags =
     [''topic'', ''topic-pattern'', ''topic-refresh'', ''channel'', ''nsqd-tcp-address'', ''lookupd-http-address'',
      ''consumer-opt'', ''max-in-flight'', ''http-client-connect-timeout'', ''http-client-request-timeout'',
      ''log-prefix'', ''log-level'', ''output-dir'', ''work-dir'', ''datetime-format'', ''filename-format'',
      ''host-identifier'', ''gzip-level'', ''gzip'', ''skip-empty-files'', ''rotate-size'', ''rotate-interval'',
      ''sync-interval'']"

text \<open>
  A flag declared twice panics at the start, and so does the look-up of the flag of an option that is not declared. Neither
  happens in any of the four programs.
\<close>

lemma nsqd_flags_distinct: "distinct (map fst nsqdFlagSet)"
  by code_simp

lemma nsqd_options_have_flags: "list_all (\<lambda>(field, flag, cfg). flag \<noteq> [] \<longrightarrow> flag \<in> set (map fst nsqdFlagSet)) nsqd_option_fields"
  by code_simp

lemma lookupd_flags_distinct: "distinct (map fst nsqlookupdFlagSet) \<and> list_all (\<lambda>f. f \<in> set (map fst nsqlookupdFlagSet)) lookupd_option_flags"
  by code_simp

lemma admin_flags_distinct: "distinct (map fst nsqadminFlagSet) \<and> list_all (\<lambda>f. f \<in> set (map fst nsqadminFlagSet)) admin_option_flags"
  by code_simp

lemma file_flags_distinct: "distinct (map fst nsq_to_file_flagSet) \<and> list_all (\<lambda>f. f \<in> set (map fst nsq_to_file_flagSet)) file_option_flags"
  by code_simp

section \<open>The TLS options\<close>

text \<open>\<open>strconv.ParseBool\<close> on a text in lower case; an error comes with \<open>false\<close>.\<close>

definition ParseBool_lower :: "string \<Rightarrow> bool \<times> go_error option" where
  "ParseBool_lower s =
     (if s \<in> {''1'', ''t'', ''true''} then (True, None)
      else if s \<in> {''0'', ''f'', ''false''} then (False, None)
      else (False, Some ''invalid syntax''))"

definition tlsRequiredOption_Set :: "string \<Rightarrow> int \<Rightarrow> go_error option \<times> int" where
  "tlsRequiredOption_Set s t =
     (let l = map ascii_lower s in
      if l = ''tcp-https'' then (None, TLSRequiredExceptHTTP)
      else case ParseBool_lower l of (required, err) \<Rightarrow> (err, if required then TLSRequired else TLSNotRequired))"

definition tlsRequiredOption_String :: "int \<Rightarrow> string" where
  "tlsRequiredOption_String t = decimal t"

definition tlsMinVersionOption_Set :: "string \<Rightarrow> u16 \<Rightarrow> go_error option \<times> u16" where
  "tlsMinVersionOption_Set s t =
     (let l = map ascii_lower s in
      if l = [] then (None, t)
      else if l = ''ssl3.0'' then (None, 0x0300)
      else if l = ''tls1.0'' then (None, 0x0301)
      else if l = ''tls1.1'' then (None, 0x0302)
      else if l = ''tls1.2'' then (None, 0x0303)
      else (Some (''unknown tlsVersionOption '' @ l), t))"

definition tlsMinVersionOption_String :: "u16 \<Rightarrow> string" where
  "tlsMinVersionOption_String t = decimal (uint t)"

section \<open>The configuration file\<close>

text \<open>A value is what TOML decodes, or a text the validation has put in its place; \<open>show\<close> is \<open>fmt.Sprintf("%v", v)\<close> for the former.\<close>

datatype 'v cfg_value = CfgRaw 'v | CfgText string

type_synonym 'v nsqd_cfg = "(string \<times> 'v cfg_value) list"

fun cfg_show :: "('v \<Rightarrow> string) \<Rightarrow> 'v cfg_value \<Rightarrow> string" where
  "cfg_show render (CfgRaw v) = render v"
| "cfg_show render (CfgText s) = s"

definition validate_required :: "('v \<Rightarrow> string) \<Rightarrow> 'v nsqd_cfg \<Rightarrow> go_error + 'v nsqd_cfg" where
  "validate_required render cfg =
     (case map_of cfg ''tls_required'' of
        None \<Rightarrow> Inr cfg
      | Some v \<Rightarrow>
          (case tlsRequiredOption_Set (cfg_show render v) 0 of
             (None, t) \<Rightarrow> Inr (amap_put ''tls_required'' (CfgText (tlsRequiredOption_String t)) cfg)
           | (Some e, t) \<Rightarrow> Inl (''failed parsing tls_required '' @ cfg_show render v)))"

definition validate_min_version :: "('v \<Rightarrow> string) \<Rightarrow> 'v nsqd_cfg \<Rightarrow> go_error + 'v nsqd_cfg" where
  "validate_min_version render cfg =
     (case map_of cfg ''tls_min_version'' of
        None \<Rightarrow> Inr cfg
      | Some v \<Rightarrow>
          (case tlsMinVersionOption_Set (cfg_show render v) 0 of
             (None, t) \<Rightarrow>
               let newVal = tlsMinVersionOption_String t in
               Inr (if newVal \<noteq> ''0'' then amap_put ''tls_min_version'' (CfgText newVal) cfg else amap_del ''tls_min_version'' cfg)
           | (Some e, t) \<Rightarrow> Inl (''failed parsing tls_min_version '' @ cfg_show render v)))"

definition config_Validate :: "('v \<Rightarrow> string) \<Rightarrow> 'v nsqd_cfg \<Rightarrow> go_error + 'v nsqd_cfg" where
  "config_Validate render cfg =
     (case validate_required render cfg of Inl e \<Rightarrow> Inl e | Inr cfg1 \<Rightarrow> validate_min_version render cfg1)"

lemma tlsRequired_texts:
  assumes "tlsRequiredOption_Set s t0 = (None, t)"
  shows "tlsRequiredOption_String t \<in> {''0'', ''1'', ''2''}"
proof -
  have "decimal 0 = ''0''" "decimal 1 = ''1''" "decimal 2 = ''2''" by code_simp+
  moreover have "t \<in> {0, 1, 2}"
    using assms by (auto simp: tlsRequiredOption_Set_def TLSRequired_def TLSNotRequired_def TLSRequiredExceptHTTP_def Let_def
        split: if_splits prod.splits)
  ultimately show ?thesis by (auto simp: tlsRequiredOption_String_def)
qed

lemma validate_required_result:
  assumes "validate_required render cfg = Inr cfg1"
  shows "\<exists>t \<in> {''0'', ''1'', ''2''}. map_of cfg1 =
     (if map_of cfg ''tls_required'' = None then map_of cfg else (map_of cfg)(''tls_required'' \<mapsto> CfgText t))"
  using assms tlsRequired_texts
  by (fastforce simp: validate_required_def map_of_amap_put split: option.splits prod.splits)

lemma validate_min_version_result:
  assumes "validate_min_version render cfg = Inr cfg1" "k \<noteq> ''tls_min_version''"
  shows "map_of cfg1 k = map_of cfg k"
  using assms
  by (auto simp: validate_min_version_def map_of_amap_put map_of_amap_del Let_def split: option.splits prod.splits if_splits)

text \<open>After the validation the entry \<open>tls_required\<close> has a value the option understands, and the entries the validation does not know
  are as they were.\<close>

lemma config_Validate_result:
  assumes "config_Validate render cfg = Inr cfg1"
  shows "(\<forall>v. map_of cfg1 ''tls_required'' = Some v \<longrightarrow> v \<in> CfgText ` {''0'', ''1'', ''2''}) \<and>
     (map_of cfg1 ''tls_required'' = None \<longleftrightarrow> map_of cfg ''tls_required'' = None) \<and>
     (\<forall>k. k \<noteq> ''tls_required'' \<and> k \<noteq> ''tls_min_version'' \<longrightarrow> map_of cfg1 k = map_of cfg k)"
proof -
  from assms obtain cfg0 where c: "validate_required render cfg = Inr cfg0" "validate_min_version render cfg0 = Inr cfg1"
    by (auto simp: config_Validate_def split: sum.splits)
  from validate_required_result [OF c(1)] validate_min_version_result [OF c(2)] show ?thesis by (auto split: if_splits)
qed

section \<open>The programs\<close>

datatype 'a program = ProgVersion | ProgFatal go_error | ProgStarted 'a

record 'n started_program =
  pr_daemon :: 'n
  pr_stopped :: bool

text \<open>\<open>file\<close> is the result of decoding the configuration file, if there is one (its name is left out of the error); \<open>resolve\<close> is \<open>options.Resolve\<close>. \<open>None\<close> is what it
  is for the steps of the daemon: a panic, or a loop that has used up its rounds.\<close>

definition load_config :: "(go_error + 'c) option \<Rightarrow> 'c \<Rightarrow> go_error + 'c" where
  "load_config file nocfg =
     (case file of
        None \<Rightarrow> Inr nocfg
      | Some (Inl e) \<Rightarrow> Inl (''failed to load config file - '' @ e)
      | Some (Inr c) \<Rightarrow> Inr c)"

definition nsqd_Start ::
    "bool \<Rightarrow> (go_error + 'v nsqd_cfg) option \<Rightarrow> ('v \<Rightarrow> string) \<Rightarrow> ('v nsqd_cfg \<Rightarrow> Options) \<Rightarrow> (Options \<Rightarrow> go_error + 'b NSQD) \<Rightarrow>
       'b env \<Rightarrow> go_error option \<Rightarrow> 'b NSQD started_program program option" where
  "nsqd_Start version file render resolve new env io =
     (if version then Some ProgVersion
      else case load_config file [] of
        Inl e \<Rightarrow> Some (ProgFatal e)
      | Inr cfg \<Rightarrow>
          (case config_Validate render cfg of
             Inl e \<Rightarrow> Some (ProgFatal e)
           | Inr cfg1 \<Rightarrow>
               (case new (resolve cfg1) of
                  Inl e \<Rightarrow> Some (ProgFatal (''failed to instantiate nsqd - '' @ e))
                | Inr n \<Rightarrow>
                    (case nsqd_LoadMetadata env n of
                       None \<Rightarrow> None
                     | Some (Some e, n1) \<Rightarrow> Some (ProgFatal (''failed to load metadata - '' @ e))
                     | Some (None, n1) \<Rightarrow>
                         (case nsqd_PersistMetadata io n1 of
                            (Some e, n2) \<Rightarrow> Some (ProgFatal (''failed to persist metadata - '' @ e))
                          | (None, n2) \<Rightarrow> Some (ProgStarted \<lparr>pr_daemon = n2, pr_stopped = False\<rparr>))))))"

definition simple_Start ::
    "(go_error \<Rightarrow> string) \<Rightarrow> bool \<Rightarrow> (go_error + 'c) option \<Rightarrow> 'c \<Rightarrow> ('c \<Rightarrow> 'o) \<Rightarrow> ('o \<Rightarrow> go_error + 'n) \<Rightarrow> 'n started_program program" where
  "simple_Start report version file nocfg resolve new =
     (if version then ProgVersion
      else case load_config file nocfg of
        Inl e \<Rightarrow> ProgFatal e
      | Inr cfg \<Rightarrow>
          (case new (resolve cfg) of
             Inl e \<Rightarrow> ProgFatal (report e)
           | Inr n \<Rightarrow> ProgStarted \<lparr>pr_daemon = n, pr_stopped = False\<rparr>))"

text \<open>The format of \<open>nsqlookupd\<close> has no verb for the error, which \<open>fmt\<close> appends as an extra argument.\<close>

definition nsqlookupd_Start ::
    "bool \<Rightarrow> (go_error + 'c) option \<Rightarrow> 'c \<Rightarrow> ('c \<Rightarrow> string \<times> string) \<Rightarrow> (string \<Rightarrow> go_error option) \<Rightarrow> RegistrationDB \<Rightarrow>
       NSQLookupd started_program program" where
  "nsqlookupd_Start version file nocfg resolve listen db =
     simple_Start (\<lambda>e. ''failed to instantiate nsqlookupd%!(EXTRA *errors.errorString='' @ e @ '')'') version file nocfg resolve
       (\<lambda>(tcpAddress, httpAddress). lookupd_New listen tcpAddress httpAddress db)"

definition nsqadmin_Start ::
    "bool \<Rightarrow> (go_error + 'c) option \<Rightarrow> 'c \<Rightarrow> ('c \<Rightarrow> AdminOptions) \<Rightarrow> admin_env \<Rightarrow> 'w \<Rightarrow> stats_store \<Rightarrow> 'w NSQAdmin started_program program" where
  "nsqadmin_Start version file nocfg resolve v w st =
     simple_Start (\<lambda>e. ''failed to instantiate nsqadmin - '' @ e) version file nocfg resolve (admin_New v w st)"

text \<open>\<open>Stop\<close> calls \<open>Exit\<close> once.\<close>

definition program_Stop :: "('n \<Rightarrow> 'n) \<Rightarrow> 'n started_program \<Rightarrow> 'n started_program" where
  "program_Stop exit p = (if pr_stopped p then p else \<lparr>pr_daemon = exit (pr_daemon p), pr_stopped = True\<rparr>)"

lemma program_Stop_once: "program_Stop exit (program_Stop exit p) = program_Stop exit p"
  by (simp add: program_Stop_def)

text \<open>The checks of \<open>main\<close> of \<open>nsq_to_file\<close> on its options.\<close>

definition nsq_to_file_check :: "int \<Rightarrow> int \<Rightarrow> FileOptions \<Rightarrow> go_error option" where
  "nsq_to_file_check connectTimeout requestTimeout opts =
     (if fo_Channel opts = [] then Some ''--channel is required''
      else if connectTimeout \<le> 0 then Some ''--http-client-connect-timeout should be positive''
      else if requestTimeout \<le> 0 then Some ''--http-client-request-timeout should be positive''
      else if fo_NSQDTCPAddrs opts = [] \<and> fo_NSQLookupdHTTPAddrs opts = []
      then Some ''--nsqd-tcp-address or --lookupd-http-address required.''
      else if fo_NSQDTCPAddrs opts \<noteq> [] \<and> fo_NSQLookupdHTTPAddrs opts \<noteq> []
      then Some ''use --nsqd-tcp-address or --lookupd-http-address not both''
      else if fo_GZIPLevel opts < 1 \<or> 9 < fo_GZIPLevel opts
      then Some (''invalid --gzip-level value ('' @ decimal (fo_GZIPLevel opts) @ ''), should be 1-9'')
      else if fo_Topics opts = [] \<and> fo_TopicPattern opts = [] then Some ''--topic or --topic-pattern required''
      else if fo_Topics opts = [] \<and> fo_NSQLookupdHTTPAddrs opts = []
      then Some ''--lookupd-http-address must be specified when no --topic specified''
      else None)"

definition nsq_to_file_options :: "FileOptions \<Rightarrow> FileOptions" where
  "nsq_to_file_options opts = (if fo_WorkDir opts = [] then opts\<lparr>fo_WorkDir := fo_OutputDir opts\<rparr> else opts)"

text \<open>\<open>args\<close> are the arguments that are not flags, \<open>level\<close> the text of the log level. The result are the options the discovery of topics
  runs with.\<close>

definition nsq_to_file_main :: "string list \<Rightarrow> string \<Rightarrow> bool \<Rightarrow> int \<Rightarrow> int \<Rightarrow> FileOptions \<Rightarrow> FileOptions program" where
  "nsq_to_file_main args level version connectTimeout requestTimeout opts =
     (if args \<noteq> [] then ProgFatal ''unknown arguments''
      else if isl (ParseLogLevel level) then ProgFatal ''--log-level is invalid''
      else if version then ProgVersion
      else case nsq_to_file_check connectTimeout requestTimeout opts of
             Some e \<Rightarrow> ProgFatal e
           | None \<Rightarrow> ProgStarted (nsq_to_file_options opts))"

lemma nsq_to_file_main_ready:
  assumes "nsq_to_file_main args level version connectTimeout requestTimeout opts = ProgStarted opts1"
  shows "1 \<le> fo_GZIPLevel opts1 \<and> fo_GZIPLevel opts1 \<le> 9 \<and> (fo_NSQDTCPAddrs opts1 = [] \<longleftrightarrow> fo_NSQLookupdHTTPAddrs opts1 \<noteq> []) \<and>
     (fo_Topics opts1 = [] \<longrightarrow> fo_TopicPattern opts1 \<noteq> [] \<and> fo_NSQLookupdHTTPAddrs opts1 \<noteq> []) \<and>
     (fo_WorkDir opts1 = [] \<longrightarrow> fo_OutputDir opts1 = [])"
  using assms
  by (auto simp: nsq_to_file_main_def nsq_to_file_check_def nsq_to_file_options_def split: if_splits option.splits)

end
