(* ===== verification/Nsq_Latency.thy ===== *)
theory Nsq_Latency
  imports Nsq_Prelude Complex_Main
begin

text \<open>
  \<open>internal/quantile/aggregate.go\<close>: the latencies that several daemons report, merged for display. A percentile is a map from
  names to numbers in which a missing name reads as 0. The new average is computed with floating-point numbers; that expression
  is the argument \<open>avg\<close> (of the two averages and the two counts), the other operations are exact on the finite numbers JSON has. The
  percentiles are sorted by a name that no entry has, so by equal keys: the library keeps the order of up to eleven of them, and
  the model keeps it always.
\<close>

type_synonym percentile = "(string \<times> rat) list"

definition pget :: "percentile \<Rightarrow> string \<Rightarrow> rat" where
  "pget m k = (case map_of m k of None \<Rightarrow> 0 | Some x \<Rightarrow> x)"

record E2eProcessingLatencyAggregate =
  la_Count :: int
  la_Percentiles :: "percentile list"
  la_Topic :: string
  la_Channel :: string
  la_Addr :: string

definition new_aggregate :: "string \<Rightarrow> string \<Rightarrow> string \<Rightarrow> E2eProcessingLatencyAggregate" where
  "new_aggregate addr topic channel =
     \<lparr>la_Count = 0, la_Percentiles = [], la_Topic = topic, la_Channel = channel, la_Addr = addr\<rparr>"

text \<open>\<open>UnmarshalJSON\<close> of a decoded answer; an entry that is \<open>null\<close> is a nil map, and the assignment to it panics.\<close>

definition unmarshal_percentile :: "int \<Rightarrow> percentile \<Rightarrow> percentile" where
  "unmarshal_percentile n p =
     (let x = pget p ''value''
      in amap_put ''count'' (of_int n) (amap_put ''average'' x (amap_put ''max'' x (amap_put ''min'' x p))))"

definition Aggregate_UnmarshalJSON ::
    "int \<Rightarrow> percentile option list \<Rightarrow> string \<Rightarrow> string \<Rightarrow> string \<Rightarrow> E2eProcessingLatencyAggregate option" where
  "Aggregate_UnmarshalJSON n ps topic channel host =
     (if None \<in> set ps then None
      else Some \<lparr>la_Count = n, la_Percentiles = map (\<lambda>p. unmarshal_percentile n (the p)) ps, la_Topic = topic,
                 la_Channel = channel, la_Addr = host\<rparr>)"

text \<open>One round of \<open>Add\<close>: the entry with the quantile of \<open>v\<close>, a new one if there is none, and its update. The minimum is taken of two maxima.\<close>

definition merge_percentile :: "(rat \<Rightarrow> rat \<Rightarrow> rat \<Rightarrow> rat \<Rightarrow> rat) \<Rightarrow> percentile \<Rightarrow> percentile \<Rightarrow> percentile" where
  "merge_percentile avg v p =
     (let p1 = amap_put ''max'' (max (pget v ''max'') (pget p ''max'')) p;
          p2 = amap_put ''min'' (min (pget v ''max'') (pget p1 ''max'')) p1;
          p3 = amap_put ''count'' (pget p2 ''count'' + pget v ''count'') p2
      in if pget p3 ''count'' = 0 then amap_put ''average'' 0 p3
         else amap_put ''average'' (avg (pget v ''average'') (pget p3 ''average'') (pget v ''count'') (pget p3 ''count'')) p3)"

fun add_percentile :: "(rat \<Rightarrow> rat \<Rightarrow> rat \<Rightarrow> rat \<Rightarrow> rat) \<Rightarrow> percentile \<Rightarrow> percentile list \<Rightarrow> percentile list" where
  "add_percentile avg v [] = [merge_percentile avg v [(''quantile'', pget v ''quantile'')]]"
| "add_percentile avg v (p # ps) =
     (if pget v ''quantile'' = pget p ''quantile'' then merge_percentile avg v p # ps else p # add_percentile avg v ps)"

definition sort_percentiles :: "percentile list \<Rightarrow> percentile list" where
  "sort_percentiles ps = sort_key (\<lambda>p. - pget p ''percentile'') ps"

definition Aggregate_Add ::
    "(rat \<Rightarrow> rat \<Rightarrow> rat \<Rightarrow> rat \<Rightarrow> rat) \<Rightarrow> E2eProcessingLatencyAggregate \<Rightarrow> E2eProcessingLatencyAggregate \<Rightarrow>
       E2eProcessingLatencyAggregate" where
  "Aggregate_Add avg e2 e =
     e\<lparr>la_Addr := ''*'', la_Count := la_Count e + la_Count e2,
       la_Percentiles := sort_percentiles (fold (add_percentile avg) (la_Percentiles e2) (la_Percentiles e))\<rparr>"

section \<open>What is shown\<close>

lemma pget_put [simp]: "pget (amap_put k x m) k' = (if k' = k then x else pget m k')"
  by (simp add: pget_def map_of_amap_put)

lemma pget_single [simp]: "pget [(k, x)] k' = (if k' = k then x else 0)"
  by (simp add: pget_def)

definition quantile_entry :: "rat \<Rightarrow> percentile list \<Rightarrow> percentile option" where
  "quantile_entry q ps = find (\<lambda>p. pget p ''quantile'' = q) ps"

lemma merge_keys [simp]:
  "pget (merge_percentile avg v p) ''quantile'' = pget p ''quantile''"
  "pget (merge_percentile avg v p) ''percentile'' = pget p ''percentile''"
  "pget (merge_percentile avg v p) ''max'' = max (pget v ''max'') (pget p ''max'')"
  "pget (merge_percentile avg v p) ''min'' = pget v ''max''"
  "pget (merge_percentile avg v p) ''count'' = pget p ''count'' + pget v ''count''"
  by (simp_all add: merge_percentile_def Let_def min_def max_def)

lemma entry_add:
  "quantile_entry q (add_percentile avg v ps) =
     (if pget v ''quantile'' = q
      then Some (merge_percentile avg v (case quantile_entry q ps of None \<Rightarrow> [(''quantile'', q)] | Some p \<Rightarrow> p))
      else quantile_entry q ps)"
  by (induction ps) (auto simp: quantile_entry_def)

lemma add_percentile_key:
  "\<forall>p \<in> set ps. pget p ''percentile'' = 0 \<Longrightarrow> \<forall>p \<in> set (add_percentile avg v ps). pget p ''percentile'' = 0"
  by (induction ps) auto

lemma sort_percentiles_id:
  assumes "\<forall>p \<in> set ps. pget p ''percentile'' = 0"
  shows "sort_percentiles ps = ps"
proof -
  have "sorted (map (\<lambda>p. - pget p ''percentile'') ps)"
    using assms by (induction ps) auto
  then show ?thesis by (simp add: sort_percentiles_def sort_key_id_if_sorted)
qed

lemma fold_percentile_key:
  "\<forall>p \<in> set ps. pget p ''percentile'' = 0 \<Longrightarrow> \<forall>p \<in> set (fold (add_percentile avg) vs ps). pget p ''percentile'' = 0"
proof (induction vs arbitrary: ps)
  case (Cons v vs)
  from Cons.IH [OF add_percentile_key [OF Cons.prems]] show ?case by simp
qed simp

lemma Aggregates_percentiles:
  assumes "\<forall>p \<in> set (la_Percentiles e). pget p ''percentile'' = 0"
  shows "la_Percentiles (fold (Aggregate_Add avg) es e) =
     fold (add_percentile avg) (concat (map la_Percentiles es)) (la_Percentiles e)"
  using assms
proof (induction es arbitrary: e)
  case (Cons a es)
  have k: "\<forall>p \<in> set (fold (add_percentile avg) (la_Percentiles a) (la_Percentiles e)). pget p ''percentile'' = 0"
    by (rule fold_percentile_key [OF Cons.prems])
  then have "la_Percentiles (Aggregate_Add avg a e) = fold (add_percentile avg) (la_Percentiles a) (la_Percentiles e)"
    by (simp add: Aggregate_Add_def sort_percentiles_id)
  then show ?case using Cons.IH [of "Aggregate_Add avg a e"] k by simp
qed simp

text \<open>The maximum over some values, and 0.\<close>

definition max0 :: "rat list \<Rightarrow> rat" where
  "max0 xs = fold max xs 0"

lemma entry_fold:
  assumes "quantile_entry q ps = Some p"
  shows "\<exists>r. quantile_entry q (fold (add_percentile avg) vs ps) = Some r \<and>
     (let ws = filter (\<lambda>v. pget v ''quantile'' = q) vs in
      pget r ''max'' = fold max (map (\<lambda>v. pget v ''max'') ws) (pget p ''max'') \<and>
      pget r ''count'' = pget p ''count'' + sum_list (map (\<lambda>v. pget v ''count'') ws) \<and>
      pget r ''min'' = (if ws = [] then pget p ''min'' else pget (last ws) ''max''))"
  using assms
proof (induction vs arbitrary: ps p)
  case (Cons v vs)
  show ?case
  proof (cases "pget v ''quantile'' = q")
    case True
    then have "quantile_entry q (add_percentile avg v ps) = Some (merge_percentile avg v p)" using Cons.prems by (simp add: entry_add)
    from Cons.IH [OF this] True show ?thesis by (auto simp: Let_def)
  next
    case False
    then show ?thesis using Cons.IH [of "add_percentile avg v ps" p] Cons.prems by (simp add: entry_add)
  qed
qed (simp add: Let_def)



end
