(* ===== verification/Nsq_AdminPages.thy ===== *)
theory Nsq_AdminPages
  imports Nsq_Servers Nsq_RelayHttp Complex_Main
begin

text \<open>
  The rest of \<open>nsqadmin/http.go\<close>: the table of routes, the index page, the assets, and the two ways to Graphite, the proxy and
  the rate of a metric. The embedded files, the MIME types of the system, the answer of Graphite and the formatting of a
  floating-point quotient are arguments; the template's text is not modelled, only the data it is given.
\<close>

section \<open>Routes\<close>

datatype admin_handler =
    HIndex | HPing | HStaticAsset | HProxy | HTopics | HTopic | HChannel | HNodes | HNode | HCreate | HTopicAction
  | HChannelAction | HTombstone | HDeleteTopic | HDeleteChannel | HCounter | HGraphite | HConfig

datatype admin_format = Undecorated | PlainTextFormat | V1Format

definition admin_routes :: "string \<Rightarrow> bool \<Rightarrow> (string \<times> string \<times> admin_handler \<times> admin_format) list" where
  "admin_routes basePath proxyGraphite =
     map (\<lambda>(m, p, h). (m, path_Join basePath p, h))
       ([(''GET'', ''/'', HIndex, Undecorated), (''GET'', ''/ping'', HPing, PlainTextFormat),
         (''GET'', ''/topics'', HIndex, Undecorated), (''GET'', ''/topics/:topic'', HIndex, Undecorated),
         (''GET'', ''/topics/:topic/:channel'', HIndex, Undecorated), (''GET'', ''/nodes'', HIndex, Undecorated),
         (''GET'', ''/nodes/:node'', HIndex, Undecorated), (''GET'', ''/counter'', HIndex, Undecorated),
         (''GET'', ''/lookup'', HIndex, Undecorated), (''GET'', ''/static/:asset'', HStaticAsset, PlainTextFormat),
         (''GET'', ''/fonts/:asset'', HStaticAsset, PlainTextFormat)] @
        (if proxyGraphite then [(''GET'', ''/render'', HProxy, Undecorated)] else []) @
        [(''GET'', ''/api/topics'', HTopics, V1Format), (''GET'', ''/api/topics/:topic'', HTopic, V1Format),
         (''GET'', ''/api/topics/:topic/:channel'', HChannel, V1Format), (''GET'', ''/api/nodes'', HNodes, V1Format),
         (''GET'', ''/api/nodes/:node'', HNode, V1Format), (''POST'', ''/api/topics'', HCreate, V1Format),
         (''POST'', ''/api/topics/:topic'', HTopicAction, V1Format),
         (''POST'', ''/api/topics/:topic/:channel'', HChannelAction, V1Format),
         (''DELETE'', ''/api/nodes/:node'', HTombstone, V1Format), (''DELETE'', ''/api/topics/:topic'', HDeleteTopic, V1Format),
         (''DELETE'', ''/api/topics/:topic/:channel'', HDeleteChannel, V1Format), (''GET'', ''/api/counter'', HCounter, V1Format),
         (''GET'', ''/api/graphite'', HGraphite, V1Format), (''GET'', ''/config/:opt'', HConfig, V1Format),
         (''PUT'', ''/config/:opt'', HConfig, V1Format)])"

text \<open>The router refuses a method and a path that are registered twice; with the default base path none is.\<close>

lemma admin_routes_distinct: "distinct (map (\<lambda>(m, p, h). (m, p)) (admin_routes ''/'' True))"
  by code_simp

section \<open>Pages\<close>

record index_data =
  ix_Version :: string
  ix_ProxyGraphite :: bool
  ix_GraphEnabled :: bool
  ix_GraphiteURL :: string
  ix_StatsdInterval :: int
  ix_StatsdCounterFormat :: string
  ix_StatsdGaugeFormat :: string
  ix_StatsdPrefix :: string
  ix_NSQLookupd :: "string list"
  ix_IsAdmin :: bool

definition indexHandler :: "'w NSQAdmin \<Rightarrow> admin_req \<Rightarrow> index_data" where
  "indexHandler s req =
     (let o' = ad_opts s in
      \<lparr>ix_Version = version_Binary, ix_ProxyGraphite = ao_ProxyGraphite o', ix_GraphEnabled = (ao_GraphiteURL o' \<noteq> []), ix_GraphiteURL = ao_GraphiteURL o',
       ix_StatsdInterval = go_div (ao_StatsdInterval o') Second, ix_StatsdCounterFormat = ao_StatsdCounterFormat o',
       ix_StatsdGaugeFormat = ao_StatsdGaugeFormat o', ix_StatsdPrefix = ao_StatsdPrefix o',
       ix_NSQLookupd = ao_NSQLookupdHTTPAddresses o', ix_IsAdmin = isAuthorizedAdminRequest s req\<rparr>)"

text \<open>\<open>path.Ext\<close>: from the last dot after the last slash.\<close>

definition path_Ext :: "string \<Rightarrow> string" where
  "path_Ext p =
     (let b = snd (path_Split p) in case last_index (CHR ''.'') b of None \<Rightarrow> [] | Some i \<Rightarrow> drop i b)"

definition asset_type :: "(string \<Rightarrow> string) \<Rightarrow> string \<Rightarrow> string" where
  "asset_type mime name =
     (let ext = path_Ext name; ct = mime ext in
      if ct \<noteq> [] then ct
      else if ext = ''.svg'' then ''image/svg+xml''
      else if ext = ''.woff'' then ''application/font-woff''
      else if ext = ''.ttf'' then ''application/font-sfnt''
      else if ext = ''.eot'' then ''application/vnd.ms-fontobject''
      else if ext = ''.woff2'' then ''application/font-woff2''
      else [])"

text \<open>The asset with its content type; no content type is the empty text.\<close>

definition staticAssetHandler :: "(string \<Rightarrow> bytes option) \<Rightarrow> (string \<Rightarrow> string) \<Rightarrow> string \<Rightarrow> http_err + string \<times> bytes" where
  "staticAssetHandler asset mime name =
     (case asset name of
        None \<Rightarrow> Inl (Err 404 ''NOT_FOUND'')
      | Some b \<Rightarrow> Inr (asset_type mime name, b))"

section \<open>Graphite\<close>

record target_url =
  tu_Scheme :: string
  tu_Host :: string
  tu_User :: "(string \<times> string option) option"

record proxied =
  px_Scheme :: string
  px_Host :: string
  px_BasicAuth :: "(string \<times> string) option"

text \<open>The director of the proxy: a user without a password sends an empty one.\<close>

definition NewSingleHostReverseProxy :: "target_url \<Rightarrow> proxied \<Rightarrow> proxied" where
  "NewSingleHostReverseProxy target req =
     req\<lparr>px_Scheme := tu_Scheme target, px_Host := tu_Host target,
         px_BasicAuth := (case tu_User target of
                            None \<Rightarrow> px_BasicAuth req
                          | Some (user, passwd) \<Rightarrow> Some (user, case passwd of None \<Rightarrow> [] | Some p \<Rightarrow> p))\<rparr>"

text \<open>\<open>url.Values.Encode\<close> sorts by key.\<close>

definition graphite_query :: "int \<Rightarrow> string \<Rightarrow> string" where
  "graphite_query interval target =
     ''/render?format=json&from='' @ QueryEscape (''-'' @ decimal (go_div (interval * 2) Second) @ ''sec'') @
     ''&target='' @ QueryEscape target @
     ''&until='' @ QueryEscape (''-'' @ decimal (go_div interval Second) @ ''sec'')"

text \<open>
  \<open>get\<close> is \<open>GETV1\<close>: the data points of each target, each a list of numbers that may be \<open>null\<close>; \<open>format\<close> formats the rate by the
  seconds of the interval. An answer without a first number panics, which the router answers with an internal error.
\<close>

definition graphiteHandler ::
    "(string \<Rightarrow> go_error + rat option list list list) \<Rightarrow> (rat \<Rightarrow> int \<Rightarrow> string) \<Rightarrow> admin_req \<Rightarrow> 'w NSQAdmin \<Rightarrow> (http_err + string) option" where
  "graphiteHandler get format req s =
     (case NewReqParams (http_req.truncate req) of
        Inl e \<Rightarrow> Some (Inl (Err 400 ''INVALID_REQUEST''))
      | Inr rp \<Rightarrow>
          if ReqParams_Get ''metric'' rp \<noteq> Inr ''rate'' then Some (Inl (Err 400 ''INVALID_ARG_METRIC''))
          else (case ReqParams_Get ''target'' rp of
                  Inl e \<Rightarrow> Some (Inl (Err 400 ''INVALID_ARG_TARGET''))
                | Inr target \<Rightarrow>
                    let interval = ao_StatsdInterval (ad_opts s) in
                    (case get (ao_GraphiteURL (ad_opts s) @ graphite_query interval target) of
                       Inl e \<Rightarrow> Some (Inl (Err 500 ''INTERNAL_ERROR''))
                     | Inr ((((Some rate # _) # _) # _)) \<Rightarrow>
                         Some (Inr (if rate < 0 then ''N/A'' else format rate (go_div interval Second)))
                     | _ \<Rightarrow> None)))"

text \<open>The page shows the controls of an administrator exactly to those whose changes are accepted.\<close>

lemma index_shows_admin: "ix_IsAdmin (indexHandler s req) = isAuthorizedAdminRequest s req"
  by (simp add: indexHandler_def Let_def)

lemma graphiteHandler_panics:
  assumes "get (ao_GraphiteURL (ad_opts s) @ graphite_query (ao_StatsdInterval (ad_opts s)) target) = Inr []"
    "q_Query req = Inr [(''metric'', ''rate'', []), (''target'', target, [])]" "q_Body req = Inr b"
  shows "graphiteHandler get format req s = None"
  using assms by (simp add: graphiteHandler_def NewReqParams_def ReqParams_Get_def http_req.defs Let_def)

end
